(* ===== verification/Prelude.thy ===== *)
theory Prelude
  imports Complex_Main "HOL-Library.Sublist" "HOL-Library.Code_Target_Nat"
begin

text \<open>
  Shared vocabulary of the development: the result type in which every fallible operation of the
  program is modelled (\<open>Inl\<close> an exception, \<open>Inr\<close> a value), its sequencing operator, a traversal
  that stops at the first exception, and the generic facts about lists that several components
  use. The collections \<open>result_simps\<close> and \<open>list_facts\<close> name what the proofs hand to \<open>simp\<close>.
\<close>

named_theorems result_simps \<open>equations and splits of the result type\<close>
named_theorems list_facts \<open>list facts shared by the components\<close>

section \<open>Results\<close>

text \<open>\<open>rbind m f\<close> is ``evaluate \<open>m\<close>; an exception propagates, a value is passed to \<open>f\<close>''.\<close>

definition rbind :: "'e + 'a \<Rightarrow> ('a \<Rightarrow> 'e + 'b) \<Rightarrow> 'e + 'b" where
  "rbind m f = (case m of Inl e \<Rightarrow> Inl e | Inr x \<Rightarrow> f x)"

lemma rbind_Inl [simp, result_simps]: "rbind (Inl e) f = Inl e"
  by (simp add: rbind_def)

lemma rbind_Inr [simp, result_simps]: "rbind (Inr x) f = f x"
  by (simp add: rbind_def)

lemma rbind_eq_Inr: "rbind m f = Inr y \<longleftrightarrow> (\<exists>x. m = Inr x \<and> f x = Inr y)"
  by (cases m) auto

lemma rbind_eq_Inl: "rbind m f = Inl e \<longleftrightarrow> m = Inl e \<or> (\<exists>x. m = Inr x \<and> f x = Inl e)"
  by (cases m) auto

lemma case_sum_eq_Inr:
  "(case m of Inl e \<Rightarrow> Inl (f e) | Inr x \<Rightarrow> g x) = Inr y \<longleftrightarrow> (\<exists>x. m = Inr x \<and> g x = Inr y)"
  by (cases m) auto

lemma rbind_assoc: "rbind (rbind m f) g = rbind m (\<lambda>x. rbind (f x) g)"
  by (cases m) auto

lemma rbind_cong [fundef_cong]:
  "m = m' \<Longrightarrow> (\<And>x. m' = Inr x \<Longrightarrow> f x = f' x) \<Longrightarrow> rbind m f = rbind m' f'"
  by (cases m') auto

text \<open>A loop that evaluates one fallible computation per element and collects the values.\<close>

fun rmap :: "('a \<Rightarrow> 'e + 'b) \<Rightarrow> 'a list \<Rightarrow> 'e + 'b list" where
  "rmap f [] = Inr []"
| "rmap f (x # xs) = rbind (f x) (\<lambda>y. rbind (rmap f xs) (\<lambda>ys. Inr (y # ys)))"

lemma rmap_cong [fundef_cong]:
  "xs = ys \<Longrightarrow> (\<And>x. x \<in> set ys \<Longrightarrow> f x = g x) \<Longrightarrow> rmap f xs = rmap g ys"
proof (induction ys arbitrary: xs)
  case (Cons y ys)
  have "rmap f ys = rmap g ys"
    using Cons.IH [OF refl] Cons.prems(2) by simp
  then show ?case using Cons.prems by simp
qed simp

lemma rmap_Inr_length: "rmap f xs = Inr ys \<Longrightarrow> length ys = length xs"
  by (induction xs arbitrary: ys) (auto simp: rbind_eq_Inr)

lemma rmap_Inr_nth: "rmap f xs = Inr ys \<Longrightarrow> i < length xs \<Longrightarrow> f (xs ! i) = Inr (ys ! i)"
proof (induction xs arbitrary: ys i)
  case (Cons x xs)
  then show ?case by (cases i) (auto simp: rbind_eq_Inr)
qed simp

lemma rmap_Inl: "rmap f xs = Inl e \<Longrightarrow> \<exists>x\<in>set xs. f x = Inl e"
  by (induction xs) (auto simp: rbind_eq_Inl)

lemma rmap_total: "(\<And>x. x \<in> set xs \<Longrightarrow> f x = Inr (g x)) \<Longrightarrow> rmap f xs = Inr (map g xs)"
  by (induction xs) auto

lemma rmap_Inr_Ball: "rmap f xs = Inr ys \<Longrightarrow> x \<in> set xs \<Longrightarrow> \<exists>y\<in>set ys. f x = Inr y"
  by (induction xs arbitrary: ys) (auto simp: rbind_eq_Inr)

section \<open>Lists\<close>

text \<open>Python's \<open>dict.setdefault(k, []).append(v)\<close> on a dictionary kept in insertion order.\<close>

fun bucket_add :: "'k \<Rightarrow> 'v \<Rightarrow> ('k \<times> 'v list) list \<Rightarrow> ('k \<times> 'v list) list" where
  "bucket_add k v [] = [(k, [v])]"
| "bucket_add k v ((k', vs) # bs) =
     (if k = k' then (k', vs @ [v]) # bs else (k', vs) # bucket_add k v bs)"

definition bucket_all :: "('a \<Rightarrow> 'k) \<Rightarrow> ('a \<Rightarrow> 'v) \<Rightarrow> 'a list \<Rightarrow> ('k \<times> 'v list) list" where
  "bucket_all key val xs = fold (\<lambda>x. bucket_add (key x) (val x)) xs []"

text \<open>Lookup of a bucket with the empty list as default, as \<open>defaultdict(list)\<close> gives.\<close>

definition bucket_get :: "('k \<times> 'v list) list \<Rightarrow> 'k \<Rightarrow> 'v list" where
  "bucket_get bs k = (case map_of bs k of None \<Rightarrow> [] | Some vs \<Rightarrow> vs)"

lemma bucket_get_Nil [simp]: "bucket_get [] k = []"
  by (simp add: bucket_get_def)

lemma bucket_get_add:
  "bucket_get (bucket_add k v bs) k' = (if k = k' then bucket_get bs k' @ [v] else bucket_get bs k')"
  by (induction k v bs rule: bucket_add.induct) (auto simp: bucket_get_def split: option.splits)

lemma set_keys_bucket_add: "fst ` set (bucket_add k v bs) = insert k (fst ` set bs)"
  by (induction k v bs rule: bucket_add.induct) auto

lemma distinct_bucket_add: "distinct (map fst bs) \<Longrightarrow> distinct (map fst (bucket_add k v bs))"
proof (induction k v bs rule: bucket_add.induct)
  case (2 k v k' vs bs)
  then show ?case
    using set_keys_bucket_add [of k v bs] by (auto simp flip: set_map)
qed simp

lemma bucket_fold_get:
  "bucket_get (fold (\<lambda>x. bucket_add (key x) (val x)) xs bs) k =
     bucket_get bs k @ map val (filter (\<lambda>x. key x = k) xs)"
  by (induction xs arbitrary: bs) (auto simp: bucket_get_add)

lemma bucket_fold_keys:
  "fst ` set (fold (\<lambda>x. bucket_add (key x) (val x)) xs bs) = fst ` set bs \<union> key ` set xs"
  by (induction xs arbitrary: bs) (auto simp: set_keys_bucket_add)

lemma bucket_fold_distinct:
  "distinct (map fst bs) \<Longrightarrow>
     distinct (map fst (fold (\<lambda>x. bucket_add (key x) (val x)) xs bs))"
  by (induction xs arbitrary: bs) (auto simp: distinct_bucket_add)

lemma bucket_all_get: "bucket_get (bucket_all key val xs) k = map val (filter (\<lambda>x. key x = k) xs)"
  by (simp add: bucket_all_def bucket_fold_get)

lemma bucket_all_keys: "fst ` set (bucket_all key val xs) = key ` set xs"
  by (simp add: bucket_all_def bucket_fold_keys)

lemma bucket_all_distinct: "distinct (map fst (bucket_all key val xs))"
  by (simp add: bucket_all_def bucket_fold_distinct)

lemma bucket_all_mem:
  "(k, vs) \<in> set (bucket_all key val xs) \<longleftrightarrow>
     k \<in> key ` set xs \<and> vs = map val (filter (\<lambda>x. key x = k) xs)"
proof -
  let ?B = "bucket_all key val xs"
  have get: "bucket_get ?B k = map val (filter (\<lambda>x. key x = k) xs)"
    by (rule bucket_all_get)
  show ?thesis
  proof
    assume mem: "(k, vs) \<in> set ?B"
    then have "k \<in> fst ` set ?B" by force
    moreover have "map_of ?B k = Some vs"
      using mem bucket_all_distinct by (intro map_of_is_SomeI) auto
    ultimately show "k \<in> key ` set xs \<and> vs = map val (filter (\<lambda>x. key x = k) xs)"
      using get by (simp add: bucket_get_def bucket_all_keys)
  next
    assume R: "k \<in> key ` set xs \<and> vs = map val (filter (\<lambda>x. key x = k) xs)"
    then have "k \<in> fst ` set ?B" by (simp add: bucket_all_keys)
    then obtain ws where ws: "map_of ?B k = Some ws"
      by (metis map_of_eq_None_iff not_None_eq)
    then have "ws = vs" using get R by (simp add: bucket_get_def)
    then show "(k, vs) \<in> set ?B" using ws map_of_SomeD by fast
  qed
qed

lemma sort_key_sorted [list_facts]: "sorted (map f xs) \<Longrightarrow> sort_key f xs = xs"
  by (induction xs) (simp_all add: insort_is_Cons)

text \<open>The index of the first occurrence of an element, \<open>None\<close> when there is none.\<close>

definition index_of :: "'a \<Rightarrow> 'a list \<Rightarrow> nat option" where
  "index_of c xs = (if c \<in> set xs then Some (length (takeWhile (\<lambda>x. x \<noteq> c) xs)) else None)"

lemma index_of_None [list_facts]: "index_of c xs = None \<longleftrightarrow> c \<notin> set xs"
  by (simp add: index_of_def)

lemma index_of_Some:
  assumes "index_of c xs = Some i"
  shows "i < length xs" and "xs ! i = c" and "c \<notin> set (take i xs)"
proof -
  have mem: "c \<in> set xs" and i: "i = length (takeWhile (\<lambda>x. x \<noteq> c) xs)"
    using assms by (auto simp: index_of_def split: if_splits)
  show lt: "i < length xs"
    using mem takeWhile_eq_all_conv [of "\<lambda>x. x \<noteq> c" xs] length_takeWhile_le [of "\<lambda>x. x \<noteq> c" xs]
      takeWhile_eq_take [of "\<lambda>x. x \<noteq> c" xs]
    by (metis (mono_tags) i nat_less_le take_all_iff)
  show "xs ! i = c"
    using nth_length_takeWhile [of "\<lambda>x. x \<noteq> c" xs] lt by (simp add: i)
  have "take i xs = takeWhile (\<lambda>x. x \<noteq> c) xs"
    by (simp add: i takeWhile_eq_take [symmetric])
  then show "c \<notin> set (take i xs)" by (auto dest: set_takeWhileD)
qed

lemma index_of_append: "c \<notin> set xs \<Longrightarrow> index_of c (xs @ c # ys) = Some (length xs)"
  by (simp add: index_of_def takeWhile_append)

lemma index_of_nth:
  assumes "distinct xs" and "i < length xs"
  shows "index_of (xs ! i) xs = Some i"
proof -
  have "xs ! i \<notin> set (take i xs)"
    using assms by (auto simp: in_set_conv_nth nth_eq_iff_index_eq)
  then show ?thesis
    using index_of_append [of "xs ! i" "take i xs" "drop (Suc i) xs"] id_take_nth_drop [OF assms(2)] assms(2)
    by simp
qed

text \<open>A sorted list whose keys put the elements of \<open>P\<close> first consists of these and then the others.\<close>

lemma sorted_split:
  assumes "sorted (map f xs)" and "\<And>x y. P y \<Longrightarrow> \<not> P x \<Longrightarrow> f y < f x"
  shows "filter P xs @ filter (\<lambda>x. \<not> P x) xs = xs"
  using assms(1)
proof (induction xs)
  case (Cons x xs)
  show ?case
  proof (cases "P x")
    case False
    have "\<not> P y" if "y \<in> set xs" for y
      using Cons.prems assms(2) [of y x] False that by force
    then have "filter P xs = []" "filter (\<lambda>x. \<not> P x) xs = xs" by (auto simp: filter_id_conv)
    then show ?thesis using False by simp
  qed (use Cons in simp)
qed simp

end
