(* ===== verification/PyText.thy ===== *)
theory PyText
  imports Prelude
begin

text \<open>
  Python text. A \<open>str\<close> is a sequence of code points, so it is a \<open>nat list\<close> here and \<open>length\<close>
  counts what Python's \<open>len\<close> counts. The \<open>str\<close> methods that the program uses and that need no
  Unicode table are defined below (searching, splitting, stripping, padding, decimal integers,
  UTF-8). Those that read the Unicode database, the regular-expression engine or the C library
  (\<open>upper\<close>, \<open>casefold\<close>, \<open>unicodedata.normalize\<close>, \<open>re.sub\<close>, \<open>strftime\<close>, ...) are fields
  of the record \<open>pystd\<close>, an argument of every definition that uses them; \<open>ascii_std\<close> is a
  concrete instance, right on ASCII text, at which the witnesses evaluate.
\<close>

type_synonym ustr = "nat list"

text \<open>\<open>U ''abc''\<close> is the Python literal \<open>'abc'\<close>.\<close>

definition U :: "string \<Rightarrow> ustr" where
  "U s = map of_char s"

lemma U_Nil [simp]: "U [] = []"
  by (simp add: U_def)

lemma U_Cons [simp]: "U (c # cs) = of_char c # U cs"
  by (simp add: U_def)

section \<open>The library functions that are parameters\<close>

record pystd =
  std_upper :: "ustr \<Rightarrow> ustr"
  std_lower :: "ustr \<Rightarrow> ustr"
  std_casefold :: "ustr \<Rightarrow> ustr"
  std_nfc :: "ustr \<Rightarrow> ustr"
  std_nfkd :: "ustr \<Rightarrow> ustr"
  std_combining :: "nat \<Rightarrow> bool"
  std_isalpha :: "nat \<Rightarrow> bool"
  std_decimal :: "nat \<Rightarrow> nat option"
  std_float_str :: "real \<Rightarrow> ustr"
  std_strftime :: "ustr \<Rightarrow> nat \<times> nat \<times> nat \<Rightarrow> ustr"
  std_re_sub :: "ustr \<Rightarrow> ustr \<Rightarrow> ustr \<Rightarrow> ustr option"

definition ascii_upper :: "nat \<Rightarrow> nat" where
  "ascii_upper c = (if 97 \<le> c \<and> c \<le> 122 then c - 32 else c)"

definition ascii_lower :: "nat \<Rightarrow> nat" where
  "ascii_lower c = (if 65 \<le> c \<and> c \<le> 90 then c + 32 else c)"

definition ascii_std :: pystd where
  "ascii_std =
     \<lparr>std_upper = map ascii_upper, std_lower = map ascii_lower, std_casefold = map ascii_lower,
      std_nfc = (\<lambda>s. s), std_nfkd = (\<lambda>s. s),
      std_combining = (\<lambda>c. 768 \<le> c \<and> c < 880),
      std_isalpha = (\<lambda>c. 65 \<le> c \<and> c \<le> 90 \<or> 97 \<le> c \<and> c \<le> 122),
      std_decimal = (\<lambda>c. if 48 \<le> c \<and> c \<le> 57 then Some (c - 48) else None),
      std_float_str = (\<lambda>_. U ''0.0''),
      std_strftime = (\<lambda>f _. f),
      std_re_sub = (\<lambda>p r s. Some s)\<rparr>"

section \<open>Searching and splitting\<close>

text \<open>\<open>s.find(c, i)\<close> for a single character; \<open>None\<close> is Python's \<open>-1\<close>.\<close>

definition find_from :: "nat \<Rightarrow> nat \<Rightarrow> ustr \<Rightarrow> nat option" where
  "find_from c i s = map_option (\<lambda>k. i + k) (index_of c (drop i s))"

lemma find_from_Some:
  assumes "find_from c i s = Some k"
  shows "i \<le> k" and "k < length s" and "s ! k = c"
  using assms index_of_Some [of c "drop i s"] by (auto simp: find_from_def)

text \<open>\<open>s.split(c)\<close> for a single separator character.\<close>

fun split_char :: "nat \<Rightarrow> ustr \<Rightarrow> ustr list" where
  "split_char c [] = [[]]"
| "split_char c (x # xs) =
     (if x = c then [] # split_char c xs
      else (case split_char c xs of [] \<Rightarrow> [[x]] | p # ps \<Rightarrow> (x # p) # ps))"

fun join_with :: "ustr \<Rightarrow> ustr list \<Rightarrow> ustr" where
  "join_with sep [] = []"
| "join_with sep [p] = p"
| "join_with sep (p # q # ps) = p @ sep @ join_with sep (q # ps)"

lemma split_char_not_Nil [simp]: "split_char c s \<noteq> []"
  by (cases s) (auto split: list.splits)

lemma split_char_no_sep: "p \<in> set (split_char c s) \<Longrightarrow> c \<notin> set p"
proof (induction s arbitrary: p)
  case (Cons x xs)
  then show ?case by (auto split: if_splits list.splits)
qed simp

lemma split_char_idem: "c \<notin> set s \<Longrightarrow> split_char c s = [s]"
  by (induction s) auto

lemma split_char_append_sep:
  "c \<notin> set p \<Longrightarrow> split_char c (p @ c # s) = p # split_char c s"
  by (induction p) auto

lemma split_char_join:
  "ps \<noteq> [] \<Longrightarrow> \<forall>p\<in>set ps. c \<notin> set p \<Longrightarrow> split_char c (join_with [c] ps) = ps"
  by (induction "[c]" ps rule: join_with.induct)
    (auto simp: split_char_idem split_char_append_sep)

lemma join_split_char: "join_with [c] (split_char c s) = s"
proof (induction s)
  case (Cons x xs)
  obtain p ps where sp: "split_char c xs = p # ps"
    by (meson split_char_not_Nil list.exhaust)
  show ?case
  proof (cases "x = c")
    case True
    then show ?thesis using Cons sp by simp
  next
    case False
    then show ?thesis using Cons sp by (cases ps) auto
  qed
qed simp

lemma split_char_first_len: "length (hd (split_char c s)) \<le> length s"
proof (induction s)
  case (Cons x xs)
  then show ?case by (cases "split_char c xs") auto
qed simp

text \<open>\<open>s.rsplit(c, 1)\<close>: the part before and after the last separator, if there is one.\<close>

definition rsplit1 :: "nat \<Rightarrow> ustr \<Rightarrow> (ustr \<times> ustr) option" where
  "rsplit1 c s =
     (case index_of c (rev s) of None \<Rightarrow> None
      | Some k \<Rightarrow> Some (take (length s - Suc k) s, drop (length s - k) s))"

lemma rsplit1_append: "c \<notin> set q \<Longrightarrow> rsplit1 c (p @ c # q) = Some (p, q)"
  by (simp add: rsplit1_def index_of_append)

lemma rsplit1_None: "rsplit1 c s = None \<longleftrightarrow> c \<notin> set s"
  by (simp add: rsplit1_def index_of_def)

lemma rsplit1_Some:
  assumes "rsplit1 c s = Some (p, q)"
  shows "s = p @ c # q" and "c \<notin> set q"
proof -
  have "c \<in> set s" using assms rsplit1_None [of c s] by auto
  then obtain p' q' where pq: "s = p' @ c # q'" "c \<notin> set q'"
    using split_list_last by metis
  then show "s = p @ c # q" and "c \<notin> set q"
    using assms by (auto simp: rsplit1_append)
qed

text \<open>\<open>s.partition(c)\<close>: the part before the first separator and the part after it.\<close>

definition partition_char :: "nat \<Rightarrow> ustr \<Rightarrow> ustr \<times> ustr" where
  "partition_char c s =
     (case index_of c s of None \<Rightarrow> (s, []) | Some k \<Rightarrow> (take k s, drop (Suc k) s))"

text \<open>\<open>p in s\<close> for a substring, and the position of its first occurrence.\<close>

fun find_sub :: "ustr \<Rightarrow> ustr \<Rightarrow> nat option" where
  "find_sub p [] = (if p = [] then Some 0 else None)"
| "find_sub p (c # cs) = (if prefix p (c # cs) then Some 0 else map_option Suc (find_sub p cs))"

definition contains_sub :: "ustr \<Rightarrow> ustr \<Rightarrow> bool" where
  "contains_sub p s = (find_sub p s \<noteq> None)"

lemma find_sub_None: "find_sub p s = None \<longleftrightarrow> \<not> sublist p s"
  by (induction p s rule: find_sub.induct) (auto simp: sublist_Cons_right)

lemma contains_sub_iff: "contains_sub p s \<longleftrightarrow> sublist p s"
  using find_sub_None [of p s] by (auto simp: contains_sub_def)

section \<open>Whitespace\<close>

text \<open>The code points for which \<open>str.isspace\<close> holds: what \<open>str.strip\<close> removes by default.\<close>

definition is_space :: "nat \<Rightarrow> bool" where
  "is_space c \<longleftrightarrow>
     9 \<le> c \<and> c \<le> 13 \<or> 28 \<le> c \<and> c \<le> 32 \<or> c = 133 \<or> c = 160 \<or> c = 5760 \<or>
     8192 \<le> c \<and> c \<le> 8202 \<or> c = 8232 \<or> c = 8233 \<or> c = 8239 \<or> c = 8287 \<or> c = 12288"

definition rstrip_by :: "(nat \<Rightarrow> bool) \<Rightarrow> ustr \<Rightarrow> ustr" where
  "rstrip_by P s = rev (dropWhile P (rev s))"

definition strip :: "ustr \<Rightarrow> ustr" where
  "strip s = rstrip_by is_space (dropWhile is_space s)"

lemma rstrip_by_last: "rstrip_by P s \<noteq> [] \<Longrightarrow> \<not> P (last (rstrip_by P s))"
  using hd_dropWhile [of P "rev s"] by (auto simp: rstrip_by_def last_rev)

lemma rstrip_by_idem: "rstrip_by P (rstrip_by P s) = rstrip_by P s"
  by (simp add: rstrip_by_def dropWhile_idem)

lemma rstrip_by_fixed: "s = [] \<or> \<not> P (last s) \<Longrightarrow> rstrip_by P s = s"
  by (cases s rule: rev_cases) (auto simp: rstrip_by_def)

lemma rstrip_by_prefix: "prefix (rstrip_by P s) s"
  using suffix_dropWhile [of P "rev s"] by (simp add: rstrip_by_def suffix_to_prefix)

lemma set_rstrip_by: "set (rstrip_by P s) \<subseteq> set s"
  using rstrip_by_prefix set_mono_prefix by blast

section \<open>Decimal integers\<close>

text \<open>\<open>str(n)\<close> of an \<open>int\<close>.\<close>

fun nat_digits :: "nat \<Rightarrow> ustr" where
  "nat_digits n = (if n < 10 then [48 + n] else nat_digits (n div 10) @ [48 + n mod 10])"

declare nat_digits.simps [simp del]

definition int_str :: "int \<Rightarrow> ustr" where
  "int_str n = (if n < 0 then 45 # nat_digits (nat (- n)) else nat_digits (nat n))"

text \<open>
  \<open>int(s)\<close>: surrounding whitespace, an optional sign, then decimal digits of any script with
  single underscores between them, at most 4300 of them (the interpreter's conversion limit).
  \<open>None\<close> is the \<open>ValueError\<close>.
\<close>

fun digits_value :: "(nat \<Rightarrow> nat option) \<Rightarrow> nat \<Rightarrow> ustr \<Rightarrow> nat option" where
  "digits_value dec acc [] = Some acc"
| "digits_value dec acc (c # cs) =
     (case dec c of
        Some d \<Rightarrow> digits_value dec (acc * 10 + d) cs
      | None \<Rightarrow>
          (case cs of
             [] \<Rightarrow> None
           | c' # cs' \<Rightarrow>
               (case dec c' of
                  Some d \<Rightarrow> if c = 95 then digits_value dec (acc * 10 + d) cs' else None
                | None \<Rightarrow> None)))"

definition unsigned_value :: "(nat \<Rightarrow> nat option) \<Rightarrow> ustr \<Rightarrow> nat option" where
  "unsigned_value dec s =
     (case s of [] \<Rightarrow> None
      | c # cs \<Rightarrow> (case dec c of None \<Rightarrow> None | Some d \<Rightarrow> digits_value dec d cs))"

definition parse_int :: "pystd \<Rightarrow> ustr \<Rightarrow> int option" where
  "parse_int std s =
     (let t = strip s in
      case t of
        [] \<Rightarrow> None
      | c # cs \<Rightarrow>
          if 4300 < length (filter (\<lambda>d. std_decimal std d \<noteq> None) t) then None
          else if c = 45 then map_option (\<lambda>n. - int n) (unsigned_value (std_decimal std) cs)
          else if c = 43 then map_option int (unsigned_value (std_decimal std) cs)
          else map_option int (unsigned_value (std_decimal std) t))"

text \<open>\<open>s.zfill(width)\<close>: zeros on the left, after a leading sign.\<close>

definition zfill :: "int \<Rightarrow> ustr \<Rightarrow> ustr" where
  "zfill w s =
     (let k = nat (w - int (length s)) in
      case s of
        [] \<Rightarrow> replicate k 48
      | c # cs \<Rightarrow> if c = 43 \<or> c = 45 then c # replicate k 48 @ cs else replicate k 48 @ s)"

lemma length_zfill: "length (zfill w s) = max (length s) (nat w)"
  by (cases s) (auto simp: zfill_def Let_def)

text \<open>\<open>s[:n]\<close> and \<open>s[-n:]\<close> for an arbitrary integer \<open>n\<close>.\<close>

definition slice_to :: "int \<Rightarrow> 'a list \<Rightarrow> 'a list" where
  "slice_to n s = (if n < 0 then take (nat (int (length s) + n)) s else take (nat n) s)"

definition slice_last :: "nat \<Rightarrow> 'a list \<Rightarrow> 'a list" where
  "slice_last n s = drop (length s - n) s"

section \<open>UTF-8\<close>

text \<open>
  \<open>s.encode('utf-8')\<close>. A lone surrogate makes the codec raise, which is \<open>None\<close>; a code point
  above \<open>0x10FFFF\<close> is no Python character at all.
\<close>

definition utf8_char :: "nat \<Rightarrow> nat list option" where
  "utf8_char c =
     (if c < 128 then Some [c]
      else if c < 2048 then Some [192 + c div 64, 128 + c mod 64]
      else if 55296 \<le> c \<and> c < 57344 then None
      else if c < 65536 then Some [224 + c div 4096, 128 + c div 64 mod 64, 128 + c mod 64]
      else if c < 1114112 then
        Some [240 + c div 262144, 128 + c div 4096 mod 64, 128 + c div 64 mod 64, 128 + c mod 64]
      else None)"

fun utf8_encode :: "ustr \<Rightarrow> nat list option" where
  "utf8_encode [] = Some []"
| "utf8_encode (c # cs) =
     (case utf8_char c of None \<Rightarrow> None
      | Some bs \<Rightarrow> (case utf8_encode cs of None \<Rightarrow> None | Some bs' \<Rightarrow> Some (bs @ bs')))"

definition is_cont :: "nat \<Rightarrow> bool" where
  "is_cont b \<longleftrightarrow> 128 \<le> b \<and> b < 192"

text \<open>\<open>bs.decode('utf-8')\<close> in strict mode; \<open>None\<close> is the \<open>UnicodeDecodeError\<close>.\<close>

fun utf8_decode :: "nat list \<Rightarrow> ustr option" where
  "utf8_decode [] = Some []"
| "utf8_decode (b # bs) =
     (if b < 128 then map_option ((#) b) (utf8_decode bs)
      else if 194 \<le> b \<and> b < 224 then
        (case bs of
           b1 # bs' \<Rightarrow>
             if is_cont b1
             then map_option ((#) ((b - 192) * 64 + (b1 - 128))) (utf8_decode bs')
             else None
         | [] \<Rightarrow> None)
      else if 224 \<le> b \<and> b < 240 then
        (case bs of
           b1 # b2 # bs' \<Rightarrow>
             (let c = (b - 224) * 4096 + (b1 - 128) * 64 + (b2 - 128) in
              if is_cont b1 \<and> is_cont b2 \<and> 2048 \<le> c \<and> \<not> (55296 \<le> c \<and> c < 57344)
              then map_option ((#) c) (utf8_decode bs')
              else None)
         | _ \<Rightarrow> None)
      else if 240 \<le> b \<and> b < 245 then
        (case bs of
           b1 # b2 # b3 # bs' \<Rightarrow>
             (let c = (b - 240) * 262144 + (b1 - 128) * 4096 + (b2 - 128) * 64 + (b3 - 128) in
              if is_cont b1 \<and> is_cont b2 \<and> is_cont b3 \<and> 65536 \<le> c \<and> c < 1114112
              then map_option ((#) c) (utf8_decode bs')
              else None)
         | _ \<Rightarrow> None)
      else None)"

text \<open>Characters that have an encoding.\<close>

definition encodable :: "ustr \<Rightarrow> bool" where
  "encodable s = (utf8_encode s \<noteq> None)"

definition byte_len :: "ustr \<Rightarrow> nat" where
  "byte_len s = (case utf8_encode s of None \<Rightarrow> 0 | Some bs \<Rightarrow> length bs)"

lemma utf8_char_cases:
  assumes "utf8_char c = Some bs"
  obtains "c < 128" "bs = [c]"
    | "128 \<le> c" "c < 2048" "bs = [192 + c div 64, 128 + c mod 64]"
    | "2048 \<le> c" "c < 65536" "\<not> (55296 \<le> c \<and> c < 57344)"
        "bs = [224 + c div 4096, 128 + c div 64 mod 64, 128 + c mod 64]"
    | "65536 \<le> c" "c < 1114112"
        "bs = [240 + c div 262144, 128 + c div 4096 mod 64, 128 + c div 64 mod 64, 128 + c mod 64]"
proof -
  show ?thesis
  proof (cases "c < 128")
    case True
    then show ?thesis using assms that(1) by (simp add: utf8_char_def)
  next
    case F1: False
    show ?thesis
    proof (cases "c < 2048")
      case True
      then show ?thesis using assms F1 that(2) by (simp add: utf8_char_def)
    next
      case F2: False
      show ?thesis
      proof (cases "c < 65536")
        case True
        have "\<not> (55296 \<le> c \<and> c < 57344)"
          using assms F1 F2 by (auto simp: utf8_char_def)
        moreover from this
        have "bs = [224 + c div 4096, 128 + c div 64 mod 64, 128 + c mod 64]"
          using assms True F1 F2 by (auto simp: utf8_char_def split: if_splits)
        ultimately show ?thesis using True F1 F2 that(3) by simp
      next
        case False
        then have "c < 1114112"
          using assms F1 F2 by (simp add: utf8_char_def split: if_splits)
        then show ?thesis using assms False F1 F2 that(4) by (simp add: utf8_char_def)
      qed
    qed
  qed
qed

lemma utf8_decode_char:
  assumes "utf8_char c = Some bs"
  shows "utf8_decode (bs @ rest) = map_option ((#) c) (utf8_decode rest)"
  using assms
proof (cases rule: utf8_char_cases)
  case 1
  then show ?thesis by simp
next
  case 2
  have "2 \<le> c div 64" "c div 64 < 32" using 2 by auto
  then show ?thesis using 2 by (simp add: is_cont_def)
next
  case 3
  have "c div 64 div 64 = c div 4096" by (simp add: div_mult2_eq [symmetric])
  then have "c div 4096 * 4096 + c div 64 mod 64 * 64 + c mod 64 = c"
    using div_mult_mod_eq [of c 64] div_mult_mod_eq [of "c div 64" 64] by linarith
  moreover have "c div 4096 < 16" using 3 by auto
  ultimately show ?thesis using 3 by (simp add: is_cont_def Let_def)
next
  case 4
  have "c div 64 div 64 = c div 4096" and "c div 4096 div 64 = c div 262144"
    by (simp_all add: div_mult2_eq [symmetric])
  then have
    "c div 262144 * 262144 + c div 4096 mod 64 * 4096 + c div 64 mod 64 * 64 + c mod 64 = c"
    using div_mult_mod_eq [of c 64] div_mult_mod_eq [of "c div 64" 64]
      div_mult_mod_eq [of "c div 4096" 64] by linarith
  moreover have "c div 262144 < 5" using 4 by auto
  ultimately show ?thesis using 4 by (simp add: is_cont_def Let_def)
qed

lemma utf8_char_length: "utf8_char c = Some bs \<Longrightarrow> 1 \<le> length bs \<and> length bs \<le> 4"
  by (erule utf8_char_cases) simp_all

text \<open>A character cut in the middle does not decode.\<close>

lemma utf8_decode_cut:
  assumes "utf8_char c = Some bs" and "0 < k" and "k < length bs"
  shows "utf8_decode (take k bs) = None"
  using assms(1)
proof (cases rule: utf8_char_cases)
  case 1
  then show ?thesis using assms by simp
next
  case 2
  then have "k = 1" using assms by simp
  then show ?thesis using 2 by simp
next
  case 3
  then have k: "k = 1 \<or> k = 2" using assms by auto
  show ?thesis using 3(4) k by (elim disjE) (simp_all add: numeral_2_eq_2)
next
  case 4
  then have k: "k = 1 \<or> k = 2 \<or> k = 3" using assms by auto
  show ?thesis using 4(3) k by (elim disjE) (simp_all add: numeral_2_eq_2 numeral_3_eq_3)
qed

lemma utf8_decode_encode: "utf8_encode s = Some bs \<Longrightarrow> utf8_decode bs = Some s"
  by (induction s arbitrary: bs)
    (auto simp: utf8_decode_char split: option.splits)

lemma utf8_encode_append:
  "utf8_encode (s @ t) =
     (case utf8_encode s of None \<Rightarrow> None
      | Some bs \<Rightarrow> (case utf8_encode t of None \<Rightarrow> None | Some bs' \<Rightarrow> Some (bs @ bs')))"
  by (induction s) (auto split: option.splits)

lemma encodable_append [simp]: "encodable (s @ t) \<longleftrightarrow> encodable s \<and> encodable t"
  by (auto simp: encodable_def utf8_encode_append split: option.splits)

lemma byte_len_append: "encodable (s @ t) \<Longrightarrow> byte_len (s @ t) = byte_len s + byte_len t"
  by (auto simp: encodable_def byte_len_def utf8_encode_append split: option.splits)

lemma byte_len_Cons_ge: "encodable (c # s) \<Longrightarrow> Suc (byte_len s) \<le> byte_len (c # s)"
  using utf8_char_length
  by (fastforce simp: encodable_def byte_len_def split: option.splits)

lemma length_le_byte_len: "encodable s \<Longrightarrow> length s \<le> byte_len s"
proof (induction s)
  case (Cons c s)
  have "encodable s" using Cons.prems encodable_append [of "[c]" s] by simp
  then show ?case using Cons.IH byte_len_Cons_ge [OF Cons.prems] by simp
qed simp

lemma encodable_prefix: "prefix p s \<Longrightarrow> encodable s \<Longrightarrow> encodable p"
  by (auto elim: prefixE)

lemma byte_len_mono: "prefix p s \<Longrightarrow> encodable s \<Longrightarrow> byte_len p \<le> byte_len s"
  by (auto elim!: prefixE simp: byte_len_append)

text \<open>The longest prefix of a text whose encoding fits in \<open>n\<close> bytes.\<close>

fun fit :: "nat \<Rightarrow> ustr \<Rightarrow> ustr" where
  "fit n [] = []"
| "fit n (c # cs) =
     (case utf8_char c of None \<Rightarrow> []
      | Some bs \<Rightarrow> if length bs \<le> n then c # fit (n - length bs) cs else [])"

lemma fit_prefix: "prefix (fit n s) s"
  by (induction n s rule: fit.induct) (auto split: option.splits)

lemma byte_len_Cons:
  "utf8_char c = Some cb \<Longrightarrow> encodable s \<Longrightarrow> byte_len (c # s) = length cb + byte_len s"
  by (auto simp: byte_len_def encodable_def)

lemma encodable_Cons: "encodable (c # s) \<longleftrightarrow> utf8_char c \<noteq> None \<and> encodable s"
  by (auto simp: encodable_def split: option.splits)

lemma byte_len_fit: "encodable s \<Longrightarrow> byte_len (fit n s) \<le> n"
proof (induction n s rule: fit.induct)
  case (2 n c cs)
  then obtain cb where cb: "utf8_char c = Some cb" "encodable cs"
    by (auto simp: encodable_Cons)
  show ?case
  proof (cases "length cb \<le> n")
    case True
    have "encodable (fit (n - length cb) cs)"
      using cb(2) fit_prefix encodable_prefix by blast
    then show ?thesis using 2 True cb by (simp add: byte_len_Cons)
  next
    case False
    then show ?thesis using cb by (simp add: byte_len_def)
  qed
qed (simp add: byte_len_def)

lemma fit_longest:
  "encodable s \<Longrightarrow> prefix p s \<Longrightarrow> byte_len p \<le> n \<Longrightarrow> prefix p (fit n s)"
proof (induction n s arbitrary: p rule: fit.induct)
  case (2 n c cs)
  then obtain cb where cb: "utf8_char c = Some cb" "encodable cs"
    by (auto simp: encodable_Cons)
  show ?case
  proof (cases p)
    case Nil
    then show ?thesis by simp
  next
    case (Cons c' p')
    then have p: "p = c # p'" "prefix p' cs" using 2(3) by auto
    have "encodable p'" using cb(2) p(2) encodable_prefix by blast
    then have "length cb + byte_len p' \<le> n" using 2(4) p(1) cb(1) by (simp add: byte_len_Cons)
    then show ?thesis using 2(1) [OF cb(1) _ cb(2) p(2)] cb(1) p(1) by simp
  qed
qed simp

lemma fit_all: "encodable s \<Longrightarrow> byte_len s \<le> n \<Longrightarrow> fit n s = s"
  using fit_longest [of s s n] fit_prefix [of n s] by (simp add: prefix_order.antisym)

text \<open>
  Cutting an encoding at any byte: it decodes exactly when the cut falls between characters, and
  then to the characters before the cut.
\<close>

lemma utf8_decode_take:
  "utf8_encode s = Some bs \<Longrightarrow> n \<le> length bs \<Longrightarrow>
     utf8_decode (take n bs) = (if byte_len (fit n s) = n then Some (fit n s) else None)"
proof (induction s arbitrary: bs n)
  case Nil
  then show ?case by (simp add: byte_len_def)
next
  case (Cons c s)
  then obtain cb bs' where cb: "utf8_char c = Some cb" "utf8_encode s = Some bs'" "bs = cb @ bs'"
    by (auto split: option.splits)
  show ?case
  proof (cases "length cb \<le> n")
    case True
    have "encodable s" using cb(2) by (simp add: encodable_def)
    then have "encodable (fit (n - length cb) s)"
      using fit_prefix encodable_prefix by blast
    then show ?thesis
      using True cb Cons.IH [OF cb(2), of "n - length cb"] Cons.prems(2)
      by (auto simp: byte_len_Cons utf8_decode_char)
  next
    case False
    then show ?thesis
      using cb utf8_decode_cut [OF cb(1), of n] by (auto simp: byte_len_def)
  qed
qed

end
