(* ===== verification/PathLexer.thy ===== *)
theory PathLexer
  imports PyText
begin

text \<open>
  The tokenizer of the path template engine (\<open>paths/lexer.py\<close>) with the template errors of
  \<open>paths/errors.py\<close>. \<open>tokenize\<close> is the scanner with its index, pending-text start and text
  buffer; the lemmas show where tokens lie in the source, that every error points into it, and
  what the scanner does with escaped literal text.
\<close>

section \<open>Errors and tokens\<close>

text \<open>The messages of \<open>TemplateError\<close>, with the values they interpolate.\<close>

datatype template_message =
    UnterminatedBrace
  | InvalidFieldName ustr
  | ExpectedBraceAfter ustr
  | UnexpectedEnd
  | UnexpectedToken ustr
  | NestedTooDeeply nat
  | UnterminatedCall ustr
  | UnknownFunction ustr
  | WrongArity ustr nat nat nat
  | IfdefNeedsBareField

record template_error =
  te_message :: template_message
  te_offset :: nat
  te_template :: ustr

definition template_error_of :: "template_message \<Rightarrow> nat \<Rightarrow> ustr \<Rightarrow> template_error" where
  "template_error_of m i src = \<lparr>te_message = m, te_offset = i, te_template = src\<rparr>"

lemma template_error_of_sel [simp]:
  "te_message (template_error_of m i src) = m" "te_offset (template_error_of m i src) = i"
  "te_template (template_error_of m i src) = src"
  by (simp_all add: template_error_of_def)

datatype token_kind =
  TEXT | DOLLAR_VAR | DOLLAR_BRACE_VAR | PERCENT_FUNC_OPEN | COMMA | BRACE_CLOSE | TEOF

record token =
  tok_kind :: token_kind
  tok_value :: ustr
  tok_offset :: nat

definition Tok :: "token_kind \<Rightarrow> ustr \<Rightarrow> nat \<Rightarrow> token" where
  "Tok k v i = \<lparr>tok_kind = k, tok_value = v, tok_offset = i\<rparr>"

lemma Tok_sel [simp]:
  "tok_kind (Tok k v i) = k" "tok_value (Tok k v i) = v" "tok_offset (Tok k v i) = i"
  by (simp_all add: Tok_def)

section \<open>Identifiers\<close>

definition ident_start :: "nat \<Rightarrow> bool" where
  "ident_start c \<longleftrightarrow> 97 \<le> c \<and> c \<le> 122 \<or> 65 \<le> c \<and> c \<le> 90 \<or> c = 95"

definition ident_cont :: "nat \<Rightarrow> bool" where
  "ident_cont c \<longleftrightarrow> ident_start c \<or> 48 \<le> c \<and> c \<le> 57"

definition is_ident :: "ustr \<Rightarrow> bool" where
  "is_ident name =
     (case name of [] \<Rightarrow> False | c # cs \<Rightarrow> ident_start c \<and> list_all ident_cont cs)"

text \<open>The inner loops \<open>while j < n and source[j] in _IDENT_CONT: j += 1\<close>.\<close>

function scan_ident :: "ustr \<Rightarrow> nat \<Rightarrow> nat" where
  "scan_ident src j =
     (if j < length src \<and> ident_cont (src ! j) then scan_ident src (Suc j) else j)"
  by pat_completeness auto
termination
  by (relation "measure (\<lambda>(src, j). length src - j)") auto

declare scan_ident.simps [simp del]

lemma scan_ident_ge: "j \<le> scan_ident src j"
proof (induction src j rule: scan_ident.induct)
  case (1 src j)
  then show ?case by (subst scan_ident.simps) auto
qed

lemma scan_ident_le: "j \<le> length src \<Longrightarrow> scan_ident src j \<le> length src"
proof (induction src j rule: scan_ident.induct)
  case (1 src j)
  then show ?case by (subst scan_ident.simps) auto
qed

lemma scan_ident_stop:
  "list_all ident_cont w \<Longrightarrow> suf = [] \<or> \<not> ident_cont (hd suf) \<Longrightarrow>
     scan_ident (pre @ w @ suf) (length pre) = length pre + length w"
proof (induction w arbitrary: pre)
  case Nil
  then show ?case by (subst scan_ident.simps) (auto simp: nth_append hd_conv_nth)
next
  case (Cons c w)
  then show ?case
    using Cons.IH [of "pre @ [c]"] by (subst scan_ident.simps) (auto simp: nth_append)
qed

section \<open>The scanner\<close>

text \<open>The local \<open>flush_text(end)\<close>: the pending text becomes a token, if there is any.\<close>

definition flush_text :: "nat option \<Rightarrow> ustr \<Rightarrow> nat \<Rightarrow> token list \<Rightarrow> token list" where
  "flush_text start buf fin toks =
     (if buf = [] then toks
      else toks @ [Tok TEXT buf (case start of None \<Rightarrow> fin | Some s \<Rightarrow> s)])"

definition text_from :: "nat option \<Rightarrow> nat \<Rightarrow> nat option" where
  "text_from start i = (case start of None \<Rightarrow> Some i | Some s \<Rightarrow> Some s)"

text \<open>
  The outer loop. Its state is the index, the start of the pending text, the pending text and
  the tokens so far; the character codes are \<open>$\<close> 36, \<open>%\<close> 37, \<open>,\<close> 44, \<open>{\<close> 123, \<open>}\<close> 125.
\<close>

function lex_loop ::
  "ustr \<Rightarrow> nat \<Rightarrow> nat option \<Rightarrow> ustr \<Rightarrow> token list \<Rightarrow> template_error + token list" where
  "lex_loop src i start buf toks =
     (if i < length src then
        let ch = src ! i;
            next_is = (\<lambda>P. i + 1 < length src \<and> P (src ! (i + 1)))
        in
        if ch = 36 then
          if next_is (\<lambda>c. c = 36) then
            lex_loop src (i + 2) (text_from start i) (buf @ [36]) toks
          else if next_is (\<lambda>c. c = 123) then
            (case find_from 125 (i + 2) src of
               None \<Rightarrow> Inl (template_error_of UnterminatedBrace i src)
             | Some close \<Rightarrow>
                 let name = take (close - (i + 2)) (drop (i + 2) src) in
                 if name = [] \<or> \<not> is_ident name
                 then Inl (template_error_of (InvalidFieldName name) i src)
                 else lex_loop src (close + 1) None []
                        (flush_text start buf i toks @ [Tok DOLLAR_BRACE_VAR name i]))
          else if next_is ident_start then
            let j = scan_ident src (i + 1) in
            lex_loop src j None []
              (flush_text start buf i toks @
                 [Tok DOLLAR_VAR (take (j - (i + 1)) (drop (i + 1) src)) i])
          else lex_loop src (i + 1) (text_from start i) (buf @ [36]) toks
        else if ch = 37 then
          if next_is (\<lambda>c. c = 37) then
            lex_loop src (i + 2) (text_from start i) (buf @ [37]) toks
          else if next_is ident_start then
            let j = scan_ident src (i + 1);
                name = take (j - (i + 1)) (drop (i + 1) src)
            in
            if j \<ge> length src \<or> src ! j \<noteq> 123
            then Inl (template_error_of (ExpectedBraceAfter name) i src)
            else lex_loop src (j + 1) None []
                   (flush_text start buf i toks @ [Tok PERCENT_FUNC_OPEN name i])
          else lex_loop src (i + 1) (text_from start i) (buf @ [37]) toks
        else if ch = 44 then
          lex_loop src (i + 1) None [] (flush_text start buf i toks @ [Tok COMMA [44] i])
        else if ch = 125 then
          lex_loop src (i + 1) None [] (flush_text start buf i toks @ [Tok BRACE_CLOSE [125] i])
        else lex_loop src (i + 1) (text_from start i) (buf @ [ch]) toks
      else Inr (flush_text start buf (length src) toks @ [Tok TEOF [] (length src)]))"
  by pat_completeness auto
termination
proof (relation "measure (\<lambda>(src, i, start, buf, toks). length src - i)", goal_cases)
  case (3 src i start buf toks ch next_is close name)
  then have "i + 2 \<le> close" "close < length src"
    using find_from_Some [of 125 "i + 2" src close] by blast+
  then have "length src - (close + 1) < length src - i" by linarith
  then show ?case by simp
next
  case (4 src i start buf toks ch next_is j)
  then have "i + 1 \<le> j" "i < length src" using scan_ident_ge [of "i + 1" src] by blast+
  then have "length src - j < length src - i" by linarith
  then show ?case by simp
next
  case (7 src i start buf toks ch next_is j name)
  then have "i + 1 \<le> j" "i < length src" using scan_ident_ge [of "i + 1" src] by blast+
  then have "length src - (j + 1) < length src - i" by linarith
  then show ?case by simp
qed auto

declare lex_loop.simps [simp del]

definition tokenize :: "ustr \<Rightarrow> template_error + token list" where
  "tokenize src = lex_loop src 0 None [] []"

section \<open>Where the scanner's tokens and errors lie\<close>

text \<open>
  The invariant of the loop: the tokens so far have increasing offsets below the start of the
  pending text, text is pending exactly when its start is known, and no two text tokens are
  adjacent.
\<close>

definition text_sep :: "token list \<Rightarrow> bool" where
  "text_sep = successively (\<lambda>a b. \<not> (tok_kind a = TEXT \<and> tok_kind b = TEXT))"

definition lex_inv :: "nat \<Rightarrow> nat option \<Rightarrow> ustr \<Rightarrow> token list \<Rightarrow> bool" where
  "lex_inv i start buf toks \<longleftrightarrow>
     sorted_wrt (<) (map tok_offset toks) \<and>
     (\<forall>t\<in>set toks. tok_kind t \<noteq> TEOF \<and> (tok_kind t = TEXT \<longrightarrow> tok_value t \<noteq> []) \<and>
        tok_offset t < (case start of None \<Rightarrow> i | Some s \<Rightarrow> s)) \<and>
     (case start of None \<Rightarrow> buf = [] | Some s \<Rightarrow> buf \<noteq> [] \<and> s < i) \<and>
     text_sep toks \<and> (toks = [] \<or> tok_kind (last toks) \<noteq> TEXT)"

lemma lex_inv_text:
  "lex_inv i start buf toks \<Longrightarrow> i < j \<Longrightarrow> lex_inv j (text_from start i) (buf @ [c]) toks"
  by (auto simp: lex_inv_def text_from_def split: option.splits)

lemma text_sep_snoc:
  "text_sep (toks @ [t]) \<longleftrightarrow>
     text_sep toks \<and> (toks = [] \<or> \<not> (tok_kind (last toks) = TEXT \<and> tok_kind t = TEXT))"
  by (auto simp: text_sep_def successively_append_iff)

lemma text_sep_snoc2:
  "text_sep (toks @ [t, u]) \<longleftrightarrow>
     text_sep (toks @ [t]) \<and> \<not> (tok_kind t = TEXT \<and> tok_kind u = TEXT)"
  by (auto simp: text_sep_def successively_append_iff)

lemma text_sep_small [simp]: "text_sep []" "text_sep [t]"
  by (simp_all add: text_sep_def)

lemma lex_inv_token:
  assumes "lex_inv i start buf toks" and "i < j" and "k \<noteq> TEOF" and "k \<noteq> TEXT"
  shows "lex_inv j None [] (flush_text start buf i toks @ [Tok k v i])"
  using assms
  by (cases start)
    (auto simp: lex_inv_def flush_text_def text_sep_snoc text_sep_snoc2 [of "[]", simplified]
      text_sep_snoc2 sorted_wrt_append dest: less_trans)

definition lex_result_ok :: "ustr \<Rightarrow> template_error + token list \<Rightarrow> bool" where
  "lex_result_ok src r =
     (case r of
        Inl e \<Rightarrow> te_offset e < length src \<and> te_template e = src
      | Inr toks \<Rightarrow>
          \<exists>ts. toks = ts @ [Tok TEOF [] (length src)] \<and>
            sorted_wrt (<) (map tok_offset toks) \<and>
            (\<forall>t\<in>set ts. tok_kind t \<noteq> TEOF \<and> (tok_kind t = TEXT \<longrightarrow> tok_value t \<noteq> [])) \<and>
            text_sep toks)"

lemma lex_inv_done:
  "lex_inv i start buf toks \<Longrightarrow> i = length src \<Longrightarrow>
     lex_result_ok src (Inr (flush_text start buf (length src) toks @ [Tok TEOF [] (length src)]))"
  by (cases start)
    (auto simp: lex_inv_def lex_result_ok_def flush_text_def text_sep_snoc
      text_sep_snoc2 [of "[]", simplified] text_sep_snoc2 sorted_wrt_append dest: less_trans)

lemma lex_loop_ok:
  "lex_inv i start buf toks \<Longrightarrow> i \<le> length src \<Longrightarrow>
     lex_result_ok src (lex_loop src i start buf toks)"
proof (induction src i start buf toks rule: lex_loop.induct)
  case (1 src i start buf toks)
  note IH = "1.IH" [OF _ refl refl, simplified]
  show ?case
  proof (cases "i < length src")
    case False
    then show ?thesis
      using "1.prems" lex_inv_done by (subst lex_loop.simps) auto
  next
    case True
    consider (dd) "src ! i = 36" "i + 1 < length src" "src ! (i + 1) = 36"
      | (db) "src ! i = 36" "i + 1 < length src" "src ! (i + 1) = 123"
      | (dv) "src ! i = 36" "i + 1 < length src" "ident_start (src ! (i + 1))"
      | (dl) "src ! i = 36" "\<not> (i + 1 < length src \<and> (src ! (i + 1) = 36 \<or> src ! (i + 1) = 123
           \<or> ident_start (src ! (i + 1))))"
      | (pp) "src ! i = 37" "i + 1 < length src" "src ! (i + 1) = 37"
      | (pf) "src ! i = 37" "i + 1 < length src" "ident_start (src ! (i + 1))"
      | (pl) "src ! i = 37"
          "\<not> (i + 1 < length src \<and> (src ! (i + 1) = 37 \<or> ident_start (src ! (i + 1))))"
      | (comma) "src ! i = 44" | (close) "src ! i = 125"
      | (plain) "src ! i \<notin> {36, 37, 44, 125}"
      by blast
    then show ?thesis
    proof cases
      case dd
      then show ?thesis
        using True IH(1) "1.prems" lex_inv_text [of i start buf toks "i + 2"]
        by (subst lex_loop.simps) auto
    next
      case db
      show ?thesis
      proof (cases "find_from 125 (i + 2) src")
        case None
        then show ?thesis using True db by (subst lex_loop.simps) (simp add: lex_result_ok_def)
      next
        case (Some c)
        then show ?thesis
          using True db IH(2) "1.prems" find_from_Some [OF Some]
            lex_inv_token [of i start buf toks "c + 1" DOLLAR_BRACE_VAR]
          by (subst lex_loop.simps) (auto simp: lex_result_ok_def Let_def)
      qed
    next
      case dv
      then show ?thesis
        using True IH(3) "1.prems" scan_ident_ge [of "i + 1" src]
          scan_ident_le [of "i + 1" src] lex_inv_token [of i start buf toks _ DOLLAR_VAR]
        by (subst lex_loop.simps) (auto simp: Let_def ident_start_def)
    next
      case dl
      then show ?thesis
        using True IH(4) "1.prems" lex_inv_text [of i start buf toks "i + 1"]
        by (subst lex_loop.simps) auto
    next
      case pp
      then show ?thesis
        using True IH(5) "1.prems" lex_inv_text [of i start buf toks "i + 2"]
        by (subst lex_loop.simps) auto
    next
      case pf
      then show ?thesis
        using True IH(6) "1.prems" scan_ident_ge [of "i + 1" src]
          scan_ident_le [of "i + 1" src] lex_inv_token [of i start buf toks _ PERCENT_FUNC_OPEN]
        by (subst lex_loop.simps) (auto simp: Let_def ident_start_def lex_result_ok_def)
    next
      case pl
      then show ?thesis
        using True IH(7) "1.prems" lex_inv_text [of i start buf toks "i + 1"]
        by (subst lex_loop.simps) auto
    next
      case comma
      then show ?thesis
        using True IH(8) "1.prems" lex_inv_token [of i start buf toks "i + 1" COMMA]
        by (subst lex_loop.simps) auto
    next
      case close
      then show ?thesis
        using True IH(9) "1.prems" lex_inv_token [of i start buf toks "i + 1" BRACE_CLOSE]
        by (subst lex_loop.simps) auto
    next
      case plain
      then show ?thesis
        using True IH(10) "1.prems" lex_inv_text [of i start buf toks "i + 1"]
        by (subst lex_loop.simps) auto
    qed
  qed
qed

lemma tokenize_ok: "lex_result_ok src (tokenize src)"
  unfolding tokenize_def
  by (rule lex_loop_ok) (simp_all add: lex_inv_def text_sep_def)

section \<open>What the scanner does with printed text\<close>

text \<open>Text with its \<open>$\<close> and \<open>%\<close> doubled, the engine's two escapes.\<close>

definition escape :: "ustr \<Rightarrow> ustr" where
  "escape t = concat (map (\<lambda>c. if c = 36 \<or> c = 37 then [c, c] else [c]) t)"

text \<open>Text that a template can hold: no comma and no closing brace (neither has an escape).\<close>

definition plain_text :: "ustr \<Rightarrow> bool" where
  "plain_text t = list_all (\<lambda>c. c \<noteq> 44 \<and> c \<noteq> 125) t"

lemma lex_escape_char:
  assumes "c \<noteq> 44" "c \<noteq> 125"
  shows "lex_loop (pre @ ((if c = 36 \<or> c = 37 then [c, c] else [c]) @ s) @ suf) (length pre) start buf toks =
     lex_loop (pre @ ((if c = 36 \<or> c = 37 then [c, c] else [c]) @ s) @ suf)
       (length (pre @ (if c = 36 \<or> c = 37 then [c, c] else [c])))
       (text_from start (length pre)) (buf @ [c]) toks"
proof -
  consider "c = 36" | "c = 37" | "c \<noteq> 36" "c \<noteq> 37" by blast
  then show ?thesis
  proof cases
    case 1
    then show ?thesis by (subst lex_loop.simps) (simp add: nth_append)
  next
    case 2
    then show ?thesis by (subst lex_loop.simps) (simp add: nth_append)
  next
    case 3
    then show ?thesis using assms by (subst lex_loop.simps) (simp add: nth_append)
  qed
qed

lemma lex_escape:
  "plain_text t \<Longrightarrow>
     lex_loop (pre @ escape t @ suf) (length pre) start buf toks =
     lex_loop (pre @ escape t @ suf) (length pre + length (escape t))
       (if t = [] then start else text_from start (length pre)) (buf @ t) toks"
proof (induction t arbitrary: pre start buf)
  case Nil
  then show ?case by (simp add: escape_def)
next
  case (Cons c t)
  let ?e = "if c = 36 \<or> c = 37 then [c, c] else [c]"
  let ?src = "pre @ escape (c # t) @ suf"
  have esc: "escape (c # t) = ?e @ escape t" by (simp add: escape_def)
  have src: "?src = (pre @ ?e) @ escape t @ suf" by (simp add: esc)
  have t: "plain_text t" and c: "c \<noteq> 44" "c \<noteq> 125" using Cons.prems by (auto simp: plain_text_def)
  have "lex_loop ?src (length pre) start buf toks =
      lex_loop ?src (length (pre @ ?e)) (text_from start (length pre)) (buf @ [c]) toks"
    unfolding esc using c by (rule lex_escape_char)
  also have "\<dots> = lex_loop ?src (length (pre @ ?e) + length (escape t))
      (text_from start (length pre)) ((buf @ [c]) @ t) toks"
    unfolding src Cons.IH [OF t] by (auto simp: text_from_def split: option.splits)
  finally show ?case by (simp add: esc add.assoc)
qed

text \<open>Positions at which the scanner flushes the pending text whatever it is.\<close>

definition at_break :: "ustr \<Rightarrow> nat \<Rightarrow> bool" where
  "at_break src i \<longleftrightarrow>
     i = length src \<or>
     i < length src \<and>
       (src ! i = 44 \<or> src ! i = 125 \<or>
        i + 1 < length src \<and>
          (src ! i = 36 \<and> src ! (i + 1) = 123 \<or> src ! i = 37 \<and> ident_start (src ! (i + 1))))"

lemma flush_flush [simp]: "flush_text None [] i toks = toks"
  by (simp add: flush_text_def)

lemma lex_flush:
  assumes "at_break src i"
  shows "lex_loop src i start buf toks = lex_loop src i None [] (flush_text start buf i toks)"
proof -
  consider "i = length src" | "i < length src" "src ! i = 44" | "i < length src" "src ! i = 125"
    | "i + 1 < length src" "src ! i = 36" "src ! (i + 1) = 123"
    | "i + 1 < length src" "src ! i = 37" "ident_start (src ! (i + 1))"
    using assms by (auto simp: at_break_def)
  then show ?thesis
  proof cases
    case 5
    then have "src ! (i + 1) \<noteq> 37" by (auto simp: ident_start_def)
    then show ?thesis using 5 by (simp add: lex_loop.simps [of src i] Let_def)
  next
    case 4
    then show ?thesis by (simp add: lex_loop.simps [of src i] Let_def split: option.split)
  next
    case 1
    then show ?thesis by (simp add: lex_loop.simps [of src "length src"])
  qed (simp_all add: lex_loop.simps [of src i] Let_def)
qed

lemma is_ident_cont: "is_ident name \<Longrightarrow> list_all ident_cont name"
  by (auto simp: is_ident_def ident_cont_def split: list.splits)

lemma is_ident_chars: "is_ident name \<Longrightarrow> c \<in> set name \<Longrightarrow> c \<noteq> 125 \<and> c \<noteq> 123 \<and> c \<noteq> 36 \<and> c \<noteq> 37"
  using is_ident_cont by (fastforce simp: list_all_iff ident_cont_def ident_start_def)

lemma is_ident_first: "is_ident name \<Longrightarrow> \<exists>c cs. name = c # cs \<and> ident_start c"
  by (auto simp: is_ident_def split: list.splits)

lemma lex_brace_var:
  assumes "is_ident name"
  shows "lex_loop (pre @ 36 # 123 # name @ 125 # suf) (length pre) None [] toks =
     lex_loop (pre @ 36 # 123 # name @ 125 # suf) (length pre + length name + 3) None []
       (toks @ [Tok DOLLAR_BRACE_VAR name (length pre)])"
proof -
  let ?src = "pre @ 36 # 123 # name @ 125 # suf"
  have "index_of 125 (name @ 125 # suf) = Some (length name)"
    by (rule index_of_append) (use is_ident_chars [OF assms] in blast)
  then have "find_from 125 (length pre + 2) ?src = Some (length pre + 2 + length name)"
    by (simp add: find_from_def)
  moreover have "take (length name) (drop (length pre + 2) ?src) = name" by simp
  moreover have "name \<noteq> []" using is_ident_first [OF assms] by auto
  ultimately show ?thesis
    using assms by (subst lex_loop.simps) (simp add: nth_append add.commute numeral_3_eq_3)
qed

lemma lex_func_open:
  assumes "is_ident name"
  shows "lex_loop (pre @ 37 # name @ 123 # suf) (length pre) None [] toks =
     lex_loop (pre @ 37 # name @ 123 # suf) (length pre + length name + 2) None []
       (toks @ [Tok PERCENT_FUNC_OPEN name (length pre)])"
proof -
  let ?src = "pre @ 37 # name @ 123 # suf"
  obtain c cs where n: "name = c # cs" "ident_start c" using is_ident_first [OF assms] by auto
  have "scan_ident ((pre @ [37]) @ name @ 123 # suf) (length (pre @ [37])) =
      length (pre @ [37]) + length name"
    by (rule scan_ident_stop) (use is_ident_cont [OF assms] in \<open>auto simp: ident_cont_def ident_start_def\<close>)
  then have "scan_ident ?src (length pre + 1) = length pre + 1 + length name" by simp
  moreover have "ident_start (?src ! (length pre + 1))" "?src ! (length pre + 1) \<noteq> 37"
    using n by (auto simp: nth_append ident_start_def)
  moreover have "?src ! (length pre + 1 + length name) = 123" by (simp add: nth_append)
  moreover have "take (length name) (drop (length pre + 1) ?src) = name" by simp
  ultimately show ?thesis
    by (subst lex_loop.simps) (simp add: nth_append Let_def)
qed

lemma lex_comma:
  "lex_loop (pre @ 44 # suf) (length pre) None [] toks =
     lex_loop (pre @ 44 # suf) (length pre + 1) None [] (toks @ [Tok COMMA [44] (length pre)])"
  by (subst lex_loop.simps) simp

lemma lex_close:
  "lex_loop (pre @ 125 # suf) (length pre) None [] toks =
     lex_loop (pre @ 125 # suf) (length pre + 1) None []
       (toks @ [Tok BRACE_CLOSE [125] (length pre)])"
  by (subst lex_loop.simps) simp

lemma lex_end:
  "lex_loop src (length src) None [] toks = Inr (toks @ [Tok TEOF [] (length src)])"
  by (subst lex_loop.simps) simp

end
