(* ===== verification/PathParser.thy ===== *)
theory PathParser
  imports PathLexer
begin

text \<open>
  The template AST (\<open>paths/ast.py\<close>) and the recursive-descent parser (\<open>paths/parser.py\<close>).
  The parser's position is the list of tokens still to read; its nesting depth is an argument, as
  the \<open>finally\<close> of \<open>parse_func_call\<close> restores it on every exit. The mutual recursion spends one
  unit of fuel per call: three units per token are always enough, and the index past the last
  token is never read, so the two technical outcomes below never happen.
\<close>

section \<open>The syntax tree\<close>

datatype node =
    Literal ustr nat
  | Variable ustr nat
  | FuncCall ustr "node list list" nat

definition max_func_nesting_depth :: nat where
  "max_func_nesting_depth = 100"

text \<open>The nesting depth of function calls.\<close>

fun node_depth :: "node \<Rightarrow> nat" and nodes_depth :: "node list \<Rightarrow> nat"
  and args_depth :: "node list list \<Rightarrow> nat" where
  "node_depth (Literal t i) = 0"
| "node_depth (Variable n i) = 0"
| "node_depth (FuncCall f as i) = Suc (args_depth as)"
| "nodes_depth [] = 0"
| "nodes_depth (n # ns) = max (node_depth n) (nodes_depth ns)"
| "args_depth [] = 0"
| "args_depth (a # as) = max (nodes_depth a) (args_depth as)"

section \<open>The parser\<close>

text \<open>The outcomes of the parser that are no syntax tree.\<close>

datatype parse_exc = Malformed template_error | PastLastToken | OutOfFuel

definition malformed :: "template_message \<Rightarrow> nat \<Rightarrow> ustr \<Rightarrow> parse_exc + 'a" where
  "malformed m i src = Inl (Malformed (template_error_of m i src))"

text \<open>\<open>peek\<close>: reading \<open>tokens[pos]\<close> past the end would be Python's \<open>IndexError\<close>.\<close>

definition peek :: "token list \<Rightarrow> parse_exc + token" where
  "peek toks = (case toks of [] \<Rightarrow> Inl PastLastToken | t # _ \<Rightarrow> Inr t)"

fun merge_adjacent_literals :: "node list \<Rightarrow> node list" where
  "merge_adjacent_literals (Literal s i # Literal t j # ns) =
     merge_adjacent_literals (Literal (s @ t) i # ns)"
| "merge_adjacent_literals (n # ns) = n # merge_adjacent_literals ns"
| "merge_adjacent_literals [] = []"

text \<open>
  \<open>parse_nodes\<close> is the body of the \<open>while\<close> of the function of that name, with the nodes
  collected so far as its last argument; \<open>parse_args\<close> is the \<open>while True\<close> of
  \<open>parse_func_call\<close>, for the call opened by \<open>op\<close>.
\<close>

function (sequential) parse_nodes :: "nat \<Rightarrow> ustr \<Rightarrow> nat \<Rightarrow> token_kind list \<Rightarrow> token list \<Rightarrow> node list \<Rightarrow>
    parse_exc + node list \<times> token list"
  and parse_func_call :: "nat \<Rightarrow> ustr \<Rightarrow> nat \<Rightarrow> token list \<Rightarrow> parse_exc + node \<times> token list"
  and parse_args :: "nat \<Rightarrow> ustr \<Rightarrow> nat \<Rightarrow> token \<Rightarrow> token list \<Rightarrow> node list list \<Rightarrow>
    parse_exc + node \<times> token list" where
  "parse_nodes 0 src depth stops toks acc = Inl OutOfFuel"
| "parse_nodes (Suc fuel) src depth stops toks acc =
     rbind (peek toks) (\<lambda>tok.
       if tok_kind tok \<in> set stops then Inr (merge_adjacent_literals acc, toks)
       else if tok_kind tok = TEXT then
         parse_nodes fuel src depth stops (tl toks) (acc @ [Literal (tok_value tok) (tok_offset tok)])
       else if tok_kind tok = DOLLAR_VAR \<or> tok_kind tok = DOLLAR_BRACE_VAR then
         parse_nodes fuel src depth stops (tl toks) (acc @ [Variable (tok_value tok) (tok_offset tok)])
       else if tok_kind tok = PERCENT_FUNC_OPEN then
         rbind (parse_func_call fuel src depth toks) (\<lambda>(n, rest).
           parse_nodes fuel src depth stops rest (acc @ [n]))
       else if tok_kind tok = TEOF then malformed UnexpectedEnd (tok_offset tok) src
       else malformed (UnexpectedToken (tok_value tok)) (tok_offset tok) src)"
| "parse_func_call 0 src depth toks = Inl OutOfFuel"
| "parse_func_call (Suc fuel) src depth toks =
     rbind (peek toks) (\<lambda>op.
       if Suc depth > max_func_nesting_depth
       then malformed (NestedTooDeeply max_func_nesting_depth) (tok_offset op) src
       else
         rbind (peek (tl toks)) (\<lambda>tok.
           if tok_kind tok = BRACE_CLOSE
           then Inr (FuncCall (tok_value op) [] (tok_offset op), tl (tl toks))
           else parse_args fuel src (Suc depth) op (tl toks) []))"
| "parse_args 0 src depth op toks args = Inl OutOfFuel"
| "parse_args (Suc fuel) src depth op toks args =
     rbind (parse_nodes fuel src depth [COMMA, BRACE_CLOSE, TEOF] toks []) (\<lambda>(a, rest).
       rbind (peek rest) (\<lambda>tok.
         if tok_kind tok = COMMA then parse_args fuel src depth op (tl rest) (args @ [a])
         else if tok_kind tok = BRACE_CLOSE
         then Inr (FuncCall (tok_value op) (args @ [a]) (tok_offset op), tl rest)
         else malformed (UnterminatedCall (tok_value op)) (tok_offset op) src))"
  by pat_completeness auto
termination
  by (relation "measure (\<lambda>x. case x of Inl (fuel, _) \<Rightarrow> fuel
        | Inr (Inl (fuel, _)) \<Rightarrow> fuel | Inr (Inr (fuel, _)) \<Rightarrow> fuel)") auto

definition parse :: "ustr \<Rightarrow> parse_exc + node list" where
  "parse src =
     (case tokenize src of
        Inl e \<Rightarrow> Inl (Malformed e)
      | Inr toks \<Rightarrow>
          rbind (parse_nodes (3 * length toks + 1) src 0 [TEOF] toks []) (\<lambda>(ns, _). Inr ns))"

section \<open>Totality\<close>

text \<open>What a call with enough fuel on a list that ends with \<open>EOF\<close> guarantees.\<close>

definition ends_eof :: "token list \<Rightarrow> bool" where
  "ends_eof toks \<longleftrightarrow>
     toks \<noteq> [] \<and> tok_kind (last toks) = TEOF \<and> (\<forall>t\<in>set (butlast toks). tok_kind t \<noteq> TEOF)"

lemma ends_eof_tl:
  "ends_eof (t # ts) \<Longrightarrow> tok_kind t \<noteq> TEOF \<Longrightarrow> ends_eof ts"
  by (cases ts) (auto simp: ends_eof_def)

lemma peek_simps [simp]: "peek [] = Inl PastLastToken" "peek (t # ts) = Inr t"
  by (simp_all add: peek_def)

definition good_error :: "ustr \<Rightarrow> token list \<Rightarrow> parse_exc \<Rightarrow> bool" where
  "good_error src toks x \<longleftrightarrow>
     (\<exists>e. x = Malformed e \<and> te_template e = src \<and> te_offset e \<in> tok_offset ` set toks)"

lemma good_error_mono: "good_error src ts x \<Longrightarrow> set ts \<subseteq> set us \<Longrightarrow> good_error src us x"
  by (auto simp: good_error_def)

lemma good_error_malformed:
  "malformed m (tok_offset t) src = Inl x \<Longrightarrow> t \<in> set toks \<Longrightarrow> good_error src toks x"
  by (auto simp: good_error_def malformed_def)

lemma good_error_suffix: "good_error src ts x \<Longrightarrow> suffix ts us \<Longrightarrow> good_error src us x"
  by (rule good_error_mono) (auto dest: set_mono_suffix)

lemma suffix_tl_trans: "suffix r (tl ts) \<Longrightarrow> suffix r ts"
  by (cases ts) (auto simp: suffix_ConsI)

definition nodes_post :: "ustr \<Rightarrow> token_kind list \<Rightarrow> token list \<Rightarrow>
    parse_exc + node list \<times> token list \<Rightarrow> bool" where
  "nodes_post src stops toks r =
     (case r of
        Inl x \<Rightarrow> good_error src toks x
      | Inr (ns, rest) \<Rightarrow> suffix rest toks \<and> ends_eof rest \<and> tok_kind (hd rest) \<in> set stops)"

definition call_post :: "ustr \<Rightarrow> token list \<Rightarrow> token list \<Rightarrow>
    parse_exc + node \<times> token list \<Rightarrow> bool" where
  "call_post src etoks toks r =
     (case r of
        Inl x \<Rightarrow> good_error src etoks x
      | Inr (n, rest) \<Rightarrow> suffix rest toks \<and> ends_eof rest)"

lemma nodes_post_suffix:
  "nodes_post src stops ts r \<Longrightarrow> suffix ts toks \<Longrightarrow> nodes_post src stops toks r"
  by (auto simp: nodes_post_def good_error_suffix split: sum.splits dest: suffix_order.trans)

lemma call_post_suffix:
  "call_post src es ts r \<Longrightarrow> set es \<subseteq> set es' \<Longrightarrow> suffix ts toks \<Longrightarrow> call_post src es' toks r"
  by (auto simp: call_post_def good_error_mono split: sum.splits dest: suffix_order.trans)

lemma ends_eof_Cons: "ends_eof toks \<Longrightarrow> \<exists>t ts. toks = t # ts"
  by (cases toks) (auto simp: ends_eof_def)

lemma parser_total:
  shows "ends_eof toks \<Longrightarrow> 3 * length toks + 1 \<le> fuel \<Longrightarrow> TEOF \<in> set stops \<Longrightarrow>
      nodes_post src stops toks (parse_nodes fuel src depth stops toks acc)"
    and "ends_eof toks \<Longrightarrow> 3 * length toks \<le> fuel \<Longrightarrow> tok_kind (hd toks) = PERCENT_FUNC_OPEN \<Longrightarrow>
      call_post src toks (tl toks) (parse_func_call fuel src depth toks)"
    and "ends_eof toks \<Longrightarrow> 3 * length toks + 2 \<le> fuel \<Longrightarrow>
      call_post src (op # toks) toks (parse_args fuel src depth op toks args)"
proof (induction fuel src depth stops toks acc and fuel src depth toks
    and fuel src depth op toks args
    rule: parse_nodes_parse_func_call_parse_args.induct)
  case (1 src depth stops toks acc)
  then show ?case by simp
next
  case (2 fuel src depth stops toks acc)
  obtain t ts where toks: "toks = t # ts" using ends_eof_Cons "2.prems"(1) by blast
  have suf: "suffix ts toks" by (simp add: toks suffix_ConsI)
  consider (stop) "tok_kind t \<in> set stops"
    | (lit) "tok_kind t \<notin> set stops" "tok_kind t = TEXT"
    | (var) "tok_kind t \<notin> set stops" "tok_kind t = DOLLAR_VAR \<or> tok_kind t = DOLLAR_BRACE_VAR"
    | (func) "tok_kind t \<notin> set stops" "tok_kind t = PERCENT_FUNC_OPEN"
    | (bad) "tok_kind t \<notin> set stops" "tok_kind t = COMMA \<or> tok_kind t = BRACE_CLOSE"
    using "2.prems"(3) by (cases "tok_kind t") auto
  then show ?case
  proof cases
    case stop
    then show ?thesis using "2.prems" toks by (simp add: nodes_post_def)
  next
    case lit
    then have "ends_eof ts" using "2.prems" toks ends_eof_tl by fastforce
    with lit show ?thesis
      using "2.IH"(1) "2.prems" toks suf by (auto intro: nodes_post_suffix)
  next
    case var
    then have "ends_eof ts" using "2.prems" toks ends_eof_tl by fastforce
    with var show ?thesis
      using "2.IH"(2) "2.prems" toks suf by (auto intro: nodes_post_suffix)
  next
    case func
    then have post: "call_post src toks ts (parse_func_call fuel src depth toks)"
      using "2.IH"(3) "2.prems" toks by auto
    show ?thesis
    proof (cases "parse_func_call fuel src depth toks")
      case (Inl x)
      then show ?thesis using func post toks by (simp add: nodes_post_def call_post_def)
    next
      case (Inr p)
      obtain n rest where p: "p = (n, rest)" by (cases p)
      have rest: "suffix rest ts" "ends_eof rest" using post Inr p by (auto simp: call_post_def)
      have "length rest \<le> length ts" using rest(1) by (rule suffix_length_le)
      then have "nodes_post src stops rest (parse_nodes fuel src depth stops rest (acc @ [n]))"
        using "2.IH"(4) [OF _ _ _ _ _ Inr [unfolded p] refl] func rest(2) "2.prems" toks by auto
      then show ?thesis
        using func Inr p toks rest(1) suf
        by (auto intro: nodes_post_suffix dest: suffix_order.trans)
    qed
  next
    case bad
    then show ?thesis
      using "2.prems"(3) toks
      by (auto simp: nodes_post_def good_error_def malformed_def)
  qed
next
  case (3 src depth toks)
  then show ?case by (auto simp: ends_eof_def)
next
  case (4 fuel src depth toks)
  obtain t ts where toks: "toks = t # ts" using ends_eof_Cons "4.prems"(1) by blast
  then have "ends_eof ts" using "4.prems" ends_eof_tl by fastforce
  then obtain u us where ts: "ts = u # us" using ends_eof_Cons by blast
  show ?case
  proof (cases "Suc depth > max_func_nesting_depth")
    case True
    then show ?thesis using toks by (auto simp: call_post_def good_error_def malformed_def)
  next
    case deep: False
    show ?thesis
    proof (cases "tok_kind u = BRACE_CLOSE")
      case True
      then have "ends_eof us" using \<open>ends_eof ts\<close> ts ends_eof_tl by fastforce
      then show ?thesis using True deep toks ts by (simp add: call_post_def suffix_ConsI)
    next
      case False
      have "call_post src (t # ts) ts (parse_args fuel src (Suc depth) t ts [])"
        using "4.IH" [of t u] False deep toks ts \<open>ends_eof ts\<close> "4.prems"(2) by auto
      then show ?thesis using False deep toks ts by simp
    qed
  qed
next
  case (5 src depth op toks args)
  then show ?case by simp
next
  case (6 fuel src depth op toks args)
  let ?r = "parse_nodes fuel src depth [COMMA, BRACE_CLOSE, TEOF] toks []"
  have post: "nodes_post src [COMMA, BRACE_CLOSE, TEOF] toks ?r"
    using "6.IH"(1) "6.prems" by auto
  show ?case
  proof (cases ?r)
    case (Inl x)
    then show ?thesis
      using post by (auto simp: nodes_post_def call_post_def intro: good_error_mono)
  next
    case (Inr p)
    obtain a rest where p: "p = (a, rest)" by (cases p)
    have rest: "suffix rest toks" "ends_eof rest"
      "tok_kind (hd rest) \<in> {COMMA, BRACE_CLOSE, TEOF}"
      using post Inr p by (auto simp: nodes_post_def)
    obtain t ts where ts: "rest = t # ts" using ends_eof_Cons rest(2) by blast
    have len: "Suc (length ts) \<le> length toks" using suffix_length_le [OF rest(1)] ts by simp
    have suf: "suffix ts toks" using rest(1) ts by (auto dest: suffix_ConsD)
    consider "tok_kind t = COMMA" | "tok_kind t = BRACE_CLOSE" | "tok_kind t = TEOF"
      using rest(3) ts by auto
    then show ?thesis
    proof cases
      case 1
      then have "ends_eof ts" using rest(2) ts ends_eof_tl by fastforce
      then have "call_post src (op # ts) ts (parse_args fuel src depth op ts (args @ [a]))"
        using "6.IH"(2) [OF Inr [unfolded p] refl, of t] 1 ts "6.prems"(2) len by auto
      then show ?thesis
        using 1 Inr p ts call_post_suffix [of src "op # ts" ts _ "op # toks" toks]
          set_mono_suffix [OF suf] suf by auto
    next
      case 2
      then have "ends_eof ts" using rest(2) ts ends_eof_tl by fastforce
      then show ?thesis using 2 Inr p ts suf by (simp add: call_post_def)
    next
      case 3
      then show ?thesis using Inr p ts by (auto simp: call_post_def good_error_def malformed_def)
    qed
  qed
qed

text \<open>\<open>parse\<close> always answers, with a syntax tree or with an error that points into the source.\<close>

lemma tokenize_ends_eof:
  assumes "tokenize src = Inr toks"
  shows "ends_eof toks" and "t \<in> set toks \<Longrightarrow> tok_offset t \<le> length src"
proof -
  obtain ts where ts: "toks = ts @ [Tok TEOF [] (length src)]"
    "sorted_wrt (<) (map tok_offset toks)" "\<forall>t\<in>set ts. tok_kind t \<noteq> TEOF"
    using tokenize_ok [of src] assms by (auto simp: lex_result_ok_def)
  then show "ends_eof toks" by (simp add: ends_eof_def)
  show "t \<in> set toks \<Longrightarrow> tok_offset t \<le> length src"
    using ts(1,2) by (auto simp: sorted_wrt_append dest: less_imp_le)
qed

lemma parse_good_error:
  assumes "parse src = Inl x"
  shows "\<exists>e. x = Malformed e \<and> te_template e = src \<and> te_offset e \<le> length src"
proof (cases "tokenize src")
  case (Inl e)
  then show ?thesis
    using assms tokenize_ok [of src] by (auto simp: parse_def lex_result_ok_def)
next
  case (Inr toks)
  note toks = tokenize_ends_eof [OF Inr]
  have "nodes_post src [TEOF] toks (parse_nodes (3 * length toks + 1) src 0 [TEOF] toks [])"
    by (rule parser_total(1)) (simp_all add: toks)
  then have "good_error src toks x"
    using assms Inr by (auto simp: parse_def nodes_post_def rbind_eq_Inl split: sum.splits)
  then show ?thesis using toks(2) by (auto simp: good_error_def)
qed

section \<open>Printing a syntax tree\<close>

text \<open>
  The template that spells a syntax tree: literals escaped, variables in braces. \<open>place\<close> gives
  every node the offset it has in that text when it starts at \<open>o\<close>, and \<open>toks_of\<close> the tokens.
\<close>

fun print_node :: "node \<Rightarrow> ustr" and print_nodes :: "node list \<Rightarrow> ustr"
  and print_args :: "node list list \<Rightarrow> ustr" where
  "print_node (Literal t i) = escape t"
| "print_node (Variable n i) = 36 # 123 # n @ [125]"
| "print_node (FuncCall f as i) = 37 # f @ 123 # print_args as @ [125]"
| "print_nodes [] = []"
| "print_nodes (n # ns) = print_node n @ print_nodes ns"
| "print_args [] = []"
| "print_args (a # as) = print_nodes a @ (if as = [] then [] else 44 # print_args as)"

fun place_node :: "nat \<Rightarrow> node \<Rightarrow> node" and place_nodes :: "nat \<Rightarrow> node list \<Rightarrow> node list"
  and place_args :: "nat \<Rightarrow> node list list \<Rightarrow> node list list" where
  "place_node k (Literal t i) = Literal t k"
| "place_node k (Variable n i) = Variable n k"
| "place_node k (FuncCall f as i) = FuncCall f (place_args (k + length f + 2) as) k"
| "place_nodes k [] = []"
| "place_nodes k (n # ns) = place_node k n # place_nodes (k + length (print_node n)) ns"
| "place_args k [] = []"
| "place_args k (a # as) = place_nodes k a # place_args (k + length (print_nodes a) + 1) as"

fun toks_node :: "nat \<Rightarrow> node \<Rightarrow> token list" and toks_nodes :: "nat \<Rightarrow> node list \<Rightarrow> token list"
  and toks_args :: "nat \<Rightarrow> node list list \<Rightarrow> token list" where
  "toks_node k (Literal t i) = [Tok TEXT t k]"
| "toks_node k (Variable n i) = [Tok DOLLAR_BRACE_VAR n k]"
| "toks_node k (FuncCall f as i) =
     Tok PERCENT_FUNC_OPEN f k # toks_args (k + length f + 2) as @
       [Tok BRACE_CLOSE [125] (k + length f + 2 + length (print_args as))]"
| "toks_nodes k [] = []"
| "toks_nodes k (n # ns) = toks_node k n @ toks_nodes (k + length (print_node n)) ns"
| "toks_args k [] = []"
| "toks_args k (a # as) =
     toks_nodes k a @
       (if as = [] then []
        else Tok COMMA [44] (k + length (print_nodes a)) #
             toks_args (k + length (print_nodes a) + 1) as)"

text \<open>
  The trees that a template can spell: names are identifiers, literals are non-empty, unbroken
  and free of the two characters that have no escape, and no call has one empty argument (which
  the engine reads as no argument).
\<close>

fun is_literal :: "node \<Rightarrow> bool" where
  "is_literal (Literal t i) = True"
| "is_literal n = False"

fun wf_node :: "node \<Rightarrow> bool" and wf_nodes :: "node list \<Rightarrow> bool"
  and wf_args :: "node list list \<Rightarrow> bool" where
  "wf_node (Literal t i) = (t \<noteq> [] \<and> plain_text t)"
| "wf_node (Variable n i) = is_ident n"
| "wf_node (FuncCall f as i) = (is_ident f \<and> as \<noteq> [[]] \<and> wf_args as)"
| "wf_nodes [] = True"
| "wf_nodes (n # ns) =
     (wf_node n \<and> wf_nodes ns \<and> \<not> (is_literal n \<and> ns \<noteq> [] \<and> is_literal (hd ns)))"
| "wf_args [] = True"
| "wf_args (a # as) = (wf_nodes a \<and> wf_args as)"

section \<open>Reading back what was printed\<close>

lemma print_node_break:
  assumes "wf_node n" and "\<not> is_literal n" and "src = pre @ print_node n @ suf"
  shows "at_break src (length pre)"
proof (cases n)
  case (FuncCall f as i)
  then have "is_ident f" using assms(1) by simp
  then obtain c cs where "f = c # cs" "ident_start c" using is_ident_first by blast
  then show ?thesis using FuncCall assms(3) by (simp add: at_break_def nth_append)
qed (use assms in \<open>auto simp: at_break_def nth_append\<close>)

definition delimited :: "ustr \<Rightarrow> bool" where
  "delimited suf \<longleftrightarrow> suf = [] \<or> hd suf = 44 \<or> hd suf = 125"

lemma delimited_break: "delimited suf \<Longrightarrow> at_break (pre @ suf) (length pre)"
  by (cases suf) (auto simp: delimited_def at_break_def nth_append)

lemma lex_print:
  shows "wf_node n \<Longrightarrow> src = pre @ print_node n @ suf \<Longrightarrow>
      (is_literal n \<Longrightarrow> at_break src (length pre + length (print_node n))) \<Longrightarrow>
      lex_loop src (length pre) None [] toks =
      lex_loop src (length pre + length (print_node n)) None [] (toks @ toks_node (length pre) n)"
    and "wf_nodes ns \<Longrightarrow> src = pre @ print_nodes ns @ suf \<Longrightarrow> delimited suf \<Longrightarrow>
      lex_loop src (length pre) None [] toks =
      lex_loop src (length pre + length (print_nodes ns)) None [] (toks @ toks_nodes (length pre) ns)"
    and "wf_args as \<Longrightarrow> src = pre @ print_args as @ suf \<Longrightarrow> delimited suf \<Longrightarrow>
      lex_loop src (length pre) None [] toks =
      lex_loop src (length pre + length (print_args as)) None [] (toks @ toks_args (length pre) as)"
proof (induction n and ns and as arbitrary: src pre suf toks and src pre suf toks
    and src pre suf toks rule: print_node_print_nodes_print_args.induct)
  case (1 t i)
  then have t: "plain_text t" "t \<noteq> []" and src: "src = pre @ escape t @ suf"
    and br: "at_break src (length pre + length (escape t))" by auto
  have "lex_loop src (length pre) None [] toks =
      lex_loop src (length pre + length (escape t)) (Some (length pre)) t toks"
    using lex_escape [OF t(1), of pre suf None "[]" toks] t(2) by (simp add: src text_from_def)
  also have "\<dots> = lex_loop src (length pre + length (escape t)) None [] (toks @ [Tok TEXT t (length pre)])"
    using lex_flush [OF br, of "Some (length pre)" t toks] t(2) by (simp add: flush_text_def)
  finally show ?case by simp
next
  case (2 n i)
  then show ?case using lex_brace_var [of n pre suf toks] by (simp add: numeral_3_eq_3)
next
  case (3 f as i)
  let ?pre = "pre @ 37 # f @ [123]"
  let ?open = "toks @ [Tok PERCENT_FUNC_OPEN f (length pre)]"
  have src: "src = ?pre @ print_args as @ 125 # suf" using "3.prems" by simp
  have "lex_loop src (length pre) None [] toks = lex_loop src (length ?pre) None [] ?open"
    using lex_func_open [of f pre "print_args as @ 125 # suf" toks] "3.prems" by simp
  also have "\<dots> = lex_loop src (length (?pre @ print_args as)) None []
      (?open @ toks_args (length ?pre) as)"
    using "3.IH" [OF _ src] "3.prems" by (simp add: delimited_def add.assoc)
  also have "\<dots> = lex_loop src (length (?pre @ print_args as) + 1) None []
      ((?open @ toks_args (length ?pre) as) @
         [Tok BRACE_CLOSE [125] (length (?pre @ print_args as))])"
    using lex_close [of "?pre @ print_args as" suf "?open @ toks_args (length ?pre) as"]
    unfolding src by simp
  finally show ?case by (simp add: add.assoc)
next
  case 4
  then show ?case by simp
next
  case (5 n ns)
  have src: "src = pre @ print_node n @ (print_nodes ns @ suf)"
    and src': "src = (pre @ print_node n) @ print_nodes ns @ suf" using "5.prems" by simp_all
  have br: "at_break src (length pre + length (print_node n))" if lit: "is_literal n"
  proof (cases ns)
    case Nil
    then show ?thesis
      using delimited_break [OF "5.prems"(3), of "pre @ print_node n"] src by simp
  next
    case (Cons m ms)
    then have "wf_node m" "\<not> is_literal m" using "5.prems"(1) lit by auto
    then show ?thesis
      using print_node_break [of m src "pre @ print_node n" "print_nodes ms @ suf"] Cons src by simp
  qed
  show ?case
    using "5.IH"(1) [OF _ src br, of toks] "5.IH"(2) [OF _ src' "5.prems"(3)] "5.prems"(1)
    by (simp add: add.assoc)
next
  case 6
  then show ?case by simp
next
  case (7 a as)
  show ?case
  proof (cases "as = []")
    case True
    then show ?thesis using "7.IH"(1) [of src pre suf toks] "7.prems" by simp
  next
    case False
    let ?pre = "pre @ print_nodes a"
    have src: "src = pre @ print_nodes a @ (44 # print_args as @ suf)"
      and src': "src = (?pre @ [44]) @ print_args as @ suf"
      using "7.prems"(2) False by simp_all
    have "lex_loop src (length pre) None [] toks =
        lex_loop src (length ?pre) None [] (toks @ toks_nodes (length pre) a)"
      using "7.IH"(1) [OF _ src] "7.prems"(1) by (simp add: delimited_def)
    also have "\<dots> = lex_loop src (length (?pre @ [44])) None []
        (toks @ toks_nodes (length pre) a @ [Tok COMMA [44] (length ?pre)])"
      using lex_comma [of ?pre "print_args as @ suf" "toks @ toks_nodes (length pre) a"]
      unfolding src by simp
    also have "\<dots> = lex_loop src (length (?pre @ [44]) + length (print_args as)) None []
        (toks @ toks_args (length pre) (a # as))"
      using "7.IH"(2) [OF False _ src' "7.prems"(3)] "7.prems"(1) False by simp
    finally show ?thesis using False by (simp add: add.assoc)
  qed
qed

lemma tokenize_print:
  assumes "wf_nodes ns"
  shows "tokenize (print_nodes ns) =
    Inr (toks_nodes 0 ns @ [Tok TEOF [] (length (print_nodes ns))])"
  using lex_print(2) [OF assms, of "print_nodes ns" "[]" "[]" "[]"] lex_end [of "print_nodes ns"]
  by (simp add: tokenize_def delimited_def)

lemma merge_separated:
  "wf_nodes ns \<Longrightarrow> merge_adjacent_literals ns = ns"
proof (induction ns rule: merge_adjacent_literals.induct)
  case (1 s i t j ns)
  then show ?case by simp
qed auto

lemma is_literal_place [simp]: "is_literal (place_node k n) = is_literal n"
  by (cases n) auto

lemma place_nodes_eq_Nil [simp]: "place_nodes k ns = [] \<longleftrightarrow> ns = []"
  by (cases ns) auto

lemma place_args_Nil_iff [simp]: "place_args k as = [[]] \<longleftrightarrow> as = [[]]"
  by (cases as rule: list.exhaust [case_names Nil Cons]; cases "tl as") (auto split: list.splits)

lemma wf_place:
  shows "wf_node n \<Longrightarrow> wf_node (place_node k n)"
    and "wf_nodes ns \<Longrightarrow> wf_nodes (place_nodes k ns)"
    and "wf_args as \<Longrightarrow> wf_args (place_args k as)"
proof (induction n and ns and as arbitrary: k and k and k rule: print_node_print_nodes_print_args.induct)
  case (5 n ns)
  then show ?case by (cases ns) auto
next
  case (7 a as)
  then show ?case by (cases "as = []") auto
qed auto

lemma toks_node_first: "wf_node n \<Longrightarrow> \<exists>t ts. toks_node k n = t # ts \<and> tok_kind t \<notin> {COMMA, BRACE_CLOSE, TEOF}"
  by (cases n) auto

lemma toks_args_first:
  assumes "wf_args as" and "as \<noteq> [[]]" and "as \<noteq> []"
  shows "\<exists>t ts. toks_args k as = t # ts \<and> tok_kind t \<noteq> BRACE_CLOSE"
proof -
  obtain a as' where as: "as = a # as'" using assms(3) by (cases as) auto
  show ?thesis
  proof (cases a)
    case Nil
    then show ?thesis using as assms(2) by simp
  next
    case (Cons n ns)
    then show ?thesis using as assms(1) toks_node_first [of n k] by auto
  qed
qed

lemma parse_print:
  shows "wf_node n \<Longrightarrow> (case n of FuncCall f as i \<Rightarrow> depth + node_depth n \<le> max_func_nesting_depth \<longrightarrow>
        3 * length (toks_node k n @ rest) \<le> fuel \<longrightarrow>
        parse_func_call fuel src depth (toks_node k n @ rest) = Inr (place_node k n, rest)
      | _ \<Rightarrow> True)"
    and "wf_nodes ns \<Longrightarrow> depth + nodes_depth ns \<le> max_func_nesting_depth \<Longrightarrow>
        3 * length (toks_nodes k ns @ rest) + 1 \<le> fuel \<Longrightarrow>
        rest \<noteq> [] \<Longrightarrow> tok_kind (hd rest) \<in> set stops \<Longrightarrow>
        set stops \<subseteq> {COMMA, BRACE_CLOSE, TEOF} \<Longrightarrow>
        parse_nodes fuel src depth stops (toks_nodes k ns @ rest) acc =
          Inr (merge_adjacent_literals (acc @ place_nodes k ns), rest)"
    and "wf_args as \<Longrightarrow> as \<noteq> [] \<Longrightarrow> depth + args_depth as \<le> max_func_nesting_depth \<Longrightarrow>
        3 * length (toks_args k as @ Tok BRACE_CLOSE v j # rest) + 2 \<le> fuel \<Longrightarrow>
        parse_args fuel src depth op (toks_args k as @ Tok BRACE_CLOSE v j # rest) args =
          Inr (FuncCall (tok_value op) (args @ place_args k as) (tok_offset op), rest)"
proof (induction n and ns and as arbitrary: depth k rest fuel and depth k rest fuel stops acc
    and depth k rest fuel v j op args rule: print_node_print_nodes_print_args.induct)
  case (1 t i)
  then show ?case by simp
next
  case (2 n i)
  then show ?case by simp
next
  case (3 f as i)
  let ?op = "Tok PERCENT_FUNC_OPEN f k"
  let ?cl = "Tok BRACE_CLOSE [125] (k + length f + 2 + length (print_args as))"
  show ?case
  proof (simp only: node.case, intro impI)
    assume d: "depth + node_depth (FuncCall f as i) \<le> max_func_nesting_depth"
      and fuel: "3 * length (toks_node k (FuncCall f as i) @ rest) \<le> fuel"
    obtain fuel' where fuel': "fuel = Suc fuel'" using fuel by (cases fuel) auto
    show "parse_func_call fuel src depth (toks_node k (FuncCall f as i) @ rest) =
        Inr (place_node k (FuncCall f as i), rest)"
    proof (cases "as = []")
      case True
      then show ?thesis using d fuel' by simp
    next
      case False
      then obtain t ts where t: "toks_args (k + length f + 2) as = t # ts" "tok_kind t \<noteq> BRACE_CLOSE"
        using toks_args_first [of as "k + length f + 2"] "3.prems" by auto
      have "parse_args fuel' src (Suc depth) ?op (toks_args (k + length f + 2) as @ ?cl # rest) [] =
          Inr (FuncCall f (place_args (k + length f + 2) as) k, rest)"
        using "3.IH" [of "Suc depth"] "3.prems" False d fuel fuel' by simp
      then show ?thesis using d fuel' t by simp
    qed
  qed
next
  case 4
  then obtain fuel' t ts where "fuel = Suc fuel'" "rest = t # ts"
    by (cases fuel; cases rest) auto
  then show ?case using 4 by simp
next
  case (5 n ns)
  then obtain fuel' where fuel': "fuel = Suc fuel'" by (cases fuel) auto
  have IH: "parse_nodes fuel'' src depth stops
        (toks_nodes (k + length (print_node n)) ns @ rest) (acc @ [place_node k n]) =
      Inr (merge_adjacent_literals (acc @ place_nodes k (n # ns)), rest)"
    if "3 * length (toks_nodes (k + length (print_node n)) ns @ rest) + 1 \<le> fuel''" for fuel''
    using "5.IH"(2) [of depth "k + length (print_node n)" rest fuel'' stops] "5.prems" that by simp
  show ?case
  proof (cases n)
    case (Literal t i)
    then show ?thesis using IH [of fuel'] "5.prems" fuel' by auto
  next
    case (Variable v i)
    then show ?thesis using IH [of fuel'] "5.prems" fuel' by auto
  next
    case (FuncCall f as i)
    let ?rest = "toks_nodes (k + length (print_node n)) ns @ rest"
    have "parse_func_call fuel' src depth (toks_node k n @ ?rest) = Inr (place_node k n, ?rest)"
      using "5.IH"(1) [of depth k ?rest fuel'] "5.prems" FuncCall fuel' by simp
    then show ?thesis using IH [of fuel'] "5.prems" fuel' FuncCall by auto
  qed
next
  case 6
  then show ?case by simp
next
  case (7 a as)
  then obtain fuel' where fuel': "fuel = Suc fuel'" by (cases fuel) auto
  have merge: "merge_adjacent_literals (place_nodes k a) = place_nodes k a"
    using "7.prems"(1) merge_separated wf_place(2) by simp
  let ?stops = "[COMMA, BRACE_CLOSE, TEOF]"
  show ?case
  proof (cases "as = []")
    case True
    have "parse_nodes fuel' src depth ?stops (toks_nodes k a @ Tok BRACE_CLOSE v j # rest) [] =
        Inr (place_nodes k a, Tok BRACE_CLOSE v j # rest)"
      using "7.IH"(1) [of depth k "Tok BRACE_CLOSE v j # rest" fuel' ?stops "[]"] "7.prems" True fuel'
        merge by simp
    then show ?thesis using True fuel' by simp
  next
    case False
    let ?k = "k + length (print_nodes a)"
    let ?rest = "Tok COMMA [44] ?k # toks_args (?k + 1) as @ Tok BRACE_CLOSE v j # rest"
    have "parse_nodes fuel' src depth ?stops (toks_nodes k a @ ?rest) [] = Inr (place_nodes k a, ?rest)"
      using "7.IH"(1) [of depth k ?rest fuel' ?stops "[]"] "7.prems" False fuel' merge by simp
    moreover have "parse_args fuel' src depth op
        (toks_args (?k + 1) as @ Tok BRACE_CLOSE v j # rest) (args @ [place_nodes k a]) =
      Inr (FuncCall (tok_value op) ((args @ [place_nodes k a]) @ place_args (?k + 1) as) (tok_offset op), rest)"
      using "7.IH"(2) [of depth "?k + 1" v j rest fuel' op] "7.prems" False fuel' by simp
    ultimately show ?thesis using False fuel' by simp
  qed
qed

lemma parse_print_nodes:
  assumes "wf_nodes ns" and "nodes_depth ns \<le> max_func_nesting_depth"
  shows "parse (print_nodes ns) = Inr (place_nodes 0 ns)"
  using parse_print(2) [OF assms(1), of 0 0 "[Tok TEOF [] (length (print_nodes ns))]" _ "[TEOF]"
      "print_nodes ns" "[]"] assms(2) merge_separated [OF wf_place(2) [OF assms(1), of 0]]
  by (simp add: parse_def tokenize_print [OF assms(1)])

end
