(* ===== verification/PathSanitize.thy ===== *)
theory PathSanitize
  imports PyText
begin

text \<open>
  Sanitizing one path component (\<open>paths/sanitize.py\<close>): user substitutions, reserved characters,
  NFC, trailing dots and spaces, Windows device names, and the clamp to a number of UTF-8 bytes.
  The outcomes beside a text are \<open>re.error\<close> of a malformed user pattern and the
  \<open>UnicodeEncodeError\<close> of a lone surrogate.
\<close>

datatype sanitize_exc = BadPattern | CannotEncode

section \<open>Constants\<close>

text \<open>\<open>_RESERVED_CHARS_RE\<close>: the character class \<open>[<>:"/\\|?*\x00-\x1f]\<close>.\<close>

definition reserved_char :: "nat \<Rightarrow> bool" where
  "reserved_char c \<longleftrightarrow> c \<in> set (U ''<>:/|?*'') \<or> c = 34 \<or> c = 92 \<or> c < 32"

definition windows_reserved :: "ustr list" where
  "windows_reserved =
     [U ''CON'', U ''PRN'', U ''AUX'', U ''NUL''] @
     map (\<lambda>i. U ''COM'' @ nat_digits i) [1..<10] @ map (\<lambda>i. U ''LPT'' @ nat_digits i) [1..<10]"

definition default_replacement :: ustr where
  "default_replacement = U ''_''"

definition default_max_bytes :: nat where
  "default_max_bytes = 255"

section \<open>The steps\<close>

text \<open>The \<open>for pattern, repl in replacements\<close> loop.\<close>

fun apply_replacements :: "pystd \<Rightarrow> (ustr \<times> ustr) list \<Rightarrow> ustr \<Rightarrow> sanitize_exc + ustr" where
  "apply_replacements std [] s = Inr s"
| "apply_replacements std ((pattern, repl) # rs) s =
     (case std_re_sub std pattern repl s of
        None \<Rightarrow> Inl BadPattern
      | Some t \<Rightarrow> apply_replacements std rs t)"

text \<open>\<open>_RESERVED_CHARS_RE.sub(substitute, result)\<close>: every match is a single character.\<close>

definition sub_reserved :: "ustr \<Rightarrow> ustr \<Rightarrow> ustr" where
  "sub_reserved substitute s = concat (map (\<lambda>c. if reserved_char c then substitute else [c]) s)"

definition is_windows_reserved :: "pystd \<Rightarrow> ustr \<Rightarrow> bool" where
  "is_windows_reserved std component =
     (let base = (case rsplit1 46 component of None \<Rightarrow> component | Some (b, _) \<Rightarrow> b)
      in std_upper std base \<in> set windows_reserved)"

text \<open>
  \<open>_clamp_bytes\<close>: the loop that drops bytes until the rest decodes, where running out of bytes
  is the \<open>else\<close> of the \<open>while\<close>, and the loop that drops stranded combining marks.
\<close>

function back_off :: "nat list \<Rightarrow> ustr" where
  "back_off bs =
     (if bs = [] then []
      else (case utf8_decode bs of Some t \<Rightarrow> t | None \<Rightarrow> back_off (butlast bs)))"
  by pat_completeness auto
termination
  by (relation "measure length") auto

declare back_off.simps [simp del]

definition clamp_bytes :: "pystd \<Rightarrow> ustr \<Rightarrow> nat \<Rightarrow> sanitize_exc + ustr" where
  "clamp_bytes std component max_bytes =
     (case utf8_encode component of
        None \<Rightarrow> Inl CannotEncode
      | Some encoded \<Rightarrow>
          if length encoded \<le> max_bytes then Inr component
          else Inr (rstrip_by (std_combining std) (back_off (take max_bytes encoded))))"

definition dots_and_spaces :: "nat \<Rightarrow> bool" where
  "dots_and_spaces c \<longleftrightarrow> c = 46 \<or> c = 32"

definition sanitize_component ::
  "pystd \<Rightarrow> ustr \<Rightarrow> (ustr \<times> ustr) list \<Rightarrow> ustr \<Rightarrow> nat \<Rightarrow> sanitize_exc + ustr" where
  "sanitize_component std component replacements substitute max_bytes =
     rbind (apply_replacements std replacements component) (\<lambda>result.
       let result = sub_reserved substitute result;
           result = std_nfc std result;
           result = rstrip_by dots_and_spaces result;
           result = (if is_windows_reserved std result then substitute @ result else result)
       in clamp_bytes std result max_bytes)"

section \<open>The clamp\<close>

lemma back_off_take:
  assumes "utf8_encode s = Some bs" and "n \<le> length bs"
  shows "back_off (take n bs) = fit n s"
  using assms(2)
proof (induction n)
  case 0
  have enc: "encodable s" using assms(1) by (simp add: encodable_def)
  have "byte_len (fit 0 s) \<le> 0" by (rule byte_len_fit [OF enc])
  moreover have "length (fit 0 s) \<le> byte_len (fit 0 s)"
    by (rule length_le_byte_len [OF encodable_prefix [OF fit_prefix enc]])
  ultimately show ?case by (simp add: back_off.simps)
next
  case (Suc n)
  have enc: "encodable s" using assms(1) by (simp add: encodable_def)
  have dec: "utf8_decode (take (Suc n) bs) =
      (if byte_len (fit (Suc n) s) = Suc n then Some (fit (Suc n) s) else None)"
    by (rule utf8_decode_take [OF assms(1) Suc.prems])
  have ne: "take (Suc n) bs \<noteq> []" using Suc.prems by (cases bs) auto
  show ?case
  proof (cases "byte_len (fit (Suc n) s) = Suc n")
    case True
    then show ?thesis using dec ne by (subst back_off.simps) simp
  next
    case False
    have "butlast (take (Suc n) bs) = take n bs"
      using Suc.prems by (simp add: butlast_take)
    moreover have "fit (Suc n) s = fit n s"
    proof (rule prefix_order.antisym)
      have "byte_len (fit (Suc n) s) \<le> n"
        using byte_len_fit [OF enc, of "Suc n"] False by simp
      then show "prefix (fit (Suc n) s) (fit n s)" by (rule fit_longest [OF enc fit_prefix])
      show "prefix (fit n s) (fit (Suc n) s)"
        using byte_len_fit [OF enc, of n] by (intro fit_longest [OF enc fit_prefix]) simp
    qed
    ultimately show ?thesis
      using dec ne False Suc by (subst back_off.simps) simp
  qed
qed

text \<open>The two loops compute the longest prefix that fits, less its trailing combining marks.\<close>

lemma clamp_bytes_fit:
  "encodable s \<Longrightarrow> clamp_bytes std s n =
     Inr (if byte_len s \<le> n then s else rstrip_by (std_combining std) (fit n s))"
  by (auto simp: clamp_bytes_def encodable_def byte_len_def back_off_take)

lemma clamp_bytes_Inr:
  assumes "clamp_bytes std s n = Inr t"
  shows "encodable s" and "prefix t s" and "encodable t" and "byte_len t \<le> n"
proof -
  show e: "encodable s"
    using assms by (auto simp: clamp_bytes_def encodable_def split: option.splits)
  then have t: "t = (if byte_len s \<le> n then s else rstrip_by (std_combining std) (fit n s))"
    using assms by (simp add: clamp_bytes_fit)
  have p: "prefix (rstrip_by (std_combining std) (fit n s)) (fit n s)" by (rule rstrip_by_prefix)
  show pre: "prefix t s" using t prefix_order.trans [OF p fit_prefix] by simp
  show "encodable t" using encodable_prefix [OF pre e] .
  show "byte_len t \<le> n"
    using t byte_len_mono [OF p] encodable_prefix [OF fit_prefix e] byte_len_fit [OF e, of n]
    by (fastforce split: if_splits)
qed

section \<open>What sanitizing guarantees\<close>

text \<open>
  Two facts about the Unicode database on which the guarantees rest: NFC does not introduce
  reserved characters, and \<open>str.upper\<close> maps a leading underscore to itself.
\<close>

definition nfc_keeps_reserved :: "pystd \<Rightarrow> bool" where
  "nfc_keeps_reserved std \<longleftrightarrow>
     (\<forall>s. \<forall>c\<in>set (std_nfc std s). reserved_char c \<longrightarrow> c \<in> set s)"

definition upper_keeps_underscore :: "pystd \<Rightarrow> bool" where
  "upper_keeps_underscore std \<longleftrightarrow> (\<forall>s. hd (std_upper std (95 # s)) = 95)"

lemma ascii_std_laws: "nfc_keeps_reserved ascii_std" "upper_keeps_underscore ascii_std"
  by (simp_all add: nfc_keeps_reserved_def upper_keeps_underscore_def ascii_std_def ascii_upper_def)

lemma sub_reserved_clean:
  "\<forall>c\<in>set sub. \<not> reserved_char c \<Longrightarrow> c \<in> set (sub_reserved sub s) \<Longrightarrow> \<not> reserved_char c"
  by (auto simp: sub_reserved_def split: if_splits)

lemma default_replacement_clean: "\<forall>c\<in>set default_replacement. \<not> reserved_char c"
  by (simp add: default_replacement_def reserved_char_def)

text \<open>The text handed to the clamp, and what holds of it.\<close>

definition unclamped :: "pystd \<Rightarrow> ustr \<Rightarrow> ustr \<Rightarrow> ustr" where
  "unclamped std sub s =
     (let r = rstrip_by dots_and_spaces (std_nfc std (sub_reserved sub s))
      in if is_windows_reserved std r then sub @ r else r)"

lemma sanitize_unclamped:
  "sanitize_component std s reps sub n =
     rbind (apply_replacements std reps s) (\<lambda>t. clamp_bytes std (unclamped std sub t) n)"
  by (simp add: sanitize_component_def unclamped_def Let_def)

lemma unclamped_clean:
  assumes "nfc_keeps_reserved std" and "\<forall>c\<in>set sub. \<not> reserved_char c"
    and "c \<in> set (unclamped std sub s)"
  shows "\<not> reserved_char c"
proof
  assume r: "reserved_char c"
  then have "c \<in> set (rstrip_by dots_and_spaces (std_nfc std (sub_reserved sub s)))"
    using assms(2,3) by (auto simp: unclamped_def Let_def split: if_splits)
  then have "c \<in> set (std_nfc std (sub_reserved sub s))" using set_rstrip_by by blast
  then show False
    using assms(1,2) r sub_reserved_clean unfolding nfc_keeps_reserved_def by blast
qed

lemma windows_reserved_facts:
  "w \<in> set windows_reserved \<Longrightarrow> w \<noteq> [] \<and> hd w \<noteq> 95"
  by (auto simp: windows_reserved_def)

lemma prefixed_not_reserved:
  "upper_keeps_underscore std \<Longrightarrow> \<not> is_windows_reserved std (95 # s)"
proof -
  assume u: "upper_keeps_underscore std"
  have "\<exists>s'. (case rsplit1 46 (95 # s) of None \<Rightarrow> 95 # s | Some (b, _) \<Rightarrow> b) = 95 # s'"
  proof (cases "rsplit1 46 (95 # s)")
    case (Some p)
    obtain b e where "p = (b, e)" by (cases p)
    then have "95 # s = b @ 46 # e" using rsplit1_Some Some by blast
    then show ?thesis using Some \<open>p = (b, e)\<close> by (cases b) auto
  qed simp
  then show ?thesis
    using u windows_reserved_facts
    by (fastforce simp: is_windows_reserved_def upper_keeps_underscore_def)
qed

lemma unclamped_facts:
  assumes "upper_keeps_underscore std"
  shows "\<not> is_windows_reserved std (unclamped std default_replacement s)"
    and "unclamped std default_replacement s \<noteq> [] \<Longrightarrow>
      \<not> dots_and_spaces (last (unclamped std default_replacement s))"
proof -
  let ?r = "rstrip_by dots_and_spaces (std_nfc std (sub_reserved default_replacement s))"
  show "\<not> is_windows_reserved std (unclamped std default_replacement s)"
    using prefixed_not_reserved [OF assms]
    by (simp add: unclamped_def Let_def default_replacement_def)
  show "unclamped std default_replacement s \<noteq> [] \<Longrightarrow>
      \<not> dots_and_spaces (last (unclamped std default_replacement s))"
    using rstrip_by_last [of dots_and_spaces] 
    by (auto simp: unclamped_def Let_def default_replacement_def dots_and_spaces_def
        is_windows_reserved_def rsplit1_None)
qed

end
