(* ===== verification/PathFunctions.thy ===== *)
theory PathFunctions
  imports PathParser PathSanitize
begin

text \<open>
  The template functions (\<open>paths/functions.py\<close>). A function receives the render context, the
  call's syntax-tree node and its argument thunks, unevaluated; it decides which thunks to run, so
  an exception of an argument it does not run is never raised. Every implementation answers a
  wrong number of thunks with Python's \<open>TypeError\<close>; the compiler's arity table excludes that.
\<close>

section \<open>Values, contexts, outcomes\<close>

text \<open>The scalar types a \<open>RenderContext\<close> binds (\<open>paths/context.py\<close>).\<close>

datatype pyval = PStr ustr | PInt int | PFloat real | PBool bool | PNone

type_synonym context_values = "ustr \<rightharpoonup> pyval"

datatype render_message =
    LeftNotInteger ustr | RightNotInteger ustr | PadNotInteger ustr | UnparsedDate ustr

datatype render_exc =
    RenderError render_message
  | RenderTimeTemplateError template_error
  | WrongArgumentCount
  | SanitizeFailed sanitize_exc

type_synonym thunk = "context_values \<Rightarrow> render_exc + ustr"
type_synonym func_impl = "context_values \<Rightarrow> node \<Rightarrow> thunk list \<Rightarrow> render_exc + ustr"

definition multi_value_join :: ustr where
  "multi_value_join = U '', ''"

text \<open>\<open>ctx.values.get(name)\<close>, where a missing key and a stored \<open>None\<close> are the same.\<close>

definition ctx_get :: "context_values \<Rightarrow> ustr \<Rightarrow> pyval" where
  "ctx_get ctx name = (case ctx name of None \<Rightarrow> PNone | Some v \<Rightarrow> v)"

text \<open>\<open>str(value)\<close>.\<close>

definition py_str :: "pystd \<Rightarrow> pyval \<Rightarrow> ustr" where
  "py_str std v =
     (case v of PStr s \<Rightarrow> s | PInt n \<Rightarrow> int_str n | PFloat x \<Rightarrow> std_float_str std x
      | PBool b \<Rightarrow> (if b then U ''True'' else U ''False'') | PNone \<Rightarrow> U ''None'')"

section \<open>Pure string functions\<close>

definition fn_upper :: "pystd \<Rightarrow> func_impl" where
  "fn_upper std ctx node args =
     (case args of [a] \<Rightarrow> rbind (a ctx) (\<lambda>s. Inr (std_upper std s)) | _ \<Rightarrow> Inl WrongArgumentCount)"

definition fn_lower :: "pystd \<Rightarrow> func_impl" where
  "fn_lower std ctx node args =
     (case args of [a] \<Rightarrow> rbind (a ctx) (\<lambda>s. Inr (std_lower std s)) | _ \<Rightarrow> Inl WrongArgumentCount)"

text \<open>The loop of \<open>_title\<close>; its state is \<open>capitalize_next\<close>.\<close>

fun title_loop :: "pystd \<Rightarrow> bool \<Rightarrow> ustr \<Rightarrow> ustr" where
  "title_loop std cap [] = []"
| "title_loop std cap (c # cs) =
     (if cap \<and> std_isalpha std c
      then std_upper std [c] @ title_loop std (c = 32 \<or> c = 45) cs
      else std_lower std [c] @ title_loop std (if c = 32 \<or> c = 45 then True else cap) cs)"

definition fn_title :: "pystd \<Rightarrow> func_impl" where
  "fn_title std ctx node args =
     (case args of [a] \<Rightarrow> rbind (a ctx) (\<lambda>s. Inr (title_loop std True s))
      | _ \<Rightarrow> Inl WrongArgumentCount)"

definition fn_left :: "pystd \<Rightarrow> func_impl" where
  "fn_left std ctx node args =
     (case args of
        [a, n] \<Rightarrow>
          rbind (a ctx) (\<lambda>text.
          rbind (n ctx) (\<lambda>k.
            case parse_int std k of
              None \<Rightarrow> Inl (RenderError (LeftNotInteger k))
            | Some count \<Rightarrow> Inr (slice_to count text)))
      | _ \<Rightarrow> Inl WrongArgumentCount)"

definition fn_right :: "pystd \<Rightarrow> func_impl" where
  "fn_right std ctx node args =
     (case args of
        [a, n] \<Rightarrow>
          rbind (a ctx) (\<lambda>text.
          rbind (n ctx) (\<lambda>k.
            case parse_int std k of
              None \<Rightarrow> Inl (RenderError (RightNotInteger k))
            | Some count \<Rightarrow> Inr (if count > 0 then slice_last (nat count) text else [])))
      | _ \<Rightarrow> Inl WrongArgumentCount)"

definition if_branch :: "pystd \<Rightarrow> context_values \<Rightarrow> thunk \<Rightarrow> thunk \<Rightarrow> thunk option \<Rightarrow> render_exc + ustr" where
  "if_branch std ctx cond thn els =
     rbind (cond ctx) (\<lambda>c.
       if strip c \<noteq> [] then thn ctx
       else (case els of None \<Rightarrow> Inr [] | Some e \<Rightarrow> e ctx))"

definition fn_if :: "pystd \<Rightarrow> func_impl" where
  "fn_if std ctx node args =
     (case args of
        [c, t] \<Rightarrow> if_branch std ctx c t None
      | [c, t, e] \<Rightarrow> if_branch std ctx c t (Some e)
      | _ \<Rightarrow> Inl WrongArgumentCount)"

text \<open>\<open>%ifdef\<close> inspects its call's node: the first argument must be one bare literal.\<close>

definition stringify_field :: "pystd \<Rightarrow> context_values \<Rightarrow> ustr \<Rightarrow> ustr" where
  "stringify_field std ctx name =
     (case ctx_get ctx name of PNone \<Rightarrow> [] | v \<Rightarrow> py_str std v)"

fun bare_field :: "node list list \<Rightarrow> ustr option" where
  "bare_field ([Literal t i] # as) = Some t"
| "bare_field as = None"

definition ifdef_branch ::
  "pystd \<Rightarrow> context_values \<Rightarrow> node \<Rightarrow> thunk option \<Rightarrow> thunk option \<Rightarrow> render_exc + ustr" where
  "ifdef_branch std ctx node thn els =
     (case node of
        FuncCall f args off \<Rightarrow>
          (case bare_field args of
             None \<Rightarrow> Inl (RenderTimeTemplateError (template_error_of IfdefNeedsBareField off []))
           | Some field_name \<Rightarrow>
               if ctx_get ctx field_name \<noteq> PNone
               then (case thn of Some t \<Rightarrow> t ctx | None \<Rightarrow> Inr (stringify_field std ctx field_name))
               else (case els of Some e \<Rightarrow> e ctx | None \<Rightarrow> Inr []))
      | _ \<Rightarrow> Inl WrongArgumentCount)"

definition fn_ifdef :: "pystd \<Rightarrow> func_impl" where
  "fn_ifdef std ctx node args =
     (case args of
        [f] \<Rightarrow> ifdef_branch std ctx node None None
      | [f, t] \<Rightarrow> ifdef_branch std ctx node (Some t) None
      | [f, t, e] \<Rightarrow> ifdef_branch std ctx node (Some t) (Some e)
      | _ \<Rightarrow> Inl WrongArgumentCount)"

definition asciify_supplement :: "(nat \<times> ustr) list" where
  "asciify_supplement =
     [(223, U ''ss''), (230, U ''ae''), (198, U ''AE''), (248, U ''o''), (216, U ''O''),
      (240, U ''d''), (208, U ''D''), (254, U ''th''), (222, U ''Th''), (322, U ''l''),
      (321, U ''L'')]"

definition fn_asciify :: "pystd \<Rightarrow> func_impl" where
  "fn_asciify std ctx node args =
     (case args of
        [a] \<Rightarrow>
          rbind (a ctx) (\<lambda>text.
            let text = concat (map (\<lambda>c. case map_of asciify_supplement c of
                          None \<Rightarrow> [c] | Some s \<Rightarrow> s) text);
                decomposed = std_nfkd std text
            in Inr (filter (\<lambda>c. \<not> std_combining std c) decomposed))
      | _ \<Rightarrow> Inl WrongArgumentCount)"

section \<open>Dates\<close>

text \<open>
  \<open>datetime.strptime\<close> for the three formats \<open>%Y-%m-%d\<close>, \<open>%Y-%m\<close>, \<open>%Y\<close>: four digits, a month
  \<open>1[0-2]|0[1-9]|[1-9]\<close>, a day \<open>3[0-1]|[1-2]\d|0[1-9]|[1-9]| [1-9]\<close>, nothing left over, and a
  date that the calendar has.
\<close>

fun take_year :: "pystd \<Rightarrow> ustr \<Rightarrow> (nat \<times> ustr) option" where
  "take_year std (a # b # c # d # rest) =
     (case (std_decimal std a, std_decimal std b, std_decimal std c, std_decimal std d) of
        (Some w, Some x, Some y, Some z) \<Rightarrow> Some (w * 1000 + x * 100 + y * 10 + z, rest)
      | _ \<Rightarrow> None)"
| "take_year std _ = None"

definition one_to_nine :: "nat \<Rightarrow> bool" where
  "one_to_nine c \<longleftrightarrow> 49 \<le> c \<and> c \<le> 57"

fun take_month :: "ustr \<Rightarrow> (nat \<times> ustr) option" where
  "take_month (a # b # rest) =
     (if a = 49 \<and> 48 \<le> b \<and> b \<le> 50 then Some (10 + (b - 48), rest)
      else if a = 48 \<and> one_to_nine b then Some (b - 48, rest)
      else if one_to_nine a then Some (a - 48, b # rest) else None)"
| "take_month [a] = (if one_to_nine a then Some (a - 48, []) else None)"
| "take_month [] = None"

fun take_day :: "pystd \<Rightarrow> ustr \<Rightarrow> (nat \<times> ustr) option" where
  "take_day std (a # b # rest) =
     (if a = 51 \<and> 48 \<le> b \<and> b \<le> 49 then Some (30 + (b - 48), rest)
      else if (a = 49 \<or> a = 50) \<and> std_decimal std b \<noteq> None
      then Some ((a - 48) * 10 + the (std_decimal std b), rest)
      else if a = 48 \<and> one_to_nine b then Some (b - 48, rest)
      else if one_to_nine a then Some (a - 48, b # rest)
      else if a = 32 \<and> one_to_nine b then Some (b - 48, rest) else None)"
| "take_day std [a] = (if one_to_nine a then Some (a - 48, []) else None)"
| "take_day std [] = None"

definition leap_year :: "nat \<Rightarrow> bool" where
  "leap_year y \<longleftrightarrow> y mod 4 = 0 \<and> (y mod 100 \<noteq> 0 \<or> y mod 400 = 0)"

definition days_in_month :: "nat \<Rightarrow> nat \<Rightarrow> nat" where
  "days_in_month y m =
     (if m = 2 then (if leap_year y then 29 else 28)
      else if m = 4 \<or> m = 6 \<or> m = 9 \<or> m = 11 then 30 else 31)"

definition valid_date :: "nat \<times> nat \<times> nat \<Rightarrow> bool" where
  "valid_date d = (case d of (y, m, k) \<Rightarrow>
     1 \<le> y \<and> y \<le> 9999 \<and> 1 \<le> m \<and> m \<le> 12 \<and> 1 \<le> k \<and> k \<le> days_in_month y m)"

datatype date_format = YMD | YM | Y

definition after_dash :: "ustr \<Rightarrow> ustr option" where
  "after_dash s = (case s of [] \<Rightarrow> None | c # s' \<Rightarrow> if c = 45 then Some s' else None)"

definition parse_fields :: "pystd \<Rightarrow> date_format \<Rightarrow> nat \<Rightarrow> ustr \<Rightarrow> (nat \<times> nat \<times> nat) option" where
  "parse_fields std fmt y rest =
     (if fmt = Y then (if rest = [] then Some (y, 1, 1) else None)
      else
        case after_dash rest of
          None \<Rightarrow> None
        | Some s \<Rightarrow>
            (case take_month s of
               None \<Rightarrow> None
             | Some (m, rest') \<Rightarrow>
                 if fmt = YM then (if rest' = [] then Some (y, m, 1) else None)
                 else
                   (case after_dash rest' of
                      None \<Rightarrow> None
                    | Some s' \<Rightarrow>
                        (case take_day std s' of
                           Some (d, []) \<Rightarrow> Some (y, m, d)
                         | _ \<Rightarrow> None))))"

definition strptime :: "pystd \<Rightarrow> date_format \<Rightarrow> ustr \<Rightarrow> (nat \<times> nat \<times> nat) option" where
  "strptime std fmt s =
     (case take_year std s of
        None \<Rightarrow> None
      | Some (y, rest) \<Rightarrow>
          (case parse_fields std fmt y rest of
             None \<Rightarrow> None
           | Some d \<Rightarrow> if valid_date d then Some d else None))"

definition date_input_formats :: "date_format list" where
  "date_input_formats = [YMD, YM, Y]"

fun try_formats :: "pystd \<Rightarrow> date_format list \<Rightarrow> ustr \<Rightarrow> ustr \<Rightarrow> render_exc + ustr" where
  "try_formats std [] s out = Inl (RenderError (UnparsedDate s))"
| "try_formats std (f # fs) s out =
     (case strptime std f s of
        None \<Rightarrow> try_formats std fs s out
      | Some d \<Rightarrow> Inr (std_strftime std out d))"

definition fn_time :: "pystd \<Rightarrow> func_impl" where
  "fn_time std ctx node args =
     (case args of
        [d, f] \<Rightarrow>
          rbind (d ctx) (\<lambda>date_str.
          rbind (f ctx) (\<lambda>fmt.
            let s = strip date_str in
            if s = [] then Inr [] else try_formats std date_input_formats s fmt))
      | _ \<Rightarrow> Inl WrongArgumentCount)"

section \<open>The remaining functions\<close>

definition fn_first :: "pystd \<Rightarrow> func_impl" where
  "fn_first std ctx node args =
     (case args of
        [a] \<Rightarrow>
          rbind (a ctx) (\<lambda>text.
            if text = [] then Inr []
            else Inr (case find_sub multi_value_join text of None \<Rightarrow> text | Some i \<Rightarrow> take i text))
      | _ \<Rightarrow> Inl WrongArgumentCount)"

definition articles :: "ustr list" where
  "articles = [U ''The '', U ''the '', U ''A '', U ''a '', U ''An '', U ''an '']"

fun move_article :: "ustr list \<Rightarrow> ustr \<Rightarrow> ustr \<Rightarrow> ustr" where
  "move_article [] mode text = text"
| "move_article (article # as) mode text =
     (if prefix article text then
        let rest = drop (length article) text in
        if mode = U ''strip'' then rest else rest @ U '', '' @ strip article
      else move_article as mode text)"

definition fn_the :: "pystd \<Rightarrow> func_impl" where
  "fn_the std ctx node args =
     (case args of
        [a] \<Rightarrow> rbind (a ctx) (\<lambda>text. Inr (move_article articles (U ''move'') text))
      | [a, mode] \<Rightarrow>
          rbind (a ctx) (\<lambda>text.
          rbind (mode ctx) (\<lambda>m. Inr (move_article articles (std_lower std (strip m)) text)))
      | _ \<Rightarrow> Inl WrongArgumentCount)"

definition fn_pad :: "pystd \<Rightarrow> func_impl" where
  "fn_pad std ctx node args =
     (case args of
        [a, w] \<Rightarrow>
          rbind (a ctx) (\<lambda>text.
          rbind (w ctx) (\<lambda>k.
            case parse_int std k of
              None \<Rightarrow> Inl (RenderError (PadNotInteger k))
            | Some width \<Rightarrow> Inr (zfill width text)))
      | _ \<Rightarrow> Inl WrongArgumentCount)"

definition fn_default :: "pystd \<Rightarrow> func_impl" where
  "fn_default std ctx node args =
     (case args of
        [a, fallback] \<Rightarrow> rbind (a ctx) (\<lambda>v. if v \<noteq> [] then Inr v else fallback ctx)
      | _ \<Rightarrow> Inl WrongArgumentCount)"

definition fn_sanitize :: "pystd \<Rightarrow> func_impl" where
  "fn_sanitize std ctx node args =
     (case args of
        [a] \<Rightarrow>
          rbind (a ctx) (\<lambda>s.
            case sanitize_component std s [] default_replacement default_max_bytes of
              Inl e \<Rightarrow> Inl (SanitizeFailed e)
            | Inr t \<Rightarrow> Inr t)
      | _ \<Rightarrow> Inl WrongArgumentCount)"

section \<open>The registry and the arity table\<close>

definition template_functions :: "pystd \<Rightarrow> (ustr \<times> func_impl) list" where
  "template_functions std =
     [(U ''upper'', fn_upper std), (U ''lower'', fn_lower std), (U ''title'', fn_title std),
      (U ''left'', fn_left std), (U ''right'', fn_right std), (U ''if'', fn_if std),
      (U ''ifdef'', fn_ifdef std), (U ''asciify'', fn_asciify std), (U ''time'', fn_time std),
      (U ''first'', fn_first std), (U ''the'', fn_the std), (U ''pad'', fn_pad std),
      (U ''default'', fn_default std), (U ''sanitize'', fn_sanitize std)]"

definition function_arity :: "(ustr \<times> nat \<times> nat) list" where
  "function_arity =
     [(U ''upper'', 1, 1), (U ''lower'', 1, 1), (U ''title'', 1, 1), (U ''left'', 2, 2),
      (U ''right'', 2, 2), (U ''if'', 2, 3), (U ''ifdef'', 1, 3), (U ''asciify'', 1, 1),
      (U ''time'', 2, 2), (U ''first'', 1, 1), (U ''the'', 1, 2), (U ''pad'', 2, 2),
      (U ''default'', 2, 2), (U ''sanitize'', 1, 1)]"

end
