(* ===== verification/PathCompiler.thy ===== *)
theory PathCompiler
  imports PathFunctions
begin

text \<open>
  The compiler (\<open>paths/compiler.py\<close>): a template becomes a tree of closures once and is rendered
  many times. A closure is a HOL function of the render context. The theory also holds the direct
  interpreter of the syntax tree that the compiler is compared with, the list of a template's calls
  in reading order, which fixes the error the compiler reports, and what a compiled template can
  raise and read.
\<close>

section \<open>The compiler\<close>

definition stringify :: "pystd \<Rightarrow> pyval \<Rightarrow> ustr" where
  "stringify std v =
     (case v of PNone \<Rightarrow> [] | PBool b \<Rightarrow> (if b then U ''1'' else []) | _ \<Rightarrow> py_str std v)"

text \<open>The inner \<open>render\<close> of \<open>compile_template\<close>.\<close>

definition join_thunks :: "thunk list \<Rightarrow> thunk" where
  "join_thunks ts ctx = rbind (rmap (\<lambda>t. t ctx) ts) (\<lambda>parts. Inr (concat parts))"

definition arity_error :: "ustr \<Rightarrow> nat \<Rightarrow> template_message option" where
  "arity_error f n =
     (case map_of function_arity f of
        None \<Rightarrow> None
      | Some (lo, hi) \<Rightarrow> if lo \<le> n \<and> n \<le> hi then None else Some (WrongArity f lo hi n))"

fun compile_node :: "pystd \<Rightarrow> ustr \<Rightarrow> node \<Rightarrow> template_error + thunk"
  and compile_nodes :: "pystd \<Rightarrow> ustr \<Rightarrow> node list \<Rightarrow> template_error + thunk list"
  and compile_args :: "pystd \<Rightarrow> ustr \<Rightarrow> node list list \<Rightarrow> template_error + thunk list" where
  "compile_node std src (Literal t i) = Inr (\<lambda>ctx. Inr t)"
| "compile_node std src (Variable name i) = Inr (\<lambda>ctx. Inr (stringify std (ctx_get ctx name)))"
| "compile_node std src (FuncCall f args off) =
     (case map_of (template_functions std) f of
        None \<Rightarrow> Inl (template_error_of (UnknownFunction f) off src)
      | Some func \<Rightarrow>
          (case arity_error f (length args) of
             Some m \<Rightarrow> Inl (template_error_of m off src)
           | None \<Rightarrow>
               rbind (compile_args std src args) (\<lambda>ts.
                 Inr (\<lambda>ctx. func ctx (FuncCall f args off) ts))))"
| "compile_nodes std src [] = Inr []"
| "compile_nodes std src (n # ns) =
     rbind (compile_node std src n) (\<lambda>t.
     rbind (compile_nodes std src ns) (\<lambda>ts. Inr (t # ts)))"
| "compile_args std src [] = Inr []"
| "compile_args std src (a # as) =
     rbind (compile_nodes std src a) (\<lambda>ts.
     rbind (compile_args std src as) (\<lambda>rest. Inr (join_thunks ts # rest)))"

definition compile_template :: "pystd \<Rightarrow> node list \<Rightarrow> ustr \<Rightarrow> template_error + thunk" where
  "compile_template std nodes src =
     rbind (compile_nodes std src nodes) (\<lambda>ts. Inr (join_thunks ts))"

section \<open>The direct interpreter\<close>

text \<open>
  Evaluation by walking the tree at every rendering. A call of an unregistered function has no
  value; it is given the empty text, and the equivalence below excludes it.
\<close>

fun eval_node :: "pystd \<Rightarrow> node \<Rightarrow> context_values \<Rightarrow> render_exc + ustr"
  and eval_nodes :: "pystd \<Rightarrow> node list \<Rightarrow> context_values \<Rightarrow> render_exc + ustr"
  and eval_args :: "pystd \<Rightarrow> node list list \<Rightarrow> thunk list" where
  "eval_node std (Literal t i) ctx = Inr t"
| "eval_node std (Variable name i) ctx = Inr (stringify std (ctx_get ctx name))"
| "eval_node std (FuncCall f args off) ctx =
     (case map_of (template_functions std) f of
        None \<Rightarrow> Inr []
      | Some func \<Rightarrow> func ctx (FuncCall f args off) (eval_args std args))"
| "eval_nodes std [] ctx = Inr []"
| "eval_nodes std (n # ns) ctx =
     rbind (eval_node std n ctx) (\<lambda>s. rbind (eval_nodes std ns ctx) (\<lambda>r. Inr (s @ r)))"
| "eval_args std [] = []"
| "eval_args std (a # as) = (\<lambda>ctx. eval_nodes std a ctx) # eval_args std as"

text \<open>The calls of a template in reading order: name, number of arguments, offset.\<close>

fun calls_node :: "node \<Rightarrow> (ustr \<times> nat \<times> nat) list"
  and calls_nodes :: "node list \<Rightarrow> (ustr \<times> nat \<times> nat) list"
  and calls_args :: "node list list \<Rightarrow> (ustr \<times> nat \<times> nat) list" where
  "calls_node (Literal t i) = []"
| "calls_node (Variable name i) = []"
| "calls_node (FuncCall f args off) = (f, length args, off) # calls_args args"
| "calls_nodes [] = []"
| "calls_nodes (n # ns) = calls_node n @ calls_nodes ns"
| "calls_args [] = []"
| "calls_args (a # as) = calls_nodes a @ calls_args as"

definition call_error :: "pystd \<Rightarrow> ustr \<times> nat \<times> nat \<Rightarrow> template_message option" where
  "call_error std c =
     (case c of (f, n, off) \<Rightarrow>
        if map_of (template_functions std) f = None then Some (UnknownFunction f)
        else arity_error f n)"

text \<open>The error of the first call of a list that has one.\<close>

fun first_call_error :: "pystd \<Rightarrow> ustr \<Rightarrow> (ustr \<times> nat \<times> nat) list \<Rightarrow> template_error option" where
  "first_call_error std src [] = None"
| "first_call_error std src (c # cs) =
     (case call_error std c of
        Some m \<Rightarrow> Some (template_error_of m (snd (snd c)) src)
      | None \<Rightarrow> first_call_error std src cs)"

lemma first_call_error_append [simp]:
  "first_call_error std src (cs @ ds) =
     (case first_call_error std src cs of Some e \<Rightarrow> Some e | None \<Rightarrow> first_call_error std src ds)"
  by (induction cs) (auto split: option.splits)

definition checked :: "pystd \<Rightarrow> ustr \<Rightarrow> (ustr \<times> nat \<times> nat) list \<Rightarrow> 'a \<Rightarrow> template_error + 'a" where
  "checked std src cs x =
     (case first_call_error std src cs of Some e \<Rightarrow> Inl e | None \<Rightarrow> Inr x)"

lemma checked_Nil [simp]: "checked std src [] x = Inr x"
  by (simp add: checked_def)

lemma join_thunks_Nil [simp]: "join_thunks [] = (\<lambda>ctx. Inr [])"
  by (rule ext) (simp add: join_thunks_def)

lemma join_thunks_Cons:
  "join_thunks (t # ts) = (\<lambda>ctx. rbind (t ctx) (\<lambda>s. rbind (join_thunks ts ctx) (\<lambda>r. Inr (s @ r))))"
  by (rule ext) (simp add: join_thunks_def rbind_assoc)

lemma join_eval_nodes: "join_thunks (map (eval_node std) ns) = eval_nodes std ns"
  by (induction ns) (auto simp: join_thunks_Cons fun_eq_iff)

text \<open>The compiler computes the interpreter, or the error of the first bad call.\<close>

lemma compile_checked:
  "compile_node std src n = checked std src (calls_node n) (eval_node std n)"
  "compile_nodes std src ns = checked std src (calls_nodes ns) (map (eval_node std) ns)"
  "compile_args std src as = checked std src (calls_args as) (eval_args std as)"
proof (induction std src n and std src ns and std src as
    rule: compile_node_compile_nodes_compile_args.induct)
  case (3 std src f args off)
  show ?case
  proof (cases "map_of (template_functions std) f")
    case None
    then show ?thesis by (simp add: checked_def call_error_def)
  next
    case (Some func)
    show ?thesis
    proof (cases "arity_error f (length args)")
      case None
      have "compile_args std src args = checked std src (calls_args args) (eval_args std args)"
        by (rule 3 [OF Some None])
      with Some None show ?thesis
        by (simp add: checked_def call_error_def fun_eq_iff split: option.splits)
    qed (simp add: Some checked_def call_error_def)
  qed
next
  case (5 std src n ns)
  then show ?case by (auto simp: checked_def split: option.splits)
next
  case (7 std src a as)
  then show ?case by (auto simp: checked_def join_eval_nodes fun_eq_iff split: option.splits)
qed (auto simp: checked_def fun_eq_iff)

lemma compile_template_checked:
  "compile_template std ns src = checked std src (calls_nodes ns) (eval_nodes std ns)"
  by (auto simp: compile_template_def compile_checked checked_def join_eval_nodes
      split: option.splits)

lemma first_call_error_Some:
  "first_call_error std src cs = Some e \<Longrightarrow>
     \<exists>c\<in>set cs. \<exists>m. call_error std c = Some m \<and> e = template_error_of m (snd (snd c)) src"
  by (induction cs) (auto split: option.splits)

lemma first_call_error_None:
  "first_call_error std src cs = None \<longleftrightarrow> (\<forall>c\<in>set cs. call_error std c = None)"
  by (induction cs) (auto split: option.splits)

section \<open>What a rendering can raise and read\<close>

text \<open>
  A relation between two renderings that every template function respects: \<open>func_rel\<close> lifts a
  relation on results to the implementations, for calls with a permitted number of arguments.
\<close>

lemma template_functions_cases:
  assumes "map_of (template_functions std) f = Some func"
  obtains "f = U ''upper''" "func = fn_upper std" | "f = U ''lower''" "func = fn_lower std"
  | "f = U ''title''" "func = fn_title std" | "f = U ''left''" "func = fn_left std"
  | "f = U ''right''" "func = fn_right std" | "f = U ''if''" "func = fn_if std"
  | "f = U ''ifdef''" "func = fn_ifdef std" | "f = U ''asciify''" "func = fn_asciify std"
  | "f = U ''time''" "func = fn_time std" | "f = U ''first''" "func = fn_first std"
  | "f = U ''the''" "func = fn_the std" | "f = U ''pad''" "func = fn_pad std"
  | "f = U ''default''" "func = fn_default std" | "f = U ''sanitize''" "func = fn_sanitize std"
  using map_of_SomeD [OF assms] that unfolding template_functions_def set_simps insert_iff prod.inject
  by (elim disjE conjE) (assumption | simp only: empty_iff)+

text \<open>The functions other than \<open>%ifdef\<close> see the context only through their thunks.\<close>

definition data_exc :: "render_exc \<Rightarrow> bool" where
  "data_exc e = (case e of RenderError _ \<Rightarrow> True | SanitizeFailed _ \<Rightarrow> True | _ \<Rightarrow> False)"

definition quiet :: "render_exc + ustr \<Rightarrow> bool" where
  "quiet r = (case r of Inl e \<Rightarrow> data_exc e | Inr _ \<Rightarrow> True)"

lemma quiet_simps [simp]:
  "quiet (Inr s)" "quiet (Inl (RenderError m))" "quiet (Inl (SanitizeFailed x))"
  by (simp_all add: quiet_def data_exc_def)

lemma quiet_rbind: "quiet m \<Longrightarrow> (\<And>x. m = Inr x \<Longrightarrow> quiet (f x)) \<Longrightarrow> quiet (rbind m f)"
  by (cases m) (auto simp: quiet_def)

lemma quiet_try_formats: "quiet (try_formats std fs s out)"
  by (induction std fs s out rule: try_formats.induct) (auto split: option.splits)

lemma list_1_iff: "length xs = 1 \<longleftrightarrow> (\<exists>a. xs = [a])"
  by (cases xs) auto

lemma list_2_iff: "length xs = 2 \<longleftrightarrow> (\<exists>a b. xs = [a, b])"
  by (cases xs; cases "tl xs") auto

lemma list_3_iff: "length xs = 3 \<longleftrightarrow> (\<exists>a b c. xs = [a, b, c])"
  by (cases xs; cases "tl xs"; cases "tl (tl xs)") auto

lemma arity_error_table:
  "arity_error (U ''upper'') n = None \<longleftrightarrow> n = 1" "arity_error (U ''lower'') n = None \<longleftrightarrow> n = 1"
  "arity_error (U ''title'') n = None \<longleftrightarrow> n = 1" "arity_error (U ''left'') n = None \<longleftrightarrow> n = 2"
  "arity_error (U ''right'') n = None \<longleftrightarrow> n = 2"
  "arity_error (U ''if'') n = None \<longleftrightarrow> n = 2 \<or> n = 3"
  "arity_error (U ''ifdef'') n = None \<longleftrightarrow> n = 1 \<or> n = 2 \<or> n = 3"
  "arity_error (U ''asciify'') n = None \<longleftrightarrow> n = 1" "arity_error (U ''time'') n = None \<longleftrightarrow> n = 2"
  "arity_error (U ''first'') n = None \<longleftrightarrow> n = 1"
  "arity_error (U ''the'') n = None \<longleftrightarrow> n = 1 \<or> n = 2"
  "arity_error (U ''pad'') n = None \<longleftrightarrow> n = 2" "arity_error (U ''default'') n = None \<longleftrightarrow> n = 2"
  "arity_error (U ''sanitize'') n = None \<longleftrightarrow> n = 1"
  by (simp_all add: arity_error_def function_arity_def) presburger+

lemmas fn_defs = fn_upper_def fn_lower_def fn_title_def fn_left_def fn_right_def fn_if_def
  fn_asciify_def fn_time_def fn_first_def fn_the_def fn_pad_def fn_default_def fn_sanitize_def
  if_branch_def

text \<open>Every \<open>%ifdef\<close> of a template has a bare field name.\<close>

fun bare_node :: "node \<Rightarrow> bool" and bare_nodes :: "node list \<Rightarrow> bool"
  and bare_args :: "node list list \<Rightarrow> bool" where
  "bare_node (Literal t i) = True"
| "bare_node (Variable name i) = True"
| "bare_node (FuncCall f args off) = ((f = U ''ifdef'' \<longrightarrow> bare_field args \<noteq> None) \<and> bare_args args)"
| "bare_nodes [] = True"
| "bare_nodes (n # ns) = (bare_node n \<and> bare_nodes ns)"
| "bare_args [] = True"
| "bare_args (a # as) = (bare_nodes a \<and> bare_args as)"

lemma quiet_ifdef:
  assumes "bare_field args \<noteq> None" "\<forall>t\<in>set ts. quiet (t ctx)" "length ts = 1 \<or> length ts = 2 \<or> length ts = 3"
  shows "quiet (fn_ifdef std ctx (FuncCall f args off) ts)"
proof -
  obtain t where "bare_field args = Some t" using assms(1) by auto
  with assms(2,3) show ?thesis unfolding list_1_iff list_2_iff list_3_iff
    by (elim disjE exE) (simp_all add: fn_ifdef_def ifdef_branch_def)
qed

lemma func_quiet:
  assumes f: "map_of (template_functions std) f = Some func" and n: "arity_error f (length ts) = None"
    and ts: "\<forall>t\<in>set ts. quiet (t ctx)" and bare: "f = U ''ifdef'' \<longrightarrow> bare_field args \<noteq> None"
  shows "quiet (func ctx (FuncCall f args off) ts)"
  using f
proof (cases rule: template_functions_cases)
  case 7
  have "length ts = 1 \<or> length ts = 2 \<or> length ts = 3"
    using n unfolding 7 arity_error_table .
  then show ?thesis unfolding 7 using bare 7(1) ts by (intro quiet_ifdef) blast+
qed (use n ts in \<open>(simp only: arity_error_table list_1_iff list_2_iff list_3_iff; elim exE disjE;
    auto simp: fn_defs Let_def intro!: quiet_rbind quiet_try_formats split: option.splits sum.splits)\<close>)+

lemma length_eval_args [simp]: "length (eval_args std as) = length as"
  by (induction as) auto

lemma eval_quiet:
  "\<forall>c\<in>set (calls_node n). call_error std c = None \<Longrightarrow> bare_node n \<Longrightarrow> quiet (eval_node std n ctx)"
  "\<forall>c\<in>set (calls_nodes ns). call_error std c = None \<Longrightarrow> bare_nodes ns \<Longrightarrow> quiet (eval_nodes std ns ctx)"
  "\<forall>c\<in>set (calls_args as). call_error std c = None \<Longrightarrow> bare_args as \<Longrightarrow>
     \<forall>t\<in>set (eval_args std as). quiet (t ctx)"
proof (induction n and ns and as rule: calls_node_calls_nodes_calls_args.induct)
  case (3 f args off)
  then obtain func where "map_of (template_functions std) f = Some func"
    and "arity_error f (length args) = None"
    by (auto simp: call_error_def split: if_splits)
  then show ?case using 3 func_quiet [of std f func "eval_args std args" ctx args off] by auto
qed (auto intro!: quiet_rbind)

text \<open>
  A compiled template raises nothing but \<open>RenderError\<close> and what sanitizing raises: no \<open>TypeError\<close>,
  so the arity table agrees with the signatures, and no \<open>TemplateError\<close> when \<open>%ifdef\<close> is used as meant.
\<close>

lemma compiled_quiet:
  "compile_template std ns src = Inr k \<Longrightarrow> bare_nodes ns \<Longrightarrow> quiet (k ctx)"
  by (auto simp: compile_template_checked checked_def first_call_error_None
      intro!: eval_quiet(2) split: option.splits)

text \<open>The fields a template reads: its variables and the literals of its \<open>%ifdef\<close> calls.\<close>

fun fields_node :: "node \<Rightarrow> ustr set" and fields_nodes :: "node list \<Rightarrow> ustr set"
  and fields_args :: "node list list \<Rightarrow> ustr set" where
  "fields_node (Literal t i) = {}"
| "fields_node (Variable name i) = {name}"
| "fields_node (FuncCall f args off) =
     (if f = U ''ifdef'' then set_option (bare_field args) else {}) \<union> fields_args args"
| "fields_nodes [] = {}"
| "fields_nodes (n # ns) = fields_node n \<union> fields_nodes ns"
| "fields_args [] = {}"
| "fields_args (a # as) = fields_nodes a \<union> fields_args as"

lemma ifdef_local:
  assumes "\<forall>x\<in>set_option (bare_field args). ctx_get ctx x = ctx_get ctx' x"
    and "map (\<lambda>t. t ctx) ts = map (\<lambda>t. t ctx') ts"
  shows "fn_ifdef std ctx (FuncCall f args off) ts = fn_ifdef std ctx' (FuncCall f args off) ts"
proof -
  have "ifdef_branch std ctx (FuncCall f args off) a b =
      ifdef_branch std ctx' (FuncCall f args off) a b"
    if "map_option (\<lambda>t. t ctx) a = map_option (\<lambda>t. t ctx') a"
      "map_option (\<lambda>t. t ctx) b = map_option (\<lambda>t. t ctx') b" for a b
    using assms(1) that
    by (cases "bare_field args"; cases a; cases b)
      (simp_all add: ifdef_branch_def stringify_field_def)
  then show ?thesis using assms(2) by (simp add: fn_ifdef_def split: list.split)
qed

lemma func_local:
  assumes f: "map_of (template_functions std) f = Some func"
    and ts: "map (\<lambda>t. t ctx) ts = map (\<lambda>t. t ctx') ts"
    and lit: "f = U ''ifdef'' \<Longrightarrow> \<forall>x\<in>set_option (bare_field args). ctx_get ctx x = ctx_get ctx' x"
  shows "func ctx (FuncCall f args off) ts = func ctx' (FuncCall f args off) ts"
  using f
proof (cases rule: template_functions_cases)
  case 7
  then show ?thesis using ifdef_local [OF lit ts] by simp
next
  case 6
  then show ?thesis using ts
    by (auto simp: fn_if_def if_branch_def intro!: rbind_cong split: list.splits)
next
  case 13
  then show ?thesis using ts by (auto simp: fn_default_def intro!: rbind_cong split: list.splits)
qed (use ts in \<open>auto simp: fn_defs split: list.splits\<close>)

lemma eval_local:
  "\<forall>x\<in>fields_node n. ctx_get ctx x = ctx_get ctx' x \<Longrightarrow> eval_node std n ctx = eval_node std n ctx'"
  "\<forall>x\<in>fields_nodes ns. ctx_get ctx x = ctx_get ctx' x \<Longrightarrow> eval_nodes std ns ctx = eval_nodes std ns ctx'"
  "\<forall>x\<in>fields_args as. ctx_get ctx x = ctx_get ctx' x \<Longrightarrow>
     map (\<lambda>t. t ctx) (eval_args std as) = map (\<lambda>t. t ctx') (eval_args std as)"
proof (induction n and ns and as rule: calls_node_calls_nodes_calls_args.induct)
  case (3 f args off)
  show ?case
  proof (cases "map_of (template_functions std) f")
    case (Some func)
    have "func ctx (FuncCall f args off) (eval_args std args) =
        func ctx' (FuncCall f args off) (eval_args std args)"
    proof (rule func_local [OF Some])
      show "map (\<lambda>t. t ctx) (eval_args std args) = map (\<lambda>t. t ctx') (eval_args std args)"
        using 3 by simp
      assume "f = U ''ifdef''"
      then show "\<forall>x\<in>set_option (bare_field args). ctx_get ctx x = ctx_get ctx' x"
        using 3(2) by (simp del: U_Cons)
    qed
    then show ?thesis by (simp add: Some)
  qed simp
qed auto

text \<open>A rendering depends on nothing but the template's fields.\<close>

lemma compiled_local:
  "compile_template std ns src = Inr k \<Longrightarrow> \<forall>x\<in>fields_nodes ns. ctx_get ctx x = ctx_get ctx' x \<Longrightarrow>
     k ctx = k ctx'"
  by (auto simp: compile_template_checked checked_def eval_local(2) split: option.splits)

end
