(* ===== verification/FieldRegistry.thy ===== *)
theory FieldRegistry
  imports PyText
begin

text \<open>
  The canonical field registry (\<open>domain/fields.py\<close>): the field types and categories, the
  definition of a field, registration, which refuses a second definition of a name, and the table
  of the fields the program registers. A match weight is an exact rational.
\<close>

datatype field_type = TEXT | INT_FIELD | FLOAT_FIELD | DATE | BOOL_FIELD | MULTI_TEXT

datatype field_category =
  IDENTITY | RELEASE | CLASSIFICATION | PROVIDER_ID | AUDIO_ANALYSIS | TECHNICAL | ADMIN

record field_def =
  fd_name :: ustr
  fd_label :: ustr
  fd_type :: field_type
  fd_category :: field_category
  fd_matching :: bool
  fd_weight :: rat
  fd_editable :: bool
  fd_default_strip :: bool

type_synonym registry = "(ustr \<times> field_def) list"

text \<open>\<open>_register\<close>: \<open>Inl\<close> is the \<open>ValueError\<close> of a duplicate name.\<close>

fun register_all :: "field_def list \<Rightarrow> registry \<Rightarrow> ustr + registry" where
  "register_all [] reg = Inr reg"
| "register_all (d # ds) reg =
     (if fd_name d \<in> fst ` set reg then Inl (fd_name d)
      else register_all ds (reg @ [(fd_name d, d)]))"

text \<open>\<open>FieldDef(name, label, type, category)\<close> with its keyword defaults, and the keywords used.\<close>

definition mk_field :: "string \<Rightarrow> string \<Rightarrow> field_type \<Rightarrow> field_category \<Rightarrow> field_def" where
  "mk_field name label ty cat =
     \<lparr>fd_name = U name, fd_label = U label, fd_type = ty, fd_category = cat, fd_matching = False,
      fd_weight = 0, fd_editable = True, fd_default_strip = False\<rparr>"

definition field_weighted :: "rat \<Rightarrow> field_def \<Rightarrow> field_def" where
  "field_weighted w d = d\<lparr>fd_matching := True, fd_weight := w\<rparr>"

definition field_read_only :: "field_def \<Rightarrow> field_def" where
  "field_read_only d = d\<lparr>fd_editable := False\<rparr>"

definition field_stripped :: "field_def \<Rightarrow> field_def" where
  "field_stripped d = d\<lparr>fd_default_strip := True\<rparr>"

definition field_defs :: "field_def list" where
  "field_defs = [
     field_weighted (3) (mk_field ''title'' ''Title'' TEXT IDENTITY),
     field_weighted (2) (mk_field ''artist'' ''Artist'' TEXT IDENTITY),
     mk_field ''artists'' ''Artists'' MULTI_TEXT IDENTITY,
     field_weighted (3) (mk_field ''album'' ''Album'' TEXT IDENTITY),
     field_weighted (3) (mk_field ''album_artist'' ''Album Artist'' TEXT IDENTITY),
     mk_field ''composer'' ''Composer'' TEXT IDENTITY,
     field_weighted (1) (mk_field ''track_no'' ''Track Number'' INT_FIELD IDENTITY),
     mk_field ''track_total'' ''Track Total'' INT_FIELD IDENTITY,
     mk_field ''disc_no'' ''Disc Number'' INT_FIELD IDENTITY,
     mk_field ''disc_total'' ''Disc Total'' INT_FIELD IDENTITY,
     field_weighted (1/2) (mk_field ''year'' ''Year'' INT_FIELD IDENTITY),
     mk_field ''original_year'' ''Original Year'' INT_FIELD IDENTITY,
     mk_field ''date'' ''Date'' DATE IDENTITY,
     mk_field ''compilation'' ''Compilation'' BOOL_FIELD IDENTITY,
     field_weighted (1/2) (mk_field ''label'' ''Label'' TEXT RELEASE),
     field_weighted (1/2) (mk_field ''catalog_number'' ''Catalog Number'' TEXT RELEASE),
     field_weighted (2) (mk_field ''barcode'' ''Barcode'' TEXT RELEASE),
     field_weighted (4) (mk_field ''isrc'' ''ISRC'' TEXT RELEASE),
     field_weighted (1/2) (mk_field ''country'' ''Country'' TEXT RELEASE),
     field_weighted (1/2) (mk_field ''media'' ''Media'' TEXT RELEASE),
     mk_field ''genre'' ''Genre'' MULTI_TEXT CLASSIFICATION,
     mk_field ''mood'' ''Mood'' MULTI_TEXT CLASSIFICATION,
     mk_field ''bpm'' ''BPM'' INT_FIELD CLASSIFICATION,
     mk_field ''key'' ''Key'' TEXT CLASSIFICATION,
     field_weighted (5) (mk_field ''mb_track_id'' ''MusicBrainz Track ID'' TEXT PROVIDER_ID),
     field_weighted (5) (mk_field ''mb_release_id'' ''MusicBrainz Release ID'' TEXT PROVIDER_ID),
     mk_field ''mb_recording_id'' ''MusicBrainz Recording ID'' TEXT PROVIDER_ID,
     mk_field ''mb_artist_id'' ''MusicBrainz Artist ID'' TEXT PROVIDER_ID,
     mk_field ''discogs_release_id'' ''Discogs Release ID'' TEXT PROVIDER_ID,
     mk_field ''deezer_track_id'' ''Deezer Track ID'' TEXT PROVIDER_ID,
     mk_field ''acoustid_id'' ''AcoustID'' TEXT PROVIDER_ID,
     field_read_only (mk_field ''acoustid_fingerprint'' ''Fingerprint'' TEXT AUDIO_ANALYSIS),
     mk_field ''rg_track_gain'' ''ReplayGain Track Gain'' FLOAT_FIELD AUDIO_ANALYSIS,
     mk_field ''rg_track_peak'' ''ReplayGain Track Peak'' FLOAT_FIELD AUDIO_ANALYSIS,
     mk_field ''rg_album_gain'' ''ReplayGain Album Gain'' FLOAT_FIELD AUDIO_ANALYSIS,
     mk_field ''rg_album_peak'' ''ReplayGain Album Peak'' FLOAT_FIELD AUDIO_ANALYSIS,
     mk_field ''r128_track_gain'' ''R128 Track Gain'' FLOAT_FIELD AUDIO_ANALYSIS,
     field_weighted (2) (field_read_only (mk_field ''duration_ms'' ''Duration'' INT_FIELD TECHNICAL)),
     field_read_only (mk_field ''bitrate'' ''Bitrate'' INT_FIELD TECHNICAL),
     field_read_only (mk_field ''sample_rate'' ''Sample Rate'' INT_FIELD TECHNICAL),
     field_read_only (mk_field ''channels'' ''Channels'' INT_FIELD TECHNICAL),
     field_read_only (mk_field ''codec'' ''Codec'' TEXT TECHNICAL),
     field_stripped (mk_field ''comment'' ''Comment'' TEXT ADMIN),
     field_read_only (field_stripped (mk_field ''encoder'' ''Encoder'' TEXT ADMIN))
  ]"

definition FIELDS :: registry where
  "FIELDS = map (\<lambda>d. (fd_name d, d)) field_defs"

definition get_field :: "ustr \<Rightarrow> field_def option" where
  "get_field name = map_of FIELDS name"

definition matching_fields :: "field_category option \<Rightarrow> field_def list" where
  "matching_fields cat =
     filter (\<lambda>f. fd_matching f \<and> (cat = None \<or> Some (fd_category f) = cat)) (map snd FIELDS)"

definition strippable_fields :: "field_def list" where
  "strippable_fields = filter fd_editable (map snd FIELDS)"

definition default_strip_fields :: "field_def list" where
  "default_strip_fields = filter fd_default_strip (map snd FIELDS)"

section \<open>Registration\<close>

lemma register_all_fresh:
  "distinct (map fst reg @ map fd_name ds) \<Longrightarrow>
     register_all ds reg = Inr (reg @ map (\<lambda>d. (fd_name d, d)) ds)"
  by (induction ds arbitrary: reg) (auto simp: image_iff)

lemma register_all_duplicate:
  "register_all ds reg = Inl n \<Longrightarrow> distinct (map fst reg) \<Longrightarrow>
     \<not> distinct (map fst reg @ map fd_name ds)"
proof (induction ds reg rule: register_all.induct)
  case (2 d ds reg)
  then show ?case by (auto split: if_splits simp: image_iff)
qed simp

lemmas field_simps' = mk_field_def field_weighted_def field_read_only_def field_stripped_def

lemma names_distinct: "distinct (map fd_name field_defs)"
  by (simp add: field_defs_def field_simps')

lemma fields_registered: "register_all field_defs [] = Inr FIELDS"
  using register_all_fresh [of "[]" field_defs] names_distinct by (simp add: FIELDS_def)

lemma map_of_named: "map_of (map (\<lambda>d. (fd_name d, d)) ds) n = find (\<lambda>d. fd_name d = n) ds"
  by (induction ds) auto

text \<open>The multi-valued fields.\<close>

lemma multi_text_fields:
  "map fd_name (filter (\<lambda>d. fd_type d = MULTI_TEXT) field_defs) = [U ''artists'', U ''genre'', U ''mood'']"
  by (simp add: field_defs_def field_simps')

end
