(* ===== verification/PathRender.thy ===== *)
theory PathRender
  imports PathCompiler FieldRegistry "HOL-Library.AList"
begin

text \<open>
  Rendering (\<open>paths/render.py\<close>): field values become template variables, a compiled template is
  run, its text is split at the slashes and each component is sanitized. Of the exceptions of a
  rendering only \<open>RenderError\<close> is caught; every other one leaves \<open>render\<close>.
\<close>

section \<open>Variables\<close>

text \<open>
  A field's value: a scalar, a list or tuple of scalars, or another object, given by its \<open>str\<close>.
  The \<open>str\<close> of a list is the parameter \<open>str_list\<close>.
\<close>

datatype field_value = Scalar pyval | Values "pyval list" | Object ustr

definition beets_aliases :: "(ustr \<times> ustr) list" where
  "beets_aliases =
     [(U ''albumartist'', U ''album_artist''), (U ''track'', U ''track_no''),
      (U ''tracktotal'', U ''track_total''), (U ''disc'', U ''disc_no''),
      (U ''disctotal'', U ''disc_total''), (U ''albumtype'', U ''compilation''),
      (U ''catalognum'', U ''catalog_number'')]"

definition is_multi_text :: "ustr \<Rightarrow> bool" where
  "is_multi_text name =
     (case get_field name of None \<Rightarrow> False | Some d \<Rightarrow> fd_type d = MULTI_TEXT)"

definition object_str :: "pystd \<Rightarrow> (pyval list \<Rightarrow> ustr) \<Rightarrow> field_value \<Rightarrow> ustr" where
  "object_str std str_list v =
     (case v of Scalar p \<Rightarrow> py_str std p | Values vs \<Rightarrow> str_list vs | Object s \<Rightarrow> s)"

definition to_variable :: "pystd \<Rightarrow> (pyval list \<Rightarrow> ustr) \<Rightarrow> ustr \<Rightarrow> field_value \<Rightarrow> pyval" where
  "to_variable std str_list name value =
     (if is_multi_text name then
        (case value of
           Scalar PNone \<Rightarrow> PNone
         | Values vs \<Rightarrow> PStr (join_with multi_value_join (map (py_str std) vs))
         | _ \<Rightarrow> PStr (object_str std str_list value))
      else (case value of Scalar p \<Rightarrow> p | _ \<Rightarrow> PStr (object_str std str_list value)))"

text \<open>The loop over the aliases, on the dictionary built so far.\<close>

fun add_aliases :: "(ustr \<times> ustr) list \<Rightarrow> (ustr \<times> pyval) list \<Rightarrow> (ustr \<times> pyval) list" where
  "add_aliases [] result = result"
| "add_aliases ((short, canonical) # as) result =
     (case map_of result canonical of
        None \<Rightarrow> add_aliases as result
      | Some v \<Rightarrow> add_aliases as (AList.update short v result))"

definition track_to_variables ::
  "pystd \<Rightarrow> (pyval list \<Rightarrow> ustr) \<Rightarrow> (ustr \<times> field_value) list \<Rightarrow> (ustr \<times> pyval) list" where
  "track_to_variables std str_list values =
     add_aliases beets_aliases
       (map (\<lambda>(name, value). (name, to_variable std str_list name value)) values)"

section \<open>Rendering\<close>

datatype render_warning =
    Failed render_message
  | SlashDisabled ustr
  | EmptyComponent ustr

record render_result =
  rr_path :: ustr
  rr_components :: "ustr list"
  rr_errors :: "render_warning list"

definition blank :: "ustr \<Rightarrow> bool" where
  "blank s = (strip s = [])"

text \<open>\<open>sanitize_component\<close> inside \<open>render\<close>, whose exceptions leave it.\<close>

definition sanitize_in_render :: "pystd \<Rightarrow> (ustr \<times> ustr) list \<Rightarrow> ustr \<Rightarrow> render_exc + ustr" where
  "sanitize_in_render std reps c =
     (case sanitize_component std c reps default_replacement default_max_bytes of
        Inl e \<Rightarrow> Inl (SanitizeFailed e)
      | Inr t \<Rightarrow> Inr t)"

definition render_text :: "pystd \<Rightarrow> bool \<Rightarrow> (ustr \<times> ustr) list \<Rightarrow> ustr \<Rightarrow> render_exc + render_result" where
  "render_text std create_directories reps rendered =
     (if \<not> create_directories \<and> 47 \<in> set rendered then
        Inr \<lparr>rr_path = rendered, rr_components = [rendered], rr_errors = [SlashDisabled rendered]\<rparr>
      else
        let raw = split_char 47 rendered in
        if list_ex blank raw then
          Inr \<lparr>rr_path = rendered, rr_components = raw, rr_errors = [EmptyComponent rendered]\<rparr>
        else
          rbind (rmap (sanitize_in_render std reps) raw) (\<lambda>sanitized.
            Inr \<lparr>rr_path = join_with [47] sanitized, rr_components = sanitized, rr_errors = []\<rparr>))"

definition render ::
  "pystd \<Rightarrow> thunk \<Rightarrow> context_values \<Rightarrow> bool \<Rightarrow> (ustr \<times> ustr) list \<Rightarrow> render_exc + render_result" where
  "render std compiled ctx create_directories reps =
     (case compiled ctx of
        Inl (RenderError m) \<Rightarrow> Inr \<lparr>rr_path = [], rr_components = [], rr_errors = [Failed m]\<rparr>
      | Inl e \<Rightarrow> Inl e
      | Inr rendered \<Rightarrow> render_text std create_directories reps rendered)"

datatype path_exc = ParseFailed parse_exc | CompileFailed template_error | RenderRaised render_exc

definition compile_source :: "pystd \<Rightarrow> ustr \<Rightarrow> path_exc + thunk" where
  "compile_source std src =
     (case parse src of
        Inl e \<Rightarrow> Inl (ParseFailed e)
      | Inr nodes \<Rightarrow>
          (case compile_template std nodes src of
             Inl e \<Rightarrow> Inl (CompileFailed e)
           | Inr k \<Rightarrow> Inr k))"

definition compile_and_render ::
  "pystd \<Rightarrow> ustr \<Rightarrow> context_values \<Rightarrow> bool \<Rightarrow> (ustr \<times> ustr) list \<Rightarrow> path_exc + render_result" where
  "compile_and_render std src ctx create_directories reps =
     rbind (compile_source std src) (\<lambda>k.
       case render std k ctx create_directories reps of
         Inl e \<Rightarrow> Inl (RenderRaised e)
       | Inr r \<Rightarrow> Inr r)"

section \<open>Lemmas on variables\<close>

lemma add_aliases_other:
  "x \<notin> fst ` set al \<Longrightarrow> map_of (add_aliases al r) x = map_of r x"
  by (induction al r rule: add_aliases.induct) (auto split: option.splits simp: AList.update_conv')

lemma add_aliases_lookup:
  "distinct (map fst al) \<Longrightarrow> fst ` set al \<inter> snd ` set al = {} \<Longrightarrow> (a, c) \<in> set al \<Longrightarrow>
   map_of r c = Some v \<Longrightarrow> map_of (add_aliases al r) a = Some v"
proof (induction al r rule: add_aliases.induct)
  case (2 short canonical al r)
  show ?case
  proof (cases "(a, c) = (short, canonical)")
    case True
    then have "a \<notin> fst ` set al" using 2 by auto
    then show ?thesis using True 2 by (simp add: add_aliases_other AList.update_conv')
  next
    case False
    have mem: "(a, c) \<in> set al" using 2(5) False by auto
    have "c \<in> snd ` set ((short, canonical) # al)" using image_eqI [OF _ mem, of c snd] by simp
    then have "c \<noteq> short" using 2(4) by (simp add: disjoint_iff) metis
    then have c: "map_of (AList.update short v' r) c = Some v" for v'
      using 2(6) by (simp add: AList.update_conv')
    have al: "distinct (map fst al)" "fst ` set al \<inter> snd ` set al = {}" using 2(3,4) by auto
    show ?thesis
      using 2(1) [OF _ al mem 2(6)] 2(2) [OF _ al mem c] by (cases "map_of r canonical") simp_all
  qed
qed simp

lemma beets_aliases_facts:
  "distinct (map fst beets_aliases)" "fst ` set beets_aliases \<inter> snd ` set beets_aliases = {}"
  by (simp_all add: beets_aliases_def)

lemma map_of_to_variable:
  "map_of (map (\<lambda>(n, v). (n, to_variable std sl n v)) values) name =
     map_option (to_variable std sl name) (map_of values name)"
  by (induction "values") auto

section \<open>Lemmas on rendering\<close>

lemma sanitize_in_render_Inr:
  assumes "sanitize_in_render std reps c = Inr t" and "nfc_keeps_reserved std"
  shows "\<forall>x\<in>set t. \<not> reserved_char x" and "encodable t" and "byte_len t \<le> 255"
proof -
  obtain s where clamp: "clamp_bytes std (unclamped std default_replacement s) 255 = Inr t"
    using assms(1)
    by (auto simp: sanitize_in_render_def sanitize_unclamped default_max_bytes_def rbind_eq_Inr
        split: sum.splits)
  note facts = clamp_bytes_Inr [OF clamp]
  show "encodable t" "byte_len t \<le> 255" using facts by simp_all
  show "\<forall>x\<in>set t. \<not> reserved_char x"
    using unclamped_clean [OF assms(2) default_replacement_clean] set_mono_prefix [OF facts(2)]
    by blast
qed

lemma reserved_slash: "reserved_char 47"
  by (simp add: reserved_char_def)

lemma split_char_count: "length (split_char c s) = Suc (length (filter (\<lambda>x. x = c) s))"
  by (induction c s rule: split_char.induct) (auto split: list.splits)

lemma render_text_success:
  assumes "render_text std cd reps s = Inr r" and "rr_errors r = []" and "nfc_keeps_reserved std"
  shows "length (rr_components r) = length (split_char 47 s)"
    and "split_char 47 (rr_path r) = rr_components r"
    and "\<forall>c\<in>set (rr_components r). (\<forall>x\<in>set c. \<not> reserved_char x) \<and> encodable c \<and> byte_len c \<le> 255"
proof -
  obtain cs where map: "rmap (sanitize_in_render std reps) (split_char 47 s) = Inr cs"
    and r: "r = \<lparr>rr_path = join_with [47] cs, rr_components = cs, rr_errors = []\<rparr>"
    using assms(1,2) by (auto simp: render_text_def Let_def rbind_eq_Inr split: if_splits)
  show len: "length (rr_components r) = length (split_char 47 s)"
    using rmap_Inr_length [OF map] by (simp add: r)
  have comps: "(\<forall>x\<in>set c. \<not> reserved_char x) \<and> encodable c \<and> byte_len c \<le> 255" if c: "c \<in> set cs" for c
  proof -
    obtain i where i: "i < length cs" "cs ! i = c" using c unfolding in_set_conv_nth by blast
    have "i < length (split_char 47 s)" using i(1) rmap_Inr_length [OF map] by simp
    from rmap_Inr_nth [OF map this] have "sanitize_in_render std reps (split_char 47 s ! i) = Inr c"
      unfolding i(2) .
    from sanitize_in_render_Inr [OF this assms(3)] show ?thesis by (intro conjI)
  qed
  then show "\<forall>c\<in>set (rr_components r). (\<forall>x\<in>set c. \<not> reserved_char x) \<and> encodable c \<and> byte_len c \<le> 255"
    unfolding r render_result.simps by (rule ballI)
  have "cs \<noteq> []" using len by (auto simp: r)
  moreover have "\<forall>c\<in>set cs. 47 \<notin> set c" using comps reserved_slash by blast
  ultimately show "split_char 47 (rr_path r) = rr_components r"
    by (simp add: r split_char_join)
qed

lemma flat_no_slash: "47 \<notin> set s \<Longrightarrow> length (split_char 47 s) = 1"
  by (simp add: split_char_idem)

end
