(* ===== verification/PathQuery.thy ===== *)
theory PathQuery
  imports PathRender
begin

text \<open>
  The query that keys a template override (\<open>paths/query.py\<close>): comma-separated \<open>field:value\<close>
  clauses, all of which must match, each as a case-insensitive substring test.
\<close>

text \<open>The \<open>ValueError\<close>s of \<open>parse_query\<close>.\<close>

datatype query_exc = MissingColon ustr | EmptyFieldName ustr | EmptyQuery ustr

type_synonym field_query = "(ustr \<times> ustr) list"

text \<open>The loop over the parts, with the clauses collected so far.\<close>

fun parse_clauses :: "ustr list \<Rightarrow> field_query \<Rightarrow> query_exc + field_query" where
  "parse_clauses [] clauses = Inr clauses"
| "parse_clauses (raw_part # parts) clauses =
     (let part = strip raw_part in
      if part = [] then parse_clauses parts clauses
      else if 58 \<notin> set part then Inl (MissingColon part)
      else
        let (field, value) = partition_char 58 part;
            field = strip field;
            value = strip value
        in if field = [] then Inl (EmptyFieldName part)
           else parse_clauses parts (clauses @ [(field, value)]))"

definition parse_query :: "ustr \<Rightarrow> query_exc + field_query" where
  "parse_query raw =
     rbind (parse_clauses (split_char 44 raw) []) (\<lambda>clauses.
       if clauses = [] then Inl (EmptyQuery raw) else Inr clauses)"

definition clause_matches :: "pystd \<Rightarrow> context_values \<Rightarrow> ustr \<times> ustr \<Rightarrow> bool" where
  "clause_matches std values clause =
     (case clause of (field, value) \<Rightarrow>
        contains_sub (std_lower std value) (std_lower std (stringify_field std values field)))"

fun query_matches :: "pystd \<Rightarrow> field_query \<Rightarrow> context_values \<Rightarrow> bool" where
  "query_matches std [] values = True"
| "query_matches std (c # cs) values =
     (if \<not> clause_matches std values c then False else query_matches std cs values)"

section \<open>Printing a query\<close>

definition print_clause :: "ustr \<times> ustr \<Rightarrow> ustr" where
  "print_clause c = fst c @ [58] @ snd c"

definition print_query :: "field_query \<Rightarrow> ustr" where
  "print_query cs = join_with [44] (map print_clause cs)"

text \<open>
  A clause that printing does not disturb: its field is not empty, no separator occurs where it
  would be read, and neither part has surrounding white space.
\<close>

definition plain_clause :: "ustr \<times> ustr \<Rightarrow> bool" where
  "plain_clause c \<longleftrightarrow>
     fst c \<noteq> [] \<and> 58 \<notin> set (fst c) \<and> 44 \<notin> set (fst c) \<and> 44 \<notin> set (snd c)
     \<and> strip (fst c) = fst c \<and> strip (snd c) = snd c"

lemma strip_fixed: "s \<noteq> [] \<Longrightarrow> strip s = s \<longleftrightarrow> \<not> is_space (hd s) \<and> \<not> is_space (last s)"
proof
  assume ne: "s \<noteq> []" and "strip s = s"
  let ?t = "dropWhile is_space s"
  have "length (strip s) \<le> length ?t"
    unfolding strip_def using prefix_length_le [OF rstrip_by_prefix] by simp
  then have "?t = s"
    using \<open>strip s = s\<close> suffix_dropWhile [of is_space s] by (metis suffix_length_le le_antisym suffix_def same_append_eq append_eq_append_conv append_Nil)
  moreover have "rstrip_by is_space ?t = s" using \<open>strip s = s\<close> by (simp add: strip_def)
  ultimately show "\<not> is_space (hd s) \<and> \<not> is_space (last s)"
    using ne hd_dropWhile [of is_space s] rstrip_by_last [of is_space s] by force
next
  assume "s \<noteq> []" "\<not> is_space (hd s) \<and> \<not> is_space (last s)"
  then show "strip s = s"
    by (cases s) (simp_all add: strip_def rstrip_by_fixed)
qed

lemma plain_clause_strip:
  assumes "plain_clause c"
  shows "strip (print_clause c) = print_clause c"
proof -
  have "\<not> is_space (hd (fst c))" using assms strip_fixed [of "fst c"] by (simp add: plain_clause_def)
  moreover have "\<not> is_space (last (print_clause c))"
    using assms strip_fixed [of "snd c"]
    by (auto simp: plain_clause_def print_clause_def is_space_def)
  ultimately show ?thesis
    using assms strip_fixed [of "print_clause c"]
    by (simp add: plain_clause_def print_clause_def)
qed

lemma partition_append: "c \<notin> set p \<Longrightarrow> partition_char c (p @ c # q) = (p, q)"
  by (simp add: partition_char_def index_of_append)

lemma parse_clauses_print:
  "\<forall>c\<in>set cs. plain_clause c \<Longrightarrow> parse_clauses (map print_clause cs) acc = Inr (acc @ cs)"
proof (induction cs arbitrary: acc)
  case (Cons c cs)
  have c: "plain_clause c" using Cons.prems by simp
  have "partition_char 58 (print_clause c) = c"
    using c by (simp add: plain_clause_def print_clause_def partition_append)
  moreover have "print_clause c \<noteq> []" "58 \<in> set (print_clause c)" by (simp_all add: print_clause_def)
  ultimately show ?case
    using Cons c by (simp add: plain_clause_strip Let_def case_prod_unfold plain_clause_def)
qed simp

lemma query_matches_all: "query_matches std cs values \<longleftrightarrow> (\<forall>c\<in>set cs. clause_matches std values c)"
  by (induction cs) auto

lemma parse_clauses_fields:
  "parse_clauses parts acc = Inr cs \<Longrightarrow> \<forall>c\<in>set acc. fst c \<noteq> [] \<Longrightarrow> \<forall>c\<in>set cs. fst c \<noteq> []"
  by (induction parts acc rule: parse_clauses.induct)
    (auto simp: Let_def split: if_splits prod.splits)

end
