(* ===== verification/PathCollisions.thy ===== *)
theory PathCollisions
  imports PyText
begin

text \<open>
  Collision detection over a rendered batch (\<open>paths/collisions.py\<close>). Dictionaries are association
  lists in insertion order. The foldered variant walks the union of two Python sets, whose order
  is unspecified: it is the parameter \<open>ord\<close>, any function that lists the elements of a list once.
\<close>

record collision =
  col_path :: ustr
  col_ids :: "int list"

type_synonym batch = "(int \<times> ustr) list"
type_synonym library_paths = "(ustr \<times> int) list"

definition norm_path :: "pystd \<Rightarrow> ustr \<Rightarrow> ustr" where
  "norm_path std path = std_casefold std (std_nfc std path)"

definition dir_of :: "ustr \<Rightarrow> ustr" where
  "dir_of path = (case rsplit1 47 path of None \<Rightarrow> [] | Some (d, _) \<Rightarrow> d)"

text \<open>\<open>rep.setdefault(_norm(path), path)\<close>.\<close>

definition set_default :: "pystd \<Rightarrow> ustr \<Rightarrow> (ustr \<rightharpoonup> ustr) \<Rightarrow> (ustr \<rightharpoonup> ustr)" where
  "set_default std path rep =
     (let n = norm_path std path in case rep n of None \<Rightarrow> rep(n \<mapsto> path) | Some _ \<Rightarrow> rep)"

definition representatives :: "pystd \<Rightarrow> batch \<Rightarrow> library_paths \<Rightarrow> (ustr \<rightharpoonup> ustr)" where
  "representatives std rendered existing =
     fold (\<lambda>e. set_default std (fst e)) existing
       (fold (\<lambda>r. set_default std (snd r)) rendered Map.empty)"

text \<open>The loop that adds the ids of the existing tracks, each at most once.\<close>

fun add_ids :: "int list \<Rightarrow> int list \<Rightarrow> int list" where
  "add_ids all_ids [] = all_ids"
| "add_ids all_ids (i # is) = add_ids (if i \<in> set all_ids then all_ids else all_ids @ [i]) is"

definition find_collisions_flat :: "pystd \<Rightarrow> batch \<Rightarrow> library_paths \<Rightarrow> collision list" where
  "find_collisions_flat std rendered existing =
     (let by_norm = bucket_all (\<lambda>r. norm_path std (snd r)) fst rendered;
          existing_by_norm = bucket_all (\<lambda>e. norm_path std (fst e)) snd existing;
          rep = representatives std rendered existing
      in concat (map (\<lambda>(norm, track_ids).
           let all_ids = add_ids track_ids (bucket_get existing_by_norm norm) in
           if length all_ids > 1 then [\<lparr>col_path = the (rep norm), col_ids = all_ids\<rparr>] else [])
         by_norm))"

definition find_collisions_foldered ::
  "pystd \<Rightarrow> (ustr list \<Rightarrow> ustr list) \<Rightarrow> batch \<Rightarrow> library_paths \<Rightarrow> collision list" where
  "find_collisions_foldered std ord rendered existing =
     (let rendered_by_dir = bucket_all (\<lambda>r. norm_path std (dir_of (snd r))) (\<lambda>r. r) rendered;
          existing_by_dir = bucket_all (\<lambda>e. norm_path std (dir_of (fst e))) (\<lambda>e. e) existing
      in concat (map (\<lambda>d. find_collisions_flat std (bucket_get rendered_by_dir d)
                                                   (bucket_get existing_by_dir d))
           (ord (map fst rendered_by_dir @ map fst existing_by_dir))))"

definition find_collisions ::
  "pystd \<Rightarrow> (ustr list \<Rightarrow> ustr list) \<Rightarrow> batch \<Rightarrow> bool \<Rightarrow> library_paths \<Rightarrow> collision list" where
  "find_collisions std ord rendered create_directories existing =
     (if create_directories then find_collisions_foldered std ord rendered existing
      else find_collisions_flat std rendered existing)"

section \<open>The flat search\<close>

definition class_ids :: "pystd \<Rightarrow> batch \<Rightarrow> library_paths \<Rightarrow> ustr \<Rightarrow> int list" where
  "class_ids std rendered existing n =
     add_ids (map fst (filter (\<lambda>r. norm_path std (snd r) = n) rendered))
       (map snd (filter (\<lambda>e. norm_path std (fst e) = n) existing))"

lemma set_add_ids: "set (add_ids xs ys) = set xs \<union> set ys"
  by (induction xs ys rule: add_ids.induct) auto

lemma distinct_add_ids: "distinct xs \<Longrightarrow> distinct (add_ids xs ys)"
  by (induction xs ys rule: add_ids.induct) auto

lemma fold_set_default:
  "fold (\<lambda>x. set_default std (f x)) xs rep n =
     (case rep n of Some p \<Rightarrow> Some p
      | None \<Rightarrow> map_option f (find (\<lambda>x. norm_path std (f x) = n) xs))"
  by (induction xs arbitrary: rep) (auto simp: set_default_def Let_def split: option.splits)

lemma representatives_batch:
  "find (\<lambda>r. norm_path std (snd r) = n) rendered = Some r \<Longrightarrow>
     representatives std rendered existing n = Some (snd r)"
  by (simp add: representatives_def fold_set_default)

lemma find_filter_hd: "find P xs = (case filter P xs of [] \<Rightarrow> None | x # _ \<Rightarrow> Some x)"
  by (induction xs) auto

text \<open>The collisions of the flat search, as a set: one per class of two or more tracks.\<close>

definition class_collision :: "pystd \<Rightarrow> batch \<Rightarrow> library_paths \<Rightarrow> ustr \<Rightarrow> collision" where
  "class_collision std rendered existing n =
     \<lparr>col_path = snd (hd (filter (\<lambda>r. norm_path std (snd r) = n) rendered)),
      col_ids = class_ids std rendered existing n\<rparr>"

lemma flat_set:
  "set (find_collisions_flat std rendered existing) =
     class_collision std rendered existing `
       {n \<in> (\<lambda>r. norm_path std (snd r)) ` set rendered. length (class_ids std rendered existing n) > 1}"
proof -
  let ?key = "\<lambda>r. norm_path std (snd r)"
  have rep: "the (representatives std rendered existing n) = snd (hd (filter (\<lambda>r. ?key r = n) rendered))"
    if mem: "n \<in> ?key ` set rendered" for n
  proof -
    have "filter (\<lambda>r. ?key r = n) rendered \<noteq> []" using mem by (auto simp: filter_empty_conv)
    then have "find (\<lambda>r. ?key r = n) rendered = Some (hd (filter (\<lambda>r. ?key r = n) rendered))"
      by (simp add: find_filter_hd split: list.split)
    from representatives_batch [OF this] show ?thesis by simp
  qed
  have ids: "add_ids (map fst (filter (\<lambda>r. ?key r = n) rendered))
      (bucket_get (bucket_all (\<lambda>e. norm_path std (fst e)) snd existing) n) = class_ids std rendered existing n" for n
    by (simp add: class_ids_def bucket_all_get)
  have B: "set (bucket_all ?key fst rendered) =
      (\<lambda>n. (n, map fst (filter (\<lambda>r. ?key r = n) rendered))) ` ?key ` set rendered"
    by (intro set_eqI) (force simp: bucket_all_mem image_iff)
  have "set (find_collisions_flat std rendered existing) =
      (\<Union>n\<in>?key ` set rendered. if length (class_ids std rendered existing n) > 1
         then {class_collision std rendered existing n} else {})"
    unfolding find_collisions_flat_def Let_def set_concat set_map B UN_simps(10)
    by (intro SUP_cong refl) (simp add: ids rep class_collision_def)
  then show ?thesis by auto
qed

section \<open>The foldered search\<close>

text \<open>
  What NFC and case folding do with the separator: they act on the parts of a path one by one,
  and no part gains a separator.
\<close>

definition norm_splits :: "pystd \<Rightarrow> bool" where
  "norm_splits std \<longleftrightarrow>
     (\<forall>p q. norm_path std (p @ 47 # q) = norm_path std p @ 47 # norm_path std q) \<and>
     (\<forall>p. 47 \<notin> set p \<longrightarrow> 47 \<notin> set (norm_path std p))"

definition lists_once :: "(ustr list \<Rightarrow> ustr list) \<Rightarrow> bool" where
  "lists_once ord \<longleftrightarrow> (\<forall>xs. set (ord xs) = set xs \<and> distinct (ord xs))"

lemma ascii_norm_splits: "norm_splits ascii_std"
  by (auto simp: norm_splits_def norm_path_def ascii_std_def ascii_lower_def)

lemma remdups_lists_once: "lists_once remdups"
  by (simp add: lists_once_def)

lemma norm_determines_dir:
  assumes law: "norm_splits std" and same: "norm_path std p = norm_path std q"
  shows "norm_path std (dir_of p) = norm_path std (dir_of q)"
proof -
  have dir: "norm_path std (dir_of p) =
      (if 47 \<in> set (norm_path std p) then fst (the (rsplit1 47 (norm_path std p)))
       else norm_path std [])" for p
  proof (cases "rsplit1 47 p")
    case None
    then have "47 \<notin> set p" by (simp add: rsplit1_None)
    then show ?thesis using None law by (simp add: dir_of_def norm_splits_def)
  next
    case (Some x)
    obtain d f where x: "x = (d, f)" by (cases x)
    have p: "p = d @ 47 # f" "47 \<notin> set f" using rsplit1_Some [of 47 p d f] Some x by auto
    have "norm_path std p = norm_path std d @ 47 # norm_path std f"
      and "47 \<notin> set (norm_path std f)" using p law by (simp_all add: norm_splits_def)
    then show ?thesis using Some x by (simp add: dir_of_def rsplit1_append)
  qed
  show ?thesis unfolding dir same ..
qed

lemma class_ids_filtered:
  assumes "\<And>r. r \<in> set rendered \<Longrightarrow> norm_path std (snd r) = n \<Longrightarrow> P (snd r)"
    and "\<And>e. e \<in> set existing \<Longrightarrow> norm_path std (fst e) = n \<Longrightarrow> P (fst e)"
  shows "class_ids std (filter (\<lambda>r. P (snd r)) rendered) (filter (\<lambda>e. P (fst e)) existing) n =
           class_ids std rendered existing n"
    and "filter (\<lambda>r. norm_path std (snd r) = n) (filter (\<lambda>r. P (snd r)) rendered) =
           filter (\<lambda>r. norm_path std (snd r) = n) rendered"
proof -
  have r: "filter (\<lambda>r. norm_path std (snd r) = n) (filter (\<lambda>r. P (snd r)) rendered) =
      filter (\<lambda>r. norm_path std (snd r) = n) rendered"
    using assms(1) by (auto intro!: filter_cong)
  have "filter (\<lambda>e. norm_path std (fst e) = n) (filter (\<lambda>e. P (fst e)) existing) =
      filter (\<lambda>e. norm_path std (fst e) = n) existing"
    using assms(2) by (auto intro!: filter_cong)
  with r show "class_ids std (filter (\<lambda>r. P (snd r)) rendered) (filter (\<lambda>e. P (fst e)) existing) n =
      class_ids std rendered existing n"
    by (simp add: class_ids_def)
  show "filter (\<lambda>r. norm_path std (snd r) = n) (filter (\<lambda>r. P (snd r)) rendered) =
      filter (\<lambda>r. norm_path std (snd r) = n) rendered" by (rule r)
qed

text \<open>Searching directory by directory finds what searching the whole library finds.\<close>

lemma foldered_set:
  assumes law: "norm_splits std" and ord: "lists_once ord"
  shows "set (find_collisions_foldered std ord rendered existing) =
           set (find_collisions_flat std rendered existing)"
proof -
  let ?dir = "\<lambda>p. norm_path std (dir_of p)"
  let ?R = "\<lambda>d. filter (\<lambda>r. ?dir (snd r) = d) rendered"
  let ?E = "\<lambda>d. filter (\<lambda>e. ?dir (fst e) = d) existing"
  let ?D = "(\<lambda>r. ?dir (snd r)) ` set rendered \<union> (\<lambda>e. ?dir (fst e)) ` set existing"
  have fold: "set (find_collisions_foldered std ord rendered existing) =
      (\<Union>d\<in>?D. set (find_collisions_flat std (?R d) (?E d)))"
    using ord unfolding find_collisions_foldered_def Let_def lists_once_def
    by (simp add: bucket_all_get bucket_all_keys)
  have same: "class_collision std (?R d) (?E d) n = class_collision std rendered existing n"
    "class_ids std (?R d) (?E d) n = class_ids std rendered existing n"
    if r: "r \<in> set rendered" "?dir (snd r) = d" "n = norm_path std (snd r)" for d n r
  proof -
    have "?dir p = d" if "norm_path std p = n" for p
      using norm_determines_dir [OF law, of p "snd r"] r that by simp
    note filtered = class_ids_filtered [where P = "\<lambda>p. ?dir p = d", OF this this]
    show "class_collision std (?R d) (?E d) n = class_collision std rendered existing n"
      using filtered by (simp only: class_collision_def)
    show "class_ids std (?R d) (?E d) n = class_ids std rendered existing n"
      by (simp add: filtered)
  qed
  show ?thesis
  proof (intro subset_antisym subsetI)
    fix c assume "c \<in> set (find_collisions_foldered std ord rendered existing)"
    then obtain d r where "r \<in> set rendered" "?dir (snd r) = d"
      and "length (class_ids std (?R d) (?E d) (norm_path std (snd r))) > 1"
      and "c = class_collision std (?R d) (?E d) (norm_path std (snd r))"
      unfolding fold flat_set by auto
    then show "c \<in> set (find_collisions_flat std rendered existing)"
      unfolding flat_set using same by auto
  next
    fix c assume "c \<in> set (find_collisions_flat std rendered existing)"
    then obtain r where r: "r \<in> set rendered"
      and len: "length (class_ids std rendered existing (norm_path std (snd r))) > 1"
      and c: "c = class_collision std rendered existing (norm_path std (snd r))"
      unfolding flat_set by auto
    let ?d = "?dir (snd r)"
    have "c \<in> set (find_collisions_flat std (?R ?d) (?E ?d))"
      unfolding flat_set using same [OF r refl refl] r len c
      by (intro image_eqI [of _ _ "norm_path std (snd r)"]) auto
    then show "c \<in> set (find_collisions_foldered std ord rendered existing)"
      unfolding fold using r by blast
  qed
qed

section \<open>Which tracks are reported\<close>

definition has_path :: "batch \<Rightarrow> library_paths \<Rightarrow> int \<Rightarrow> ustr \<Rightarrow> bool" where
  "has_path rendered existing i p \<longleftrightarrow> (i, p) \<in> set rendered \<or> (p, i) \<in> set existing"

lemma set_class_ids:
  "i \<in> set (class_ids std rendered existing n) \<longleftrightarrow>
     (\<exists>p. has_path rendered existing i p \<and> norm_path std p = n)"
  by (force simp: class_ids_def set_add_ids has_path_def)

lemma distinct_class_ids:
  assumes "distinct (map fst rendered)"
  shows "distinct (class_ids std rendered existing n)"
proof -
  have "distinct (map fst (filter (\<lambda>r. norm_path std (snd r) = n) rendered))"
    using assms by (simp add: distinct_map_filter)
  then show ?thesis by (simp add: class_ids_def distinct_add_ids)
qed

text \<open>
  A batch track and another track are reported together exactly when their paths agree after
  normalization.
\<close>

lemma flat_complete:
  assumes dist: "distinct (map fst rendered)" and t: "(i, p) \<in> set rendered" and ne: "i \<noteq> j"
  shows "(\<exists>c\<in>set (find_collisions_flat std rendered existing). i \<in> set (col_ids c) \<and> j \<in> set (col_ids c)
            \<and> norm_path std (col_path c) = norm_path std p)
         \<longleftrightarrow> (\<exists>q. has_path rendered existing j q \<and> norm_path std q = norm_path std p)"
    (is "?L \<longleftrightarrow> ?R")
proof -
  have path: "norm_path std (col_path (class_collision std rendered existing n)) = n"
    if mem: "n \<in> (\<lambda>r. norm_path std (snd r)) ` set rendered" for n
  proof -
    have "filter (\<lambda>r. norm_path std (snd r) = n) rendered \<noteq> []"
      using mem by (auto simp: filter_empty_conv)
    from hd_in_set [OF this] show ?thesis by (simp add: class_collision_def)
  qed
  have ids: "col_ids (class_collision std rendered existing n) = class_ids std rendered existing n" for n
    by (simp add: class_collision_def)
  show ?thesis
  proof
    assume ?L
    then obtain n where "n \<in> (\<lambda>r. norm_path std (snd r)) ` set rendered"
      and "j \<in> set (class_ids std rendered existing n)"
      and "norm_path std (col_path (class_collision std rendered existing n)) = norm_path std p"
      unfolding flat_set by (auto simp: ids)
    then show ?R using path set_class_ids by metis
  next
    assume ?R
    let ?n = "norm_path std p"
    have i: "i \<in> set (class_ids std rendered existing ?n)"
      and j: "j \<in> set (class_ids std rendered existing ?n)"
      using \<open>?R\<close> t by (auto simp: set_class_ids has_path_def)
    have n: "?n \<in> (\<lambda>r. norm_path std (snd r)) ` set rendered" using t by force
    have "card {i, j} \<le> card (set (class_ids std rendered existing ?n))"
      using i j by (intro card_mono) auto
    then have "length (class_ids std rendered existing ?n) > 1"
      using ne distinct_card [OF distinct_class_ids [OF dist]] by simp
    then show ?L unfolding flat_set using i j n path [OF n] ids by (intro bexI image_eqI) auto
  qed
qed

end
