(* ===== verification/PathPreview.thy ===== *)
theory PathPreview
  imports PathQuery PathCollisions
begin

text \<open>
  Path previews (\<open>pipeline/paths.py\<close>): which template a track uses, its rendered destination with
  the extension and the 255-byte limit of a file name, and the batch preview with its collision
  marks. The database is the list of track rows and a map of groups.
\<close>

section \<open>Rows and configuration\<close>

record track_row =
  tr_id :: int
  tr_path :: ustr
  tr_ext :: ustr
  tr_group :: "int option"
  tr_values :: "(ustr \<times> field_value) list"

record group_row =
  gr_kind :: ustr
  gr_tracks :: "track_row list"

record library_db =
  db_tracks :: "track_row list"
  db_groups :: "int \<rightharpoonup> group_row"

record paths_config =
  pc_create_directories :: bool
  pc_album :: ustr
  pc_singleton :: ustr
  pc_default :: ustr
  pc_overrides :: "(ustr \<times> ustr) list"
  pc_replace :: "(ustr \<times> ustr) list"

datatype preview_exc =
    GroupNotFound int
  | TracksNotFound "int set"
  | NothingSelected
  | BadQuery query_exc
  | BadTemplate path_exc
  | NotEncodable

datatype preview_error = Warning render_warning | EmptyFinalComponent ustr

record preview_row =
  pr_track_id :: int
  pr_old_path :: ustr
  pr_new_path :: ustr
  pr_errors :: "preview_error list"
  pr_is_collision :: bool
  pr_conflicts :: "int list"
  pr_collision_path :: "ustr option"

section \<open>The file name limit\<close>

definition with_extension :: "ustr \<Rightarrow> ustr \<Rightarrow> ustr" where
  "with_extension rendered ext = rendered @ ext"

definition final_component :: "ustr \<Rightarrow> ustr" where
  "final_component path = (case rsplit1 47 path of None \<Rightarrow> path | Some (_, f) \<Rightarrow> f)"

definition byte_count :: "ustr \<Rightarrow> preview_exc + nat" where
  "byte_count s = (case utf8_encode s of None \<Rightarrow> Inl NotEncodable | Some bs \<Rightarrow> Inr (length bs))"

definition clamp_or_raise :: "pystd \<Rightarrow> ustr \<Rightarrow> nat \<Rightarrow> preview_exc + ustr" where
  "clamp_or_raise std s n = (case clamp_bytes std s n of Inl _ \<Rightarrow> Inl NotEncodable | Inr t \<Rightarrow> Inr t)"

definition clamp_filename_to_255 :: "pystd \<Rightarrow> ustr \<Rightarrow> ustr \<Rightarrow> preview_exc + ustr" where
  "clamp_filename_to_255 std path ext =
     (let (prefix, filename) =
        (case rsplit1 47 path of None \<Rightarrow> ([], path) | Some (d, f) \<Rightarrow> (d @ [47], f))
      in rbind (byte_count filename) (\<lambda>n.
           if n \<le> 255 then Inr path
           else rbind (byte_count ext) (\<lambda>ext_bytes_len.
             if int 255 - int ext_bytes_len \<le> 0
             then rbind (clamp_or_raise std filename 255) (\<lambda>t. Inr (prefix @ t))
             else
               let base = (if suffix ext filename
                           then (if ext \<noteq> [] then take (length filename - length ext) filename else filename)
                           else filename)
               in rbind (clamp_or_raise std base (255 - ext_bytes_len)) (\<lambda>t.
                    Inr (prefix @ t @ ext)))))"

section \<open>Selecting tracks and templates\<close>

definition sqlite_batch :: nat where
  "sqlite_batch = 500"

text \<open>\<open>batched\<close>, and the rows a \<open>select\<close> on a batch of ids returns, in table order.\<close>

function batched :: "nat \<Rightarrow> 'a list \<Rightarrow> 'a list list" where
  "batched n xs = (if n = 0 \<or> xs = [] then [] else take n xs # batched n (drop n xs))"
  by pat_completeness auto
termination
  by (relation "measure (\<lambda>(n, xs). length xs)") auto

declare batched.simps [simp del]

definition rows_with_ids :: "library_db \<Rightarrow> int list \<Rightarrow> track_row list" where
  "rows_with_ids db ids = filter (\<lambda>t. tr_id t \<in> set ids) (db_tracks db)"

definition resolve_track_set ::
  "library_db \<Rightarrow> int list option \<Rightarrow> int option \<Rightarrow> preview_exc + track_row list" where
  "resolve_track_set db track_ids group_id =
     (case group_id of
        Some g \<Rightarrow>
          (case db_groups db g of None \<Rightarrow> Inl (GroupNotFound g) | Some gr \<Rightarrow> Inr (gr_tracks gr))
      | None \<Rightarrow>
          (case track_ids of
             None \<Rightarrow> Inl NothingSelected
           | Some ids \<Rightarrow>
               let tracks = concat (map (rows_with_ids db) (batched sqlite_batch ids));
                   missing = set ids - tr_id ` set tracks
               in if missing \<noteq> {} then Inl (TracksNotFound missing) else Inr tracks))"

fun select_override ::
  "pystd \<Rightarrow> (ustr \<times> ustr) list \<Rightarrow> context_values \<Rightarrow> preview_exc + ustr option" where
  "select_override std [] values = Inr None"
| "select_override std ((query_key, template) # rest) values =
     (case parse_query query_key of
        Inl e \<Rightarrow> Inl (BadQuery e)
      | Inr query \<Rightarrow>
          if query_matches std query values then Inr (Some template)
          else select_override std rest values)"

definition select_template ::
  "pystd \<Rightarrow> paths_config \<Rightarrow> context_values \<Rightarrow> bool \<Rightarrow> ustr option \<Rightarrow> preview_exc + ustr" where
  "select_template std config values single template_override =
     (case template_override of
        Some t \<Rightarrow> Inr t
      | None \<Rightarrow>
          rbind (select_override std (pc_overrides config) values) (\<lambda>chosen.
            case chosen of
              Some t \<Rightarrow> Inr t
            | None \<Rightarrow> Inr (if single then pc_singleton config else pc_album config)))"

definition is_singleton_track :: "library_db \<Rightarrow> track_row \<Rightarrow> bool" where
  "is_singleton_track db t =
     (case tr_group t of
        None \<Rightarrow> True
      | Some g \<Rightarrow> (case db_groups db g of None \<Rightarrow> False | Some gr \<Rightarrow> gr_kind gr = U ''singleton''))"

section \<open>Rendering one row\<close>

text \<open>
  What both entry points do with the result of \<open>compile_and_render\<close>: add the extension, refuse an
  empty component, clamp a long file name.
\<close>

definition finish_path ::
  "pystd \<Rightarrow> render_result \<Rightarrow> ustr \<Rightarrow> preview_exc + (ustr \<times> preview_error list)" where
  "finish_path std result ext =
     (let errors = map Warning (rr_errors result) in
      if rr_errors result \<noteq> [] then Inr (rr_path result, errors)
      else
        let new_path = with_extension (rr_path result) ext in
        if blank (final_component new_path) \<or> list_ex blank (split_char 47 new_path)
        then Inr (rr_path result, errors @ [EmptyFinalComponent new_path])
        else
          rbind (byte_count (final_component new_path)) (\<lambda>n.
            if n > 255
            then rbind (clamp_filename_to_255 std new_path ext) (\<lambda>p. Inr (p, errors))
            else Inr (new_path, errors)))"

definition render_track ::
  "pystd \<Rightarrow> (pyval list \<Rightarrow> ustr) \<Rightarrow> library_db \<Rightarrow> paths_config \<Rightarrow> ustr option \<Rightarrow>
   (ustr \<times> field_value) list \<Rightarrow> track_row \<Rightarrow> preview_exc + preview_row" where
  "render_track std str_list db config template_override proposed t =
     (let values = map_of (track_to_variables std str_list (AList.updates (map fst proposed) (map snd proposed) (tr_values t)))
      in rbind (select_template std config values (is_singleton_track db t) template_override) (\<lambda>template.
           case compile_and_render std template values (pc_create_directories config) (pc_replace config) of
             Inl e \<Rightarrow> Inl (BadTemplate e)
           | Inr result \<Rightarrow>
               rbind (finish_path std result (tr_ext t)) (\<lambda>(new_path, errors).
                 Inr \<lparr>pr_track_id = tr_id t, pr_old_path = tr_path t, pr_new_path = new_path,
                      pr_errors = errors, pr_is_collision = False, pr_conflicts = [],
                      pr_collision_path = None\<rparr>)))"

definition find_track :: "library_db \<Rightarrow> int \<Rightarrow> track_row option" where
  "find_track db i = find (\<lambda>t. tr_id t = i) (db_tracks db)"

definition render_path_for_track ::
  "pystd \<Rightarrow> (pyval list \<Rightarrow> ustr) \<Rightarrow> library_db \<Rightarrow> int \<Rightarrow> paths_config \<Rightarrow> ustr option \<Rightarrow>
   preview_exc + preview_row" where
  "render_path_for_track std str_list db track_id config template_override =
     (case find_track db track_id of
        None \<Rightarrow> Inl (TracksNotFound {track_id})
      | Some t \<Rightarrow> render_track std str_list db config template_override [] t)"

section \<open>The batch preview\<close>

definition lstrip_char :: "nat \<Rightarrow> ustr \<Rightarrow> ustr" where
  "lstrip_char c s = dropWhile (\<lambda>x. x = c) s"

definition relative_to_library :: "ustr \<Rightarrow> ustr option \<Rightarrow> ustr" where
  "relative_to_library path library_root =
     (case library_root of
        None \<Rightarrow> lstrip_char 47 path
      | Some lib \<Rightarrow>
          let lib = rstrip_by (\<lambda>c. c = 47) lib in
          if lib = [] then lstrip_char 47 path
          else if path = lib then []
          else if prefix (lib @ [47]) path then drop (length lib + 1) path
          else lstrip_char 47 path)"

text \<open>The rows of the batch, and the dictionary \<open>rendered_by_track\<close> of the error-free ones.\<close>

definition rendered_by_track :: "preview_row list \<Rightarrow> batch" where
  "rendered_by_track rows =
     fold (\<lambda>r d. if pr_errors r = [] then AList.update (pr_track_id r) (pr_new_path r) d else d) rows []"

definition existing_library_paths ::
  "library_db \<Rightarrow> track_row list \<Rightarrow> ustr option \<Rightarrow> library_paths" where
  "existing_library_paths db tracks lib =
     fold (\<lambda>t d. if tr_id t \<notin> tr_id ` set tracks
                 then AList.update (relative_to_library (tr_path t) lib) (tr_id t) d else d)
       (db_tracks db) []"

text \<open>The loop that fills \<open>colliding_map\<close> and \<open>collision_path_by_track\<close>.\<close>

definition mark_collision ::
  "collision \<Rightarrow> (int \<rightharpoonup> int list \<times> ustr) \<Rightarrow> (int \<rightharpoonup> int list \<times> ustr)" where
  "mark_collision c m =
     fold (\<lambda>tid m. m(tid \<mapsto> (filter (\<lambda>x. x \<noteq> tid) (col_ids c), col_path c))) (col_ids c) m"

definition mark_row :: "(int \<rightharpoonup> int list \<times> ustr) \<Rightarrow> preview_row \<Rightarrow> preview_row" where
  "mark_row marks r =
     (case marks (pr_track_id r) of
        None \<Rightarrow> r\<lparr>pr_is_collision := False, pr_conflicts := [], pr_collision_path := None\<rparr>
      | Some (others, p) \<Rightarrow>
          r\<lparr>pr_is_collision := True, pr_conflicts := others, pr_collision_path := Some p\<rparr>)"

definition preview_rename ::
  "pystd \<Rightarrow> (pyval list \<Rightarrow> ustr) \<Rightarrow> (ustr list \<Rightarrow> ustr list) \<Rightarrow> library_db \<Rightarrow> int list option \<Rightarrow> int option \<Rightarrow>
   paths_config \<Rightarrow> ustr option \<Rightarrow> (int \<Rightarrow> (ustr \<times> field_value) list) \<Rightarrow> ustr option \<Rightarrow>
   preview_exc + preview_row list" where
  "preview_rename std str_list ord db track_ids group_id config template_override proposed lib =
     rbind (resolve_track_set db track_ids group_id) (\<lambda>tracks.
       if tracks = [] then Inr []
       else rbind (rmap (\<lambda>t. render_track std str_list db config template_override (proposed (tr_id t)) t) tracks)
         (\<lambda>rows.
           let collisions = find_collisions std ord (rendered_by_track rows)
                 (pc_create_directories config) (existing_library_paths db tracks lib);
               marks = fold mark_collision collisions Map.empty
           in Inr (map (mark_row marks) rows)))"

section \<open>File names fit\<close>

lemma final_component_append: "47 \<notin> set f \<Longrightarrow> final_component (d @ 47 # f) = f"
  by (simp add: final_component_def rsplit1_append)

lemma final_component_plain: "47 \<notin> set f \<Longrightarrow> final_component f = f"
  by (simp add: final_component_def rsplit1_None [THEN iffD2])

lemma byte_count_Inr: "byte_count s = Inr n \<longleftrightarrow> encodable s \<and> n = byte_len s"
  by (auto simp: byte_count_def encodable_def byte_len_def split: option.splits)

lemma clamp_or_raise_Inr:
  assumes "clamp_or_raise std s n = Inr t"
  shows "prefix t s" and "encodable t" and "byte_len t \<le> n"
  using assms clamp_bytes_Inr by (auto simp: clamp_or_raise_def split: sum.splits)

text \<open>The name that replaces the last component of a path.\<close>

lemma clamp_filename_shape:
  assumes clamp: "clamp_filename_to_255 std path ext = Inr p" and ext: "47 \<notin> set ext"
  obtains d f f' where "path = d @ f" "p = d @ f'" "47 \<notin> set f" "47 \<notin> set f'" "byte_len f' \<le> 255"
    "d = [] \<or> (\<exists>d'. d = d' @ [47])"
    "byte_len f \<le> 255 \<longrightarrow> f' = f" "byte_len ext < 255 \<longrightarrow> suffix ext f \<longrightarrow> suffix ext f'"
proof -
  define d where "d = (case rsplit1 47 path of None \<Rightarrow> [] | Some (d, f) \<Rightarrow> d @ [47])"
  define f where "f = final_component path"
  have path: "path = d @ f" and f: "47 \<notin> set f" and d: "d = [] \<or> (\<exists>d'. d = d' @ [47])"
    using rsplit1_Some [of 47 path] rsplit1_None [of 47 path]
    by (cases "rsplit1 47 path"; force simp: d_def f_def final_component_def)+
  have pair: "(case rsplit1 47 path of None \<Rightarrow> ([], path) | Some (d, f) \<Rightarrow> (d @ [47], f)) = (d, f)"
    by (auto simp: d_def f_def final_component_def split: option.splits)
  consider "byte_len f \<le> 255" "p = path" | "byte_len f > 255"
    using clamp unfolding clamp_filename_to_255_def pair
    by (cases "byte_len f \<le> 255") (auto simp: rbind_eq_Inr [where m = "byte_count f"] byte_count_Inr not_le)
  then show thesis
  proof cases
    case 1
    then show thesis using that [of d f f] path f d by simp
  next
    case 2
    have "\<exists>f'. p = d @ f' \<and> 47 \<notin> set f' \<and> byte_len f' \<le> 255 \<and>
        (byte_len ext < 255 \<longrightarrow> suffix ext f \<longrightarrow> suffix ext f')"
    proof (cases "255 \<le> byte_len ext")
      case True
      then obtain t where t: "clamp_or_raise std f 255 = Inr t" "p = d @ t"
        using clamp 2 unfolding clamp_filename_to_255_def pair
        by (auto simp: rbind_eq_Inr byte_count_Inr split: if_splits)
      note facts = clamp_or_raise_Inr [OF t(1)]
      have "47 \<notin> set t" using facts(1) f by (auto dest: set_mono_prefix)
      then show ?thesis using facts t True by auto
    next
      case False
      let ?base = "if suffix ext f then (if ext \<noteq> [] then take (length f - length ext) f else f) else f"
      obtain t where t: "clamp_or_raise std ?base (255 - byte_len ext) = Inr t" "p = d @ t @ ext"
        and enc: "encodable ext"
        using clamp 2 False unfolding clamp_filename_to_255_def pair
        by (simp add: rbind_eq_Inr byte_count_Inr Let_def) blast
      note facts = clamp_or_raise_Inr [OF t(1)]
      have "set ?base \<subseteq> set f" by (auto dest: in_set_takeD)
      then have "47 \<notin> set (t @ ext)" using facts(1) f ext by (auto dest!: set_mono_prefix)
      moreover have "byte_len (t @ ext) \<le> 255"
        using facts enc False byte_len_append [of t ext] by simp
      ultimately show ?thesis using t by (intro exI [of _ "t @ ext"]) (auto simp: suffixI)
    qed
    then show thesis using that path f d 2 by force
  qed
qed

lemma final_component_join:
  "d = [] \<or> (\<exists>d'. d = d' @ [47]) \<Longrightarrow> 47 \<notin> set f \<Longrightarrow> final_component (d @ f) = f"
  by (auto simp: final_component_append final_component_plain)

lemma clamp_filename_fits:
  assumes "clamp_filename_to_255 std path ext = Inr p" and "47 \<notin> set ext"
  shows "byte_len (final_component p) \<le> 255"
proof -
  obtain d f f' where "p = d @ f'" "47 \<notin> set f'" "byte_len f' \<le> 255" "d = [] \<or> (\<exists>d'. d = d' @ [47])"
    using clamp_filename_shape [OF assms] by metis
  then show ?thesis by (simp add: final_component_join)
qed

lemma finish_path_fits:
  assumes "finish_path std result ext = Inr (p, [])" and "47 \<notin> set ext"
  shows "byte_len (final_component p) \<le> 255"
  using assms clamp_filename_fits
  by (auto simp: finish_path_def Let_def rbind_eq_Inr byte_count_Inr split: if_splits)

section \<open>Flagged rows\<close>

lemma update_fresh: "k \<notin> fst ` set al \<Longrightarrow> AList.update k v al = al @ [(k, v)]"
  by (induction al) auto

definition add_row :: "preview_row \<Rightarrow> batch \<Rightarrow> batch" where
  "add_row r d = (if pr_errors r = [] then AList.update (pr_track_id r) (pr_new_path r) d else d)"

lemma add_rows:
  "distinct (map pr_track_id rows) \<Longrightarrow> fst ` set d \<inter> pr_track_id ` set rows = {} \<Longrightarrow>
   distinct (map fst d) \<Longrightarrow>
     set (fold add_row rows d) =
       set d \<union> (\<lambda>r. (pr_track_id r, pr_new_path r)) ` {r \<in> set rows. pr_errors r = []}
     \<and> distinct (map fst (fold add_row rows d))"
proof (induction rows arbitrary: d)
  case (Cons r rows)
  have row: "add_row r d = (if pr_errors r = [] then d @ [(pr_track_id r, pr_new_path r)] else d)"
    using Cons.prems(2) update_fresh [of "pr_track_id r" d] by (auto simp: add_row_def)
  have "fst ` set (add_row r d) \<inter> pr_track_id ` set rows = {}" "distinct (map fst (add_row r d))"
    using Cons.prems by (auto simp: row)
  from Cons.IH [OF _ this] Cons.prems(1) show ?case by (auto simp: row)
qed simp

lemma rendered_by_track_facts:
  assumes "distinct (map pr_track_id rows)"
  shows "(i, p) \<in> set (rendered_by_track rows) \<longleftrightarrow>
      (\<exists>r\<in>set rows. pr_errors r = [] \<and> pr_track_id r = i \<and> pr_new_path r = p)"
    and "distinct (map fst (rendered_by_track rows))"
proof -
  have "rendered_by_track rows = fold add_row rows []"
    by (simp add: rendered_by_track_def add_row_def [abs_def])
  then show "(i, p) \<in> set (rendered_by_track rows) \<longleftrightarrow>
      (\<exists>r\<in>set rows. pr_errors r = [] \<and> pr_track_id r = i \<and> pr_new_path r = p)"
    "distinct (map fst (rendered_by_track rows))"
    using add_rows [OF assms, of "[]"] by auto
qed

text \<open>The comparison set holds the relative path of every track outside the batch.\<close>

definition add_existing :: "int set \<Rightarrow> ustr option \<Rightarrow> track_row \<Rightarrow> library_paths \<Rightarrow> library_paths" where
  "add_existing B lib t d =
     (if tr_id t \<notin> B then AList.update (relative_to_library (tr_path t) lib) (tr_id t) d else d)"

lemma add_existing_facts:
  "fst ` set (fold (add_existing B lib) ts d) =
     fst ` set d \<union> (\<lambda>t. relative_to_library (tr_path t) lib) ` {t \<in> set ts. tr_id t \<notin> B}"
  "snd ` set d \<inter> B = {} \<Longrightarrow> snd ` set (fold (add_existing B lib) ts d) \<inter> B = {}"
proof (induction ts arbitrary: d)
  case (Cons t ts)
  {
    case 1
    show ?case using Cons(1) by (auto simp: add_existing_def AList.dom_update)
  next
    case 2
    have "snd ` set (AList.update k i d) \<inter> B = {}" if "i \<notin> B" for k i
      using 2 that by (induction d) auto
    then show ?case using Cons(2) 2 by (simp add: add_existing_def)
  }
qed auto

lemma existing_library_paths_facts:
  "fst ` set (existing_library_paths db tracks lib) =
     (\<lambda>t. relative_to_library (tr_path t) lib) ` {t \<in> set (db_tracks db). tr_id t \<notin> tr_id ` set tracks}"
  "snd ` set (existing_library_paths db tracks lib) \<inter> tr_id ` set tracks = {}"
proof -
  have "existing_library_paths db tracks lib =
      fold (add_existing (tr_id ` set tracks) lib) (db_tracks db) []"
    by (simp add: existing_library_paths_def add_existing_def [abs_def])
  then show "fst ` set (existing_library_paths db tracks lib) =
      (\<lambda>t. relative_to_library (tr_path t) lib) ` {t \<in> set (db_tracks db). tr_id t \<notin> tr_id ` set tracks}"
    "snd ` set (existing_library_paths db tracks lib) \<inter> tr_id ` set tracks = {}"
    using add_existing_facts [where B = "tr_id ` set tracks" and lib = lib and ts = "db_tracks db" and d = "[]"]
    by simp_all
qed

lemma dom_marks: "dom (fold mark_collision cs m) = dom m \<union> (\<Union>c\<in>set cs. set (col_ids c))"
proof (induction cs arbitrary: m)
  case (Cons c cs)
  have "dom (fold (\<lambda>tid m. m(tid \<mapsto> f tid)) ids m) = dom m \<union> set ids" for f :: "int \<Rightarrow> int list \<times> ustr" and ids
    by (induction ids arbitrary: m) auto
  then show ?case using Cons by (auto simp: mark_collision_def)
qed simp

lemma mark_row_flag: "pr_is_collision (mark_row m r) \<longleftrightarrow> pr_track_id r \<in> dom m"
  by (auto simp: mark_row_def split: option.splits)

lemma mark_row_same [simp]:
  "pr_track_id (mark_row m r) = pr_track_id r" "pr_new_path (mark_row m r) = pr_new_path r"
  "pr_errors (mark_row m r) = pr_errors r" "pr_old_path (mark_row m r) = pr_old_path r"
  by (auto simp: mark_row_def split: option.splits)

text \<open>The rows of a preview, and the collisions their flags come from.\<close>

lemma preview_rename_rows:
  assumes "preview_rename std sl ord db ids g config ov proposed lib = Inr rows"
  obtains tracks rows' where
    "resolve_track_set db ids g = Inr tracks"
    "rmap (\<lambda>t. render_track std sl db config ov (proposed (tr_id t)) t) tracks = Inr rows'"
    "rows = map (mark_row (fold mark_collision (find_collisions std ord (rendered_by_track rows')
       (pc_create_directories config) (existing_library_paths db tracks lib)) Map.empty)) rows'"
    "map pr_track_id rows' = map tr_id tracks"
proof -
  obtain tracks where t: "resolve_track_set db ids g = Inr tracks"
    using assms by (auto simp: preview_rename_def rbind_eq_Inr)
  show thesis
  proof (cases "tracks = []")
    case True
    then show thesis using that [of tracks "[]"] t assms by (simp add: preview_rename_def)
  next
    case False
    then obtain rows' where r:
      "rmap (\<lambda>t. render_track std sl db config ov (proposed (tr_id t)) t) tracks = Inr rows'"
      "rows = map (mark_row (fold mark_collision (find_collisions std ord (rendered_by_track rows')
         (pc_create_directories config) (existing_library_paths db tracks lib)) Map.empty)) rows'"
      using assms t by (auto simp: preview_rename_def rbind_eq_Inr Let_def)
    have id: "pr_track_id r = tr_id t"
      if "render_track std sl db config ov (proposed (tr_id t)) t = Inr r" for t r
      using that by (auto simp: render_track_def rbind_eq_Inr Let_def case_sum_eq_Inr)
    have "map pr_track_id rows' = map tr_id tracks"
    proof (rule nth_equalityI)
      show "length (map pr_track_id rows') = length (map tr_id tracks)"
        using rmap_Inr_length [OF r(1)] by simp
      then show "map pr_track_id rows' ! i = map tr_id tracks ! i"
        if "i < length (map pr_track_id rows')" for i
        using that id [OF rmap_Inr_nth [OF r(1)]] by simp
    qed
    then show thesis using that [OF t r] by blast
  qed
qed

text \<open>Another destination that a rendered one would collide with.\<close>

definition clash :: "pystd \<Rightarrow> library_db \<Rightarrow> ustr option \<Rightarrow> preview_row list \<Rightarrow> preview_row \<Rightarrow> bool" where
  "clash std db lib rows r \<longleftrightarrow>
     (\<exists>r'\<in>set rows. pr_track_id r' \<noteq> pr_track_id r \<and> pr_errors r' = [] \<and>
        norm_path std (pr_new_path r') = norm_path std (pr_new_path r)) \<or>
     (\<exists>t\<in>set (db_tracks db). tr_id t \<notin> pr_track_id ` set rows \<and>
        norm_path std (relative_to_library (tr_path t) lib) = norm_path std (pr_new_path r))"

lemma clash_mark_row: "clash std db lib (map (mark_row m) rows) (mark_row m r) \<longleftrightarrow> clash std db lib rows r"
  by (simp add: clash_def image_image)

lemma find_collisions_flat_eq:
  "norm_splits std \<Longrightarrow> lists_once ord \<Longrightarrow>
     set (find_collisions std ord rendered cd existing) = set (find_collisions_flat std rendered existing)"
  by (simp add: find_collisions_def foldered_set)

lemma col_ids_flat:
  assumes "c \<in> set (find_collisions_flat std rendered existing)" and "distinct (map fst rendered)"
  obtains n where "set (col_ids c) = {i. \<exists>p. has_path rendered existing i p \<and> norm_path std p = n}"
    and "\<And>i. \<exists>j\<in>set (col_ids c). j \<noteq> i"
proof -
  obtain n where n: "length (class_ids std rendered existing n) > 1"
    and c: "c = class_collision std rendered existing n"
    using assms(1) unfolding flat_set by auto
  have "\<exists>j\<in>set (class_ids std rendered existing n). j \<noteq> i" for i
  proof (rule ccontr)
    assume "\<not> ?thesis"
    then have "set (class_ids std rendered existing n) \<subseteq> {i}" by auto
    then have "card (set (class_ids std rendered existing n)) \<le> 1"
      using card_mono [of "{i}"] by simp
    then show False using n distinct_card [OF distinct_class_ids [OF assms(2)]] by simp
  qed
  moreover have "col_ids c = class_ids std rendered existing n"
    by (simp add: c class_collision_def)
  moreover have "set (class_ids std rendered existing n) =
      {i. \<exists>p. has_path rendered existing i p \<and> norm_path std p = n}"
    by (intro set_eqI) (simp add: set_class_ids)
  ultimately show thesis by (intro that [of n]) simp_all
qed

text \<open>A row is flagged exactly when its destination clashes.\<close>

lemma preview_flags_iff:
  assumes run: "preview_rename std sl ord db ids g config ov proposed lib = Inr rows"
    and law: "norm_splits std" "lists_once ord"
    and dist: "distinct (map pr_track_id rows)"
    and r: "r \<in> set rows" "pr_errors r = []"
  shows "pr_is_collision r \<longleftrightarrow> clash std db lib rows r"
proof -
  obtain tracks rows' where
    rows: "rows = map (mark_row (fold mark_collision (find_collisions std ord (rendered_by_track rows')
       (pc_create_directories config) (existing_library_paths db tracks lib)) Map.empty)) rows'"
    and ids: "map pr_track_id rows' = map tr_id tracks"
    using preview_rename_rows [OF run] by metis
  let ?B = "rendered_by_track rows'" and ?E = "existing_library_paths db tracks lib"
  let ?m = "fold mark_collision (find_collisions std ord ?B (pc_create_directories config) ?E) Map.empty"
  have dist': "distinct (map pr_track_id rows')" using dist by (simp add: rows comp_def)
  note B = rendered_by_track_facts [OF dist']
  obtain r0 where r0: "r0 \<in> set rows'" "r = mark_row ?m r0" using r(1) by (auto simp: rows)
  let ?i = "pr_track_id r0" and ?p = "pr_new_path r0"
  have e0: "pr_errors r0 = []" using r(2) r0(2) by simp
  have batch: "(?i, ?p) \<in> set ?B" using B(1) r0(1) e0 by blast
  have ids': "tr_id ` set tracks = pr_track_id ` set rows'" using ids by (metis set_map)
  note E = existing_library_paths_facts [of db tracks lib]
  have only: "q = ?p" if "has_path ?B ?E ?i q" for q
  proof -
    have "?i \<in> tr_id ` set tracks" using r0(1) ids' by blast
    then have "(q, ?i) \<notin> set ?E" using E(2) by (force simp: disjoint_iff)
    then have "(?i, q) \<in> set ?B" using that by (simp add: has_path_def)
    then show ?thesis using batch B(2) by (meson eq_key_imp_eq_value)
  qed
  have flag: "pr_is_collision r \<longleftrightarrow> (\<exists>c\<in>set (find_collisions_flat std ?B ?E). ?i \<in> set (col_ids c))"
    by (simp add: r0(2) mark_row_flag dom_marks find_collisions_flat_eq [OF law])
  also have "\<dots> \<longleftrightarrow> (\<exists>j q. j \<noteq> ?i \<and> has_path ?B ?E j q \<and> norm_path std q = norm_path std ?p)"
  proof
    assume "\<exists>c\<in>set (find_collisions_flat std ?B ?E). ?i \<in> set (col_ids c)"
    then obtain c where c: "c \<in> set (find_collisions_flat std ?B ?E)" "?i \<in> set (col_ids c)" by blast
    obtain n where
      n: "set (col_ids c) = {i. \<exists>p. has_path ?B ?E i p \<and> norm_path std p = n}"
      and two: "\<exists>j\<in>set (col_ids c). j \<noteq> ?i"
      by (rule col_ids_flat [OF c(1) B(2)]) blast
    have "norm_path std ?p = n" using c(2) only by (auto simp: n)
    then show "\<exists>j q. j \<noteq> ?i \<and> has_path ?B ?E j q \<and> norm_path std q = norm_path std ?p"
      using two by (auto simp: n)
  next
    assume "\<exists>j q. j \<noteq> ?i \<and> has_path ?B ?E j q \<and> norm_path std q = norm_path std ?p"
    then show "\<exists>c\<in>set (find_collisions_flat std ?B ?E). ?i \<in> set (col_ids c)"
      using flat_complete [OF B(2) batch] by metis
  qed
  also have "\<dots> \<longleftrightarrow> clash std db lib rows' r0"
  proof -
    have ex: "(\<exists>j q. j \<noteq> ?i \<and> (q, j) \<in> set ?E \<and> norm_path std q = n) \<longleftrightarrow> n \<in> norm_path std ` fst ` set ?E" for n
    proof -
      have "j \<noteq> ?i" if "(q, j) \<in> set ?E" for q j
        using that E(2) r0(1) ids' by (force simp: disjoint_iff)
      then show ?thesis by (force simp: image_iff)
    qed
    have ba: "(\<exists>j q. j \<noteq> ?i \<and> (j, q) \<in> set ?B \<and> norm_path std q = n) \<longleftrightarrow>
        (\<exists>r'\<in>set rows'. pr_track_id r' \<noteq> ?i \<and> pr_errors r' = [] \<and> norm_path std (pr_new_path r') = n)" for n
      by (auto simp: B(1))
    have "(\<exists>j q. j \<noteq> ?i \<and> has_path ?B ?E j q \<and> norm_path std q = n) \<longleftrightarrow>
        (\<exists>j q. j \<noteq> ?i \<and> (j, q) \<in> set ?B \<and> norm_path std q = n)
        \<or> (\<exists>j q. j \<noteq> ?i \<and> (q, j) \<in> set ?E \<and> norm_path std q = n)" for n
      unfolding has_path_def by blast
    then show ?thesis unfolding ba ex clash_def E(1) ids' by (auto simp: image_iff)
  qed
  also have "\<dots> \<longleftrightarrow> clash std db lib rows r" by (simp add: rows r0(2) clash_mark_row)
  finally show ?thesis .
qed

section \<open>Rows that stay\<close>

text \<open>Tracks have distinct identities, and those of a group are rows of the table.\<close>

definition library_ok :: "library_db \<Rightarrow> bool" where
  "library_ok db \<longleftrightarrow>
     distinct (map tr_id (db_tracks db)) \<and> (\<forall>g gr. db_groups db g = Some gr \<longrightarrow> set (gr_tracks gr) \<subseteq> set (db_tracks db))"

lemma resolved_tracks: "library_ok db \<Longrightarrow> resolve_track_set db ids g = Inr tracks \<Longrightarrow> set tracks \<subseteq> set (db_tracks db)"
  by (auto simp: library_ok_def resolve_track_set_def rows_with_ids_def Let_def split: option.splits if_splits)

lemma preview_row_track:
  assumes ok: "library_ok db" and run: "preview_rename std sl ord db ids g config ov proposed lib = Inr rows" and r: "r \<in> set rows"
  obtains t where "t \<in> set (db_tracks db)" "tr_id t = pr_track_id r" "tr_path t = pr_old_path r"
proof -
  obtain tracks rows' m where t: "resolve_track_set db ids g = Inr tracks"
    and rows': "rmap (\<lambda>t. render_track std sl db config ov (proposed (tr_id t)) t) tracks = Inr rows'"
    and rows: "rows = map (mark_row m) rows'"
    by (rule preview_rename_rows [OF run]) blast
  obtain r0 where r0: "r0 \<in> set rows'" "r = mark_row m r0" using r rows by auto
  then obtain k where k: "k < length rows'" "rows' ! k = r0" by (auto simp: in_set_conv_nth)
  have len: "k < length tracks" using k(1) rmap_Inr_length [OF rows'] by simp
  have "render_track std sl db config ov (proposed (tr_id (tracks ! k))) (tracks ! k) = Inr r0"
    using rmap_Inr_nth [OF rows' len] k(2) by simp
  then have "tr_id (tracks ! k) = pr_track_id r" "tr_path (tracks ! k) = pr_old_path r"
    by (auto simp: r0(2) render_track_def rbind_eq_Inr Let_def case_sum_eq_Inr)
  moreover have "tracks ! k \<in> set (db_tracks db)" using resolved_tracks [OF ok t] len by auto
  ultimately show thesis by (rule that [rotated])
qed

text \<open>
  What the search is documented to find: beside the other rendered rows, every track that is not among the rendered
  ones, so also those of the batch whose rendering has failed.
\<close>

definition documented_clash :: "pystd \<Rightarrow> library_db \<Rightarrow> ustr option \<Rightarrow> preview_row list \<Rightarrow> preview_row \<Rightarrow> bool" where
  "documented_clash std db lib rows r \<longleftrightarrow>
     (\<exists>r'\<in>set rows. pr_track_id r' \<noteq> pr_track_id r \<and> pr_errors r' = [] \<and>
        norm_path std (pr_new_path r') = norm_path std (pr_new_path r)) \<or>
     (\<exists>t\<in>set (db_tracks db). tr_id t \<notin> pr_track_id ` {r'\<in>set rows. pr_errors r' = []} \<and>
        norm_path std (relative_to_library (tr_path t) lib) = norm_path std (pr_new_path r))"

text \<open>A row that has failed, so that its file stays, on the path of this one.\<close>

definition lands_on_failed :: "pystd \<Rightarrow> ustr option \<Rightarrow> preview_row list \<Rightarrow> preview_row \<Rightarrow> bool" where
  "lands_on_failed std lib rows r \<longleftrightarrow>
     (\<exists>r'\<in>set rows. pr_errors r' \<noteq> [] \<and> norm_path std (relative_to_library (pr_old_path r') lib) = norm_path std (pr_new_path r))"

lemma documented_clash_iff:
  assumes ok: "library_ok db" and run: "preview_rename std sl ord db ids g config ov proposed lib = Inr rows"
    and dist: "distinct (map pr_track_id rows)"
  shows "documented_clash std db lib rows r \<longleftrightarrow> clash std db lib rows r \<or> lands_on_failed std lib rows r"
proof -
  let ?at = "\<lambda>p. norm_path std (relative_to_library p lib) = norm_path std (pr_new_path r)"
  have same_row: "x = y" if "x \<in> set rows" "y \<in> set rows" "pr_track_id x = pr_track_id y" for x y
    using dist that by (auto simp: distinct_map inj_on_def)
  have same_track: "x = y" if "x \<in> set (db_tracks db)" "y \<in> set (db_tracks db)" "tr_id x = tr_id y" for x y
    using ok that by (auto simp: library_ok_def distinct_map inj_on_def)
  have "(\<exists>t\<in>set (db_tracks db). tr_id t \<notin> pr_track_id ` {r'\<in>set rows. pr_errors r' = []} \<and> ?at (tr_path t)) \<longleftrightarrow>
      (\<exists>t\<in>set (db_tracks db). tr_id t \<notin> pr_track_id ` set rows \<and> ?at (tr_path t)) \<or> lands_on_failed std lib rows r"
    (is "?L \<longleftrightarrow> ?M \<or> ?R")
  proof
    assume ?L
    then obtain t where t: "t \<in> set (db_tracks db)" "tr_id t \<notin> pr_track_id ` {r'\<in>set rows. pr_errors r' = []}" "?at (tr_path t)"
      by blast
    show "?M \<or> ?R"
    proof (cases "tr_id t \<in> pr_track_id ` set rows")
      case True
      then obtain r' where r': "r' \<in> set rows" "tr_id t = pr_track_id r'" by blast
      obtain t' where "t' \<in> set (db_tracks db)" "tr_id t' = pr_track_id r'" "tr_path t' = pr_old_path r'"
        by (rule preview_row_track [OF ok run r'(1)])
      then have "tr_path t = pr_old_path r'" using same_track [of t' t] t(1) r'(2) by simp
      then show ?thesis using t(2,3) r' unfolding lands_on_failed_def by force
    qed (use t in blast)
  next
    assume "?M \<or> ?R"
    then show ?L
    proof
      assume ?R
      then obtain r' where r': "r' \<in> set rows" "pr_errors r' \<noteq> []" "?at (pr_old_path r')" by (auto simp: lands_on_failed_def)
      obtain t where t: "t \<in> set (db_tracks db)" "tr_id t = pr_track_id r'" "tr_path t = pr_old_path r'"
        by (rule preview_row_track [OF ok run r'(1)])
      have "tr_id t \<notin> pr_track_id ` {r'\<in>set rows. pr_errors r' = []}" using same_row [OF _ r'(1)] r'(2) t(2) by auto
      then show ?L using t(1,3) r'(3) by (intro bexI [of _ t] conjI) simp_all
    qed blast
  qed
  then show ?thesis unfolding documented_clash_def clash_def by blast
qed

end
