(* ===== verification/PathProperties.thy ===== *)
theory PathProperties
  imports PathPreview
begin

text \<open>
  What the path template engine promises, from the syntax of templates to the batch preview, and
  the inputs on which its code departs from its own comments.
\<close>

section \<open>Templates\<close>

text \<open>C27. Parsing inverts printing: the text that spells a well-formed syntax tree of at most 100
  nested calls (literals escaped, variables in braces) parses to that tree, each node at the offset
  where its text starts.\<close>

theorem parse_print_roundtrip:
  assumes "wf_nodes ns" and "nodes_depth ns \<le> max_func_nesting_depth"
  shows "parse (print_nodes ns) = Inr (place_nodes 0 ns)"
  by (rule parse_print_nodes [OF assms])

theorem parse_print_roundtrip_witness:
  "parse (U ''${artist} - %upper{%left{${title},3}}'') =
     Inr (place_nodes 0 [Variable (U ''artist'') 0, Literal (U '' - '') 0,
       FuncCall (U ''upper'') [[FuncCall (U ''left'') [[Variable (U ''title'') 0], [Literal (U ''3'') 0]] 0]] 0])"
proof -
  let ?ns = "[Variable (U ''artist'') 0, Literal (U '' - '') 0,
    FuncCall (U ''upper'') [[FuncCall (U ''left'') [[Variable (U ''title'') 0], [Literal (U ''3'') 0]] 0]] 0]"
  have "wf_nodes ?ns" by code_simp
  moreover have "nodes_depth ?ns \<le> max_func_nesting_depth" by code_simp
  ultimately have "parse (print_nodes ?ns) = Inr (place_nodes 0 ?ns)" by (rule parse_print_roundtrip)
  moreover have "print_nodes ?ns = U ''${artist} - %upper{%left{${title},3}}''" by code_simp
  ultimately show ?thesis by (simp only:)
qed

text \<open>C36. Parsing always ends in a tree or a \<open>TemplateError\<close> that carries the template itself and
  an offset within it: the parser never reads past the last token, and no template makes it run on.\<close>

theorem parse_errors_located:
  "case parse src of
     Inr ns \<Rightarrow> True
   | Inl e \<Rightarrow> (\<exists>te. e = Malformed te \<and> te_template te = src \<and> te_offset te \<le> length src)"
  using parse_good_error [of src] by (auto split: sum.splits)

text \<open>C28. Compiling a tree gives the closure that walks the tree directly, unless some call names
  an unregistered function or has a wrong number of arguments; then the result is the error of the
  first such call in reading order, at that call's offset.\<close>

theorem compile_equivalence:
  "compile_template std ns src =
     (case first_call_error std src (calls_nodes ns) of
        Some e \<Rightarrow> Inl e
      | None \<Rightarrow> Inr (eval_nodes std ns))"
  using compile_template_checked [of std ns src] by (simp add: checked_def)

text \<open>A compiled template in which every \<open>%ifdef\<close> has a bare field name raises, on any data,
  only \<open>RenderError\<close> or what sanitizing raises: the arity table agrees with the functions'
  signatures, so no call ends in a \<open>TypeError\<close>, and no \<open>TemplateError\<close> appears at render time.\<close>

theorem compiled_raises_data_errors_only:
  assumes "compile_template std ns src = Inr k" and "bare_nodes ns" and "k ctx = Inl e"
  shows "data_exc e"
  using compiled_quiet [OF assms(1,2), of ctx] assms(3) by (simp add: quiet_def)

theorem compiled_raises_data_errors_only_witness:
  "data_exc (RenderError (PadNotInteger (U ''x'')))"
proof -
  let ?ns = "[FuncCall (U ''pad'') [[Variable (U ''track'') 5], [Literal (U ''x'') 12]] 0]"
  have "first_call_error ascii_std [] (calls_nodes ?ns) = None" by code_simp
  then have k: "compile_template ascii_std ?ns [] = Inr (eval_nodes ascii_std ?ns)"
    by (simp add: compile_template_checked checked_def)
  have "bare_nodes ?ns" by code_simp
  moreover have "parse_int ascii_std (U ''x'') = None" by code_simp
  then have "eval_nodes ascii_std ?ns Map.empty = Inl (RenderError (PadNotInteger (U ''x'')))"
    by (simp add: template_functions_def fn_pad_def)
  ultimately show ?thesis by (rule compiled_raises_data_errors_only [OF k])
qed

text \<open>A rendering reads no field but the template's variables and the literals of its
  \<open>%ifdef\<close> calls: two contexts that agree on these give the same text or the same error.\<close>

theorem rendering_reads_its_fields:
  assumes "compile_template std ns src = Inr k"
    and "\<forall>x\<in>fields_nodes ns. ctx_get ctx x = ctx_get ctx' x"
  shows "k ctx = k ctx'"
  by (rule compiled_local [OF assms])

theorem rendering_reads_its_fields_witness:
  "eval_nodes ascii_std [Variable (U ''title'') 0] (Map.empty (U ''mood'' \<mapsto> PInt 3)) =
     eval_nodes ascii_std [Variable (U ''title'') 0] Map.empty"
  by (rule rendering_reads_its_fields [where src = "[]" and std = ascii_std and ns = "[Variable (U ''title'') 0]"])
    (auto simp: compile_template_def join_thunks_Cons fun_eq_iff ctx_get_def)

section \<open>Components and paths\<close>

text \<open>Clamping a component that is too long keeps the longest prefix whose UTF-8 encoding
  fits, less its trailing combining marks; so it never splits a character.\<close>

theorem clamp_longest_prefix:
  assumes "clamp_bytes std s n = Inr t" and "byte_len s > n"
  shows "\<exists>p. prefix p s \<and> byte_len p \<le> n \<and> (\<forall>q. prefix q s \<and> byte_len q \<le> n \<longrightarrow> prefix q p)
     \<and> t = rstrip_by (std_combining std) p"
proof -
  have e: "encodable s" using clamp_bytes_Inr(1) [OF assms(1)] .
  have "t = rstrip_by (std_combining std) (fit n s)"
    using assms e by (simp add: clamp_bytes_fit)
  then show ?thesis
    using fit_prefix byte_len_fit [OF e] fit_longest [OF e] by blast
qed

theorem clamp_longest_prefix_witness:
  "\<exists>p. prefix p [97, 113, 769, 98] \<and> byte_len p \<le> 3
     \<and> (\<forall>q. prefix q [97, 113, 769, 98] \<and> byte_len q \<le> 3 \<longrightarrow> prefix q p)
     \<and> [97, 113] = rstrip_by (std_combining ascii_std) p"
  by (rule clamp_longest_prefix [where std = ascii_std and n = 3]) (code_simp, code_simp)

text \<open>C34. A sanitized component has no reserved or control character and fits its byte limit; when
  the text before the clamp already fits, the result is no Windows device name either and does not
  end in a dot or a space.\<close>

theorem sanitized_component:
  assumes "sanitize_component std s reps default_replacement n = Inr t"
    and "nfc_keeps_reserved std" and "upper_keeps_underscore std"
  shows "(\<forall>c\<in>set t. \<not> reserved_char c) \<and> byte_len t \<le> n \<and>
    (\<exists>u. apply_replacements std reps s = Inr u \<and>
       (byte_len (unclamped std default_replacement u) \<le> n \<longrightarrow>
          \<not> is_windows_reserved std t \<and> (t = [] \<or> \<not> dots_and_spaces (last t))))"
proof -
  obtain u where u: "apply_replacements std reps s = Inr u"
    and t: "clamp_bytes std (unclamped std default_replacement u) n = Inr t"
    using assms(1) by (auto simp: sanitize_unclamped rbind_eq_Inr)
  note facts = clamp_bytes_Inr [OF t]
  have "\<forall>c\<in>set t. \<not> reserved_char c"
    using unclamped_clean [OF assms(2) default_replacement_clean] set_mono_prefix [OF facts(2)] by blast
  moreover have "t = unclamped std default_replacement u"
    if "byte_len (unclamped std default_replacement u) \<le> n"
    using t clamp_bytes_fit [OF facts(1), of std n] that by simp
  ultimately show ?thesis
    using u facts(4) unclamped_facts [OF assms(3), of u] by blast
qed

theorem sanitized_component_witness:
  "\<not> is_windows_reserved ascii_std (U ''_con.txt'') \<and> \<not> dots_and_spaces (last (U ''_con.txt''))"
proof -
  have run: "sanitize_component ascii_std (U ''con.txt. '') [] default_replacement 255 = Inr (U ''_con.txt'')"
    by code_simp
  have "byte_len (unclamped ascii_std default_replacement (U ''con.txt. '')) \<le> 255" by code_simp
  with sanitized_component [OF run ascii_std_laws] show ?thesis by simp
qed

text \<open>A rendering without errors is a list of sanitized components, one per slash-separated
  part of the rendered text: no component has a reserved character, so the slashes of the path are
  exactly the separators, each component is at most 255 bytes long, and without
  \<open>create_directories\<close> there is a single one.\<close>

theorem render_components:
  assumes "render std k ctx create_directories reps = Inr r" and "rr_errors r = []"
    and "nfc_keeps_reserved std"
  shows "split_char 47 (rr_path r) = rr_components r
    \<and> (\<forall>c\<in>set (rr_components r). (\<forall>x\<in>set c. \<not> reserved_char x) \<and> byte_len c \<le> 255)
    \<and> (\<not> create_directories \<longrightarrow> length (rr_components r) = 1)
    \<and> (\<exists>rendered. k ctx = Inr rendered \<and> length (rr_components r) = length (split_char 47 rendered))"
proof -
  obtain out where out: "k ctx = Inr out" "render_text std create_directories reps out = Inr r"
    using assms(1,2) by (auto simp: render_def split: sum.splits render_exc.splits)
  note shape = render_text_success [OF out(2) assms(2,3)]
  have "length (rr_components r) = 1" if "\<not> create_directories"
    using that out(2) assms(2) shape(1) by (auto simp: render_text_def flat_no_slash split: if_splits)
  with shape out(1) show ?thesis by auto
qed

theorem render_components_witness:
  "split_char 47 (U ''A_/B'') = [U ''A_'', U ''B'']"
proof -
  have "sanitize_component ascii_std (U ''A:'') [] default_replacement default_max_bytes = Inr (U ''A_'')"
    and "sanitize_component ascii_std (U ''B.'') [] default_replacement default_max_bytes = Inr (U ''B'')"
    by code_simp+
  moreover have "split_char 47 (U ''A:/B.'') = [U ''A:'', U ''B.'']" "\<not> blank (U ''A:'')" "\<not> blank (U ''B.'')"
    by code_simp+
  ultimately have run: "render ascii_std (\<lambda>ctx. Inr (U ''A:/B.'')) Map.empty True [] =
      Inr \<lparr>rr_path = U ''A_/B'', rr_components = [U ''A_'', U ''B''], rr_errors = []\<rparr>"
    by (simp add: render_def render_text_def sanitize_in_render_def)
  from render_components [OF run _ ascii_std_laws(1)] show ?thesis by simp
qed

section \<open>Collisions and previews\<close>

text \<open>Looking for collisions directory by directory reports the same collisions as comparing
  every path with the whole library, whatever the order in which the directories are visited.\<close>

theorem foldered_equals_flat:
  assumes "norm_splits std" and "lists_once ord"
  shows "set (find_collisions std ord rendered True existing) =
         set (find_collisions std ord rendered False existing)"
  using foldered_set [OF assms] by (simp add: find_collisions_def)

theorem foldered_equals_flat_witness:
  "set (find_collisions ascii_std remdups [(1, U ''A/x''), (2, U ''a/X'')] True [(U ''b/x'', 3)]) =
     {\<lparr>col_path = U ''A/x'', col_ids = [1, 2]\<rparr>}"
proof -
  have "find_collisions ascii_std remdups [(1, U ''A/x''), (2, U ''a/X'')] False [(U ''b/x'', 3)] =
      [\<lparr>col_path = U ''A/x'', col_ids = [1, 2]\<rparr>]" by code_simp
  then show ?thesis
    using foldered_equals_flat [OF ascii_norm_splits remdups_lists_once] by simp
qed

text \<open>C13. In a batch preview whose rows have distinct track ids, a row without errors is flagged as a collision exactly
  when another row of the batch without errors has the same destination after Unicode normalization and case
  folding, or a track of the library that is not in the batch has it as its present path. The present paths of batch
  tracks do not count: neither of those that move away, nor of those whose rendering failed.\<close>

theorem preview_flags_collisions:
  assumes "preview_rename std sl ord db ids g config ov proposed lib = Inr rows"
    and "norm_splits std" and "lists_once ord" and "distinct (map pr_track_id rows)"
    and "r \<in> set rows" and "pr_errors r = []"
  shows "pr_is_collision r \<longleftrightarrow> clash std db lib rows r"
  by (rule preview_flags_iff [OF assms])

definition sample_track :: "int \<Rightarrow> string \<Rightarrow> string \<Rightarrow> track_row" where
  "sample_track i path title =
     \<lparr>tr_id = i, tr_path = U path, tr_ext = U ''.mp3'', tr_group = None,
      tr_values = [(U ''title'', Scalar (PStr (U title)))]\<rparr>"

definition sample_db :: library_db where
  "sample_db = \<lparr>db_tracks = [sample_track 1 ''/m/a.mp3'' ''Zoo'', sample_track 2 ''/m/zoo.mp3'' ''Bar''],
                db_groups = Map.empty\<rparr>"

definition sample_config :: paths_config where
  "sample_config = \<lparr>pc_create_directories = False, pc_album = U ''$title'', pc_singleton = U ''$title'',
     pc_default = U ''$title'', pc_overrides = [], pc_replace = []\<rparr>"

theorem preview_flags_collisions_witness:
  "\<exists>r. preview_rename ascii_std (\<lambda>_. []) remdups sample_db (Some [1]) None sample_config None (\<lambda>_. [])
         (Some (U ''/m'')) = Inr [r] \<and> pr_is_collision r \<and> clash ascii_std sample_db (Some (U ''/m'')) [r] r"
proof -
  let ?run = "preview_rename ascii_std (\<lambda>_. []) remdups sample_db (Some [1]) None sample_config None (\<lambda>_. [])
    (Some (U ''/m''))"
  have "case ?run of Inr [r] \<Rightarrow> pr_is_collision r \<and> pr_errors r = [] | _ \<Rightarrow> False" by code_simp
  then obtain r where r: "?run = Inr [r]" "pr_is_collision r" "pr_errors r = []"
    by (auto split: sum.splits list.splits)
  from preview_flags_collisions [OF r(1) ascii_norm_splits remdups_lists_once _ _ r(3)] r
  show ?thesis by simp
qed

text \<open>C30. What the search for collisions is documented to compare with, every track that is not among the rendered ones,
  is more than a preview passes to it. A row without errors has such a documented clash exactly when it is flagged or
  lands on the present path of a batch row whose rendering failed, which stays in place; the latter alone is
  not flagged.\<close>

theorem preview_misses_failed_rows:
  assumes "library_ok db" and "preview_rename std sl ord db ids g config ov proposed lib = Inr rows"
    and "norm_splits std" and "lists_once ord" and "distinct (map pr_track_id rows)"
    and "r \<in> set rows" and "pr_errors r = []"
  shows "documented_clash std db lib rows r \<longleftrightarrow> pr_is_collision r \<or> lands_on_failed std lib rows r"
  using documented_clash_iff [OF assms(1,2,5)] preview_flags_iff [OF assms(2-7)] by blast

text \<open>The second track has no album, and its file is where the first is to go.\<close>

definition failing_db :: library_db where
  "failing_db = \<lparr>db_tracks = map (\<lambda>t. t\<lparr>tr_values := tr_values t @ [(U ''album'', Scalar (PStr (if tr_id t = 1 then U ''a'' else [])))]\<rparr>)
     [sample_track 1 ''/m/b.mp3'' ''Zoo'', sample_track 2 ''/m/a/zoo.mp3'' ''Zoo''], db_groups = Map.empty\<rparr>"

definition failing_preview :: "preview_exc + preview_row list" where
  "failing_preview = preview_rename ascii_std (\<lambda>_. []) remdups failing_db (Some [1, 2]) None
     (sample_config\<lparr>pc_create_directories := True, pc_singleton := U ''$album/$title''\<rparr>) None (\<lambda>_. []) (Some (U ''/m''))"

theorem preview_misses_failed_rows_witness:
  "\<exists>r r'. failing_preview = Inr [r, r'] \<and> pr_errors r' \<noteq> [] \<and> \<not> pr_is_collision r
     \<and> documented_clash ascii_std failing_db (Some (U ''/m'')) [r, r'] r"
proof -
  have "case failing_preview of Inr [r, r'] \<Rightarrow> pr_errors r = [] \<and> pr_errors r' \<noteq> [] \<and> \<not> pr_is_collision r
      \<and> pr_track_id r = 1 \<and> pr_track_id r' = 2 \<and> lands_on_failed ascii_std (Some (U ''/m'')) [r, r'] r | _ \<Rightarrow> False"
    by code_simp
  then obtain r r' where r: "failing_preview = Inr [r, r']" "pr_errors r = []" "pr_errors r' \<noteq> []" "\<not> pr_is_collision r"
    "pr_track_id r = 1" "pr_track_id r' = 2" "lands_on_failed ascii_std (Some (U ''/m'')) [r, r'] r"
    by (auto split: sum.splits list.splits)
  have ok: "library_ok failing_db" by (simp add: library_ok_def failing_db_def sample_track_def)
  have "documented_clash ascii_std failing_db (Some (U ''/m'')) [r, r'] r"
    using preview_misses_failed_rows [OF ok r(1) [unfolded failing_preview_def] ascii_norm_splits remdups_lists_once _ _ r(2)] r
    by simp
  with r(1,3,4) show ?thesis by blast
qed

text \<open>C35. The file name of an error-free rendered row, extension included, is at most 255 bytes
  long, when the track's extension has no slash.\<close>

theorem rendered_file_name_fits:
  assumes "render_path_for_track std sl db i config ov = Inr row" and "pr_errors row = []"
    and "\<forall>t\<in>set (db_tracks db). 47 \<notin> set (tr_ext t)"
  shows "byte_len (final_component (pr_new_path row)) \<le> 255"
proof -
  obtain t where t: "find_track db i = Some t" "render_track std sl db config ov [] t = Inr row"
    using assms(1) by (auto simp: render_path_for_track_def split: option.splits)
  then obtain result where "finish_path std result (tr_ext t) = Inr (pr_new_path row, [])"
    using assms(2) by (auto simp: render_track_def rbind_eq_Inr Let_def case_sum_eq_Inr)
  moreover have "47 \<notin> set (tr_ext t)"
    using t(1) assms(3) by (auto simp: find_track_def find_Some_iff)
  ultimately show ?thesis by (rule finish_path_fits)
qed

theorem rendered_file_name_fits_witness:
  "\<exists>row. render_path_for_track ascii_std (\<lambda>_. []) sample_db 2 sample_config None = Inr row
     \<and> byte_len (final_component (pr_new_path row)) \<le> 255"
proof -
  let ?run = "render_path_for_track ascii_std (\<lambda>_. []) sample_db 2 sample_config None"
  have "case ?run of Inr row \<Rightarrow> pr_errors row = [] | _ \<Rightarrow> False" by code_simp
  then obtain row where row: "?run = Inr row" "pr_errors row = []" by (auto split: sum.splits)
  have "\<forall>t\<in>set (db_tracks sample_db). 47 \<notin> set (tr_ext t)" by code_simp
  from rendered_file_name_fits [OF row this] row(1) show ?thesis by blast
qed

section \<open>Departures of the code from its comments\<close>

text \<open>The clamp comes last in \<open>sanitize_component\<close> and can undo the cleaning before it: a
  clamped component can end in a dot, be a device name with an extension, or be the parent
  directory, and a base character can lose its combining mark. The inputs use small limits; with
  the default of 255 bytes the same happens to longer ones.\<close>

theorem clamp_undoes_cleaning:
  "sanitize_component ascii_std (U ''aaaa.b'') [] default_replacement 5 = Inr (U ''aaaa.'')
   \<and> sanitize_component ascii_std (U ''CON.aa.b'') [] default_replacement 6 = Inr (U ''CON.aa'')
   \<and> is_windows_reserved ascii_std (U ''CON.aa'')
   \<and> sanitize_component ascii_std (U ''..'' @ [769, 769]) [] default_replacement 5 = Inr (U ''..'')
   \<and> clamp_bytes ascii_std [97, 113, 769] 3 = Inr [97, 113]"
  by (intro conjI) code_simp+

text \<open>A component of dots alone passes the test for empty components and is sanitized to nothing.\<close>

theorem dots_render_to_nothing:
  "render_text ascii_std True [] (U ''.../x'') =
     Inr \<lparr>rr_path = U ''/x'', rr_components = [[], U ''x''], rr_errors = []\<rparr>"
  by code_simp

text \<open>
  \<open>compile_and_render\<close> lets the \<open>TemplateError\<close> of an \<open>%ifdef\<close> without a bare field name escape at
  render time, though its comment says that render-time failures are never raised.
\<close>

theorem ifdef_raises_at_render_time:
  "case compile_and_render ascii_std (U ''%ifdef{$title,x}'') Map.empty True [] of
     Inl (RenderRaised (RenderTimeTemplateError e)) \<Rightarrow> te_message e = IfdefNeedsBareField | _ \<Rightarrow> False"
  by code_simp

text \<open>The \<open>default\<close> template of the configuration is never used.\<close>

theorem default_template_unused:
  "select_template std (config\<lparr>pc_default := t\<rparr>) = select_template std config"
  by (simp add: select_template_def fun_eq_iff split: option.split)

text \<open>A true flag renders as \<open>1\<close> in a variable and as \<open>True\<close> in a one-argument \<open>%ifdef\<close>.\<close>

theorem true_renders_in_two_ways:
  "case compile_source ascii_std (U ''$compilation %ifdef{compilation}'') of
     Inr k \<Rightarrow> (case k [U ''compilation'' \<mapsto> PBool True] of Inr t \<Rightarrow> t = U ''1 True'' | _ \<Rightarrow> False) | _ \<Rightarrow> False"
  by code_simp

end
