(* ===== verification/Lifecycle.thy ===== *)
theory Lifecycle
  imports Prelude
begin

text \<open>
  The interface that the state machines of the program share: a graph of permitted moves with a
  set of final states that no move leaves. A table of rows evolves when every row is still there
  and its state is the same or moved along an edge; what holds of single moves then holds of whole
  histories. The bundle states (\<open>domain/reviews.py\<close>), the job states and the states of task
  attempts are the instances.
\<close>

definition moved :: "('s \<Rightarrow> 's set) \<Rightarrow> 's \<Rightarrow> 's \<Rightarrow> bool" where
  "moved moves s t \<longleftrightarrow> t = s \<or> t \<in> moves s"

definition evolves :: "('s \<Rightarrow> 's set) \<Rightarrow> ('r \<Rightarrow> 'k) \<Rightarrow> ('r \<Rightarrow> 's) \<Rightarrow> 'r list \<Rightarrow> 'r list \<Rightarrow> bool" where
  "evolves moves key st rows rows' \<longleftrightarrow>
     (\<forall>r\<in>set rows. \<exists>r'\<in>set rows'. key r' = key r \<and> moved moves (st r) (st r'))"

text \<open>Histories: the same with any number of moves per row.\<close>

definition evolved :: "('s \<Rightarrow> 's set) \<Rightarrow> ('r \<Rightarrow> 'k) \<Rightarrow> ('r \<Rightarrow> 's) \<Rightarrow> 'r list \<Rightarrow> 'r list \<Rightarrow> bool" where
  "evolved moves key st rows rows' \<longleftrightarrow>
     (\<forall>r\<in>set rows. \<exists>r'\<in>set rows'. key r' = key r \<and> (moved moves)\<^sup>*\<^sup>* (st r) (st r'))"

lemma moved_refl [simp, intro]: "moved moves s s"
  by (simp add: moved_def)

lemma evolves_refl [simp, intro]: "evolves moves key st rows rows"
  by (auto simp: evolves_def)

lemma evolves_append: "evolves moves key st rows rows' \<Longrightarrow> evolves moves key st rows (rows' @ new)"
  by (fastforce simp: evolves_def)

lemma evolves_map:
  "(\<And>r. r \<in> set rows \<Longrightarrow> key (f r) = key r \<and> moved moves (st r) (st (f r))) \<Longrightarrow>
     evolves moves key st rows (map f rows)"
  by (auto simp: evolves_def)

lemma evolved_refl [simp, intro]: "evolved moves key st rows rows"
  by (auto simp: evolved_def)

lemma evolved_step:
  assumes "evolved moves key st a b" and "evolves moves key st b c"
  shows "evolved moves key st a c"
  unfolding evolved_def
proof
  fix r assume "r \<in> set a"
  then obtain r' where r': "r' \<in> set b" "key r' = key r" "(moved moves)\<^sup>*\<^sup>* (st r) (st r')"
    using assms(1) unfolding evolved_def by blast
  then obtain r'' where "r'' \<in> set c" "key r'' = key r'" "moved moves (st r') (st r'')"
    using assms(2) unfolding evolves_def by blast
  with r' show "\<exists>r'\<in>set c. key r' = key r \<and> (moved moves)\<^sup>*\<^sup>* (st r) (st r')"
    by (intro bexI [of _ r'']) auto
qed

lemma evolved_trans:
  assumes "evolved moves key st a b" and "evolved moves key st b c"
  shows "evolved moves key st a c"
  unfolding evolved_def
proof
  fix r assume "r \<in> set a"
  then obtain r' where r': "r' \<in> set b" "key r' = key r" "(moved moves)\<^sup>*\<^sup>* (st r) (st r')"
    using assms(1) unfolding evolved_def by blast
  then obtain r'' where "r'' \<in> set c" "key r'' = key r'" "(moved moves)\<^sup>*\<^sup>* (st r') (st r'')"
    using assms(2) unfolding evolved_def by blast
  with r' show "\<exists>r'\<in>set c. key r' = key r \<and> (moved moves)\<^sup>*\<^sup>* (st r) (st r')"
    by (intro bexI [of _ r'']) auto
qed

lemma evolves_evolved: "evolves moves key st a b \<Longrightarrow> evolved moves key st a b"
  by (rule evolved_step [OF evolved_refl])

section \<open>The interface\<close>

locale lifecycle =
  fixes moves :: "'s \<Rightarrow> 's set"
    and final :: "'s set"
  assumes final_stuck: "s \<in> final \<Longrightarrow> moves s = {}"
begin

lemma final_moved: "s \<in> final \<Longrightarrow> moved moves s t \<Longrightarrow> t = s"
  by (auto simp: moved_def final_stuck)

lemma final_reached: "(moved moves)\<^sup>*\<^sup>* s t \<Longrightarrow> s \<in> final \<Longrightarrow> t = s"
  by (induction rule: rtranclp_induct) (auto dest: final_moved)

text \<open>A row in a final state keeps that state through every history.\<close>

lemma final_kept:
  assumes "evolved moves key st rows rows'" and "r \<in> set rows" and "st r \<in> final"
  shows "\<exists>r'\<in>set rows'. key r' = key r \<and> st r' = st r"
  using assms final_reached unfolding evolved_def by metis

end

end
