(* ===== verification/ReviewLifecycle.thy ===== *)
theory ReviewLifecycle
  imports Lifecycle
begin

text \<open>
  The lifecycle of a review bundle and the vocabulary of operations (\<open>domain/reviews.py\<close>), with the
  states of task attempts, whose values the database constraints fix (\<open>db/models.py\<close>).
\<close>

datatype bundle_state =
  PREPARING | READY | NEEDS_ATTENTION | APPLYING | APPLIED | PARTIALLY_APPLIED | FAILED | DISCARDED

datatype operation_kind =
  SET_TAG | WRITE_LYRICS | EMBED_ART | REMOVE_ART | MOVE_FILE | SET_REPLAY_GAIN | GROUPING_CORRECTION

definition physical_mutation_kinds :: "operation_kind set" where
  "physical_mutation_kinds =
     {SET_TAG, WRITE_LYRICS, EMBED_ART, REMOVE_ART, MOVE_FILE, SET_REPLAY_GAIN}"

definition active_bundle_states :: "bundle_state set" where
  "active_bundle_states = {PREPARING, READY, NEEDS_ATTENTION, APPLYING}"

definition terminal_bundle_states :: "bundle_state set" where
  "terminal_bundle_states = {APPLIED, PARTIALLY_APPLIED, FAILED, DISCARDED}"

fun transitions :: "bundle_state \<Rightarrow> bundle_state set" where
  "transitions PREPARING = {READY, NEEDS_ATTENTION, FAILED, DISCARDED}"
| "transitions READY = {NEEDS_ATTENTION, APPLYING, DISCARDED}"
| "transitions NEEDS_ATTENTION = {READY, APPLYING, DISCARDED}"
| "transitions APPLYING = {APPLIED, PARTIALLY_APPLIED, FAILED}"
| "transitions APPLIED = {}"
| "transitions PARTIALLY_APPLIED = {APPLYING, FAILED}"
| "transitions FAILED = {APPLYING}"
| "transitions DISCARDED = {READY, NEEDS_ATTENTION}"

text \<open>\<open>validate_transition\<close>: \<open>Inl\<close> is \<open>InvalidBundleTransition\<close>.\<close>

definition validate_transition :: "bundle_state \<Rightarrow> bundle_state \<Rightarrow> (bundle_state \<times> bundle_state) + unit" where
  "validate_transition current target =
     (if current = target then Inr ()
      else if target \<notin> transitions current then Inl (current, target)
      else Inr ())"

lemma terminal_bundle_states_compl: "terminal_bundle_states = UNIV - active_bundle_states"
proof (rule set_eqI)
  fix s show "s \<in> terminal_bundle_states \<longleftrightarrow> s \<in> UNIV - active_bundle_states"
    by (cases s) (simp_all add: terminal_bundle_states_def active_bundle_states_def)
qed

lemma validate_transition_moved: "validate_transition s t = Inr u \<longleftrightarrow> moved transitions s t"
  by (auto simp: validate_transition_def moved_def)

interpretation bundles: lifecycle transitions "{APPLIED}"
  by unfold_locales auto

text \<open>
  The trigger \<open>review_bundles_state_transition\<close> of the database, as the last migration that touches
  it leaves it: the moves that an \<open>UPDATE\<close> of the state may make. It misses one move of the graph.
\<close>

fun state_trigger_permits :: "bundle_state \<Rightarrow> bundle_state \<Rightarrow> bool" where
  "state_trigger_permits PREPARING t = (t \<in> {PREPARING, READY, NEEDS_ATTENTION, FAILED, DISCARDED})"
| "state_trigger_permits READY t = (t \<in> {READY, NEEDS_ATTENTION, APPLYING, DISCARDED})"
| "state_trigger_permits NEEDS_ATTENTION t = (t \<in> {NEEDS_ATTENTION, READY, APPLYING, DISCARDED})"
| "state_trigger_permits APPLYING t = (t \<in> {APPLYING, APPLIED, PARTIALLY_APPLIED, FAILED})"
| "state_trigger_permits APPLIED t = (t = APPLIED)"
| "state_trigger_permits PARTIALLY_APPLIED t = (t \<in> {PARTIALLY_APPLIED, APPLYING})"
| "state_trigger_permits FAILED t = (t \<in> {FAILED, APPLYING})"
| "state_trigger_permits DISCARDED t = (t \<in> {DISCARDED, READY, NEEDS_ATTENTION})"

lemma state_trigger_moved:
  "moved transitions s t \<longleftrightarrow> state_trigger_permits s t \<or> s = PARTIALLY_APPLIED \<and> t = FAILED"
  by (cases s) (auto simp: moved_def)

text \<open>The states in which a review is open to its user and to enrichment.\<close>

definition open_states :: "bundle_state set" where
  "open_states = {PREPARING, READY, NEEDS_ATTENTION}"

section \<open>Task attempts\<close>

datatype task_state =
  T_PENDING | T_RUNNING | T_SUCCEEDED | T_NOT_FOUND | T_TRANSIENT_FAILURE | T_PERMANENT_FAILURE | T_CANCELLED

definition active_task :: "task_state \<Rightarrow> bool" where
  "active_task s \<longleftrightarrow> s = T_PENDING \<or> s = T_RUNNING"

definition failed_task :: "task_state \<Rightarrow> bool" where
  "failed_task s \<longleftrightarrow> s = T_TRANSIENT_FAILURE \<or> s = T_PERMANENT_FAILURE"

definition finished_task_states :: "task_state set" where
  "finished_task_states =
     {T_SUCCEEDED, T_NOT_FOUND, T_TRANSIENT_FAILURE, T_PERMANENT_FAILURE, T_CANCELLED}"

text \<open>An attempt is planned or started, can be put back to pending, and ends once.\<close>

definition task_moves :: "task_state \<Rightarrow> task_state set" where
  "task_moves s = (if active_task s then UNIV else {})"

interpretation tasks: lifecycle task_moves finished_task_states
  by unfold_locales (auto simp: task_moves_def active_task_def finished_task_states_def)

datatype decision = D_PENDING | D_ACCEPTED | D_REJECTED

end
