(* ===== verification/Json.thy ===== *)
theory Json
  imports PyText "HOL-Library.List_Lexorder" "HOL-Library.AList"
begin

text \<open>
  JSON values as the program keeps them in its database columns: Python's \<open>None\<close>, booleans,
  integers, floats (exact rationals), strings, lists and dictionaries with text keys in insertion
  order. The tests follow Python's \<open>isinstance\<close>, where a boolean is also an integer.
\<close>

datatype json =
    JNull
  | JBool bool
  | JInt int
  | JFloat rat
  | JStr ustr
  | JList "json list"
  | JObj "(ustr \<times> json) list"

section \<open>Types and lookups\<close>

fun is_dict :: "json \<Rightarrow> bool" where
  "is_dict (JObj kvs) = True"
| "is_dict _ = False"

fun is_list :: "json \<Rightarrow> bool" where
  "is_list (JList xs) = True"
| "is_list _ = False"

fun is_str :: "json \<Rightarrow> bool" where
  "is_str (JStr s) = True"
| "is_str _ = False"

fun is_bool :: "json \<Rightarrow> bool" where
  "is_bool (JBool b) = True"
| "is_bool _ = False"

text \<open>\<open>isinstance(v, int)\<close>, true of booleans; and without them.\<close>

fun is_int :: "json \<Rightarrow> bool" where
  "is_int (JInt n) = True"
| "is_int (JBool b) = True"
| "is_int _ = False"

fun valid_integer :: "json \<Rightarrow> bool" where
  "valid_integer (JInt n) = True"
| "valid_integer _ = False"

fun is_number :: "json \<Rightarrow> bool" where
  "is_number (JInt n) = True"
| "is_number (JFloat x) = True"
| "is_number _ = False"

fun int_value :: "json \<Rightarrow> int" where
  "int_value (JInt n) = n"
| "int_value (JBool b) = (if b then 1 else 0)"
| "int_value _ = 0"

fun str_value :: "json \<Rightarrow> ustr" where
  "str_value (JStr s) = s"
| "str_value _ = []"

fun list_value :: "json \<Rightarrow> json list" where
  "list_value (JList xs) = xs"
| "list_value _ = []"

fun entries :: "json \<Rightarrow> (ustr \<times> json) list" where
  "entries (JObj kvs) = kvs"
| "entries _ = []"

text \<open>\<open>v.get(key)\<close> and \<open>v.get(key, default)\<close> on a dictionary.\<close>

definition jget :: "json \<Rightarrow> ustr \<Rightarrow> json" where
  "jget v k = (case map_of (entries v) k of None \<Rightarrow> JNull | Some x \<Rightarrow> x)"

definition jget_default :: "json \<Rightarrow> ustr \<Rightarrow> json \<Rightarrow> json" where
  "jget_default v k d = (case map_of (entries v) k of None \<Rightarrow> d | Some x \<Rightarrow> x)"

definition jset :: "ustr \<Rightarrow> json \<Rightarrow> json \<Rightarrow> json" where
  "jset k x v = JObj (AList.update k x (entries v))"

text \<open>\<open>bool(v)\<close>, and \<open>v == True\<close>, which also holds of the numbers one.\<close>

fun truthy :: "json \<Rightarrow> bool" where
  "truthy JNull = False"
| "truthy (JBool b) = b"
| "truthy (JInt n) = (n \<noteq> 0)"
| "truthy (JFloat x) = (x \<noteq> 0)"
| "truthy (JStr s) = (s \<noteq> [])"
| "truthy (JList xs) = (xs \<noteq> [])"
| "truthy (JObj kvs) = (kvs \<noteq> [])"

fun equals_true :: "json \<Rightarrow> bool" where
  "equals_true (JBool b) = b"
| "equals_true (JInt n) = (n = 1)"
| "equals_true (JFloat x) = (x = 1)"
| "equals_true _ = False"

text \<open>\<open>v == n\<close> for an integer \<open>n\<close>.\<close>

definition equals_int :: "json \<Rightarrow> int \<Rightarrow> bool" where
  "equals_int v n \<longleftrightarrow> (is_int v \<and> int_value v = n) \<or> v = JFloat (of_int n)"

section \<open>Canonical form\<close>

text \<open>
  What \<open>json.loads(json.dumps(v, sort_keys=True))\<close> returns: the same value with the keys of
  every dictionary in order.
\<close>

fun insert_key :: "ustr \<times> json \<Rightarrow> (ustr \<times> json) list \<Rightarrow> (ustr \<times> json) list" where
  "insert_key kv [] = [kv]"
| "insert_key kv (x # xs) = (if fst kv \<le> fst x then kv # x # xs else x # insert_key kv xs)"

fun canon :: "json \<Rightarrow> json" and canon_list :: "json list \<Rightarrow> json list"
  and canon_entries :: "(ustr \<times> json) list \<Rightarrow> (ustr \<times> json) list" where
  "canon JNull = JNull"
| "canon (JBool b) = JBool b"
| "canon (JInt n) = JInt n"
| "canon (JFloat x) = JFloat x"
| "canon (JStr s) = JStr s"
| "canon (JList xs) = JList (canon_list xs)"
| "canon (JObj kvs) = JObj (canon_entries kvs)"
| "canon_list [] = []"
| "canon_list (x # xs) = canon x # canon_list xs"
| "canon_entries [] = []"
| "canon_entries ((k, v) # kvs) = insert_key (k, canon v) (canon_entries kvs)"

text \<open>\<open>a == b\<close>, which does not depend on the order of keys.\<close>

definition same_json :: "json \<Rightarrow> json \<Rightarrow> bool" where
  "same_json a b \<longleftrightarrow> canon a = canon b"

lemma insert_key_set [simp]: "set (insert_key kv xs) = insert kv (set xs)"
  by (induction xs) auto

lemma insert_key_sorted: "sorted (map fst xs) \<Longrightarrow> sorted (map fst (insert_key kv xs))"
  by (induction xs) auto

lemma canon_entries_sorted: "sorted (map fst (canon_entries kvs))"
proof (induction kvs)
  case (Cons kv kvs)
  then show ?case by (cases kv) (simp add: insert_key_sorted)
qed simp

lemma insert_key_front: "\<forall>x\<in>set xs. fst kv \<le> fst x \<Longrightarrow> insert_key kv xs = kv # xs"
  by (cases xs) auto

lemma canon_entries_fixed:
  "sorted (map fst kvs) \<Longrightarrow> \<forall>kv\<in>set kvs. canon (snd kv) = snd kv \<Longrightarrow> canon_entries kvs = kvs"
proof (induction kvs)
  case (Cons kv kvs)
  then show ?case by (cases kv) (auto intro!: insert_key_front)
qed simp

lemma canon_idem_all:
  "canon (canon v) = canon v"
  "canon_list (canon_list vs) = canon_list vs"
  "\<forall>kv\<in>set (canon_entries kvs). canon (snd kv) = snd kv"
  by (induction v and vs and kvs rule: canon_canon_list_canon_entries.induct)
    (auto simp: canon_entries_fixed canon_entries_sorted)

lemma canon_idem [simp]: "canon (canon v) = canon v"
  by (rule canon_idem_all(1))

lemma canon_null_iff [simp]: "canon v = JNull \<longleftrightarrow> v = JNull"
  by (cases v) auto

lemma canon_types [simp]:
  "is_dict (canon v) = is_dict v" "is_str (canon v) = is_str v" "is_list (canon v) = is_list v"
  "valid_integer (canon v) = valid_integer v" "is_number (canon v) = is_number v"
  "is_bool (canon v) = is_bool v" "is_int (canon v) = is_int v"
  by (cases v; simp)+

lemma jget_JObj: "jget (JObj kvs) k = (case map_of kvs k of None \<Rightarrow> JNull | Some x \<Rightarrow> x)"
  by (simp add: jget_def)

lemma jget_jset: "jget (jset k x v) k' = (if k' = k then x else jget v k')"
  by (simp add: jget_def jset_def AList.update_conv')

lemma map_of_insert_key:
  "fst kv \<notin> fst ` set xs \<Longrightarrow> map_of (insert_key kv xs) = (map_of xs)(fst kv \<mapsto> snd kv)"
proof (induction xs)
  case (Cons x xs)
  then have "fst kv \<noteq> fst x" by auto
  with Cons show ?case by (cases kv; cases x) (auto simp: fun_upd_twist)
qed (cases kv, simp)

lemma canon_entries_keys: "fst ` set (canon_entries kvs) = fst ` set kvs"
proof (induction kvs)
  case (Cons kv kvs)
  then show ?case by (cases kv) simp
qed simp

lemma map_of_canon_entries:
  "distinct (map fst kvs) \<Longrightarrow> map_of (canon_entries kvs) k = map_option canon (map_of kvs k)"
proof (induction kvs)
  case (Cons kv kvs)
  obtain a b where kv: "kv = (a, b)" by (cases kv)
  have "a \<notin> fst ` set (canon_entries kvs)" using Cons.prems kv by (simp add: canon_entries_keys)
  then show ?case using Cons kv by (simp add: map_of_insert_key)
qed simp

text \<open>Looking up a key of a dictionary with distinct keys commutes with canonicalization.\<close>

lemma jget_canon: "distinct (map fst (entries v)) \<Longrightarrow> jget (canon v) k = canon (jget v k)"
  by (cases v) (auto simp: jget_def map_of_canon_entries split: option.splits)

end
