(* ===== verification/SourceSnapshots.thy ===== *)
theory SourceSnapshots
  imports Json
begin

text \<open>
  The typed reading of the immutable source snapshots (\<open>db/source_snapshots.py\<close>): one item per
  track with the file facts that were observed, and the physical guard that pins the file on disk.
\<close>

datatype snapshot_exc =
    InvalidItem
  | UnsupportedSourceType
  | InvalidSourceId
  | InvalidTrackId
  | ContradictoryTrackIds
  | NoTrackId
  | InvalidFacts
  | InvalidGuard
  | InconsistentGuardPath
  | IncompleteGuard
  | InvalidGuardAncestry
  | InvalidGuardFacts
  | InvalidPayload
  | NoItemList
  | DuplicateTrackIds
  | OmittedTargets "int set"

record snapshot_item =
  si_track :: int
  si_path :: "ustr option"
  si_size :: "int option"
  si_mtime :: "int option"
  si_hash :: "ustr option"
  si_guard :: json

definition json_of_str :: "ustr option \<Rightarrow> json" where
  "json_of_str x = (case x of None \<Rightarrow> JNull | Some s \<Rightarrow> JStr s)"

definition json_of_int :: "int option \<Rightarrow> json" where
  "json_of_int x = (case x of None \<Rightarrow> JNull | Some n \<Rightarrow> JInt n)"

definition to_manifest_item :: "snapshot_item \<Rightarrow> json" where
  "to_manifest_item it =
     JObj [(U ''source_type'', JStr (U ''track'')), (U ''source_id'', JInt (si_track it)),
           (U ''path'', json_of_str (si_path it)), (U ''size_bytes'', json_of_int (si_size it)),
           (U ''mtime_ns'', json_of_int (si_mtime it)), (U ''tag_hash'', json_of_str (si_hash it)),
           (U ''physical_guard'', si_guard it)]"

definition hex_digit :: "nat \<Rightarrow> bool" where
  "hex_digit c \<longleftrightarrow> c \<in> set (U ''0123456789abcdef'')"

definition directory_ok :: "json \<Rightarrow> bool" where
  "directory_ok d \<longleftrightarrow>
     is_dict d \<and> is_str (jget d (U ''path'')) \<and> valid_integer (jget d (U ''device''))
     \<and> valid_integer (jget d (U ''inode''))"

definition file_facts_ok :: "json \<Rightarrow> json \<Rightarrow> json \<Rightarrow> bool" where
  "file_facts_ok facts sz mtime \<longleftrightarrow>
     valid_integer (jget facts (U ''device'')) \<and> valid_integer (jget facts (U ''inode''))
     \<and> valid_integer (jget facts (U ''mode'')) \<and> valid_integer (jget facts (U ''size''))
     \<and> valid_integer (jget facts (U ''mtime_ns''))
     \<and> is_str (jget facts (U ''sha256'')) \<and> length (str_value (jget facts (U ''sha256''))) = 64
     \<and> list_all hex_digit (str_value (jget facts (U ''sha256'')))
     \<and> jget facts (U ''size'') = sz \<and> jget facts (U ''mtime_ns'') = mtime"

definition read_physical_guard :: "json \<Rightarrow> json \<Rightarrow> json \<Rightarrow> json \<Rightarrow> snapshot_exc + json" where
  "read_physical_guard raw path sz mtime =
     (if raw = JNull then Inr JNull
      else if \<not> is_dict raw \<or> \<not> valid_integer (jget raw (U ''version'')) \<or> jget raw (U ''version'') \<noteq> JInt 1
      then Inl InvalidGuard
      else if jget raw (U ''path'') \<noteq> path \<or> \<not> is_str path then Inl InconsistentGuardPath
      else
        let library_root = jget raw (U ''library_root'');
            directories = jget raw (U ''directories'');
            facts = jget raw (U ''file'')
        in if (library_root \<noteq> JNull \<and> \<not> is_str library_root) \<or> \<not> is_list directories \<or> \<not> is_dict facts
           then Inl IncompleteGuard
           else if \<not> list_all directory_ok (list_value directories) then Inl InvalidGuardAncestry
           else if \<not> file_facts_ok facts sz mtime then Inl InvalidGuardFacts
           else Inr raw)"

definition opt_str :: "json \<Rightarrow> ustr option" where
  "opt_str v = (case v of JStr s \<Rightarrow> Some s | _ \<Rightarrow> None)"

definition opt_int :: "json \<Rightarrow> int option" where
  "opt_int v = (case v of JInt n \<Rightarrow> Some n | _ \<Rightarrow> None)"

text \<open>The test on the plain facts of an item.\<close>

definition facts_ok :: "json \<Rightarrow> json \<Rightarrow> json \<Rightarrow> json \<Rightarrow> bool" where
  "facts_ok path sz mtime tag_hash \<longleftrightarrow>
     (path = JNull \<or> is_str path \<and> str_value path \<noteq> [])
     \<and> (sz = JNull \<or> valid_integer sz \<and> int_value sz \<ge> 0)
     \<and> (mtime = JNull \<or> valid_integer mtime)
     \<and> (tag_hash = JNull \<or> is_str tag_hash \<and> str_value tag_hash \<noteq> [])"

definition read_source_snapshot_item :: "json \<Rightarrow> snapshot_exc + snapshot_item" where
  "read_source_snapshot_item raw =
     (if \<not> is_dict raw then Inl InvalidItem
      else if jget_default raw (U ''source_type'') (JStr (U ''track'')) \<noteq> JStr (U ''track'')
      then Inl UnsupportedSourceType
      else
        let source_id = jget raw (U ''source_id'');
            alias_id = jget raw (U ''track_id'')
        in if source_id \<noteq> JNull \<and> \<not> valid_integer source_id then Inl InvalidSourceId
           else if alias_id \<noteq> JNull \<and> \<not> valid_integer alias_id then Inl InvalidTrackId
           else if source_id \<noteq> JNull \<and> alias_id \<noteq> JNull \<and> alias_id \<noteq> source_id
           then Inl ContradictoryTrackIds
           else
             let track_id = (if source_id = JNull then alias_id else source_id) in
             if \<not> valid_integer track_id \<or> int_value track_id \<le> 0 then Inl NoTrackId
             else
               let path = jget raw (U ''path''); sz = jget raw (U ''size_bytes'');
                   mtime = jget raw (U ''mtime_ns''); tag_hash = jget raw (U ''tag_hash'')
               in if \<not> facts_ok path sz mtime tag_hash then Inl InvalidFacts
                  else rbind (read_physical_guard (jget raw (U ''physical_guard'')) path sz mtime)
                    (\<lambda>guard. Inr \<lparr>si_track = int_value track_id, si_path = opt_str path,
                       si_size = opt_int sz, si_mtime = opt_int mtime, si_hash = opt_str tag_hash,
                       si_guard = guard\<rparr>))"

text \<open>The loop of \<open>read_source_snapshot_items\<close> with the ids seen so far.\<close>

fun read_items :: "json list \<Rightarrow> int set \<Rightarrow> snapshot_exc + snapshot_item list" where
  "read_items [] seen = Inr []"
| "read_items (raw # raws) seen =
     rbind (read_source_snapshot_item raw) (\<lambda>it.
       if si_track it \<in> seen then Inl DuplicateTrackIds
       else rbind (read_items raws (insert (si_track it) seen)) (\<lambda>its. Inr (it # its)))"

definition read_source_snapshot_items :: "json \<Rightarrow> snapshot_exc + snapshot_item list" where
  "read_source_snapshot_items payload =
     (if \<not> is_dict payload then Inl InvalidPayload
      else if \<not> is_list (jget payload (U ''items'')) then Inl NoItemList
      else read_items (list_value (jget payload (U ''items''))) {})"

definition read_source_snapshot_track_ids :: "json \<Rightarrow> int set \<Rightarrow> snapshot_exc + int set" where
  "read_source_snapshot_track_ids payload required =
     rbind (read_source_snapshot_items payload) (\<lambda>items.
       let track_ids = si_track ` set items; missing = required - track_ids
       in if missing \<noteq> {} then Inl (OmittedTargets missing) else Inr track_ids)"

section \<open>Lemmas\<close>

text \<open>The items that reading accepts.\<close>

definition item_ok :: "snapshot_item \<Rightarrow> bool" where
  "item_ok it \<longleftrightarrow>
     si_track it > 0
     \<and> facts_ok (json_of_str (si_path it)) (json_of_int (si_size it)) (json_of_int (si_mtime it))
         (json_of_str (si_hash it))
     \<and> read_physical_guard (si_guard it) (json_of_str (si_path it)) (json_of_int (si_size it))
         (json_of_int (si_mtime it)) = Inr (si_guard it)"

lemma opt_json [simp]:
  "opt_str (json_of_str x) = x" "opt_int (json_of_int y) = y"
  by (auto simp: opt_str_def json_of_str_def opt_int_def json_of_int_def split: option.splits)

lemma json_of_opt:
  "v = JNull \<or> is_str v \<Longrightarrow> json_of_str (opt_str v) = v"
  "v = JNull \<or> valid_integer v \<Longrightarrow> json_of_int (opt_int v) = v"
  by (cases v; simp add: opt_str_def json_of_str_def opt_int_def json_of_int_def)+

lemma read_to_manifest_item: "item_ok it \<Longrightarrow> read_source_snapshot_item (to_manifest_item it) = Inr it"
  by (simp add: read_source_snapshot_item_def to_manifest_item_def jget_JObj jget_default_def
      item_ok_def Let_def)

lemma read_physical_guard_Inr: "read_physical_guard raw p s m = Inr g \<Longrightarrow> g = raw"
  by (auto simp: read_physical_guard_def Let_def split: if_splits)

lemma read_item_ok:
  assumes "read_source_snapshot_item raw = Inr it"
  shows "item_ok it"
proof -
  let ?path = "jget raw (U ''path'')" and ?sz = "jget raw (U ''size_bytes'')"
  let ?mtime = "jget raw (U ''mtime_ns'')" and ?hash = "jget raw (U ''tag_hash'')"
  have facts: "facts_ok ?path ?sz ?mtime ?hash"
    and guard: "read_physical_guard (jget raw (U ''physical_guard'')) ?path ?sz ?mtime = Inr (si_guard it)"
    and it: "si_track it > 0" "si_path it = opt_str ?path" "si_size it = opt_int ?sz"
      "si_mtime it = opt_int ?mtime" "si_hash it = opt_str ?hash"
    using assms
    by (auto simp: read_source_snapshot_item_def Let_def rbind_eq_Inr simp del: U_Cons split: if_splits)
  have "json_of_str (opt_str ?path) = ?path" "json_of_int (opt_int ?sz) = ?sz"
    "json_of_int (opt_int ?mtime) = ?mtime" "json_of_str (opt_str ?hash) = ?hash"
    using facts by (auto simp: facts_ok_def intro!: json_of_opt simp del: U_Cons)
  then show ?thesis
    using facts guard it read_physical_guard_Inr [OF guard] by (simp add: item_ok_def)
qed

lemma read_items_distinct:
  "read_items raws seen = Inr its \<Longrightarrow>
     distinct (map si_track its) \<and> si_track ` set its \<inter> seen = {} \<and> (\<forall>it\<in>set its. item_ok it)"
proof (induction raws seen arbitrary: its rule: read_items.induct)
  case (2 raw raws seen)
  from 2(2) obtain it rest where "read_source_snapshot_item raw = Inr it" "si_track it \<notin> seen"
    and "read_items raws (insert (si_track it) seen) = Inr rest" "its = it # rest"
    by (auto simp: rbind_eq_Inr split: if_splits)
  with 2(1) read_item_ok [of raw it] show ?case by fastforce
qed simp

lemma read_source_snapshot_items_ok:
  "read_source_snapshot_items payload = Inr its \<Longrightarrow>
     distinct (map si_track its) \<and> (\<forall>it\<in>set its. item_ok it)"
  using read_items_distinct by (auto simp: read_source_snapshot_items_def split: if_splits)

end
