(* ===== verification/ReviewStore.thy ===== *)
theory ReviewStore
  imports ReviewLifecycle SourceSnapshots
begin

text \<open>
  The database of the review and job subsystems (\<open>db/models.py\<close>): one record per table row and one
  list per table. Rows are looked up by primary key; a new row gets the key after the largest one.
  Timestamps that no modelled decision reads are left out.
\<close>

section \<open>Review tables\<close>

record review_bundle =
  b_id :: int
  b_key :: ustr
  b_title :: ustr
  b_scope_type :: ustr
  b_scope_id :: "int option"
  b_session :: "int option"
  b_state :: bundle_state
  b_error :: "ustr option"

record snapshot =
  sn_id :: int
  sn_bundle :: int
  sn_digest :: ustr
  sn_payload :: json

record revision =
  r_id :: int
  r_bundle :: int
  r_snapshot :: int
  r_no :: nat
  r_parent :: nat
  r_digest :: ustr
  r_current :: bool
  r_source :: "ustr option"
  r_ref :: "ustr option"
  r_candidate :: json
  r_explanation :: json
  r_confidence :: "rat option"

record operation =
  o_id :: int
  o_revision :: int
  o_snapshot :: int
  o_seq :: nat
  o_kind :: operation_kind
  o_field :: ustr
  o_target_type :: ustr
  o_target :: int
  o_current :: json
  o_proposed :: json
  o_decision :: decision
  o_provenance :: json
  o_validation :: json

record attempt =
  t_id :: int
  t_bundle :: int
  t_revision :: "int option"
  t_job :: "int option"
  t_kind :: ustr
  t_item :: ustr
  t_state :: task_state
  t_no :: nat
  t_result :: json
  t_error :: "ustr option"

datatype run_state = RUN_PENDING | RUN_APPLYING | RUN_APPLIED | RUN_PARTIAL | RUN_FAILED

record apply_run =
  a_id :: int
  a_bundle :: int
  a_revision :: int
  a_key :: ustr
  a_state :: run_state
  a_manifest :: json
  a_result :: json
  a_error :: "ustr option"

record op_attempt =
  oa_run :: int
  oa_operation :: int
  oa_value :: json

datatype undo_state = U_PENDING | U_UNDOING | U_UNDONE | U_PARTIAL | U_FAILED

record undo_run =
  u_id :: int
  u_bundle :: int
  u_source_run :: int
  u_key :: ustr
  u_state :: undo_state
  u_manifest :: json
  u_result :: json
  u_error :: "ustr option"

record inbox_entry =
  i_bundle :: int
  i_state :: bundle_state
  i_title :: ustr
  i_key :: ustr
  i_filename :: "ustr option"
  i_path :: "ustr option"
  i_format :: "ustr option"
  i_source :: "ustr option"
  i_ref :: "ustr option"
  i_cand_title :: "ustr option"
  i_cand_artist :: "ustr option"
  i_cand_album :: "ustr option"
  i_confidence :: "rat option"
  i_label :: ustr
  i_issue_kind :: "ustr option"
  i_issue_message :: "ustr option"
  i_accepted :: nat
  i_pending :: nat
  i_rejected :: nat

section \<open>Job tables\<close>

datatype job_state = J_PENDING | J_RUNNING | J_CANCELLING | J_SUCCEEDED | J_FAILED | J_CANCELLED

record job =
  j_id :: int
  j_type :: ustr
  j_state :: job_state
  j_priority :: int
  j_created :: int
  j_payload :: json
  j_result :: json
  j_attempts :: nat
  j_lease :: "int option"
  j_worker :: "ustr option"
  j_parent :: "int option"
  j_cancel :: bool
  j_error :: "ustr option"

record job_event =
  e_job :: int
  e_seq :: nat
  e_kind :: ustr
  e_payload :: json

record db =
  bundles :: "review_bundle list"
  snapshots :: "snapshot list"
  revisions :: "revision list"
  operations :: "operation list"
  attempts :: "attempt list"
  apply_runs :: "apply_run list"
  op_attempts :: "op_attempt list"
  undo_runs :: "undo_run list"
  inbox :: "inbox_entry list"
  jobs :: "job list"
  events :: "job_event list"
  maintenance :: bool

definition empty_db :: db where
  "empty_db = \<lparr>bundles = [], snapshots = [], revisions = [], operations = [], attempts = [],
     apply_runs = [], op_attempts = [], undo_runs = [], inbox = [], jobs = [], events = [],
     maintenance = False\<rparr>"

section \<open>Tables\<close>

text \<open>\<open>session.get\<close>, \<open>UPDATE ... WHERE\<close>, and the next primary key of a table.\<close>

definition find_row :: "('r \<Rightarrow> int) \<Rightarrow> int \<Rightarrow> 'r list \<Rightarrow> 'r option" where
  "find_row key i rows = find (\<lambda>r. key r = i) rows"

definition update_where :: "('r \<Rightarrow> bool) \<Rightarrow> ('r \<Rightarrow> 'r) \<Rightarrow> 'r list \<Rightarrow> 'r list" where
  "update_where P f rows = map (\<lambda>r. if P r then f r else r) rows"

definition next_id :: "('r \<Rightarrow> int) \<Rightarrow> 'r list \<Rightarrow> int" where
  "next_id key rows = fold max (map key rows) 0 + 1"

lemma find_row_Some: "find_row key i rows = Some r \<Longrightarrow> r \<in> set rows \<and> key r = i"
  by (auto simp: find_row_def find_Some_iff)

lemma find_row_None: "find_row key i rows = None \<longleftrightarrow> i \<notin> key ` set rows"
  by (auto simp: find_row_def find_None_iff)

lemma find_row_unique:
  "distinct (map key rows) \<Longrightarrow> r \<in> set rows \<Longrightarrow> find_row key (key r) rows = Some r"
  by (induction rows) (auto simp: find_row_def)

lemma find_row_update:
  "(\<And>r. P r \<Longrightarrow> key (f r) = key r) \<Longrightarrow>
     find_row key i (update_where P f rows) =
       map_option (\<lambda>r. if P r then f r else r) (find_row key i rows)"
  by (induction rows) (auto simp: find_row_def update_where_def)

lemma update_where_keys:
  "(\<And>r. P r \<Longrightarrow> key (f r) = key r) \<Longrightarrow> map key (update_where P f rows) = map key rows"
  by (auto simp: update_where_def)

lemma set_update_where: "set (update_where P f rows) = (\<lambda>r. if P r then f r else r) ` set rows"
  by (simp add: update_where_def)

lemma filter_update_where:
  "(\<And>r. P r \<Longrightarrow> Q (f r) = Q r) \<Longrightarrow> filter Q (update_where P f rows) = update_where P f (filter Q rows)"
  by (induction rows) (auto simp: update_where_def)

lemma fold_max_bounds: "a \<le> fold max xs (a :: int) \<and> (\<forall>x\<in>set xs. x \<le> fold max xs a)"
proof (induction xs arbitrary: a)
  case (Cons x xs)
  from Cons [of "max x a"] show ?case by auto
qed simp

lemma next_id_fresh: "r \<in> set rows \<Longrightarrow> key r < next_id key rows"
  using fold_max_bounds [of 0 "map key rows"] by (fastforce simp: next_id_def)

lemma next_id_pos: "0 < next_id key rows"
  using fold_max_bounds [of 0 "map key rows"] by (simp add: next_id_def)

lemma distinct_next_id:
  "distinct (map key rows) \<Longrightarrow> key r = next_id key rows \<Longrightarrow> distinct (map key (rows @ [r]))"
  by (auto dest: next_id_fresh [of _ rows key])

end
