(* ===== verification/ReviewInbox.thy ===== *)
theory ReviewInbox
  imports ReviewStore "HOL-Library.Product_Lexorder"
begin

text \<open>
  The inbox projection (\<open>pipeline/reviews.py\<close>): the current revision of a bundle, what its source
  snapshot and its operations say, and the row that \<open>refresh_inbox_entry\<close> upserts. The texts of
  Python's \<open>repr\<close> and of \<open>str\<close> on arbitrary values are parameters.
\<close>

record pyrepr =
  repr_str :: "ustr \<Rightarrow> ustr"
  repr_ints :: "int list \<Rightarrow> ustr"
  str_json :: "json \<Rightarrow> ustr"

definition plain_repr :: pyrepr where
  "plain_repr = \<lparr>repr_str = (\<lambda>s. [39] @ s @ [39]), repr_ints = (\<lambda>is. join_with (U '', '') (map int_str is)),
                 str_json = (\<lambda>v. str_value v)\<rparr>"

section \<open>Rows of a bundle\<close>

definition current_revision :: "db \<Rightarrow> int \<Rightarrow> revision option" where
  "current_revision d i = find (\<lambda>r. r_bundle r = i \<and> r_current r) (revisions d)"

definition operations_of :: "db \<Rightarrow> int \<Rightarrow> operation list" where
  "operations_of d rid = sort_key o_seq (filter (\<lambda>o'. o_revision o' = rid) (operations d))"

definition attempts_of :: "db \<Rightarrow> int \<Rightarrow> attempt list" where
  "attempts_of d i = filter (\<lambda>t. t_bundle t = i) (attempts d)"

definition snapshot_payload :: "db \<Rightarrow> revision \<Rightarrow> json" where
  "snapshot_payload d r =
     (case find_row sn_id (r_snapshot r) (snapshots d) of None \<Rightarrow> JObj [] | Some s \<Rightarrow> sn_payload s)"

text \<open>The loop that keeps the last attempt of every kind and item, in order.\<close>

definition latest_task_attempts :: "db \<Rightarrow> int \<Rightarrow> attempt list" where
  "latest_task_attempts d i =
     map snd (fold (\<lambda>t latest. AList.update (t_kind t, t_item t) t latest)
       (sort_key (\<lambda>t. (t_kind t, t_item t, t_no t)) (attempts_of d i)) [])"

section \<open>Sources, issues, labels\<close>

record source_summary =
  ss_source_id :: "int option"
  ss_filename :: "ustr option"
  ss_path :: "ustr option"
  ss_format :: "ustr option"
  ss_art :: "int option"
  ss_thumbnail :: "ustr option"

definition opt_any_int :: "json \<Rightarrow> int option" where
  "opt_any_int v = (if is_int v then Some (int_value v) else None)"

definition source_summary_of :: "pystd \<Rightarrow> json \<Rightarrow> source_summary" where
  "source_summary_of std raw =
     (let filename = opt_str (jget raw (U ''filename''));
          path = opt_str (jget raw (U ''path''));
          extension_source =
            (case filename of
               Some f \<Rightarrow> if f \<noteq> [] then f else (case path of Some p \<Rightarrow> p | None \<Rightarrow> [])
             | None \<Rightarrow> (case path of Some p \<Rightarrow> p | None \<Rightarrow> []));
          suffix = (case rsplit1 46 extension_source of None \<Rightarrow> [] | Some (_, s) \<Rightarrow> std_lower std s);
          art = opt_any_int (jget raw (U ''art_blob_id''))
      in \<lparr>ss_source_id = opt_any_int (jget raw (U ''source_id'')), ss_filename = filename,
          ss_path = path, ss_format = (if suffix = [] then None else Some suffix), ss_art = art,
          ss_thumbnail = (case art of
             None \<Rightarrow> None
           | Some a \<Rightarrow> if a \<noteq> 0 then Some (U ''/api/blobs/'' @ int_str a @ U ''?size=thumb'') else None)\<rparr>)"

definition source_file_summaries :: "pystd \<Rightarrow> json \<Rightarrow> source_summary list" where
  "source_file_summaries std payload =
     (let raw_items = jget_default payload (U ''items'') (JList []) in
      if \<not> is_list raw_items then []
      else map (source_summary_of std) (filter is_dict (list_value raw_items)))"

record issue =
  is_kind :: ustr
  is_message :: ustr

definition some_text :: "ustr option \<Rightarrow> bool" where
  "some_text e = (case e of None \<Rightarrow> False | Some s \<Rightarrow> s \<noteq> [])"

definition task_issues :: "attempt list \<Rightarrow> issue list" where
  "task_issues ts =
     map (\<lambda>t. \<lparr>is_kind = U ''task'',
               is_message = (if some_text (t_error t) then the (t_error t)
                             else t_kind t @ U '' could not be completed'')\<rparr>)
       (filter (\<lambda>t. failed_task (t_state t)) ts)"

definition joined_errors :: "pyrepr \<Rightarrow> json \<Rightarrow> ustr" where
  "joined_errors rp errors = join_with (U ''; '') (map (str_json rp) (list_value errors))"

definition collision_message :: "pyrepr \<Rightarrow> json \<Rightarrow> ustr" where
  "collision_message rp v =
     (let path = jget v (U ''collision_path'');
          conflicting0 = jget v (U ''conflicting_track_ids'');
          conflicting = (if is_list conflicting0 then conflicting0
                         else jget_default v (U ''conflicting_ids'') (JList []));
          errors = jget v (U ''errors'');
          first = (if is_str path \<and> str_value path \<noteq> []
                   then U ''Destination collision: '' @ repr_str rp (str_value path)
                   else U ''Path collision'');
          ids = sort (map int_value (filter is_int (list_value conflicting)));
          second = (if is_list conflicting \<and> ids \<noteq> []
                    then [U ''conflicts with track(s) '' @ repr_ints rp ids] else []);
          third = (if is_list errors \<and> list_value errors \<noteq> [] then [joined_errors rp errors] else [])
      in join_with ([32, 8212, 32]) (first # second @ third))"

definition operation_issue :: "pyrepr \<Rightarrow> operation \<Rightarrow> issue list" where
  "operation_issue rp op =
     (let v = o_validation op; errors = jget v (U ''errors'');
          has_errors = (is_list errors \<and> list_value errors \<noteq> [])
      in if truthy (jget v (U ''collision''))
         then [\<lparr>is_kind = U ''collision'', is_message = collision_message rp v\<rparr>]
         else if has_errors then [\<lparr>is_kind = U ''review'', is_message = joined_errors rp errors\<rparr>]
         else [])"

definition review_issues :: "pyrepr \<Rightarrow> db \<Rightarrow> review_bundle \<Rightarrow> revision \<Rightarrow> issue list" where
  "review_issues rp d b r =
     (let tasks = task_issues (attempts_of d (b_id b));
          generic = (if some_text (b_error b) \<and> \<not> (\<exists>x\<in>set tasks. Some (is_message x) = b_error b)
                     then [\<lparr>is_kind = U ''review'', is_message = the (b_error b)\<rparr>] else [])
      in generic @ tasks @ concat (map (operation_issue rp) (operations_of d (r_id r))))"

definition confidence_label :: "review_bundle \<Rightarrow> ustr" where
  "confidence_label b =
     (if b_state b = NEEDS_ATTENTION then U ''Needs attention''
      else if b_state b = PREPARING then U ''Preparing'' else U ''Not scored'')"

definition confidence_label_for_revision :: "review_bundle \<Rightarrow> revision \<Rightarrow> ustr" where
  "confidence_label_for_revision b r =
     (case r_confidence r of
        None \<Rightarrow> if r_candidate r \<noteq> JNull then U ''Manual selection'' else confidence_label b
      | Some c \<Rightarrow>
          if c \<ge> 85 / 100 then U ''High confidence''
          else if c \<ge> 65 / 100 then U ''Medium confidence'' else U ''Low confidence'')"

definition snapshot_text :: "json \<Rightarrow> ustr \<Rightarrow> ustr option" where
  "snapshot_text s k = (if is_dict s then opt_str (jget s k) else None)"

section \<open>The projection\<close>

definition count_decisions :: "decision \<Rightarrow> operation list \<Rightarrow> nat" where
  "count_decisions c ops = length (filter (\<lambda>op. o_decision op = c) ops)"

definition inbox_row :: "pystd \<Rightarrow> pyrepr \<Rightarrow> db \<Rightarrow> review_bundle \<Rightarrow> revision \<Rightarrow> inbox_entry" where
  "inbox_row std rp d b r =
     (let sources = source_file_summaries std (snapshot_payload d r);
          src = (case sources of [] \<Rightarrow> None | s # _ \<Rightarrow> Some s);
          ops = operations_of d (r_id r);
          issue = (case review_issues rp d b r of [] \<Rightarrow> None | x # _ \<Rightarrow> Some x);
          snap = r_candidate r
      in \<lparr>i_bundle = b_id b, i_state = b_state b, i_title = b_title b, i_key = b_key b,
          i_filename = Option.bind src ss_filename, i_path = Option.bind src ss_path,
          i_format = Option.bind src ss_format, i_source = r_source r, i_ref = r_ref r,
          i_cand_title = snapshot_text snap (U ''title''),
          i_cand_artist = snapshot_text snap (U ''artist''),
          i_cand_album = snapshot_text snap (U ''album''), i_confidence = r_confidence r,
          i_label = confidence_label_for_revision b r,
          i_issue_kind = map_option is_kind issue, i_issue_message = map_option is_message issue,
          i_accepted = count_decisions D_ACCEPTED ops, i_pending = count_decisions D_PENDING ops,
          i_rejected = count_decisions D_REJECTED ops\<rparr>)"

definition upsert :: "inbox_entry \<Rightarrow> inbox_entry list \<Rightarrow> inbox_entry list" where
  "upsert e rows =
     (if i_bundle e \<in> i_bundle ` set rows
      then map (\<lambda>x. if i_bundle x = i_bundle e then e else x) rows else rows @ [e])"

definition refresh_inbox_entry :: "pystd \<Rightarrow> pyrepr \<Rightarrow> int \<Rightarrow> db \<Rightarrow> db" where
  "refresh_inbox_entry std rp i d =
     (case find_row b_id i (bundles d) of
        None \<Rightarrow> d
      | Some b \<Rightarrow>
          (case current_revision d i of
             None \<Rightarrow> d
           | Some r \<Rightarrow> d\<lparr>inbox := upsert (inbox_row std rp d b r) (inbox d)\<rparr>))"

section \<open>Lemmas\<close>

lemma refresh_inbox_other [simp]:
  "bundles (refresh_inbox_entry std rp i d) = bundles d"
  "snapshots (refresh_inbox_entry std rp i d) = snapshots d"
  "revisions (refresh_inbox_entry std rp i d) = revisions d"
  "operations (refresh_inbox_entry std rp i d) = operations d"
  "attempts (refresh_inbox_entry std rp i d) = attempts d"
  "apply_runs (refresh_inbox_entry std rp i d) = apply_runs d"
  "op_attempts (refresh_inbox_entry std rp i d) = op_attempts d"
  "undo_runs (refresh_inbox_entry std rp i d) = undo_runs d"
  "jobs (refresh_inbox_entry std rp i d) = jobs d"
  "events (refresh_inbox_entry std rp i d) = events d"
  "maintenance (refresh_inbox_entry std rp i d) = maintenance d"
  by (simp_all add: refresh_inbox_entry_def split: option.splits)

text \<open>The rows that the projection reads.\<close>

definition same_reviews :: "db \<Rightarrow> db \<Rightarrow> bool" where
  "same_reviews d d' \<longleftrightarrow>
     snapshots d' = snapshots d \<and> revisions d' = revisions d \<and> operations d' = operations d
     \<and> attempts d' = attempts d \<and> bundles d' = bundles d"

lemma inbox_row_same: "same_reviews d d' \<Longrightarrow> inbox_row std rp d' b r = inbox_row std rp d b r"
  by (simp add: inbox_row_def same_reviews_def snapshot_payload_def operations_of_def review_issues_def
      attempts_of_def Let_def)

lemma upsert_mem: "find_row i_bundle (i_bundle e) (upsert e rows) = Some e"
proof -
  have "find (\<lambda>r. i_bundle r = i_bundle e) (map (\<lambda>x. if i_bundle x = i_bundle e then e else x) rows) = Some e"
    if "i_bundle e \<in> i_bundle ` set rows"
    using that by (induction rows) auto
  moreover have "find (\<lambda>r. i_bundle r = i_bundle e) (rows @ [e]) = Some e"
    if "i_bundle e \<notin> i_bundle ` set rows"
    using that by (induction rows) auto
  ultimately show ?thesis by (simp add: find_row_def upsert_def)
qed

lemma upsert_other:
  "j \<noteq> i_bundle e \<Longrightarrow> find_row i_bundle j (upsert e rows) = find_row i_bundle j rows"
proof -
  assume ne: "j \<noteq> i_bundle e"
  have "find (\<lambda>r. i_bundle r = j) (map (\<lambda>x. if i_bundle x = i_bundle e then e else x) rows) =
      find (\<lambda>r. i_bundle r = j) rows"
    using ne by (induction rows) auto
  moreover have "find (\<lambda>r. i_bundle r = j) (rows @ [e]) = find (\<lambda>r. i_bundle r = j) rows"
    using ne by (induction rows) auto
  ultimately show ?thesis by (simp add: upsert_def find_row_def)
qed

text \<open>After a refresh the bundle's inbox row is its projection, and no other row has changed.\<close>

lemma refresh_inbox_fresh:
  assumes "find_row b_id i (bundles d) = Some b" and "current_revision d i = Some r"
  shows "find_row i_bundle i (inbox (refresh_inbox_entry std rp i d)) = Some (inbox_row std rp d b r)"
proof -
  have "i_bundle (inbox_row std rp d b r) = i"
    using find_row_Some [OF assms(1)] by (simp add: inbox_row_def Let_def)
  then show ?thesis using upsert_mem [of "inbox_row std rp d b r" "inbox d"]
    by (simp add: refresh_inbox_entry_def assms)
qed

lemma refresh_inbox_keeps:
  assumes "j \<noteq> i"
  shows "find_row i_bundle j (inbox (refresh_inbox_entry std rp i d)) = find_row i_bundle j (inbox d)"
  using assms find_row_Some [of b_id i "bundles d"]
  by (auto simp: refresh_inbox_entry_def inbox_row_def Let_def upsert_other split: option.splits)

end
