(* ===== verification/ReviewRevisions.thy ===== *)
theory ReviewRevisions
  imports ReviewInbox
begin

text \<open>
  Revisions of a review (\<open>pipeline/reviews.py\<close>): the normalization of operation drafts,
  \<open>put_revision\<close>, which creates or updates one active inbox row idempotently, and
  \<open>transition_bundle\<close>. A successful operation returns the new database; an exception leaves the
  transaction to its caller, who rolls it back. SHA-256 over canonical JSON is a parameter.
\<close>

datatype review_exc =
    Invariant string
  | NoAcceptedOperations
  | TasksPending "(ustr \<times> ustr \<times> task_state) list"
  | InvalidTransition bundle_state bundle_state
  | StartApplyOwnsTransition
  | StaleSource snapshot_exc
  | DbAbort string

section \<open>Operation drafts\<close>

record draft =
  d_kind :: ustr
  d_field :: ustr
  d_target_type :: ustr
  d_target :: int
  d_current :: json
  d_proposed :: json
  d_provenance :: json
  d_validation :: json

record norm_op =
  n_kind :: operation_kind
  n_field :: ustr
  n_target_type :: ustr
  n_target :: int
  n_current :: json
  n_proposed :: json
  n_provenance :: json
  n_validation :: json

fun kind_value :: "operation_kind \<Rightarrow> ustr" where
  "kind_value SET_TAG = U ''set_tag''"
| "kind_value WRITE_LYRICS = U ''write_lyrics''"
| "kind_value EMBED_ART = U ''embed_art''"
| "kind_value REMOVE_ART = U ''remove_art''"
| "kind_value MOVE_FILE = U ''move_file''"
| "kind_value SET_REPLAY_GAIN = U ''set_replay_gain''"
| "kind_value GROUPING_CORRECTION = U ''grouping_correction''"

definition all_kinds :: "operation_kind list" where
  "all_kinds = [SET_TAG, WRITE_LYRICS, EMBED_ART, REMOVE_ART, MOVE_FILE, SET_REPLAY_GAIN, GROUPING_CORRECTION]"

definition kind_of_value :: "ustr \<Rightarrow> operation_kind option" where
  "kind_of_value s = find (\<lambda>k. kind_value k = s) all_kinds"

definition validate_lyrics_value :: "json \<Rightarrow> review_exc + unit" where
  "validate_lyrics_value v =
     (if \<not> is_dict v then Inl (Invariant ''write_lyrics value must be an object'')
      else if \<not> is_str (jget v (U ''text'')) \<or> \<not> is_bool (jget v (U ''synced'')) \<or> \<not> is_str (jget v (U ''provider''))
      then Inl (Invariant ''write_lyrics requires string text/provider and boolean synced'')
      else Inr ())"

definition validate_art_value :: "json \<Rightarrow> review_exc + unit" where
  "validate_art_value v =
     (if \<not> is_dict v then Inl (Invariant ''art value must be an object'')
      else if \<not> valid_integer (jget v (U ''blob_id''))
      then Inl (Invariant ''art value requires an integer blob_id'') else Inr ())"

definition validate_number :: "json \<Rightarrow> review_exc + unit" where
  "validate_number v = (if is_number v then Inr () else Inl (Invariant ''value must be numeric''))"

definition unless_null :: "(json \<Rightarrow> review_exc + unit) \<Rightarrow> json \<Rightarrow> review_exc + unit" where
  "unless_null check v = (if v = JNull then Inr () else check v)"

definition grouping_actions :: "ustr list" where
  "grouping_actions = [U ''confirm_collection'', U ''treat_as_singleton'', U ''move_to_collection'']"

definition validate_grouping_correction ::
  "ustr \<Rightarrow> ustr \<Rightarrow> json \<Rightarrow> json \<Rightarrow> json \<Rightarrow> review_exc + unit" where
  "validate_grouping_correction field target_type cur prop validation =
     (let action = jget prop (U ''action''); source_group = jget prop (U ''source_group_id'') in
      if field \<noteq> U ''collection'' \<or> target_type \<noteq> U ''track''
      then Inl (Invariant ''grouping_correction must target a track collection'')
      else if \<not> is_dict cur \<or> \<not> is_int (jget cur (U ''group_id''))
      then Inl (Invariant ''grouping_correction requires a current source group'')
      else if \<not> is_dict prop
      then Inl (Invariant ''grouping_correction proposed_value must be an object'')
      else if \<not> is_str action \<or> str_value action \<notin> set grouping_actions
      then Inl (Invariant ''unsupported grouping correction action'')
      else if \<not> is_int source_group \<or> int_value source_group \<noteq> int_value (jget cur (U ''group_id''))
      then Inl (Invariant ''grouping correction source group must match current value'')
      else if str_value action = U ''treat_as_singleton'' \<and> \<not> is_str (jget prop (U ''singleton_key''))
      then Inl (Invariant ''singleton grouping correction requires a stable key'')
      else if str_value action = U ''move_to_collection'' \<and> \<not> is_int (jget prop (U ''to_group_id''))
      then Inl (Invariant ''collection grouping correction requires a target group'')
      else if \<not> equals_true (jget validation (U ''compatible'')) \<or> \<not> is_dict (jget validation (U ''preview''))
      then Inl (Invariant ''grouping correction requires a compatible preview'')
      else Inr ())"

text \<open>The checks of \<open>_normalize_operation\<close> on the values of one kind.\<close>

definition validate_values ::
  "operation_kind \<Rightarrow> ustr \<Rightarrow> ustr \<Rightarrow> json \<Rightarrow> json \<Rightarrow> json \<Rightarrow> review_exc + unit" where
  "validate_values kind field target_type cur prop validation =
     (case kind of
        SET_TAG \<Rightarrow> Inr ()
      | WRITE_LYRICS \<Rightarrow>
          rbind (validate_lyrics_value prop) (\<lambda>_. unless_null validate_lyrics_value cur)
      | EMBED_ART \<Rightarrow> rbind (validate_art_value prop) (\<lambda>_. unless_null validate_art_value cur)
      | REMOVE_ART \<Rightarrow>
          (if prop \<noteq> JNull then Inl (Invariant ''remove_art proposed_value must be null'')
           else unless_null validate_art_value cur)
      | MOVE_FILE \<Rightarrow>
          (if \<not> is_str cur \<or> \<not> is_str prop
           then Inl (Invariant ''move_file requires string current/proposed values'') else Inr ())
      | SET_REPLAY_GAIN \<Rightarrow> rbind (unless_null validate_number cur) (\<lambda>_. validate_number prop)
      | GROUPING_CORRECTION \<Rightarrow> validate_grouping_correction field target_type cur prop validation)"

definition normalize_operation :: "draft \<Rightarrow> review_exc + norm_op" where
  "normalize_operation op =
     (case kind_of_value (d_kind op) of
        None \<Rightarrow> Inl (Invariant ''unsupported operation kind'')
      | Some kind \<Rightarrow>
          if strip (d_field op) = [] then Inl (Invariant ''operation field must not be empty'')
          else
            let cur = canon (d_current op); prop = canon (d_proposed op) in
            rbind (validate_values kind (d_field op) (d_target_type op) cur prop (d_validation op)) (\<lambda>_.
              Inr \<lparr>n_kind = kind, n_field = d_field op, n_target_type = d_target_type op,
                   n_target = d_target op, n_current = cur, n_proposed = prop,
                   n_provenance = canon (d_provenance op), n_validation = canon (d_validation op)\<rparr>))"

text \<open>The dictionary of an operation's content, for a normalized draft and for a stored row.\<close>

definition content_json ::
  "operation_kind \<Rightarrow> ustr \<Rightarrow> ustr \<Rightarrow> int \<Rightarrow> json \<Rightarrow> json \<Rightarrow> json \<Rightarrow> json \<Rightarrow> json" where
  "content_json kind field target_type target cur prop prov valid =
     JObj [(U ''kind'', JStr (kind_value kind)), (U ''field'', JStr field),
           (U ''target_type'', JStr target_type), (U ''target_id'', JInt target),
           (U ''current_value'', cur), (U ''proposed_value'', prop), (U ''provenance'', prov),
           (U ''validation'', valid)]"

definition norm_content :: "norm_op \<Rightarrow> json" where
  "norm_content n = content_json (n_kind n) (n_field n) (n_target_type n) (n_target n) (n_current n)
     (n_proposed n) (n_provenance n) (n_validation n)"

definition persisted_operation_content :: "operation \<Rightarrow> json" where
  "persisted_operation_content op = content_json (o_kind op) (o_field op) (o_target_type op) (o_target op)
     (o_current op) (o_proposed op) (o_provenance op) (o_validation op)"

section \<open>Writing a revision\<close>

record revision_request =
  q_key :: ustr
  q_title :: ustr
  q_scope_type :: ustr
  q_scope_id :: "int option"
  q_snapshot :: json
  q_operations :: "draft list"
  q_source :: "ustr option"
  q_ref :: "ustr option"
  q_candidate :: json
  q_explanation :: json
  q_confidence :: "rat option"

record revision_write =
  w_bundle :: int
  w_revision :: int
  w_created_bundle :: bool
  w_created_revision :: bool

definition active_bundle :: "db \<Rightarrow> ustr \<Rightarrow> review_bundle option" where
  "active_bundle d key = find (\<lambda>b. b_key b = key \<and> b_state b \<in> active_bundle_states) (bundles d)"

definition revision_content :: "revision_request \<Rightarrow> norm_op list \<Rightarrow> json" where
  "revision_content q ops =
     JObj [(U ''source_snapshot'', canon (q_snapshot q)), (U ''operations'', JList (map norm_content ops)),
           (U ''candidate_source'', json_of_str (q_source q)), (U ''candidate_ref'', json_of_str (q_ref q)),
           (U ''candidate_snapshot'', canon (q_candidate q)),
           (U ''match_explanation'', canon (q_explanation q)),
           (U ''confidence'', case q_confidence q of None \<Rightarrow> JNull | Some c \<Rightarrow> JFloat c)]"

definition digest :: "(json \<Rightarrow> ustr) \<Rightarrow> json \<Rightarrow> ustr" where
  "digest sha v = sha (canon v)"

text \<open>The insertion of the bundle row, or nothing when an active row holds the key.\<close>

definition insert_bundle :: "revision_request \<Rightarrow> db \<Rightarrow> db \<times> bool" where
  "insert_bundle q d =
     (case active_bundle d (q_key q) of
        Some _ \<Rightarrow> (d, False)
      | None \<Rightarrow>
          (d\<lparr>bundles := bundles d @
             [\<lparr>b_id = next_id b_id (bundles d), b_key = q_key q, b_title = q_title q,
               b_scope_type = q_scope_type q, b_scope_id = q_scope_id q, b_session = None,
               b_state = PREPARING, b_error = None\<rparr>]\<rparr>, True))"

definition resolve_bundle ::
  "int option \<Rightarrow> revision_request \<Rightarrow> db \<Rightarrow> review_exc + (db \<times> review_bundle \<times> bool)" where
  "resolve_bundle bundle_id q d =
     (case bundle_id of
        None \<Rightarrow>
          let (d', created) = insert_bundle q d in
          (case active_bundle d' (q_key q) of
             None \<Rightarrow> Inl (Invariant ''could not create or resolve the active review bundle'')
           | Some b \<Rightarrow> Inr (d', b, created))
      | Some i \<Rightarrow>
          (case find_row b_id i (bundles d) of
             None \<Rightarrow> Inl (Invariant ''review bundle not found'')
           | Some b \<Rightarrow> Inr (d, b, False)))"

definition find_snapshot :: "db \<Rightarrow> int \<Rightarrow> ustr \<Rightarrow> snapshot option" where
  "find_snapshot d i dig = find (\<lambda>s. sn_bundle s = i \<and> sn_digest s = dig) (snapshots d)"

definition insert_snapshot :: "int \<Rightarrow> ustr \<Rightarrow> json \<Rightarrow> db \<Rightarrow> db" where
  "insert_snapshot i dig payload d =
     (case find_snapshot d i dig of
        Some _ \<Rightarrow> d
      | None \<Rightarrow> d\<lparr>snapshots := snapshots d @
          [\<lparr>sn_id = next_id sn_id (snapshots d), sn_bundle = i, sn_digest = dig, sn_payload = payload\<rparr>]\<rparr>)"

definition find_successor :: "db \<Rightarrow> int \<Rightarrow> nat \<Rightarrow> ustr \<Rightarrow> revision option" where
  "find_successor d i parent dig =
     find (\<lambda>r. r_bundle r = i \<and> r_parent r = parent \<and> r_digest r = dig) (revisions d)"

text \<open>The insertion of the revision row, refused by either unique constraint.\<close>

definition insert_revision :: "revision \<Rightarrow> db \<Rightarrow> db \<times> bool" where
  "insert_revision r d =
     (if \<exists>x\<in>set (revisions d). r_bundle x = r_bundle r \<and>
           (r_no x = r_no r \<or> r_parent x = r_parent r \<and> r_digest x = r_digest r)
      then (d, False)
      else (d\<lparr>revisions := revisions d @ [r\<lparr>r_id := next_id r_id (revisions d)\<rparr>]\<rparr>, True))"

text \<open>\<open>decisions.pop(0) if decisions else 'pending'\<close> over the new operations.\<close>

fun carry_decisions :: "(json \<times> decision list) list \<Rightarrow> norm_op list \<Rightarrow> decision list" where
  "carry_decisions carried [] = []"
| "carry_decisions carried (n # ns) =
     (case bucket_get carried (canon (norm_content n)) of
        [] \<Rightarrow> D_PENDING # carry_decisions carried ns
      | c # cs \<Rightarrow> c # carry_decisions (AList.update (canon (norm_content n)) cs carried) ns)"

definition carried_decisions :: "db \<Rightarrow> revision option \<Rightarrow> (json \<times> decision list) list" where
  "carried_decisions d current =
     (case current of
        None \<Rightarrow> []
      | Some r \<Rightarrow> bucket_all (\<lambda>op. canon (persisted_operation_content op)) o_decision (operations_of d (r_id r)))"

definition new_operation :: "int \<Rightarrow> int \<Rightarrow> int \<Rightarrow> nat \<Rightarrow> norm_op \<Rightarrow> decision \<Rightarrow> operation" where
  "new_operation i rid sid seq n c =
     \<lparr>o_id = i, o_revision = rid, o_snapshot = sid, o_seq = seq, o_kind = n_kind n,
      o_field = n_field n, o_target_type = n_target_type n, o_target = n_target n,
      o_current = n_current n, o_proposed = n_proposed n, o_decision = c,
      o_provenance = n_provenance n, o_validation = n_validation n\<rparr>"

definition new_operations :: "db \<Rightarrow> int \<Rightarrow> int \<Rightarrow> norm_op list \<Rightarrow> decision list \<Rightarrow> operation list" where
  "new_operations d rid sid ns cs =
     map (\<lambda>(seq, n, c). new_operation (next_id o_id (operations d) + int seq) rid sid seq n c)
       (zip [0..<length ns] (zip ns cs))"

definition promote :: "int \<Rightarrow> int \<Rightarrow> db \<Rightarrow> db" where
  "promote i rid d =
     d\<lparr>revisions := update_where (\<lambda>r. r_id r = rid) (\<lambda>r. r\<lparr>r_current := True\<rparr>)
        (update_where (\<lambda>r. r_bundle r = i \<and> r_current r \<and> r_id r \<noteq> rid) (\<lambda>r. r\<lparr>r_current := False\<rparr>)
          (revisions d))\<rparr>"

definition new_revision :: "revision_request \<Rightarrow> int \<Rightarrow> int \<Rightarrow> nat \<Rightarrow> ustr \<Rightarrow> revision" where
  "new_revision q i sid parent dig =
     \<lparr>r_id = 0, r_bundle = i, r_snapshot = sid, r_no = parent + 1, r_parent = parent, r_digest = dig,
      r_current = False, r_source = q_source q, r_ref = q_ref q, r_candidate = canon (q_candidate q),
      r_explanation = canon (q_explanation q), r_confidence = q_confidence q\<rparr>"

text \<open>The operations of a revision that was inserted; none for one that was found.\<close>

definition store_operations :: "bool \<Rightarrow> revision option \<Rightarrow> int \<Rightarrow> int \<Rightarrow> norm_op list \<Rightarrow> db \<Rightarrow> db" where
  "store_operations created current rid sid ops d =
     (if created
      then d\<lparr>operations := operations d @
        new_operations d rid sid ops (carry_decisions (carried_decisions d current) ops)\<rparr>
      else d)"

text \<open>
  The part of \<open>put_revision\<close> after the identity checks: snapshot, revision, operations, promotion. The
  trigger \<open>proposal_revisions_current_frozen\<close> aborts the promotion for a bundle that is not open.
\<close>

definition write_successor ::
  "pystd \<Rightarrow> pyrepr \<Rightarrow> (json \<Rightarrow> ustr) \<Rightarrow> review_bundle \<Rightarrow> bool \<Rightarrow> revision_request \<Rightarrow> norm_op list \<Rightarrow> db \<Rightarrow>
   review_exc + (db \<times> revision_write)" where
  "write_successor std rp sha b created q ops d =
     (let i = b_id b;
          current = current_revision d i;
          rdig = digest sha (revision_content q ops);
          sdig = digest sha (canon (q_snapshot q));
          d1 = insert_snapshot i sdig (canon (q_snapshot q)) d
      in case find_snapshot d1 i sdig of
           None \<Rightarrow> Inl (Invariant ''could not create or resolve the source snapshot'')
         | Some snap \<Rightarrow>
             let parent = (case current of None \<Rightarrow> 0 | Some r \<Rightarrow> r_no r);
                 (d2, created_revision) = insert_revision (new_revision q i (sn_id snap) parent rdig) d1
             in case find_successor d2 i parent rdig of
                  None \<Rightarrow> Inl (Invariant ''the current revision changed concurrently'')
                | Some r \<Rightarrow>
                    if b_state b \<notin> open_states then Inl (DbAbort ''current revision is frozen after review'')
                    else
                    let d3 = store_operations created_revision current (r_id r) (sn_id snap) ops d2
                    in Inr (refresh_inbox_entry std rp i (promote i (r_id r) d3),
                            \<lparr>w_bundle = i, w_revision = r_id r, w_created_bundle = created,
                             w_created_revision = created_revision\<rparr>))"

definition put_revision ::
  "pystd \<Rightarrow> pyrepr \<Rightarrow> (json \<Rightarrow> ustr) \<Rightarrow> int option \<Rightarrow> revision_request \<Rightarrow> db \<Rightarrow>
   review_exc + (db \<times> revision_write)" where
  "put_revision std rp sha bundle_id q d =
     (if strip (q_key q) = [] then Inl (Invariant ''logical_key must not be empty'')
      else if case q_confidence q of None \<Rightarrow> False | Some c \<Rightarrow> \<not> (0 \<le> c \<and> c \<le> 1)
      then Inl (Invariant ''confidence must be between 0 and 1'')
      else if \<not> is_dict (q_snapshot q) then Inl (Invariant ''source_snapshot must be a JSON object'')
      else rbind (rmap normalize_operation (q_operations q)) (\<lambda>ops.
           rbind (resolve_bundle bundle_id q d) (\<lambda>(d0, b, created).
             if b_scope_type b \<noteq> q_scope_type q \<or> b_scope_id b \<noteq> q_scope_id q
             then Inl (Invariant ''logical_key already belongs to a different scope'')
             else if b_key b \<noteq> q_key q
             then Inl (Invariant ''review bundle has a different logical_key'')
             else
               let rdig = digest sha (revision_content q ops) in
               case current_revision d0 (b_id b) of
                 Some cur \<Rightarrow>
                   if r_digest cur = rdig
                   then Inr (d0, \<lparr>w_bundle = b_id b, w_revision = r_id cur, w_created_bundle = created,
                                  w_created_revision = False\<rparr>)
                   else if b_state b = APPLYING
                   then Inl (Invariant ''cannot replace a revision while its bundle is applying'')
                   else write_successor std rp sha b created q ops d0
               | None \<Rightarrow>
                   if b_state b = APPLYING
                   then Inl (Invariant ''cannot replace a revision while its bundle is applying'')
                   else write_successor std rp sha b created q ops d0)))"

section \<open>Transitions\<close>

definition set_bundle_state :: "int \<Rightarrow> bundle_state \<Rightarrow> db \<Rightarrow> db" where
  "set_bundle_state i s d =
     d\<lparr>bundles := update_where (\<lambda>b. b_id b = i) (\<lambda>b. b\<lparr>b_state := s\<rparr>) (bundles d)\<rparr>"

definition set_bundle_error :: "int \<Rightarrow> ustr option \<Rightarrow> db \<Rightarrow> db" where
  "set_bundle_error i e d =
     d\<lparr>bundles := update_where (\<lambda>b. b_id b = i) (\<lambda>b. b\<lparr>b_error := e\<rparr>) (bundles d)\<rparr>"

text \<open>
  Flushing a new state: the triggers \<open>review_bundles_state_transition\<close>,
  \<open>review_bundles_visible_requires_current\<close> and \<open>review_bundles_apply_requires_accepted\<close> may abort
  the \<open>UPDATE\<close>, and so may the unique index on the logical keys of active bundles. An assignment that does not change the state issues none.
\<close>

definition state_abort :: "db \<Rightarrow> review_bundle \<Rightarrow> bundle_state \<Rightarrow> string option" where
  "state_abort d b target =
     (if \<not> state_trigger_permits (b_state b) target then Some ''invalid review bundle state transition''
      else if target \<in> {READY, NEEDS_ATTENTION, APPLYING} \<and> current_revision d (b_id b) = None
      then Some ''visible review bundle requires a current revision''
      else if target = APPLYING \<and>
        \<not> (\<exists>r\<in>set (revisions d). r_bundle r = b_id b \<and> r_current r \<and>
             (\<exists>op\<in>set (operations_of d (r_id r)). o_decision op = D_ACCEPTED))
      then Some ''review bundle has no accepted operations''
      else if target \<in> active_bundle_states \<and>
        (\<exists>x\<in>set (bundles d). b_id x \<noteq> b_id b \<and> b_key x = b_key b \<and> b_state x \<in> active_bundle_states)
      then Some ''UNIQUE constraint failed: review_bundles.logical_key''
      else None)"

definition flush_state :: "int \<Rightarrow> bundle_state \<Rightarrow> db \<Rightarrow> review_exc + db" where
  "flush_state i target d =
     (case find_row b_id i (bundles d) of
        None \<Rightarrow> Inr d
      | Some b \<Rightarrow>
          if b_state b = target then Inr d
          else (case state_abort d b target of
                  Some m \<Rightarrow> Inl (DbAbort m)
                | None \<Rightarrow> Inr (set_bundle_state i target d)))"

definition transition_bundle :: "pystd \<Rightarrow> pyrepr \<Rightarrow> int \<Rightarrow> bundle_state \<Rightarrow> db \<Rightarrow> review_exc + db" where
  "transition_bundle std rp i target d =
     (case find_row b_id i (bundles d) of
        None \<Rightarrow> Inl (Invariant ''review bundle not found'')
      | Some b \<Rightarrow>
          (case validate_transition (b_state b) target of
             Inl (s, t) \<Rightarrow> Inl (InvalidTransition s t)
           | Inr _ \<Rightarrow>
               if target \<in> {READY, NEEDS_ATTENTION} \<and> current_revision d i = None
               then Inl (Invariant ''a review cannot become visible without a current revision'')
               else if target = APPLYING then Inl StartApplyOwnsTransition
               else rbind (flush_state i target d) (\<lambda>d'. Inr (refresh_inbox_entry std rp i d'))))"

end
