(* ===== verification/ReviewRevisionFacts.thy ===== *)
theory ReviewRevisionFacts
  imports ReviewRevisions
begin

text \<open>
  What \<open>put_revision\<close> keeps and achieves: the invariant of the revision table, the shape of the
  database after a successor is written, idempotence, and the decisions that are carried over.
\<close>

section \<open>The invariant of the revision table\<close>

text \<open>
  Primary keys are distinct; a revision's number follows its parent's; two revisions of a bundle
  with the same number are the same; a bundle with a revision has exactly one current revision,
  the one with the largest number.
\<close>

definition revs_ok :: "db \<Rightarrow> bool" where
  "revs_ok d \<longleftrightarrow>
     distinct (map r_id (revisions d))
     \<and> (\<forall>r\<in>set (revisions d). r_no r = r_parent r + 1)
     \<and> (\<forall>r\<in>set (revisions d). \<forall>x\<in>set (revisions d). r_bundle r = r_bundle x \<longrightarrow> r_no r = r_no x \<longrightarrow> r = x)
     \<and> (\<forall>c\<in>set (revisions d). r_current c \<longrightarrow> (\<forall>x\<in>set (revisions d). r_bundle x = r_bundle c \<longrightarrow> r_no x \<le> r_no c))
     \<and> (\<forall>r\<in>set (revisions d). \<exists>c\<in>set (revisions d). r_bundle c = r_bundle r \<and> r_current c)"

lemma revs_okD:
  assumes "revs_ok d"
  shows revs_ids: "distinct (map r_id (revisions d))"
    and revs_parent: "r \<in> set (revisions d) \<Longrightarrow> r_no r = r_parent r + 1"
    and revs_number: "r \<in> set (revisions d) \<Longrightarrow> x \<in> set (revisions d) \<Longrightarrow> r_bundle r = r_bundle x \<Longrightarrow>
      r_no r = r_no x \<Longrightarrow> r = x"
    and revs_max: "c \<in> set (revisions d) \<Longrightarrow> r_current c \<Longrightarrow> x \<in> set (revisions d) \<Longrightarrow>
      r_bundle x = r_bundle c \<Longrightarrow> r_no x \<le> r_no c"
    and revs_has_current: "r \<in> set (revisions d) \<Longrightarrow> \<exists>c\<in>set (revisions d). r_bundle c = r_bundle r \<and> r_current c"
  using assms unfolding revs_ok_def by blast+

lemma revs_ok_empty: "revs_ok empty_db"
  by (simp add: revs_ok_def empty_db_def)

lemma revs_ok_cong: "revisions d' = revisions d \<Longrightarrow> revs_ok d' = revs_ok d"
  by (simp add: revs_ok_def)

lemma current_revision_cong: "revisions d' = revisions d \<Longrightarrow> current_revision d' = current_revision d"
  by (simp add: current_revision_def fun_eq_iff)

lemma current_revision_Some:
  "current_revision d i = Some c \<Longrightarrow> c \<in> set (revisions d) \<and> r_bundle c = i \<and> r_current c"
  by (auto simp: current_revision_def find_Some_iff)

lemma current_revision_None:
  "current_revision d i = None \<longleftrightarrow> (\<forall>r\<in>set (revisions d). r_bundle r = i \<longrightarrow> \<not> r_current r)"
  by (auto simp: current_revision_def find_None_iff)

lemma current_unique:
  assumes "revs_ok d" and "r \<in> set (revisions d)" and "r_bundle r = i" and "r_current r"
  shows "current_revision d i = Some r"
proof -
  obtain c where c: "current_revision d i = Some c"
    using assms(2-4) current_revision_None [of d i] by (cases "current_revision d i") auto
  then have cs: "c \<in> set (revisions d)" "r_bundle c = i" "r_current c"
    using current_revision_Some by blast+
  have "r_bundle r = r_bundle c" using assms(3) cs(2) by simp
  then have "r_no r = r_no c"
    using revs_max [OF assms(1) cs(1,3) assms(2)] revs_max [OF assms(1,2,4) cs(1)] by simp
  then have "r = c"
    using revs_number [OF assms(1,2) cs(1) \<open>r_bundle r = r_bundle c\<close>] by simp
  then show ?thesis using c by simp
qed

definition parent_no :: "db \<Rightarrow> int \<Rightarrow> nat" where
  "parent_no d i = (case current_revision d i of None \<Rightarrow> 0 | Some r \<Rightarrow> r_no r)"

lemma parent_no_max:
  assumes "revs_ok d" and "x \<in> set (revisions d)" and "r_bundle x = i"
  shows "r_no x \<le> parent_no d i"
proof -
  obtain c where c: "c \<in> set (revisions d)" "r_bundle c = i" "r_current c"
    using revs_has_current [OF assms(1,2)] assms(3) by blast
  then have "current_revision d i = Some c" by (intro current_unique [OF assms(1)])
  then show ?thesis using revs_max [OF assms(1) c(1,3) assms(2)] assms(3) c(2) by (simp add: parent_no_def)
qed

section \<open>The successor\<close>

definition demote :: "int \<Rightarrow> revision \<Rightarrow> revision" where
  "demote i r = (if r_bundle r = i then r\<lparr>r_current := False\<rparr> else r)"

lemma demote_simps [simp]:
  "r_id (demote i r) = r_id r" "r_bundle (demote i r) = r_bundle r" "r_no (demote i r) = r_no r"
  "r_parent (demote i r) = r_parent r" "r_digest (demote i r) = r_digest r"
  "r_snapshot (demote i r) = r_snapshot r"
  "r_current (demote i r) = (r_current r \<and> r_bundle r \<noteq> i)"
  by (simp_all add: demote_def)

definition successor :: "db \<Rightarrow> int \<Rightarrow> int \<Rightarrow> ustr \<Rightarrow> revision_request \<Rightarrow> revision" where
  "successor d i sid dig q =
     \<lparr>r_id = next_id r_id (revisions d), r_bundle = i, r_snapshot = sid, r_no = parent_no d i + 1,
      r_parent = parent_no d i, r_digest = dig, r_current = True, r_source = q_source q,
      r_ref = q_ref q, r_candidate = canon (q_candidate q), r_explanation = canon (q_explanation q),
      r_confidence = q_confidence q\<rparr>"

lemma find_append: "find P (xs @ ys) = (case find P xs of Some x \<Rightarrow> Some x | None \<Rightarrow> find P ys)"
  by (induction xs) auto

lemma find_snapshot_insert: "\<exists>s. find_snapshot (insert_snapshot i dig p d) i dig = Some s"
proof (cases "find_snapshot d i dig")
  case None
  then show ?thesis by (simp add: insert_snapshot_def find_snapshot_def find_append)
qed (simp add: insert_snapshot_def)

lemma insert_snapshot_other [simp]:
  "bundles (insert_snapshot i dig p d) = bundles d" "revisions (insert_snapshot i dig p d) = revisions d"
  "operations (insert_snapshot i dig p d) = operations d" "attempts (insert_snapshot i dig p d) = attempts d"
  "apply_runs (insert_snapshot i dig p d) = apply_runs d" "jobs (insert_snapshot i dig p d) = jobs d"
  "inbox (insert_snapshot i dig p d) = inbox d" "events (insert_snapshot i dig p d) = events d"
  "undo_runs (insert_snapshot i dig p d) = undo_runs d" "maintenance (insert_snapshot i dig p d) = maintenance d"
  by (simp_all add: insert_snapshot_def split: option.splits)

lemma promote_other [simp]:
  "bundles (promote i rid d) = bundles d" "snapshots (promote i rid d) = snapshots d"
  "operations (promote i rid d) = operations d" "attempts (promote i rid d) = attempts d"
  "apply_runs (promote i rid d) = apply_runs d" "jobs (promote i rid d) = jobs d"
  "inbox (promote i rid d) = inbox d" "events (promote i rid d) = events d"
  "undo_runs (promote i rid d) = undo_runs d" "maintenance (promote i rid d) = maintenance d"
  by (simp_all add: promote_def)

lemma store_operations_other [simp]:
  "bundles (store_operations c cur rid sid ops d) = bundles d"
  "snapshots (store_operations c cur rid sid ops d) = snapshots d"
  "revisions (store_operations c cur rid sid ops d) = revisions d"
  "attempts (store_operations c cur rid sid ops d) = attempts d"
  "apply_runs (store_operations c cur rid sid ops d) = apply_runs d"
  "jobs (store_operations c cur rid sid ops d) = jobs d"
  "inbox (store_operations c cur rid sid ops d) = inbox d"
  "events (store_operations c cur rid sid ops d) = events d"
  "undo_runs (store_operations c cur rid sid ops d) = undo_runs d"
  "maintenance (store_operations c cur rid sid ops d) = maintenance d"
  by (simp_all add: store_operations_def)

lemma carried_decisions_cong:
  "operations d' = operations d \<Longrightarrow> carried_decisions d' c = carried_decisions d c"
  by (simp add: carried_decisions_def operations_of_def split: option.splits)

lemma new_operations_cong:
  "operations d' = operations d \<Longrightarrow> new_operations d' a s ops cs = new_operations d a s ops cs"
  by (simp add: new_operations_def)

lemma store_operations_True:
  "operations d' = operations d \<Longrightarrow>
     operations (store_operations True cur rid sid ops d') =
       operations d @ new_operations d rid sid ops (carry_decisions (carried_decisions d cur) ops)"
  by (simp add: store_operations_def carried_decisions_cong [of d' d] new_operations_cong [of d' d])

text \<open>No stored revision stands in the way of a successor of the current one.\<close>

lemma no_conflict:
  assumes ok: "revs_ok d" and x: "x \<in> set (revisions d)" "r_bundle x = i"
  shows "r_no x \<noteq> parent_no d i + 1" and "r_parent x \<noteq> parent_no d i"
proof -
  have "r_no x = r_parent x + 1" using ok x(1) unfolding revs_ok_def by blast
  then show "r_no x \<noteq> parent_no d i + 1" "r_parent x \<noteq> parent_no d i"
    using parent_no_max [OF ok x] by auto
qed

lemma insert_successor:
  assumes ok: "revs_ok d" and same: "revisions d1 = revisions d"
  shows "insert_revision (new_revision q i sid (parent_no d i) dig) d1 =
    (d1\<lparr>revisions := revisions d @
        [(new_revision q i sid (parent_no d i) dig)\<lparr>r_id := next_id r_id (revisions d)\<rparr>]\<rparr>, True)"
proof -
  let ?r = "new_revision q i sid (parent_no d i) dig"
  have r: "r_bundle ?r = i" "r_no ?r = parent_no d i + 1" "r_parent ?r = parent_no d i"
    by (simp_all add: new_revision_def)
  have "\<not> (\<exists>x\<in>set (revisions d1). r_bundle x = r_bundle ?r \<and>
      (r_no x = r_no ?r \<or> r_parent x = r_parent ?r \<and> r_digest x = r_digest ?r))"
    using no_conflict [OF ok] unfolding same r by blast
  then show ?thesis unfolding insert_revision_def same by (simp only: if_False)
qed

lemma find_inserted:
  assumes ok: "revs_ok d"
  shows "find_successor (d1\<lparr>revisions := revisions d @
      [(new_revision q i sid (parent_no d i) dig)\<lparr>r_id := n\<rparr>]\<rparr>) i (parent_no d i) dig =
    Some ((new_revision q i sid (parent_no d i) dig)\<lparr>r_id := n\<rparr>)"
proof -
  have "find (\<lambda>x. r_bundle x = i \<and> r_parent x = parent_no d i \<and> r_digest x = dig) (revisions d) = None"
    using no_conflict [OF ok] by (auto simp: find_None_iff)
  then show ?thesis by (simp add: find_successor_def find_append new_revision_def)
qed

lemma promote_successor:
  assumes "revisions d3 = revisions d @
      [(new_revision q i sid (parent_no d i) dig)\<lparr>r_id := next_id r_id (revisions d)\<rparr>]"
  shows "revisions (promote i (next_id r_id (revisions d)) d3) =
    map (demote i) (revisions d) @ [successor d i sid dig q]"
proof -
  have "r_id x \<noteq> next_id r_id (revisions d)" if "x \<in> set (revisions d)" for x
    using next_id_fresh [OF that, of r_id] by simp
  then show ?thesis
    by (auto simp: assms promote_def update_where_def demote_def successor_def new_revision_def)
qed

text \<open>
  Under the invariant a successor of an open bundle is always inserted, becomes current and is the
  only change; the database aborts it for a bundle that is not open.
\<close>

lemma write_successor_shape:
  assumes ok: "revs_ok d" and open_b: "b_state b \<in> open_states"
  obtains sid d' where
    "write_successor std rp sha b created q ops d =
       Inr (d', \<lparr>w_bundle = b_id b, w_revision = next_id r_id (revisions d), w_created_bundle = created,
                 w_created_revision = True\<rparr>)"
    "revisions d' = map (demote (b_id b)) (revisions d) @
       [successor d (b_id b) sid (digest sha (revision_content q ops)) q]"
    "operations d' = operations d @ new_operations d (next_id r_id (revisions d)) sid ops
       (carry_decisions (carried_decisions d (current_revision d (b_id b))) ops)"
    "bundles d' = bundles d" "attempts d' = attempts d" "apply_runs d' = apply_runs d" "jobs d' = jobs d"
    "events d' = events d" "undo_runs d' = undo_runs d" "maintenance d' = maintenance d"
proof -
  define i where "i = b_id b"
  define rdig where "rdig = digest sha (revision_content q ops)"
  define sdig where "sdig = digest sha (canon (q_snapshot q))"
  define d1 where "d1 = insert_snapshot i sdig (canon (q_snapshot q)) d"
  define n where "n = next_id r_id (revisions d)"
  obtain snap where snap: "find_snapshot d1 i sdig = Some snap"
    using find_snapshot_insert unfolding d1_def by blast
  define d2 where "d2 = d1\<lparr>revisions := revisions d @
    [(new_revision q i (sn_id snap) (parent_no d i) rdig)\<lparr>r_id := n\<rparr>]\<rparr>"
  define d3 where "d3 = store_operations True (current_revision d i) n (sn_id snap) ops d2"
  have ins: "insert_revision (new_revision q i (sn_id snap) (parent_no d i) rdig) d1 = (d2, True)"
    unfolding d2_def n_def by (rule insert_successor [OF ok]) (simp add: d1_def)
  have succ: "find_successor d2 i (parent_no d i) rdig =
      Some ((new_revision q i (sn_id snap) (parent_no d i) rdig)\<lparr>r_id := n\<rparr>)"
    unfolding d2_def by (rule find_inserted [OF ok])
  have par: "(case current_revision d i of None \<Rightarrow> 0 | Some r \<Rightarrow> r_no r) = parent_no d i"
    by (simp add: parent_no_def)
  have "write_successor std rp sha b created q ops d =
      Inr (refresh_inbox_entry std rp i (promote i n d3),
        \<lparr>w_bundle = i, w_revision = n, w_created_bundle = created, w_created_revision = True\<rparr>)"
    unfolding write_successor_def Let_def i_def [symmetric] rdig_def [symmetric] sdig_def [symmetric]
      d1_def [symmetric] snap par option.case ins prod.case succ
    by (simp add: d3_def open_b)
  moreover have "revisions (promote i n d3) = map (demote i) (revisions d) @ [successor d i (sn_id snap) rdig q]"
    unfolding n_def by (rule promote_successor) (simp add: d3_def d2_def n_def)
  moreover have "operations d3 = operations d @ new_operations d n (sn_id snap) ops
      (carry_decisions (carried_decisions d (current_revision d i)) ops)"
    unfolding d3_def by (rule store_operations_True) (simp add: d2_def d1_def)
  ultimately show thesis
    by (intro that [of "refresh_inbox_entry std rp i (promote i n d3)" "sn_id snap"])
      (simp_all add: i_def n_def rdig_def, simp_all add: d3_def d2_def d1_def)
qed

end
