(* ===== verification/ReviewRevisionProperties.thy ===== *)
theory ReviewRevisionProperties
  imports ReviewRevisionFacts
begin

text \<open>
  The properties of \<open>put_revision\<close>: it keeps the invariant of the revision table, a successful
  call makes its content the current revision, repeating it changes nothing, and the decisions on
  unchanged operations are carried over in order.
\<close>

section \<open>The invariant is kept\<close>

lemma revs_ok_successor:
  assumes ok: "revs_ok d"
    and revs: "revisions d' = map (demote i) (revisions d) @ [successor d i sid dig q]"
  shows "revs_ok d'"
proof -
  let ?s = "successor d i sid dig q"
  have s: "r_id ?s = next_id r_id (revisions d)" "r_bundle ?s = i" "r_no ?s = parent_no d i + 1"
    "r_parent ?s = parent_no d i" "r_current ?s"
    by (simp_all add: successor_def)
  have mem: "x \<in> set (revisions d') \<longleftrightarrow> x = ?s \<or> (\<exists>y\<in>set (revisions d). x = demote i y)" for x
    by (auto simp: revs)
  have same: "map r_id (map (demote i) (revisions d)) = map r_id (revisions d)" by simp
  have "next_id r_id (map (demote i) (revisions d)) = next_id r_id (revisions d)"
    unfolding next_id_def same by (rule refl)
  then have ids: "distinct (map r_id (revisions d'))"
    unfolding revs using revs_ids [OF ok] s(1) same
    by (intro distinct_next_id) (simp_all only: same)
  have le: "r_no y \<le> parent_no d i" if "y \<in> set (revisions d)" "r_bundle y = i" for y
    using parent_no_max [OF ok that] .
  have "\<forall>r\<in>set (revisions d'). r_no r = r_parent r + 1"
    using revs_parent [OF ok] s by (auto simp: mem)
  moreover have "r = x"
    if rx: "r \<in> set (revisions d')" "x \<in> set (revisions d')" and eq: "r_bundle r = r_bundle x" "r_no r = r_no x" for r x
  proof -
    consider (new) "r = ?s" "x = ?s" | (left) y where "r = ?s" "y \<in> set (revisions d)" "x = demote i y"
      | (right) y where "x = ?s" "y \<in> set (revisions d)" "r = demote i y"
      | (old) y z where "y \<in> set (revisions d)" "z \<in> set (revisions d)" "r = demote i y" "x = demote i z"
      using rx unfolding mem by blast
    then show ?thesis
    proof cases
      case (old y z)
      then show ?thesis using revs_number [OF ok old(1,2)] eq by simp
    qed (use le eq s in \<open>auto dest!: le\<close>)
  qed
  moreover have "r_no x \<le> r_no c"
    if cx: "c \<in> set (revisions d')" "x \<in> set (revisions d')" and cur: "r_current c" and eq: "r_bundle x = r_bundle c" for c x
  proof -
    consider (new) "c = ?s" "x = ?s" | (left) y where "c = ?s" "y \<in> set (revisions d)" "x = demote i y"
      | (right) y where "x = ?s" "y \<in> set (revisions d)" "c = demote i y"
      | (old) y z where "y \<in> set (revisions d)" "z \<in> set (revisions d)" "c = demote i y" "x = demote i z"
      using cx unfolding mem by blast
    then show ?thesis
    proof cases
      case (old y z)
      then show ?thesis using revs_max [OF ok old(1) _ old(2)] eq cur by simp
    qed (use eq s cur in \<open>auto dest!: le\<close>)
  qed
  moreover have "\<exists>c\<in>set (revisions d'). r_bundle c = r_bundle r \<and> r_current c"
    if r: "r \<in> set (revisions d')" for r
  proof (cases "r_bundle r = i")
    case True
    then show ?thesis using s by (auto simp: mem)
  next
    case False
    then obtain y where y: "y \<in> set (revisions d)" "r_bundle y = r_bundle r"
      using r s by (auto simp: mem)
    then obtain c where "c \<in> set (revisions d)" "r_bundle c = r_bundle r" "r_current c"
      using revs_has_current [OF ok y(1)] by auto
    then show ?thesis using False by (intro bexI [of _ "demote i c"]) (auto simp: mem)
  qed
  ultimately show ?thesis unfolding revs_ok_def using ids by blast
qed

lemma successor_current:
  assumes ok: "revs_ok d"
    and revs: "revisions d' = map (demote i) (revisions d) @ [successor d i sid dig q]"
  shows "current_revision d' i = Some (successor d i sid dig q)"
  by (rule current_unique [OF revs_ok_successor [OF assms]]) (simp_all add: revs successor_def)

section \<open>What a successful call did\<close>

lemma insert_bundle_other [simp]:
  "revisions (fst (insert_bundle q d)) = revisions d" "operations (fst (insert_bundle q d)) = operations d"
  by (simp_all add: insert_bundle_def split: option.splits)

lemma resolve_bundle_other:
  "resolve_bundle j q d = Inr (d0, b, c) \<Longrightarrow> revisions d0 = revisions d \<and> operations d0 = operations d"
  using insert_bundle_other [of q d]
  by (cases "insert_bundle q d") (auto simp: resolve_bundle_def split: option.splits)

text \<open>Resolving the bundle again finds the same row.\<close>

lemma resolve_bundle_again:
  assumes "resolve_bundle j q d = Inr (d0, b, c)" and "bundles d' = bundles d0"
  shows "resolve_bundle j q d' = Inr (d', b, False)"
proof (cases j)
  case None
  then have "active_bundle d0 (q_key q) = Some b"
    using assms(1) by (auto simp: resolve_bundle_def Let_def split: option.splits prod.splits)
  then have "active_bundle d' (q_key q) = Some b" by (simp add: active_bundle_def assms(2))
  then show ?thesis by (simp add: resolve_bundle_def None insert_bundle_def)
qed (use assms in \<open>auto simp: resolve_bundle_def split: option.splits\<close>)

text \<open>
  A call that returns either found its content current, or wrote a successor of the database in
  which the bundle row was resolved.
\<close>

definition rev_digest :: "(json \<Rightarrow> ustr) \<Rightarrow> revision_request \<Rightarrow> norm_op list \<Rightarrow> ustr" where
  "rev_digest sha q ops = digest sha (revision_content q ops)"

lemma write_successor_open:
  "write_successor std rp sha b c q ops d = Inr (d', w) \<Longrightarrow> b_state b \<in> open_states"
  by (auto simp: write_successor_def Let_def split: option.splits prod.splits if_splits)

lemma put_revision_cases:
  assumes "put_revision std rp sha j q d = Inr (d', w)"
  obtains (found) ops d0 b c cur where
      "rmap normalize_operation (q_operations q) = Inr ops" "resolve_bundle j q d = Inr (d0, b, c)"
      "current_revision d0 (b_id b) = Some cur" "r_digest cur = rev_digest sha q ops"
      "d' = d0" "w = \<lparr>w_bundle = b_id b, w_revision = r_id cur, w_created_bundle = c, w_created_revision = False\<rparr>"
    | (wrote) ops d0 b c where
      "rmap normalize_operation (q_operations q) = Inr ops" "resolve_bundle j q d = Inr (d0, b, c)"
      "b_state b \<in> open_states" "write_successor std rp sha b c q ops d0 = Inr (d', w)"
      "\<forall>cur. current_revision d0 (b_id b) = Some cur \<longrightarrow> r_digest cur \<noteq> rev_digest sha q ops"
  using assms unfolding put_revision_def rev_digest_def
  by (auto simp: rbind_eq_Inr Let_def write_successor_open split: if_splits option.splits prod.splits)

text \<open>The guards that \<open>put_revision\<close> passes depend on the request and the resolved row only.\<close>

lemma put_revision_found:
  assumes "put_revision std rp sha j q d = Inr (d1, w1)"
    and "rmap normalize_operation (q_operations q) = Inr ops" and "resolve_bundle j q d = Inr (d0, b, c)"
    and "resolve_bundle j q d' = Inr (d', b, False)"
    and "current_revision d' (b_id b) = Some cur" and "r_digest cur = rev_digest sha q ops"
  shows "put_revision std rp sha j q d' =
    Inr (d', \<lparr>w_bundle = b_id b, w_revision = r_id cur, w_created_bundle = False, w_created_revision = False\<rparr>)"
  using assms unfolding put_revision_def rev_digest_def
  by (auto simp: Let_def split: if_splits)

lemma put_revision_result:
  assumes ok: "revs_ok d" and put: "put_revision std rp sha j q d = Inr (d', w)"
  obtains ops d0 b c cur where
    "rmap normalize_operation (q_operations q) = Inr ops" "resolve_bundle j q d = Inr (d0, b, c)"
    "bundles d' = bundles d0" "revs_ok d'" "current_revision d' (b_id b) = Some cur"
    "r_digest cur = rev_digest sha q ops" "w_bundle w = b_id b" "w_revision w = r_id cur"
  using put
proof (cases rule: put_revision_cases)
  case (found ops d0 b c cur)
  then show thesis
    using ok resolve_bundle_other [OF found(2)]
    by (intro that [of ops d0 b c cur]) (simp_all add: revs_ok_cong [of d0 d])
next
  case (wrote ops d0 b c)
  have ok0: "revs_ok d0"
    using ok resolve_bundle_other [OF wrote(2)] by (simp add: revs_ok_cong [of d0 d])
  from write_successor_shape [OF ok0 wrote(3)] obtain sid d1 where W:
    "write_successor std rp sha b c q ops d0 = Inr (d1, \<lparr>w_bundle = b_id b,
       w_revision = next_id r_id (revisions d0), w_created_bundle = c, w_created_revision = True\<rparr>)"
    "revisions d1 = map (demote (b_id b)) (revisions d0) @
       [successor d0 (b_id b) sid (digest sha (revision_content q ops)) q]" "bundles d1 = bundles d0" .
  have eq: "d' = d1" "w = \<lparr>w_bundle = b_id b,
       w_revision = next_id r_id (revisions d0), w_created_bundle = c, w_created_revision = True\<rparr>"
    using W(1) wrote(4) by auto
  show thesis
    by (rule that [OF wrote(1,2) _ _ successor_current [OF ok0 W(2), folded eq(1)]])
      (use W(3) revs_ok_successor [OF ok0 W(2)] in \<open>simp_all add: eq rev_digest_def successor_def\<close>)
qed

text \<open>A successful call leaves the revision table well formed, with the content it was given as the
  single current revision of the bundle it names.
\<close>

theorem put_revision_current:
  assumes "revs_ok d" and "put_revision std rp sha j q d = Inr (d', w)"
  shows "revs_ok d'
    \<and> (\<exists>ops cur. rmap normalize_operation (q_operations q) = Inr ops
        \<and> current_revision d' (w_bundle w) = Some cur \<and> r_id cur = w_revision w
        \<and> r_digest cur = digest sha (revision_content q ops)
        \<and> (\<forall>r\<in>set (revisions d'). r_bundle r = w_bundle w \<and> r_current r \<longrightarrow> r = cur))"
  using put_revision_result [OF assms]
proof cases
  case (1 ops d0 b c cur)
  then show ?thesis
    using current_unique [OF 1(4)] by (intro conjI exI [of _ ops] exI [of _ cur]) (auto simp: rev_digest_def)
qed

text \<open>\<open>put_revision\<close> is idempotent: repeating a successful call on the database that it left returns
  the same bundle and revision, reports that it created neither, and changes nothing.
\<close>

theorem put_revision_idempotent:
  assumes "revs_ok d" and "put_revision std rp sha j q d = Inr (d', w)"
  shows "put_revision std rp sha j q d' =
    Inr (d', w\<lparr>w_created_bundle := False, w_created_revision := False\<rparr>)"
  using put_revision_result [OF assms]
proof cases
  case (1 ops d0 b c cur)
  have "put_revision std rp sha j q d' =
    Inr (d', \<lparr>w_bundle = b_id b, w_revision = r_id cur, w_created_bundle = False, w_created_revision = False\<rparr>)"
    by (rule put_revision_found [OF assms(2) 1(1,2) resolve_bundle_again [OF 1(2,3)] 1(5,6)])
  then show ?thesis using 1(7,8) by (cases w) simp
qed

section \<open>Decisions\<close>

lemma bucket_get_update:
  "bucket_get (AList.update k cs bs) k' = (if k' = k then cs else bucket_get bs k')"
  by (simp add: bucket_get_def update_conv)

lemma carry_length: "length (carry_decisions carried ns) = length ns"
  by (induction ns arbitrary: carried) (auto split: list.splits)

lemma carry_per_content:
  "map snd (filter (\<lambda>(n, c). canon (norm_content n) = k) (zip ns (carry_decisions carried ns))) =
     (let m = length (filter (\<lambda>n. canon (norm_content n) = k) ns)
      in take m (bucket_get carried k @ replicate m D_PENDING))"
proof (induction ns arbitrary: carried)
  case (Cons n ns)
  show ?case
  proof (cases "bucket_get carried (canon (norm_content n))")
    case Nil
    then show ?thesis using Cons [of carried] by (auto simp: Let_def)
  next
    case (Cons c cs)
    then show ?thesis
      using Cons.IH [of "AList.update (canon (norm_content n)) cs carried"]
      by (auto simp: Let_def bucket_get_update replicate_append_same)
  qed
qed simp

lemma new_operations_content:
  "map persisted_operation_content (new_operations d rid sid ns (carry_decisions b ns)) = map norm_content ns"
  "map o_decision (new_operations d rid sid ns (carry_decisions b ns)) = carry_decisions b ns"
  "map o_seq (new_operations d rid sid ns (carry_decisions b ns)) = [0..<length ns]"
  by (auto simp: new_operations_def new_operation_def persisted_operation_content_def norm_content_def
      carry_length intro!: nth_equalityI)

text \<open>The operations of a fresh revision are the new ones, in their order.\<close>

lemma operations_of_new:
  assumes ops: "operations d' = operations d @ new_operations d rid sid ns (carry_decisions b ns)"
    and fresh: "\<forall>op\<in>set (operations d). o_revision op \<noteq> rid"
  shows "operations_of d' rid = new_operations d rid sid ns (carry_decisions b ns)"
proof -
  let ?new = "new_operations d rid sid ns (carry_decisions b ns)"
  have mine: "o_revision op = rid" if "op \<in> set ?new" for op
    using that by (auto simp: new_operations_def new_operation_def)
  have "filter (\<lambda>op. o_revision op = rid) (operations d') = filter (\<lambda>op. o_revision op = rid) ?new"
    using fresh by (simp add: ops)
  also have "\<dots> = ?new" using mine by (simp add: filter_id_conv)
  moreover have "sorted (map o_seq ?new)" by (simp only: new_operations_content sorted_upt)
  ultimately show ?thesis by (simp add: operations_of_def sort_key_sorted)
qed

definition content_key :: "operation \<Rightarrow> json" where
  "content_key op = canon (persisted_operation_content op)"

lemma new_operations_decisions:
  "map o_decision (filter (\<lambda>op. content_key op = k) (new_operations d rid sid ns (carry_decisions b ns))) =
     map snd (filter (\<lambda>(n, c). canon (norm_content n) = k) (zip ns (carry_decisions b ns)))"
  (is "map _ (filter _ ?new) = _")
proof -
  let ?f = "\<lambda>op. (persisted_operation_content op, o_decision op)"
  let ?g = "\<lambda>(n, c). (norm_content n, c)"
  have "map ?f ?new = zip (map persisted_operation_content ?new) (map o_decision ?new)"
    by (induction ?new) (simp_all add: zip_map_map zip_same_conv_map o_def)
  also have "\<dots> = map ?g (zip ns (carry_decisions b ns))"
    by (simp only: new_operations_content) (simp add: zip_map1)
  finally have "map snd (filter (\<lambda>x. canon (fst x) = k) (map ?f ?new)) =
      map snd (filter (\<lambda>x. canon (fst x) = k) (map ?g (zip ns (carry_decisions b ns))))" by simp
  then show ?thesis by (simp add: filter_map o_def content_key_def case_prod_unfold)
qed

text \<open>C31. Decisions survive a new revision: among the operations of the revision that a call created,
  those with a given content get, in order, the decisions of the operations with the same content
  in the revision that was current before, and start as pending once these are used up.
\<close>

theorem put_revision_carries_decisions:
  assumes ok: "revs_ok d" and fks: "\<forall>op\<in>set (operations d). o_revision op \<in> r_id ` set (revisions d)"
    and put: "put_revision std rp sha j q d = Inr (d', w)" and created: "w_created_revision w"
  shows "let new = filter (\<lambda>op. content_key op = k) (operations_of d' (w_revision w));
             old = (case current_revision d (w_bundle w) of None \<Rightarrow> []
                    | Some r \<Rightarrow> filter (\<lambda>op. content_key op = k) (operations_of d (r_id r)))
         in map o_decision new = take (length new) (map o_decision old @ replicate (length new) D_PENDING)"
  using put
proof (cases rule: put_revision_cases)
  case (found ops d0 b c cur)
  then show ?thesis using created by simp
next
  case (wrote ns d0 b c)
  have same: "revisions d0 = revisions d" "operations d0 = operations d"
    using resolve_bundle_other [OF wrote(2)] by simp_all
  have ok0: "revs_ok d0" using ok same by (simp add: revs_ok_cong [of d0 d])
  let ?n = "next_id r_id (revisions d)" and ?i = "b_id b"
  let ?b = "carried_decisions d0 (current_revision d0 ?i)"
  from write_successor_shape [OF ok0 wrote(3)] obtain sid d1 where W:
    "write_successor std rp sha b c q ns d0 = Inr (d1, \<lparr>w_bundle = ?i,
       w_revision = next_id r_id (revisions d0), w_created_bundle = c, w_created_revision = True\<rparr>)"
    "operations d1 = operations d0 @ new_operations d0 (next_id r_id (revisions d0)) sid ns
       (carry_decisions ?b ns)" .
  have eq: "d' = d1" "w_bundle w = ?i" "w_revision w = ?n" using W(1) wrote(4) same by auto
  have "o_revision op \<noteq> ?n" if "op \<in> set (operations d)" for op
    using fks that next_id_fresh [of _ "revisions d" r_id] by fastforce
  then have new: "operations_of d' ?n = new_operations d0 ?n sid ns (carry_decisions ?b ns)"
    by (intro operations_of_new) (use W(2) in \<open>simp_all add: eq same\<close>)
  define old where "old = (case current_revision d ?i of None \<Rightarrow> []
     | Some r \<Rightarrow> filter (\<lambda>op. content_key op = k) (operations_of d (r_id r)))"
  have got: "bucket_get ?b k = map o_decision old"
    by (simp add: old_def carried_decisions_def current_revision_def operations_of_def same
        bucket_all_get content_key_def split: option.splits)
  let ?new = "filter (\<lambda>op. content_key op = k) (operations_of d' ?n)"
  define m where "m = length (filter (\<lambda>n. canon (norm_content n) = k) ns)"
  have dec: "map o_decision ?new = take m (map o_decision old @ replicate m D_PENDING)"
    unfolding new new_operations_decisions carry_per_content got by (simp add: m_def Let_def)
  have "length (map o_decision ?new) = m" unfolding dec by simp
  then have "length ?new = m" by simp
  then show ?thesis unfolding eq(2,3) Let_def old_def [symmetric] using dec by simp
qed

end
