(* ===== verification/ReviewTasks.thy ===== *)
theory ReviewTasks
  imports ReviewRevisionProperties
begin

text \<open>
  Task attempts, user decisions and skipping (\<open>pipeline/reviews.py\<close>), and the two routines of the job
  queue that close the attempts of a job (\<open>jobs/queue.py\<close>). An operation returns the new database
  or the exception with which its caller rolls the transaction back; values that are only shown to
  a client are left out.
\<close>

section \<open>Attempts\<close>

definition attempts_for :: "db \<Rightarrow> int \<Rightarrow> ustr \<Rightarrow> ustr \<Rightarrow> attempt list" where
  "attempts_for d i kind item = filter (\<lambda>t. t_bundle t = i \<and> t_kind t = kind \<and> t_item t = item) (attempts d)"

text \<open>\<open>ORDER BY attempt_no DESC LIMIT 1\<close> and \<open>max(attempt_no)\<close>.\<close>

definition latest_attempt :: "db \<Rightarrow> int \<Rightarrow> ustr \<Rightarrow> ustr \<Rightarrow> attempt option" where
  "latest_attempt d i kind item =
     (case rev (sort_key t_no (attempts_for d i kind item)) of [] \<Rightarrow> None | t # _ \<Rightarrow> Some t)"

definition last_attempt_no :: "db \<Rightarrow> int \<Rightarrow> ustr \<Rightarrow> ustr \<Rightarrow> nat" where
  "last_attempt_no d i kind item = fold max (map t_no (attempts_for d i kind item)) 0"

definition new_attempt ::
  "db \<Rightarrow> int \<Rightarrow> int \<Rightarrow> int option \<Rightarrow> ustr \<Rightarrow> ustr \<Rightarrow> nat \<Rightarrow> task_state \<Rightarrow> attempt" where
  "new_attempt d i rid jid kind item n s =
     \<lparr>t_id = next_id t_id (attempts d), t_bundle = i, t_revision = Some rid, t_job = jid, t_kind = kind,
      t_item = item, t_state = s, t_no = n, t_result = JNull, t_error = None\<rparr>"

definition add_attempt :: "attempt \<Rightarrow> db \<Rightarrow> db" where
  "add_attempt t d = d\<lparr>attempts := attempts d @ [t]\<rparr>"

text \<open>The checks that \<open>plan_task_attempt\<close> and \<open>start_task_attempt\<close> open with.\<close>

definition open_for_tasks :: "int \<Rightarrow> db \<Rightarrow> review_exc + revision" where
  "open_for_tasks i d =
     (case find_row b_id i (bundles d) of
        None \<Rightarrow> Inl (Invariant ''review bundle not found'')
      | Some b \<Rightarrow>
          if b_state b \<notin> open_states then Inl (Invariant ''review bundle is not open for enrichment'')
          else (case current_revision d i of
                  None \<Rightarrow> Inl (Invariant ''review bundle has no current revision'')
                | Some r \<Rightarrow> Inr r))"

definition plan_task_attempt ::
  "pystd \<Rightarrow> pyrepr \<Rightarrow> int \<Rightarrow> ustr \<Rightarrow> ustr \<Rightarrow> int \<Rightarrow> db \<Rightarrow> review_exc + (db \<times> attempt)" where
  "plan_task_attempt std rp i kind item jid d =
     rbind (open_for_tasks i d) (\<lambda>current.
       let latest = latest_attempt d i kind item;
           n = (case latest of None \<Rightarrow> 0 | Some t \<Rightarrow> t_no t);
           t = new_attempt d i (r_id current) (Some jid) kind item (n + 1) T_PENDING;
           write = Inr (refresh_inbox_entry std rp i (add_attempt t d), t)
       in case latest of
            None \<Rightarrow> write
          | Some l \<Rightarrow>
              if active_task (t_state l)
              then if t_job l = Some jid then Inr (d, l)
                   else Inl (Invariant ''task is already active'')
              else write)"

definition planned_attempt :: "db \<Rightarrow> int \<Rightarrow> ustr \<Rightarrow> ustr \<Rightarrow> int option \<Rightarrow> attempt option" where
  "planned_attempt d i kind item jid =
     (case jid of
        None \<Rightarrow> None
      | Some j \<Rightarrow> find (\<lambda>t. t_job t = Some j \<and> t_state t = T_PENDING) (attempts_for d i kind item))"

definition start_task_attempt ::
  "pystd \<Rightarrow> pyrepr \<Rightarrow> int \<Rightarrow> ustr \<Rightarrow> ustr \<Rightarrow> int option \<Rightarrow> db \<Rightarrow> review_exc + (db \<times> attempt)" where
  "start_task_attempt std rp i kind item jid d =
     rbind (open_for_tasks i d) (\<lambda>current.
       case planned_attempt d i kind item jid of
         Some p \<Rightarrow>
           Inr (refresh_inbox_entry std rp i
             (d\<lparr>attempts := update_where (\<lambda>t. t_id t = t_id p) (\<lambda>t. t\<lparr>t_state := T_RUNNING\<rparr>) (attempts d)\<rparr>),
             p\<lparr>t_state := T_RUNNING\<rparr>)
       | None \<Rightarrow>
           let t = new_attempt d i (r_id current) jid kind item (last_attempt_no d i kind item + 1) T_RUNNING
           in Inr (refresh_inbox_entry std rp i (add_attempt t d), t))"

section \<open>The bundle state that follows from its attempts\<close>

definition task_failures :: "db \<Rightarrow> int \<Rightarrow> attempt list" where
  "task_failures d i = filter (\<lambda>t. failed_task (t_state t)) (latest_task_attempts d i)"

definition failure_message :: "attempt list \<Rightarrow> ustr" where
  "failure_message ts =
     (case find (\<lambda>t. some_text (t_error t)) ts of
        None \<Rightarrow> U ''optional task failed'' | Some t \<Rightarrow> the (t_error t))"

definition flush_outcome :: "int \<Rightarrow> bundle_state \<Rightarrow> ustr option \<Rightarrow> db \<Rightarrow> review_exc + db" where
  "flush_outcome i s e d = rbind (flush_state i s d) (\<lambda>d'. Inr (set_bundle_error i e d'))"

definition refresh_bundle_task_state :: "int \<Rightarrow> db \<Rightarrow> review_exc + db" where
  "refresh_bundle_task_state i d =
     (case find_row b_id i (bundles d) of
        None \<Rightarrow> Inr d
      | Some b \<Rightarrow>
          if b_state b = DISCARDED then Inr d
          else if task_failures d i \<noteq> []
          then flush_outcome i NEEDS_ATTENTION (Some (failure_message (task_failures d i))) d
          else if b_state b \<in> open_states then flush_outcome i READY None d
          else Inr d)"

text \<open>The attempt is the row that the caller loaded; its bundle is \<open>attempt.review_bundle\<close>.\<close>

definition finish_task_attempt ::
  "pystd \<Rightarrow> pyrepr \<Rightarrow> attempt \<Rightarrow> task_state \<Rightarrow> json \<Rightarrow> ustr option \<Rightarrow> db \<Rightarrow> review_exc + db" where
  "finish_task_attempt std rp t s result e d =
     (if s \<notin> finished_task_states then Inl (Invariant ''unsupported task attempt state'')
      else
        let d1 = d\<lparr>attempts := update_where (\<lambda>x. t_id x = t_id t)
              (\<lambda>x. x\<lparr>t_state := s, t_result := canon result, t_error := e\<rparr>) (attempts d)\<rparr>
        in rbind (refresh_bundle_task_state (t_bundle t) d1) (\<lambda>d2.
             Inr (refresh_inbox_entry std rp (t_bundle t) d2)))"

section \<open>Closing the attempts of a job\<close>

definition refresh_review_task_state :: "pystd \<Rightarrow> pyrepr \<Rightarrow> int \<Rightarrow> db \<Rightarrow> review_exc + db" where
  "refresh_review_task_state std rp i d =
     (case find_row b_id i (bundles d) of
        None \<Rightarrow> Inr d
      | Some b \<Rightarrow>
          if b_state b \<notin> open_states then Inr d
          else rbind (if task_failures d i \<noteq> []
                      then flush_outcome i NEEDS_ATTENTION (Some (failure_message (task_failures d i))) d
                      else flush_outcome i READY None d)
                 (\<lambda>d'. Inr (refresh_inbox_entry std rp i d')))"

fun refresh_all :: "pystd \<Rightarrow> pyrepr \<Rightarrow> int list \<Rightarrow> db \<Rightarrow> review_exc + db" where
  "refresh_all std rp [] d = Inr d"
| "refresh_all std rp (i # is) d = rbind (refresh_review_task_state std rp i d) (refresh_all std rp is)"

definition active_of_job :: "int \<Rightarrow> attempt \<Rightarrow> bool" where
  "active_of_job jid t \<longleftrightarrow> t_job t = Some jid \<and> active_task (t_state t)"

text \<open>
  The bundles of the closed attempts form a Python set; its elements are visited in the order of
  their first attempt here.
\<close>

definition finish_active_review_tasks ::
  "pystd \<Rightarrow> pyrepr \<Rightarrow> int \<Rightarrow> task_state \<Rightarrow> ustr option \<Rightarrow> db \<Rightarrow> review_exc + db" where
  "finish_active_review_tasks std rp jid s e d =
     (let ids = remdups (map t_bundle (filter (active_of_job jid) (attempts d)));
          d1 = d\<lparr>attempts := update_where (active_of_job jid) (\<lambda>t. t\<lparr>t_state := s, t_error := e\<rparr>) (attempts d)\<rparr>
      in refresh_all std rp ids d1)"

section \<open>Decisions\<close>

definition decision_of :: "ustr \<Rightarrow> decision option" where
  "decision_of s =
     (if s = U ''pending'' then Some D_PENDING else if s = U ''accepted'' then Some D_ACCEPTED
      else if s = U ''rejected'' then Some D_REJECTED else None)"

text \<open>The first loop: supported values, no operation twice.\<close>

fun check_decisions :: "(int \<times> ustr) list \<Rightarrow> int set \<Rightarrow> review_exc + (int \<times> decision) list" where
  "check_decisions [] seen = Inr []"
| "check_decisions ((oid, s) # ds) seen =
     (case decision_of s of
        None \<Rightarrow> Inl (Invariant ''unsupported review decision'')
      | Some c \<Rightarrow>
          if oid \<in> seen then Inl (Invariant ''operation has multiple decisions'')
          else rbind (check_decisions ds (insert oid seen)) (\<lambda>rest. Inr ((oid, c) # rest)))"

definition next_decision :: "(int \<times> decision) list \<Rightarrow> operation \<Rightarrow> decision" where
  "next_decision ds op = (case map_of ds (o_id op) of None \<Rightarrow> o_decision op | Some c \<Rightarrow> c)"

definition accepted_grouping :: "(int \<times> decision) list \<Rightarrow> operation list \<Rightarrow> operation list" where
  "accepted_grouping ds ops =
     filter (\<lambda>op. o_kind op = GROUPING_CORRECTION \<and> next_decision ds op = D_ACCEPTED) ops"

definition check_grouping :: "(int \<times> decision) list \<Rightarrow> operation list \<Rightarrow> review_exc + unit" where
  "check_grouping ds ops =
     (if \<exists>op\<in>set (accepted_grouping ds ops). \<not> equals_true (jget (o_validation op) (U ''compatible''))
      then Inl (Invariant ''incompatible grouping correction cannot be accepted'')
      else if \<not> distinct (map o_target (accepted_grouping ds ops))
      then Inl (Invariant ''choose only one grouping correction for each track'')
      else Inr ())"

text \<open>
  One conditional \<open>UPDATE\<close>: the operation must belong to the revision and the revision be current; the
  trigger \<open>operations_decision_mutable_current\<close> freezes the decisions of a bundle that is not open.
\<close>

definition update_decision :: "int \<Rightarrow> int \<Rightarrow> int \<times> decision \<Rightarrow> db \<Rightarrow> review_exc + db" where
  "update_decision i rid dec d =
     (let hit = (\<lambda>op. o_id op = fst dec \<and> o_revision op = rid \<and>
            (case current_revision d i of None \<Rightarrow> False | Some r \<Rightarrow> r_id r = rid))
      in if \<not> (\<exists>op\<in>set (operations d). hit op)
         then Inl (Invariant ''review revision changed; reload and retry'')
         else if (case find_row b_id i (bundles d) of None \<Rightarrow> True | Some b \<Rightarrow> b_state b \<notin> open_states)
         then Inl (DbAbort ''operation decision is frozen'')
         else Inr (d\<lparr>operations := update_where hit (\<lambda>op. op\<lparr>o_decision := snd dec\<rparr>) (operations d)\<rparr>))"

fun update_decisions :: "int \<Rightarrow> int \<Rightarrow> (int \<times> decision) list \<Rightarrow> db \<Rightarrow> review_exc + db" where
  "update_decisions i rid [] d = Inr d"
| "update_decisions i rid (c # cs) d = rbind (update_decision i rid c d) (update_decisions i rid cs)"

definition reopen_if_discarded :: "pystd \<Rightarrow> pyrepr \<Rightarrow> review_bundle \<Rightarrow> db \<Rightarrow> review_exc + db" where
  "reopen_if_discarded std rp b d =
     (if b_state b = DISCARDED
      then transition_bundle std rp (b_id b)
        (if task_failures d (b_id b) \<noteq> [] then NEEDS_ATTENTION else READY) d
      else Inr d)"

definition revision_operations :: "db \<Rightarrow> int \<Rightarrow> operation list" where
  "revision_operations d rid = filter (\<lambda>op. o_revision op = rid) (operations d)"

definition discard_if_rejected :: "pystd \<Rightarrow> pyrepr \<Rightarrow> int \<Rightarrow> int \<Rightarrow> db \<Rightarrow> review_exc + db" where
  "discard_if_rejected std rp i rid d =
     (if \<exists>op\<in>set (revision_operations d rid). o_decision op \<noteq> D_REJECTED then Inr d
      else transition_bundle std rp i DISCARDED d)"

definition apply_operation_decisions ::
  "pystd \<Rightarrow> pyrepr \<Rightarrow> int \<Rightarrow> int \<Rightarrow> (int \<times> ustr) list \<Rightarrow> db \<Rightarrow> review_exc + db" where
  "apply_operation_decisions std rp i rid decisions d =
     (case find_row b_id i (bundles d) of
        None \<Rightarrow> Inl (Invariant ''review bundle not found'')
      | Some b \<Rightarrow>
          if b_state b \<notin> open_states \<union> {DISCARDED} then Inl (Invariant ''review bundle is not editable'')
          else if decisions = [] then Inl (Invariant ''at least one review decision is required'')
          else rbind (check_decisions decisions {}) (\<lambda>ds.
            if \<not> fst ` set ds \<subseteq> o_id ` set (revision_operations d rid)
            then Inl (Invariant ''operation is not in the requested review revision'')
            else if (case current_revision d i of None \<Rightarrow> True | Some r \<Rightarrow> r_id r \<noteq> rid)
            then Inl (Invariant ''review revision changed; reload and retry'')
            else rbind (check_grouping ds (revision_operations d rid)) (\<lambda>_.
                 rbind (reopen_if_discarded std rp b d) (\<lambda>d1.
                 rbind (update_decisions i rid ds d1) (\<lambda>d2.
                 rbind (discard_if_rejected std rp i rid d2) (\<lambda>d3.
                   Inr (refresh_inbox_entry std rp i d3)))))))"

section \<open>Skipping\<close>

definition skipped_snapshot :: json where
  "skipped_snapshot =
     JObj [(U ''confidence_band'', JStr (U ''skipped'')), (U ''resolution'', JStr (U ''skipped'')),
           (U ''band'', JStr (U ''skipped''))]"

definition skipped_explanation :: "revision \<Rightarrow> json" where
  "skipped_explanation r =
     (let base = JObj [(U ''outcome'', JStr (U ''skipped'')), (U ''band'', JStr (U ''skipped'')),
            (U ''resolution'', JStr (U ''explicit_skip''))];
          prov = jget (r_explanation r) (U ''provider_outcomes'')
      in if truthy (r_explanation r) \<and> is_dict (r_explanation r) \<and> truthy prov
         then jset (U ''provider_outcomes'') prov base else base)"

definition skip_request :: "review_bundle \<Rightarrow> revision \<Rightarrow> json \<Rightarrow> revision_request" where
  "skip_request b r payload =
     \<lparr>q_key = b_key b, q_title = b_title b, q_scope_type = b_scope_type b, q_scope_id = b_scope_id b,
      q_snapshot = payload, q_operations = [], q_source = None, q_ref = None,
      q_candidate = skipped_snapshot, q_explanation = skipped_explanation r, q_confidence = None\<rparr>"

definition skipped_text :: ustr where
  "skipped_text = U ''Skipped '' @ [8212] @ U '' Leave unchanged''"

definition skip_review_bundle ::
  "pystd \<Rightarrow> pyrepr \<Rightarrow> (json \<Rightarrow> ustr) \<Rightarrow> int \<Rightarrow> int \<Rightarrow> db \<Rightarrow> review_exc + db" where
  "skip_review_bundle std rp sha i rid d =
     (case find_row b_id i (bundles d) of
        None \<Rightarrow> Inl (Invariant ''review bundle not found'')
      | Some b \<Rightarrow>
          if b_state b \<notin> open_states
          then Inl (Invariant ''review bundle is not skippable in its current state'')
          else
            (case current_revision d i of
               None \<Rightarrow> Inl (Invariant ''review revision changed; reload and retry'')
             | Some r \<Rightarrow>
                 if r_id r \<noteq> rid then Inl (Invariant ''review revision changed; reload and retry'')
                 else if \<not> is_dict (snapshot_payload d r)
                 then Inl (Invariant ''source snapshot payload is invalid'')
                 else
                   rbind (put_revision std rp sha (Some i) (skip_request b r (snapshot_payload d r)) d)
                     (\<lambda>(d1, _). rbind (transition_bundle std rp i DISCARDED d1) (\<lambda>d2.
                        Inr (refresh_inbox_entry std rp i (set_bundle_error i (Some skipped_text) d2))))))"

end
