(* ===== verification/ReviewApply.thy ===== *)
theory ReviewApply
  imports ReviewTasks
begin

text \<open>
  The start of an apply run (\<open>start_apply_run\<close> of \<open>pipeline/reviews.py\<close>): what is checked of the
  accepted operations and of the source snapshot, the manifest of the run, and the insertion that
  freezes the review. Execution sources are given by a retry; their map is an association list.
\<close>

text \<open>\<open>SELECT ... WHERE state IN ('pending', 'running') ORDER BY kind, item_key, attempt_no\<close>.\<close>

definition active_tasks :: "db \<Rightarrow> int \<Rightarrow> (ustr \<times> ustr \<times> task_state) list" where
  "active_tasks d i =
     map (\<lambda>t. (t_kind t, t_item t, t_state t))
       (sort_key (\<lambda>t. (t_kind t, t_item t, t_no t)) (filter (\<lambda>t. active_task (t_state t)) (attempts_of d i)))"

definition accepted_operations :: "db \<Rightarrow> revision \<Rightarrow> operation list" where
  "accepted_operations d r = filter (\<lambda>op. o_decision op = D_ACCEPTED) (operations_of d (r_id r))"

definition check_grouping_run :: "operation list \<Rightarrow> review_exc + unit" where
  "check_grouping_run accepted =
     (let grouping = filter (\<lambda>op. o_kind op = GROUPING_CORRECTION) accepted in
      if grouping = [] then Inr ()
      else if length grouping \<noteq> length accepted
      then Inl (Invariant ''grouping corrections cannot be mixed with file operations in one apply run'')
      else if \<not> distinct (map o_target grouping)
      then Inl (Invariant ''choose only one grouping correction for each track'')
      else Inr ())"

text \<open>\<open>{item.track_id: item for item in ...}\<close>, whose ids are distinct.\<close>

definition item_of :: "snapshot_item list \<Rightarrow> int \<Rightarrow> snapshot_item option" where
  "item_of items tid = find (\<lambda>it. si_track it = tid) items"

definition complete_item :: "snapshot_item \<Rightarrow> bool" where
  "complete_item it \<longleftrightarrow>
     si_path it \<noteq> None \<and> si_size it \<noteq> None \<and> si_mtime it \<noteq> None \<and> si_hash it \<noteq> None \<and> si_guard it \<noteq> JNull"

definition check_target :: "snapshot_item list \<Rightarrow> operation \<Rightarrow> review_exc + unit" where
  "check_target items op =
     (if o_target_type op \<noteq> U ''track'' \<or> o_target op \<le> 0
      then Inl (Invariant ''accepted operation has an unsupported track target'')
      else if o_kind op \<in> physical_mutation_kinds \<and>
        (case item_of items (o_target op) of None \<Rightarrow> True | Some it \<Rightarrow> \<not> complete_item it)
      then Inl (Invariant ''stale_source: accepted file operation lacks complete preview evidence'')
      else Inr ())"

definition operations_by_track :: "operation list \<Rightarrow> (int \<times> int list) list" where
  "operations_by_track accepted = sort_key fst (bucket_all o_target o_id accepted)"

text \<open>The guard on a retried run.\<close>

definition latest_run :: "db \<Rightarrow> int \<Rightarrow> apply_run option" where
  "latest_run d i =
     (case rev (sort_key a_id (filter (\<lambda>a. a_bundle a = i) (apply_runs d))) of [] \<Rightarrow> None | a # _ \<Rightarrow> Some a)"

definition check_retry :: "db \<Rightarrow> int \<Rightarrow> revision \<Rightarrow> int option \<Rightarrow> review_exc + unit" where
  "check_retry d i r retry =
     (case retry of
        None \<Rightarrow> Inr ()
      | Some rid \<Rightarrow>
          (case find_row a_id rid (apply_runs d) of
             None \<Rightarrow> Inl (Invariant ''stale_source: retry checkpoint is not a completed rollback'')
           | Some p \<Rightarrow>
               if a_bundle p \<noteq> i \<or> a_revision p \<noteq> r_id r \<or> a_state p \<noteq> RUN_FAILED
                  \<or> (case latest_run d i of None \<Rightarrow> True | Some l \<Rightarrow> a_id l \<noteq> a_id p)
                  \<or> \<not> is_dict (a_result p) \<or> truthy (jget (a_result p) (U ''recovery_required''))
               then Inl (Invariant ''stale_source: retry checkpoint is not a completed rollback'')
               else Inr ()))"

section \<open>The manifest\<close>

definition execution_source ::
  "operation list \<Rightarrow> snapshot_item option \<Rightarrow> (int \<times> json) list \<Rightarrow> int option \<Rightarrow> int \<Rightarrow> review_exc + json" where
  "execution_source accepted source_item sources retry tid =
     (case map_of sources tid of
        None \<Rightarrow> Inr (case source_item of None \<Rightarrow> JObj [] | Some it \<Rightarrow> to_manifest_item it)
      | Some raw \<Rightarrow>
          (case read_source_snapshot_item raw of
             Inl _ \<Rightarrow> Inl (Invariant ''stale_source: invalid retry source'')
           | Inr it \<Rightarrow>
               if si_track it \<noteq> tid
               then Inl (Invariant ''retry source track does not match accepted target'')
               else if (\<exists>op\<in>set accepted. o_target op = tid \<and> o_kind op \<in> physical_mutation_kinds) \<and> \<not> complete_item it
               then Inl (Invariant ''stale_source: retry source is incomplete'')
               else if Some it \<noteq> source_item \<and> retry = None
               then Inl (Invariant ''stale_source: execution source has no rollback provenance'')
               else Inr (to_manifest_item it)))"

definition manifest_file ::
  "operation list \<Rightarrow> snapshot_item list \<Rightarrow> (int \<times> json) list \<Rightarrow> int option \<Rightarrow> int \<times> int list \<Rightarrow> review_exc + json" where
  "manifest_file accepted items sources retry entry =
     (let source_item = item_of items (fst entry);
          payload = (case source_item of None \<Rightarrow> JObj [] | Some it \<Rightarrow> to_manifest_item it)
      in rbind (execution_source accepted source_item sources retry (fst entry)) (\<lambda>exec.
           Inr (JObj [(U ''track_id'', JInt (fst entry)), (U ''source'', canon payload),
                      (U ''execution_source'', canon exec),
                      (U ''operation_ids'', JList (map JInt (snd entry))),
                      (U ''state'', JStr (U ''pending'')), (U ''error'', JNull),
                      (U ''change_set_ids'', JList [])])))"

definition snapshot_digest :: "db \<Rightarrow> revision \<Rightarrow> ustr" where
  "snapshot_digest d r =
     (case find_row sn_id (r_snapshot r) (snapshots d) of None \<Rightarrow> [] | Some s \<Rightarrow> sn_digest s)"

definition run_manifest :: "db \<Rightarrow> revision \<Rightarrow> operation list \<Rightarrow> json list \<Rightarrow> int option \<Rightarrow> json" where
  "run_manifest d r accepted files retry =
     JObj ([(U ''version'', JInt 1), (U ''revision_digest'', JStr (r_digest r)),
            (U ''source_snapshot_digest'', JStr (snapshot_digest d r)),
            (U ''operation_ids'', JList (map (\<lambda>op. JInt (o_id op)) accepted)),
            (U ''files'', JList files)]
           @ (case retry of None \<Rightarrow> [] | Some k \<Rightarrow> [(U ''retry_source_run_id'', JInt k)]))"

section \<open>The run\<close>

definition find_run :: "db \<Rightarrow> int \<Rightarrow> ustr \<Rightarrow> apply_run option" where
  "find_run d i key = find (\<lambda>a. a_bundle a = i \<and> a_key a = key) (apply_runs d)"

definition active_run :: "apply_run \<Rightarrow> bool" where
  "active_run a \<longleftrightarrow> a_state a = RUN_PENDING \<or> a_state a = RUN_APPLYING"

definition new_run :: "db \<Rightarrow> int \<Rightarrow> revision \<Rightarrow> ustr \<Rightarrow> json \<Rightarrow> apply_run" where
  "new_run d i r key manifest =
     \<lparr>a_id = next_id a_id (apply_runs d), a_bundle = i, a_revision = r_id r, a_key = key,
      a_state = RUN_PENDING, a_manifest = manifest, a_result = JNull, a_error = None\<rparr>"

definition attempted :: "apply_run \<Rightarrow> operation list \<Rightarrow> op_attempt list" where
  "attempted run accepted =
     map (\<lambda>op. \<lparr>oa_run = a_id run, oa_operation = o_id op, oa_value = canon (o_proposed op)\<rparr>) accepted"

text \<open>\<open>ON CONFLICT DO NOTHING\<close>: the key of the bundle, or another active run of it.\<close>

definition insert_run ::
  "pystd \<Rightarrow> pyrepr \<Rightarrow> int \<Rightarrow> apply_run \<Rightarrow> operation list \<Rightarrow> db \<Rightarrow> review_exc + (db \<times> apply_run)" where
  "insert_run std rp i run accepted d =
     (if find_run d i (a_key run) \<noteq> None \<or> (\<exists>a\<in>set (apply_runs d). a_bundle a = i \<and> active_run a)
      then (case find_run d i (a_key run) of
              Some a \<Rightarrow> Inr (d, a)
            | None \<Rightarrow> Inl (Invariant ''review bundle already has an active apply run''))
      else
        let d1 = d\<lparr>apply_runs := apply_runs d @ [run], op_attempts := op_attempts d @ attempted run accepted\<rparr>
        in rbind (flush_state i APPLYING d1) (\<lambda>d2. Inr (refresh_inbox_entry std rp i d2, run)))"

text \<open>The checks that come before a stored run is looked at: tasks, accepted operations, targets.\<close>

definition apply_preconditions ::
  "db \<Rightarrow> int \<Rightarrow> revision \<Rightarrow> review_exc + (operation list \<times> snapshot_item list)" where
  "apply_preconditions d i r =
     (let accepted = accepted_operations d r in
      if active_tasks d i \<noteq> [] then Inl (TasksPending (active_tasks d i))
      else if accepted = [] then Inl NoAcceptedOperations
      else rbind (check_grouping_run accepted) (\<lambda>_.
           case read_source_snapshot_items (snapshot_payload d r) of
             Inl e \<Rightarrow> Inl (StaleSource e)
           | Inr items \<Rightarrow>
               rbind (rmap (check_target items) accepted) (\<lambda>_. Inr (accepted, items))))"

definition start_apply_run ::
  "pystd \<Rightarrow> pyrepr \<Rightarrow> int \<Rightarrow> ustr \<Rightarrow> (int \<times> json) list \<Rightarrow> int option \<Rightarrow> db \<Rightarrow>
   review_exc + (db \<times> apply_run)" where
  "start_apply_run std rp i key sources retry d =
     (if strip key = [] then Inl (Invariant ''idempotency_key must not be empty'')
      else
        (case find_row b_id i (bundles d) of
           None \<Rightarrow> Inl (Invariant ''review bundle not found'')
         | Some b \<Rightarrow>
             (case current_revision d i of
                None \<Rightarrow> Inl (Invariant ''review bundle has no current revision'')
              | Some r \<Rightarrow>
                  rbind (apply_preconditions d i r) (\<lambda>(accepted, items).
                    case find_run d i key of
                      Some a \<Rightarrow> Inr (d, a)
                    | None \<Rightarrow>
                        rbind (check_retry d i r retry) (\<lambda>_.
                          case validate_transition (b_state b) APPLYING of
                            Inl (s, t) \<Rightarrow> Inl (InvalidTransition s t)
                          | Inr _ \<Rightarrow>
                              rbind (rmap (manifest_file accepted items sources retry) (operations_by_track accepted))
                                (\<lambda>files. insert_run std rp i
                                   (new_run d i r key (run_manifest d r accepted files retry)) accepted d))))))"

end
