(* ===== verification/BundleProtocol.thy ===== *)
theory BundleProtocol
  imports ReviewApply
begin

text \<open>
  The abstract protocol of the table of review bundles: a step inserts a row in the state
  \<open>PREPARING\<close> under a key that no active row holds, moves one row along an edge that the trigger
  permits, or changes nothing of keys and states. Every operation of the review service refines it.
\<close>

section \<open>The protocol\<close>

definition core :: "review_bundle \<Rightarrow> int \<times> ustr \<times> bundle_state" where
  "core b = (b_id b, b_key b, b_state b)"

definition in_state :: "int \<Rightarrow> bundle_state \<Rightarrow> review_bundle list \<Rightarrow> review_bundle list" where
  "in_state i s = update_where (\<lambda>b. b_id b = i) (\<lambda>b. b\<lparr>b_state := s\<rparr>)"

definition key_taken :: "int \<Rightarrow> ustr \<Rightarrow> review_bundle list \<Rightarrow> bool" where
  "key_taken i key bs \<longleftrightarrow> (\<exists>x\<in>set bs. b_id x \<noteq> i \<and> b_key x = key \<and> b_state x \<in> active_bundle_states)"

inductive bundles_step :: "review_bundle list \<Rightarrow> review_bundle list \<Rightarrow> bool" where
  same: "map core bs' = map core bs \<Longrightarrow> bundles_step bs bs'"
| move: "find_row b_id i bs = Some b \<Longrightarrow> state_trigger_permits (b_state b) s \<Longrightarrow>
     s \<in> active_bundle_states \<Longrightarrow> \<not> key_taken i (b_key b) bs \<Longrightarrow> bundles_step bs (in_state i s bs)"
| close: "find_row b_id i bs = Some b \<Longrightarrow> state_trigger_permits (b_state b) s \<Longrightarrow>
     s \<notin> active_bundle_states \<Longrightarrow> bundles_step bs (in_state i s bs)"
| insert: "b_id b = next_id b_id bs \<Longrightarrow> b_state b = PREPARING \<Longrightarrow>
     \<forall>x\<in>set bs. b_key x = b_key b \<longrightarrow> b_state x \<notin> active_bundle_states \<Longrightarrow> bundles_step bs (bs @ [b])"

inductive_cases bundles_stepE: "bundles_step bs bs'"

abbreviation bundles_steps :: "review_bundle list \<Rightarrow> review_bundle list \<Rightarrow> bool" where
  "bundles_steps \<equiv> bundles_step\<^sup>*\<^sup>*"

definition bundles_ok :: "review_bundle list \<Rightarrow> bool" where
  "bundles_ok bs \<longleftrightarrow> distinct (map b_id bs) \<and>
     (\<forall>b\<in>set bs. \<forall>x\<in>set bs. b_state b \<in> active_bundle_states \<longrightarrow> b_state x \<in> active_bundle_states \<longrightarrow>
        b_key b = b_key x \<longrightarrow> b_id b = b_id x)"

lemma bundles_okD:
  assumes "bundles_ok bs"
  shows bundles_ids: "distinct (map b_id bs)"
    and bundles_key: "b \<in> set bs \<Longrightarrow> x \<in> set bs \<Longrightarrow> b_state b \<in> active_bundle_states \<Longrightarrow>
      b_state x \<in> active_bundle_states \<Longrightarrow> b_key b = b_key x \<Longrightarrow> b_id b = b_id x"
  using assms unfolding bundles_ok_def by blast+

text \<open>Both notions depend on identity, key and state only.\<close>

lemma core_mem: "map core bs' = map core bs \<Longrightarrow> b' \<in> set bs' \<Longrightarrow> \<exists>b\<in>set bs. core b' = core b"
  by (metis image_iff list.set_map)

lemma core_ids: "map core bs' = map core bs \<Longrightarrow> map b_id bs' = map b_id bs"
proof -
  have ids: "map b_id xs = map fst (map core xs)" for xs by (simp add: core_def)
  show "map core bs' = map core bs \<Longrightarrow> map b_id bs' = map b_id bs" unfolding ids by simp
qed

lemma core_bundles_ok:
  assumes same: "map core bs' = map core bs" and ok: "bundles_ok bs"
  shows "bundles_ok bs'"
  unfolding bundles_ok_def
proof (intro conjI ballI impI)
  show "distinct (map b_id bs')" using bundles_ids [OF ok] core_ids [OF same] by simp
  fix b' x' assume "b' \<in> set bs'" "x' \<in> set bs'"
    and act: "b_state b' \<in> active_bundle_states" "b_state x' \<in> active_bundle_states" "b_key b' = b_key x'"
  then obtain b x where b: "b \<in> set bs" "core b' = core b" and x: "x \<in> set bs" "core x' = core x"
    using core_mem [OF same] by blast
  then show "b_id b' = b_id x'"
    using bundles_key [OF ok b(1) x(1)] act by (simp add: core_def)
qed

lemma core_evolves:
  assumes "map core bs' = map core bs"
  shows "evolves transitions b_id b_state bs bs'"
  unfolding evolves_def
proof
  fix b assume "b \<in> set bs"
  then obtain b' where "b' \<in> set bs'" "core b = core b'" using core_mem [OF assms [symmetric]] by blast
  then show "\<exists>b'\<in>set bs'. b_id b' = b_id b \<and> moved transitions (b_state b) (b_state b')"
    by (auto simp: core_def)
qed

lemma in_state_mem:
  "b' \<in> set (in_state i s bs) \<longleftrightarrow> (\<exists>b\<in>set bs. b' = (if b_id b = i then b\<lparr>b_state := s\<rparr> else b))"
  unfolding in_state_def set_update_where image_iff by (rule refl)

lemma in_state_ids [simp]: "map b_id (in_state i s bs) = map b_id bs"
  by (auto simp: in_state_def update_where_keys)

lemma in_state_closed_ok:
  assumes "bundles_ok bs" and "s \<notin> active_bundle_states"
  shows "bundles_ok (in_state i s bs)"
  unfolding bundles_ok_def
proof (intro conjI ballI impI)
  show "distinct (map b_id (in_state i s bs))" using bundles_ids [OF assms(1)] by simp
  fix b' x' assume mem: "b' \<in> set (in_state i s bs)" "x' \<in> set (in_state i s bs)"
    and act: "b_state b' \<in> active_bundle_states" "b_state x' \<in> active_bundle_states" "b_key b' = b_key x'"
  have old: "y \<in> set bs" if "y \<in> set (in_state i s bs)" "b_state y \<in> active_bundle_states" for y
    using that assms(2) unfolding in_state_mem by (auto split: if_splits)
  show "b_id b' = b_id x'" using bundles_key [OF assms(1) old old] mem act by blast
qed

lemma in_state_active_ok:
  assumes ok: "bundles_ok bs" and row: "find_row b_id i bs = Some b" and free: "\<not> key_taken i (b_key b) bs"
  shows "bundles_ok (in_state i s bs)"
  unfolding bundles_ok_def
proof (intro conjI ballI impI)
  show "distinct (map b_id (in_state i s bs))" using bundles_ids [OF ok] by simp
  have only: "y = b" if "y \<in> set bs" "b_id y = i" for y
    using find_row_unique [OF bundles_ids [OF ok] that(1)] row that(2) by simp
  have other: "b_key y \<noteq> b_key b \<or> b_state y \<notin> active_bundle_states" if "y \<in> set bs" "b_id y \<noteq> i" for y
    using free that unfolding key_taken_def by blast
  fix b' x' assume mem: "b' \<in> set (in_state i s bs)" "x' \<in> set (in_state i s bs)"
    and act: "b_state b' \<in> active_bundle_states" "b_state x' \<in> active_bundle_states" "b_key b' = b_key x'"
  obtain y z where y: "y \<in> set bs" "b' = (if b_id y = i then y\<lparr>b_state := s\<rparr> else y)"
    and z: "z \<in> set bs" "x' = (if b_id z = i then z\<lparr>b_state := s\<rparr> else z)"
    using mem unfolding in_state_mem by blast
  show "b_id b' = b_id x'"
  proof (cases "b_id y = i"; cases "b_id z = i")
    assume "b_id y \<noteq> i" "b_id z \<noteq> i"
    then show ?thesis using bundles_key [OF ok y(1) z(1)] act y(2) z(2) by simp
  next
    assume "b_id y = i" "b_id z \<noteq> i"
    then show ?thesis using other [OF z(1)] only [OF y(1)] act y(2) z(2) by simp
  next
    assume "b_id y \<noteq> i" "b_id z = i"
    then show ?thesis using other [OF y(1)] only [OF z(1)] act y(2) z(2) by simp
  qed (use y(2) z(2) in simp)
qed

lemma in_state_evolves:
  assumes ok: "bundles_ok bs" and row: "find_row b_id i bs = Some b" and permits: "state_trigger_permits (b_state b) s"
  shows "evolves transitions b_id b_state bs (in_state i s bs)"
  unfolding in_state_def update_where_def
proof (rule evolves_map)
  fix y assume y: "y \<in> set bs"
  have "y = b" if "b_id y = i" using find_row_unique [OF bundles_ids [OF ok] y] row that by simp
  then show "b_id (if b_id y = i then y\<lparr>b_state := s\<rparr> else y) = b_id y \<and>
      moved transitions (b_state y) (b_state (if b_id y = i then y\<lparr>b_state := s\<rparr> else y))"
    using permits state_trigger_moved by auto
qed

text \<open>A step of the protocol keeps the table well formed and moves rows along the graph.\<close>

lemma bundles_step_ok:
  assumes "bundles_step bs bs'" and "bundles_ok bs"
  shows "bundles_ok bs' \<and> evolves transitions b_id b_state bs bs'"
  using assms
proof cases
  case same
  then show ?thesis using core_bundles_ok core_evolves assms(2) by blast
next
  case (move i b s)
  then show ?thesis using in_state_active_ok in_state_evolves assms(2) by blast
next
  case (close i b s)
  then show ?thesis using in_state_closed_ok in_state_evolves assms(2) by blast
next
  case (insert b)
  have "distinct (map b_id (bs @ [b]))" by (rule distinct_next_id) (use insert assms(2) in \<open>simp_all add: bundles_ok_def\<close>)
  moreover have "bundles_ok bs'" unfolding bundles_ok_def insert(1)
  proof (intro conjI ballI impI)
    fix u v assume mem: "u \<in> set (bs @ [b])" "v \<in> set (bs @ [b])" and act: "b_state u \<in> active_bundle_states"
      "b_state v \<in> active_bundle_states" "b_key u = b_key v"
    show "b_id u = b_id v"
    proof (cases "u = b"; cases "v = b")
      assume "u \<noteq> b" "v \<noteq> b"
      then show ?thesis using bundles_key [OF assms(2) _ _ act] mem by simp
    next
      assume "u = b" "v \<noteq> b"
      then show ?thesis using insert(4) mem(2) act by (metis UnE set_append empty_iff empty_set set_ConsD)
    next
      assume "u \<noteq> b" "v = b"
      then show ?thesis using insert(4) mem(1) act by (metis UnE set_append empty_iff empty_set set_ConsD)
    qed simp
  qed (rule calculation)
  ultimately show ?thesis using insert(1) by (auto intro: evolves_append)
qed

lemma bundles_steps_ok:
  assumes "bundles_steps bs bs'" and "bundles_ok bs"
  shows "bundles_ok bs' \<and> evolved transitions b_id b_state bs bs'"
  using assms
proof (induction rule: rtranclp_induct)
  case (step bs' bs'')
  then show ?case using bundles_step_ok [OF step(2)] evolved_step by blast
qed auto

section \<open>The operations refine it\<close>

lemma set_bundle_error_core: "map core (bundles (set_bundle_error i e d)) = map core (bundles d)"
  by (simp add: set_bundle_error_def update_where_def core_def)

lemma error_steps: "bundles_steps (bundles d) (bundles (set_bundle_error i e d))"
  by (rule r_into_rtranclp, rule bundles_step.same, rule set_bundle_error_core)

lemma state_abort_None:
  assumes "state_abort d b s = None"
  shows "state_trigger_permits (b_state b) s"
    and "s \<in> active_bundle_states \<Longrightarrow> \<not> key_taken (b_id b) (b_key b) (bundles d)"
    and "s \<in> {READY, NEEDS_ATTENTION, APPLYING} \<Longrightarrow> current_revision d (b_id b) \<noteq> None"
  using assms unfolding state_abort_def key_taken_def [symmetric] by (simp_all split: if_split_asm)

lemma flush_state_cases:
  assumes "flush_state i s d = Inr d'"
  obtains (idle) "d' = d"
    | (moved) b where "find_row b_id i (bundles d) = Some b" "state_abort d b s = None" "d' = set_bundle_state i s d"
  using assms by (auto simp: flush_state_def split: option.splits if_split_asm)

lemma flush_state_steps:
  "flush_state i s d = Inr d' \<Longrightarrow> bundles_steps (bundles d) (bundles d')"
proof -
  assume "flush_state i s d = Inr d'"
  have states: "bundles (set_bundle_state i s d) = in_state i s (bundles d)"
    by (simp add: set_bundle_state_def in_state_def)
  from \<open>flush_state i s d = Inr d'\<close> show ?thesis
  proof (cases rule: flush_state_cases)
    case (moved b)
    then have "bundles_step (bundles d) (bundles d')"
      using bundles_step.move [OF moved(1) state_abort_None(1) [OF moved(2)]]
        bundles_step.close [OF moved(1) state_abort_None(1) [OF moved(2)]] states
        state_abort_None(2) [OF moved(2)] find_row_Some [OF moved(1)]
      by (cases "s \<in> active_bundle_states") simp_all
    then show ?thesis by (rule r_into_rtranclp)
  qed simp
qed

lemma flush_state_other:
  assumes "flush_state i s d = Inr d'"
  shows "revisions d' = revisions d \<and> operations d' = operations d \<and> snapshots d' = snapshots d \<and>
    attempts d' = attempts d \<and> apply_runs d' = apply_runs d \<and> jobs d' = jobs d \<and> events d' = events d \<and>
    undo_runs d' = undo_runs d \<and> maintenance d' = maintenance d \<and> inbox d' = inbox d"
  using assms by (cases rule: flush_state_cases) (simp_all add: set_bundle_state_def)

lemma transition_bundle_steps:
  assumes "transition_bundle std rp i s d = Inr d'"
  shows "bundles_steps (bundles d) (bundles d') \<and> revisions d' = revisions d \<and> operations d' = operations d \<and>
    attempts d' = attempts d"
proof -
  obtain d1 where "flush_state i s d = Inr d1" "d' = refresh_inbox_entry std rp i d1"
    using assms by (auto simp: transition_bundle_def rbind_eq_Inr split: option.splits sum.splits if_splits)
  then show ?thesis using flush_state_steps flush_state_other by simp
qed

lemma flush_outcome_steps:
  assumes "flush_outcome i s e d = Inr d'"
  shows "bundles_steps (bundles d) (bundles d') \<and> revisions d' = revisions d \<and> operations d' = operations d \<and>
    attempts d' = attempts d"
proof -
  obtain d1 where d1: "flush_state i s d = Inr d1" "d' = set_bundle_error i e d1"
    using assms by (auto simp: flush_outcome_def rbind_eq_Inr)
  then have "bundles_steps (bundles d) (bundles d')"
    using flush_state_steps [OF d1(1)] error_steps [of d1 i e] by (simp add: rtranclp_trans)
  then show ?thesis using flush_state_other [OF d1(1)] d1(2) by (simp add: set_bundle_error_def)
qed

end
