(* ===== verification/ReviewSteps.thy ===== *)
theory ReviewSteps
  imports BundleProtocol
begin

text \<open>
  The review service as a transition system: one rule per operation. Every operation refines the
  protocol of the bundle table and keeps the revision table well formed, so both hold of every
  database that a history of these operations reaches. Two writers of the bundle table are outside the
  histories: the match handler (\<open>jobs/handlers/match.py\<close>), which prepares the bundle of an imported scope and
  deletes its own proposal in flight when a cancellation arrives during provider calls, and the administrative
  reset (\<open>services/reset.py\<close>), which empties the tables.
\<close>

section \<open>Each operation\<close>

definition refines :: "db \<Rightarrow> db \<Rightarrow> bool" where
  "refines d d' \<longleftrightarrow> bundles_steps (bundles d) (bundles d') \<and> (revs_ok d \<longrightarrow> revs_ok d')"

lemma refinesI [intro]:
  "bundles_steps (bundles d) (bundles d') \<Longrightarrow> revisions d' = revisions d \<Longrightarrow> refines d d'"
  unfolding refines_def using revs_ok_cong by blast

lemma refines_refl [simp, intro]: "refines d d"
  by (simp add: refines_def)

lemma refines_trans [trans]: "refines d d' \<Longrightarrow> refines d' d'' \<Longrightarrow> refines d d''"
  by (auto simp: refines_def intro: rtranclp_trans)

lemma refines_inbox [simp]: "refines d (refresh_inbox_entry std rp i d') = refines d d'"
  by (simp add: refines_def revs_ok_cong [of "refresh_inbox_entry std rp i d'" d'])

lemma refines_attempts [simp]: "refines d (d'\<lparr>attempts := x\<rparr>) = refines d d'"
  by (simp add: refines_def revs_ok_cong [of "d'\<lparr>attempts := x\<rparr>" d'])

lemma refines_error: "refines d (set_bundle_error i e d)"
  by (rule refinesI [OF error_steps]) (simp add: set_bundle_error_def)

lemma transition_refines: "transition_bundle std rp i s d = Inr d' \<Longrightarrow> refines d d'"
  using transition_bundle_steps by blast

lemma flush_outcome_refines: "flush_outcome i s e d = Inr d' \<Longrightarrow> refines d d'"
  using flush_outcome_steps by blast

text \<open>\<open>put_revision\<close>: the bundle row that an insertion adds, then a successor.\<close>

lemma insert_bundle_steps: "bundles_steps (bundles d) (bundles (fst (insert_bundle q d)))"
proof (cases "active_bundle d (q_key q)")
  case None
  then have "\<forall>x\<in>set (bundles d). b_key x = q_key q \<longrightarrow> b_state x \<notin> active_bundle_states"
    by (auto simp: active_bundle_def find_None_iff)
  then have "bundles_step (bundles d) (bundles (fst (insert_bundle q d)))"
    unfolding insert_bundle_def None by (simp add: bundles_step.insert)
  then show ?thesis by blast
qed (simp add: insert_bundle_def)

lemma resolve_bundle_steps:
  "resolve_bundle j q d = Inr (d0, b, c) \<Longrightarrow> bundles_steps (bundles d) (bundles d0)"
  using insert_bundle_steps [of d q]
  by (cases "insert_bundle q d") (auto simp: resolve_bundle_def split: option.splits)

lemma put_revision_refines:
  assumes put: "put_revision std rp sha j q d = Inr (d', w)" and ok: "revs_ok d"
  shows "refines d d'"
  using put_revision_result [OF ok put]
proof cases
  case (1 ops d0 b c cur)
  then show ?thesis using resolve_bundle_steps [OF 1(2)] by (simp add: refines_def)
qed

lemma plan_refines: "plan_task_attempt std rp i kind item jid d = Inr (d', t) \<Longrightarrow> refines d d'"
  by (auto simp: plan_task_attempt_def add_attempt_def Let_def rbind_eq_Inr split: option.splits if_splits)

lemma start_refines: "start_task_attempt std rp i kind item jid d = Inr (d', t) \<Longrightarrow> refines d d'"
  by (auto simp: start_task_attempt_def add_attempt_def Let_def rbind_eq_Inr split: option.splits if_splits)

lemma refresh_bundle_refines: "refresh_bundle_task_state i d = Inr d' \<Longrightarrow> refines d d'"
  by (auto simp: refresh_bundle_task_state_def dest: flush_outcome_refines split: option.splits if_splits)

lemma finish_refines:
  assumes "finish_task_attempt std rp t s v e d = Inr d'"
  shows "refines d d'"
proof -
  obtain x d2 where "refresh_bundle_task_state (t_bundle t) (d\<lparr>attempts := x\<rparr>) = Inr d2"
      "d' = refresh_inbox_entry std rp (t_bundle t) d2"
    using assms by (auto simp: finish_task_attempt_def Let_def rbind_eq_Inr split: if_splits)
  then show ?thesis
    using refresh_bundle_refines [of "t_bundle t"] refines_trans [of d "d\<lparr>attempts := x\<rparr>" d2] by simp
qed

lemma refresh_review_refines: "refresh_review_task_state std rp i d = Inr d' \<Longrightarrow> refines d d'"
  by (auto simp: refresh_review_task_state_def rbind_eq_Inr dest: flush_outcome_refines
      split: option.splits if_splits)

lemma refresh_all_refines: "refresh_all std rp is d = Inr d' \<Longrightarrow> refines d d'"
proof (induction std rp "is" d arbitrary: d' rule: refresh_all.induct)
  case (2 std rp i "is" d)
  then obtain d1 where "refresh_review_task_state std rp i d = Inr d1" "refresh_all std rp is d1 = Inr d'"
    by (auto simp: rbind_eq_Inr)
  then show ?case using 2(1) refresh_review_refines refines_trans by blast
qed simp

lemma close_refines:
  assumes "finish_active_review_tasks std rp jid s e d = Inr d'"
  shows "refines d d'"
proof -
  obtain x "is" where "refresh_all std rp is (d\<lparr>attempts := x\<rparr>) = Inr d'"
    using assms by (auto simp: finish_active_review_tasks_def Let_def)
  then show ?thesis using refresh_all_refines refines_trans [of d "d\<lparr>attempts := x\<rparr>" d'] by simp
qed

lemma update_decisions_other:
  "update_decisions i rid ds d = Inr d' \<Longrightarrow>
     bundles d' = bundles d \<and> revisions d' = revisions d \<and> attempts d' = attempts d \<and> snapshots d' = snapshots d"
proof (induction i rid ds d arbitrary: d' rule: update_decisions.induct)
  case (2 i rid c cs d)
  then obtain d1 where d1: "update_decision i rid c d = Inr d1" "update_decisions i rid cs d1 = Inr d'"
    by (auto simp: rbind_eq_Inr)
  have "bundles d1 = bundles d \<and> revisions d1 = revisions d \<and> attempts d1 = attempts d \<and> snapshots d1 = snapshots d"
    using d1(1) by (auto simp: update_decision_def Let_def split: if_splits)
  then show ?case using 2(1) [OF d1] by simp
qed simp

text \<open>The stages of a successful decision.\<close>

lemma apply_decisions_stages:
  assumes "apply_operation_decisions std rp i rid decisions d = Inr d'"
  obtains b ds d1 d2 d3 where
    "find_row b_id i (bundles d) = Some b" "b_state b \<in> open_states \<union> {DISCARDED}" "decisions \<noteq> []"
    "check_decisions decisions {} = Inr ds" "fst ` set ds \<subseteq> o_id ` set (revision_operations d rid)"
    "\<exists>r. current_revision d i = Some r \<and> r_id r = rid"
    "check_grouping ds (revision_operations d rid) = Inr ()"
    "reopen_if_discarded std rp b d = Inr d1" "update_decisions i rid ds d1 = Inr d2"
    "discard_if_rejected std rp i rid d2 = Inr d3" "d' = refresh_inbox_entry std rp i d3"
  using assms unfolding apply_operation_decisions_def
  by (auto simp: rbind_eq_Inr split: option.splits if_split_asm)

lemma decisions_refine:
  assumes "apply_operation_decisions std rp i rid decisions d = Inr d'"
  shows "refines d d'"
  using assms
proof (cases rule: apply_decisions_stages)
  case (1 b ds d1 d2 d3)
  have "refines d d1" using 1(8) transition_refines by (auto simp: reopen_if_discarded_def split: if_splits)
  also have "refines d1 d2" using update_decisions_other [OF 1(9)] by (intro refinesI) simp_all
  also have "refines d2 d3"
    using 1(10) transition_refines by (auto simp: discard_if_rejected_def split: if_splits)
  finally show ?thesis using 1(11) by simp
qed

lemma skip_refines:
  assumes "skip_review_bundle std rp sha i rid d = Inr d'" and ok: "revs_ok d"
  shows "refines d d'"
proof -
  obtain q d1 w d2 where put: "put_revision std rp sha (Some i) q d = Inr (d1, w)"
    and tr: "transition_bundle std rp i DISCARDED d1 = Inr d2"
    and d': "d' = refresh_inbox_entry std rp i (set_bundle_error i (Some skipped_text) d2)"
    using assms(1) by (auto simp: skip_review_bundle_def rbind_eq_Inr split: option.splits if_split_asm prod.splits)
  note put_revision_refines [OF put ok]
  also note transition_refines [OF tr]
  also note refines_error [of d2 i "Some skipped_text"]
  finally show ?thesis using d' by simp
qed

lemma insert_run_refines:
  assumes "insert_run std rp i run acc d = Inr (d', a)"
  shows "refines d d'"
proof -
  consider "d' = d" | x y d2 where "flush_state i APPLYING (d\<lparr>apply_runs := x, op_attempts := y\<rparr>) = Inr d2"
      "d' = refresh_inbox_entry std rp i d2"
    using assms by (auto simp: insert_run_def Let_def rbind_eq_Inr split: if_split_asm option.splits)
  then show ?thesis
  proof cases
    case (2 x y d2)
    then show ?thesis using flush_state_steps [OF 2(1)] flush_state_other [OF 2(1)] by (simp add: refinesI)
  qed simp
qed

lemma start_apply_refines: "start_apply_run std rp i key srcs retry d = Inr (d', a) \<Longrightarrow> refines d d'"
  by (auto simp: start_apply_run_def rbind_eq_Inr dest: insert_run_refines
      split: option.splits if_split_asm sum.splits prod.splits)

section \<open>Histories\<close>

text \<open>One step of the service on its database, for a given environment: a successful call of one of the nine
  operations below. The withdrawal of a proposal by the match handler and the administrative reset are not steps.\<close>

inductive review_step :: "pystd \<Rightarrow> pyrepr \<Rightarrow> (json \<Rightarrow> ustr) \<Rightarrow> db \<Rightarrow> db \<Rightarrow> bool"
  for std rp sha where
  put: "put_revision std rp sha j q d = Inr (d', w) \<Longrightarrow> review_step std rp sha d d'"
| plan: "plan_task_attempt std rp i kind item jid d = Inr (d', t) \<Longrightarrow> review_step std rp sha d d'"
| start: "start_task_attempt std rp i kind item ojid d = Inr (d', t) \<Longrightarrow> review_step std rp sha d d'"
| finish: "finish_task_attempt std rp t s v e d = Inr d' \<Longrightarrow> review_step std rp sha d d'"
| close: "finish_active_review_tasks std rp jid s e d = Inr d' \<Longrightarrow> s \<in> finished_task_states \<Longrightarrow>
     review_step std rp sha d d'"
| decide: "apply_operation_decisions std rp i rid decisions d = Inr d' \<Longrightarrow> review_step std rp sha d d'"
| skip: "skip_review_bundle std rp sha i rid d = Inr d' \<Longrightarrow> review_step std rp sha d d'"
| move: "transition_bundle std rp i s d = Inr d' \<Longrightarrow> review_step std rp sha d d'"
| run: "start_apply_run std rp i key srcs retry d = Inr (d', a) \<Longrightarrow> review_step std rp sha d d'"

lemma review_step_refines:
  assumes "review_step std rp sha d d'" and ok: "revs_ok d"
  shows "refines d d'"
  using assms(1)
proof cases
  case put
  then show ?thesis using put_revision_refines ok by blast
next
  case skip
  then show ?thesis using skip_refines ok by blast
qed (blast intro: plan_refines start_refines finish_refines close_refines decisions_refine
    transition_refines start_apply_refines)+

lemma review_history:
  "(review_step std rp sha)\<^sup>*\<^sup>* d d' \<Longrightarrow> revs_ok d \<Longrightarrow> revs_ok d' \<and> bundles_steps (bundles d) (bundles d')"
proof (induction rule: rtranclp_induct)
  case (step d1 d2)
  then have "refines d1 d2" using review_step_refines by blast
  then show ?case using step by (auto simp: refines_def intro: rtranclp_trans)
qed auto

text \<open>C26. Refinement: whatever the nine operations of the review service (the rules of \<open>review_step\<close>) do to
  the bundle table, and in whatever order they run, is a sequence of steps of the abstract protocol.
\<close>

theorem review_service_refines_protocol:
  assumes "(review_step std rp sha)\<^sup>*\<^sup>* d d'" and "revs_ok d"
  shows "bundles_steps (bundles d) (bundles d')"
  using review_history [OF assms] by blast

text \<open>C14. In every database that a history of the nine operations reaches from the empty one, bundle ids are
  distinct, no two bundles that are preparing, open or applying share a logical key, and every
  bundle has at most one current revision, the one with the largest number.
\<close>

theorem review_history_invariant:
  assumes "(review_step std rp sha)\<^sup>*\<^sup>* empty_db d"
  shows "bundles_ok (bundles d) \<and> revs_ok d"
proof -
  have "bundles_ok (bundles empty_db)" by (simp add: bundles_ok_def empty_db_def)
  then show ?thesis
    using review_history [OF assms revs_ok_empty] bundles_steps_ok by blast
qed

text \<open>C37. The nine operations of the review service move bundles along the edges of the lifecycle only and remove
  none: after any history of them, from a well-formed database, each bundle is there in a state that the graph
  reaches from its former one, and an applied bundle is still applied. Nothing is said of what deletes bundles outside these
  operations, the match handler withdrawing its own proposal and the administrative reset.
\<close>

theorem review_history_lifecycle:
  assumes "(review_step std rp sha)\<^sup>*\<^sup>* d d'" and "revs_ok d" and "bundles_ok (bundles d)" and "b \<in> set (bundles d)"
  shows "\<exists>b'\<in>set (bundles d'). b_id b' = b_id b \<and> (moved transitions)\<^sup>*\<^sup>* (b_state b) (b_state b')
    \<and> (b_state b = APPLIED \<longrightarrow> b_state b' = APPLIED)"
proof -
  have "evolved transitions b_id b_state (bundles d) (bundles d')"
    using review_history [OF assms(1,2)] bundles_steps_ok assms(3) by blast
  then obtain b' where b': "b' \<in> set (bundles d')" "b_id b' = b_id b"
    "(moved transitions)\<^sup>*\<^sup>* (b_state b) (b_state b')"
    using assms(4) unfolding evolved_def by blast
  have "b_state b = APPLIED \<longrightarrow> b_state b' = APPLIED"
    using bundles.final_reached [OF b'(3)] by simp
  with b' show ?thesis by blast
qed

end
