(* ===== verification/ReviewProperties.thy ===== *)
theory ReviewProperties
  imports ReviewSteps
begin

text \<open>
  Further properties of the review service: decisions are recorded exactly, an apply run starts only
  behind its gate, starting it again under the same key returns it, and no task of a review is
  active while it is being applied.
\<close>

section \<open>Decisions\<close>

lemma check_decisions_distinct:
  "check_decisions ds seen = Inr out \<Longrightarrow>
     distinct (map fst out) \<and> fst ` set out \<inter> seen = {}"
proof (induction ds seen arbitrary: out rule: check_decisions.induct)
  case (2 oid s ds seen)
  then obtain c rest where c: "decision_of s = Some c" "oid \<notin> seen"
    "check_decisions ds (insert oid seen) = Inr rest" "out = (oid, c) # rest"
    by (auto simp: rbind_eq_Inr split: option.splits if_splits)
  have "distinct (map fst rest) \<and> fst ` set rest \<inter> insert oid seen = {}"
    by (rule 2(1) [OF c(1,2,3)])
  then show ?case using c(2,4) by auto
qed simp

definition decide_in :: "int \<Rightarrow> (int \<times> decision) list \<Rightarrow> operation \<Rightarrow> operation" where
  "decide_in rid ds op = (if o_revision op = rid then op\<lparr>o_decision := next_decision ds op\<rparr> else op)"

lemma update_decisions_operations:
  "update_decisions i rid ds d = Inr d' \<Longrightarrow> distinct (map fst ds) \<Longrightarrow>
     operations d' = map (decide_in rid ds) (operations d)"
proof (induction i rid ds d arbitrary: d' rule: update_decisions.induct)
  case (1 i rid d)
  then show ?case by (simp add: decide_in_def next_decision_def map_idI)
next
  case (2 i rid c cs d)
  then obtain d1 where d1: "update_decision i rid c d = Inr d1" "update_decisions i rid cs d1 = Inr d'"
    by (auto simp: rbind_eq_Inr)
  have "operations d1 = update_where (\<lambda>op. o_id op = fst c \<and> o_revision op = rid)
      (\<lambda>op. op\<lparr>o_decision := snd c\<rparr>) (operations d)"
    using d1(1) by (cases "current_revision d i") (auto simp: update_decision_def Let_def split: if_splits)
  moreover have "map_of cs (fst c) = None"
    using 2(3) by (simp add: map_of_eq_None_iff)
  moreover have "operations d' = map (decide_in rid cs) (operations d1)"
    by (rule 2(1) [OF d1]) (use 2(3) in simp)
  ultimately show ?case
    by (auto simp: update_where_def decide_in_def next_decision_def)
qed

lemma flush_state_row:
  assumes "flush_state i s d = Inr d'" and "find_row b_id i (bundles d) = Some b"
  shows "\<exists>b'. find_row b_id i (bundles d') = Some b' \<and> b_state b' = s"
  using assms
  by (auto simp: flush_state_def set_bundle_state_def find_row_update split: if_split_asm option.splits
      dest: find_row_Some)

lemma transition_bundle_row:
  assumes "transition_bundle std rp i s d = Inr d'"
  shows "\<exists>b'. find_row b_id i (bundles d') = Some b' \<and> b_state b' = s"
proof -
  obtain b d1 where "find_row b_id i (bundles d) = Some b" "flush_state i s d = Inr d1"
      "d' = refresh_inbox_entry std rp i d1"
    using assms by (auto simp: transition_bundle_def rbind_eq_Inr split: option.splits sum.splits if_splits)
  then show ?thesis using flush_state_row [of i s d d1 b] by simp
qed

text \<open>C17. A successful decision records exactly what was asked: in the addressed revision each operation
  has the requested decision, or its former one when none was requested; operations of other
  revisions and the revisions themselves are unchanged; and the review ends discarded precisely
  when every operation of the revision is rejected, and open otherwise.
\<close>

theorem decisions_recorded_exactly:
  assumes "apply_operation_decisions std rp i rid decisions d = Inr d'"
  shows "\<exists>ds b'. check_decisions decisions {} = Inr ds
    \<and> operations d' = map (\<lambda>op. if o_revision op = rid then op\<lparr>o_decision := next_decision ds op\<rparr> else op) (operations d)
    \<and> revisions d' = revisions d
    \<and> find_row b_id i (bundles d') = Some b' \<and> b_state b' \<in> open_states \<union> {DISCARDED}
    \<and> (b_state b' = DISCARDED \<longleftrightarrow> (\<forall>op\<in>set (operations d'). o_revision op = rid \<longrightarrow> o_decision op = D_REJECTED))"
  using assms
proof (cases rule: apply_decisions_stages)
  case (1 b ds d1 d2 d3)
  have bid: "b_id b = i" using find_row_Some [OF 1(1)] by simp
  have d1: "revisions d1 = revisions d" "operations d1 = operations d"
    using 1(8) transition_bundle_steps by (auto simp: reopen_if_discarded_def split: if_splits)
  have open1: "\<exists>b1. find_row b_id i (bundles d1) = Some b1 \<and> b_state b1 \<in> open_states"
  proof (cases "b_state b = DISCARDED")
    case True
    then obtain s where "transition_bundle std rp i s d = Inr d1" "s \<in> {NEEDS_ATTENTION, READY}"
      using 1(8) bid by (auto simp: reopen_if_discarded_def)
    then show ?thesis using transition_bundle_row by (fastforce simp: open_states_def)
  qed (use 1(1,2,8) in \<open>auto simp: reopen_if_discarded_def\<close>)
  have d2: "operations d2 = map (decide_in rid ds) (operations d)" "revisions d2 = revisions d" "bundles d2 = bundles d1"
    using update_decisions_operations [OF 1(9)] update_decisions_other [OF 1(9)]
      check_decisions_distinct [OF 1(4)] d1 by simp_all
  have d3: "operations d3 = operations d2" "revisions d3 = revisions d2"
    using 1(10) transition_bundle_steps by (auto simp: discard_if_rejected_def split: if_splits)
  let ?all = "\<forall>op\<in>set (operations d2). o_revision op = rid \<longrightarrow> o_decision op = D_REJECTED"
  have "\<exists>b'. find_row b_id i (bundles d3) = Some b' \<and> b_state b' \<in> open_states \<union> {DISCARDED} \<and>
      (b_state b' = DISCARDED \<longleftrightarrow> ?all)"
  proof (cases ?all)
    case True
    then have "transition_bundle std rp i DISCARDED d2 = Inr d3"
      using 1(10) by (auto simp: discard_if_rejected_def revision_operations_def split: if_splits)
    then show ?thesis using transition_bundle_row True by fastforce
  next
    case False
    then have "d3 = d2"
      using 1(10) by (auto simp: discard_if_rejected_def revision_operations_def split: if_splits)
    then show ?thesis using open1 False d2(3) by (auto simp: open_states_def)
  qed
  then show ?thesis using 1(4,11) d2 d3 by (auto simp: decide_in_def)
qed

text \<open>A decision on a bundle that is applying or was applied is refused, whatever it asks.\<close>

lemma decisions_frozen:
  assumes "find_row b_id i (bundles d) = Some b" and "b_state b \<notin> open_states \<union> {DISCARDED}"
  shows "apply_operation_decisions std rp i rid decisions d = Inl (Invariant ''review bundle is not editable'')"
  using assms by (simp add: apply_operation_decisions_def)

section \<open>The gate of an apply run\<close>

text \<open>The stages of a successful start.\<close>

lemma start_apply_stages:
  assumes "start_apply_run std rp i key srcs retry d = Inr (d', a)"
  obtains b r acc items where
    "strip key \<noteq> []" "find_row b_id i (bundles d) = Some b" "current_revision d i = Some r"
    "apply_preconditions d i r = Inr (acc, items)"
    "find_run d i key = Some a \<Longrightarrow> d' = d"
    "find_run d i key = None \<Longrightarrow> \<exists>files. check_retry d i r retry = Inr () \<and>
       moved transitions (b_state b) APPLYING \<and>
       rmap (manifest_file acc items srcs retry) (operations_by_track acc) = Inr files \<and>
       insert_run std rp i (new_run d i r key (run_manifest d r acc files retry)) acc d = Inr (d', a)"
    "find_run d i key = Some a \<or> find_run d i key = None"
proof -
  obtain b r where key: "strip key \<noteq> []" and b: "find_row b_id i (bundles d) = Some b"
    and r: "current_revision d i = Some r"
    using assms unfolding start_apply_run_def by (cases "strip key = []"; simp split: option.splits)
  note step = assms [unfolded start_apply_run_def b r option.case if_not_P [OF key]]
  then obtain acc items where pre: "apply_preconditions d i r = Inr (acc, items)"
    by (auto simp only: rbind_eq_Inr prod.exhaust)
  show thesis
  proof (cases "find_run d i key")
    case None
    have "\<exists>files. check_retry d i r retry = Inr () \<and> moved transitions (b_state b) APPLYING \<and>
       rmap (manifest_file acc items srcs retry) (operations_by_track acc) = Inr files \<and>
       insert_run std rp i (new_run d i r key (run_manifest d r acc files retry)) acc d = Inr (d', a)"
      using step validate_transition_moved [of "b_state b" APPLYING "()"] unfolding pre None
      by (auto simp: rbind_eq_Inr case_sum_eq_Inr split: sum.splits)
    then show thesis using that [OF key b r pre] None by simp
  next
    case (Some x)
    then have "d' = d" "x = a" using step unfolding pre by auto
    then show thesis using that [OF key b r pre] Some by simp
  qed
qed

lemma apply_preconditions_Inr:
  assumes "apply_preconditions d i r = Inr (acc, items)"
  shows "active_tasks d i = []" and "acc = accepted_operations d r" and "acc \<noteq> []"
    and "check_grouping_run acc = Inr ()" and "read_source_snapshot_items (snapshot_payload d r) = Inr items"
    and "op \<in> set acc \<Longrightarrow> check_target items op = Inr ()"
  using assms unfolding apply_preconditions_def Let_def
  by (auto simp: rbind_eq_Inr split: if_split_asm sum.splits dest: rmap_Inr_Ball)

lemma check_target_evidence:
  "check_target items op = Inr () \<Longrightarrow> o_kind op \<in> physical_mutation_kinds \<Longrightarrow>
     \<exists>it\<in>set items. si_track it = o_target op \<and> complete_item it"
  by (auto simp: check_target_def item_of_def find_Some_iff split: if_split_asm option.splits)

lemma insert_run_new:
  assumes "insert_run std rp i run acc d = Inr (d', a)" and "find_run d i (a_key run) = None"
  shows "a = run" and "\<not> (\<exists>x\<in>set (apply_runs d). a_bundle x = i \<and> active_run x)"
    and "apply_runs d' = apply_runs d @ [run]" and "op_attempts d' = op_attempts d @ attempted run acc"
    and "find_row b_id i (bundles d) = Some b \<Longrightarrow> \<exists>b'. find_row b_id i (bundles d') = Some b' \<and> b_state b' = APPLYING"
proof -
  obtain d2 where d2: "flush_state i APPLYING (d\<lparr>apply_runs := apply_runs d @ [run],
        op_attempts := op_attempts d @ attempted run acc\<rparr>) = Inr d2"
      "d' = refresh_inbox_entry std rp i d2" "a = run"
      "\<not> (\<exists>x\<in>set (apply_runs d). a_bundle x = i \<and> active_run x)"
    using assms by (auto simp: insert_run_def Let_def rbind_eq_Inr split: if_split_asm)
  then show "a = run" "\<not> (\<exists>x\<in>set (apply_runs d). a_bundle x = i \<and> active_run x)" by simp_all
  show "apply_runs d' = apply_runs d @ [run]" "op_attempts d' = op_attempts d @ attempted run acc"
    using d2(1,2) by (auto simp: set_bundle_state_def elim!: flush_state_cases)
  show "\<exists>b'. find_row b_id i (bundles d') = Some b' \<and> b_state b' = APPLYING"
    if "find_row b_id i (bundles d) = Some b"
    using flush_state_row [OF d2(1)] that d2(2) by simp
qed

text \<open>C7. The gate of \<open>start_apply_run\<close>: a run under a new key starts only when no task of the review is
  active, some operation of its current revision is accepted and every accepted file operation has
  complete evidence of its file in the revision's source snapshot. The run is then the bundle's only
  active one, is pending, its manifest and its attempts name the accepted operations in order, and
  the bundle is applying.
\<close>

theorem start_apply_run_gate:
  assumes start: "start_apply_run std rp i key srcs retry d = Inr (d', a)" and new: "find_run d i key = None"
  shows "\<exists>r items acc b'. current_revision d i = Some r
    \<and> acc = accepted_operations d r \<and> acc \<noteq> [] \<and> active_tasks d i = []
    \<and> read_source_snapshot_items (snapshot_payload d r) = Inr items
    \<and> (\<forall>op\<in>set acc. o_kind op \<in> physical_mutation_kinds \<longrightarrow>
          (\<exists>it\<in>set items. si_track it = o_target op \<and> complete_item it))
    \<and> filter (\<lambda>x. a_bundle x = i \<and> active_run x) (apply_runs d') = [a]
    \<and> a_state a = RUN_PENDING \<and> a_revision a = r_id r
    \<and> jget (a_manifest a) (U ''operation_ids'') = JList (map (\<lambda>op. JInt (o_id op)) acc)
    \<and> op_attempts d' = op_attempts d @ attempted a acc
    \<and> find_row b_id i (bundles d') = Some b' \<and> b_state b' = APPLYING"
  using start
proof (cases rule: start_apply_stages)
  case (1 b r acc items)
  then obtain files where ins:
    "insert_run std rp i (new_run d i r key (run_manifest d r acc files retry)) acc d = Inr (d', a)"
    using new by blast
  let ?run = "new_run d i r key (run_manifest d r acc files retry)"
  have "find_run d i (a_key ?run) = None" using new by (simp add: new_run_def)
  note run = insert_run_new [OF ins this]
  note pre = apply_preconditions_Inr [OF 1(4)]
  have "filter (\<lambda>x. a_bundle x = i \<and> active_run x) (apply_runs d) = []"
    using run(2) by (simp add: filter_empty_conv)
  then have "filter (\<lambda>x. a_bundle x = i \<and> active_run x) (apply_runs d') = [a]"
    using run(1,3) by (simp add: new_run_def active_run_def)
  moreover have "jget (a_manifest a) (U ''operation_ids'') = JList (map (\<lambda>op. JInt (o_id op)) acc)"
    unfolding run(1) by (simp add: new_run_def run_manifest_def jget_JObj)
  moreover have "\<exists>it\<in>set items. si_track it = o_target op \<and> complete_item it"
    if "op \<in> set acc" "o_kind op \<in> physical_mutation_kinds" for op
    using check_target_evidence [OF pre(6)] that by blast
  moreover obtain b' where "find_row b_id i (bundles d') = Some b'" "b_state b' = APPLYING"
    using run(5) [OF 1(2)] by blast
  moreover have "a_state a = RUN_PENDING" "a_revision a = r_id r" unfolding run(1) by (simp_all add: new_run_def)
  ultimately show ?thesis using 1(3) pre(1-5) run(1,4)
    by (intro exI [of _ r] exI [of _ items] exI [of _ acc] exI [of _ b']) simp
qed

text \<open>What the preconditions read does not change when a run is inserted.\<close>

lemma insert_run_preserves:
  assumes "insert_run std rp i run acc d = Inr (d', a)" and "find_row b_id i (bundles d) = Some b"
  shows "revisions d' = revisions d \<and> operations d' = operations d \<and> attempts d' = attempts d \<and>
    snapshots d' = snapshots d \<and> find_row b_id i (bundles d') \<noteq> None"
proof -
  consider "d' = d" | x y d2 where
      "flush_state i APPLYING (d\<lparr>apply_runs := x, op_attempts := y\<rparr>) = Inr d2"
      "d' = refresh_inbox_entry std rp i d2"
    using assms(1) by (auto simp: insert_run_def Let_def rbind_eq_Inr split: if_split_asm option.splits)
  then show ?thesis
  proof cases
    case (2 x y d2)
    have "\<exists>b'. find_row b_id i (bundles d2) = Some b' \<and> b_state b' = APPLYING"
      by (rule flush_state_row [OF 2(1)]) (simp add: assms(2))
    then show ?thesis using flush_state_other [OF 2(1)] 2(2) by auto
  qed (simp add: assms(2))
qed

lemma apply_preconditions_cong:
  assumes "operations d' = operations d" and "attempts d' = attempts d" and "snapshots d' = snapshots d"
  shows "apply_preconditions d' i r = apply_preconditions d i r"
proof -
  have "active_tasks d' i = active_tasks d i" by (simp add: active_tasks_def attempts_of_def assms)
  moreover have "accepted_operations d' r = accepted_operations d r"
    by (simp add: accepted_operations_def operations_of_def assms)
  moreover have "snapshot_payload d' r = snapshot_payload d r" by (simp add: snapshot_payload_def assms)
  ultimately show ?thesis unfolding apply_preconditions_def by (simp only:)
qed

lemma find_run_appended:
  "find_run d i key = None \<Longrightarrow> apply_runs d' = apply_runs d @ [run] \<Longrightarrow> a_bundle run = i \<Longrightarrow> a_key run = key \<Longrightarrow>
     find_run d' i key = Some run"
  by (simp add: find_run_def find_append)

lemma start_apply_stored:
  assumes "strip key \<noteq> []" and "find_row b_id i (bundles d) \<noteq> None" and "current_revision d i = Some r"
    and "apply_preconditions d i r = Inr (acc, items)" and "find_run d i key = Some a"
  shows "start_apply_run std rp i key srcs retry d = Inr (d, a)"
  using assms by (auto simp: start_apply_run_def)

text \<open>\<open>start_apply_run\<close> is idempotent in its key: repeating a successful start on the database that it
  left returns the same run and changes nothing, whatever sources and retry checkpoint it names.
\<close>

theorem start_apply_run_idempotent:
  assumes "start_apply_run std rp i key srcs retry d = Inr (d', a)"
  shows "start_apply_run std rp i key srcs' retry' d' = Inr (d', a)"
  using assms
proof (cases rule: start_apply_stages)
  case (1 b r acc items)
  show ?thesis
  proof (cases "find_run d i key")
    case None
    then obtain files where ins:
      "insert_run std rp i (new_run d i r key (run_manifest d r acc files retry)) acc d = Inr (d', a)"
      using 1(6) by blast
    let ?run = "new_run d i r key (run_manifest d r acc files retry)"
    note kept = insert_run_preserves [OF ins 1(2)]
    have "find_run d' i key = Some ?run"
      by (rule find_run_appended [OF None insert_run_new(3) [OF ins]]) (simp_all add: new_run_def None)
    moreover have "a = ?run" by (rule insert_run_new(1) [OF ins]) (simp add: new_run_def None)
    moreover have "current_revision d' i = Some r" using 1(3) kept by (simp add: current_revision_def)
    moreover have "apply_preconditions d' i r = Inr (acc, items)"
      using 1(4) kept by (simp add: apply_preconditions_cong [of d' d])
    ultimately show ?thesis using start_apply_stored [OF 1(1)] kept by simp
  next
    case (Some x)
    then have "x = a" "d' = d" using 1(5,7) by auto
    then show ?thesis using start_apply_stored [OF 1(1) _ 1(3,4)] 1(2) Some by simp
  qed
qed

section \<open>No active task while applying\<close>

definition quiet :: "db \<Rightarrow> bool" where
  "quiet d \<longleftrightarrow> distinct (map t_id (attempts d))
     \<and> (\<forall>b\<in>set (bundles d). b_state b = APPLYING \<longrightarrow> active_tasks d (b_id b) = [])"

lemma active_tasks_Nil:
  "active_tasks d i = [] \<longleftrightarrow> (\<forall>t\<in>set (attempts d). t_bundle t = i \<longrightarrow> \<not> active_task (t_state t))"
proof -
  have "active_tasks d i = [] \<longleftrightarrow> filter (\<lambda>t. active_task (t_state t)) (attempts_of d i) = []"
    unfolding active_tasks_def by (metis (no_types, lifting) map_is_Nil_conv set_empty set_sort)
  then show ?thesis by (auto simp: attempts_of_def filter_empty_conv)
qed

text \<open>Nothing starts to apply, no attempt is added and none becomes active.\<close>

definition calm :: "db \<Rightarrow> db \<Rightarrow> bool" where
  "calm d d' \<longleftrightarrow>
     map t_id (attempts d') = map t_id (attempts d)
     \<and> (\<forall>b'\<in>set (bundles d'). b_state b' = APPLYING \<longrightarrow> (\<exists>b\<in>set (bundles d). b_id b = b_id b' \<and> b_state b = APPLYING))
     \<and> (\<forall>t'\<in>set (attempts d'). active_task (t_state t') \<longrightarrow>
          (\<exists>t\<in>set (attempts d). t_bundle t = t_bundle t' \<and> active_task (t_state t)))"

lemma calm_quiet: "calm d d' \<Longrightarrow> quiet d \<Longrightarrow> quiet d'"
  unfolding calm_def quiet_def active_tasks_Nil by (elim conjE, intro conjI, simp, metis)

lemma calm_refl [simp, intro]: "calm d d"
  by (auto simp: calm_def)

lemma calm_trans [trans]: "calm d d' \<Longrightarrow> calm d' d'' \<Longrightarrow> calm d d''"
  unfolding calm_def by (elim conjE, intro conjI, simp, metis, metis)

lemma calm_inbox [simp]: "calm d (refresh_inbox_entry std rp i d') = calm d d'"
  by (simp add: calm_def)

lemma calm_error: "calm d (set_bundle_error i e d)"
  by (auto simp: calm_def set_bundle_error_def set_update_where)

lemma calm_flush: "flush_state i s d = Inr d' \<Longrightarrow> s \<noteq> APPLYING \<Longrightarrow> calm d d'"
  by (auto elim!: flush_state_cases simp: calm_def set_bundle_state_def set_update_where)

lemma calm_outcome: "flush_outcome i s e d = Inr d' \<Longrightarrow> s \<noteq> APPLYING \<Longrightarrow> calm d d'"
  using calm_flush calm_error calm_trans by (fastforce simp: flush_outcome_def rbind_eq_Inr)

lemma calm_transition: "transition_bundle std rp i s d = Inr d' \<Longrightarrow> calm d d'"
  by (auto simp: transition_bundle_def rbind_eq_Inr dest!: calm_flush split: option.splits sum.splits if_splits)

lemma calm_same: "bundles d' = bundles d \<Longrightarrow> attempts d' = attempts d \<Longrightarrow> calm d d'"
  by (auto simp: calm_def)

lemma calm_ended:
  assumes "\<And>t. P t \<Longrightarrow> t_id (f t) = t_id t"
    and "\<And>t. P t \<Longrightarrow> \<not> active_task (t_state (f t)) \<or> t_bundle (f t) = t_bundle t \<and> active_task (t_state t)"
  shows "calm d (d\<lparr>attempts := update_where P f (attempts d)\<rparr>)"
proof -
  have "\<exists>t\<in>set (attempts d). t_bundle t = t_bundle t' \<and> active_task (t_state t)"
    if t': "t' \<in> set (update_where P f (attempts d))" and act: "active_task (t_state t')" for t'
  proof -
    obtain t where "t \<in> set (attempts d)" "t' = (if P t then f t else t)"
      using t' unfolding set_update_where by blast
    then show ?thesis using assms(2) [of t] act by (cases "P t") auto
  qed
  then show ?thesis using assms(1) by (auto simp: calm_def update_where_keys)
qed

lemma calm_refresh_bundle: "refresh_bundle_task_state i d = Inr d' \<Longrightarrow> calm d d'"
  by (auto simp: refresh_bundle_task_state_def dest: calm_outcome split: option.splits if_splits)

lemma calm_refresh_review: "refresh_review_task_state std rp i d = Inr d' \<Longrightarrow> calm d d'"
  by (auto simp: refresh_review_task_state_def rbind_eq_Inr dest: calm_outcome split: option.splits if_splits)

lemma calm_refresh_all: "refresh_all std rp is d = Inr d' \<Longrightarrow> calm d d'"
proof (induction std rp "is" d arbitrary: d' rule: refresh_all.induct)
  case (2 std rp i "is" d)
  then obtain d1 where "refresh_review_task_state std rp i d = Inr d1" "refresh_all std rp is d1 = Inr d'"
    by (auto simp: rbind_eq_Inr)
  then show ?case using 2(1) calm_refresh_review calm_trans by blast
qed simp

lemma finished_not_active: "s \<in> finished_task_states \<Longrightarrow> \<not> active_task s"
  by (auto simp: finished_task_states_def active_task_def)

lemma calm_finish:
  assumes "finish_task_attempt std rp t s v e d = Inr d'"
  shows "calm d d'"
proof -
  let ?d1 = "d\<lparr>attempts := update_where (\<lambda>x. t_id x = t_id t)
    (\<lambda>x. x\<lparr>t_state := s, t_result := canon v, t_error := e\<rparr>) (attempts d)\<rparr>"
  obtain d2 where d2: "s \<in> finished_task_states" "refresh_bundle_task_state (t_bundle t) ?d1 = Inr d2"
      "d' = refresh_inbox_entry std rp (t_bundle t) d2"
    using assms by (auto simp: finish_task_attempt_def Let_def rbind_eq_Inr split: if_split_asm)
  have "calm d ?d1" by (rule calm_ended) (use finished_not_active d2(1) in auto)
  then show ?thesis using calm_refresh_bundle [OF d2(2)] calm_trans d2(3) by auto
qed

lemma calm_close:
  assumes "finish_active_review_tasks std rp jid s e d = Inr d'" and "s \<in> finished_task_states"
  shows "calm d d'"
proof -
  let ?d1 = "d\<lparr>attempts := update_where (active_of_job jid) (\<lambda>t. t\<lparr>t_state := s, t_error := e\<rparr>) (attempts d)\<rparr>"
  obtain "is" where "refresh_all std rp is ?d1 = Inr d'"
    using assms(1) by (auto simp: finish_active_review_tasks_def Let_def)
  moreover have "calm d ?d1" by (rule calm_ended) (use finished_not_active assms(2) in auto)
  ultimately show ?thesis using calm_refresh_all calm_trans by blast
qed

lemma update_decisions_calm: "update_decisions i rid ds d = Inr d' \<Longrightarrow> calm d d'"
  using update_decisions_other calm_same by blast

lemma calm_decide:
  assumes "apply_operation_decisions std rp i rid decisions d = Inr d'"
  shows "calm d d'"
  using assms
proof (cases rule: apply_decisions_stages)
  case (1 b ds d1 d2 d3)
  have "calm d d1" using 1(8) calm_transition by (auto simp: reopen_if_discarded_def split: if_splits)
  also have "calm d1 d2" using update_decisions_calm [OF 1(9)] .
  also have "calm d2 d3" using 1(10) calm_transition by (auto simp: discard_if_rejected_def split: if_splits)
  finally show ?thesis using 1(11) by simp
qed

lemma put_revision_attempts:
  assumes put: "put_revision std rp sha j q d = Inr (d', w)" and ok: "revs_ok d"
  shows "attempts d' = attempts d"
  using put
proof (cases rule: put_revision_cases)
  case (found ops d0 b c cur)
  then show ?thesis
    by (cases "insert_bundle q d")
      (auto simp: resolve_bundle_def insert_bundle_def split: option.splits if_split_asm)
next
  case (wrote ops d0 b c)
  have "attempts d0 = attempts d"
    using wrote(2) by (cases "insert_bundle q d")
      (auto simp: resolve_bundle_def insert_bundle_def split: option.splits if_split_asm)
  moreover have "revs_ok d0" using ok resolve_bundle_other [OF wrote(2)] by (simp add: revs_ok_cong [of d0 d])
  moreover have "attempts d' = attempts d0"
    using write_successor_shape [OF \<open>revs_ok d0\<close> wrote(3)] wrote(4) by (metis Pair_inject sum.inject(2))
  ultimately show ?thesis by simp
qed

lemma calm_put:
  assumes put: "put_revision std rp sha j q d = Inr (d', w)" and ok: "revs_ok d"
  shows "calm d d'"
  using put_revision_result [OF ok put]
proof cases
  case (1 ops d0 b c cur)
  have "\<exists>x\<in>set (bundles d). b_id x = b_id b' \<and> b_state x = APPLYING"
    if "b' \<in> set (bundles d0)" "b_state b' = APPLYING" for b'
    using 1(2) that by (cases "insert_bundle q d")
      (auto simp: resolve_bundle_def insert_bundle_def split: option.splits if_split_asm)
  then show ?thesis using put_revision_attempts [OF put ok] 1(3) by (auto simp: calm_def)
qed

lemma calm_skip:
  assumes "skip_review_bundle std rp sha i rid d = Inr d'" and ok: "revs_ok d"
  shows "calm d d'"
proof -
  obtain q d1 w d2 where put: "put_revision std rp sha (Some i) q d = Inr (d1, w)"
    and tr: "transition_bundle std rp i DISCARDED d1 = Inr d2"
    and d': "d' = refresh_inbox_entry std rp i (set_bundle_error i (Some skipped_text) d2)"
    using assms(1) by (auto simp: skip_review_bundle_def rbind_eq_Inr split: option.splits if_split_asm prod.splits)
  note calm_put [OF put ok]
  also note calm_transition [OF tr]
  also note calm_error [of d2 i "Some skipped_text"]
  finally show ?thesis using d' by simp
qed

text \<open>An attempt becomes active only while its review is open, and a run starts only without one.\<close>

lemma open_for_tasks_state:
  assumes "open_for_tasks i d = Inr r" and "bundles_ok (bundles d)" and "b \<in> set (bundles d)" and "b_id b = i"
  shows "b_state b \<noteq> APPLYING"
proof -
  have "find_row b_id i (bundles d) = Some b"
    using find_row_unique [OF bundles_ids [OF assms(2)] assms(3)] assms(4) by simp
  then show ?thesis using assms(1) by (auto simp: open_for_tasks_def open_states_def split: if_split_asm)
qed

lemma quiet_activate:
  assumes "quiet d" and "bundles_ok (bundles d)" and "open_for_tasks i d = Inr r" and "bundles d' = bundles d"
    and "\<And>t. t \<in> set (attempts d') \<Longrightarrow> active_task (t_state t) \<Longrightarrow> t_bundle t \<noteq> i \<Longrightarrow>
      \<exists>t0\<in>set (attempts d). t_bundle t0 = t_bundle t \<and> active_task (t_state t0)"
    and ids: "distinct (map t_id (attempts d'))"
  shows "quiet d'"
  unfolding quiet_def active_tasks_Nil
proof (intro conjI ballI impI notI)
  show "distinct (map t_id (attempts d'))" by (rule ids)
next
  fix b t assume b: "b \<in> set (bundles d')" "b_state b = APPLYING" and t: "t \<in> set (attempts d')" "t_bundle t = b_id b"
    and act: "active_task (t_state t)"
  have "t_bundle t \<noteq> i" using open_for_tasks_state [OF assms(3,2)] b assms(4) t(2) by auto
  then obtain t0 where "t0 \<in> set (attempts d)" "t_bundle t0 = b_id b" "active_task (t_state t0)"
    using assms(5) [OF t(1) act] t(2) by auto
  then show False using assms(1,4) b unfolding quiet_def active_tasks_Nil by auto
qed

lemma new_attempt_fields [simp]:
  "t_bundle (new_attempt d i rid jid kind item n s) = i"
  "t_id (new_attempt d i rid jid kind item n s) = next_id t_id (attempts d)"
  by (simp_all add: new_attempt_def)

lemma quiet_add:
  assumes "quiet d" and "bundles_ok (bundles d)" and "open_for_tasks i d = Inr r"
    and "t_bundle a = i" and "t_id a = next_id t_id (attempts d)"
  shows "quiet (refresh_inbox_entry std rp i (add_attempt a d))"
proof (rule quiet_activate [OF assms(1-3)])
  have "distinct (map t_id (attempts d @ [a]))"
    by (rule distinct_next_id) (use assms(1,5) in \<open>simp_all add: quiet_def\<close>)
  then show "distinct (map t_id (attempts (refresh_inbox_entry std rp i (add_attempt a d))))"
    by (simp add: add_attempt_def)
qed (use assms(4) in \<open>auto simp: add_attempt_def\<close>)

lemma quiet_plan:
  assumes "plan_task_attempt std rp i kind item jid d = Inr (d', t)" and "quiet d" and "bundles_ok (bundles d)"
  shows "quiet d'"
proof -
  obtain r where r: "open_for_tasks i d = Inr r"
    using assms(1) by (auto simp: plan_task_attempt_def rbind_eq_Inr)
  define a where "a = new_attempt d i (r_id r) (Some jid) kind item
    ((case latest_attempt d i kind item of None \<Rightarrow> 0 | Some t \<Rightarrow> t_no t) + 1) T_PENDING"
  have "d' = d \<or> d' = refresh_inbox_entry std rp i (add_attempt a d)"
    using assms(1) r by (auto simp: plan_task_attempt_def a_def Let_def split: option.splits if_split_asm)
  then show ?thesis using quiet_add [OF assms(2,3) r, of a] assms(2) by (auto simp: a_def)
qed

lemma quiet_start:
  assumes "start_task_attempt std rp i kind item jid d = Inr (d', t)" and "quiet d" and "bundles_ok (bundles d)"
  shows "quiet d'"
proof -
  obtain r where r: "open_for_tasks i d = Inr r"
    using assms(1) by (auto simp: start_task_attempt_def rbind_eq_Inr)
  show ?thesis
  proof (cases "planned_attempt d i kind item jid")
    case None
    then show ?thesis using assms(1) r quiet_add [OF assms(2,3) r] by (auto simp: start_task_attempt_def Let_def)
  next
    case (Some p)
    have p: "p \<in> set (attempts d)" "t_state p = T_PENDING"
      using Some by (auto simp: planned_attempt_def attempts_for_def find_Some_iff filter_set
          split: option.splits dest!: nth_mem)
    have d': "attempts d' = update_where (\<lambda>t. t_id t = t_id p) (\<lambda>t. t\<lparr>t_state := T_RUNNING\<rparr>) (attempts d)"
        "bundles d' = bundles d"
      using assms(1) r Some by (auto simp: start_task_attempt_def)
    have ids: "distinct (map t_id (attempts d))" using assms(2) by (simp add: quiet_def)
    show ?thesis
    proof (rule quiet_activate [OF assms(2,3) r d'(2)])
      show "distinct (map t_id (attempts d'))" unfolding d'(1) using ids by (simp add: update_where_keys)
      fix x assume "x \<in> set (attempts d')" "active_task (t_state x)" "t_bundle x \<noteq> i"
      then obtain y where y: "y \<in> set (attempts d)" "x = (if t_id y = t_id p then y\<lparr>t_state := T_RUNNING\<rparr> else y)"
        unfolding d'(1) set_update_where by blast
      moreover have "y = p" if "t_id y = t_id p"
        using ids p(1) y(1) that by (metis find_row_unique option.inject)
      ultimately show "\<exists>t0\<in>set (attempts d). t_bundle t0 = t_bundle x \<and> active_task (t_state t0)"
        using p(2) \<open>active_task (t_state x)\<close> by (cases "t_id y = t_id p") (auto simp: active_task_def)
    qed
  qed
qed

lemma quiet_run:
  assumes "start_apply_run std rp i key srcs retry d = Inr (d', a)" and "quiet d"
  shows "quiet d'"
  using assms(1)
proof (cases rule: start_apply_stages)
  case (1 b r acc items)
  show ?thesis
  proof (cases "find_run d i key")
    case None
    then obtain files where ins:
      "insert_run std rp i (new_run d i r key (run_manifest d r acc files retry)) acc d = Inr (d', a)"
      using 1(6) by blast
    obtain x y d2 where d2: "flush_state i APPLYING (d\<lparr>apply_runs := x, op_attempts := y\<rparr>) = Inr d2"
        "d' = refresh_inbox_entry std rp i d2"
      using ins None by (auto simp: insert_run_def new_run_def Let_def rbind_eq_Inr split: if_split_asm)
    have att: "attempts d' = attempts d" using flush_state_other [OF d2(1)] d2(2) by simp
    have old: "b' \<in> set (bundles d) \<or> b_id b' = i" if "b' \<in> set (bundles d')" for b'
      using d2(1) that unfolding d2(2)
      by (auto elim!: flush_state_cases simp: set_bundle_state_def set_update_where split: if_splits)
    show ?thesis
      using assms(2) apply_preconditions_Inr(1) [OF 1(4)] old unfolding quiet_def active_tasks_Nil att
      by (elim conjE, intro conjI, simp, metis)
  next
    case (Some x)
    then have "d' = d" using 1(5,7) by auto
    then show ?thesis using assms(2) by simp
  qed
qed

lemma quiet_step:
  assumes "review_step std rp sha d d'" and "quiet d" and "revs_ok d" and "bundles_ok (bundles d)"
  shows "quiet d'"
  using assms(1)
proof cases
  case put
  then show ?thesis using calm_put calm_quiet assms by blast
next
  case plan
  then show ?thesis using quiet_plan assms by blast
next
  case start
  then show ?thesis using quiet_start assms by blast
next
  case finish
  then show ?thesis using calm_finish calm_quiet assms by blast
next
  case close
  then show ?thesis using calm_close calm_quiet assms by blast
next
  case decide
  then show ?thesis using calm_decide calm_quiet assms by blast
next
  case skip
  then show ?thesis using calm_skip calm_quiet assms by blast
next
  case move
  then show ?thesis using calm_transition calm_quiet assms by blast
next
  case run
  then show ?thesis using quiet_run assms by blast
qed

text \<open>In every history that starts from the empty database, a review that is being applied has no
  pending or running task: none is active when its run starts, and none can be planned or started
  until the run has ended.
\<close>

theorem no_active_task_while_applying:
  assumes "(review_step std rp sha)\<^sup>*\<^sup>* empty_db d" and "b \<in> set (bundles d)" and "b_state b = APPLYING"
  shows "active_tasks d (b_id b) = []"
proof -
  have "quiet d \<and> revs_ok d \<and> bundles_ok (bundles d)"
    using assms(1)
  proof (induction rule: rtranclp_induct)
    case base
    then show ?case using revs_ok_empty by (simp add: quiet_def empty_db_def bundles_ok_def)
  next
    case (step d1 d2)
    have "refines d1 d2" using review_step_refines [OF step(2)] step(3) by blast
    then have "revs_ok d2 \<and> bundles_ok (bundles d2)"
      using step(3) bundles_steps_ok unfolding refines_def by blast
    then show ?case using quiet_step [OF step(2)] step(3) by blast
  qed
  then show ?thesis using assms(2,3) unfolding quiet_def by blast
qed

end
