(* ===== verification/ReviewWitness.thy ===== *)
theory ReviewWitness
  imports ReviewProperties
begin

text \<open>
  Concrete instances of the properties of the review service: one track with one tag operation is
  proposed, accepted, proposed again and applied. The parameters are the ASCII environment and a
  digest that tells a proposal with a confidence from one without.
\<close>

section \<open>The instance\<close>

definition w_sha :: "json \<Rightarrow> ustr" where
  "w_sha v = (if jget v (U ''confidence'') = JNull then U ''a'' else U ''b'')"

definition w_guard :: json where
  "w_guard = JObj
     [(U ''version'', JInt 1), (U ''path'', JStr (U ''/m/a.mp3'')), (U ''library_root'', JNull),
      (U ''directories'', JList []),
      (U ''file'', JObj [(U ''device'', JInt 1), (U ''inode'', JInt 2), (U ''mode'', JInt 3), (U ''size'', JInt 9),
        (U ''mtime_ns'', JInt 5), (U ''sha256'', JStr (replicate 64 97))])]"

definition w_snapshot :: json where
  "w_snapshot = JObj [(U ''items'', JList [JObj
     [(U ''source_id'', JInt 7), (U ''path'', JStr (U ''/m/a.mp3'')), (U ''size_bytes'', JInt 9),
      (U ''mtime_ns'', JInt 5), (U ''tag_hash'', JStr (U ''h'')), (U ''physical_guard'', w_guard)]])]"

definition w_draft :: draft where
  "w_draft = \<lparr>d_kind = U ''set_tag'', d_field = U ''title'', d_target_type = U ''track'', d_target = 7,
     d_current = JNull, d_proposed = JStr (U ''T''), d_provenance = JObj [], d_validation = JObj []\<rparr>"

definition w_request :: "rat option \<Rightarrow> revision_request" where
  "w_request c = \<lparr>q_key = U ''track:7'', q_title = U ''A'', q_scope_type = U ''track'', q_scope_id = Some 7,
     q_snapshot = w_snapshot, q_operations = [w_draft], q_source = None, q_ref = None,
     q_candidate = JNull, q_explanation = JNull, q_confidence = c\<rparr>"

abbreviation w_put :: "rat option \<Rightarrow> db \<Rightarrow> review_exc + (db \<times> revision_write)" where
  "w_put c \<equiv> put_revision ascii_std plain_repr w_sha None (w_request c)"

abbreviation w_accept :: "db \<Rightarrow> review_exc + db" where
  "w_accept \<equiv> apply_operation_decisions ascii_std plain_repr 1 1 [(1, U ''accepted'')]"

definition got :: "'e + 'a \<Rightarrow> bool" where
  "got x = (case x of Inl _ \<Rightarrow> False | Inr _ \<Rightarrow> True)"

definition db_of :: "'e + (db \<times> 'a) \<Rightarrow> db" where
  "db_of x = (case x of Inl _ \<Rightarrow> empty_db | Inr (d, _) \<Rightarrow> d)"

definition val_of :: "'e + 'a \<Rightarrow> 'a" where
  "val_of x = (case x of Inr v \<Rightarrow> v | Inl _ \<Rightarrow> undefined)"

lemma got_Inr: "got x \<Longrightarrow> x = Inr (val_of x)"
  by (simp add: got_def val_of_def split: sum.splits)

definition w_one :: db where
  "w_one = db_of (w_put None empty_db)"

lemma w_one_put: "got (w_put None empty_db)"
  by code_simp

definition w_two :: db where
  "w_two = (case w_accept w_one of Inr d \<Rightarrow> d | Inl _ \<Rightarrow> empty_db)"

lemma w_two_got: "got (w_accept w_one)"
  by code_simp

lemma w_three_got: "got (w_put (Some 1) w_two)"
  by code_simp

definition w_ready :: db where
  "w_ready = (case transition_bundle ascii_std plain_repr 1 READY w_two of Inr d \<Rightarrow> d | Inl _ \<Rightarrow> empty_db)"

lemma w_ready_got: "got (transition_bundle ascii_std plain_repr 1 READY w_two)"
  by code_simp

abbreviation w_start :: "db \<Rightarrow> review_exc + (db \<times> apply_run)" where
  "w_start \<equiv> start_apply_run ascii_std plain_repr 1 (U ''k'') [] None"

definition w_applying :: db where
  "w_applying = db_of (w_start w_ready)"

lemma w_start_got: "got (w_start w_ready)"
  by code_simp

lemma w_ready_no_run: "find_run w_ready 1 (U ''k'') = None"
  by code_simp

lemma w_applying_state: "map b_state (bundles w_applying) = [APPLYING]" "map b_id (bundles w_applying) = [1]"
  by code_simp+

lemma w_one_ok: "revs_ok w_one" "bundles_ok (bundles w_one)"
  by code_simp+

lemma w_two_ok: "revs_ok w_two" "\<forall>op\<in>set (operations w_two). o_revision op \<in> r_id ` set (revisions w_two)"
  by code_simp+

section \<open>The history of the instance\<close>

abbreviation w_step :: "db \<Rightarrow> db \<Rightarrow> bool" where
  "w_step \<equiv> review_step ascii_std plain_repr w_sha"

lemma db_of_got: "got x \<Longrightarrow> \<exists>w. x = Inr (db_of x, w)"
  by (auto simp: got_def db_of_def split: sum.splits)

lemma w_step_one: "w_step empty_db w_one"
  using db_of_got [OF w_one_put] review_step.put unfolding w_one_def by blast

lemma w_step_two: "w_step w_one w_two"
  using got_Inr [OF w_two_got] review_step.decide unfolding w_two_def by (auto split: sum.splits)

lemma w_step_ready: "w_step w_two w_ready"
  using got_Inr [OF w_ready_got] review_step.move unfolding w_ready_def by (auto split: sum.splits)

lemma w_step_applying: "w_step w_ready w_applying"
  using db_of_got [OF w_start_got] review_step.run unfolding w_applying_def by blast

lemma w_history_one: "w_step\<^sup>*\<^sup>* w_one w_applying"
  by (rule converse_rtranclp_into_rtranclp [where r = w_step, OF w_step_two],
      rule converse_rtranclp_into_rtranclp [where r = w_step, OF w_step_ready], rule r_into_rtranclp [where r = w_step, OF w_step_applying])

lemma w_history: "w_step\<^sup>*\<^sup>* empty_db w_applying"
  by (rule converse_rtranclp_into_rtranclp [where r = w_step, OF w_step_one w_history_one])

section \<open>Witnesses\<close>

theorem put_revision_current_witness:
  "\<exists>d' w cur. w_put None empty_db = Inr (d', w) \<and> revs_ok d' \<and> current_revision d' (w_bundle w) = Some cur"
proof -
  obtain w where w: "w_put None empty_db = Inr (w_one, w)"
    using db_of_got [OF w_one_put] by (auto simp: w_one_def)
  show ?thesis using put_revision_current [OF revs_ok_empty w] w by blast
qed

theorem put_revision_idempotent_witness:
  "\<exists>d' w. w_put None empty_db = Inr (d', w)
     \<and> w_put None d' = Inr (d', w\<lparr>w_created_bundle := False, w_created_revision := False\<rparr>)"
proof -
  obtain w where w: "w_put None empty_db = Inr (w_one, w)"
    using db_of_got [OF w_one_put] by (auto simp: w_one_def)
  show ?thesis using put_revision_idempotent [OF revs_ok_empty w] w by blast
qed

lemma w_three_created: "case w_put (Some 1) w_two of Inr (_, w) \<Rightarrow> w_created_revision w | _ \<Rightarrow> False"
  by code_simp

theorem put_revision_carries_decisions_witness:
  "\<exists>d' w. w_put (Some 1) w_two = Inr (d', w) \<and>
     (let new = filter (\<lambda>op. content_key op = content_key (hd (operations w_two))) (operations_of d' (w_revision w));
          old = (case current_revision w_two (w_bundle w) of None \<Rightarrow> []
                 | Some r \<Rightarrow> filter (\<lambda>op. content_key op = content_key (hd (operations w_two)))
                     (operations_of w_two (r_id r)))
      in map o_decision new = take (length new) (map o_decision old @ replicate (length new) D_PENDING))"
proof -
  obtain d' w where w: "w_put (Some 1) w_two = Inr (d', w)"
    using got_Inr [OF w_three_got] by (metis surj_pair)
  have "w_created_revision w" using w_three_created w by simp
  then show ?thesis
    using w put_revision_carries_decisions [OF w_two_ok w, of "content_key (hd (operations w_two))"] by blast
qed

theorem review_service_refines_protocol_witness: "bundles_steps (bundles empty_db) (bundles w_applying)"
  using review_service_refines_protocol [OF w_history revs_ok_empty] .

theorem review_history_invariant_witness: "bundles_ok (bundles w_applying) \<and> revs_ok w_applying"
  using review_history_invariant [OF w_history] .

lemma w_one_bundle: "hd (bundles w_one) \<in> set (bundles w_one)"
  by code_simp

theorem review_history_lifecycle_witness:
  "\<exists>b'\<in>set (bundles w_applying). b_id b' = b_id (hd (bundles w_one))
     \<and> (moved transitions)\<^sup>*\<^sup>* (b_state (hd (bundles w_one))) (b_state b')"
  using review_history_lifecycle [OF w_history_one w_one_ok w_one_bundle] by blast

theorem decisions_recorded_exactly_witness:
  "\<exists>b'. revisions w_two = revisions w_one \<and> find_row b_id 1 (bundles w_two) = Some b'
     \<and> b_state b' \<in> open_states \<union> {DISCARDED}"
proof -
  have "w_accept w_one = Inr w_two"
    using got_Inr [OF w_two_got] unfolding w_two_def by (auto split: sum.splits)
  from decisions_recorded_exactly [OF this] show ?thesis by blast
qed

theorem start_apply_run_gate_witness:
  "\<exists>r. current_revision w_ready 1 = Some r \<and> accepted_operations w_ready r \<noteq> [] \<and> active_tasks w_ready 1 = []"
proof -
  obtain a where a: "w_start w_ready = Inr (w_applying, a)"
    using db_of_got [OF w_start_got] by (auto simp: w_applying_def)
  show ?thesis using start_apply_run_gate [OF a w_ready_no_run] by blast
qed

theorem start_apply_run_idempotent_witness:
  "\<exists>a. w_start w_ready = Inr (w_applying, a) \<and> w_start w_applying = Inr (w_applying, a)"
proof -
  obtain a where a: "w_start w_ready = Inr (w_applying, a)"
    using db_of_got [OF w_start_got] by (auto simp: w_applying_def)
  show ?thesis using start_apply_run_idempotent [OF a] a by blast
qed

theorem no_active_task_while_applying_witness: "active_tasks w_applying 1 = []"
proof -
  obtain b where b: "b \<in> set (bundles w_applying)" "b_state b = APPLYING" "b_id b = 1"
    using w_applying_state by (cases "bundles w_applying") auto
  show ?thesis using no_active_task_while_applying [OF w_history b(1,2)] b(3) by simp
qed

end
