(* ===== verification/JobQueue.thy ===== *)
theory JobQueue
  imports ReviewTasks
begin

text \<open>
  The persistent job queue (\<open>jobs/queue.py\<close>) over the database of \<open>ReviewStore\<close>: claiming by
  conditional update, leases, terminal transitions, cancellation, events and the listing. The clock
  is an argument, in the unit of the lease. An operation is one transaction: the result is the
  committed database with what the function returns, or the exception that rolls it back. The bounded
  retry of a transaction on a busy database is modelled once, over the errors that its attempts meet.
\<close>

datatype job_exc = MaintenanceMode | JobMissing | TaskFailure review_exc | DatabaseError ustr

definition lift_review :: "review_exc + 'a \<Rightarrow> job_exc + 'a" where
  "lift_review x = (case x of Inl e \<Rightarrow> Inl (TaskFailure e) | Inr v \<Rightarrow> Inr v)"

fun job_state_text :: "job_state \<Rightarrow> ustr" where
  "job_state_text J_PENDING = U ''pending''"
| "job_state_text J_RUNNING = U ''running''"
| "job_state_text J_CANCELLING = U ''cancelling''"
| "job_state_text J_SUCCEEDED = U ''succeeded''"
| "job_state_text J_FAILED = U ''failed''"
| "job_state_text J_CANCELLED = U ''cancelled''"

section \<open>Claiming\<close>

definition enqueue ::
  "ustr \<Rightarrow> json \<Rightarrow> int \<Rightarrow> int option \<Rightarrow> int \<Rightarrow> db \<Rightarrow> job_exc + (db \<times> job)" where
  "enqueue type payload priority parent now d =
     (if maintenance d then Inl MaintenanceMode
      else
        let j = \<lparr>j_id = next_id j_id (jobs d), j_type = type, j_state = J_PENDING, j_priority = priority,
                 j_created = now, j_payload = payload, j_result = JNull, j_attempts = 0, j_lease = None,
                 j_worker = None, j_parent = parent, j_cancel = False, j_error = None\<rparr>
        in Inr (d\<lparr>jobs := jobs d @ [j]\<rparr>, j))"

definition next_pending_job_id :: "db \<Rightarrow> int option" where
  "next_pending_job_id d =
     (case sort_key (\<lambda>j. (- j_priority j, j_created j)) (filter (\<lambda>j. j_state j = J_PENDING) (jobs d)) of
        [] \<Rightarrow> None | j # _ \<Rightarrow> Some (j_id j))"

definition update_jobs :: "(job \<Rightarrow> bool) \<Rightarrow> (job \<Rightarrow> job) \<Rightarrow> db \<Rightarrow> db" where
  "update_jobs P f d = d\<lparr>jobs := update_where P f (jobs d)\<rparr>"

definition some_job :: "(job \<Rightarrow> bool) \<Rightarrow> db \<Rightarrow> bool" where
  "some_job P d \<longleftrightarrow> (\<exists>j\<in>set (jobs d). P j)"

definition claimable :: "int \<Rightarrow> job \<Rightarrow> bool" where
  "claimable c j \<longleftrightarrow> j_id j = c \<and> j_state j = J_PENDING"

definition claim :: "ustr \<Rightarrow> int \<Rightarrow> job \<Rightarrow> job" where
  "claim worker lease j =
     j\<lparr>j_state := J_RUNNING, j_worker := Some worker, j_lease := Some lease, j_attempts := j_attempts j + 1\<rparr>"

definition lease_next :: "ustr \<Rightarrow> int \<Rightarrow> int option \<Rightarrow> int \<Rightarrow> db \<Rightarrow> db \<times> job option" where
  "lease_next worker lease_seconds candidate now d =
     (if maintenance d then (d, None)
      else
        (case (case candidate of Some c \<Rightarrow> Some c | None \<Rightarrow> next_pending_job_id d) of
           None \<Rightarrow> (d, None)
         | Some c \<Rightarrow>
             if \<not> some_job (claimable c) d then (d, None)
             else
               let d' = update_jobs (claimable c) (claim worker (now + lease_seconds)) d
               in (d', find_row j_id c (jobs d'))))"

text \<open>\<open>_owner_filter\<close>: the active lease of one execution, named by its worker and attempt number.\<close>

definition leased :: "job \<Rightarrow> bool" where
  "leased j \<longleftrightarrow> j_state j = J_RUNNING \<or> j_state j = J_CANCELLING"

definition owner_filter :: "int \<Rightarrow> ustr \<Rightarrow> nat \<Rightarrow> job \<Rightarrow> bool" where
  "owner_filter jid worker n j \<longleftrightarrow> j_id j = jid \<and> j_worker j = Some worker \<and> j_attempts j = n \<and> leased j"

definition heartbeat :: "int \<Rightarrow> ustr \<Rightarrow> nat \<Rightarrow> int \<Rightarrow> int \<Rightarrow> db \<Rightarrow> db \<times> bool" where
  "heartbeat jid worker n lease_seconds now d =
     (update_jobs (owner_filter jid worker n) (\<lambda>j. j\<lparr>j_lease := Some (now + lease_seconds)\<rparr>) d,
      some_job (owner_filter jid worker n) d)"

section \<open>Events\<close>

definition job_events :: "db \<Rightarrow> int \<Rightarrow> job_event list" where
  "job_events d jid = filter (\<lambda>e. e_job e = jid) (events d)"

definition last_seq :: "db \<Rightarrow> int \<Rightarrow> nat" where
  "last_seq d jid = fold max (map e_seq (job_events d jid)) 0"

definition append_event :: "int \<Rightarrow> ustr \<Rightarrow> json \<Rightarrow> db \<Rightarrow> db" where
  "append_event jid kind payload d =
     d\<lparr>events := events d @ [\<lparr>e_job = jid, e_seq = last_seq d jid + 1, e_kind = kind, e_payload = payload\<rparr>]\<rparr>"

definition append_state_event :: "int \<Rightarrow> job_state \<Rightarrow> db \<Rightarrow> db" where
  "append_state_event jid s d = append_event jid (U ''state'') (JObj [(U ''state'', JStr (job_state_text s))]) d"

definition list_events_after :: "db \<Rightarrow> int \<Rightarrow> nat \<Rightarrow> job_event list" where
  "list_events_after d jid after = sort_key e_seq (filter (\<lambda>e. e_seq e > after) (job_events d jid))"

section \<open>Terminal transitions\<close>

definition release :: "job_state \<Rightarrow> json option \<Rightarrow> ustr option \<Rightarrow> job \<Rightarrow> job" where
  "release s result e j =
     j\<lparr>j_state := s, j_worker := None, j_lease := None,
       j_cancel := (if s = J_SUCCEEDED then False else j_cancel j),
       j_result := (case result of None \<Rightarrow> j_result j | Some r \<Rightarrow> r),
       j_error := (case e of None \<Rightarrow> j_error j | Some x \<Rightarrow> Some x)\<rparr>"

definition no_outcome :: ustr where
  "no_outcome = U ''task job completed without reporting an outcome''"

definition close_tasks :: "pystd \<Rightarrow> pyrepr \<Rightarrow> int \<Rightarrow> job_state \<Rightarrow> ustr option \<Rightarrow> db \<Rightarrow> review_exc + db" where
  "close_tasks std rp jid s e d =
     (if s = J_CANCELLED then finish_active_review_tasks std rp jid T_CANCELLED None d
      else if s = J_FAILED then finish_active_review_tasks std rp jid T_TRANSIENT_FAILURE e d
      else finish_active_review_tasks std rp jid T_PERMANENT_FAILURE (Some no_outcome) d)"

definition finish_transition ::
  "pystd \<Rightarrow> pyrepr \<Rightarrow> int \<Rightarrow> job_state \<Rightarrow> json option \<Rightarrow> ustr option \<Rightarrow> db \<Rightarrow> job_exc + db" where
  "finish_transition std rp jid s result e d =
     (if find_row j_id jid (jobs d) = None then Inl JobMissing
      else rbind (lift_review (close_tasks std rp jid s e
             (update_jobs (\<lambda>j. j_id j = jid) (release s result e) d))) (\<lambda>d'.
           Inr (append_state_event jid s d')))"

text \<open>
  The transitions first run a conditional \<open>UPDATE\<close>; what it writes is written again by
  \<open>finish_transition\<close> on the same row.
\<close>

definition committed_operation :: "json \<Rightarrow> bool" where
  "committed_operation result \<longleftrightarrow> jget result (U ''state'') \<in> {JStr (U ''applied''), JStr (U ''undone'')}"

definition uncancelled :: "job \<Rightarrow> bool" where
  "uncancelled j \<longleftrightarrow> j_state j = J_RUNNING \<and> \<not> j_cancel j"

definition cancel_pending :: "job \<Rightarrow> bool" where
  "cancel_pending j \<longleftrightarrow> j_state j = J_CANCELLING \<or> j_cancel j"

definition mark_succeeded ::
  "pystd \<Rightarrow> pyrepr \<Rightarrow> int \<Rightarrow> json \<Rightarrow> ustr \<Rightarrow> nat \<Rightarrow> db \<Rightarrow> job_exc + (db \<times> bool)" where
  "mark_succeeded std rp jid result worker n d =
     (let owner = owner_filter jid worker n in
      if some_job (\<lambda>j. owner j \<and> (committed_operation result \<or> uncancelled j)) d
      then rbind (finish_transition std rp jid J_SUCCEEDED (Some result) None
             (update_jobs (\<lambda>j. owner j \<and> (committed_operation result \<or> uncancelled j))
               (release J_SUCCEEDED (Some result) None) d)) (\<lambda>d'. Inr (d', True))
      else if \<not> committed_operation result \<and> some_job (\<lambda>j. owner j \<and> cancel_pending j) d
      then rbind (finish_transition std rp jid J_CANCELLED None None
             (update_jobs (\<lambda>j. owner j \<and> cancel_pending j) (release J_CANCELLED None None) d)) (\<lambda>d'. Inr (d', False))
      else Inr (d, False))"

definition mark_failed ::
  "pystd \<Rightarrow> pyrepr \<Rightarrow> int \<Rightarrow> ustr \<Rightarrow> ustr \<Rightarrow> nat \<Rightarrow> bool \<Rightarrow> db \<Rightarrow> job_exc + (db \<times> bool)" where
  "mark_failed std rp jid e worker n even_if_cancelled d =
     (let owner = owner_filter jid worker n in
      if some_job (\<lambda>j. owner j \<and> (even_if_cancelled \<or> uncancelled j)) d
      then rbind (finish_transition std rp jid J_FAILED None (Some e)
             (update_jobs (\<lambda>j. owner j \<and> (even_if_cancelled \<or> uncancelled j))
               (release J_FAILED None (Some e)) d)) (\<lambda>d'. Inr (d', True))
      else if \<not> even_if_cancelled \<and> some_job (\<lambda>j. owner j \<and> cancel_pending j) d
      then rbind (finish_transition std rp jid J_CANCELLED None None
             (update_jobs (\<lambda>j. owner j \<and> cancel_pending j) (release J_CANCELLED None None) d)) (\<lambda>d'. Inr (d', True))
      else Inr (d, False))"

text \<open>\<open>result\<close> is written even when it is absent.\<close>

definition mark_cancelled ::
  "pystd \<Rightarrow> pyrepr \<Rightarrow> int \<Rightarrow> json option \<Rightarrow> ustr \<Rightarrow> nat \<Rightarrow> db \<Rightarrow> job_exc + (db \<times> bool)" where
  "mark_cancelled std rp jid result worker n d =
     (if some_job (owner_filter jid worker n) d
      then rbind (finish_transition std rp jid J_CANCELLED result None
             (update_jobs (owner_filter jid worker n)
               (release J_CANCELLED (Some (case result of None \<Rightarrow> JNull | Some r \<Rightarrow> r)) None) d)) (\<lambda>d'. Inr (d', True))
      else Inr (d, False))"

section \<open>Cancellation\<close>

definition cancellable :: "int \<Rightarrow> job \<Rightarrow> bool" where
  "cancellable jid j \<longleftrightarrow> j_id j = jid \<and> (j_state j = J_PENDING \<or> j_state j = J_RUNNING)"

definition cancel_target :: "job \<Rightarrow> job_state" where
  "cancel_target j = (if j_state j = J_PENDING then J_CANCELLED else J_CANCELLING)"

definition request_cancel :: "pystd \<Rightarrow> pyrepr \<Rightarrow> int \<Rightarrow> db \<Rightarrow> job_exc + (db \<times> job option)" where
  "request_cancel std rp jid d =
     (case find (cancellable jid) (jobs d) of
        None \<Rightarrow> Inr (d, find_row j_id jid (jobs d))
      | Some j \<Rightarrow>
          let s = cancel_target j;
              d1 = update_jobs (cancellable jid) (\<lambda>j. j\<lparr>j_cancel := True, j_state := cancel_target j\<rparr>) d
          in rbind (lift_review (if s = J_CANCELLED
                      then finish_active_review_tasks std rp jid T_CANCELLED None d1 else Inr d1)) (\<lambda>d2.
             Inr (append_state_event jid s d2, find_row j_id jid (jobs d2))))"

section \<open>Retrying on a busy database\<close>

definition is_busy_error :: "pystd \<Rightarrow> ustr \<Rightarrow> bool" where
  "is_busy_error std message \<longleftrightarrow>
     (let msg = std_lower std message in
      contains_sub (U ''database is locked'') msg \<or> contains_sub (U ''database table is locked'') msg
      \<or> contains_sub (U ''busy'') msg)"

text \<open>
  At most \<open>left\<close> attempts; each element of the list is the error that an attempt meets, if any. A
  failed attempt is rolled back, so every attempt starts from the same database.
\<close>

fun retry_busy :: "pystd \<Rightarrow> nat \<Rightarrow> ustr option list \<Rightarrow> job_exc + 'a \<Rightarrow> job_exc + 'a" where
  "retry_busy std left (Some e # es) result =
     (if \<not> is_busy_error std e \<or> left \<le> 1 then Inl (DatabaseError e)
      else retry_busy std (left - 1) es result)"
| "retry_busy std left (None # es) result = result"
| "retry_busy std left [] result = result"

definition request_cancel_retrying ::
  "pystd \<Rightarrow> pyrepr \<Rightarrow> ustr option list \<Rightarrow> int \<Rightarrow> db \<Rightarrow> job_exc + (db \<times> job option)" where
  "request_cancel_retrying std rp es jid d = retry_busy std 5 es (request_cancel std rp jid d)"

definition append_event_retrying ::
  "pystd \<Rightarrow> ustr option list \<Rightarrow> int \<Rightarrow> ustr \<Rightarrow> json \<Rightarrow> db \<Rightarrow> job_exc + db" where
  "append_event_retrying std es jid kind payload d = retry_busy std 5 es (Inr (append_event jid kind payload d))"

definition commit_with_retry :: "pystd \<Rightarrow> nat \<Rightarrow> ustr option list \<Rightarrow> db \<Rightarrow> job_exc + db" where
  "commit_with_retry std limit es d = retry_busy std limit es (Inr d)"

text \<open>Fewer busy attempts than the limit do not show; any other error, or too many, is raised.\<close>

lemma retry_busy_transparent:
  "length es < left \<Longrightarrow> \<forall>e\<in>set es. \<exists>m. e = Some m \<and> is_busy_error std m \<Longrightarrow>
     retry_busy std left (es @ None # rest) result = result"
  by (induction std left es result rule: retry_busy.induct) auto

lemma retry_busy_raises:
  "retry_busy std left es result = Inl (DatabaseError m) \<Longrightarrow> result \<noteq> Inl (DatabaseError m) \<Longrightarrow>
     Some m \<in> set es"
  by (induction std left es result rule: retry_busy.induct) (auto split: if_splits)

section \<open>Listing\<close>

definition visible_job :: "job_state option \<Rightarrow> int option \<Rightarrow> bool \<Rightarrow> job \<Rightarrow> bool" where
  "visible_job state cursor include_system j \<longleftrightarrow>
     (case state of None \<Rightarrow> True | Some s \<Rightarrow> j_state j = s)
     \<and> (include_system \<or> j_type j \<noteq> U ''retention_sweep'')
     \<and> (case cursor of None \<Rightarrow> True | Some c \<Rightarrow> j_id j < c)"

definition list_jobs ::
  "db \<Rightarrow> job_state option \<Rightarrow> int option \<Rightarrow> nat \<Rightarrow> bool \<Rightarrow> job list \<times> int option" where
  "list_jobs d state cursor limit include_system =
     (let rows = take (limit + 1) (sort_key (\<lambda>j. - j_id j) (filter (visible_job state cursor include_system) (jobs d)));
          items = take limit rows
      in (items, if length rows > limit \<and> items \<noteq> [] then Some (j_id (last items)) else None))"

end
