(* ===== verification/JobRecovery.thy ===== *)
theory JobRecovery
  imports JobQueue
begin

text \<open>
  The recovery of interrupted jobs (\<open>recover_stuck_jobs\<close> of \<open>jobs/queue.py\<close>). The per-job lock of the
  operating system, the clock and the reconciliation of an interrupted undo with the file system are
  parameters.
\<close>

section \<open>File jobs\<close>

text \<open>The dictionary display \<open>{**base, **result}\<close>.\<close>

definition merge_json :: "json \<Rightarrow> json \<Rightarrow> json" where
  "merge_json base result = fold (\<lambda>(k, v). jset k v) (entries result) base"

definition persisted_terminal_failure :: "json \<Rightarrow> bool" where
  "persisted_terminal_failure result \<longleftrightarrow>
     is_dict result \<and> jget result (U ''state'') = JStr (U ''failed'')
     \<and> is_bool (jget result (U ''recovery_required''))"

definition recovery_error :: "pystd \<Rightarrow> ustr \<Rightarrow> ustr option \<Rightarrow> ustr" where
  "recovery_error std message original =
     (case original of
        None \<Rightarrow> U ''recovery_required: '' @ message
      | Some x \<Rightarrow>
          if contains_sub (U ''recovery_required'') (std_lower std x) then x
          else U ''recovery_required: '' @ message @ U ''; prior error: '' @ x)"

definition failed_undo_file :: "ustr \<Rightarrow> json \<Rightarrow> json" where
  "failed_undo_file e entry =
     JObj [(U ''track_id'', jget entry (U ''track_id'')), (U ''state'', JStr (U ''failed'')),
           (U ''source_change_set_ids'', JList []), (U ''error'', JStr e), (U ''retryable'', JBool False)]"

definition failed_undo_file_results :: "undo_run \<Rightarrow> ustr \<Rightarrow> json list" where
  "failed_undo_file_results run e =
     (let manifest = (if is_dict (u_manifest run) then u_manifest run else JObj []);
          raw_files = jget_default manifest (U ''files'') (JList [])
      in if \<not> is_list raw_files then []
         else map (failed_undo_file e)
           (filter (\<lambda>x. is_dict x \<and> valid_integer (jget x (U ''track_id''))) (list_value raw_files)))"

text \<open>What recovery decides for a job: its state, its result and its error.\<close>

type_synonym verdict = "job_state \<times> json option \<times> ustr option"

definition lost_run :: "string \<Rightarrow> verdict" where
  "lost_run message =
     (J_FAILED, Some (JObj [(U ''state'', JStr (U ''failed'')), (U ''recovery_required'', JBool True)]),
      Some (U message))"

text \<open>\<open>raw_id\<close> as \<open>int(raw_id)\<close> reads it: \<open>Inl\<close> is the verdict on an id that is none.\<close>

definition run_id_of :: "pystd \<Rightarrow> json \<Rightarrow> verdict + int" where
  "run_id_of std raw =
     (if is_int raw then Inr (int_value raw)
      else if is_str raw
      then (case parse_int std (str_value raw) of
              Some n \<Rightarrow> Inr n
            | None \<Rightarrow> Inl (lost_run ''recovery_required: interrupted file job has an invalid run id''))
      else Inl (lost_run ''recovery_required: interrupted file job has no run id''))"

definition was_cancelled :: "pystd \<Rightarrow> json \<Rightarrow> ustr option \<Rightarrow> bool" where
  "was_cancelled std result e \<longleftrightarrow>
     truthy (jget result (U ''cancelled''))
     \<or> (case e of None \<Rightarrow> False | Some x \<Rightarrow> take 9 (std_lower std x) = U ''cancelled'')"

definition failure_target :: "pystd \<Rightarrow> json \<Rightarrow> ustr option \<Rightarrow> job_state" where
  "failure_target std result e =
     (if truthy (jget result (U ''recovery_required'')) \<or> \<not> was_cancelled std result e
      then J_FAILED else J_CANCELLED)"

subsection \<open>Apply\<close>

definition apply_ids :: "apply_run \<Rightarrow> json" where
  "apply_ids a = JObj [(U ''apply_run_id'', JInt (a_id a)), (U ''review_bundle_id'', JInt (a_bundle a))]"

definition unproven_apply_result :: "apply_run \<Rightarrow> json" where
  "unproven_apply_result a =
     (let base = (if is_dict (a_result a) then a_result a else JObj []) in
      merge_json base (JObj [(U ''state'', JStr (U ''failed'')),
        (U ''atomicity'', jget_default base (U ''atomicity'') (JStr (U ''review_bundle''))),
        (U ''files'', jget_default base (U ''files'') (JList [])), (U ''recovery_required'', JBool True)]))"

definition fail_run :: "apply_run \<Rightarrow> ustr \<Rightarrow> json \<Rightarrow> db \<Rightarrow> db" where
  "fail_run a e result d =
     d\<lparr>apply_runs := update_where (\<lambda>x. a_id x = a_id a)
        (\<lambda>x. x\<lparr>a_state := RUN_FAILED, a_error := Some e, a_result := result\<rparr>) (apply_runs d)\<rparr>"

definition fail_bundle :: "int \<Rightarrow> ustr \<Rightarrow> db \<Rightarrow> db" where
  "fail_bundle i e d =
     d\<lparr>bundles := update_where (\<lambda>b. b_id b = i)
        (\<lambda>b. b\<lparr>b_state := (if b_state b = APPLYING then FAILED else b_state b), b_error := Some e\<rparr>) (bundles d)\<rparr>"

definition apply_recovery :: "pystd \<Rightarrow> pyrepr \<Rightarrow> int \<Rightarrow> db \<Rightarrow> db \<times> verdict" where
  "apply_recovery std rp rid d =
     (case find_row a_id rid (apply_runs d) of
        None \<Rightarrow> (d, lost_run ''recovery_required: interrupted ApplyRun is missing'')
      | Some a \<Rightarrow>
          if a_state a = RUN_APPLIED \<and> is_dict (a_result a) \<and> jget (a_result a) (U ''state'') = JStr (U ''applied'')
          then (d, J_SUCCEEDED, Some (merge_json (apply_ids a) (a_result a)), None)
          else if a_state a = RUN_FAILED \<and> persisted_terminal_failure (a_result a)
          then (refresh_inbox_entry std rp (a_bundle a) d,
                failure_target std (a_result a) (a_error a), Some (merge_json (apply_ids a) (a_result a)), a_error a)
          else
            let e = recovery_error std (U ''interrupted Apply was not proven committed'') (a_error a);
                result = unproven_apply_result a
            in (refresh_inbox_entry std rp (a_bundle a) (fail_bundle (a_bundle a) e (fail_run a e result d)),
                J_FAILED, Some (merge_json (apply_ids a) result), Some e))"

subsection \<open>Undo\<close>

text \<open>
  What reconciling an interrupted undo with the file system gives (\<open>changes/bundle_undo.py\<close>): the
  database it leaves, whether it reconciled, the file results and whether they can be retried; or
  the exception it raised.
\<close>

datatype undo_outcome = Reconciled db bool "json list" bool | ReconcileError db ustr

definition undo_ids :: "undo_run \<Rightarrow> json" where
  "undo_ids u = JObj [(U ''undo_run_id'', JInt (u_id u)), (U ''review_bundle_id'', JInt (u_bundle u)),
     (U ''source_apply_run_id'', JInt (u_source_run u))]"

definition reconcile ::
  "pystd \<Rightarrow> (int \<Rightarrow> db \<Rightarrow> undo_outcome) option \<Rightarrow> undo_run \<Rightarrow> db \<Rightarrow> db \<times> bool \<times> json list \<times> bool" where
  "reconcile std undo u d =
     (case undo of
        None \<Rightarrow> (d, False, [], False)
      | Some f \<Rightarrow>
          if u_state u \<noteq> U_UNDOING then (d, False, [], False)
          else (case f (u_id u) d of
                  Reconciled d' done files retryable \<Rightarrow>
                    if done then (d', True, files, retryable) else (d', False, [], False)
                | ReconcileError d' e \<Rightarrow>
                    (d'\<lparr>undo_runs := update_where (\<lambda>x. u_id x = u_id u)
                        (\<lambda>x. x\<lparr>u_error := Some (recovery_error std
                           (U ''interrupted Undo recovery failed: '' @ e) (u_error x))\<rparr>) (undo_runs d')\<rparr>,
                     False, [], False)))"

definition unproven_undo_result :: "undo_run \<Rightarrow> json list \<Rightarrow> bool \<Rightarrow> json" where
  "unproven_undo_result u files retryable =
     merge_json (if is_dict (u_result u) then u_result u else JObj [])
       (JObj [(U ''state'', JStr (U ''failed'')), (U ''atomicity'', JStr (U ''review_bundle'')),
              (U ''files'', JList files), (U ''recovery_required'', JBool True), (U ''retryable'', JBool retryable)])"

definition fail_undo :: "undo_run \<Rightarrow> ustr \<Rightarrow> json \<Rightarrow> db \<Rightarrow> db" where
  "fail_undo u e result d =
     d\<lparr>undo_runs := update_where (\<lambda>x. u_id x = u_id u)
        (\<lambda>x. x\<lparr>u_state := U_FAILED, u_error := Some e, u_result := result\<rparr>) (undo_runs d)\<rparr>"

definition settle_undo :: "pystd \<Rightarrow> pyrepr \<Rightarrow> undo_run \<Rightarrow> bool \<times> json list \<times> bool \<Rightarrow> db \<Rightarrow> db \<times> verdict" where
  "settle_undo std rp u outcome d =
     (case outcome of (reconciled, files0, checkpoint) \<Rightarrow>
        if u_state u = U_UNDONE \<and> is_dict (u_result u) \<and> jget (u_result u) (U ''state'') = JStr (U ''undone'')
        then (d, J_SUCCEEDED, Some (merge_json (undo_ids u) (u_result u)), None)
        else if u_state u = U_FAILED \<and> persisted_terminal_failure (u_result u)
        then (refresh_inbox_entry std rp (u_bundle u) d,
              failure_target std (u_result u) (u_error u), Some (merge_json (undo_ids u) (u_result u)), u_error u)
        else
          let e = recovery_error std (U ''interrupted Undo was not proven committed'') (u_error u);
              files = (if files0 = [] then failed_undo_file_results u e else files0);
              result = unproven_undo_result u files (reconciled \<and> checkpoint)
          in (refresh_inbox_entry std rp (u_bundle u) (set_bundle_error (u_bundle u) (Some e) (fail_undo u e result d)),
              J_FAILED, Some (merge_json (undo_ids u) result), Some e))"

definition undo_recovery ::
  "pystd \<Rightarrow> pyrepr \<Rightarrow> (int \<Rightarrow> db \<Rightarrow> undo_outcome) option \<Rightarrow> int \<Rightarrow> db \<Rightarrow> db \<times> verdict" where
  "undo_recovery std rp undo rid d =
     (case find_row u_id rid (undo_runs d) of
        None \<Rightarrow> (d, lost_run ''recovery_required: interrupted ReviewUndoRun is missing'')
      | Some u \<Rightarrow>
          (case reconcile std undo u d of (d', outcome) \<Rightarrow>
             (case find_row u_id rid (undo_runs d') of
                None \<Rightarrow> settle_undo std rp u outcome d'
              | Some u' \<Rightarrow> settle_undo std rp u' outcome d')))"

definition file_job :: "job \<Rightarrow> bool" where
  "file_job j \<longleftrightarrow> j_type j = U ''apply_review_bundle'' \<or> j_type j = U ''undo_review_bundle''"

definition file_job_recovery ::
  "pystd \<Rightarrow> pyrepr \<Rightarrow> (int \<Rightarrow> db \<Rightarrow> undo_outcome) option \<Rightarrow> job \<Rightarrow> db \<Rightarrow> db \<times> verdict" where
  "file_job_recovery std rp undo j d =
     (let apply = (j_type j = U ''apply_review_bundle'') in
      case run_id_of std (jget (j_payload j) (if apply then U ''apply_run_id'' else U ''undo_run_id'')) of
        Inl v \<Rightarrow> (d, v)
      | Inr rid \<Rightarrow> if apply then apply_recovery std rp rid d else undo_recovery std rp undo rid d)"

section \<open>The sweep\<close>

definition lease_expired :: "int \<Rightarrow> job \<Rightarrow> bool" where
  "lease_expired now j \<longleftrightarrow> (case j_lease j of None \<Rightarrow> True | Some t \<Rightarrow> t \<le> now)"

definition expired_lease_filter :: "job \<Rightarrow> int \<Rightarrow> job \<Rightarrow> bool" where
  "expired_lease_filter j now x \<longleftrightarrow>
     j_id x = j_id j \<and> leased x \<and> j_attempts x = j_attempts j \<and> j_worker x = j_worker j \<and> lease_expired now x"

definition recovery_verdict ::
  "pystd \<Rightarrow> pyrepr \<Rightarrow> (int \<Rightarrow> db \<Rightarrow> undo_outcome) option \<Rightarrow> job \<Rightarrow> db \<Rightarrow> db \<times> verdict" where
  "recovery_verdict std rp undo j d =
     (if file_job j then file_job_recovery std rp undo j d
      else (d, if j_cancel j \<or> j_state j = J_CANCELLING then J_CANCELLED else J_PENDING, None, None))"

definition recovered_job :: "verdict \<Rightarrow> job \<Rightarrow> job" where
  "recovered_job v j =
     (case v of (s, result, e) \<Rightarrow>
        j\<lparr>j_state := s, j_worker := None, j_lease := None,
          j_result := (if s \<noteq> J_PENDING then (case result of None \<Rightarrow> JNull | Some r \<Rightarrow> r) else j_result j),
          j_error := (case e of None \<Rightarrow> j_error j | Some x \<Rightarrow> Some x),
          j_cancel := (if s = J_SUCCEEDED then False else j_cancel j)\<rparr>)"

definition settle_tasks :: "pystd \<Rightarrow> pyrepr \<Rightarrow> int \<Rightarrow> verdict \<Rightarrow> db \<Rightarrow> review_exc + db" where
  "settle_tasks std rp jid v d =
     (case v of (s, _, e) \<Rightarrow>
        if s = J_PENDING
        then Inr (d\<lparr>attempts := update_where (active_of_job jid) (\<lambda>t. t\<lparr>t_state := T_PENDING\<rparr>) (attempts d)\<rparr>)
        else if s = J_CANCELLED then finish_active_review_tasks std rp jid T_CANCELLED None d
        else if s = J_FAILED then finish_active_review_tasks std rp jid T_PERMANENT_FAILURE e d
        else Inr d)"

text \<open>One candidate; the flag says whether it counts as recovered.\<close>

definition recover_one ::
  "pystd \<Rightarrow> pyrepr \<Rightarrow> (int \<Rightarrow> db \<Rightarrow> undo_outcome) option \<Rightarrow> (int \<Rightarrow> bool) \<Rightarrow> int \<Rightarrow> int \<Rightarrow> db \<Rightarrow>
   review_exc + (db \<times> bool)" where
  "recover_one std rp undo lock now jid d =
     (if \<not> lock jid then Inr (d, False)
      else
        (case find_row j_id jid (jobs d) of
           None \<Rightarrow> Inr (d, False)
         | Some j \<Rightarrow>
             if \<not> leased j \<or> \<not> lease_expired now j then Inr (d, False)
             else
               (case recovery_verdict std rp undo j d of (d1, v) \<Rightarrow>
                  if \<not> some_job (expired_lease_filter j now) d1 then Inr (d, False)
                  else rbind (settle_tasks std rp jid v (update_jobs (expired_lease_filter j now) (recovered_job v) d1))
                    (\<lambda>d2. Inr (append_state_event jid (fst v) d2, True)))))"

text \<open>The loop commits after every candidate, so an exception keeps what came before it.\<close>

fun recover_loop ::
  "pystd \<Rightarrow> pyrepr \<Rightarrow> (int \<Rightarrow> db \<Rightarrow> undo_outcome) option \<Rightarrow> (int \<Rightarrow> bool) \<Rightarrow> (int \<Rightarrow> int) \<Rightarrow> int list \<Rightarrow> nat \<Rightarrow> db \<Rightarrow>
   db \<times> (review_exc + nat)" where
  "recover_loop std rp undo lock clock [] n d = (d, Inr n)"
| "recover_loop std rp undo lock clock (i # is) n d =
     (case recover_one std rp undo lock (clock i) i d of
        Inl e \<Rightarrow> (d, Inl e)
      | Inr (d', b) \<Rightarrow> recover_loop std rp undo lock clock is (if b then n + 1 else n) d')"

definition stuck_candidates :: "int \<Rightarrow> db \<Rightarrow> int list" where
  "stuck_candidates now d = map j_id (filter (\<lambda>j. leased j \<and> lease_expired now j) (jobs d))"

definition recover_stuck_jobs ::
  "pystd \<Rightarrow> pyrepr \<Rightarrow> (int \<Rightarrow> db \<Rightarrow> undo_outcome) option \<Rightarrow> (int \<Rightarrow> bool) \<Rightarrow> int \<Rightarrow> (int \<Rightarrow> int) \<Rightarrow> db \<Rightarrow>
   db \<times> (review_exc + nat)" where
  "recover_stuck_jobs std rp undo lock now clock d =
     recover_loop std rp undo lock clock (stuck_candidates now d) 0 d"

end
