(* ===== verification/JobFacts.thy ===== *)
theory JobFacts
  imports JobRecovery
begin

text \<open>
  How the operations of the queue change the job table: row by row, along the lifecycle of a job,
  with an attempt number that grows exactly when a pending job is claimed. The lifecycle is an
  instance of the shared interface.
\<close>

section \<open>The lifecycle of a job\<close>

fun job_moves :: "job_state \<Rightarrow> job_state set" where
  "job_moves J_PENDING = {J_RUNNING, J_CANCELLED}"
| "job_moves J_RUNNING = {J_CANCELLING, J_SUCCEEDED, J_FAILED, J_CANCELLED, J_PENDING}"
| "job_moves J_CANCELLING = {J_SUCCEEDED, J_FAILED, J_CANCELLED}"
| "job_moves J_SUCCEEDED = {}"
| "job_moves J_FAILED = {}"
| "job_moves J_CANCELLED = {}"

definition terminal_job_states :: "job_state set" where
  "terminal_job_states = {J_SUCCEEDED, J_FAILED, J_CANCELLED}"

interpretation jobs: lifecycle job_moves terminal_job_states
  by unfold_locales (auto simp: terminal_job_states_def)

text \<open>One row: claimed, or moved without gaining a lease.\<close>

definition claimed :: "job \<Rightarrow> job \<Rightarrow> bool" where
  "claimed j j' \<longleftrightarrow> j_state j = J_PENDING \<and> j_state j' = J_RUNNING \<and> j_attempts j' = j_attempts j + 1"

definition kept :: "job \<Rightarrow> job \<Rightarrow> bool" where
  "kept j j' \<longleftrightarrow> j_attempts j' = j_attempts j \<and> moved job_moves (j_state j) (j_state j') \<and> (leased j' \<longrightarrow> leased j)"

definition row_ok :: "job \<Rightarrow> job \<Rightarrow> bool" where
  "row_ok j j' \<longleftrightarrow> j_id j' = j_id j \<and> (claimed j j' \<or> kept j j')"

lemma kept_refl [simp, intro]: "kept j j"
  by (simp add: kept_def)

lemma row_ok_refl [simp, intro]: "row_ok j j"
  by (simp add: row_ok_def)

lemma row_ok_moved: "row_ok j j' \<Longrightarrow> moved job_moves (j_state j) (j_state j')"
  by (auto simp: row_ok_def claimed_def kept_def moved_def)

text \<open>A change of the table: every row by itself, and new pending rows under fresh ids.\<close>

definition jobs_evolve :: "job list \<Rightarrow> job list \<Rightarrow> bool" where
  "jobs_evolve js js' \<longleftrightarrow>
     (\<exists>f new. js' = map f js @ new \<and> (\<forall>j\<in>set js. row_ok j (f j))
        \<and> (\<forall>j\<in>set new. j_state j = J_PENDING \<and> j_attempts j = 0) \<and> distinct (map j_id (map f js @ new)))"

lemma jobs_evolveI:
  assumes "js' = map f js" and "\<And>j. j \<in> set js \<Longrightarrow> row_ok j (f j)" and "distinct (map j_id js)"
  shows "jobs_evolve js js'"
proof -
  have "map j_id (map f js) = map j_id js" using assms(2) by (auto simp: row_ok_def)
  then show ?thesis unfolding jobs_evolve_def
    by (intro exI [of _ f] exI [of _ "[]"]) (use assms in \<open>simp del: map_map\<close>)
qed

lemma jobs_evolve_refl: "distinct (map j_id js) \<Longrightarrow> jobs_evolve js js"
  by (rule jobs_evolveI [of _ id]) auto

lemma jobs_evolve_distinct: "jobs_evolve js js' \<Longrightarrow> distinct (map j_id js')"
  by (auto simp: jobs_evolve_def)

lemma jobs_evolve_evolves: "jobs_evolve js js' \<Longrightarrow> evolves job_moves j_id j_state js js'"
proof -
  assume "jobs_evolve js js'"
  then obtain f new where js': "js' = map f js @ new" and ok: "\<forall>j\<in>set js. row_ok j (f j)"
    unfolding jobs_evolve_def by blast
  have "evolves job_moves j_id j_state js (map f js)"
    by (rule evolves_map) (use ok row_ok_moved in \<open>auto simp: row_ok_def\<close>)
  then show ?thesis unfolding js' by (rule evolves_append)
qed

lemma evolve_update:
  assumes "distinct (map j_id js)" and "\<And>j. j \<in> set js \<Longrightarrow> P j \<Longrightarrow> row_ok j (f j)"
  shows "jobs_evolve js (update_where P f js)"
  by (rule jobs_evolveI [OF _ _ assms(1), of _ "\<lambda>j. if P j then f j else j"])
    (use assms(2) in \<open>auto simp: update_where_def\<close>)

text \<open>A conditional update that hits the row with an id, followed by one of the whole row.\<close>

lemma evolve_update_twice:
  assumes ids: "distinct (map j_id js)" and hit: "\<exists>j\<in>set js. P j"
    and only: "\<And>j. P j \<Longrightarrow> j_id j = i" and keep: "\<And>j. P j \<Longrightarrow> j_id (f j) = j_id j"
    and ok: "\<And>j. j \<in> set js \<Longrightarrow> P j \<Longrightarrow> row_ok j (g (f j))"
  shows "jobs_evolve js (update_where (\<lambda>j. j_id j = i) g (update_where P f js))"
proof (rule jobs_evolveI [OF _ _ ids, of _ "\<lambda>j. if P j then g (f j) else j"])
  obtain h where h: "h \<in> set js" "P h" "j_id h = i" using hit only by blast
  have "P j" if "j \<in> set js" "j_id j = i" for j
    using ids h that by (metis find_row_unique option.inject)
  then show "update_where (\<lambda>j. j_id j = i) g (update_where P f js) = map (\<lambda>j. if P j then g (f j) else j) js"
    using only keep by (auto simp: update_where_def)
qed (use ok in auto)

section \<open>The routines of the review service leave the queue alone\<close>

definition same_queue :: "db \<Rightarrow> db \<Rightarrow> bool" where
  "same_queue d d' \<longleftrightarrow> jobs d' = jobs d \<and> events d' = events d"

lemma same_queue_refl [simp, intro]: "same_queue d d"
  by (simp add: same_queue_def)

lemma same_queue_trans [trans]: "same_queue d d' \<Longrightarrow> same_queue d' d'' \<Longrightarrow> same_queue d d''"
  by (simp add: same_queue_def)

lemma same_queue_inbox [simp]: "same_queue d (refresh_inbox_entry std rp i d') = same_queue d d'"
  by (simp add: same_queue_def)

lemma flush_outcome_queue: "flush_outcome i s e d = Inr d' \<Longrightarrow> same_queue d d'"
  by (auto simp: flush_outcome_def flush_state_def set_bundle_state_def set_bundle_error_def same_queue_def
      rbind_eq_Inr split: option.splits if_split_asm)

lemma refresh_review_queue: "refresh_review_task_state std rp i d = Inr d' \<Longrightarrow> same_queue d d'"
  by (auto simp: refresh_review_task_state_def rbind_eq_Inr dest: flush_outcome_queue
      split: option.splits if_split_asm)

lemma refresh_all_queue: "refresh_all std rp is d = Inr d' \<Longrightarrow> same_queue d d'"
proof (induction std rp "is" d arbitrary: d' rule: refresh_all.induct)
  case (2 std rp i "is" d)
  then obtain d1 where "refresh_review_task_state std rp i d = Inr d1" "refresh_all std rp is d1 = Inr d'"
    by (auto simp: rbind_eq_Inr)
  then show ?case using 2(1) refresh_review_queue same_queue_trans by blast
qed simp

lemma finish_active_queue:
  assumes "finish_active_review_tasks std rp jid s e d = Inr d'"
  shows "same_queue d d'"
proof -
  obtain x "is" where "refresh_all std rp is (d\<lparr>attempts := x\<rparr>) = Inr d'"
    using assms by (auto simp: finish_active_review_tasks_def Let_def)
  from refresh_all_queue [OF this] show ?thesis by (simp add: same_queue_def)
qed

lemma close_tasks_queue: "close_tasks std rp jid s e d = Inr d' \<Longrightarrow> same_queue d d'"
  by (auto simp: close_tasks_def dest: finish_active_queue split: if_split_asm)

lemma lift_review_Inr: "lift_review x = Inr y \<longleftrightarrow> x = Inr y"
  by (auto simp: lift_review_def split: sum.splits)

lemma finish_transition_Inr:
  assumes "finish_transition std rp jid s result e d = Inr d'"
  shows "jobs d' = update_where (\<lambda>j. j_id j = jid) (release s result e) (jobs d)"
    and "\<exists>d1. events d1 = events d \<and> d' = append_state_event jid s d1"
proof -
  obtain d1 where d1: "close_tasks std rp jid s e (update_jobs (\<lambda>j. j_id j = jid) (release s result e) d) = Inr d1"
      "d' = append_state_event jid s d1"
    using assms by (auto simp: finish_transition_def rbind_eq_Inr lift_review_Inr split: if_split_asm)
  then show "jobs d' = update_where (\<lambda>j. j_id j = jid) (release s result e) (jobs d)"
    "\<exists>d1. events d1 = events d \<and> d' = append_state_event jid s d1"
    using close_tasks_queue [OF d1(1)]
    by (auto simp: same_queue_def update_jobs_def append_state_event_def append_event_def)
qed

section \<open>Each operation\<close>

lemma release_fields [simp]:
  "j_id (release s r e j) = j_id j" "j_state (release s r e j) = s" "j_attempts (release s r e j) = j_attempts j"
  "j_worker (release s r e j) = None" "j_lease (release s r e j) = None"
  by (simp_all add: release_def)

lemma release_row_ok: "leased j \<Longrightarrow> s \<in> terminal_job_states \<Longrightarrow> row_ok j (release s r' e' (release s r e j))"
  by (auto simp: row_ok_def kept_def moved_def leased_def terminal_job_states_def)

text \<open>A mark that is not refused: one conditional update, then the transition to the same state.\<close>

lemma marked_evolve:
  assumes fin: "finish_transition std rp jid s r' e' (update_jobs P (release s r e) d) = Inr d'"
    and hit: "some_job P d" and sub: "\<And>j. P j \<Longrightarrow> owner_filter jid worker n j"
    and s: "s \<in> terminal_job_states" and ids: "distinct (map j_id (jobs d))"
  shows "jobs_evolve (jobs d) (jobs d')"
proof -
  have jobs: "jobs d' = update_where (\<lambda>j. j_id j = jid) (release s r' e') (update_where P (release s r e) (jobs d))"
    using finish_transition_Inr(1) [OF fin] by (simp add: update_jobs_def)
  show ?thesis unfolding jobs
  proof (rule evolve_update_twice [OF ids])
    show "\<exists>j\<in>set (jobs d). P j" using hit by (simp add: some_job_def)
    show "row_ok j (release s r' e' (release s r e j))" if "P j" for j
      using sub [OF that] s by (intro release_row_ok) (simp_all add: owner_filter_def)
  qed (use sub in \<open>simp_all add: owner_filter_def\<close>)
qed

lemma terminal_states [simp]:
  "J_SUCCEEDED \<in> terminal_job_states" "J_FAILED \<in> terminal_job_states" "J_CANCELLED \<in> terminal_job_states"
  by (simp_all add: terminal_job_states_def)

lemma mark_succeeded_evolve:
  assumes "mark_succeeded std rp jid r worker n d = Inr (d', b)" and ids: "distinct (map j_id (jobs d))"
  shows "jobs_evolve (jobs d) (jobs d')"
  using assms(1) jobs_evolve_refl [OF ids] marked_evolve [OF _ _ _ _ ids, of std rp jid _ _ _ _ _ _ d' worker n]
  unfolding mark_succeeded_def Let_def
  by (auto simp: rbind_eq_Inr split: if_split_asm)

lemma mark_failed_evolve:
  assumes "mark_failed std rp jid e worker n c d = Inr (d', b)" and ids: "distinct (map j_id (jobs d))"
  shows "jobs_evolve (jobs d) (jobs d')"
  using assms(1) jobs_evolve_refl [OF ids] marked_evolve [OF _ _ _ _ ids, of std rp jid _ _ _ _ _ _ d' worker n]
  unfolding mark_failed_def Let_def
  by (auto simp: rbind_eq_Inr split: if_split_asm)

lemma mark_cancelled_evolve:
  assumes "mark_cancelled std rp jid r worker n d = Inr (d', b)" and ids: "distinct (map j_id (jobs d))"
  shows "jobs_evolve (jobs d) (jobs d')"
  using assms(1) jobs_evolve_refl [OF ids] marked_evolve [OF _ _ _ _ ids, of std rp jid _ _ _ _ _ _ d' worker n]
  unfolding mark_cancelled_def
  by (auto simp: rbind_eq_Inr split: if_split_asm)

end
