(* ===== verification/JobProperties.thy ===== *)
theory JobProperties
  imports JobFacts
begin

text \<open>
  The queue as a transition system, with the properties of its histories: the lifecycle, ownership by
  one execution, cancellation, the event log, recovery and the listing.
\<close>

section \<open>The remaining operations\<close>

lemma enqueue_evolve:
  assumes "enqueue type payload priority parent now d = Inr (d', j)" and ids: "distinct (map j_id (jobs d))"
  shows "jobs_evolve (jobs d) (jobs d') \<and> events d' = events d"
proof -
  have d': "d' = d\<lparr>jobs := jobs d @ [j]\<rparr>" and j: "j_state j = J_PENDING" "j_attempts j = 0" "j_id j = next_id j_id (jobs d)"
    using assms(1) by (auto simp: enqueue_def Let_def split: if_split_asm)
  have "distinct (map j_id (jobs d @ [j]))" by (rule distinct_next_id [OF ids j(3)])
  then show ?thesis unfolding jobs_evolve_def d'
    by (intro conjI exI [of _ id] exI [of _ "[j]"]) (simp_all add: j)
qed

lemma lease_next_evolve:
  assumes "lease_next worker secs c now d = (d', r)" and ids: "distinct (map j_id (jobs d))"
  shows "jobs_evolve (jobs d) (jobs d') \<and> events d' = events d"
proof -
  consider "d' = d" | k where "d' = update_jobs (claimable k) (claim worker (now + secs)) d"
    using assms(1) by (auto simp: lease_next_def Let_def split: if_split_asm option.splits)
  then show ?thesis
  proof cases
    case (2 k)
    have "jobs_evolve (jobs d) (update_where (claimable k) (claim worker (now + secs)) (jobs d))"
      by (rule evolve_update [OF ids]) (simp add: claimable_def claim_def row_ok_def claimed_def)
    then show ?thesis by (simp add: 2 update_jobs_def)
  qed (simp add: jobs_evolve_refl ids)
qed

lemma heartbeat_evolve:
  assumes "heartbeat jid worker n secs now d = (d', b)" and ids: "distinct (map j_id (jobs d))"
  shows "jobs_evolve (jobs d) (jobs d') \<and> events d' = events d"
proof -
  have "jobs_evolve (jobs d) (update_where (owner_filter jid worker n) (\<lambda>j. j\<lparr>j_lease := Some (now + secs)\<rparr>) (jobs d))"
    by (rule evolve_update [OF ids]) (simp add: row_ok_def kept_def leased_def)
  then show ?thesis using assms(1) by (auto simp: heartbeat_def update_jobs_def)
qed

lemma request_cancel_Some:
  assumes "request_cancel std rp jid d = Inr (d', r)" and "find (cancellable jid) (jobs d) = Some j"
  obtains d2 where
    "same_queue (update_jobs (cancellable jid) (\<lambda>j. j\<lparr>j_cancel := True, j_state := cancel_target j\<rparr>) d) d2"
    "d' = append_state_event jid (cancel_target j) d2"
  using assms by (auto simp: request_cancel_def Let_def rbind_eq_Inr lift_review_Inr
      dest: finish_active_queue split: if_split_asm)

lemma request_cancel_evolve:
  assumes "request_cancel std rp jid d = Inr (d', r)" and ids: "distinct (map j_id (jobs d))"
  shows "jobs_evolve (jobs d) (jobs d')"
proof -
  let ?js = "update_where (cancellable jid) (\<lambda>j. j\<lparr>j_cancel := True, j_state := cancel_target j\<rparr>) (jobs d)"
  have "jobs_evolve (jobs d) ?js"
    by (rule evolve_update [OF ids])
      (auto simp: cancellable_def cancel_target_def row_ok_def kept_def moved_def leased_def)
  moreover have "d' = d \<or> jobs d' = ?js"
  proof (cases "find (cancellable jid) (jobs d)")
    case (Some j)
    show ?thesis
      by (rule request_cancel_Some [OF assms(1) Some]) (simp add: same_queue_def update_jobs_def append_state_event_def append_event_def)
  qed (use assms(1) in \<open>simp add: request_cancel_def\<close>)
  ultimately show ?thesis using jobs_evolve_refl [OF ids] by auto
qed

text \<open>The reconciliation of an undo works on files and review rows; it leaves the queue alone.\<close>

definition undo_keeps_queue :: "(int \<Rightarrow> db \<Rightarrow> undo_outcome) option \<Rightarrow> bool" where
  "undo_keeps_queue undo \<longleftrightarrow>
     (case undo of None \<Rightarrow> True
      | Some f \<Rightarrow> (\<forall>i d. case f i d of Reconciled d' _ _ _ \<Rightarrow> same_queue d d' | ReconcileError d' _ \<Rightarrow> same_queue d d'))"

lemma reconcile_queue:
  "undo_keeps_queue undo \<Longrightarrow> reconcile std undo u d = (d', x) \<Longrightarrow> same_queue d d'"
proof -
  assume keeps: "undo_keeps_queue undo" and rec: "reconcile std undo u d = (d', x)"
  show ?thesis
  proof (cases "undo = None \<or> u_state u \<noteq> U_UNDOING")
    case False
    then obtain f where f: "undo = Some f" "u_state u = U_UNDOING" by auto
    have "case f (u_id u) d of Reconciled d' _ _ _ \<Rightarrow> same_queue d d' | ReconcileError d' _ \<Rightarrow> same_queue d d'"
      using keeps f(1) by (simp add: undo_keeps_queue_def)
    then show ?thesis
      using rec f by (cases "f (u_id u) d") (auto simp: reconcile_def same_queue_def split: if_split_asm)
  qed (use rec in \<open>auto simp: reconcile_def split: option.splits\<close>)
qed

lemma settle_undo_queue: "settle_undo std rp u x d = (d', v) \<Longrightarrow> same_queue d d'"
  by (cases x) (auto simp: settle_undo_def Let_def set_bundle_error_def fail_undo_def same_queue_def split: if_split_asm)

lemma settle_undo_target: "settle_undo std rp u x d = (d', v) \<Longrightarrow> fst v \<in> terminal_job_states"
  by (cases x) (auto simp: settle_undo_def failure_target_def Let_def split: if_split_asm)

lemma apply_recovery_queue: "apply_recovery std rp i d = (d', v) \<Longrightarrow> same_queue d d' \<and> fst v \<in> terminal_job_states"
  by (auto simp: apply_recovery_def lost_run_def failure_target_def fail_bundle_def fail_run_def same_queue_def Let_def
      split: option.splits if_split_asm)

lemma undo_recovery_queue:
  assumes "undo_recovery std rp undo i d = (d', v)" and "undo_keeps_queue undo"
  shows "same_queue d d' \<and> fst v \<in> terminal_job_states"
proof (cases "find_row u_id i (undo_runs d)")
  case (Some u)
  obtain d1 x where rec: "reconcile std undo u d = (d1, x)" by (cases "reconcile std undo u d")
  obtain u' where "settle_undo std rp u' x d1 = (d', v)"
    using assms(1) Some rec by (auto simp: undo_recovery_def split: option.splits)
  then show ?thesis
    using reconcile_queue [OF assms(2) rec] settle_undo_queue settle_undo_target same_queue_trans by blast
qed (use assms(1) in \<open>auto simp: undo_recovery_def lost_run_def\<close>)

lemma recovery_verdict_queue:
  assumes "recovery_verdict std rp undo j d = (d', v)" and "undo_keeps_queue undo"
  shows "same_queue d d'"
    and "fst v \<in> terminal_job_states \<or> fst v = J_PENDING \<and> \<not> file_job j \<and> \<not> j_cancel j \<and> j_state j \<noteq> J_CANCELLING"
proof -
  have "same_queue d d' \<and> (fst v \<in> terminal_job_states \<or>
      fst v = J_PENDING \<and> \<not> file_job j \<and> \<not> j_cancel j \<and> j_state j \<noteq> J_CANCELLING)"
  proof (cases "file_job j")
    case True
    then have "(\<exists>w. (d', v) = (d, w) \<and> fst w \<in> terminal_job_states) \<or>
        (\<exists>i. apply_recovery std rp i d = (d', v)) \<or> (\<exists>i. undo_recovery std rp undo i d = (d', v))"
      using assms(1)
      by (auto simp: recovery_verdict_def file_job_recovery_def run_id_of_def lost_run_def Let_def
          split: sum.splits if_split_asm option.splits)
    then show ?thesis using apply_recovery_queue undo_recovery_queue [OF _ assms(2)] by blast
  qed (use assms(1) in \<open>auto simp: recovery_verdict_def\<close>)
  then show "same_queue d d'" "fst v \<in> terminal_job_states \<or>
      fst v = J_PENDING \<and> \<not> file_job j \<and> \<not> j_cancel j \<and> j_state j \<noteq> J_CANCELLING" by blast+
qed

lemma settle_tasks_queue: "settle_tasks std rp jid v d = Inr d' \<Longrightarrow> same_queue d d'"
  by (cases v) (auto simp: settle_tasks_def same_queue_def dest: finish_active_queue [unfolded same_queue_def]
      split: if_split_asm)

text \<open>A recovered job: what was checked of it, and the tables after.\<close>

lemma recover_one_cases:
  assumes "recover_one std rp undo lock now jid d = Inr (d', b)" and "undo_keeps_queue undo"
  obtains (idle) "d' = d" "\<not> b"
    | (recovered) j d1 v where "lock jid" "find_row j_id jid (jobs d) = Some j" "leased j" "lease_expired now j"
      "recovery_verdict std rp undo j d = (d1, v)" "b"
      "jobs d' = update_where (expired_lease_filter j now) (recovered_job v) (jobs d)"
      "\<exists>d2. events d2 = events d \<and> events d' = events (append_state_event jid (fst v) d2)"
proof -
  consider "d' = d" "\<not> b" | j d1 v d2 where "lock jid" "find_row j_id jid (jobs d) = Some j" "leased j"
      "lease_expired now j" "recovery_verdict std rp undo j d = (d1, v)" "b"
      "settle_tasks std rp jid v (update_jobs (expired_lease_filter j now) (recovered_job v) d1) = Inr d2"
      "d' = append_state_event jid (fst v) d2"
    using assms(1) by (auto simp: recover_one_def rbind_eq_Inr split: if_split_asm option.splits prod.splits)
  then show thesis
  proof cases
    case (2 j d1 v d2)
    have q: "jobs d1 = jobs d" "events d1 = events d"
      using recovery_verdict_queue(1) [OF 2(5) assms(2)] by (simp_all add: same_queue_def)
    have "jobs d2 = update_where (expired_lease_filter j now) (recovered_job v) (jobs d)" "events d2 = events d"
      using settle_tasks_queue [OF 2(7)] q by (simp_all add: same_queue_def update_jobs_def)
    then show thesis
      by (intro recovered [OF 2(1-6)]) (auto simp: 2(8) append_state_event_def append_event_def)
  qed (rule idle)
qed

lemma recover_one_evolve:
  assumes "recover_one std rp undo lock now jid d = Inr (d', b)" and keeps: "undo_keeps_queue undo"
    and ids: "distinct (map j_id (jobs d))"
  shows "jobs_evolve (jobs d) (jobs d')"
  using assms(1) keeps
proof (cases rule: recover_one_cases)
  case (recovered j d1 v)
  have "row_ok x (recovered_job v x)" if x: "x \<in> set (jobs d)" "expired_lease_filter j now x" for x
  proof -
    have "j_id x = jid" using x(2) find_row_Some [OF recovered(2)] by (simp add: expired_lease_filter_def)
    then have "x = j" using find_row_unique [OF ids x(1)] recovered(2) by simp
    then show ?thesis
      using recovery_verdict_queue(2) [OF recovered(5) keeps] recovered(3)
      by (cases v) (auto simp: row_ok_def kept_def recovered_job_def moved_def leased_def terminal_job_states_def)
  qed
  then show ?thesis unfolding recovered(7) by (intro evolve_update [OF ids])
qed (simp add: jobs_evolve_refl ids)

section \<open>Histories\<close>

text \<open>One transaction on the queue; \<open>other\<close> is any transaction that leaves its tables alone.\<close>

inductive job_step :: "pystd \<Rightarrow> pyrepr \<Rightarrow> db \<Rightarrow> db \<Rightarrow> bool"
  for std rp where
  enqueue: "enqueue type payload priority parent now d = Inr (d', j) \<Longrightarrow> job_step std rp d d'"
| lease: "lease_next worker secs c now d = (d', oj) \<Longrightarrow> job_step std rp d d'"
| beat: "heartbeat jid worker n secs now d = (d', b) \<Longrightarrow> job_step std rp d d'"
| succeed: "mark_succeeded std rp jid r worker n d = Inr (d', b) \<Longrightarrow> job_step std rp d d'"
| failed: "mark_failed std rp jid e worker n c d = Inr (d', b) \<Longrightarrow> job_step std rp d d'"
| ack: "mark_cancelled std rp jid ores worker n d = Inr (d', b) \<Longrightarrow> job_step std rp d d'"
| cancel: "request_cancel std rp jid d = Inr (d', oj) \<Longrightarrow> job_step std rp d d'"
| event: "d' = append_event jid kind payload d \<Longrightarrow> job_step std rp d d'"
| recover: "recover_one std rp undo lock now jid d = Inr (d', b) \<Longrightarrow> undo_keeps_queue undo \<Longrightarrow> job_step std rp d d'"
| other: "same_queue d d' \<Longrightarrow> job_step std rp d d'"

definition job_ids_ok :: "db \<Rightarrow> bool" where
  "job_ids_ok d \<longleftrightarrow> distinct (map j_id (jobs d))"

lemma job_step_evolve:
  assumes "job_step std rp d d'" and "job_ids_ok d"
  shows "jobs_evolve (jobs d) (jobs d')"
proof -
  have ids: "distinct (map j_id (jobs d))" using assms(2) by (simp add: job_ids_ok_def)
  show ?thesis
    using assms(1)
  proof cases
    case enqueue
    then show ?thesis using enqueue_evolve ids by blast
  next
    case lease
    then show ?thesis using lease_next_evolve ids by blast
  next
    case beat
    then show ?thesis using heartbeat_evolve ids by blast
  next
    case succeed
    then show ?thesis using mark_succeeded_evolve ids by blast
  next
    case failed
    then show ?thesis using mark_failed_evolve ids by blast
  next
    case ack
    then show ?thesis using mark_cancelled_evolve ids by blast
  next
    case cancel
    then show ?thesis using request_cancel_evolve ids by blast
  next
    case recover
    then show ?thesis using recover_one_evolve ids by blast
  qed (use jobs_evolve_refl [OF ids] in \<open>simp_all add: same_queue_def append_event_def\<close>)
qed

lemma job_history:
  assumes "(job_step std rp)\<^sup>*\<^sup>* d d'" and "job_ids_ok d"
  shows "job_ids_ok d' \<and> evolved job_moves j_id j_state (jobs d) (jobs d')"
  using assms
proof (induction rule: rtranclp_induct)
  case (step d1 d2)
  then have ev: "jobs_evolve (jobs d1) (jobs d2)" using job_step_evolve by blast
  then show ?case
    using step jobs_evolve_distinct jobs_evolve_evolves evolved_step unfolding job_ids_ok_def by blast
qed auto

text \<open>C33. No job is ever lost and none comes back: in every history of the queue each job is still there,
  in a state that the lifecycle reaches; a job that ended keeps the state in which it ended; and a
  running job whose cancellation was requested never becomes pending or plainly running again.
\<close>

theorem job_history_lifecycle:
  assumes "(job_step std rp)\<^sup>*\<^sup>* d d'" and "job_ids_ok d" and "j \<in> set (jobs d)"
  shows "\<exists>j'\<in>set (jobs d'). j_id j' = j_id j \<and> (moved job_moves)\<^sup>*\<^sup>* (j_state j) (j_state j')
    \<and> (j_state j \<in> terminal_job_states \<longrightarrow> j_state j' = j_state j)
    \<and> (j_state j = J_CANCELLING \<longrightarrow> j_state j' \<notin> {J_PENDING, J_RUNNING})"
proof -
  obtain j' where j': "j' \<in> set (jobs d')" "j_id j' = j_id j" "(moved job_moves)\<^sup>*\<^sup>* (j_state j) (j_state j')"
    using job_history [OF assms(1,2)] assms(3) unfolding evolved_def by blast
  have "t \<notin> {J_PENDING, J_RUNNING}"
    if "(moved job_moves)\<^sup>*\<^sup>* s t" "s \<in> insert J_CANCELLING terminal_job_states" for s t
  proof -
    have "t \<in> insert J_CANCELLING terminal_job_states"
      using that by (induction rule: rtranclp_induct) (auto simp: moved_def terminal_job_states_def)
    then show ?thesis by (auto simp: terminal_job_states_def)
  qed
  then show ?thesis using j' jobs.final_reached [OF j'(3)] by blast
qed

section \<open>Ownership\<close>

text \<open>An execution, named by the number of its attempt, has lost the lease of a job.\<close>

definition lost_row :: "int \<Rightarrow> nat \<Rightarrow> job \<Rightarrow> bool" where
  "lost_row jid n j \<longleftrightarrow> j_id j = jid \<and> (n < j_attempts j \<or> n = j_attempts j \<and> \<not> leased j)"

definition lease_lost :: "int \<Rightarrow> nat \<Rightarrow> db \<Rightarrow> bool" where
  "lease_lost jid n d \<longleftrightarrow> (\<exists>j\<in>set (jobs d). lost_row jid n j)"

lemma row_keeps_lost: "row_ok j j' \<Longrightarrow> lost_row jid n j \<Longrightarrow> lost_row jid n j'"
  by (auto simp: row_ok_def claimed_def kept_def lost_row_def)

lemma lease_lost_step:
  assumes "jobs_evolve (jobs d) (jobs d')" and "lease_lost jid n d"
  shows "lease_lost jid n d'"
proof -
  obtain f new where js: "jobs d' = map f (jobs d) @ new" "\<forall>j\<in>set (jobs d). row_ok j (f j)"
    using assms(1) unfolding jobs_evolve_def by blast
  obtain j where "j \<in> set (jobs d)" "lost_row jid n j" using assms(2) unfolding lease_lost_def by blast
  then have "f j \<in> set (jobs d')" "lost_row jid n (f j)" using js row_keeps_lost by auto
  then show ?thesis unfolding lease_lost_def by blast
qed

lemma lease_lost_history:
  assumes "(job_step std rp)\<^sup>*\<^sup>* d d'" and "job_ids_ok d" and "lease_lost jid n d"
  shows "job_ids_ok d' \<and> lease_lost jid n d'"
  using assms
proof (induction rule: rtranclp_induct)
  case (step d1 d2)
  then have ev: "jobs_evolve (jobs d1) (jobs d2)" using job_step_evolve by blast
  then show ?case using step lease_lost_step jobs_evolve_distinct unfolding job_ids_ok_def by blast
qed auto

lemma lost_no_owner:
  assumes "job_ids_ok d" and "lease_lost jid n d" and "j \<in> set (jobs d)"
  shows "\<not> owner_filter jid worker n j"
proof
  assume own: "owner_filter jid worker n j"
  obtain x where x: "x \<in> set (jobs d)" "lost_row jid n x" using assms(2) unfolding lease_lost_def by blast
  have "x = j"
    using assms(1,3) x own unfolding job_ids_ok_def
    by (metis find_row_unique lost_row_def option.inject owner_filter_def)
  then show False using x(2) own by (auto simp: lost_row_def owner_filter_def)
qed

lemma update_none: "(\<And>x. x \<in> set xs \<Longrightarrow> \<not> P x) \<Longrightarrow> update_where P f xs = xs"
  by (auto simp: update_where_def map_idI)

text \<open>C16. A stale execution cannot touch a job: once an execution has lost the lease of a job, because the
  job ended, was put back or was claimed again, then in every later state of the queue its
  heartbeat and its reports of success, failure and cancellation are refused and change nothing.
\<close>

theorem stale_execution_refused:
  assumes "(job_step std rp)\<^sup>*\<^sup>* d d'" and "job_ids_ok d" and "lease_lost jid n d"
  shows "heartbeat jid worker n secs now d' = (d', False)
    \<and> mark_succeeded std rp jid r worker n d' = Inr (d', False)
    \<and> mark_failed std rp jid e worker n c d' = Inr (d', False)
    \<and> mark_cancelled std rp jid r' worker n d' = Inr (d', False)"
proof -
  have none: "\<not> owner_filter jid worker n j" if "j \<in> set (jobs d')" for j
    using lost_no_owner lease_lost_history [OF assms] that by blast
  then have sj: "\<not> some_job (\<lambda>j. owner_filter jid worker n j \<and> Q j) d'" "\<not> some_job (owner_filter jid worker n) d'" for Q
    unfolding some_job_def by blast+
  have "heartbeat jid worker n secs now d' = (d', False)"
    using sj(2) none by (simp add: heartbeat_def update_jobs_def update_none)
  then show ?thesis
    by (simp add: mark_succeeded_def mark_failed_def mark_cancelled_def Let_def sj)
qed

text \<open>C19. A claim is exclusive and takes the best job: the job that \<open>lease_next\<close> returns was pending, is now
  running under the claimer with the next attempt number, no other job changed, every earlier
  execution of it has lost its lease, and claiming it again is refused. Without a candidate it has the
  largest priority of the pending jobs and is the oldest of these.
\<close>

theorem lease_next_exclusive:
  assumes lease: "lease_next worker secs c now d = (d', Some j)" and ids: "job_ids_ok d"
  shows "\<exists>j0\<in>set (jobs d). j_state j0 = J_PENDING \<and> j = claim worker (now + secs) j0
    \<and> (\<forall>x\<in>set (jobs d). x \<noteq> j0 \<longrightarrow> x \<in> set (jobs d'))
    \<and> (\<forall>n\<le>j_attempts j0. lease_lost (j_id j) n d')
    \<and> lease_next worker' secs' (Some (j_id j)) now' d' = (d', None)
    \<and> (c = None \<longrightarrow> (\<forall>x\<in>set (jobs d). j_state x = J_PENDING \<longrightarrow>
          j_priority x < j_priority j0 \<or> j_priority x = j_priority j0 \<and> j_created j0 \<le> j_created x))"
proof -
  have un: "x = y" if "x \<in> set (jobs d)" "y \<in> set (jobs d)" "j_id x = j_id y" for x y
    using ids that unfolding job_ids_ok_def by (metis find_row_unique option.inject)
  obtain k where k: "(case c of Some c \<Rightarrow> Some c | None \<Rightarrow> next_pending_job_id d) = Some k"
      "some_job (claimable k) d" "d' = update_jobs (claimable k) (claim worker (now + secs)) d"
      "find_row j_id k (jobs d') = Some j" "\<not> maintenance d"
    using lease by (auto simp: lease_next_def Let_def split: if_split_asm option.splits)
  obtain j0 where j0: "j0 \<in> set (jobs d)" "j_id j0 = k" "j_state j0 = J_PENDING"
    using k(2) unfolding some_job_def claimable_def by blast
  have jobs': "jobs d' = update_where (claimable k) (claim worker (now + secs)) (jobs d)"
    using k(3) by (simp add: update_jobs_def)
  have row: "find_row j_id k (jobs d) = Some j0"
    using find_row_unique [of j_id "jobs d" j0] ids j0(1,2) unfolding job_ids_ok_def by simp
  have j: "j = claim worker (now + secs) j0"
    using k(4) row j0 unfolding jobs' by (simp add: find_row_update claim_def claimable_def)
  have jd: "j \<in> set (jobs d')" "j_id j = k" using find_row_Some [OF k(4)] by simp_all
  have others: "x \<in> set (jobs d')" if "x \<in> set (jobs d)" "x \<noteq> j0" for x
  proof -
    have "\<not> claimable k x" using un [OF that(1) j0(1)] that(2) j0(2) by (auto simp: claimable_def)
    then show ?thesis using that(1) unfolding jobs' set_update_where by force
  qed
  have lost: "lease_lost (j_id j) n d'" if "n \<le> j_attempts j0" for n
    unfolding lease_lost_def by (rule bexI [OF _ jd(1)]) (use that in \<open>simp add: lost_row_def j claim_def\<close>)
  have "\<not> claimable k y" if "y \<in> set (jobs d')" for y
  proof -
    obtain x where x: "x \<in> set (jobs d)" "y = (if claimable k x then claim worker (now + secs) x else x)"
      using \<open>y \<in> set (jobs d')\<close> unfolding jobs' set_update_where by blast
    then show ?thesis by (auto simp: claimable_def claim_def)
  qed
  then have again: "lease_next worker' secs' (Some (j_id j)) now' d' = (d', None)"
    by (auto simp: lease_next_def some_job_def jd(2))
  have best: "j_priority x < j_priority j0 \<or> j_priority x = j_priority j0 \<and> j_created j0 \<le> j_created x"
    if none: "c = None" and x: "x \<in> set (jobs d)" "j_state x = J_PENDING" for x
  proof -
    let ?key = "\<lambda>j. (- j_priority j, j_created j)"
    obtain h t where ht: "sort_key ?key (filter (\<lambda>j. j_state j = J_PENDING) (jobs d)) = h # t" "j_id h = k"
      using k(1) none by (auto simp: next_pending_job_id_def split: list.splits)
    have "set (h # t) = {j \<in> set (jobs d). j_state j = J_PENDING}"
      unfolding ht(1) [symmetric] by simp
    then have mem: "h \<in> set (jobs d)" "x \<in> set (h # t)" using x by auto
    have "h = j0" using un [OF mem(1) j0(1)] ht(2) j0(2) by simp
    moreover have "sorted (map ?key (h # t))" unfolding ht(1) [symmetric] by simp
    then have "?key h \<le> ?key x" using mem(2) by auto
    ultimately show ?thesis by (auto simp: less_eq_prod_def)
  qed
  show ?thesis
    using j0(1,3) j others lost again best by (intro bexI [OF _ j0(1)]) blast
qed

end
