(* ===== verification/JobLog.thy ===== *)
theory JobLog
  imports JobProperties
begin

text \<open>
  The event log of a job, the sweep over interrupted jobs, and the pages of the job list.
\<close>

section \<open>Events\<close>

text \<open>The log of every job is numbered from one without a gap.\<close>

definition events_ok :: "db \<Rightarrow> bool" where
  "events_ok d \<longleftrightarrow> (\<forall>i. map e_seq (job_events d i) = [1..<Suc (length (job_events d i))])"

definition logs :: "db \<Rightarrow> db \<Rightarrow> bool" where
  "logs d d' \<longleftrightarrow> events d' = events d \<or>
     (\<exists>jid kind p d1. events d1 = events d \<and> events d' = events (append_event jid kind p d1))"

lemma logs_state: "events d1 = events d \<Longrightarrow> d' = append_state_event jid s d1 \<Longrightarrow> logs d d'"
  unfolding logs_def append_state_event_def by blast

lemma logs_marked:
  assumes "finish_transition std rp jid s r e (update_jobs P f d) = Inr d'"
  shows "logs d d'"
  using finish_transition_Inr(2) [OF assms] logs_state by (auto simp: update_jobs_def)

lemma job_step_logs:
  assumes "job_step std rp d d'"
  shows "logs d d'"
  using assms
proof cases
  case enqueue
  then show ?thesis by (auto simp: enqueue_def Let_def logs_def split: if_split_asm)
next
  case lease
  then show ?thesis
    by (auto simp: lease_next_def update_jobs_def Let_def logs_def split: if_split_asm option.splits)
next
  case beat
  then show ?thesis by (auto simp: heartbeat_def update_jobs_def logs_def)
next
  case succeed
  then show ?thesis
    by (auto simp: mark_succeeded_def Let_def rbind_eq_Inr logs_def split: if_split_asm
        dest: logs_marked [unfolded logs_def])
next
  case failed
  then show ?thesis
    by (auto simp: mark_failed_def Let_def rbind_eq_Inr logs_def split: if_split_asm
        dest: logs_marked [unfolded logs_def])
next
  case ack
  then show ?thesis
    by (auto simp: mark_cancelled_def Let_def rbind_eq_Inr logs_def split: if_split_asm
        dest: logs_marked [unfolded logs_def])
next
  case (cancel jid oj)
  show ?thesis
  proof (cases "find (cancellable jid) (jobs d)")
    case (Some j)
    show ?thesis
      by (rule request_cancel_Some [OF cancel Some], rule logs_state) (simp_all add: same_queue_def update_jobs_def)
  qed (use cancel in \<open>simp add: request_cancel_def logs_def\<close>)
next
  case (event jid kind payload)
  then show ?thesis unfolding logs_def by blast
next
  case (recover undo lock now jid b)
  from recover(1) show ?thesis
    by (cases rule: recover_one_cases [OF recover]) (auto simp: logs_def append_state_event_def)
next
  case other
  then show ?thesis by (simp add: same_queue_def logs_def)
qed

lemma last_seq_ok:
  assumes "events_ok d"
  shows "last_seq d i = length (job_events d i)"
proof -
  have top: "fold max [1..<Suc n] 0 = n" for n :: nat
    by (induction n) auto
  have "map e_seq (job_events d i) = [1..<Suc (length (job_events d i))]"
    using assms by (simp add: events_ok_def)
  then show ?thesis unfolding last_seq_def by (simp only: top)
qed

lemma job_events_append:
  "job_events (append_event jid kind p d) i =
     job_events d i @ (if i = jid then [\<lparr>e_job = jid, e_seq = last_seq d jid + 1, e_kind = kind, e_payload = p\<rparr>] else [])"
  by (simp add: append_event_def job_events_def)

lemma append_event_ok:
  assumes "events_ok d"
  shows "events_ok (append_event jid kind p d)"
  unfolding events_ok_def
proof
  fix i
  have "map e_seq (job_events d i) = [1..<Suc (length (job_events d i))]"
    using assms unfolding events_ok_def by (rule spec)
  then show "map e_seq (job_events (append_event jid kind p d) i) =
      [1..<Suc (length (job_events (append_event jid kind p d) i))]"
    by (cases "i = jid") (simp_all add: job_events_append last_seq_ok [OF assms])
qed

lemma events_ok_cong: "events d' = events d \<Longrightarrow> events_ok d' = events_ok d"
  by (simp add: events_ok_def job_events_def)

lemma logs_ok:
  assumes "logs d d'" and "events_ok d"
  shows "events_ok d' \<and> (\<exists>new. job_events d' i = job_events d i @ new)"
  using assms(1) unfolding logs_def
proof (elim disjE exE conjE)
  assume "events d' = events d"
  then show ?thesis using assms(2) events_ok_cong [of d' d] by (simp add: job_events_def)
next
  fix jid kind p d1 assume e: "events d1 = events d" "events d' = events (append_event jid kind p d1)"
  have "events_ok (append_event jid kind p d1)"
    using append_event_ok assms(2) events_ok_cong [OF e(1)] by blast
  moreover have "job_events d' i = job_events (append_event jid kind p d1) i"
    using e(2) by (simp add: job_events_def)
  moreover have "job_events d1 i = job_events d i" using e(1) by (simp add: job_events_def)
  ultimately show ?thesis using events_ok_cong [OF e(2)] by (simp add: job_events_append)
qed

lemma event_history:
  assumes "(job_step std rp)\<^sup>*\<^sup>* d d'" and "events_ok d"
  shows "events_ok d' \<and> (\<exists>new. job_events d' i = job_events d i @ new)"
  using assms
proof (induction rule: rtranclp_induct)
  case (step d1 d2)
  then obtain new1 where "events_ok d1" "job_events d1 i = job_events d i @ new1" by blast
  moreover obtain new2 where "events_ok d2" "job_events d2 i = job_events d1 i @ new2"
    using logs_ok [OF job_step_logs [OF step(2)]] \<open>events_ok d1\<close> by blast
  ultimately show ?case by simp
qed simp

lemma list_events_after_drop:
  assumes "events_ok d"
  shows "list_events_after d i k = drop k (job_events d i)"
proof -
  let ?es = "job_events d i"
  have seqs: "map e_seq ?es = [1..<Suc (length ?es)]" using assms by (simp add: events_ok_def)
  have "filter (\<lambda>e. e_seq e > k) es = drop k es" if "map e_seq es = [1..<Suc (length es)]" for es
    using that
  proof (induction es rule: rev_induct)
    case (snoc e es)
    then have "map e_seq es = [1..<Suc (length es)]" "e_seq e = Suc (length es)" by simp_all
    then show ?case using snoc(1) by auto
  qed simp
  then have "filter (\<lambda>e. e_seq e > k) ?es = drop k ?es" using seqs by blast
  moreover have "sorted (map e_seq (drop k ?es))"
    unfolding drop_map [symmetric] seqs by (rule sorted_wrt_drop) (simp del: upt_Suc)
  ultimately show ?thesis by (simp add: list_events_after_def sort_key_sorted)
qed

text \<open>C20. The event log has no gap and loses nothing: in every history the events of a job are numbered one
  after the other, and a reader that has seen a log and later asks for the events after its last
  one receives exactly the events that were appended since, in order.
\<close>

theorem event_log_complete:
  assumes "(job_step std rp)\<^sup>*\<^sup>* empty_db d" and "(job_step std rp)\<^sup>*\<^sup>* d d'"
  shows "map e_seq (list_events_after d' jid 0) = [1..<Suc (last_seq d' jid)]
    \<and> list_events_after d jid 0 @ list_events_after d' jid (last_seq d jid) = list_events_after d' jid 0"
proof -
  have "events_ok empty_db" by (simp add: events_ok_def empty_db_def job_events_def)
  then have ok: "events_ok d" using event_history [OF assms(1)] by blast
  obtain new where ok': "events_ok d'" and new: "job_events d' jid = job_events d jid @ new"
    using event_history [OF assms(2) ok] by blast
  have "map e_seq (job_events d' jid) = [1..<Suc (length (job_events d' jid))]"
    using ok' unfolding events_ok_def by blast
  then show ?thesis
    by (simp add: list_events_after_drop [OF ok] list_events_after_drop [OF ok'] last_seq_ok [OF ok] last_seq_ok [OF ok']
        del: upt_Suc) (simp add: new)
qed

section \<open>The sweep\<close>

text \<open>What a sweep may do to a job: nothing, unless its lock is free and its lease has run out.\<close>

definition spared :: "(int \<Rightarrow> bool) \<Rightarrow> (int \<Rightarrow> int) \<Rightarrow> job \<Rightarrow> bool" where
  "spared lock clock j \<longleftrightarrow> \<not> (lock (j_id j) \<and> leased j \<and> lease_expired (clock (j_id j)) j)"

lemma recover_one_effect:
  assumes "recover_one std rp undo lock (clock i) i d = Inr (d', b)" and keeps: "undo_keeps_queue undo"
    and ids: "job_ids_ok d" and j: "j \<in> set (jobs d)"
  shows "(spared lock clock j \<longrightarrow> j \<in> set (jobs d'))
    \<and> (j_state j \<noteq> J_PENDING \<longrightarrow> file_job j \<longrightarrow> (\<exists>j'\<in>set (jobs d'). j_id j' = j_id j \<and> file_job j' \<and> j_state j' \<noteq> J_PENDING))"
  using assms(1) keeps
proof (cases rule: recover_one_cases)
  case idle
  then show ?thesis using j by auto
next
  case (recovered r d1 v)
  have r: "r \<in> set (jobs d)" "j_id r = i" using find_row_Some [OF recovered(2)] by simp_all
  show ?thesis
  proof (cases "expired_lease_filter r (clock i) j")
    case False
    then have "j \<in> set (jobs d')" using j unfolding recovered(7) set_update_where by force
    then show ?thesis by blast
  next
    case True
    then have "j = r" using r j ids unfolding job_ids_ok_def expired_lease_filter_def
      by (metis find_row_unique option.inject)
    then have "\<not> spared lock clock j" using recovered(1,3,4) r(2) by (simp add: spared_def)
    moreover have "recovered_job v j \<in> set (jobs d')"
      using True j unfolding recovered(7) set_update_where by force
    moreover have "fst v \<noteq> J_PENDING" if "file_job j"
      using recovery_verdict_queue(2) [OF recovered(5) keeps] that \<open>j = r\<close> by (auto simp: terminal_job_states_def)
    ultimately show ?thesis
      by (cases v) (auto simp: recovered_job_def file_job_def intro!: bexI [of _ "recovered_job v j"])
  qed
qed

lemma recover_loop_steps:
  assumes "recover_loop std rp undo lock clock is n d = (d', r)" and "undo_keeps_queue undo"
  shows "(job_step std rp)\<^sup>*\<^sup>* d d'"
  using assms
proof (induction std rp undo lock clock "is" n d arbitrary: d' r rule: recover_loop.induct)
  case (2 std rp undo lock clock i "is" n d)
  show ?case
  proof (cases "recover_one std rp undo lock (clock i) i d")
    case (Inr x)
    then obtain d1 b where x: "x = (d1, b)" by (cases x)
    have "(job_step std rp)\<^sup>*\<^sup>* d1 d'" using 2 Inr x by auto
    moreover have "job_step std rp d d1" using job_step.recover Inr x 2(3) by blast
    ultimately show ?thesis by (rule converse_rtranclp_into_rtranclp [rotated])
  qed (use 2(2) in simp)
qed simp

lemma recover_loop_spares:
  assumes "recover_loop std rp undo lock clock is n d = (d', r)" and "undo_keeps_queue undo" and "job_ids_ok d"
    and "j \<in> set (jobs d)" and "spared lock clock j"
  shows "j \<in> set (jobs d')"
  using assms
proof (induction std rp undo lock clock "is" n d arbitrary: d' r rule: recover_loop.induct)
  case (2 std rp undo lock clock i "is" n d)
  show ?case
  proof (cases "recover_one std rp undo lock (clock i) i d")
    case (Inr x)
    then obtain d1 b where x: "recover_one std rp undo lock (clock i) i d = Inr (d1, b)" by (cases x) auto
    have "j \<in> set (jobs d1)" using recover_one_effect [of std rp undo lock clock i, OF x 2(3,4,5)] 2(6) by blast
    moreover have "job_ids_ok d1"
      using recover_one_evolve [OF x 2(3)] 2(4) jobs_evolve_distinct unfolding job_ids_ok_def by blast
    ultimately show ?thesis using 2 x by auto
  qed (use 2(2,5) in simp)
qed simp

lemma recover_loop_files:
  assumes "recover_loop std rp undo lock clock is n d = (d', r)" and "undo_keeps_queue undo" and "job_ids_ok d"
    and "\<exists>j'\<in>set (jobs d). j_id j' = i0 \<and> file_job j' \<and> j_state j' \<noteq> J_PENDING"
  shows "\<exists>j'\<in>set (jobs d'). j_id j' = i0 \<and> file_job j' \<and> j_state j' \<noteq> J_PENDING"
  using assms
proof (induction std rp undo lock clock "is" n d arbitrary: d' r rule: recover_loop.induct)
  case (2 std rp undo lock clock i "is" n d)
  show ?case
  proof (cases "recover_one std rp undo lock (clock i) i d")
    case (Inr x)
    then obtain d1 b where x: "recover_one std rp undo lock (clock i) i d = Inr (d1, b)" by (cases x) auto
    obtain j where j: "j \<in> set (jobs d)" "j_id j = i0" "file_job j" "j_state j \<noteq> J_PENDING" using 2(5) by blast
    have "\<exists>j'\<in>set (jobs d1). j_id j' = i0 \<and> file_job j' \<and> j_state j' \<noteq> J_PENDING"
      using recover_one_effect [of std rp undo lock clock i, OF x 2(3,4) j(1)] j by blast
    moreover have "job_ids_ok d1"
      using recover_one_evolve [OF x 2(3)] 2(4) jobs_evolve_distinct unfolding job_ids_ok_def by blast
    ultimately show ?thesis using 2 x by auto
  qed (use 2(2,5) in simp)
qed simp

text \<open>C18. The sweep over interrupted jobs spares the living and replays no file work: a job whose lock is
  held, whose lease has not run out or that is not running keeps its row, and an apply or undo job
  that was started is never put back to pending. Everything the sweep does is a history of the queue.
\<close>

theorem recovery_spares_live_jobs:
  assumes "recover_stuck_jobs std rp undo lock now clock d = (d', r)" and "undo_keeps_queue undo" and "job_ids_ok d"
    and "j \<in> set (jobs d)"
  shows "(job_step std rp)\<^sup>*\<^sup>* d d'
    \<and> (\<not> (lock (j_id j) \<and> leased j \<and> lease_expired (clock (j_id j)) j) \<longrightarrow> j \<in> set (jobs d'))
    \<and> (file_job j \<and> j_state j \<noteq> J_PENDING \<longrightarrow>
         (\<exists>j'\<in>set (jobs d'). j_id j' = j_id j \<and> j_state j' \<noteq> J_PENDING))"
proof -
  note loop = assms(1) [unfolded recover_stuck_jobs_def]
  have "\<exists>j'\<in>set (jobs d'). j_id j' = j_id j \<and> file_job j' \<and> j_state j' \<noteq> J_PENDING"
    if "file_job j" "j_state j \<noteq> J_PENDING"
    by (rule recover_loop_files [OF loop assms(2,3)]) (use assms(4) that in blast)
  moreover have "j \<in> set (jobs d')" if "spared lock clock j"
    by (rule recover_loop_spares [OF loop assms(2-4) that])
  moreover have "(job_step std rp)\<^sup>*\<^sup>* d d'" by (rule recover_loop_steps [OF loop assms(2)])
  ultimately show ?thesis unfolding spared_def by blast
qed

section \<open>Pages\<close>

text \<open>A client that follows the cursors, with fuel for the number of pages.\<close>

fun follow_pages :: "nat \<Rightarrow> db \<Rightarrow> job_state option \<Rightarrow> int option \<Rightarrow> nat \<Rightarrow> bool \<Rightarrow> job list" where
  "follow_pages 0 d state cursor limit sys = []"
| "follow_pages (Suc fuel) d state cursor limit sys =
     (case list_jobs d state cursor limit sys of
        (items, None) \<Rightarrow> items
      | (items, Some c) \<Rightarrow> items @ follow_pages fuel d state (Some c) limit sys)"

definition listing :: "db \<Rightarrow> job_state option \<Rightarrow> int option \<Rightarrow> bool \<Rightarrow> job list" where
  "listing d state cursor sys = sort_key (\<lambda>j. - j_id j) (filter (visible_job state cursor sys) (jobs d))"

lemma strictly_descending:
  "distinct (map j_id l) \<Longrightarrow> sorted (map (\<lambda>j. - j_id j) l) \<Longrightarrow> sorted_wrt (\<lambda>x y. j_id y < j_id x) l"
  by (induction l) (auto simp: less_le image_iff)

lemma descending_distinct: "sorted_wrt (\<lambda>x y. j_id y < j_id x) l \<Longrightarrow> distinct (map j_id l)"
  by (induction l) auto

lemma listing_strict:
  assumes "job_ids_ok d"
  shows "sorted_wrt (\<lambda>x y. j_id y < j_id x) (listing d state cursor sys)"
proof -
  let ?l = "listing d state cursor sys"
  have "distinct (map j_id (filter (visible_job state cursor sys) (jobs d)))"
    using assms by (simp add: job_ids_ok_def distinct_map_filter)
  then have "distinct (map j_id ?l)"
    unfolding listing_def by (metis (no_types, lifting) distinct_map distinct_sort set_sort)
  moreover have "sorted (map (\<lambda>j. - j_id j) ?l)" by (simp add: listing_def)
  ultimately show ?thesis by (rule strictly_descending)
qed

lemma strict_filter_below:
  assumes "sorted_wrt (\<lambda>x y. j_id y < j_id x) l" and "k < length l"
  shows "filter (\<lambda>j. j_id j < j_id (l ! k)) l = drop (Suc k) l"
  using assms
proof (induction l arbitrary: k)
  case (Cons x l)
  show ?case
  proof (cases k)
    case 0
    then show ?thesis using Cons(2) by simp
  next
    case (Suc m)
    have "j_id (l ! m) < j_id x" using Cons(2,3) Suc by simp
    then have "\<not> j_id x < j_id (l ! m)" by simp
    then show ?thesis using Cons(1) [of m] Cons(2,3) Suc by simp
  qed
qed simp

lemma listing_after:
  assumes "job_ids_ok d" and "k < length (listing d state cursor sys)"
  shows "listing d state (Some (j_id (listing d state cursor sys ! k))) sys = drop (Suc k) (listing d state cursor sys)"
proof -
  let ?l = "listing d state cursor sys" and ?c = "j_id (listing d state cursor sys ! k)"
  have "?l ! k \<in> set ?l" using assms(2) by simp
  then have below: "j_id j < ?c \<Longrightarrow> (case cursor of None \<Rightarrow> True | Some c \<Rightarrow> j_id j < c)" for j
    by (auto simp: listing_def visible_job_def split: option.splits)
  have "listing d state (Some ?c) sys = filter (\<lambda>j. j_id j < ?c) ?l"
    unfolding listing_def filter_sort filter_filter
    by (rule arg_cong [of _ _ "sort_key _"], rule filter_cong) (use below in \<open>auto simp: visible_job_def listing_def\<close>)
  then show ?thesis using strict_filter_below [OF listing_strict [OF assms(1)] assms(2)] by simp
qed

lemma follow_pages_listing:
  assumes ids: "job_ids_ok d" and limit: "0 < limit"
  shows "length (listing d state cursor sys) < fuel \<Longrightarrow> follow_pages fuel d state cursor limit sys = listing d state cursor sys"
proof (induction fuel arbitrary: cursor)
  case (Suc fuel)
  let ?l = "listing d state cursor sys"
  show ?case
  proof (cases "length ?l \<le> limit")
    case True
    then have "list_jobs d state cursor limit sys = (?l, None)"
      by (simp add: list_jobs_def listing_def [symmetric] Let_def)
    then show ?thesis by simp
  next
    case False
    have ne: "?l \<noteq> []" using False by (metis le0 list.size(3))
    have last: "last (take limit ?l) = ?l ! (limit - Suc 0)"
    proof -
      have "take limit ?l \<noteq> []" using ne limit by simp
      then show ?thesis using False limit by (subst last_conv_nth) (simp_all add: min_def)
    qed
    have page: "list_jobs d state cursor limit sys = (take limit ?l, Some (j_id (?l ! (limit - Suc 0))))"
      using False limit ne by (simp add: list_jobs_def listing_def [symmetric] Let_def last min_def)
    have next_l: "listing d state (Some (j_id (?l ! (limit - Suc 0)))) sys = drop limit ?l"
      using listing_after [OF ids, of "limit - Suc 0"] False limit by simp
    show ?thesis using Suc(1) [of "Some (j_id (?l ! (limit - Suc 0)))"] Suc(2) False limit
      by (simp add: page next_l)
  qed
qed simp

text \<open>The pages of the job list are complete: a client that follows the cursors of \<open>list_jobs\<close> to the
  end receives every job of the requested kind exactly once, the newest first, whatever the page
  size; one page more than there are jobs is enough.
\<close>

theorem job_pages_complete:
  assumes "job_ids_ok d" and "0 < limit" and "length (jobs d) < fuel"
  shows "follow_pages fuel d state None limit sys =
      sort_key (\<lambda>j. - j_id j) (filter (visible_job state None sys) (jobs d))
    \<and> distinct (map j_id (follow_pages fuel d state None limit sys))"
proof -
  have "length (listing d state None sys) \<le> length (jobs d)"
    by (simp add: listing_def)
  then have eq: "follow_pages fuel d state None limit sys = listing d state None sys"
    by (intro follow_pages_listing [OF assms(1,2)]) (use assms(3) in simp)
  have "distinct (map j_id (listing d state None sys))"
    by (rule descending_distinct [OF listing_strict [OF assms(1)]])
  then show ?thesis using eq by (simp add: listing_def)
qed

end
