(* ===== verification/JobWitness.thy ===== *)
theory JobWitness
  imports JobLog ReviewWitness
begin

text \<open>
  Concrete instances of the properties of the job queue: one job is enqueued, claimed and finished,
  or claimed and interrupted.
\<close>

definition v_queued :: db where
  "v_queued = db_of (enqueue (U ''scan'') (JObj []) 0 None 0 empty_db)"

definition v_leased :: db where
  "v_leased = fst (lease_next (U ''w'') 10 None 1 v_queued)"

definition v_done :: db where
  "v_done = db_of (mark_succeeded ascii_std plain_repr 1 (JObj []) (U ''w'') 1 v_leased)"

abbreviation v_step :: "db \<Rightarrow> db \<Rightarrow> bool" where
  "v_step \<equiv> job_step ascii_std plain_repr"

lemma v_got: "got (enqueue (U ''scan'') (JObj []) 0 None 0 empty_db)"
  "got (mark_succeeded ascii_std plain_repr 1 (JObj []) (U ''w'') 1 v_leased)"
  by code_simp+

lemma v_ids: "job_ids_ok v_queued" "job_ids_ok v_leased" "job_ids_ok v_done"
  by code_simp+

lemma v_step_queued: "v_step empty_db v_queued"
  using db_of_got [OF v_got(1)] job_step.enqueue unfolding v_queued_def by blast

lemma v_step_leased: "v_step v_queued v_leased"
  using job_step.lease unfolding v_leased_def by (metis surj_pair fst_conv)

lemma v_step_done: "v_step v_leased v_done"
  using db_of_got [OF v_got(2)] job_step.succeed unfolding v_done_def by blast

lemma v_history_queued: "v_step\<^sup>*\<^sup>* empty_db v_queued"
  by (rule r_into_rtranclp [where r = v_step, OF v_step_queued])

lemma v_history_done: "v_step\<^sup>*\<^sup>* v_queued v_done"
  by (rule converse_rtranclp_into_rtranclp [where r = v_step, OF v_step_leased
      r_into_rtranclp [where r = v_step, OF v_step_done]])

lemma v_queued_row: "hd (jobs v_queued) \<in> set (jobs v_queued)" "hd (jobs v_leased) \<in> set (jobs v_leased)"
  "lease_lost 1 1 v_done" "length (jobs v_queued) < 2"
  "case lease_next (U ''w'') 10 None 1 v_queued of (_, None) \<Rightarrow> False | (_, Some _) \<Rightarrow> True"
  by code_simp+

theorem job_history_lifecycle_witness:
  "\<exists>j'\<in>set (jobs v_done). j_id j' = j_id (hd (jobs v_queued))
     \<and> (moved job_moves)\<^sup>*\<^sup>* (j_state (hd (jobs v_queued))) (j_state j')"
  using job_history_lifecycle [OF v_history_done v_ids(1) v_queued_row(1)] by blast

theorem stale_execution_refused_witness:
  "heartbeat 1 (U ''w'') 1 10 5 v_done = (v_done, False)
     \<and> mark_succeeded ascii_std plain_repr 1 (JObj []) (U ''w'') 1 v_done = Inr (v_done, False)"
  using stale_execution_refused [OF rtranclp.rtrancl_refl v_ids(3) v_queued_row(3)] by blast

theorem lease_next_exclusive_witness:
  "\<exists>j. lease_next (U ''w'') 10 None 1 v_queued = (v_leased, Some j)
     \<and> lease_next (U ''x'') 10 (Some (j_id j)) 2 v_leased = (v_leased, None)"
proof -
  obtain j where j: "lease_next (U ''w'') 10 None 1 v_queued = (v_leased, Some j)"
    using v_queued_row(5) unfolding v_leased_def
    by (cases "lease_next (U ''w'') 10 None 1 v_queued") (auto split: option.splits)
  show ?thesis using lease_next_exclusive [OF j v_ids(1)] j by blast
qed

theorem event_log_complete_witness:
  "list_events_after v_queued 1 0 @ list_events_after v_done 1 (last_seq v_queued 1) = list_events_after v_done 1 0"
  using event_log_complete [OF v_history_queued v_history_done] by blast

definition v_swept :: "db \<times> (review_exc + nat)" where
  "v_swept = recover_stuck_jobs ascii_std plain_repr None (\<lambda>_. False) 100 (\<lambda>_. 100) v_leased"

theorem recovery_spares_live_jobs_witness: "hd (jobs v_leased) \<in> set (jobs (fst v_swept))"
proof -
  have "recover_stuck_jobs ascii_std plain_repr None (\<lambda>_. False) 100 (\<lambda>_. 100) v_leased = (fst v_swept, snd v_swept)"
    by (simp add: v_swept_def)
  moreover have "undo_keeps_queue None" by (simp add: undo_keeps_queue_def)
  ultimately show ?thesis using recovery_spares_live_jobs [OF _ _ v_ids(2) v_queued_row(2)] by blast
qed

theorem job_pages_complete_witness:
  "follow_pages 2 v_queued None None 1 True = sort_key (\<lambda>j. - j_id j) (filter (visible_job None None True) (jobs v_queued))"
  using job_pages_complete [OF v_ids(1) zero_less_one v_queued_row(4)] by blast

end
