(* ===== verification/MatchScoring.thy ===== *)
theory MatchScoring
  imports PyText "HOL-Library.AList"
begin

text \<open>
  Scoring of candidates (\<open>matching/distance.py\<close>, \<open>matching/weights.py\<close>, \<open>matching/track_align.py\<close> and the
  scoring half of \<open>matching/engine.py\<close>). Floating point numbers are rationals: the arithmetic is exact
  here, and rounding is not modelled. The similarity of strings and SciPy's
  \<open>linear_sum_assignment\<close> are parameters.
\<close>

section \<open>Weighted distances\<close>

type_synonym weights = "(ustr \<times> rat) list"
type_synonym field_dists = "(ustr \<times> rat) list"

record score_signal =
  sg_field :: ustr
  sg_distance :: rat
  sg_weight :: rat
  sg_contribution :: rat

definition weight_of :: "weights \<Rightarrow> ustr \<Rightarrow> rat" where
  "weight_of w f = (case map_of w f of None \<Rightarrow> 0 | Some x \<Rightarrow> x)"

text \<open>The entries whose field has a positive weight.\<close>

definition weighted :: "weights \<Rightarrow> field_dists \<Rightarrow> field_dists" where
  "weighted w ds = filter (\<lambda>(f, _). weight_of w f > 0) ds"

definition total_weight :: "weights \<Rightarrow> field_dists \<Rightarrow> rat" where
  "total_weight w ds = sum_list (map (\<lambda>(f, _). weight_of w f) (weighted w ds))"

definition weighted_distance :: "field_dists \<Rightarrow> weights \<Rightarrow> rat" where
  "weighted_distance ds w =
     (if total_weight w ds = 0 then 1
      else sum_list (map (\<lambda>(f, x). weight_of w f * x) (weighted w ds)) / total_weight w ds)"

definition explained_weighted_distance :: "field_dists \<Rightarrow> weights \<Rightarrow> rat \<times> score_signal list" where
  "explained_weighted_distance ds w =
     (weighted_distance ds w,
      if total_weight w ds = 0 then []
      else map (\<lambda>(f, x). \<lparr>sg_field = f, sg_distance = x, sg_weight = weight_of w f,
                sg_contribution = weight_of w f * x / total_weight w ds\<rparr>) (weighted w ds))"

definition numeric_distance :: "rat option \<Rightarrow> rat option \<Rightarrow> rat \<Rightarrow> rat" where
  "numeric_distance a b scale =
     (case (a, b) of
        (Some x, Some y) \<Rightarrow>
          if scale > 0 then min (\<bar>x - y\<bar> / scale) 1 else if x = y then 0 else 1
      | _ \<Rightarrow> 1)"

definition exact_distance :: "'a option \<Rightarrow> 'a option \<Rightarrow> rat" where
  "exact_distance a b = (case (a, b) of (Some x, Some y) \<Rightarrow> if x = y then 0 else 1 | _ \<Rightarrow> 1)"

section \<open>Weights\<close>

definition album_weights :: weights where
  "album_weights =
     [(U ''album'', 3), (U ''album_artist'', 3), (U ''tracks'', 2), (U ''missing_tracks'', 9 / 10),
      (U ''unmatched_tracks'', 6 / 10), (U ''year'', 1 / 2), (U ''media'', 1 / 2), (U ''country'', 1 / 2),
      (U ''label'', 1 / 2), (U ''catalog_number'', 1 / 2), (U ''album_id'', 5), (U ''barcode'', 2),
      (U ''source'', 2)]"

definition track_weights :: weights where
  "track_weights = [(U ''title'', 3), (U ''artist'', 2), (U ''length'', 2), (U ''index'', 1),
     (U ''track_id'', 5), (U ''isrc'', 4)]"

definition singleton_weights :: weights where
  "singleton_weights = [(U ''title'', 3), (U ''artist'', 3), (U ''length'', 5 / 2), (U ''isrc'', 4), (U ''acoustid'', 5)]"

definition album_strong_threshold :: rat where "album_strong_threshold = 10 / 100"
definition album_reject_threshold :: rat where "album_reject_threshold = 45 / 100"
definition singleton_strong_threshold :: rat where "singleton_strong_threshold = 6 / 100"
definition missing_cost :: rat where "missing_cost = 85 / 100"
definition sequential_prior_weight :: rat where "sequential_prior_weight = 15 / 100"

section \<open>Candidates and local tracks\<close>

text \<open>The fields that scoring reads; empty strings count as absent.\<close>

record candidate_track =
  ct_title :: ustr
  ct_artist :: "ustr option"
  ct_duration :: "int option"
  ct_isrc :: "ustr option"
  ct_mb_track :: "ustr option"

record release_candidate =
  rc_source :: ustr
  rc_ref :: ustr
  rc_album :: "ustr option"
  rc_album_artist :: "ustr option"
  rc_year :: "int option"
  rc_original_year :: "int option"
  rc_label :: "ustr option"
  rc_catalog_number :: "ustr option"
  rc_barcode :: "ustr option"
  rc_country :: "ustr option"
  rc_media :: "ustr option"
  rc_tracks :: "candidate_track list"
  rc_representative :: "candidate_track option"
  rc_mb_release :: "ustr option"
  rc_external :: "(ustr \<times> ustr) list"

record track_meta =
  tm_title :: "ustr option"
  tm_artist :: "ustr option"
  tm_duration :: "int option"
  tm_isrc :: "ustr option"
  tm_mb_track :: "ustr option"
  tm_acoustid :: "ustr option"

definition present :: "ustr option \<Rightarrow> ustr option" where
  "present x = (case x of None \<Rightarrow> None | Some s \<Rightarrow> if s = [] then None else Some s)"

text \<open>An entry of \<open>field_dists\<close> that is set when both sides have the value.\<close>

definition when_both :: "ustr \<Rightarrow> ('a \<Rightarrow> 'a \<Rightarrow> rat) \<Rightarrow> 'a option \<Rightarrow> 'a option \<Rightarrow> field_dists" where
  "when_both f g a b = (case (a, b) of (Some x, Some y) \<Rightarrow> [(f, g x y)] | _ \<Rightarrow> [])"

definition differ :: "'a \<Rightarrow> 'a \<Rightarrow> rat" where
  "differ x y = exact_distance (Some x) (Some y)"

definition apart :: "rat \<Rightarrow> int \<Rightarrow> int \<Rightarrow> rat" where
  "apart scale x y = numeric_distance (Some (of_int x)) (Some (of_int y)) scale"

definition track_fields :: "(ustr \<Rightarrow> ustr \<Rightarrow> rat) \<Rightarrow> track_meta \<Rightarrow> candidate_track \<Rightarrow> field_dists" where
  "track_fields sdist t c =
     [(U ''index'', 0)]
     @ when_both (U ''title'') sdist (present (tm_title t)) (present (Some (ct_title c)))
     @ when_both (U ''length'') (apart 10000) (tm_duration t) (ct_duration c)
     @ when_both (U ''artist'') sdist (present (tm_artist t)) (present (ct_artist c))
     @ when_both (U ''track_id'') differ (present (tm_mb_track t)) (present (ct_mb_track c))
     @ when_both (U ''isrc'') differ (present (tm_isrc t)) (present (ct_isrc c))"

definition track_pair_distance :: "(ustr \<Rightarrow> ustr \<Rightarrow> rat) \<Rightarrow> weights \<Rightarrow> track_meta \<Rightarrow> candidate_track \<Rightarrow> rat" where
  "track_pair_distance sdist w t c = weighted_distance (track_fields sdist t c) w"

section \<open>Track alignment\<close>

record track_alignment =
  al_local :: "nat option"
  al_candidate :: "nat option"
  al_cost :: rat

type_synonym assignment = "nat \<Rightarrow> (nat \<Rightarrow> nat \<Rightarrow> rat) \<Rightarrow> (nat \<times> nat) list"

definition cost_matrix :: "('l \<Rightarrow> 'c \<Rightarrow> rat) \<Rightarrow> 'l list \<Rightarrow> 'c list \<Rightarrow> nat \<Rightarrow> nat \<Rightarrow> rat" where
  "cost_matrix pd ls cs i j =
     (if i < length ls \<and> j < length cs
      then min (pd (ls ! i) (cs ! j) +
             sequential_prior_weight * \<bar>of_nat i - of_nat j\<bar> / of_nat (max (max (length ls) (length cs)) 1)) 1
      else missing_cost)"

definition below :: "nat \<Rightarrow> nat \<Rightarrow> nat option" where
  "below i n = (if i < n then Some i else None)"

definition align_flat :: "assignment \<Rightarrow> ('l \<Rightarrow> 'c \<Rightarrow> rat) \<Rightarrow> 'l list \<Rightarrow> 'c list \<Rightarrow> track_alignment list" where
  "align_flat lsa pd ls cs =
     (let n = length ls; m = length cs; sz = max n m; cost = cost_matrix pd ls cs in
      if sz = 0 then []
      else map (\<lambda>(r, c). \<lparr>al_local = below r n, al_candidate = below c m, al_cost = cost r c\<rparr>)
        (filter (\<lambda>(r, c). r < n \<or> c < m) (lsa sz cost)))"

definition by_disc :: "('l \<Rightarrow> int option) \<Rightarrow> 'l list \<Rightarrow> (int option \<times> nat list) list" where
  "by_disc disc_of ls = bucket_all (\<lambda>i. disc_of (ls ! i)) (\<lambda>i. i) [0..<length ls]"

definition shift_local :: "nat list \<Rightarrow> track_alignment \<Rightarrow> track_alignment" where
  "shift_local is a = a\<lparr>al_local := map_option (\<lambda>k. is ! k) (al_local a)\<rparr>"

definition align_tracks ::
  "assignment \<Rightarrow> ('l \<Rightarrow> 'c \<Rightarrow> rat) \<Rightarrow> ('l \<Rightarrow> int option) option \<Rightarrow> 'l list \<Rightarrow> 'c list \<Rightarrow> track_alignment list" where
  "align_tracks lsa pd disc_of ls cs =
     (if ls = [] \<and> cs = [] then []
      else
        (case disc_of of
           None \<Rightarrow> align_flat lsa pd ls cs
         | Some f \<Rightarrow>
             let discs = by_disc f ls in
             if length discs > 1 \<and> (\<forall>d\<in>set discs. fst d \<noteq> None)
             then concat (map (\<lambda>(_, is). map (shift_local is) (align_flat lsa pd (map (\<lambda>i. ls ! i) is) cs)) discs)
             else align_flat lsa pd ls cs))"

section \<open>Scores\<close>

record candidate_score =
  cs_distance :: rat
  cs_signals :: "score_signal list"
  cs_representative :: "candidate_track option"
  cs_related :: bool
  cs_reason :: "ustr option"

text \<open>What is known of the local group.\<close>

record group_facts =
  gf_album :: "ustr option"
  gf_album_artist :: "ustr option"
  gf_year :: "int option"
  gf_label :: "ustr option"
  gf_catalog_number :: "ustr option"
  gf_country :: "ustr option"
  gf_media :: "ustr option"
  gf_barcode :: "ustr option"

definition matched_pairs :: "track_alignment list \<Rightarrow> track_alignment list" where
  "matched_pairs as = filter (\<lambda>a. al_local a \<noteq> None \<and> al_candidate a \<noteq> None) as"

definition album_fields ::
  "(ustr \<Rightarrow> ustr \<Rightarrow> rat) \<Rightarrow> nat \<Rightarrow> group_facts \<Rightarrow> release_candidate \<Rightarrow> track_alignment list \<Rightarrow> field_dists" where
  "album_fields sdist n g c matched =
     (let k = length matched; m = length (rc_tracks c);
          tracks_dist = (if matched = [] then 1 else sum_list (map al_cost matched) / of_nat k)
      in [(U ''tracks'', tracks_dist),
          (U ''missing_tracks'', min (of_nat (m - k) / of_nat (max m 1)) 1),
          (U ''unmatched_tracks'', min (of_nat (n - k) / of_nat (max n 1)) 1)]
         @ when_both (U ''album'') sdist (present (gf_album g)) (present (rc_album c))
         @ when_both (U ''album_artist'') sdist (present (gf_album_artist g)) (present (rc_album_artist c))
         @ when_both (U ''year'') (apart 2) (gf_year g) (rc_year c)
         @ when_both (U ''media'') differ (present (gf_media g)) (present (rc_media c))
         @ when_both (U ''country'') differ (present (gf_country g)) (present (rc_country c))
         @ when_both (U ''label'') sdist (present (gf_label g)) (present (rc_label c))
         @ when_both (U ''catalog_number'') differ (present (gf_catalog_number g)) (present (rc_catalog_number c))
         @ when_both (U ''barcode'') differ (present (gf_barcode g)) (present (rc_barcode c)))"

definition album_candidate_score ::
  "(ustr \<Rightarrow> ustr \<Rightarrow> rat) \<Rightarrow> assignment \<Rightarrow> weights \<Rightarrow> weights \<Rightarrow> track_meta list \<Rightarrow> group_facts \<Rightarrow> release_candidate \<Rightarrow>
   candidate_score \<times> track_alignment list" where
  "album_candidate_score sdist lsa aw tw ls g c =
     (let alignment = align_tracks lsa (track_pair_distance sdist tw) None ls (rc_tracks c);
          matched = matched_pairs alignment;
          (distance, signals) = explained_weighted_distance (album_fields sdist (length ls) g c matched) aw;
          album_related = (case (gf_album g, rc_album c) of
            (Some a, Some b) \<Rightarrow> sdist a b < 45 / 100 | _ \<Rightarrow> False);
          track_related = (\<exists>a\<in>set matched. al_cost a < 45 / 100)
      in (\<lparr>cs_distance = distance, cs_signals = signals, cs_representative = None,
           cs_related = (album_related \<or> track_related), cs_reason = None\<rparr>, alignment))"

text \<open>\<open>min(xs, key=f, default=None)\<close>: the first of the smallest.\<close>

fun min_by :: "('a \<Rightarrow> rat) \<Rightarrow> 'a list \<Rightarrow> 'a option" where
  "min_by f [] = None"
| "min_by f (x # xs) = (case min_by f xs of None \<Rightarrow> Some x | Some y \<Rightarrow> if f y < f x then Some y else Some x)"

definition singleton_fields ::
  "(ustr \<Rightarrow> ustr \<Rightarrow> rat) \<Rightarrow> track_meta \<Rightarrow> release_candidate \<Rightarrow> candidate_track option \<Rightarrow> field_dists" where
  "singleton_fields sdist t c best =
     (let title = (case best of Some b \<Rightarrow> Some (ct_title b) | None \<Rightarrow> rc_album c);
          artist = (case Option.bind best (\<lambda>b. present (ct_artist b)) of Some a \<Rightarrow> Some a | None \<Rightarrow> rc_album_artist c)
      in when_both (U ''title'') sdist (present (tm_title t)) (present title)
         @ when_both (U ''artist'') sdist (present (tm_artist t)) (present artist)
         @ when_both (U ''length'') (apart 10000) (tm_duration t) (Option.bind best ct_duration)
         @ when_both (U ''isrc'') differ (present (tm_isrc t)) (present (Option.bind best ct_isrc))
         @ when_both (U ''acoustid'') differ (present (tm_acoustid t)) (present (map_of (rc_external c) (U ''acoustid''))))"

definition singleton_candidate_score ::
  "(ustr \<Rightarrow> ustr \<Rightarrow> rat) \<Rightarrow> weights \<Rightarrow> weights \<Rightarrow> track_meta \<Rightarrow> release_candidate \<Rightarrow> candidate_score" where
  "singleton_candidate_score sdist sw tw t c =
     (let best = min_by (track_pair_distance sdist tw t) (rc_tracks c);
          ds = singleton_fields sdist t c best;
          (distance, signals) = explained_weighted_distance ds sw;
          exact_id = (map_of ds (U ''isrc'') = Some 0 \<or> map_of ds (U ''acoustid'') = Some 0);
          title_related = (case map_of ds (U ''title'') of None \<Rightarrow> False | Some x \<Rightarrow> x < 45 / 100)
      in \<lparr>cs_distance = distance, cs_signals = signals, cs_representative = best,
          cs_related = (exact_id \<or> title_related), cs_reason = None\<rparr>)"

end
