(* ===== verification/MatchRanking.thy ===== *)
theory MatchRanking
  imports MatchScoring "HOL-Library.List_Lexorder" "HOL-Library.Product_Lexorder"
begin

text \<open>
  The ranking of scored candidates (\<open>rank_candidates\<close> of \<open>matching/candidates.py\<close>) and the decisions and
  proposals built on it (\<open>matching/engine.py\<close>). A candidate is one release of one provider; candidates are
  reordered and annotated, never merged.
\<close>

section \<open>Duplicates\<close>

definition same_text :: "ustr option \<Rightarrow> ustr option \<Rightarrow> bool" where
  "same_text a b = (case (present a, present b) of (Some x, Some y) \<Rightarrow> x = y | _ \<Rightarrow> False)"

definition mbid :: "release_candidate \<Rightarrow> ustr option" where
  "mbid c = (case present (rc_mb_release c) of Some x \<Rightarrow> Some x
             | None \<Rightarrow> map_of (rc_external c) (U ''musicbrainz''))"

definition years_apart :: "release_candidate \<Rightarrow> release_candidate \<Rightarrow> bool" where
  "years_apart a b = (case (rc_year a, rc_year b) of (Some x, Some y) \<Rightarrow> \<bar>x - y\<bar> > 1 | _ \<Rightarrow> False)"

definition is_duplicate_pair ::
  "(release_candidate \<Rightarrow> release_candidate \<Rightarrow> rat) \<Rightarrow> release_candidate \<Rightarrow> release_candidate \<Rightarrow> bool" where
  "is_duplicate_pair dup a b =
     (if rc_source a = rc_source b then False
      else if same_text (rc_barcode a) (rc_barcode b) then True
      else if same_text (mbid a) (mbid b) then True
      else if length (rc_tracks a) \<noteq> length (rc_tracks b) \<or> rc_tracks a = [] then False
      else if years_apart a b then False
      else dup a b < 10 / 100)"

section \<open>Ranking\<close>

record scored_candidate =
  sc_candidate :: release_candidate
  sc_distance :: rat
  sc_adjusted :: rat
  sc_dup :: "nat list"
  sc_corroborated :: "ustr list"
  sc_signals :: "score_signal list"
  sc_representative :: "candidate_track option"
  sc_rejected :: bool
  sc_reason :: "ustr option"

record ranking_policy =
  rp_priority :: "ustr list"
  rp_penalty :: rat
  rp_bonus :: rat
  rp_min_gap :: rat
  rp_reject :: rat

definition clamp01 :: "rat \<Rightarrow> rat" where
  "clamp01 x = max 0 (min 1 x)"

definition dup_group :: "(release_candidate \<Rightarrow> release_candidate \<Rightarrow> rat) \<Rightarrow> release_candidate list \<Rightarrow> nat \<Rightarrow> nat list" where
  "dup_group dup cs i = filter (\<lambda>j. i \<noteq> j \<and> is_duplicate_pair dup (cs ! i) (cs ! j)) [0..<length cs]"

definition corroborators :: "(release_candidate \<Rightarrow> release_candidate \<Rightarrow> rat) \<Rightarrow> release_candidate list \<Rightarrow> nat \<Rightarrow> ustr list" where
  "corroborators dup cs i =
     sort (remdups (filter (\<lambda>s. s \<noteq> rc_source (cs ! i)) (map (\<lambda>j. rc_source (cs ! j)) (dup_group dup cs i))))"

definition quality ::
  "ranking_policy \<Rightarrow> (release_candidate \<Rightarrow> candidate_score) \<Rightarrow> (release_candidate \<Rightarrow> release_candidate \<Rightarrow> rat) \<Rightarrow>
   release_candidate list \<Rightarrow> nat \<Rightarrow> rat" where
  "quality p score dup cs i =
     clamp01 (cs_distance (score (cs ! i)) - rp_bonus p * of_nat (length (corroborators dup cs i)))"

fun least :: "rat list \<Rightarrow> rat option" where
  "least [] = None"
| "least (x # xs) = (case least xs of None \<Rightarrow> Some x | Some y \<Rightarrow> Some (min x y))"

definition slack :: rat where
  "slack = 1 / 1000000000"

definition within_zone :: "ranking_policy \<Rightarrow> rat list \<Rightarrow> nat \<Rightarrow> bool" where
  "within_zone p qs i = (case least qs of None \<Rightarrow> False | Some b \<Rightarrow> qs ! i - b \<le> rp_min_gap p + slack)"

definition source_rank :: "ranking_policy \<Rightarrow> bool \<Rightarrow> release_candidate \<Rightarrow> nat option" where
  "source_rank p near c = (if near then index_of (rc_source c) (rp_priority p) else None)"

definition preference_penalty :: "ranking_policy \<Rightarrow> bool \<Rightarrow> release_candidate \<Rightarrow> rat" where
  "preference_penalty p near c =
     (case source_rank p near c of None \<Rightarrow> 0 | Some k \<Rightarrow> rp_penalty p * of_nat k)"

definition adjustment_signals :: "ranking_policy \<Rightarrow> ustr list \<Rightarrow> bool \<Rightarrow> release_candidate \<Rightarrow> score_signal list" where
  "adjustment_signals p corr near c =
     (if corr = [] then []
      else [\<lparr>sg_field = U ''corroboration'', sg_distance = 0, sg_weight = of_nat (length corr),
             sg_contribution = - (rp_bonus p * of_nat (length corr))\<rparr>])
     @ (case source_rank p near c of
          None \<Rightarrow> []
        | Some k \<Rightarrow>
            if k = 0 then []
            else [\<lparr>sg_field = U ''source_priority'', sg_distance = 1, sg_weight = of_nat k,
                   sg_contribution = rp_penalty p * of_nat k\<rparr>])"

definition rejection :: "ranking_policy \<Rightarrow> candidate_score \<Rightarrow> rat \<Rightarrow> ustr option" where
  "rejection p s adjusted =
     (case cs_reason s of
        Some r \<Rightarrow> Some r
      | None \<Rightarrow>
          if \<not> cs_related s then Some (U ''insufficient identity signals'')
          else if adjusted \<ge> rp_reject p then Some (U ''candidate is not sufficiently related'')
          else None)"

definition scored_row ::
  "ranking_policy \<Rightarrow> (release_candidate \<Rightarrow> candidate_score) \<Rightarrow> (release_candidate \<Rightarrow> release_candidate \<Rightarrow> rat) \<Rightarrow>
   release_candidate list \<Rightarrow> rat list \<Rightarrow> nat \<Rightarrow> scored_candidate" where
  "scored_row p score dup cs qs i =
     (let c = cs ! i; s = score c; corr = corroborators dup cs i; reason = rejection p s (qs ! i)
      in \<lparr>sc_candidate = c, sc_distance = cs_distance s, sc_adjusted = qs ! i, sc_dup = dup_group dup cs i,
          sc_corroborated = corr,
          sc_signals = cs_signals s @ adjustment_signals p corr (within_zone p qs i) c,
          sc_representative = (case cs_representative s of None \<Rightarrow> rc_representative c | Some t \<Rightarrow> Some t),
          sc_rejected = (reason \<noteq> None), sc_reason = reason\<rparr>)"

text \<open>The equivalence zone first, by quality and provider preference; the others by quality.\<close>

definition rank_order :: "ranking_policy \<Rightarrow> release_candidate list \<Rightarrow> rat list \<Rightarrow> nat list" where
  "rank_order p cs qs =
     sort_key (\<lambda>i. clamp01 (qs ! i + preference_penalty p True (cs ! i)))
       (filter (within_zone p qs) [0..<length cs])
     @ sort_key (\<lambda>i. qs ! i) (filter (\<lambda>i. \<not> within_zone p qs i) [0..<length cs])"

definition reindexed :: "nat list \<Rightarrow> scored_candidate \<Rightarrow> scored_candidate" where
  "reindexed order r = r\<lparr>sc_dup := sort (map (\<lambda>j. the (index_of j order)) (sc_dup r))\<rparr>"

definition rank_candidates ::
  "ranking_policy \<Rightarrow> (release_candidate \<Rightarrow> candidate_score) \<Rightarrow> (release_candidate \<Rightarrow> release_candidate \<Rightarrow> rat) \<Rightarrow>
   release_candidate list \<Rightarrow> scored_candidate list" where
  "rank_candidates p score dup cs =
     (let qs = map (quality p score dup cs) [0..<length cs]; order = rank_order p cs qs
      in map (\<lambda>i. reindexed order (scored_row p score dup cs qs i)) order)"

section \<open>Decisions\<close>

record match_decision =
  md_strong :: bool
  md_ambiguous :: bool
  md_rejected :: bool
  md_reason :: "ustr option"

definition band :: "match_decision \<Rightarrow> ustr" where
  "band m =
     (if md_rejected m then U ''reject'' else if md_strong m then U ''strong''
      else if md_ambiguous m then U ''ambiguous'' else U ''reject'')"

definition decide :: "rat \<Rightarrow> rat \<Rightarrow> rat \<Rightarrow> bool \<Rightarrow> ustr option \<Rightarrow> match_decision" where
  "decide distance strong reject rejected reason =
     (let is_rejected = (rejected \<or> distance \<ge> reject);
          is_strong = (\<not> is_rejected \<and> distance < strong)
      in \<lparr>md_strong = is_strong, md_ambiguous = (\<not> is_rejected \<and> \<not> is_strong), md_rejected = is_rejected,
          md_reason = (if is_rejected \<and> reason = None then Some (U ''candidate is not sufficiently related'')
                       else reason)\<rparr>)"

definition selected_row :: "scored_candidate list \<Rightarrow> scored_candidate option" where
  "selected_row ranked =
     (case filter (\<lambda>c. \<not> sc_rejected c) ranked of
        c # _ \<Rightarrow> Some c
      | [] \<Rightarrow> (case ranked of [] \<Rightarrow> None | c # _ \<Rightarrow> Some c))"

definition too_close :: "rat \<Rightarrow> scored_candidate list \<Rightarrow> bool" where
  "too_close min_gap ranked =
     (case filter (\<lambda>c. \<not> sc_rejected c) ranked of
        a # b # _ \<Rightarrow> min_gap > 0 \<and> \<bar>sc_adjusted b - sc_adjusted a\<bar> \<le> min_gap + slack
      | _ \<Rightarrow> False)"

definition decision_for_ranked :: "scored_candidate list \<Rightarrow> rat \<Rightarrow> rat \<Rightarrow> rat \<Rightarrow> match_decision" where
  "decision_for_ranked ranked strong reject min_gap =
     (case selected_row ranked of
        None \<Rightarrow> \<lparr>md_strong = False, md_ambiguous = False, md_rejected = False, md_reason = None\<rparr>
      | Some c \<Rightarrow>
          if too_close min_gap ranked
          then \<lparr>md_strong = False, md_ambiguous = \<not> sc_rejected c, md_rejected = sc_rejected c, md_reason = sc_reason c\<rparr>
          else decide (sc_adjusted c) strong reject (sc_rejected c) (sc_reason c))"

section \<open>Proposals\<close>

record matching_config =
  mc_album_weights :: weights
  mc_singleton_weights :: weights
  mc_track_weights :: weights
  mc_album_strong :: rat
  mc_album_reject :: rat
  mc_singleton_strong :: rat
  mc_singleton_reject :: rat
  mc_min_gap :: rat
  mc_provider_order :: "ustr list"
  mc_source_penalty :: rat

definition default_matching_config :: matching_config where
  "default_matching_config =
     \<lparr>mc_album_weights = album_weights, mc_singleton_weights = singleton_weights, mc_track_weights = track_weights,
      mc_album_strong = album_strong_threshold, mc_album_reject = album_reject_threshold,
      mc_singleton_strong = singleton_strong_threshold, mc_singleton_reject = album_reject_threshold,
      mc_min_gap = 3 / 100, mc_provider_order = [U ''musicbrainz'', U ''discogs'', U ''deezer''],
      mc_source_penalty = 2 / 100\<rparr>"

definition policy :: "matching_config \<Rightarrow> rat \<Rightarrow> ranking_policy" where
  "policy cfg reject = \<lparr>rp_priority = mc_provider_order cfg, rp_penalty = mc_source_penalty cfg, rp_bonus = 5 / 100,
     rp_min_gap = mc_min_gap cfg, rp_reject = reject\<rparr>"

definition album_dup :: "(ustr option \<Rightarrow> ustr option \<Rightarrow> rat) \<Rightarrow> release_candidate \<Rightarrow> release_candidate \<Rightarrow> rat" where
  "album_dup odist a b = odist (rc_album a) (rc_album b)"

text \<open>\<open>string_dist\<close> also takes absent strings; \<open>odist\<close> is it, and between present strings the scores use it.\<close>

definition on_text :: "(ustr option \<Rightarrow> ustr option \<Rightarrow> rat) \<Rightarrow> ustr \<Rightarrow> ustr \<Rightarrow> rat" where
  "on_text odist a b = odist (Some a) (Some b)"

definition propose_for_group ::
  "(ustr option \<Rightarrow> ustr option \<Rightarrow> rat) \<Rightarrow> assignment \<Rightarrow> matching_config \<Rightarrow> track_meta list \<Rightarrow> group_facts \<Rightarrow>
   release_candidate list \<Rightarrow> scored_candidate list \<times> track_alignment list list \<times> match_decision" where
  "propose_for_group odist lsa cfg ls g cs =
     (let score = album_candidate_score (on_text odist) lsa (mc_album_weights cfg) (mc_track_weights cfg) ls g;
          ranked = rank_candidates (policy cfg (mc_album_reject cfg)) (\<lambda>c. fst (score c)) (album_dup odist) cs
      in (ranked, map (\<lambda>r. snd (score (sc_candidate r))) ranked,
          decision_for_ranked ranked (mc_album_strong cfg) (mc_album_reject cfg) (mc_min_gap cfg)))"

text \<open>The sort key that prefers the earliest release among near-equal rows.\<close>

definition preference_of :: "scored_candidate \<Rightarrow> rat" where
  "preference_of r =
     sum_list (map sg_contribution (filter (\<lambda>s. sg_field s = U ''source_priority'') (sc_signals r)))"

definition release_year :: "release_candidate \<Rightarrow> int option" where
  "release_year c = (case rc_original_year c of Some y \<Rightarrow> if y \<noteq> 0 then Some y else rc_year c | None \<Rightarrow> rc_year c)"

definition earliest_key :: "rat \<Rightarrow> rat \<Rightarrow> scored_candidate \<Rightarrow> nat \<times> rat \<times> int" where
  "earliest_key min_gap best r =
     (let in_zone = (sc_adjusted r - best \<le> min_gap + slack);
          in_year_band = (sc_adjusted r \<le> best + 2 / 100);
          year = release_year (sc_candidate r)
      in (if in_zone then 0 else 1,
          if in_zone then clamp01 (sc_adjusted r + preference_of r) else sc_adjusted r,
          if in_year_band \<and> year \<noteq> None then the year else 9999))"

definition prefer_earliest :: "rat \<Rightarrow> scored_candidate list \<Rightarrow> scored_candidate list" where
  "prefer_earliest min_gap ranked =
     (case least (map sc_adjusted ranked) of
        None \<Rightarrow> ranked
      | Some best \<Rightarrow>
          let order = sort_key (\<lambda>i. earliest_key min_gap best (ranked ! i)) [0..<length ranked]
          in if order = [0..<length ranked] then ranked
             else map (\<lambda>i. reindexed order (ranked ! i)) order)"

definition propose_for_singleton ::
  "(ustr option \<Rightarrow> ustr option \<Rightarrow> rat) \<Rightarrow> matching_config \<Rightarrow> bool \<Rightarrow> track_meta \<Rightarrow> release_candidate list \<Rightarrow>
   scored_candidate list \<times> match_decision" where
  "propose_for_singleton odist cfg earliest t cs =
     (let score = singleton_candidate_score (on_text odist) (mc_singleton_weights cfg) (mc_track_weights cfg) t;
          ranked0 = rank_candidates (policy cfg (mc_singleton_reject cfg)) score (album_dup odist) cs;
          ranked = (if earliest then prefer_earliest (mc_min_gap cfg) ranked0 else ranked0)
      in (ranked, decision_for_ranked ranked (mc_singleton_strong cfg) (mc_singleton_reject cfg) (mc_min_gap cfg)))"

section \<open>The string distance\<close>

text \<open>\<open>string_dist\<close> of \<open>domain/normalize.py\<close> over the normalization and RapidFuzz's two ratios.\<close>

definition string_dist ::
  "(ustr option \<Rightarrow> ustr) \<Rightarrow> (ustr \<Rightarrow> ustr \<Rightarrow> rat) \<Rightarrow> (ustr \<Rightarrow> ustr \<Rightarrow> rat) \<Rightarrow> ustr option \<Rightarrow> ustr option \<Rightarrow> rat" where
  "string_dist normal token_sort_ratio ratio a b =
     (let na = normal a; nb = normal b in
      if na = nb then 0 else if na = [] \<or> nb = [] then 1
      else 1 - max (token_sort_ratio na nb / 100) (ratio na nb / 100))"

end
