(* ===== verification/MatchProperties.thy ===== *)
theory MatchProperties
  imports MatchFacts
begin

text \<open>
  What the matching engine guarantees: explained scores, rankings that keep every candidate and never
  promote a worse one beyond the equivalence zone, unambiguous strong decisions and complete alignments.
\<close>

section \<open>The order of a ranking\<close>

lemma least_Some: "least xs = Some b \<longleftrightarrow> b \<in> set xs \<and> (\<forall>x\<in>set xs. b \<le> x)"
proof (induction xs arbitrary: b)
  case (Cons x xs)
  show ?case
  proof (cases "least xs")
    case None
    then have "xs = []" by (cases xs) (auto split: option.splits)
    then show ?thesis by auto
  next
    case (Some y)
    then show ?thesis using Cons.IH [of y] by (auto simp: min_def intro: order.antisym order.trans)
  qed
qed simp

lemma least_None: "least xs = None \<longleftrightarrow> xs = []"
  by (cases xs) (auto split: option.splits)

text \<open>Scores in ranked order: those within the gap of the best first, then the others by score.\<close>

definition zoned :: "rat \<Rightarrow> rat list \<Rightarrow> bool" where
  "zoned gap as \<longleftrightarrow>
     (\<exists>zs os best. as = zs @ os \<and> (\<forall>a\<in>set as. best \<le> a) \<and> (\<forall>z\<in>set zs. z - best \<le> gap + slack) \<and>
        (\<forall>x\<in>set os. x - best > gap + slack) \<and> sorted os)"

lemma zonedE:
  assumes "zoned gap as"
  obtains zs os best where "as = zs @ os" "\<And>a. a \<in> set as \<Longrightarrow> best \<le> a"
    "\<And>z. z \<in> set zs \<Longrightarrow> z - best \<le> gap + slack" "\<And>x. x \<in> set os \<Longrightarrow> x - best > gap + slack" "sorted os"
  using assms unfolding zoned_def by blast

lemma zoned_Nil: "zoned gap []"
  by (simp add: zoned_def)

lemma zoned_nth:
  assumes "zoned gap as" and "0 \<le> gap" and "i \<le> j" and "j < length as"
  shows "as ! i \<le> as ! j + gap + slack"
proof -
  obtain zs os best where *: "as = zs @ os" "\<And>a. a \<in> set as \<Longrightarrow> best \<le> a"
    "\<And>z. z \<in> set zs \<Longrightarrow> z - best \<le> gap + slack" "\<And>x. x \<in> set os \<Longrightarrow> x - best > gap + slack" "sorted os"
    using zonedE [OF assms(1)] by metis
  have j: "best \<le> as ! j" using *(2) assms(4) by simp
  show ?thesis
  proof (cases "i < length zs")
    case True
    then have "as ! i - best \<le> gap + slack" using *(3) [of "as ! i"] by (simp add: *(1) nth_append)
    then show ?thesis using j by simp
  next
    case False
    then have "os ! (i - length zs) \<le> os ! (j - length zs)"
      using assms(3,4) *(1,5) by (intro sorted_nth_mono) auto
    then show ?thesis using False assms(2,3) by (simp add: *(1) nth_append slack_def)
  qed
qed

lemma zoned_outside:
  assumes "zoned gap as" and "i \<le> j" and "j < length as" and "k < length as" and "as ! i > as ! k + gap + slack"
  shows "as ! i \<le> as ! j"
proof -
  obtain zs os best where *: "as = zs @ os" "\<And>a. a \<in> set as \<Longrightarrow> best \<le> a"
    "\<And>z. z \<in> set zs \<Longrightarrow> z - best \<le> gap + slack" "\<And>x. x \<in> set os \<Longrightarrow> x - best > gap + slack" "sorted os"
    using zonedE [OF assms(1)] by metis
  have "best \<le> as ! k" using *(2) assms(4) by simp
  then have "\<not> as ! i - best \<le> gap + slack" using assms(5) by simp
  then have i: "\<not> i < length zs" using *(3) [of "as ! i"] by (auto simp: *(1) nth_append)
  then have "os ! (i - length zs) \<le> os ! (j - length zs)"
    using assms(2,3) *(1,5) by (intro sorted_nth_mono) auto
  then show ?thesis using i assms(2) by (simp add: *(1) nth_append)
qed

lemma set_rank_order: "set (rank_order p cs qs) = {..<length cs}"
  by (auto simp: rank_order_def)

lemma mset_rank_order: "mset (rank_order p cs qs) = mset [0..<length cs]"
  using multiset_partition [of "mset [0..<length cs]" "within_zone p qs"]
  by (simp add: rank_order_def del: mset_upt)

lemma length_rank_order [simp]: "length (rank_order p cs qs) = length cs"
  using mset_rank_order [of p cs qs] by (metis diff_zero length_upt mset_eq_length)

lemma distinct_rank_order: "distinct (rank_order p cs qs)"
  using mset_rank_order [of p cs qs] by (metis distinct_upt mset_eq_imp_distinct_iff)

lemma rank_order_zoned:
  assumes "length qs = length cs"
  shows "zoned (rp_min_gap p) (map (\<lambda>i. qs ! i) (rank_order p cs qs))"
proof (cases "least qs")
  case None
  then show ?thesis using assms by (simp add: least_None rank_order_def zoned_Nil)
next
  case (Some b)
  let ?zs = "sort_key (\<lambda>i. clamp01 (qs ! i + preference_penalty p True (cs ! i)))
    (filter (within_zone p qs) [0..<length cs])"
  let ?os = "sort_key (\<lambda>i. qs ! i) (filter (\<lambda>i. \<not> within_zone p qs i) [0..<length cs])"
  have b: "b \<le> qs ! i" if "i < length cs" for i
    using Some that assms by (simp add: least_Some)
  have zs: "qs ! i - b \<le> rp_min_gap p + slack" if "i \<in> set ?zs" for i
    using that Some by (simp add: within_zone_def)
  have os: "qs ! i - b > rp_min_gap p + slack" if "i \<in> set ?os" for i
    using that Some by (simp add: within_zone_def)
  have "sorted (map (\<lambda>i. qs ! i) ?os)" by simp
  then show ?thesis
    unfolding zoned_def
    by (intro exI [of _ "map (\<lambda>i. qs ! i) ?zs"] exI [of _ "map (\<lambda>i. qs ! i) ?os"] exI [of _ b])
       (use b zs os in \<open>auto simp: rank_order_def\<close>)
qed

section \<open>The rows of a ranking\<close>

abbreviation "qualities p score dup cs \<equiv> map (quality p score dup cs) [0..<length cs]"

lemma length_rank_candidates [simp]: "length (rank_candidates p score dup cs) = length cs"
  by (simp add: rank_candidates_def Let_def)

lemma rank_candidates_nth:
  assumes "i < length cs"
  shows "rank_candidates p score dup cs ! i =
           reindexed (rank_order p cs (qualities p score dup cs))
             (scored_row p score dup cs (qualities p score dup cs) (rank_order p cs (qualities p score dup cs) ! i))"
  using assms by (simp add: rank_candidates_def Let_def)

lemma reindexed_simps [simp]:
  "sc_candidate (reindexed order r) = sc_candidate r" "sc_adjusted (reindexed order r) = sc_adjusted r"
  "sc_distance (reindexed order r) = sc_distance r" "sc_corroborated (reindexed order r) = sc_corroborated r"
  "sc_rejected (reindexed order r) = sc_rejected r" "sc_reason (reindexed order r) = sc_reason r"
  by (simp_all add: reindexed_def)

lemma scored_row_simps [simp]:
  "sc_candidate (scored_row p score dup cs qs i) = cs ! i" "sc_adjusted (scored_row p score dup cs qs i) = qs ! i"
  "sc_distance (scored_row p score dup cs qs i) = cs_distance (score (cs ! i))"
  "sc_corroborated (scored_row p score dup cs qs i) = corroborators dup cs i"
  "sc_dup (scored_row p score dup cs qs i) = dup_group dup cs i"
  "sc_rejected (scored_row p score dup cs qs i) \<longleftrightarrow> rejection p (score (cs ! i)) (qs ! i) \<noteq> None"
  by (simp_all add: scored_row_def Let_def)

lemma rank_candidates_zoned:
  "zoned (rp_min_gap p) (map sc_adjusted (rank_candidates p score dup cs))"
  using rank_order_zoned [of "qualities p score dup cs" cs p]
  by (simp add: rank_candidates_def Let_def o_def)

lemma is_duplicate_pair_sym:
  assumes "\<And>a b. dup a b = dup b a"
  shows "is_duplicate_pair dup a b = is_duplicate_pair dup b a"
proof -
  have t: "same_text x y = same_text y x" for x y by (auto simp: same_text_def split: option.splits)
  have y: "years_apart a b = years_apart b a"
    by (auto simp: years_apart_def abs_minus_commute split: option.splits)
  have s: "(rc_source a = rc_source b) = (rc_source b = rc_source a)" by auto
  have l: "(length (rc_tracks a) \<noteq> length (rc_tracks b) \<or> rc_tracks a = []) =
    (length (rc_tracks b) \<noteq> length (rc_tracks a) \<or> rc_tracks b = [])" by auto
  show ?thesis
    by (simp only: is_duplicate_pair_def s l y assms [of a b] t [of "rc_barcode a"] t [of "mbid a"])
qed

lemma set_reindexed_dup:
  assumes "distinct order" and "set (sc_dup r) \<subseteq> set order"
  shows "j \<in> set (sc_dup (reindexed order r)) \<longleftrightarrow> j < length order \<and> order ! j \<in> set (sc_dup r)"
proof -
  have *: "the (index_of (order ! k) order) = k" if "k < length order" for k
    using index_of_nth [OF assms(1) that] by simp
  show ?thesis
  proof
    assume "j \<in> set (sc_dup (reindexed order r))"
    then obtain i where i: "i \<in> set (sc_dup r)" "j = the (index_of i order)" by (auto simp: reindexed_def)
    moreover obtain k where "k < length order" "order ! k = i"
      using i(1) assms(2) by (metis in_set_conv_nth subsetD)
    ultimately show "j < length order \<and> order ! j \<in> set (sc_dup r)" using * by metis
  next
    assume "j < length order \<and> order ! j \<in> set (sc_dup r)"
    then show "j \<in> set (sc_dup (reindexed order r))"
      using * [of j] by (auto simp: reindexed_def intro!: image_eqI [of _ _ "order ! j"])
  qed
qed

section \<open>Unambiguous strong decisions\<close>

text \<open>
  No rival: with a gap, the other is farther away than the gap; without one, it may be as good, but it is not better.
\<close>

definition no_rival :: "rat \<Rightarrow> rat \<Rightarrow> rat \<Rightarrow> bool" where
  "no_rival gap a b \<longleftrightarrow> (if 0 < gap then a + gap + slack < b else gap = 0 \<longrightarrow> a \<le> b + slack)"

text \<open>The first available row scores below the limit, and every other available row comes later and is no rival.\<close>

definition unrivalled :: "rat \<Rightarrow> rat \<Rightarrow> scored_candidate list \<Rightarrow> bool" where
  "unrivalled limit gap rs \<longleftrightarrow>
     (\<exists>i<length rs. \<not> sc_rejected (rs ! i) \<and> sc_adjusted (rs ! i) < limit \<and>
        (\<forall>j<length rs. j \<noteq> i \<and> \<not> sc_rejected (rs ! j) \<longrightarrow>
            i < j \<and> no_rival gap (sc_adjusted (rs ! i)) (sc_adjusted (rs ! j))))"

lemma unrivalledI:
  assumes f: "filter (\<lambda>c. \<not> sc_rejected c) rs = a # bs" and "sc_adjusted a < limit"
    and far: "\<And>b. b \<in> set bs \<Longrightarrow> no_rival gap (sc_adjusted a) (sc_adjusted b)"
  shows "unrivalled limit gap rs"
proof -
  obtain pre suf where rs: "rs = pre @ a # suf" and pre: "\<forall>c\<in>set pre. sc_rejected c"
    and a: "\<not> sc_rejected a" and bs: "bs = filter (\<lambda>c. \<not> sc_rejected c) suf"
    using filter_eq_ConsD [OF f] by auto
  have "length pre < j \<and> no_rival gap (sc_adjusted a) (sc_adjusted (rs ! j))"
    if "j < length rs" "j \<noteq> length pre" "\<not> sc_rejected (rs ! j)" for j
  proof -
    have "\<not> j < length pre" using pre that(3) by (auto simp: rs nth_append)
    then have j: "length pre < j" using that(2) by simp
    then have "rs ! j \<in> set suf" using that(1) by (auto simp: rs nth_append nth_Cons')
    then show ?thesis using far [of "rs ! j"] that(3) j by (simp add: bs)
  qed
  then show ?thesis
    unfolding unrivalled_def by (intro exI [of _ "length pre"]) (use a assms(2) in \<open>auto simp: rs\<close>)
qed

lemma zoned_filter_le:
  assumes "zoned gap (map sc_adjusted rs)" and "0 \<le> gap" and "filter P rs = a # bs" and "c \<in> set bs"
  shows "sc_adjusted a \<le> sc_adjusted c + gap + slack"
proof -
  obtain pre suf where rs: "rs = pre @ a # suf" and bs: "bs = filter P suf"
    using filter_eq_ConsD [OF assms(3)] by auto
  then have "c \<in> set suf" using assms(4) by simp
  then obtain k where k: "k < length suf" "suf ! k = c" by (auto simp: in_set_conv_nth)
  show ?thesis
    using zoned_nth [OF assms(1,2), of "length pre" "Suc (length pre + k)"] k by (simp add: rs nth_append)
qed

lemma zoned_filter_far:
  assumes "zoned gap (map sc_adjusted rs)" and "filter P rs = a # b # bs"
    and "\<bar>sc_adjusted b - sc_adjusted a\<bar> > gap + slack" and "c \<in> set (b # bs)"
  shows "sc_adjusted a + gap + slack < sc_adjusted c"
proof -
  obtain zs os best where *: "map sc_adjusted rs = zs @ os" "\<And>x. x \<in> set (map sc_adjusted rs) \<Longrightarrow> best \<le> x"
    "\<And>z. z \<in> set zs \<Longrightarrow> z - best \<le> gap + slack" "\<And>x. x \<in> set os \<Longrightarrow> x - best > gap + slack" "sorted os"
    using zonedE [OF assms(1)] by metis
  then obtain zr or where rs: "rs = zr @ or" and z: "zs = map sc_adjusted zr" and o: "os = map sc_adjusted or"
    by (auto simp: map_eq_append_conv)
  have near: "best \<le> sc_adjusted x" "sc_adjusted x - best \<le> gap + slack" if "x \<in> set zr" for x
    using *(2,3) that rs z by auto
  have sorted: "sorted (map sc_adjusted (filter P or))"
    using *(5) o sorted_filter by fastforce
  have split: "filter P zr @ filter P or = a # b # bs" using assms(2) rs by simp
  show ?thesis
  proof (cases "filter P zr")
    case Nil
    then have "sc_adjusted a \<le> sc_adjusted b" "sc_adjusted b \<le> sc_adjusted c"
      using sorted split assms(4) by auto
    then show ?thesis using assms(3) by simp
  next
    case (Cons x ys)
    then have "a \<in> set (filter P zr)" using split by simp
    then have a: "a \<in> set zr" by simp
    show ?thesis
    proof (cases ys)
      case Nil
      then have bo: "filter P or = b # bs" using split Cons by simp
      then have "b \<in> set (filter P or)" by simp
      then have "b \<in> set or" by simp
      then have "sc_adjusted b - best > gap + slack" using *(4) o by simp
      moreover have "sc_adjusted b \<le> sc_adjusted c" using sorted bo assms(4) by auto
      ultimately show ?thesis using near [OF a] assms(3) by linarith
    next
      case (Cons y zs')
      then have "b \<in> set (filter P zr)" using split \<open>filter P zr = x # ys\<close> by simp
      then have "b \<in> set zr" by simp
      then show ?thesis using near [OF a] near [of b] assms(3) by linarith
    qed
  qed
qed

lemma strong_unrivalled:
  assumes "zoned gap (map sc_adjusted rs)" and "md_strong (decision_for_ranked rs strong reject gap)"
  shows "unrivalled (min strong reject) gap rs"
proof (cases "filter (\<lambda>c. \<not> sc_rejected c) rs")
  case Nil
  then have "sc_rejected (hd rs)" if "rs \<noteq> []"
    using that by (cases rs) (auto split: if_splits)
  then have False using assms(2) Nil
    by (cases rs) (auto simp: decision_for_ranked_def selected_row_def too_close_def decide_def Let_def)
  then show ?thesis ..
next
  case (Cons a bs)
  then have sel: "selected_row rs = Some a" by (simp add: selected_row_def)
  have tc: "\<not> too_close gap rs" and lim: "sc_adjusted a < min strong reject"
    using assms(2) by (auto simp: decision_for_ranked_def sel decide_def Let_def split: if_splits)
  show ?thesis
  proof (rule unrivalledI [OF Cons lim])
    fix c assume c: "c \<in> set bs"
    then obtain b bs' where bs: "bs = b # bs'" by (cases bs) auto
    have "\<bar>sc_adjusted b - sc_adjusted a\<bar> > gap + slack" if "0 < gap"
      using tc that Cons bs by (simp add: too_close_def)
    then have "sc_adjusted a + gap + slack < sc_adjusted c" if "0 < gap"
      using that zoned_filter_far [OF assms(1)] Cons bs c by blast
    moreover have "sc_adjusted a \<le> sc_adjusted c + slack" if "gap = 0"
      using zoned_filter_le [OF assms(1) _ Cons c] that by simp
    ultimately show "no_rival gap (sc_adjusted a) (sc_adjusted c)" by (simp add: no_rival_def)
  qed
qed

section \<open>The earliest release\<close>

lemma prefer_earliest_zoned:
  assumes "zoned gap (map sc_adjusted rs)"
  shows "zoned gap (map sc_adjusted (prefer_earliest gap rs))"
proof (cases "least (map sc_adjusted rs)")
  case None
  then show ?thesis using assms by (simp add: prefer_earliest_def)
next
  case (Some best)
  let ?k = "\<lambda>i. earliest_key gap best (rs ! i)"
  let ?near = "\<lambda>i. sc_adjusted (rs ! i) - best \<le> gap + slack"
  define order where "order = sort_key ?k [0..<length rs]"
  have set: "set order = {..<length rs}" by (auto simp: order_def)
  have sorted: "sorted (map ?k order)" by (simp add: order_def)
  have first: "?k i < ?k j" if "?near i" "\<not> ?near j" for i j
    using that by (simp add: earliest_key_def Let_def)
  have split: "filter ?near order @ filter (\<lambda>i. \<not> ?near i) order = order"
    by (rule sorted_split [OF sorted first])
  have mono: "sc_adjusted (rs ! i) \<le> sc_adjusted (rs ! j)" if "?k i \<le> ?k j" "\<not> ?near i" "\<not> ?near j" for i j
    using that by (auto simp: earliest_key_def Let_def)
  have "sorted (map ?k (filter (\<lambda>i. \<not> ?near i) order))" by (rule sorted_filter [OF sorted])
  then have "sorted (map (\<lambda>i. sc_adjusted (rs ! i)) (filter (\<lambda>i. \<not> ?near i) order))"
    unfolding sorted_map by (rule sorted_wrt_mono_rel [rotated]) (use mono in auto)
  moreover have "best \<le> sc_adjusted (rs ! i)" if "i < length rs" for i
    using Some that by (auto simp: least_Some)
  ultimately have "zoned gap (map (\<lambda>i. sc_adjusted (rs ! i)) order)"
    unfolding zoned_def using split set
    by (intro exI [of _ "map (\<lambda>i. sc_adjusted (rs ! i)) (filter ?near order)"]
          exI [of _ "map (\<lambda>i. sc_adjusted (rs ! i)) (filter (\<lambda>i. \<not> ?near i) order)"] exI [of _ best])
       (auto simp flip: map_append)
  then show ?thesis using assms Some by (simp add: prefer_earliest_def order_def o_def Let_def)
qed

section \<open>Complete alignments\<close>

lemma map_filter_map: "List.map_filter g (map f xs) = List.map_filter (\<lambda>x. g (f x)) xs"
  by (induction xs) (auto simp: List.map_filter_simps split: option.splits)

lemma map_filter_below:
  "mset (List.map_filter (\<lambda>p. below (f p) n) xs) = filter_mset (\<lambda>i. i < n) (mset (map f xs))"
  by (induction xs) (auto simp: below_def List.map_filter_simps)

lemma align_flat_pairs:
  assumes "max (length ls) (length cs) \<noteq> 0"
    and "mset (map fst (lsa (max (length ls) (length cs)) (cost_matrix pd ls cs))) = mset [0..<max (length ls) (length cs)]"
    and "mset (map snd (lsa (max (length ls) (length cs)) (cost_matrix pd ls cs))) = mset [0..<max (length ls) (length cs)]"
  shows "align_flat lsa pd ls cs =
    map (\<lambda>(r, c). \<lparr>al_local = below r (length ls), al_candidate = below c (length cs), al_cost = cost_matrix pd ls cs r c\<rparr>)
      (lsa (max (length ls) (length cs)) (cost_matrix pd ls cs))"
proof -
  let ?p = "lsa (max (length ls) (length cs)) (cost_matrix pd ls cs)"
  have "fst ` set ?p = {0..<max (length ls) (length cs)}" "snd ` set ?p = {0..<max (length ls) (length cs)}"
    using mset_eq_setD [OF assms(2)] mset_eq_setD [OF assms(3)] by simp_all
  then have "x < max (length ls) (length cs) \<and> y < max (length ls) (length cs)" if "(x, y) \<in> set ?p" for x y
    using that by force
  then have "x < length ls \<or> y < length cs" if "(x, y) \<in> set ?p" for x y
    using that by (cases "length ls \<le> length cs") (auto simp: max_def)
  then have "filter (\<lambda>(r, c). r < length ls \<or> c < length cs) ?p = ?p"
    by (auto simp: filter_id_conv)
  then show ?thesis using assms(1) unfolding align_flat_def Let_def by (simp only: if_False)
qed

section \<open>Scores of candidates\<close>

lemma unit_fraction: "k \<le> n \<Longrightarrow> unit (of_nat k / of_nat n)"
  by (cases "n = 0") (simp_all add: unit_def divide_le_eq_1)

lemma unit_0_1 [unit_facts]: "unit 0" "unit 1"
  by (simp_all add: unit_def)

lemma unit_album_fields:
  assumes "\<And>x y. unit (sdist x y)" and "\<And>a. a \<in> set matched \<Longrightarrow> unit (al_cost a)"
  shows "unit_fields (album_fields sdist n g c matched)"
  using mean_unit [of matched al_cost, OF assms(2)]
  by (simp add: album_fields_def Let_def unit_facts unit_fraction assms(1))

lemma album_score_parts:
  obtains matched x ss where
    "explained_weighted_distance (album_fields sdist (length ls) g c matched) aw = (x, ss)"
    "cs_distance (fst (album_candidate_score sdist lsa aw tw ls g c)) = x"
    "cs_signals (fst (album_candidate_score sdist lsa aw tw ls g c)) = ss"
    "set matched \<subseteq> set (align_flat lsa (track_pair_distance sdist tw) ls (rc_tracks c))"
proof -
  let ?al = "align_tracks lsa (track_pair_distance sdist tw) None ls (rc_tracks c)"
  obtain x ss where e: "explained_weighted_distance (album_fields sdist (length ls) g c (matched_pairs ?al)) aw = (x, ss)"
    by fastforce
  have "set (matched_pairs ?al) \<subseteq> set (align_flat lsa (track_pair_distance sdist tw) ls (rc_tracks c))"
    by (auto simp: matched_pairs_def align_tracks_def split: if_splits)
  then show ?thesis using that [OF e] by (simp add: album_candidate_score_def Let_def e)
qed

lemma unit_singleton_fields: "(\<And>x y. unit (sdist x y)) \<Longrightarrow> unit_fields (singleton_fields sdist t c best)"
  by (simp add: singleton_fields_def Let_def unit_facts)

section \<open>Properties\<close>

lemma candidate_score_explained:
  assumes "\<And>x y. unit (sdist x y)"
  shows "unit (cs_distance (fst (album_candidate_score sdist lsa aw tw ls g c))) \<and>
         explains (cs_distance (fst (album_candidate_score sdist lsa aw tw ls g c)))
           (cs_signals (fst (album_candidate_score sdist lsa aw tw ls g c))) \<and>
         unit (cs_distance (singleton_candidate_score sdist sw tw t c)) \<and>
         explains (cs_distance (singleton_candidate_score sdist sw tw t c))
           (cs_signals (singleton_candidate_score sdist sw tw t c))"
proof -
  obtain matched x ss where a: "explained_weighted_distance (album_fields sdist (length ls) g c matched) aw = (x, ss)"
    "cs_distance (fst (album_candidate_score sdist lsa aw tw ls g c)) = x"
    "cs_signals (fst (album_candidate_score sdist lsa aw tw ls g c)) = ss"
    "set matched \<subseteq> set (align_flat lsa (track_pair_distance sdist tw) ls (rc_tracks c))"
    by (rule album_score_parts)
  have "unit_fields (album_fields sdist (length ls) g c matched)"
    using a(4) by (intro unit_album_fields assms) (meson align_flat_cost unit_track_pair_distance assms subsetD)
  then have "unit x" using fst_explained [OF a(1)] by (simp add: unit_facts)
  moreover obtain y ys where s: "explained_weighted_distance
      (singleton_fields sdist t c (min_by (track_pair_distance sdist tw t) (rc_tracks c))) sw = (y, ys)"
    by fastforce
  moreover have "unit y" using fst_explained [OF s] by (simp add: unit_facts unit_singleton_fields assms)
  ultimately show ?thesis
    using a(2,3) explained_weighted_distance_explains [OF a(1)] explained_weighted_distance_explains [OF s]
    by (simp add: singleton_candidate_score_def Let_def)
qed

text \<open>
  What the signals of a row say. Those of the candidate come first and add up to its distance; without any, the distance
  is 1. Corroboration and provider priority follow, each at most once: the former lowers the distance to the
  score, the latter does not enter it.
\<close>

definition contribution_of :: "ustr \<Rightarrow> score_signal list \<Rightarrow> rat" where
  "contribution_of f ss = sum_list (map sg_contribution (filter (\<lambda>s. sg_field s = f) ss))"

definition row_explained :: "scored_candidate \<Rightarrow> bool" where
  "row_explained r \<longleftrightarrow>
     unit (sc_distance r) \<and> unit (sc_adjusted r) \<and>
     (\<exists>base extra. sc_signals r = base @ extra \<and> explains (sc_distance r) base
        \<and> distinct (map sg_field extra) \<and> set (map sg_field extra) \<subseteq> {U ''corroboration'', U ''source_priority''}
        \<and> sc_adjusted r = clamp01 (sc_distance r + contribution_of (U ''corroboration'') extra)
        \<and> 0 \<ge> contribution_of (U ''corroboration'') extra)"

lemma adjustment_signals_explain:
  "distinct (map sg_field (adjustment_signals p corr near c))"
  "set (map sg_field (adjustment_signals p corr near c)) \<subseteq> {U ''corroboration'', U ''source_priority''}"
  "contribution_of (U ''corroboration'') (adjustment_signals p corr near c) = - (rp_bonus p * of_nat (length corr))"
proof -
  have ne: "U ''corroboration'' \<noteq> U ''source_priority''" by simp
  then show "distinct (map sg_field (adjustment_signals p corr near c))"
    "set (map sg_field (adjustment_signals p corr near c)) \<subseteq> {U ''corroboration'', U ''source_priority''}"
    "contribution_of (U ''corroboration'') (adjustment_signals p corr near c) = - (rp_bonus p * of_nat (length corr))"
    by (auto simp: adjustment_signals_def contribution_of_def simp del: U_Cons U_Nil split: option.splits)
qed

lemma reindexed_explained [simp]: "row_explained (reindexed order r) = row_explained r"
  by (simp add: row_explained_def reindexed_def)

lemma rank_candidates_explained:
  assumes "\<And>c. unit (cs_distance (score c)) \<and> explains (cs_distance (score c)) (cs_signals (score c))" and "0 \<le> rp_bonus p"
    and "r \<in> set (rank_candidates p score dup cs)"
  shows "row_explained r"
proof -
  let ?qs = "qualities p score dup cs"
  obtain i where i: "i < length cs" and r: "r = reindexed (rank_order p cs ?qs) (scored_row p score dup cs ?qs i)"
    using assms(3) set_rank_order [of p cs ?qs] by (auto simp: rank_candidates_def Let_def)
  let ?c = "cs ! i" and ?corr = "corroborators dup cs i"
  let ?extra = "adjustment_signals p ?corr (within_zone p ?qs i) ?c"
  have "sc_adjusted (scored_row p score dup cs ?qs i) = clamp01 (cs_distance (score ?c) + contribution_of (U ''corroboration'') ?extra)"
    using i by (simp add: quality_def adjustment_signals_explain del: U_Cons U_Nil)
  moreover have "sc_signals (scored_row p score dup cs ?qs i) = cs_signals (score ?c) @ ?extra"
    by (simp add: scored_row_def Let_def)
  moreover have "contribution_of (U ''corroboration'') ?extra \<le> 0"
    using assms(2) by (simp add: adjustment_signals_explain del: U_Cons U_Nil)
  ultimately have "row_explained (scored_row p score dup cs ?qs i)"
    using assms(1) [of ?c] adjustment_signals_explain [of p ?corr "within_zone p ?qs i" ?c] unit_clamp01
    unfolding row_explained_def scored_row_simps by metis
  then show ?thesis by (simp add: r)
qed

lemma prefer_earliest_explained:
  assumes "\<And>r. r \<in> set rs \<Longrightarrow> row_explained r" and "r \<in> set (prefer_earliest gap rs)"
  shows "row_explained r"
  using assms by (auto simp: prefer_earliest_def Let_def split: option.splits if_splits)


text \<open>An alignment accounts for every local track and every track of the candidate exactly once, paired or
  left over, and each of its costs lies between 0 and 1, provided the assignment solver returns a
  permutation of the rows against the columns.
\<close>

theorem alignment_covers_tracks:
  assumes "\<And>x y. unit (pd x y)"
    and "\<And>n cost. mset (map fst (lsa n cost)) = mset [0..<n]"
    and "\<And>n cost. mset (map snd (lsa n cost)) = mset [0..<n]"
  shows "mset (List.map_filter al_local (align_flat lsa pd ls cs)) = mset [0..<length ls] \<and>
         mset (List.map_filter al_candidate (align_flat lsa pd ls cs)) = mset [0..<length cs] \<and>
         (\<forall>a\<in>set (align_flat lsa pd ls cs). unit (al_cost a) \<and> (al_local a \<noteq> None \<or> al_candidate a \<noteq> None))"
proof (cases "max (length ls) (length cs) = 0")
  case True
  then show ?thesis by (simp add: align_flat_def List.map_filter_simps)
next
  case False
  let ?sz = "max (length ls) (length cs)"
  let ?p = "lsa ?sz (cost_matrix pd ls cs)"
  note al = align_flat_pairs [of ls cs lsa pd, OF False assms(2,3)]
  have local: "List.map_filter al_local (align_flat lsa pd ls cs) = List.map_filter (\<lambda>p. below (fst p) (length ls)) ?p"
    and cand: "List.map_filter al_candidate (align_flat lsa pd ls cs) = List.map_filter (\<lambda>p. below (snd p) (length cs)) ?p"
    by (simp_all add: al map_filter_map case_prod_unfold)
  have up: "filter_mset (\<lambda>i. i < n) (mset [0..<?sz]) = mset [0..<n]" if "n \<le> ?sz" for n
  proof -
    have "filter (\<lambda>i. i < n) [0..<?sz] = [0..<n]"
      using that upt_add_eq_append [of 0 n "?sz - n"] by (auto simp: filter_empty_conv)
    then show ?thesis by (metis mset_filter)
  qed
  have "al_local a \<noteq> None \<or> al_candidate a \<noteq> None" if "a \<in> set (align_flat lsa pd ls cs)" for a
    using that by (auto simp: align_flat_def Let_def below_def split: if_splits)
  then show ?thesis
    using align_flat_cost [OF assms(1)]
    unfolding local cand map_filter_below assms(2,3) by (auto simp: up simp del: mset_upt)
qed

text \<open>C25. A ranking keeps every candidate exactly once; a row links to exactly the other rows that are duplicates
  of it, so that links are symmetric when the comparison is; its corroborating providers are those of the
  rows it links to; and its score is the candidate's own lowered by the bonus for each of them.
\<close>

theorem ranking_keeps_candidates:
  assumes "rs = rank_candidates p score dup cs" and "\<And>a b. dup a b = dup b a"
  shows "mset (map sc_candidate rs) = mset cs \<and>
    (\<forall>i<length rs.
       (\<forall>j. j \<in> set (sc_dup (rs ! i)) \<longleftrightarrow>
          j < length rs \<and> j \<noteq> i \<and> is_duplicate_pair dup (sc_candidate (rs ! i)) (sc_candidate (rs ! j))) \<and>
       (\<forall>j\<in>set (sc_dup (rs ! i)). i \<in> set (sc_dup (rs ! j))) \<and>
       set (sc_corroborated (rs ! i)) = (\<lambda>j. rc_source (sc_candidate (rs ! j))) ` set (sc_dup (rs ! i)) \<and>
       sc_adjusted (rs ! i) =
         clamp01 (sc_distance (rs ! i) - rp_bonus p * of_nat (length (sc_corroborated (rs ! i)))))"
proof -
  define qs where "qs = qualities p score dup cs"
  define order where "order = rank_order p cs qs"
  have n: "length rs = length cs" by (simp add: assms(1))
  have order: "set order = {..<length cs}" "distinct order" "length order = length cs"
    by (simp_all add: order_def set_rank_order distinct_rank_order)
  have row: "rs ! i = reindexed order (scored_row p score dup cs qs (order ! i))" if "i < length cs" for i
    using that by (simp add: assms(1) rank_candidates_nth order_def qs_def)
  have lt: "order ! i < length cs" if "i < length cs" for i
    using order that nth_mem by fastforce
  have inj: "order ! i = order ! j \<longleftrightarrow> i = j" if "i < length cs" "j < length cs" for i j
    using order that by (simp add: nth_eq_iff_index_eq)
  have links: "j \<in> set (sc_dup (rs ! i)) \<longleftrightarrow>
      j < length cs \<and> j \<noteq> i \<and> is_duplicate_pair dup (sc_candidate (rs ! i)) (sc_candidate (rs ! j))"
    if "i < length cs" for i j
  proof -
    have "set (sc_dup (scored_row p score dup cs qs (order ! i))) \<subseteq> set order"
      by (auto simp: dup_group_def order)
    then have "j \<in> set (sc_dup (rs ! i)) \<longleftrightarrow> j < length cs \<and> order ! j \<in> set (dup_group dup cs (order ! i))"
      unfolding row [OF that] by (subst set_reindexed_dup) (simp_all add: order)
    also have "\<dots> \<longleftrightarrow> j < length cs \<and> j \<noteq> i \<and> is_duplicate_pair dup (cs ! (order ! i)) (cs ! (order ! j))"
      using lt [of j] inj [OF that, of j] by (auto simp: dup_group_def)
    finally show ?thesis using that by (auto simp: row)
  qed
  have cands: "map sc_candidate rs = map (\<lambda>i. cs ! i) order"
    by (simp add: assms(1) rank_candidates_def Let_def order_def qs_def o_def)
  have "mset (map sc_candidate rs) = image_mset (\<lambda>i. cs ! i) (mset order)" by (simp add: cands)
  also have "\<dots> = mset (map (\<lambda>i. cs ! i) [0..<length cs])"
    unfolding order_def mset_rank_order by (simp only: mset_map)
  finally have "mset (map sc_candidate rs) = mset cs" by (simp add: map_nth)
  moreover have "set (sc_corroborated (rs ! i)) = (\<lambda>j. rc_source (sc_candidate (rs ! j))) ` set (sc_dup (rs ! i))"
    if i: "i < length cs" for i
  proof -
    have "set (dup_group dup cs (order ! i)) = (\<lambda>j. order ! j) ` set (sc_dup (rs ! i))"
    proof -
      have "set (sc_dup (scored_row p score dup cs qs (order ! i))) \<subseteq> set order"
        by (auto simp: dup_group_def order)
      then have *: "j \<in> set (sc_dup (rs ! i)) \<longleftrightarrow> j < length cs \<and> order ! j \<in> set (dup_group dup cs (order ! i))" for j
        unfolding row [OF i] by (subst set_reindexed_dup) (simp_all add: order)
      have "\<exists>j<length cs. order ! j = k" if "k \<in> set (dup_group dup cs (order ! i))" for k
        using that order by (metis dup_group_def filter_is_subset in_set_conv_nth set_upt subsetD atLeast0LessThan)
      then show ?thesis using * by blast
    qed
    moreover have "set (sc_corroborated (rs ! i)) = (\<lambda>k. rc_source (cs ! k)) ` set (dup_group dup cs (order ! i))"
      by (auto simp: row [OF i] corroborators_def dup_group_def is_duplicate_pair_def)
    moreover have "rc_source (sc_candidate (rs ! j)) = rc_source (cs ! (order ! j))" if "j \<in> set (sc_dup (rs ! i))" for j
      using links [OF i, of j] that by (simp add: row)
    ultimately show ?thesis by (simp add: image_image cong: image_cong_simp)
  qed
  moreover have "sc_adjusted (rs ! i) =
      clamp01 (sc_distance (rs ! i) - rp_bonus p * of_nat (length (sc_corroborated (rs ! i))))" if "i < length cs" for i
    using lt [OF that] by (simp add: row [OF that] qs_def quality_def)
  moreover have "i \<in> set (sc_dup (rs ! j))" if "i < length cs" "j \<in> set (sc_dup (rs ! i))" for i j
    using links [OF that(1), of j] links [of j i] that is_duplicate_pair_sym [of dup, OF assms(2)] by blast
  ultimately show ?thesis unfolding n using links by blast
qed

text \<open>Provider preference reorders only near-equal candidates: a row never precedes one whose score is
  better by more than the gap, and rows outside the equivalence zone of the best are in order of score.
\<close>

theorem ranking_promotes_within_gap:
  assumes "rs = rank_candidates p score dup cs" and "0 \<le> rp_min_gap p" and "i < j" and "j < length rs"
  shows "sc_adjusted (rs ! i) \<le> sc_adjusted (rs ! j) + rp_min_gap p + slack \<and>
         ((\<exists>k<length rs. sc_adjusted (rs ! i) > sc_adjusted (rs ! k) + rp_min_gap p + slack) \<longrightarrow>
            sc_adjusted (rs ! i) \<le> sc_adjusted (rs ! j))"
proof -
  have z: "zoned (rp_min_gap p) (map sc_adjusted rs)" by (simp add: assms(1) rank_candidates_zoned)
  show ?thesis
    using zoned_nth [OF z assms(2), of i j] zoned_outside [OF z, of i j] assms(3,4) by auto
qed

text \<open>C24. A strong decision is unambiguous as far as the gap asks for it: when a proposal for a group or for a single
  track is decided as strong, the first row that is not rejected scores below both thresholds, and every other
  row that is not rejected comes later and, with a positive gap, is worse by more than the gap. With a gap of 0, which
  switches the check for rivals off, another row may tie, but none is better (up to the tolerance).
\<close>

theorem strong_decision_unrivalled:
  "(propose_for_group odist lsa cfg ls g cs = (rs, as, d) \<and> md_strong d \<longrightarrow>
      unrivalled (min (mc_album_strong cfg) (mc_album_reject cfg)) (mc_min_gap cfg) rs) \<and>
   (propose_for_singleton odist cfg earliest t cs = (rs, d) \<and> md_strong d \<longrightarrow>
      unrivalled (min (mc_singleton_strong cfg) (mc_singleton_reject cfg)) (mc_min_gap cfg) rs)"
proof -
  have gap: "rp_min_gap (policy cfg r) = mc_min_gap cfg" for r by (simp add: policy_def)
  have z: "zoned (mc_min_gap cfg) (map sc_adjusted (rank_candidates (policy cfg r) score dup cs))" for r score dup
    using rank_candidates_zoned [of "policy cfg r" score dup cs] by (simp add: gap)
  show ?thesis
    using strong_unrivalled [OF z] strong_unrivalled [OF prefer_earliest_zoned [OF z]]
    by (auto simp: propose_for_group_def propose_for_singleton_def Let_def split: if_splits)
qed

end
