(* ===== verification/MatchWitness.thy ===== *)
theory MatchWitness
  imports MatchProperties
begin

text \<open>
  Concrete inputs for the properties of the matching engine: two releases of the same recording from two
  providers, a distance that tells equal texts from different ones, and the identity assignment.
\<close>

definition text_dist :: "ustr \<Rightarrow> ustr \<Rightarrow> rat" where
  "text_dist a b = (if a = b then 0 else 1)"

definition some_text_dist :: "ustr option \<Rightarrow> ustr option \<Rightarrow> rat" where
  "some_text_dist a b = (if a = b then 0 else 1)"

definition diagonal :: assignment where
  "diagonal n cost = map (\<lambda>i. (i, i)) [0..<n]"

definition sample_track :: "ustr \<Rightarrow> candidate_track" where
  "sample_track s = \<lparr>ct_title = s, ct_artist = Some (U ''Ann''), ct_duration = Some 180000, ct_isrc = None, ct_mb_track = None\<rparr>"

definition sample_release :: "ustr \<Rightarrow> ustr \<Rightarrow> release_candidate" where
  "sample_release source s =
     \<lparr>rc_source = source, rc_ref = U ''1'', rc_album = Some s, rc_album_artist = Some (U ''Ann''), rc_year = Some 1999,
      rc_original_year = None, rc_label = None, rc_catalog_number = None, rc_barcode = None, rc_country = None,
      rc_media = None, rc_tracks = [sample_track s], rc_representative = None, rc_mb_release = None, rc_external = []\<rparr>"

definition sample_local :: track_meta where
  "sample_local = \<lparr>tm_title = Some (U ''Song''), tm_artist = Some (U ''Ann''), tm_duration = Some 180000, tm_isrc = None,
     tm_mb_track = None, tm_acoustid = None\<rparr>"

definition sample_group :: group_facts where
  "sample_group = \<lparr>gf_album = Some (U ''Song''), gf_album_artist = Some (U ''Ann''), gf_year = Some 1999, gf_label = None,
     gf_catalog_number = None, gf_country = None, gf_media = None, gf_barcode = None\<rparr>"

definition sample_candidates :: "release_candidate list" where
  "sample_candidates = [sample_release (U ''deezer'') (U ''Other''), sample_release (U ''musicbrainz'') (U ''Song'')]"


theorem alignment_covers_tracks_witness:
  "mset (List.map_filter al_local
     (align_flat diagonal (track_pair_distance text_dist track_weights) [sample_local, sample_local] [sample_track (U ''Song'')])) =
   mset [0..<2]"
  using alignment_covers_tracks [of "track_pair_distance text_dist track_weights" diagonal
      "[sample_local, sample_local]" "[sample_track (U ''Song'')]"]
  by (simp add: text_dist_def unit_facts diagonal_def o_def numeral_2_eq_2)

theorem ranking_keeps_candidates_witness:
  "mset (map sc_candidate (rank_candidates (policy default_matching_config (45 / 100))
     (singleton_candidate_score text_dist singleton_weights track_weights sample_local) (album_dup some_text_dist)
     sample_candidates)) = mset sample_candidates"
  using ranking_keeps_candidates [of _ "policy default_matching_config (45 / 100)"
      "singleton_candidate_score text_dist singleton_weights track_weights sample_local" "album_dup some_text_dist"
      sample_candidates, OF refl]
  by (auto simp: album_dup_def some_text_dist_def)

theorem ranking_promotes_within_gap_witness:
  "let rs = rank_candidates (policy default_matching_config (45 / 100))
     (singleton_candidate_score text_dist singleton_weights track_weights sample_local) (album_dup some_text_dist)
     sample_candidates
   in sc_adjusted (rs ! 0) \<le> sc_adjusted (rs ! 1) + 3 / 100 + slack"
  using ranking_promotes_within_gap [of _ "policy default_matching_config (45 / 100)"
      "singleton_candidate_score text_dist singleton_weights track_weights sample_local" "album_dup some_text_dist"
      sample_candidates 0 1, OF refl]
  by (simp add: policy_def default_matching_config_def sample_candidates_def Let_def)

theorem strong_decision_unrivalled_witness:
  "unrivalled (6 / 100) (3 / 100)
     (fst (propose_for_singleton some_text_dist default_matching_config True sample_local sample_candidates))"
proof -
  have "md_strong (snd (propose_for_singleton some_text_dist default_matching_config True sample_local sample_candidates))"
    by code_simp
  then show ?thesis
    using strong_decision_unrivalled [of some_text_dist diagonal default_matching_config "[]" sample_group
        sample_candidates _ _ _ True sample_local]
    by (cases "propose_for_singleton some_text_dist default_matching_config True sample_local sample_candidates")
       (simp add: default_matching_config_def singleton_strong_threshold_def album_reject_threshold_def)
qed

end
