(* ===== verification/ApplyStore.thy ===== *)
theory ApplyStore
  imports ReviewApply
begin

text \<open>
  The rows that the execution of an apply run reads and writes (\<open>db/models.py\<close>): tracks, work units, the
  file journal and the attempts of operations, together with the per-file entries of the manifest; and the
  disk it works on. The disk and the tag library are outside the program: the record \<open>disk\<close> has the
  observations and the effects the code asks of them, with their failures, and is an argument of
  every definition that uses it. The checkpoints that a replacement or a case-only rename keeps
  for its own recovery belong to the disk. Commits of the database succeed.
\<close>

section \<open>Rows\<close>

text \<open>The columns of a track that hold metadata are an association list from field names.\<close>

record track =
  tk_id :: int
  tk_path :: ustr
  tk_name :: ustr
  tk_fields :: "(ustr \<times> json) list"
  tk_size :: int
  tk_mtime :: int
  tk_content :: "ustr option"
  tk_hash :: "ustr option"
  tk_missing :: bool
  tk_group :: "int option"
  tk_art :: "int option"

record work_unit =
  wu_id :: int
  wu_key :: ustr
  wu_kind :: ustr
  wu_basis :: "ustr option"
  wu_pinned :: bool
  wu_album :: "ustr option"
  wu_artist :: "ustr option"
  wu_count :: nat

datatype journal_state = FJ_PENDING | FJ_WRITING | FJ_DONE | FJ_FAILED | FJ_ROLLED_BACK

record journal =
  fj_id :: int
  fj_run :: int
  fj_track :: int
  fj_path :: ustr
  fj_phase :: ustr
  fj_state :: journal_state
  fj_before_hash :: "ustr option"
  fj_after_hash :: "ustr option"
  fj_blob :: json
  fj_before_path :: "ustr option"
  fj_after_path :: "ustr option"
  fj_error :: "ustr option"

datatype try_state = TRY_PENDING | TRY_APPLIED | TRY_FAILED | TRY_CONFLICTED | TRY_SKIPPED

record op_try =
  ot_operation :: int
  ot_state :: try_state
  ot_error :: "ustr option"

record file_entry =
  fe_track :: int
  fe_source :: json
  fe_exec :: json
  fe_ops :: "int list"
  fe_state :: ustr
  fe_error :: "ustr option"

section \<open>The disk\<close>

record tag_plan =
  tp_fields :: "(ustr \<times> json) list"
  tp_art :: "int option"
  tp_remove_art :: bool
  tp_lyrics :: "json option"

text \<open>
  What becomes of a staged replacement of a file: an exception before anything was replaced, one after the
  replacement began (with the guard of the new file if that was recorded), or the new file with its
  guard and tag hash. A move ends in the same three ways.
\<close>

datatype 'w effect =
    Untouched ustr 'w
  | Uncertain ustr "json option" 'w
  | Performed json ustr 'w

text \<open>
  The reverse effects of a rollback; a failed one says whether it had committed a checkpoint. The result of
  \<open>finalize_publication_transition\<close>, whether the cleaning up succeeded, is dropped by all its callers, and an \<open>OSError\<close>
  inside it only makes it false: \<open>dk_finalize\<close> is therefore the resulting disk alone, and a finalization that fails is one
  that leaves the disk as it was or partly cleaned up.
\<close>

datatype 'w reversal =
    Reversed json ustr 'w
  | Irreversible ustr bool 'w

record 'w disk =
  dk_source_error :: "'w \<Rightarrow> ustr \<Rightarrow> ustr option"
  dk_stat :: "'w \<Rightarrow> ustr \<Rightarrow> ustr + int \<times> int"
  dk_hash :: "'w \<Rightarrow> ustr \<Rightarrow> ustr + ustr"
  dk_guard :: "'w \<Rightarrow> ustr \<Rightarrow> ustr + json"
  dk_content :: "'w \<Rightarrow> ustr \<Rightarrow> ustr + ustr"
  dk_backup :: "'w \<Rightarrow> track \<Rightarrow> ustr option"
  dk_lyrics :: "'w \<Rightarrow> ustr \<Rightarrow> json"
  dk_artwork :: "'w \<Rightarrow> track \<Rightarrow> ustr + json"
  dk_publish :: "'w \<Rightarrow> int \<Rightarrow> ustr \<Rightarrow> json \<Rightarrow> tag_plan \<Rightarrow> 'w effect"
  dk_destination :: "'w \<Rightarrow> ustr \<Rightarrow> ustr + ustr"
  dk_exists :: "'w \<Rightarrow> ustr \<Rightarrow> bool"
  dk_clash :: "'w \<Rightarrow> ustr \<Rightarrow> ustr \<Rightarrow> bool"
  dk_move :: "'w \<Rightarrow> ustr \<Rightarrow> ustr \<Rightarrow> json \<Rightarrow> 'w effect"
  dk_name :: "ustr \<Rightarrow> ustr"
  dk_restore :: "'w \<Rightarrow> int \<Rightarrow> ustr \<Rightarrow> json \<Rightarrow> json \<Rightarrow> 'w reversal"
  dk_case_only :: "ustr \<Rightarrow> ustr \<Rightarrow> bool"
  dk_return :: "'w \<Rightarrow> ustr \<Rightarrow> ustr \<Rightarrow> json \<Rightarrow> json \<Rightarrow> 'w reversal"
  dk_reconcile :: "'w \<Rightarrow> ustr \<Rightarrow> ustr \<Rightarrow> json \<Rightarrow> 'w reversal"
  dk_blob_error :: "'w \<Rightarrow> int \<Rightarrow> ustr option"
  dk_finalize :: "'w \<Rightarrow> int \<Rightarrow> 'w"
  dk_recover :: "'w \<Rightarrow> int \<Rightarrow> (bool \<times> 'w) option"
  dk_has_blob :: "int \<Rightarrow> bool"
  dk_destination_error :: "'w \<Rightarrow> ustr \<Rightarrow> ustr \<Rightarrow> ustr option"
  dk_root_error :: "'w \<Rightarrow> ustr option"

section \<open>The session\<close>

text \<open>
  A durable state is what survives a crash: the database as it was committed last, and the disk. A world is a
  durable state with the log of those it went through; only the executor of undo runs writes the log.
\<close>

record 'w durable =
  wd_db :: db
  wd_tracks :: "track list"
  wd_units :: "work_unit list"
  wd_journals :: "journal list"
  wd_tries :: "op_try list"
  wd_files :: "file_entry list"
  wd_disk :: 'w

record 'w world = "'w durable" +
  wd_log :: "'w durable list"

definition saved :: "'w world \<Rightarrow> 'w durable" where
  "saved wd =
     \<lparr>wd_db = wd_db wd, wd_tracks = wd_tracks wd, wd_units = wd_units wd, wd_journals = wd_journals wd, wd_tries = wd_tries wd,
      wd_files = wd_files wd, wd_disk = wd_disk wd\<rparr>"

text \<open>The database and the disk are now durable as they are.\<close>

definition persist :: "'w world \<Rightarrow> 'w world" where
  "persist wd = wd\<lparr>wd_log := wd_log wd @ [saved wd]\<rparr>"

lemma saved_sel [simp]:
  "wd_db (saved wd) = wd_db wd" "wd_tracks (saved wd) = wd_tracks wd" "wd_units (saved wd) = wd_units wd"
  "wd_journals (saved wd) = wd_journals wd" "wd_tries (saved wd) = wd_tries wd" "wd_files (saved wd) = wd_files wd"
  "wd_disk (saved wd) = wd_disk wd"
  by (simp_all add: saved_def)

lemma persist_sel [simp]:
  "wd_db (persist wd) = wd_db wd" "wd_tracks (persist wd) = wd_tracks wd" "wd_units (persist wd) = wd_units wd"
  "wd_journals (persist wd) = wd_journals wd" "wd_tries (persist wd) = wd_tries wd" "wd_files (persist wd) = wd_files wd"
  "wd_disk (persist wd) = wd_disk wd" "wd_log (persist wd) = wd_log wd @ [saved wd]" "saved (persist wd) = saved wd"
  by (simp_all add: persist_def saved_def)

definition get_track :: "'w world \<Rightarrow> int \<Rightarrow> track option" where
  "get_track wd i = find_row tk_id i (wd_tracks wd)"

definition find_unit :: "'w world \<Rightarrow> int \<Rightarrow> work_unit option" where
  "find_unit wd i = find_row wu_id i (wd_units wd)"

definition find_journal :: "'w world \<Rightarrow> int \<Rightarrow> journal option" where
  "find_journal wd i = find_row fj_id i (wd_journals wd)"

definition find_operation :: "'w world \<Rightarrow> int \<Rightarrow> operation option" where
  "find_operation wd i = find_row o_id i (operations (wd_db wd))"

definition edit_track :: "int \<Rightarrow> (track \<Rightarrow> track) \<Rightarrow> 'w world \<Rightarrow> 'w world" where
  "edit_track i f wd = wd\<lparr>wd_tracks := update_where (\<lambda>t. tk_id t = i) f (wd_tracks wd)\<rparr>"

definition edit_unit :: "int \<Rightarrow> (work_unit \<Rightarrow> work_unit) \<Rightarrow> 'w world \<Rightarrow> 'w world" where
  "edit_unit i f wd = wd\<lparr>wd_units := update_where (\<lambda>u. wu_id u = i) f (wd_units wd)\<rparr>"

definition edit_journal :: "int \<Rightarrow> (journal \<Rightarrow> journal) \<Rightarrow> 'w world \<Rightarrow> 'w world" where
  "edit_journal i f wd = wd\<lparr>wd_journals := update_where (\<lambda>j. fj_id j = i) f (wd_journals wd)\<rparr>"

definition set_field :: "ustr \<Rightarrow> json \<Rightarrow> track \<Rightarrow> track" where
  "set_field f v t = t\<lparr>tk_fields := AList.update f v (tk_fields t)\<rparr>"

definition field_of :: "track \<Rightarrow> ustr \<Rightarrow> json" where
  "field_of t f = (case map_of (tk_fields t) f of None \<Rightarrow> JNull | Some v \<Rightarrow> v)"

section \<open>Attempts\<close>

text \<open>\<open>attempts[op_id]\<close>; \<open>start_apply_run\<close> inserts an attempt for every operation of its manifest.\<close>

definition try_of :: "'w world \<Rightarrow> int \<Rightarrow> op_try option" where
  "try_of wd i = find_row ot_operation i (wd_tries wd)"

definition tried :: "'w world \<Rightarrow> try_state \<Rightarrow> int \<Rightarrow> bool" where
  "tried wd s i = (case try_of wd i of None \<Rightarrow> False | Some a \<Rightarrow> ot_state a = s)"

definition set_tries :: "int list \<Rightarrow> try_state \<Rightarrow> ustr option \<Rightarrow> 'w world \<Rightarrow> 'w world" where
  "set_tries is s e wd =
     wd\<lparr>wd_tries := update_where (\<lambda>a. ot_operation a \<in> set is) (\<lambda>a. a\<lparr>ot_state := s, ot_error := e\<rparr>) (wd_tries wd)\<rparr>"

definition set_tries_in :: "try_state \<Rightarrow> int list \<Rightarrow> try_state \<Rightarrow> ustr option \<Rightarrow> 'w world \<Rightarrow> 'w world" where
  "set_tries_in old is s e wd = set_tries (filter (tried wd old) is) s e wd"

definition set_entry :: "nat \<Rightarrow> ustr \<Rightarrow> ustr option \<Rightarrow> 'w world \<Rightarrow> 'w world" where
  "set_entry k s e wd = wd\<lparr>wd_files := (wd_files wd)[k := (wd_files wd ! k)\<lparr>fe_state := s, fe_error := e\<rparr>]\<rparr>"

section \<open>The journal\<close>

abbreviation "guard_before \<equiv> U ''__muzilla_physical_guard_before''"
abbreviation "guard_after \<equiv> U ''__muzilla_physical_guard_after''"
abbreviation "guard_restored \<equiv> U ''__muzilla_physical_guard_restored''"
abbreviation "hash_restored \<equiv> U ''__muzilla_tag_hash_restored''"

definition add_journal :: "journal \<Rightarrow> 'w world \<Rightarrow> 'w world" where
  "add_journal j wd = wd\<lparr>wd_journals := wd_journals wd @ [j\<lparr>fj_id := next_id fj_id (wd_journals wd)\<rparr>]\<rparr>"

definition journal_row :: "int \<Rightarrow> track \<Rightarrow> ustr \<Rightarrow> journal_state \<Rightarrow> json \<Rightarrow> journal" where
  "journal_row run t phase s blob =
     \<lparr>fj_id = 0, fj_run = run, fj_track = tk_id t, fj_path = tk_path t, fj_phase = phase, fj_state = s,
      fj_before_hash = None, fj_after_hash = None, fj_blob = blob, fj_before_path = None, fj_after_path = None,
      fj_error = None\<rparr>"

definition journals_of :: "'w world \<Rightarrow> int \<Rightarrow> int \<Rightarrow> journal list" where
  "journals_of wd run tid =
     sort_key fj_id (filter (\<lambda>j. fj_run j = run \<and> fj_track j = tid) (wd_journals wd))"

text \<open>\<open>journal_file_guard\<close>.\<close>

definition journal_file_guard :: "json \<Rightarrow> ustr \<Rightarrow> ustr + json" where
  "journal_file_guard blob name =
     (let raw = jget blob name in
      if is_dict raw \<and> jget raw (U ''version'') \<in> {JInt 1, JBool True, JFloat 1} then Inr raw
      else Inl (U ''recovery_required: physical file evidence '' @ name @ U '' is unavailable''))"

end
