(* ===== verification/FileWriter.thy ===== *)
theory FileWriter
  imports ApplyStore
begin

text \<open>
  Journaled writing of one file (\<open>changes/writer.py\<close>, \<open>changes/conflicts.py\<close>): the check of the source
  against its snapshot, the writing of tags and the move. A journal row is committed as \<open>writing\<close> before
  the disk is touched, becomes \<open>done\<close> after the effect is verified, and \<open>failed\<close> only when nothing
  happened. The blob store is always present, as in the job handler. The second component of a
  result is the error, \<open>None\<close> on success.
\<close>

section \<open>The source\<close>

text \<open>\<open>probe\<close>: the error of a conflict, whose text may be missing.\<close>

definition probe :: "'w disk \<Rightarrow> 'w \<Rightarrow> ustr \<Rightarrow> ustr option \<Rightarrow> ustr option option" where
  "probe dk w path expected =
     (case dk_hash dk w path of
        Inl e \<Rightarrow> Some (Some e)
      | Inr h \<Rightarrow> (case expected of None \<Rightarrow> None | Some x \<Rightarrow> if h \<noteq> x then Some None else None))"

definition text_or :: "ustr option \<Rightarrow> ustr \<Rightarrow> ustr" where
  "text_or e other = (case e of Some s \<Rightarrow> if s = [] then other else s | None \<Rightarrow> other)"

definition check_source_precondition :: "'w disk \<Rightarrow> 'w \<Rightarrow> track \<Rightarrow> snapshot_item \<Rightarrow> ustr + json" where
  "check_source_precondition dk w t it =
     (if si_guard it = JNull \<or> si_hash it = None \<or> si_hash it = Some []
      then Inl (U ''source snapshot lacks immutable physical evidence; refresh required'')
      else case dk_source_error dk w (tk_path t) of
        Some e \<Rightarrow> Inl e
      | None \<Rightarrow>
          if si_path it \<noteq> Some (tk_path t) then Inl (U ''source snapshot path no longer matches the catalog'')
          else case dk_stat dk w (tk_path t) of
            Inl e \<Rightarrow> Inl (U ''source snapshot stat failed: '' @ e)
          | Inr (sz, mt) \<Rightarrow>
              if si_size it \<noteq> Some sz \<or> si_mtime it \<noteq> Some mt
              then Inl (U ''source snapshot stat changed after review'')
              else case probe dk w (tk_path t) (si_hash it) of
                Some e \<Rightarrow> Inl (text_or e (U ''source snapshot tag hash changed after review''))
              | None \<Rightarrow>
                  case dk_guard dk w (tk_path t) of
                    Inl e \<Rightarrow> Inl (U ''source snapshot physical verification failed: '' @ e)
                  | Inr g \<Rightarrow>
                      if g \<noteq> si_guard it then Inl (U ''source snapshot physical content changed after review'')
                      else Inr g)"

section \<open>Journal rows\<close>

definition fail_new_journal :: "int \<Rightarrow> track \<Rightarrow> ustr \<Rightarrow> ustr \<Rightarrow> 'w world \<Rightarrow> 'w world" where
  "fail_new_journal run t phase e wd =
     add_journal ((journal_row run t phase FJ_FAILED (JObj []))
       \<lparr>fj_before_hash := tk_hash t, fj_error := Some e\<rparr>) wd"

text \<open>\<open>_persist_file_journal_failure\<close>.\<close>

definition persist_failure :: "int \<Rightarrow> ustr \<Rightarrow> bool \<Rightarrow> 'w world \<Rightarrow> 'w world \<times> ustr option" where
  "persist_failure jid e recovery wd =
     (edit_journal jid (\<lambda>j. j\<lparr>fj_state := (if recovery then FJ_WRITING else FJ_FAILED), fj_error := Some e\<rparr>) wd,
      Some (if recovery then U ''recovery_required: '' @ e else e))"

definition put_guard :: "ustr \<Rightarrow> json option \<Rightarrow> journal \<Rightarrow> journal" where
  "put_guard k g j = (case g of None \<Rightarrow> j | Some v \<Rightarrow> j\<lparr>fj_blob := jset k v (fj_blob j)\<rparr>)"

definition finish_journal :: "int \<Rightarrow> json \<Rightarrow> ustr option \<Rightarrow> 'w world \<Rightarrow> 'w world" where
  "finish_journal jid g h wd =
     edit_journal jid (\<lambda>j. (put_guard guard_after (Some g) j)\<lparr>fj_state := FJ_DONE, fj_after_hash := h\<rparr>) wd"

text \<open>
  \<open>_update_track_file_facts\<close>: the size, the modification time and the partial hash of the file are read first, which
  may raise.
\<close>

type_synonym file_facts = "int \<times> int \<times> ustr"

definition read_facts :: "'w disk \<Rightarrow> 'w \<Rightarrow> ustr \<Rightarrow> ustr + file_facts" where
  "read_facts dk w path = rbind (dk_stat dk w path) (\<lambda>(sz, mt). rbind (dk_content dk w path) (\<lambda>c. Inr (sz, mt, c)))"

definition update_file_facts :: "file_facts \<Rightarrow> ustr \<Rightarrow> track \<Rightarrow> track" where
  "update_file_facts x h t =
     (case x of (sz, mt, c) \<Rightarrow>
        t\<lparr>tk_size := sz, tk_mtime := mt, tk_content := Some c, tk_hash := Some h, tk_missing := False\<rparr>)"

section \<open>Tags\<close>

definition plans_art :: "tag_plan \<Rightarrow> bool" where
  "plans_art p \<longleftrightarrow> tp_art p \<noteq> None \<or> tp_remove_art p"

definition has_changes :: "tag_plan \<Rightarrow> bool" where
  "has_changes p \<longleftrightarrow> tp_fields p \<noteq> [] \<or> plans_art p \<or> tp_lyrics p \<noteq> None"

text \<open>The inverse of a plan: the metadata of the track, with its lyrics and artwork when they will change.\<close>

definition tag_inverse :: "'w disk \<Rightarrow> 'w \<Rightarrow> track \<Rightarrow> json \<Rightarrow> tag_plan \<Rightarrow> ustr + json" where
  "tag_inverse dk w t g p =
     (let base = jset guard_before g (JObj (tk_fields t));
          lyrics = (if tp_lyrics p = None then base
                    else jset (U ''__muzilla_lyrics'') (dk_lyrics dk w (tk_path t)) base)
      in if \<not> plans_art p then Inr lyrics
         else rbind (dk_artwork dk w t) (\<lambda>art.
           Inr (jset (U ''__muzilla_embedded_art'') art
             (jset (U ''__muzilla_catalog_art_blob_id'') (json_of_int (tk_art t)) lyrics))))"

definition apply_plan :: "tag_plan \<Rightarrow> track \<Rightarrow> track" where
  "apply_plan p t =
     (let t1 = fold (\<lambda>(f, v). set_field f v) (tp_fields p) t;
          t2 = (case tp_art p of
                  Some b \<Rightarrow> set_field (U ''has_embedded_art'') (JBool True) (t1\<lparr>tk_art := Some b\<rparr>)
                | None \<Rightarrow>
                    if tp_remove_art p then set_field (U ''has_embedded_art'') (JBool False) (t1\<lparr>tk_art := None\<rparr>)
                    else t1)
      in case tp_lyrics p of
           None \<Rightarrow> t2
         | Some l \<Rightarrow>
             set_field (U ''lyrics_synced'') (JBool (truthy (jget l (U ''synced''))))
               (set_field (U ''has_lyrics'') (JBool True) t2))"

definition start_tag_journal :: "int \<Rightarrow> track \<Rightarrow> json \<Rightarrow> 'w world \<Rightarrow> 'w world" where
  "start_tag_journal run t blob wd =
     add_journal ((journal_row run t (U ''tags'') FJ_WRITING blob)\<lparr>fj_before_hash := tk_hash t\<rparr>) wd"

definition publish_tags :: "'w disk \<Rightarrow> int \<Rightarrow> track \<Rightarrow> json \<Rightarrow> tag_plan \<Rightarrow> 'w world \<Rightarrow> 'w world \<times> ustr option" where
  "publish_tags dk jid t g p wd =
     (case dk_publish dk (wd_disk wd) jid (tk_path t) g p of
        Untouched e w \<Rightarrow> persist_failure jid e False (wd\<lparr>wd_disk := w\<rparr>)
      | Uncertain e after w \<Rightarrow>
          persist_failure jid e True (edit_journal jid (put_guard guard_after after) (wd\<lparr>wd_disk := w\<rparr>))
      | Performed after h w \<Rightarrow>
          (case read_facts dk w (tk_path t) of
             Inl e \<Rightarrow> persist_failure jid e True (edit_journal jid (put_guard guard_after (Some after)) (wd\<lparr>wd_disk := w\<rparr>))
           | Inr x \<Rightarrow>
               let wd1 = finish_journal jid after (Some h) (wd\<lparr>wd_disk := w\<rparr>);
                   wd2 = edit_track (tk_id t) (apply_plan p \<circ> update_file_facts x h) wd1
               in (wd2\<lparr>wd_disk := dk_finalize dk w jid\<rparr>, None)))"

definition write_tag_fields ::
  "'w disk \<Rightarrow> int \<Rightarrow> track \<Rightarrow> tag_plan \<Rightarrow> snapshot_item \<Rightarrow> 'w world \<Rightarrow> 'w world \<times> ustr option" where
  "write_tag_fields dk run t p it wd =
     (case check_source_precondition dk (wd_disk wd) t it of
        Inl e \<Rightarrow> (fail_new_journal run t (U ''tags'') e wd, Some e)
      | Inr g \<Rightarrow>
          case dk_backup dk (wd_disk wd) t of
            Some e \<Rightarrow> (fail_new_journal run t (U ''tags'') e wd, Some e)
          | None \<Rightarrow>
              case tag_inverse dk (wd_disk wd) t g p of
                Inl e \<Rightarrow>
                  (let m = U ''artwork inverse capture/storage failed: '' @ e
                   in (fail_new_journal run t (U ''tags'') m wd, Some m))
              | Inr blob \<Rightarrow>
                  if \<not> has_changes p then (wd, None)
                  else publish_tags dk (next_id fj_id (wd_journals wd)) t g p (start_tag_journal run t blob wd))"

section \<open>Moves\<close>

definition move_refusal :: "'w disk \<Rightarrow> 'w \<Rightarrow> track \<Rightarrow> ustr \<Rightarrow> json \<Rightarrow> ustr option" where
  "move_refusal dk w t dest expected =
     (if \<not> dk_exists dk w (tk_path t) then Some (U ''source file no longer exists: '' @ tk_path t)
      else case dk_stat dk w (tk_path t) of
        Inl e \<Rightarrow> Some (U ''source file stat failed: '' @ e)
      | Inr _ \<Rightarrow>
          if dk_clash dk w (tk_path t) dest then Some (U ''destination already exists: '' @ dest)
          else if expected = JNull
          then Some (U ''source snapshot lacks immutable physical evidence; refresh required'')
          else case dk_guard dk w (tk_path t) of
            Inl e \<Rightarrow> Some (U ''could not establish physical move baseline: '' @ e)
          | Inr g \<Rightarrow>
              if g \<noteq> expected then Some (U ''source snapshot physical content changed after review'') else None)"

definition start_move_journal :: "int \<Rightarrow> track \<Rightarrow> ustr \<Rightarrow> json \<Rightarrow> 'w world \<Rightarrow> 'w world" where
  "start_move_journal run t dest g wd =
     add_journal ((journal_row run t (U ''move'') FJ_WRITING (JObj [(guard_before, g)]))
       \<lparr>fj_before_path := Some (tk_path t), fj_after_path := Some dest\<rparr>) wd"

definition relocate :: "'w disk \<Rightarrow> file_facts \<Rightarrow> ustr \<Rightarrow> ustr \<Rightarrow> track \<Rightarrow> track" where
  "relocate dk x path h t = update_file_facts x h (t\<lparr>tk_path := path, tk_name := dk_name dk path\<rparr>)"

definition perform_move :: "'w disk \<Rightarrow> int \<Rightarrow> track \<Rightarrow> ustr \<Rightarrow> json \<Rightarrow> 'w world \<Rightarrow> 'w world \<times> ustr option" where
  "perform_move dk jid t dest g wd =
     (case dk_move dk (wd_disk wd) (tk_path t) dest g of
        Untouched e w \<Rightarrow> persist_failure jid e False (wd\<lparr>wd_disk := w\<rparr>)
      | Uncertain e after w \<Rightarrow>
          persist_failure jid e True (edit_journal jid (put_guard guard_after after) (wd\<lparr>wd_disk := w\<rparr>))
      | Performed after h w \<Rightarrow>
          (case read_facts dk w dest of
             Inl e \<Rightarrow> persist_failure jid e True (edit_journal jid (put_guard guard_after (Some after)) (wd\<lparr>wd_disk := w\<rparr>))
           | Inr x \<Rightarrow>
               (edit_track (tk_id t) (relocate dk x dest h) (finish_journal jid after None (wd\<lparr>wd_disk := w\<rparr>)), None)))"

definition write_move ::
  "'w disk \<Rightarrow> int \<Rightarrow> track \<Rightarrow> ustr \<Rightarrow> json \<Rightarrow> 'w world \<Rightarrow> 'w world \<times> ustr option" where
  "write_move dk run t destination expected wd =
     (case dk_destination dk (wd_disk wd) destination of
        Inl e \<Rightarrow> (wd, Some e)
      | Inr dest \<Rightarrow>
          if tk_path t = dest then (wd, None)
          else case move_refusal dk (wd_disk wd) t dest expected of
            Some e \<Rightarrow> (wd, Some e)
          | None \<Rightarrow>
              perform_move dk (next_id fj_id (wd_journals wd)) t dest expected
                (start_move_journal run t dest expected wd))"

end
