(* ===== verification/ApplySource.thy ===== *)
theory ApplySource
  imports FileWriter
begin

text \<open>
  Which file facts an apply run may rely on (\<open>changes/bundle_applier.py\<close>): the typed entries of its manifest,
  the precondition taken from a snapshot item, the facts after journaled effects of the same run, and
  those that a rolled back earlier run has restored.
\<close>

section \<open>Manifest entries\<close>

text \<open>\<open>[x for x in entry["operation_ids"] if isinstance(x, int)]\<close>, and the entries of \<open>_manifest_files\<close>.\<close>

definition read_entry :: "json \<Rightarrow> file_entry" where
  "read_entry raw =
     \<lparr>fe_track = int_value (jget raw (U ''track_id'')), fe_source = jget raw (U ''source''),
      fe_exec = jget raw (U ''execution_source''),
      fe_ops = map int_value (filter is_int (list_value (jget raw (U ''operation_ids'')))),
      fe_state = str_value (jget_default raw (U ''state'') (JStr (U ''failed''))), fe_error = opt_str (jget raw (U ''error''))\<rparr>"

definition manifest_files :: "json \<Rightarrow> ustr + file_entry list" where
  "manifest_files manifest =
     (if \<not> is_list (jget manifest (U ''files'')) then Inl (U ''apply manifest has no per-file entries'')
      else if \<not> list_all (\<lambda>f. is_dict f \<and> is_int (jget f (U ''track_id''))) (list_value (jget manifest (U ''files'')))
      then Inl (U ''apply manifest contains an invalid file entry'')
      else Inr (map read_entry (list_value (jget manifest (U ''files'')))))"

section \<open>Source evidence\<close>

definition source_precondition :: "json \<Rightarrow> ustr + snapshot_item" where
  "source_precondition raw =
     (case read_source_snapshot_item raw of
        Inl _ \<Rightarrow> Inl (U ''source snapshot is invalid for file'')
      | Inr it \<Rightarrow>
          if complete_item it then Inr it
          else Inl (U ''source snapshot lacks complete physical evidence for file''))"

definition source_item_from_guard :: "int \<Rightarrow> ustr \<Rightarrow> json \<Rightarrow> ustr + snapshot_item" where
  "source_item_from_guard tid h guard =
     (let facts = jget guard (U ''file''); path = jget guard (U ''path'') in
      if \<not> is_dict facts \<or> \<not> is_str path then Inl (U ''physical checkpoint is incomplete'')
      else case read_source_snapshot_item
          (JObj [(U ''source_type'', JStr (U ''track'')), (U ''source_id'', JInt tid), (U ''path'', path),
                 (U ''size_bytes'', jget facts (U ''size'')), (U ''mtime_ns'', jget facts (U ''mtime_ns'')),
                 (U ''tag_hash'', JStr h), (U ''physical_guard'', guard)]) of
        Inl _ \<Rightarrow> Inl (U ''physical checkpoint is invalid'')
      | Inr it \<Rightarrow> if si_guard it = JNull then Inl (U ''physical checkpoint lacks a file guard'') else Inr it)"

definition is_move :: "operation \<Rightarrow> bool" where
  "is_move op \<longleftrightarrow> o_kind op = MOVE_FILE"

section \<open>Facts after journaled effects\<close>

text \<open>The loop over completed journals: the item so far and which phases were seen.\<close>

fun follow_journals ::
  "bool \<Rightarrow> bool \<Rightarrow> int \<Rightarrow> journal list \<Rightarrow> snapshot_item \<times> bool \<times> bool \<Rightarrow> ustr + snapshot_item \<times> bool \<times> bool" where
  "follow_journals tags move tid [] st = Inr st"
| "follow_journals tags move tid (j # js) (cur, saw_tags, saw_move) =
     (if fj_state j \<noteq> FJ_DONE then follow_journals tags move tid js (cur, saw_tags, saw_move)
      else
        let is_tags = (fj_phase j = U ''tags''); is_mv = (fj_phase j = U ''move'');
            after = jget (fj_blob j) guard_after
        in if is_tags \<and> (\<not> tags \<or> saw_tags \<or> fj_before_hash j \<noteq> si_hash cur)
           then Inl (U ''tag journal does not match the applied operation checkpoint'')
           else if is_mv \<and> (\<not> move \<or> saw_move)
           then Inl (U ''move journal does not match the applied operation checkpoint'')
           else if \<not> is_tags \<and> \<not> is_mv then Inl (U ''unexpected completed journal in file apply checkpoint'')
           else if jget (fj_blob j) guard_before \<noteq> si_guard cur \<or> \<not> is_dict after
           then Inl (U ''journal physical checkpoint does not form a verified chain'')
           else if is_tags \<and> fj_after_hash j = None then Inl (U ''tag journal lacks its committed tag hash'')
           else
             let h = (case (if is_tags then fj_after_hash j else si_hash cur) of None \<Rightarrow> [] | Some x \<Rightarrow> x) in
             rbind (source_item_from_guard tid h after) (\<lambda>it.
               follow_journals tags move tid js (it, saw_tags \<or> is_tags, saw_move \<or> is_mv)))"

definition journal_execution_source ::
  "'w world \<Rightarrow> int \<Rightarrow> int \<Rightarrow> snapshot_item \<Rightarrow> operation list \<Rightarrow> ustr + snapshot_item" where
  "journal_execution_source wd run tid source_item ops =
     (let applied = filter (\<lambda>op. tried wd TRY_APPLIED (o_id op)) ops;
          applied_tags = (\<exists>op\<in>set applied. \<not> is_move op);
          applied_move = (\<exists>op\<in>set applied. is_move op);
          js = journals_of wd run tid
      in if \<not> applied_tags \<and> \<not> applied_move then Inr source_item
         else if \<exists>j\<in>set js. fj_state j = FJ_WRITING then Inl (U ''apply has an unresolved writing checkpoint'')
         else rbind (follow_journals applied_tags applied_move tid js (source_item, False, False))
           (\<lambda>(cur, saw_tags, saw_move).
             if applied_tags \<noteq> saw_tags \<or> applied_move \<noteq> saw_move
             then Inl (U ''applied operation has no completed physical journal'')
             else Inr cur))"

section \<open>Facts after a rolled back run\<close>

definition find_operations :: "'w world \<Rightarrow> int list \<Rightarrow> operation list option" where
  "find_operations wd ids = those (map (find_operation wd) ids)"

text \<open>\<open>manifest.get("retry_source_run_id")\<close>.\<close>

definition retry_run_id :: "apply_run \<Rightarrow> int option" where
  "retry_run_id a =
     (let v = jget (a_manifest a) (U ''retry_source_run_id'') in if valid_integer v then Some (int_value v) else None)"

definition restored_item :: "'w world \<Rightarrow> apply_run \<Rightarrow> int \<Rightarrow> snapshot_item \<Rightarrow> snapshot_item \<Rightarrow> operation list \<Rightarrow> snapshot_item option" where
  "restored_item wd p tid source_item prev_exec ops =
     (if ops = [] then None
      else
        let phase = (if \<exists>op\<in>set ops. \<not> is_move op then U ''tags'' else U ''move'');
            js = journals_of wd (a_id p) tid
        in if \<exists>j\<in>set js. fj_phase j \<in> {U ''tags'', U ''move''} \<and> fj_state j \<in> {FJ_PENDING, FJ_WRITING, FJ_DONE}
           then None
           else
             (case rev (filter (\<lambda>j. fj_phase j = phase) js) of
                [] \<Rightarrow> None
              | j # _ \<Rightarrow>
                  let restored = jget (fj_blob j) guard_restored; h = jget (fj_blob j) hash_restored in
                  if fj_state j \<noteq> FJ_ROLLED_BACK \<or> jget (fj_blob j) guard_before \<noteq> si_guard prev_exec
                     \<or> \<not> is_dict restored \<or> \<not> is_str h \<or> str_value h = []
                     \<or> (phase = U ''tags'' \<and> fj_before_hash j \<noteq> si_hash prev_exec)
                  then None
                  else case source_item_from_guard tid (str_value h) restored of
                    Inl _ \<Rightarrow> None
                  | Inr it \<Rightarrow> if si_path it \<noteq> si_path source_item then None else Some it))"

text \<open>
  \<open>_rolled_back_source_item\<close> on the runs of a bundle from the one in question backwards; a run that itself
  started from restored facts must name the run before it, so the recursion is along that list.
\<close>

fun rolled_back_source_item ::
  "'w world \<Rightarrow> apply_run list \<Rightarrow> int \<Rightarrow> snapshot_item \<Rightarrow> snapshot_item option" where
  "rolled_back_source_item wd [] tid source_item = None"
| "rolled_back_source_item wd (p # earlier) tid source_item =
     (if a_state p \<noteq> RUN_FAILED \<or> \<not> is_dict (a_result p) \<or> truthy (jget (a_result p) (U ''recovery_required'')) then None
      else
        (case manifest_files (a_manifest p) of
           Inl _ \<Rightarrow> None
         | Inr files \<Rightarrow>
             (case find (\<lambda>f. fe_track f = tid) files of
                None \<Rightarrow> None
              | Some f \<Rightarrow>
                  (case (find_operations wd (fe_ops f), read_source_snapshot_item (fe_source f),
                         read_source_snapshot_item (fe_exec f)) of
                     (Some ops, Inr prev_source, Inr prev_exec) \<Rightarrow>
                       if prev_source \<noteq> source_item \<or> si_hash prev_exec = None \<or> si_guard prev_exec = JNull then None
                       else if prev_exec = source_item
                         \<or> (case earlier of
                              [] \<Rightarrow> False
                            | q # _ \<Rightarrow> retry_run_id p = Some (a_id q) \<and> a_revision q = a_revision p)
                           \<and> rolled_back_source_item wd earlier tid source_item = Some prev_exec
                       then restored_item wd p tid source_item prev_exec ops
                       else None
                   | _ \<Rightarrow> None))))"

definition runs_before :: "db \<Rightarrow> int \<Rightarrow> int \<Rightarrow> apply_run list" where
  "runs_before d bid rid = rev (sort_key a_id (filter (\<lambda>a. a_bundle a = bid \<and> a_id a < rid) (apply_runs d)))"

definition verified_execution_source ::
  "'w world \<Rightarrow> apply_run \<Rightarrow> int \<Rightarrow> snapshot_item \<Rightarrow> file_entry \<Rightarrow> ustr + snapshot_item" where
  "verified_execution_source wd run tid snapshot_item entry =
     (case (read_source_snapshot_item (fe_source entry), read_source_snapshot_item (fe_exec entry)) of
        (Inr source, Inr exec) \<Rightarrow>
          if source \<noteq> snapshot_item
          then Inl (U ''apply manifest source does not match the immutable review snapshot'')
          else if si_track exec \<noteq> tid then Inl (U ''apply manifest execution source targets another track'')
          else rbind (source_precondition (to_manifest_item snapshot_item)) (\<lambda>_.
               rbind (source_precondition (to_manifest_item exec)) (\<lambda>_.
                 if exec = snapshot_item then Inr exec
                 else case retry_run_id run of
                   None \<Rightarrow> Inl (U ''apply manifest execution source has no rollback provenance'')
                 | Some k \<Rightarrow>
                     (case runs_before (wd_db wd) (a_bundle run) (a_id run) of
                        [] \<Rightarrow> Inl (U ''apply retry provenance does not identify the latest run'')
                      | p # earlier \<Rightarrow>
                          if a_id p \<noteq> k \<or> a_revision p \<noteq> a_revision run
                          then Inl (U ''apply retry provenance does not identify the latest run'')
                          else if rolled_back_source_item wd (p # earlier) tid snapshot_item \<noteq> Some exec
                          then Inl (U ''apply retry source is not proven by the rollback journal'')
                          else Inr exec)))
      | _ \<Rightarrow> Inl (U ''apply manifest source evidence is invalid''))"

end
