(* ===== verification/ApplyPreflight.thy ===== *)
theory ApplyPreflight
  imports ApplySource
begin

text \<open>
  The validation of a whole apply run before anything is changed (\<open>_bundle_preflight\<close> of
  \<open>changes/bundle_applier.py\<close>). Errors are kept per track in insertion order. Checks of paths on disk
  are observations of the disk.
\<close>

type_synonym track_errors = "(int \<times> ustr) list"

definition blame :: "int \<Rightarrow> ustr \<Rightarrow> track_errors \<Rightarrow> track_errors" where
  "blame tid e errors = AList.update tid e errors"

definition blame_all :: "ustr \<Rightarrow> file_entry list \<Rightarrow> track_errors" where
  "blame_all e files = fold (\<lambda>f. blame (fe_track f) e) files []"

definition blame_missing :: "ustr \<Rightarrow> int list \<Rightarrow> track_errors \<Rightarrow> track_errors" where
  "blame_missing e tids errors =
     fold (\<lambda>tid es. if map_of es tid = None then blame tid e es else es) tids errors"

section \<open>The review as a whole\<close>

text \<open>The matching result must be resolved when the review still needs attention.\<close>

definition unresolved_match :: "review_bundle \<Rightarrow> revision \<Rightarrow> bool" where
  "unresolved_match b r \<longleftrightarrow>
     \<not> (is_dict (r_candidate r) \<and> jget (r_candidate r) (U ''resolution'') = JStr (U ''skipped''))
     \<and> b_state b = NEEDS_ATTENTION
     \<and> is_dict (r_explanation r)
     \<and> (jget (r_explanation r) (U ''outcome'')
          \<in> {JStr (U ''ambiguous''), JStr (U ''candidate_rejected''), JStr (U ''zero_results'')}
        \<or> jget (r_explanation r) (U ''band'') = JStr (U ''ambiguous''))"

definition whole_error :: "db \<Rightarrow> apply_run \<Rightarrow> review_bundle \<Rightarrow> revision \<Rightarrow> file_entry list \<Rightarrow> ustr option" where
  "whole_error d run b r files =
     (let ops = operations_of d (r_id r) in
      if JStr (r_digest r) \<noteq> jget (a_manifest run) (U ''revision_digest'')
         \<or> JStr (snapshot_digest d r) \<noteq> jget (a_manifest run) (U ''source_snapshot_digest'')
      then Some (U ''apply manifest revision evidence is inconsistent'')
      else if isl (read_source_snapshot_items (snapshot_payload d r)) then Some (U ''source snapshot is invalid'')
      else if \<exists>op\<in>set ops. o_decision op = D_PENDING
      then Some (U ''unresolved items require explicit decision'')
      else if unresolved_match b r
      then Some (U ''unresolved item requires explicit selection or Skip / Leave unchanged; whole bundle blocked'')
      else if sort (map o_id (filter (\<lambda>op. o_decision op = D_ACCEPTED) ops)) \<noteq> sort (concat (map fe_ops files))
      then Some (U ''review manifest does not match accepted operations; refresh required'')
      else None)"

section \<open>One file\<close>

definition validation_errors :: "operation \<Rightarrow> (json \<Rightarrow> ustr) \<Rightarrow> ustr list" where
  "validation_errors op text_of =
     map text_of (filter truthy (list_value (jget (o_validation op) (U ''errors''))))
     @ (if truthy (jget (o_validation op) (U ''collision'')) then [U ''unresolved destination collision''] else [])"

definition art_error :: "'w disk \<Rightarrow> operation \<Rightarrow> ustr option" where
  "art_error dk op =
     (let blob = jget (o_proposed op) (U ''blob_id'') in
      if o_kind op \<noteq> EMBED_ART then None
      else if \<not> is_dict (o_proposed op) \<or> \<not> is_int blob then Some (U ''embed_art requires blob_id'')
      else if \<not> dk_has_blob dk (int_value blob)
      then Some (U ''art blob '' @ int_str (int_value blob) @ U '' not found'')
      else None)"

definition dest_key :: "pystd \<Rightarrow> ustr \<Rightarrow> ustr" where
  "dest_key std dest = std_casefold std (std_nfc std (strip dest))"

definition duplicate_message :: "pyrepr \<Rightarrow> ustr \<Rightarrow> int \<Rightarrow> ustr" where
  "duplicate_message rp dest tid =
     U ''duplicate destination in bundle: '' @ repr_str rp dest @ U '' also used by track '' @ int_str tid"

text \<open>The operations of an entry: the errors found at the first faulty one, and the destinations seen.\<close>

fun check_ops ::
  "pystd \<Rightarrow> pyrepr \<Rightarrow> 'w disk \<Rightarrow> 'w world \<Rightarrow> track \<Rightarrow> int list \<Rightarrow> (ustr \<times> int) list \<Rightarrow>
   (track_errors \<times> (ustr \<times> int) list)" where
  "check_ops std rp dk wd t [] seen = ([], seen)"
| "check_ops std rp dk wd t (i # is) seen =
     (case find_operation wd i of
        None \<Rightarrow> ([(tk_id t, U ''operation '' @ int_str i @ U '' not found'')], seen)
      | Some op \<Rightarrow>
          let msgs = validation_errors op (str_json rp) in
          if o_decision op \<noteq> D_ACCEPTED \<or> o_target_type op \<noteq> U ''track'' \<or> o_target op \<noteq> tk_id t
          then ([(tk_id t, U ''apply manifest operation target is inconsistent'')], seen)
          else if msgs \<noteq> [] then ([(tk_id t, join_with (U ''; '') msgs)], seen)
          else case art_error dk op of
            Some e \<Rightarrow> ([(tk_id t, e)], seen)
          | None \<Rightarrow>
              if \<not> is_move op then check_ops std rp dk wd t is seen
              else if \<not> is_str (o_proposed op) then ([(tk_id t, U ''move_file requires string destination'')], seen)
              else
                let dest = str_value (o_proposed op); key = dest_key std dest in
                case map_of seen key of
                  Some other \<Rightarrow>
                    ([(tk_id t, duplicate_message rp dest other), (other, duplicate_message rp dest (tk_id t))], seen)
                | None \<Rightarrow>
                    case dk_destination_error dk (wd_disk wd) dest (tk_path t) of
                      Some e \<Rightarrow> ([(tk_id t, e)], (key, tk_id t) # seen)
                    | None \<Rightarrow> check_ops std rp dk wd t is ((key, tk_id t) # seen))"

definition entry_operations :: "'w world \<Rightarrow> file_entry \<Rightarrow> operation list" where
  "entry_operations wd f = List.map_filter (find_operation wd) (fe_ops f)"

definition effective_source ::
  "'w world \<Rightarrow> apply_run \<Rightarrow> int \<Rightarrow> snapshot_item \<Rightarrow> operation list \<Rightarrow> file_entry \<Rightarrow> ustr + snapshot_item" where
  "effective_source wd run tid it ops f =
     rbind (verified_execution_source wd run tid it f) (\<lambda>exec.
     rbind (if \<exists>op\<in>set ops. tried wd TRY_APPLIED (o_id op)
            then journal_execution_source wd (a_id run) tid exec ops else Inr exec) (\<lambda>eff.
       source_precondition (to_manifest_item eff)))"

text \<open>The checks that follow the operations of an entry.\<close>

definition entry_error ::
  "'w disk \<Rightarrow> 'w world \<Rightarrow> apply_run \<Rightarrow> snapshot_item list \<Rightarrow> track \<Rightarrow> file_entry \<Rightarrow> ustr option" where
  "entry_error dk wd run items t f =
     (let ops = entry_operations wd f; grouping = filter (\<lambda>op. o_kind op = GROUPING_CORRECTION) ops in
      if grouping \<noteq> []
      then if length grouping \<noteq> length ops
           then Some (U ''grouping corrections cannot be mixed with file operations'') else None
      else if ops = [] then Some (U ''apply manifest file has no accepted operations'')
      else case item_of items (tk_id t) of
        None \<Rightarrow> Some (U ''apply manifest target is absent from the immutable review snapshot'')
      | Some it \<Rightarrow>
          if \<exists>op\<in>set ops. o_kind op \<notin> physical_mutation_kinds
          then Some (U ''apply manifest contains an unsupported file operation'')
          else if \<exists>op\<in>set ops. try_of wd (o_id op) = None
          then Some (U ''apply manifest is missing an operation attempt'')
          else case effective_source wd run (tk_id t) it ops f of
            Inl e \<Rightarrow> Some e
          | Inr eff \<Rightarrow>
              (case check_source_precondition dk (wd_disk wd) t eff of Inl e \<Rightarrow> Some e | Inr _ \<Rightarrow> None))"

fun check_files ::
  "pystd \<Rightarrow> pyrepr \<Rightarrow> 'w disk \<Rightarrow> 'w world \<Rightarrow> apply_run \<Rightarrow> snapshot_item list \<Rightarrow> file_entry list \<Rightarrow>
   track_errors \<Rightarrow> (ustr \<times> int) list \<Rightarrow> track_errors" where
  "check_files std rp dk wd run items [] errors seen = errors"
| "check_files std rp dk wd run items (f # fs) errors seen =
     (case get_track wd (fe_track f) of
        None \<Rightarrow>
          check_files std rp dk wd run items fs
            (blame (fe_track f) (U ''track '' @ int_str (fe_track f) @ U '' not found'') errors) seen
      | Some t \<Rightarrow>
          let (found, seen1) = check_ops std rp dk wd t (fe_ops f) seen;
              errors1 = fold (\<lambda>(i, e). blame i e) found errors;
              errors2 = (if map_of errors1 (fe_track f) \<noteq> None then errors1
                         else case entry_error dk wd run items t f of
                           None \<Rightarrow> errors1 | Some e \<Rightarrow> blame (fe_track f) e errors1)
          in check_files std rp dk wd run items fs errors2 seen1)"

section \<open>Concurrent work\<close>

definition manifest_tracks :: "json \<Rightarrow> int list" where
  "manifest_tracks manifest =
     map (\<lambda>f. int_value (jget f (U ''track_id'')))
       (filter (\<lambda>f. is_dict f \<and> is_int (jget f (U ''track_id''))) (list_value (jget manifest (U ''files''))))"

definition overlapping :: "int list \<Rightarrow> int list \<Rightarrow> int list" where
  "overlapping mine others = sort (remdups (filter (\<lambda>i. i \<in> set others) mine))"

definition undo_tracks :: "db \<Rightarrow> undo_run \<Rightarrow> int list" where
  "undo_tracks d u =
     (if filter is_dict (list_value (jget (u_manifest u) (U ''files''))) \<noteq> [] then manifest_tracks (u_manifest u)
      else case find_row a_id (u_source_run u) (apply_runs d) of
        None \<Rightarrow> [] | Some a \<Rightarrow> manifest_tracks (a_manifest a))"

text \<open>The tracks of another open review; \<open>None\<close> when they cannot be determined.\<close>

definition review_tracks :: "'w world \<Rightarrow> review_bundle \<Rightarrow> int list option" where
  "review_tracks wd b =
     (case current_revision (wd_db wd) (b_id b) of
        None \<Rightarrow> None
      | Some r \<Rightarrow>
          (let targets = map o_target (filter (\<lambda>op. o_target_type op = U ''track'') (operations_of (wd_db wd) (r_id r)));
               required = (case b_scope_id b of
                 None \<Rightarrow> None
               | Some s \<Rightarrow>
                   if b_scope_type b = U ''track'' then Some (s # targets)
                   else if b_scope_type b = U ''group''
                   then Some (map tk_id (filter (\<lambda>t. tk_group t = Some s) (wd_tracks wd)) @ targets)
                   else None)
           in case required of
                None \<Rightarrow> None
              | Some req \<Rightarrow>
                  (case read_source_snapshot_track_ids (snapshot_payload (wd_db wd) r) (set req) of
                     Inl _ \<Rightarrow> None
                   | Inr _ \<Rightarrow>
                       (case read_source_snapshot_items (snapshot_payload (wd_db wd) r) of
                          Inl _ \<Rightarrow> None | Inr items \<Rightarrow> Some (map si_track items)))))"

text \<open>The first overlap with a list of track lists; \<open>Inl\<close> when one before it cannot be determined.\<close>

fun first_overlap :: "int list \<Rightarrow> int list option list \<Rightarrow> unit + int list" where
  "first_overlap mine [] = Inr []"
| "first_overlap mine (None # xs) = Inl ()"
| "first_overlap mine (Some ids # xs) =
     (if overlapping mine ids \<noteq> [] then Inr (overlapping mine ids) else first_overlap mine xs)"

definition other_work :: "'w world \<Rightarrow> apply_run \<Rightarrow> review_bundle \<Rightarrow> int list option list" where
  "other_work wd run b =
     map (\<lambda>a. Some (manifest_tracks (a_manifest a)))
       (filter (\<lambda>a. a_id a \<noteq> a_id run \<and> active_run a) (apply_runs (wd_db wd)))
     @ map (\<lambda>u. Some (undo_tracks (wd_db wd) u))
         (filter (\<lambda>u. u_state u = U_PENDING \<or> u_state u = U_UNDOING) (undo_runs (wd_db wd)))
     @ map (review_tracks wd)
         (filter (\<lambda>x. b_id x \<noteq> b_id b \<and> b_state x \<in> open_states) (bundles (wd_db wd)))"

definition conflict_errors :: "pyrepr \<Rightarrow> 'w world \<Rightarrow> apply_run \<Rightarrow> review_bundle \<Rightarrow> file_entry list \<Rightarrow> track_errors" where
  "conflict_errors rp wd run b files =
     (let mine = map fe_track files in
      case first_overlap mine (other_work wd run b) of
        Inl _ \<Rightarrow> blame_missing (U ''could not verify concurrent review conflicts'') mine []
      | Inr ids \<Rightarrow>
          fold (\<lambda>i. blame i (U ''concurrent review targets same file(s): '' @ repr_ints rp ids)) ids [])"

section \<open>Preflight\<close>

definition bundle_preflight ::
  "pystd \<Rightarrow> pyrepr \<Rightarrow> 'w disk \<Rightarrow> apply_run \<Rightarrow> review_bundle \<Rightarrow> 'w world \<Rightarrow> track_errors" where
  "bundle_preflight std rp dk run b wd =
     (let files = wd_files wd; d = wd_db wd in
      if files = [] then [(0, U ''apply manifest has no per-file entries'')]
      else case find_row r_id (a_revision run) (revisions d) of
        None \<Rightarrow> blame_all (U ''review revision not found'') files
      | Some r \<Rightarrow>
          (case whole_error d run b r files of
             Some e \<Rightarrow> blame_all e files
           | None \<Rightarrow>
               let items = (case read_source_snapshot_items (snapshot_payload d r) of Inl _ \<Rightarrow> [] | Inr is \<Rightarrow> is);
                   errors = check_files std rp dk wd run items files [] [];
                   errors1 = (if errors = [] then conflict_errors rp wd run b files else errors)
               in case dk_root_error dk (wd_disk wd) of
                    None \<Rightarrow> errors1
                  | Some e \<Rightarrow> blame_missing e (map fe_track files) errors1))"

end
