(* ===== verification/GroupingCorrection.thy ===== *)
theory GroupingCorrection
  imports ApplyPreflight
begin

text \<open>
  Corrections of the grouping of a track into work units (\<open>_apply_grouping_correction\<close> and the grouping part of
  \<open>_rollback_applied_files\<close> in \<open>changes/bundle_applier.py\<close>). The key of a singleton is a digest of the
  track id and is a parameter.
\<close>

section \<open>Identities and counts\<close>

fun split_words :: "ustr \<Rightarrow> ustr \<Rightarrow> ustr list" where
  "split_words acc [] = (if acc = [] then [] else [rev acc])"
| "split_words acc (c # cs) =
     (if is_space c then (if acc = [] then split_words [] cs else rev acc # split_words [] cs)
      else split_words (c # acc) cs)"

definition collection_identity :: "pystd \<Rightarrow> ustr option \<Rightarrow> ustr" where
  "collection_identity std v =
     std_casefold std (join_with (U '' '') (split_words [] (case v of None \<Rightarrow> [] | Some s \<Rightarrow> s)))"

definition recount_groups :: "int list \<Rightarrow> 'w world \<Rightarrow> 'w world" where
  "recount_groups gs wd =
     wd\<lparr>wd_units := update_where (\<lambda>u. wu_id u \<in> set gs)
          (\<lambda>u. u\<lparr>wu_count := length (filter (\<lambda>t. tk_group t = Some (wu_id u)) (wd_tracks wd))\<rparr>) (wd_units wd)\<rparr>"

definition text_field :: "track \<Rightarrow> ustr \<Rightarrow> ustr option" where
  "text_field t f = opt_str (field_of t f)"

definition nonempty_or :: "ustr option \<Rightarrow> ustr option \<Rightarrow> ustr option" where
  "nonempty_or a b = (case a of Some s \<Rightarrow> if s = [] then b else a | None \<Rightarrow> b)"

text \<open>Whether a track may join a collection.\<close>

definition compatible_collection :: "pystd \<Rightarrow> track \<Rightarrow> work_unit \<Rightarrow> bool" where
  "compatible_collection std t u =
     (let album = collection_identity std (text_field t (U ''album''));
          artist = collection_identity std (nonempty_or (text_field t (U ''album_artist'')) (text_field t (U ''artist'')))
      in album \<noteq> [] \<and> artist \<noteq> [] \<and> album = collection_identity std (wu_album u)
         \<and> artist = collection_identity std (wu_artist u))"

section \<open>Applying a correction\<close>

definition put_member :: "int \<Rightarrow> work_unit \<Rightarrow> 'w world \<Rightarrow> 'w world" where
  "put_member tid target wd =
     edit_unit (wu_id target) (\<lambda>u. u\<lparr>wu_pinned := True\<rparr>)
       (edit_track tid (\<lambda>t. t\<lparr>tk_group := Some (wu_id target)\<rparr>) wd)"

definition target_blob :: "work_unit \<Rightarrow> json \<Rightarrow> json" where
  "target_blob u blob =
     jset (U ''target_is_pinned'') (JBool (wu_pinned u)) (jset (U ''target_group_id'') (JInt (wu_id u)) blob)"

definition singleton_unit :: "'w world \<Rightarrow> ustr \<Rightarrow> work_unit" where
  "singleton_unit wd key =
     \<lparr>wu_id = next_id wu_id (wd_units wd), wu_key = key, wu_kind = U ''singleton'', wu_basis = Some (U ''manual''),
      wu_pinned = False, wu_album = None, wu_artist = None, wu_count = 0\<rparr>"

text \<open>
  The change that an action makes: the world, the completed inverse and the work units to recount, or the
  reason why there is none.
\<close>

definition regroup_singleton ::
  "(int \<Rightarrow> ustr) \<Rightarrow> track \<Rightarrow> int \<Rightarrow> json \<Rightarrow> json \<Rightarrow> 'w world \<Rightarrow> ustr + 'w world \<times> json \<times> int list" where
  "regroup_singleton key_of t source value blob wd =
     (if jget value (U ''singleton_key'') \<noteq> JStr (key_of (tk_id t))
      then Inl (U ''singleton correction key is invalid'')
      else
        (case find (\<lambda>u. wu_key u = key_of (tk_id t)) (wd_units wd) of
           None \<Rightarrow>
             let u = singleton_unit wd (key_of (tk_id t))
             in Inr (put_member (tk_id t) u (wd\<lparr>wd_units := wd_units wd @ [u]\<rparr>),
                     jset (U ''target_was_new'') (JBool True) (target_blob u blob), [source, wu_id u])
         | Some u \<Rightarrow>
             if wu_kind u \<noteq> U ''singleton'' \<or> wu_basis u \<noteq> Some (U ''manual'')
             then Inl (U ''singleton correction target is invalid'')
             else Inr (put_member (tk_id t) u wd,
                       jset (U ''target_was_new'') (JBool False) (target_blob u blob), [source, wu_id u])))"

definition regroup_collection ::
  "pystd \<Rightarrow> track \<Rightarrow> int \<Rightarrow> json \<Rightarrow> json \<Rightarrow> 'w world \<Rightarrow> ustr + 'w world \<times> json \<times> int list" where
  "regroup_collection std t source value blob wd =
     (let target = jget value (U ''to_group_id'') in
      if \<not> is_int target \<or> int_value target = source then Inl (U ''collection correction target is invalid'')
      else case find_unit wd (int_value target) of
        None \<Rightarrow> Inl (U ''collection correction target is no longer compatible'')
      | Some u \<Rightarrow>
          if \<not> compatible_collection std t u
          then Inl (U ''collection correction target is no longer compatible'')
          else Inr (put_member (tk_id t) u wd, target_blob u blob, [source, wu_id u]))"

definition regroup ::
  "pystd \<Rightarrow> (int \<Rightarrow> ustr) \<Rightarrow> track \<Rightarrow> int \<Rightarrow> json \<Rightarrow> json \<Rightarrow> 'w world \<Rightarrow> ustr + 'w world \<times> json \<times> int list" where
  "regroup std key_of t source value blob wd =
     (let action = jget value (U ''action'') in
      if action = JStr (U ''confirm_collection'')
      then Inr (edit_unit source (\<lambda>u. u\<lparr>wu_pinned := True\<rparr>) wd, blob, [source])
      else if action = JStr (U ''treat_as_singleton'') then regroup_singleton key_of t source value blob wd
      else if action = JStr (U ''move_to_collection'') then regroup_collection std t source value blob wd
      else Inl (U ''unsupported grouping correction action''))"

text \<open>The work unit a correction starts from, when nothing has changed since the preview.\<close>

definition correction_source :: "'w world \<Rightarrow> track \<Rightarrow> operation \<Rightarrow> ustr + work_unit" where
  "correction_source wd t op =
     (let source = jget (o_proposed op) (U ''source_group_id'') in
      if \<not> is_dict (o_proposed op) \<or> \<not> is_dict (o_current op)
      then Inl (U ''grouping correction payload is invalid'')
      else if \<not> is_int source \<or> source \<noteq> jget (o_current op) (U ''group_id'')
        \<or> tk_group t \<noteq> Some (int_value source)
      then Inl (U ''collection changed after preview; refresh the review'')
      else case find_unit wd (int_value source) of
        None \<Rightarrow> Inl (U ''collection changed after preview; refresh the review'')
      | Some u \<Rightarrow>
          if wu_pinned u then Inl (U ''collection changed after preview; refresh the review'') else Inr u)"

definition correction_blob :: "track \<Rightarrow> work_unit \<Rightarrow> operation \<Rightarrow> json" where
  "correction_blob t u op =
     JObj [(U ''group_id'', json_of_int (tk_group t)), (U ''source_group_id'', JInt (wu_id u)),
           (U ''source_is_pinned'', JBool (wu_pinned u)), (U ''action'', jget (o_proposed op) (U ''action''))]"

definition finish_correction :: "int \<Rightarrow> 'w world \<times> json \<times> int list \<Rightarrow> 'w world" where
  "finish_correction jid r =
     (case r of (wd, blob, dirty) \<Rightarrow>
        edit_journal jid (\<lambda>j. j\<lparr>fj_state := FJ_DONE, fj_blob := blob\<rparr>) (recount_groups dirty wd))"

definition apply_grouping_correction ::
  "pystd \<Rightarrow> (int \<Rightarrow> ustr) \<Rightarrow> int \<Rightarrow> track \<Rightarrow> operation list \<Rightarrow> 'w world \<Rightarrow> 'w world \<times> ustr option" where
  "apply_grouping_correction std key_of run t ops wd =
     (case ops of
        [op] \<Rightarrow>
          (case correction_source wd t op of
             Inl e \<Rightarrow> (wd, Some e)
           | Inr u \<Rightarrow>
               let blob = correction_blob t u op; jid = next_id fj_id (wd_journals wd);
                   wd1 = add_journal (journal_row run t (U ''grouping'') FJ_WRITING blob) wd
               in case regroup std key_of t (wu_id u) (o_proposed op) blob wd1 of
                    Inl e \<Rightarrow> (edit_journal jid (\<lambda>j. j\<lparr>fj_state := FJ_FAILED, fj_error := Some e\<rparr>) wd1, Some e)
                  | Inr r \<Rightarrow> (set_tries [o_id op] TRY_APPLIED None (finish_correction jid r), None))
      | _ \<Rightarrow> (wd, Some (U ''grouping review must contain one selected correction'')))"

section \<open>Undoing a correction\<close>

definition restore_pin :: "json \<Rightarrow> json \<Rightarrow> 'w world \<Rightarrow> 'w world" where
  "restore_pin unit pinned wd =
     (if is_int unit \<and> is_bool pinned
      then edit_unit (int_value unit) (\<lambda>u. u\<lparr>wu_pinned := truthy pinned\<rparr>) wd else wd)"

definition undo_grouping :: "journal \<Rightarrow> 'w world \<Rightarrow> ustr + 'w world" where
  "undo_grouping j wd =
     (let blob = fj_blob j; prev = jget blob (U ''group_id''); source = jget blob (U ''source_group_id'');
          target = jget blob (U ''target_group_id'')
      in if \<not> is_int prev \<or> \<not> is_int source then Inl (U ''grouping journal missing before_group_id'')
         else
           let wd1 = edit_track (fj_track j) (\<lambda>t. t\<lparr>tk_group := Some (int_value prev)\<rparr>) wd;
               wd2 = restore_pin target (jget blob (U ''target_is_pinned''))
                       (restore_pin source (jget blob (U ''source_is_pinned'')) wd1);
               dirty = int_value source # int_value prev # (if is_int target then [int_value target] else [])
           in Inr (edit_journal (fj_id j) (\<lambda>x. x\<lparr>fj_state := FJ_ROLLED_BACK\<rparr>) (recount_groups dirty wd2)))"

end
