(* ===== verification/ApplyRollback.thy ===== *)
theory ApplyRollback
  imports GroupingCorrection
begin

text \<open>
  Rolling back the journaled effects of an apply run (\<open>_rollback_applied_files\<close> of \<open>changes/bundle_applier.py\<close>).
  A step carries the committed world beside the current one: when a step raises, the database returns to
  the committed world, the disk does not, and the journal row is committed as \<open>writing\<close>.
\<close>

datatype 'w rolled =
    Rolled "'w world" "'w world"
  | Stopped ustr "'w world"

definition raised :: "int \<Rightarrow> ustr \<Rightarrow> 'w world \<Rightarrow> 'w \<Rightarrow> 'w rolled" where
  "raised jid e base w =
     Stopped e (edit_journal jid (\<lambda>j. j\<lparr>fj_state := FJ_WRITING, fj_error := Some (U ''rollback failed: '' @ e)\<rparr>)
       (base\<lparr>wd_disk := w\<rparr>))"

text \<open>The evidence of a journal row after a successful reversal.\<close>

definition restored_journal :: "json \<Rightarrow> ustr \<Rightarrow> journal \<Rightarrow> journal" where
  "restored_journal g h j =
     j\<lparr>fj_state := FJ_ROLLED_BACK, fj_blob := jset hash_restored (JStr h) (jset guard_restored g (fj_blob j))\<rparr>"

section \<open>Tags\<close>

definition internal_key :: "ustr \<Rightarrow> bool" where
  "internal_key k \<longleftrightarrow> prefix (U ''__muzilla'') k"

definition restore_fields :: "json \<Rightarrow> track \<Rightarrow> track" where
  "restore_fields blob t = fold (\<lambda>(k, v). set_field k v) (filter (\<lambda>(k, v). \<not> internal_key k) (entries blob)) t"

text \<open>The catalog side of \<open>restore_catalog_art_identity\<close>.\<close>

definition desired_art :: "json \<Rightarrow> track \<Rightarrow> json" where
  "desired_art blob t =
     jget_default blob (U ''__muzilla_catalog_art_blob_id'')
       (jget_default blob (U ''__muzilla_art_blob_id'') (json_of_int (tk_art t)))"

definition restore_art_error :: "'w disk \<Rightarrow> 'w \<Rightarrow> track \<Rightarrow> json \<Rightarrow> ustr option" where
  "restore_art_error dk w t blob =
     (let desired = desired_art blob t in
      if desired = JNull then None
      else if \<not> valid_integer desired then Some (U ''journal catalog artwork id is invalid'')
      else if tk_art t = Some (int_value desired) then None
      else if \<not> dk_has_blob dk (int_value desired)
      then Some (U ''catalog artwork blob '' @ int_str (int_value desired) @ U '' is unavailable during restore'')
      else dk_blob_error dk w (int_value desired))"

definition restore_art :: "json \<Rightarrow> track \<Rightarrow> track" where
  "restore_art blob t =
     (let desired = desired_art blob t; art = jget (jget blob (U ''__muzilla_embedded_art'')) (U ''entries'')
      in set_field (U ''has_embedded_art'') (JBool (if is_list art then list_value art \<noteq> [] else desired \<noteq> JNull))
           (t\<lparr>tk_art := opt_int desired\<rparr>))"

definition restore_lyrics :: "json \<Rightarrow> track \<Rightarrow> track" where
  "restore_lyrics blob t =
     (case map_of (entries blob) (U ''__muzilla_lyrics'') of
        None \<Rightarrow> t
      | Some l \<Rightarrow>
          set_field (U ''lyrics_synced'') (JBool (is_dict l \<and> truthy (jget l (U ''synced''))))
            (set_field (U ''has_lyrics'') (JBool (l \<noteq> JNull)) t))"

definition restore_tags :: "'w disk \<Rightarrow> track \<Rightarrow> journal \<Rightarrow> 'w world \<Rightarrow> 'w world \<Rightarrow> 'w rolled" where
  "restore_tags dk t j base wd =
     (let path = (if dk_exists dk (wd_disk wd) (tk_path t) then tk_path t else fj_path j) in
      if \<not> dk_exists dk (wd_disk wd) path then Stopped (U ''file missing for tags rollback: '' @ path) wd
      else case journal_file_guard (fj_blob j) guard_after of
        Inl e \<Rightarrow> raised (fj_id j) e base (wd_disk wd)
      | Inr g \<Rightarrow>
          (case dk_restore dk (wd_disk wd) (fj_id j) path (fj_blob j) g of
             Irreversible e committed w \<Rightarrow> raised (fj_id j) e (if committed then wd else base) w
           | Reversed restored h w \<Rightarrow>
               (case restore_art_error dk w t (fj_blob j) of
                  Some e \<Rightarrow> raised (fj_id j) e wd w
                | None \<Rightarrow>
                    (case read_facts dk w path of
                       Inl e \<Rightarrow> raised (fj_id j) e wd w
                     | Inr x \<Rightarrow>
                         Rolled (wd\<lparr>wd_disk := w\<rparr>)
                           (edit_track (tk_id t)
                              (update_file_facts x h \<circ> restore_lyrics (fj_blob j) \<circ> restore_art (fj_blob j)
                                 \<circ> restore_fields (fj_blob j))
                              (edit_journal (fj_id j) (restored_journal restored h) (wd\<lparr>wd_disk := w\<rparr>)))))))"

section \<open>Moves\<close>

definition last_tag_journal :: "'w world \<Rightarrow> int \<Rightarrow> int \<Rightarrow> journal option" where
  "last_tag_journal wd run tid =
     (case rev (filter (\<lambda>j. fj_phase j = U ''tags'') (journals_of wd run tid)) of [] \<Rightarrow> None | j # _ \<Rightarrow> Some j)"

text \<open>The guard that the tags of the file were written with must be the one that came back.\<close>

definition tag_evidence_error :: "ustr \<Rightarrow> 'w world \<Rightarrow> int \<Rightarrow> int \<Rightarrow> json \<Rightarrow> ustr option" where
  "tag_evidence_error e0 wd run tid g =
     (case last_tag_journal wd run tid of
        None \<Rightarrow> None
      | Some tj \<Rightarrow>
          (case journal_file_guard (fj_blob tj) guard_after of
             Inl e \<Rightarrow> Some e
           | Inr x \<Rightarrow>
               if g \<noteq> x then Some e0 else None))"

text \<open>The file is back: of the row of an interrupted move, the error goes too.\<close>

definition moved_back :: "'w disk \<Rightarrow> journal \<Rightarrow> file_facts \<Rightarrow> ustr \<Rightarrow> json \<Rightarrow> ustr \<Rightarrow> 'w world \<Rightarrow> 'w world" where
  "moved_back dk j facts before g h wd =
     edit_track (fj_track j) (relocate dk facts before h)
       (edit_journal (fj_id j)
          (\<lambda>x. (restored_journal g h x)\<lparr>fj_error := (if fj_state j = FJ_WRITING then None else fj_error x)\<rparr>) wd)"

definition return_move :: "'w disk \<Rightarrow> int \<Rightarrow> track \<Rightarrow> journal \<Rightarrow> ustr \<Rightarrow> ustr \<Rightarrow> 'w world \<Rightarrow> 'w world \<Rightarrow> 'w rolled" where
  "return_move dk run t j before after base wd =
     (case (journal_file_guard (fj_blob j) guard_before, journal_file_guard (fj_blob j) guard_after) of
        (Inl e, _) \<Rightarrow> raised (fj_id j) e base (wd_disk wd)
      | (_, Inl e) \<Rightarrow> raised (fj_id j) e base (wd_disk wd)
      | (Inr gb, Inr ga) \<Rightarrow>
          if tk_path t \<noteq> after
          then raised (fj_id j) (U ''recovery_required: move path changed before rollback: '' @ tk_path t) base (wd_disk wd)
          else
            let case_only = dk_case_only dk after before;
                wd1 = (if case_only then edit_journal (fj_id j) (\<lambda>x. x\<lparr>fj_state := FJ_WRITING\<rparr>) wd else wd);
                base1 = (if case_only then wd1 else base)
            in (case dk_return dk (wd_disk wd) after before ga gb of
                  Irreversible e committed w \<Rightarrow> raised (fj_id j) e (if committed then wd1 else base1) w
                | Reversed g h w \<Rightarrow>
                    if g \<noteq> gb
                    then raised (fj_id j) (U ''recovery_required: reverse move did not restore verified path: '' @ before) base1 w
                    else (case tag_evidence_error (U ''recovery_required: reverse move does not match tag restore evidence'')
                            wd run (tk_id t) g of
                      Some e \<Rightarrow> raised (fj_id j) e base1 w
                    | None \<Rightarrow>
                        (case read_facts dk w before of
                           Inl e \<Rightarrow> raised (fj_id j) e base1 w
                         | Inr x \<Rightarrow>
                             let wd2 = moved_back dk j x before g h (wd1\<lparr>wd_disk := w\<rparr>) in Rolled wd2 wd2))))"

text \<open>A move that was interrupted: its journal row is still \<open>writing\<close>.\<close>

definition reconcile_move :: "'w disk \<Rightarrow> int \<Rightarrow> track \<Rightarrow> journal \<Rightarrow> ustr \<Rightarrow> ustr \<Rightarrow> 'w world \<Rightarrow> 'w world \<Rightarrow> 'w rolled" where
  "reconcile_move dk run t j before after base wd =
     (case journal_file_guard (fj_blob j) guard_before of
        Inl e \<Rightarrow> raised (fj_id j) e base (wd_disk wd)
      | Inr gb \<Rightarrow>
          (case dk_reconcile dk (wd_disk wd) before after gb of
             Irreversible e committed w \<Rightarrow> raised (fj_id j) e (if committed then wd else base) w
           | Reversed g h w \<Rightarrow>
               (case tag_evidence_error (U ''recovery_required: case-only reverse move differs from tag evidence'')
                       wd run (tk_id t) g of
                  Some e \<Rightarrow> raised (fj_id j) e wd w
                | None \<Rightarrow>
                    (case read_facts dk w before of
                       Inl e \<Rightarrow> raised (fj_id j) e wd w
                     | Inr x \<Rightarrow> Rolled (wd\<lparr>wd_disk := w\<rparr>) (moved_back dk j x before g h (wd\<lparr>wd_disk := w\<rparr>))))))"

section \<open>Files\<close>

definition reversible :: "journal \<Rightarrow> bool" where
  "reversible j \<longleftrightarrow> fj_state j = FJ_DONE \<or> (fj_state j = FJ_WRITING \<and> fj_phase j = U ''move'')"

definition roll_journal :: "'w disk \<Rightarrow> int \<Rightarrow> int \<Rightarrow> int \<Rightarrow> 'w world \<Rightarrow> 'w world \<Rightarrow> 'w rolled" where
  "roll_journal dk run tid jid base wd =
     (case (find_journal wd jid, get_track wd tid) of
        (Some j, Some t) \<Rightarrow>
          if \<not> reversible j then Rolled base wd
          else if fj_phase j = U ''move'' then
            (case (fj_before_path j, fj_after_path j) of
               (Some before, Some after) \<Rightarrow>
                 if fj_state j = FJ_WRITING then reconcile_move dk run t j before after base wd
                 else return_move dk run t j before after base wd
             | _ \<Rightarrow>
                 if fj_state j = FJ_WRITING
                 then raised jid (U ''move journal missing before/after path'') base (wd_disk wd)
                 else Stopped (U ''move journal missing before/after path'') wd)
          else if fj_phase j = U ''tags'' then restore_tags dk t j base wd
          else if fj_phase j = U ''grouping'' then
            (case undo_grouping j wd of Inl e \<Rightarrow> Stopped e wd | Inr wd1 \<Rightarrow> Rolled base wd1)
          else Rolled base wd
      | _ \<Rightarrow> Rolled base wd)"

fun roll_journals :: "'w disk \<Rightarrow> int \<Rightarrow> int \<Rightarrow> int list \<Rightarrow> 'w world \<Rightarrow> 'w world \<Rightarrow> 'w rolled" where
  "roll_journals dk run tid [] base wd = Rolled base wd"
| "roll_journals dk run tid (jid # jids) base wd =
     (case roll_journal dk run tid jid base wd of
        Stopped e wd1 \<Rightarrow> Stopped e wd1
      | Rolled base1 wd1 \<Rightarrow> roll_journals dk run tid jids base1 wd1)"

definition finalize_all :: "'w disk \<Rightarrow> int list \<Rightarrow> 'w world \<Rightarrow> 'w world" where
  "finalize_all dk jids wd = wd\<lparr>wd_disk := fold (\<lambda>jid w. dk_finalize dk w jid) jids (wd_disk wd)\<rparr>"

text \<open>The files in the order given; the error is \<open>None\<close> when all were rolled back.\<close>

fun roll_tracks :: "'w disk \<Rightarrow> int \<Rightarrow> int list \<Rightarrow> 'w world \<Rightarrow> 'w world \<times> ustr option" where
  "roll_tracks dk run [] wd = (wd, None)"
| "roll_tracks dk run (tid # tids) wd =
     (if get_track wd tid = None
      then (wd, Some (U ''track '' @ int_str tid @ U '' not found during rollback''))
      else
        let jids = map fj_id (rev (journals_of wd run tid)) in
        case roll_journals dk run tid jids wd wd of
          Stopped e wd1 \<Rightarrow> (wd1, Some e)
        | Rolled _ wd1 \<Rightarrow> roll_tracks dk run tids (finalize_all dk jids wd1))"

definition rollback_applied_files :: "'w disk \<Rightarrow> int \<Rightarrow> int list \<Rightarrow> 'w world \<Rightarrow> 'w world \<times> ustr option" where
  "rollback_applied_files dk run applied wd = roll_tracks dk run (rev applied) wd"

end
