(* ===== verification/ApplyExecution.thy ===== *)
theory ApplyExecution
  imports ApplyRollback
begin

text \<open>
  The execution of an apply run (\<open>apply_review_run\<close> of \<open>changes/bundle_applier.py\<close>): preflight, the files one
  after the other, the rollback after a failure or a cancellation, and the final state of run and
  review. \<open>cancel n\<close> is the answer of the \<open>n\<close>-th poll of \<open>should_cancel\<close>.
\<close>

section \<open>One file\<close>

text \<open>What the loop does after a file: goes on, goes on with an applied track, or stops with an error.\<close>

datatype 'w progress =
    Passed "'w world"
  | Applied int "'w world"
  | Broken int ustr "'w world"

record 'w setting =
  se_std :: pystd
  se_repr :: pyrepr
  se_disk :: "'w disk"
  se_key :: "int \<Rightarrow> ustr"
  se_run :: int

definition tag_plan_of :: "operation list \<Rightarrow> tag_plan" where
  "tag_plan_of ops =
     \<lparr>tp_fields = fold (\<lambda>op fs. if o_kind op = SET_TAG \<or> o_kind op = SET_REPLAY_GAIN
                              then AList.update (o_field op) (o_proposed op) fs else fs) ops [],
      tp_art = fold (\<lambda>op a. if o_kind op = EMBED_ART \<and> is_dict (o_proposed op) \<and> is_int (jget (o_proposed op) (U ''blob_id''))
                            then Some (int_value (jget (o_proposed op) (U ''blob_id''))) else a) ops None,
      tp_remove_art = (\<exists>op\<in>set ops. o_kind op = REMOVE_ART),
      tp_lyrics = fold (\<lambda>op l. if o_kind op = WRITE_LYRICS \<and> is_dict (o_proposed op) then Some (o_proposed op) else l) ops None\<rparr>"

definition op_ids :: "operation list \<Rightarrow> int list" where
  "op_ids ops = map o_id ops"

definition fail_entry :: "nat \<Rightarrow> int \<Rightarrow> int list \<Rightarrow> try_state \<Rightarrow> ustr \<Rightarrow> 'w world \<Rightarrow> 'w progress" where
  "fail_entry k tid ids s e wd = Broken tid e (set_entry k (U ''failed'') (Some e) (set_tries ids s (Some e) wd))"

text \<open>The attempts of the tag operations of a file whose tags could not be written.\<close>

definition tag_failure :: "operation list \<Rightarrow> ustr \<Rightarrow> 'w world \<Rightarrow> 'w world" where
  "tag_failure ops e wd =
     set_tries (filter (\<lambda>i. \<not> tried wd TRY_APPLIED i) (op_ids ops))
       (if contains_sub (U ''snapshot'') e then TRY_CONFLICTED else TRY_FAILED) (Some e) wd"

definition written_guard :: "'w world \<Rightarrow> int \<Rightarrow> int \<Rightarrow> json" where
  "written_guard wd run tid =
     (case rev (filter (\<lambda>j. fj_phase j = U ''tags'' \<and> fj_state j = FJ_DONE) (journals_of wd run tid)) of
        [] \<Rightarrow> JNull
      | j # _ \<Rightarrow> jget (fj_blob j) guard_after)"

text \<open>The move of a file whose tags, if any, have been written.\<close>

definition move_step ::
  "'w setting \<Rightarrow> nat \<Rightarrow> track \<Rightarrow> operation list \<Rightarrow> operation list \<Rightarrow> snapshot_item \<Rightarrow> 'w world \<Rightarrow> 'w progress" where
  "move_step se k t tag_ops move_ops it wd =
     (let tid = tk_id t in case move_ops of
        [] \<Rightarrow> Applied tid (set_entry k (U ''applied'') None wd)
      | op # _ \<Rightarrow>
          let guard = (if tag_ops = [] then si_guard it else written_guard wd (se_run se) tid) in
          if \<not> is_str (o_proposed op)
          then fail_entry k tid (op_ids move_ops) TRY_FAILED (U ''move_file requires string destination'') wd
          else if tag_ops \<noteq> [] \<and> \<not> is_dict guard
          then fail_entry k tid (op_ids move_ops) TRY_FAILED (U ''tag write lacks durable physical checkpoint'') wd
          else if guard = JNull
          then fail_entry k tid (op_ids move_ops) TRY_FAILED (U ''move source lacks durable physical evidence'') wd
          else
            (case write_move (se_disk se) (se_run se) (case get_track wd tid of None \<Rightarrow> t | Some now \<Rightarrow> now)
                    (str_value (o_proposed op)) guard wd of
               (wd1, Some e) \<Rightarrow> fail_entry k tid (op_ids move_ops) TRY_FAILED e wd1
             | (wd1, None) \<Rightarrow>
                 Applied tid (set_entry k (U ''applied'') None (set_tries (op_ids move_ops) TRY_APPLIED None wd1))))"

definition file_step ::
  "'w setting \<Rightarrow> nat \<Rightarrow> track \<Rightarrow> operation list \<Rightarrow> snapshot_item \<Rightarrow> 'w world \<Rightarrow> 'w progress" where
  "file_step se k t ops it wd =
     (let tag_ops = filter (\<lambda>op. \<not> is_move op) ops; move_ops = filter is_move ops in
      if tag_ops = [] then move_step se k t tag_ops move_ops it wd
      else case write_tag_fields (se_disk se) (se_run se) t (tag_plan_of tag_ops) it wd of
        (wd1, Some e) \<Rightarrow> Broken (tk_id t) e (set_entry k (U ''failed'') (Some e) (tag_failure tag_ops e wd1))
      | (wd1, None) \<Rightarrow>
          move_step se k t tag_ops move_ops it (set_tries (op_ids tag_ops) TRY_APPLIED None wd1))"

text \<open>The facts a file is expected to have: of the manifest, or after what this run already applied.\<close>

definition expected_source :: "int \<Rightarrow> file_entry \<Rightarrow> operation list \<Rightarrow> 'w world \<Rightarrow> ustr + snapshot_item" where
  "expected_source run f ops wd =
     (if \<exists>i\<in>set (fe_ops f). tried wd TRY_APPLIED i
      then case read_source_snapshot_item (fe_exec f) of
          Inl _ \<Rightarrow> Inl (U ''apply execution source is invalid'')
        | Inr base \<Rightarrow>
            rbind (journal_execution_source wd run (fe_track f) base ops) (\<lambda>it. source_precondition (to_manifest_item it))
      else source_precondition (fe_exec f))"

definition grouping_step ::
  "'w setting \<Rightarrow> nat \<Rightarrow> track \<Rightarrow> operation list \<Rightarrow> 'w world \<Rightarrow> 'w progress" where
  "grouping_step se k t ops wd =
     (if list_all (\<lambda>op. o_kind op = GROUPING_CORRECTION) ops then
        (case apply_grouping_correction (se_std se) (se_key se) (se_run se) t ops wd of
           (wd1, Some e) \<Rightarrow> fail_entry k (tk_id t) (op_ids ops) TRY_FAILED e wd1
         | (wd1, None) \<Rightarrow> Applied (tk_id t) (set_entry k (U ''applied'') None wd1))
      else fail_entry k (tk_id t) (op_ids ops) TRY_FAILED
        (U ''grouping corrections cannot be mixed with file operations'') wd)"

text \<open>The body of the loop for an entry that is not applied yet.\<close>

definition apply_entry :: "'w setting \<Rightarrow> nat \<Rightarrow> 'w world \<Rightarrow> 'w progress" where
  "apply_entry se k wd =
     (let f = wd_files wd ! k;
          retry = filter (\<lambda>i. tried wd TRY_PENDING i \<or> tried wd TRY_FAILED i) (fe_ops f)
      in if retry = []
         then Passed (set_entry k
                (if list_all (tried wd TRY_APPLIED) (fe_ops f) then U ''applied'' else U ''skipped'') (fe_error f) wd)
         else case get_track wd (fe_track f) of
           None \<Rightarrow> fail_entry k (fe_track f) retry TRY_FAILED (U ''track '' @ int_str (fe_track f) @ U '' not found'') wd
         | Some t \<Rightarrow>
             let ops = List.map_filter (find_operation wd) retry in
             if \<exists>op\<in>set ops. o_kind op = GROUPING_CORRECTION then grouping_step se k t ops wd
             else case expected_source (se_run se) f (entry_operations wd f) wd of
               Inl e \<Rightarrow> fail_entry k (fe_track f) retry TRY_CONFLICTED e wd
             | Inr it \<Rightarrow> file_step se k t ops it wd)"

section \<open>The loop\<close>

record 'w outcome =
  oc_world :: "'w world"
  oc_applied :: "int list"
  oc_failed :: "int option"
  oc_error :: "ustr option"
  oc_cancelled :: bool

definition completed :: "file_entry \<Rightarrow> bool" where
  "completed f \<longleftrightarrow> fe_state f = U ''applied'' \<or> fe_state f = U ''skipped''"

text \<open>An entry whose operations were all applied before.\<close>

definition note_applied :: "nat \<Rightarrow> int list \<Rightarrow> 'w world \<Rightarrow> int list \<times> 'w world" where
  "note_applied k applied wd =
     (let f = wd_files wd ! k in
      if fe_ops f \<noteq> [] \<and> list_all (tried wd TRY_APPLIED) (fe_ops f)
      then (if fe_track f \<in> set applied then applied else applied @ [fe_track f], set_entry k (U ''applied'') None wd)
      else (applied, wd))"

definition fail_pending :: "ustr \<Rightarrow> 'w world \<Rightarrow> 'w world" where
  "fail_pending e wd =
     (let pending = filter (\<lambda>f. fe_state f = U ''pending'') (wd_files wd) in
      set_tries_in TRY_PENDING (concat (map fe_ops pending)) TRY_FAILED (Some e)
        (wd\<lparr>wd_files := map (\<lambda>f. if fe_state f = U ''pending'' then f\<lparr>fe_state := U ''failed'', fe_error := Some e\<rparr> else f)
               (wd_files wd)\<rparr>))"

definition cancelled_text :: ustr where
  "cancelled_text = U ''cancelled before file apply''"

fun apply_files :: "'w setting \<Rightarrow> (nat \<Rightarrow> bool) \<Rightarrow> nat list \<Rightarrow> int list \<Rightarrow> 'w world \<Rightarrow> 'w outcome" where
  "apply_files se cancel [] applied wd =
     \<lparr>oc_world = wd, oc_applied = applied, oc_failed = None, oc_error = None, oc_cancelled = False\<rparr>"
| "apply_files se cancel (k # ks) applied wd =
     (if cancel k
      then \<lparr>oc_world = fail_pending cancelled_text wd, oc_applied = applied, oc_failed = None,
            oc_error = Some cancelled_text, oc_cancelled = True\<rparr>
      else
        let (applied1, wd1) = note_applied k applied wd in
        if completed (wd_files wd1 ! k) then apply_files se cancel ks applied1 wd1
        else case apply_entry se k wd1 of
          Passed wd2 \<Rightarrow> apply_files se cancel ks applied1 wd2
        | Applied tid wd2 \<Rightarrow> apply_files se cancel ks (applied1 @ [tid]) wd2
        | Broken tid e wd2 \<Rightarrow>
            \<lparr>oc_world = wd2, oc_applied = applied1, oc_failed = Some tid, oc_error = Some e, oc_cancelled = False\<rparr>)"

section \<open>After the loop\<close>

definition writing_journals :: "'w world \<Rightarrow> int \<Rightarrow> journal list" where
  "writing_journals wd run = filter (\<lambda>j. fj_run j = run \<and> fj_state j = FJ_WRITING) (wd_journals wd)"

definition recovery_text :: ustr where
  "recovery_text = U ''recovery_required:''"

text \<open>The outcome with an unresolved journal row turned into an error.\<close>

definition note_writing :: "int \<Rightarrow> 'w outcome \<Rightarrow> 'w outcome \<times> ustr option" where
  "note_writing run oc =
     (case writing_journals (oc_world oc) run of
        [] \<Rightarrow> (oc, None)
      | j # _ \<Rightarrow>
          let m = U ''unresolved writing journal '' @ int_str (fj_id j) in
          (if (case oc_error oc of None \<Rightarrow> True | Some e \<Rightarrow> \<not> prefix recovery_text e)
           then oc\<lparr>oc_error := Some (recovery_text @ U '' '' @ m)\<rparr> else oc, Some m))"

definition rollback_ids :: "int \<Rightarrow> 'w outcome \<Rightarrow> int list" where
  "rollback_ids run oc =
     (case oc_failed oc of
        None \<Rightarrow> oc_applied oc
      | Some tid \<Rightarrow>
          if tid \<notin> set (oc_applied oc)
             \<and> (\<exists>j\<in>set (wd_journals (oc_world oc)). fj_run j = run \<and> fj_track j = tid \<and> reversible j)
          then oc_applied oc @ [tid] else oc_applied oc)"

definition rolled_text :: ustr where
  "rolled_text = U ''rolled back after bundle failure''"

definition mark_rolled :: "int list \<Rightarrow> int option \<Rightarrow> ustr option \<Rightarrow> 'w world \<Rightarrow> 'w world" where
  "mark_rolled ids failed e wd =
     (let touched = filter (\<lambda>f. fe_track f \<in> set ids \<or> Some (fe_track f) = failed) (wd_files wd) in
      set_tries_in TRY_APPLIED (concat (map fe_ops touched)) TRY_FAILED (Some rolled_text)
        (wd\<lparr>wd_files := map (\<lambda>f. if Some (fe_track f) = failed then f\<lparr>fe_state := U ''failed'', fe_error := e\<rparr>
                                  else if fe_track f \<in> set ids then f\<lparr>fe_state := U ''rolled_back'', fe_error := Some rolled_text\<rparr>
                                  else f) (wd_files wd)\<rparr>))"

definition mark_stuck :: "int list \<Rightarrow> ustr \<Rightarrow> 'w world \<Rightarrow> 'w world" where
  "mark_stuck ids e wd =
     wd\<lparr>wd_files := map (\<lambda>f. if fe_track f \<in> set ids \<and> fe_state f = U ''applied''
                             then f\<lparr>fe_error := Some (recovery_text @ U '' rollback failed: '' @ e)\<rparr> else f) (wd_files wd)\<rparr>"

definition pending_error :: "'w outcome \<Rightarrow> ustr" where
  "pending_error oc = (case oc_error oc of None \<Rightarrow> cancelled_text | Some e \<Rightarrow> if e = [] then cancelled_text else e)"

text \<open>The rollback that follows a failure: the world and the error of a rollback that failed.\<close>

definition undo_outcome_files :: "'w setting \<Rightarrow> 'w outcome \<Rightarrow> 'w world \<times> ustr option" where
  "undo_outcome_files se oc =
     (let ids = rollback_ids (se_run se) oc in
      if ids = [] then (fail_pending (pending_error oc) (oc_world oc), None)
      else case rollback_applied_files (se_disk se) (se_run se) ids (oc_world oc) of
        (wd, Some e) \<Rightarrow> (mark_stuck ids e wd, Some e)
      | (wd, None) \<Rightarrow> (fail_pending (pending_error oc) (mark_rolled ids (oc_failed oc) (oc_error oc) wd), None))"

definition settled :: "'w setting \<Rightarrow> 'w outcome \<Rightarrow> 'w world \<times> 'w outcome \<times> ustr option" where
  "settled se oc =
     (let (oc1, writing) = note_writing (se_run se) oc in
      if oc_cancelled oc1 \<or> oc_error oc1 \<noteq> None
      then case undo_outcome_files se oc1 of
          (wd, Some e) \<Rightarrow> (wd, oc1, Some e)
        | (wd, None) \<Rightarrow> (wd, oc1, writing)
      else (oc_world oc1, oc1, writing))"

section \<open>The run\<close>

record file_result =
  fr_track :: int
  fr_state :: ustr
  fr_applied :: "int list"
  fr_error :: "ustr option"

record apply_result =
  ar_state :: run_state
  ar_files :: "file_result list"
  ar_cancelled :: bool
  ar_recovery :: bool

datatype apply_exc = ApplyError ustr | Aborted review_exc

definition file_result_of :: "'w world \<Rightarrow> file_entry \<Rightarrow> file_result" where
  "file_result_of wd f =
     \<lparr>fr_track = fe_track f, fr_state = fe_state f, fr_applied = filter (tried wd TRY_APPLIED) (fe_ops f),
      fr_error = fe_error f\<rparr>"

definition result_json :: "file_result \<Rightarrow> json" where
  "result_json r =
     JObj [(U ''track_id'', JInt (fr_track r)), (U ''state'', JStr (fr_state r)),
           (U ''applied_operation_ids'', JList (map JInt (fr_applied r))), (U ''error'', json_of_str (fr_error r))]"

definition run_state_text :: "run_state \<Rightarrow> ustr" where
  "run_state_text s =
     (case s of RUN_PENDING \<Rightarrow> U ''pending'' | RUN_APPLYING \<Rightarrow> U ''applying'' | RUN_APPLIED \<Rightarrow> U ''applied''
      | RUN_PARTIAL \<Rightarrow> U ''partially_applied'' | RUN_FAILED \<Rightarrow> U ''failed'')"

definition run_result :: "run_state \<Rightarrow> file_result list \<Rightarrow> bool \<Rightarrow> bool \<Rightarrow> json" where
  "run_result s rs recovery cancelled =
     JObj ([(U ''state'', JStr (run_state_text s)), (U ''atomicity'', JStr (U ''review_bundle'')),
            (U ''files'', JList (map result_json rs)), (U ''recovery_required'', JBool recovery)]
           @ (if cancelled then [(U ''cancelled'', JBool True)] else []))"

definition refresh_manifest :: "file_entry list \<Rightarrow> json \<Rightarrow> json" where
  "refresh_manifest files m =
     jset (U ''files'')
       (JList (map (\<lambda>(raw, f). jset (U ''error'') (json_of_str (fe_error f)) (jset (U ''state'') (JStr (fe_state f)) raw))
         (zip (list_value (jget m (U ''files''))) files))) m"

definition sync_inbox_state :: "int \<Rightarrow> db \<Rightarrow> db" where
  "sync_inbox_state bid d =
     (case find_row b_id bid (bundles d) of
        None \<Rightarrow> d
      | Some b \<Rightarrow>
          d\<lparr>inbox := update_where (\<lambda>e. i_bundle e = bid)
               (\<lambda>e. e\<lparr>i_state := b_state b,
                      i_issue_kind := (case b_error b of None \<Rightarrow> None | Some m \<Rightarrow> if m = [] then None else Some (U ''review'')),
                      i_issue_message := b_error b\<rparr>) (inbox d)\<rparr>)"

definition move_bundle :: "int \<Rightarrow> bundle_state \<Rightarrow> 'w world \<Rightarrow> apply_exc + 'w world" where
  "move_bundle bid s wd =
     (case flush_state bid s (wd_db wd) of Inl e \<Rightarrow> Inl (Aborted e) | Inr d \<Rightarrow> Inr (wd\<lparr>wd_db := d\<rparr>))"

definition edit_run :: "int \<Rightarrow> (apply_run \<Rightarrow> apply_run) \<Rightarrow> 'w world \<Rightarrow> 'w world" where
  "edit_run rid f wd = wd\<lparr>wd_db := (wd_db wd)\<lparr>apply_runs := update_where (\<lambda>a. a_id a = rid) f (apply_runs (wd_db wd))\<rparr>\<rparr>"

text \<open>The end of a run: its state, result and error, those of the review, and the manifest.\<close>

definition close_run ::
  "apply_run \<Rightarrow> run_state \<Rightarrow> bundle_state \<Rightarrow> json \<Rightarrow> ustr option \<Rightarrow> 'w world \<Rightarrow> apply_exc + 'w world" where
  "close_run run s bs result e wd =
     rbind (move_bundle (a_bundle run) bs
              (edit_run (a_id run) (\<lambda>a. a\<lparr>a_state := s, a_result := result, a_error := e,
                 a_manifest := refresh_manifest (wd_files wd) (a_manifest a)\<rparr>) wd))
       (\<lambda>wd1. Inr (wd1\<lparr>wd_db := sync_inbox_state (a_bundle run) (set_bundle_error (a_bundle run) e (wd_db wd1))\<rparr>))"

definition all_applied :: "'w world \<Rightarrow> bool" where
  "all_applied wd \<longleftrightarrow> wd_tries wd \<noteq> [] \<and> (\<forall>a\<in>set (wd_tries wd). ot_state a = TRY_APPLIED)"

definition final_state :: "'w world \<Rightarrow> 'w outcome \<Rightarrow> bool \<Rightarrow> run_state" where
  "final_state wd oc recovery =
     (if \<not> oc_cancelled oc \<and> oc_error oc = None \<and> \<not> recovery \<and> all_applied wd then RUN_APPLIED else RUN_FAILED)"

definition file_errors :: "file_result list \<Rightarrow> ustr option" where
  "file_errors rs =
     (let m = join_with (U ''; '') (concat (map (\<lambda>r. case fr_error r of None \<Rightarrow> []
                 | Some e \<Rightarrow> [U ''track '' @ int_str (fr_track r) @ U '': '' @ e]) rs))
      in if m = [] then None else Some m)"

definition run_error :: "'w outcome \<Rightarrow> ustr option \<Rightarrow> run_state \<Rightarrow> file_result list \<Rightarrow> ustr option" where
  "run_error oc recovery s rs =
     (case recovery of
        Some e \<Rightarrow> Some (recovery_text @ U '' '' @
          (if e \<noteq> [] then e else text_or (oc_error oc) (U ''rollback failed'')))
      | None \<Rightarrow>
          if oc_cancelled oc then Some (text_or (oc_error oc) (U ''cancelled before completion''))
          else case oc_error oc of
            Some e \<Rightarrow> Some (if oc_applied oc = [] then e else e @ U '' (rolled back)'')
          | None \<Rightarrow> if s = RUN_APPLIED then None else file_errors rs)"

definition finish_run :: "apply_run \<Rightarrow> 'w world \<times> 'w outcome \<times> ustr option \<Rightarrow> apply_exc + 'w world \<times> apply_result" where
  "finish_run run r =
     (case r of (wd, oc, recovery) \<Rightarrow>
        let s = final_state wd oc (recovery \<noteq> None); rs = map (file_result_of wd) (wd_files wd);
            bs = (if s = RUN_APPLIED then APPLIED else FAILED)
        in rbind (close_run run s bs (run_result s rs (recovery \<noteq> None) (oc_cancelled oc)) (run_error oc recovery s rs) wd)
             (\<lambda>wd1. Inr (wd1, \<lparr>ar_state = s, ar_files = rs, ar_cancelled = oc_cancelled oc,
                              ar_recovery = (recovery \<noteq> None)\<rparr>)))"

text \<open>A run that preflight refused: every entry and attempt fails and nothing else is written.\<close>

definition refuse_entry :: "track_errors \<Rightarrow> ustr \<Rightarrow> file_entry \<Rightarrow> file_entry" where
  "refuse_entry errors first f =
     f\<lparr>fe_state := U ''failed'', fe_error := Some (case map_of errors (fe_track f) of None \<Rightarrow> first | Some e \<Rightarrow> e)\<rparr>"

definition refuse_tries :: "file_entry list \<Rightarrow> 'w world \<Rightarrow> 'w world" where
  "refuse_tries files wd = fold (\<lambda>f. set_tries (fe_ops f) TRY_FAILED (fe_error f)) files wd"

definition refuse_run :: "apply_run \<Rightarrow> track_errors \<Rightarrow> 'w world \<Rightarrow> apply_exc + 'w world \<times> apply_result" where
  "refuse_run run errors wd =
     (let first = snd (hd errors); files = map (refuse_entry errors first) (wd_files wd);
          wd1 = refuse_tries files (wd\<lparr>wd_files := files\<rparr>);
          rs = map (\<lambda>f. (file_result_of wd1 f)\<lparr>fr_applied := []\<rparr>) files
      in rbind (close_run run RUN_FAILED FAILED (run_result RUN_FAILED rs False False) (Some first) wd1)
           (\<lambda>wd2. Inr (wd2, \<lparr>ar_state = RUN_FAILED, ar_files = map (file_result_of wd1) files, ar_cancelled = False,
                            ar_recovery = False\<rparr>)))"

definition begin_run :: "apply_run \<Rightarrow> file_entry list \<Rightarrow> 'w world \<Rightarrow> apply_exc + 'w world" where
  "begin_run run files wd =
     rbind (move_bundle (a_bundle run) APPLYING (edit_run (a_id run) (\<lambda>a. a\<lparr>a_state := RUN_APPLYING\<rparr>) (wd\<lparr>wd_files := files\<rparr>)))
       (\<lambda>wd1. Inr (wd1\<lparr>wd_db := sync_inbox_state (a_bundle run) (wd_db wd1)\<rparr>))"

definition execute_run ::
  "'w setting \<Rightarrow> (nat \<Rightarrow> bool) \<Rightarrow> apply_run \<Rightarrow> review_bundle \<Rightarrow> 'w world \<Rightarrow> apply_exc + 'w world \<times> apply_result" where
  "execute_run se cancel run b wd =
     (let errors = bundle_preflight (se_std se) (se_repr se) (se_disk se) run b wd in
      if errors \<noteq> [] then refuse_run run errors wd
      else finish_run run (settled se (apply_files se cancel [0..<length (wd_files wd)] [] wd)))"

definition stored_result :: "apply_run \<Rightarrow> file_entry list \<Rightarrow> 'w world \<Rightarrow> apply_result" where
  "stored_result run files wd =
     \<lparr>ar_state = a_state run, ar_files = map (file_result_of wd) files, ar_cancelled = False,
      ar_recovery = (a_state run = RUN_FAILED \<and> truthy (jget (a_result run) (U ''recovery_required'')))\<rparr>"

definition apply_review_run ::
  "'w setting \<Rightarrow> (nat \<Rightarrow> bool) \<Rightarrow> 'w world \<Rightarrow> apply_exc + 'w world \<times> apply_result" where
  "apply_review_run se cancel wd =
     (case find_row a_id (se_run se) (apply_runs (wd_db wd)) of
        None \<Rightarrow> Inl (ApplyError (U ''apply run '' @ int_str (se_run se) @ U '' not found''))
      | Some run \<Rightarrow>
          (case find_row b_id (a_bundle run) (bundles (wd_db wd)) of
             None \<Rightarrow> Inl (ApplyError (U ''apply run has no review bundle''))
           | Some b \<Rightarrow>
               (case manifest_files (a_manifest run) of
                  Inl e \<Rightarrow> Inl (ApplyError e)
                | Inr files \<Rightarrow>
                    if a_state run = RUN_APPLIED \<or> (a_state run = RUN_FAILED \<and> a_result run \<noteq> JNull)
                    then Inr (wd, stored_result run files wd)
                    else rbind (begin_run run files wd) (\<lambda>wd1.
                      execute_run se cancel (run\<lparr>a_state := RUN_APPLYING\<rparr>) (b\<lparr>b_state := APPLYING\<rparr>) wd1))))"

end
