(* ===== verification/ApplyRecovery.thy ===== *)
theory ApplyRecovery
  imports ApplyExecution
begin

text \<open>
  The global reconciliation of interrupted apply runs (\<open>recover_apply_runs\<close> of \<open>changes/bundle_applier.py\<close>, and what
  the service does when it fails). The application does not run it when it starts, because another process may own a
  run; it is for a caller that knows that no run is alive (\<open>recover_atomic_bundles\<close> of \<open>services/review_apply.py\<close>). \<open>dk_recover\<close> settles the replacement of a file that a journal row
  was making: it answers whether the replacement was part of a restoration, or \<open>None\<close> when there is nothing to
  settle or it cannot be settled. Housekeeping of finished replacements leaves the database alone.
\<close>

section \<open>Settling journal rows\<close>

definition run_journals :: "'w world \<Rightarrow> int \<Rightarrow> journal list" where
  "run_journals wd run = filter (\<lambda>j. fj_run j = run) (wd_journals wd)"

definition settle_journal :: "'w disk \<Rightarrow> journal \<Rightarrow> 'w world \<Rightarrow> 'w world" where
  "settle_journal dk j wd =
     (if fj_phase j \<noteq> U ''tags'' then wd
      else case dk_recover dk (wd_disk wd) (fj_id j) of
        None \<Rightarrow> wd
      | Some (restoring, w) \<Rightarrow>
          edit_journal (fj_id j)
            (\<lambda>x. x\<lparr>fj_state := (if fj_state x \<noteq> FJ_WRITING then fj_state x
                               else if restoring then FJ_DONE else FJ_FAILED), fj_error := None\<rparr>)
            (wd\<lparr>wd_disk := w\<rparr>))"

definition settle_journals :: "'w disk \<Rightarrow> int \<Rightarrow> 'w world \<Rightarrow> 'w world" where
  "settle_journals dk run wd = fold (settle_journal dk) (run_journals wd run) wd"

section \<open>One run\<close>

definition recovered_files :: "(file_entry \<Rightarrow> file_entry) \<Rightarrow> 'w world \<Rightarrow> 'w world" where
  "recovered_files f wd = wd\<lparr>wd_files := map f (wd_files wd)\<rparr>"

definition set_failed :: "ustr \<Rightarrow> file_entry \<Rightarrow> file_entry" where
  "set_failed e f = f\<lparr>fe_state := U ''failed'', fe_error := Some e\<rparr>"

definition unapplied_result :: "file_entry \<Rightarrow> file_result" where
  "unapplied_result f = \<lparr>fr_track = fe_track f, fr_state = fe_state f, fr_applied = [], fr_error = fe_error f\<rparr>"

definition close_recovered :: "apply_run \<Rightarrow> bool \<Rightarrow> ustr \<Rightarrow> 'w world \<Rightarrow> apply_exc + 'w world" where
  "close_recovered run recovery e wd =
     close_run run RUN_FAILED FAILED
       (run_result RUN_FAILED (map unapplied_result (wd_files wd)) recovery False) (Some e) wd"

definition mark_recovered :: "int list \<Rightarrow> ustr \<Rightarrow> file_entry \<Rightarrow> file_entry" where
  "mark_recovered ids e f =
     (if fe_track f \<in> set ids then f\<lparr>fe_state := U ''rolled_back'', fe_error := Some e\<rparr> else f)"

text \<open>The tracks with an effect to roll back, in the order of the journal.\<close>

definition effect_tracks :: "'w world \<Rightarrow> int \<Rightarrow> int list" where
  "effect_tracks wd run = rev (remdups (rev (map fj_track (filter reversible (run_journals wd run)))))"

definition rollback_failed :: "apply_run \<Rightarrow> ustr \<Rightarrow> 'w world \<Rightarrow> apply_exc + 'w world" where
  "rollback_failed run e wd =
     close_recovered run True (recovery_text @ U '' '' @ e)
       (recovered_files (set_failed (recovery_text @ U '' rollback failed: '' @ e)) wd)"

definition interrupted :: "file_entry \<Rightarrow> file_entry" where
  "interrupted f =
     (if fe_state f = U ''rolled_back'' then f
      else set_failed (recovery_text @ U '' interrupted during mutation'') f)"

text \<open>Some effect may be half done: roll back what can be, and ask for recovery in any case.\<close>

definition recover_ambiguous :: "'w disk \<Rightarrow> apply_run \<Rightarrow> 'w world \<Rightarrow> apply_exc + 'w world" where
  "recover_ambiguous dk run wd =
     (let ids = effect_tracks wd (a_id run);
          final = (\<lambda>wd. close_recovered run True (recovery_text @ U '' interrupted mutation'') (recovered_files interrupted wd))
      in if ids = [] then final wd
         else case rollback_applied_files dk (a_id run) ids wd of
           (wd1, Some e) \<Rightarrow> rollback_failed run e wd1
         | (wd1, None) \<Rightarrow>
             final (recovered_files (mark_recovered ids
               (recovery_text @ U '' interrupted during mutation (rolled back)'')) wd1))"

definition recover_done :: "'w disk \<Rightarrow> apply_run \<Rightarrow> 'w world \<Rightarrow> apply_exc + 'w world" where
  "recover_done dk run wd =
     (let ids = effect_tracks wd (a_id run) in
      case rollback_applied_files dk (a_id run) ids wd of
        (wd1, Some e) \<Rightarrow> rollback_failed run e wd1
      | (wd1, None) \<Rightarrow>
          close_recovered run False (U ''recovered via rollback after crash'')
            (recovered_files (mark_recovered ids (U ''rolled back after crash recovery'')) wd1))"

definition unchanged_entry :: "file_entry \<Rightarrow> file_entry" where
  "unchanged_entry f = set_failed (text_or (fe_error f) (U ''recovered: no durable mutations'')) f"

definition recover_run :: "'w disk \<Rightarrow> apply_run \<Rightarrow> 'w world \<Rightarrow> apply_exc + 'w world" where
  "recover_run dk run wd0 =
     (let files = (case manifest_files (a_manifest run) of Inl _ \<Rightarrow> [] | Inr fs \<Rightarrow> fs);
          wd = settle_journals dk (a_id run) (wd0\<lparr>wd_files := files\<rparr>);
          js = run_journals wd (a_id run);
          has_writing = (\<exists>j\<in>set js. fj_state j = FJ_WRITING);
          has_done = (\<exists>j\<in>set js. fj_state j = FJ_DONE)
      in if has_writing then recover_ambiguous dk run wd
         else if has_done then recover_done dk run wd
         else close_recovered run False (U ''recovered without mutations'') (recovered_files unchanged_entry wd))"

section \<open>All runs\<close>

definition needs_recovery :: "'w world \<Rightarrow> apply_run \<Rightarrow> bool" where
  "needs_recovery wd run \<longleftrightarrow>
     (a_state run = RUN_APPLYING \<or> (\<exists>j\<in>set (wd_journals wd). fj_run j = a_id run \<and> fj_state j = FJ_WRITING))"

text \<open>A run whose undo is under way is left to it, and a run without a review is left alone.\<close>

definition left_alone :: "'w world \<Rightarrow> apply_run \<Rightarrow> bool" where
  "left_alone wd run \<longleftrightarrow>
     (a_state run \<noteq> RUN_APPLYING
        \<and> (\<exists>u\<in>set (undo_runs (wd_db wd)). u_source_run u = a_id run \<and> u_state u = U_UNDOING))
     \<or> find_row b_id (a_bundle run) (bundles (wd_db wd)) = None"

fun recover_runs :: "'w disk \<Rightarrow> apply_run list \<Rightarrow> 'w world \<Rightarrow> apply_exc + 'w world \<times> nat" where
  "recover_runs dk [] wd = Inr (wd, 0)"
| "recover_runs dk (run # rest) wd =
     (if left_alone wd run then recover_runs dk rest wd
      else rbind (recover_run dk run wd) (\<lambda>wd1.
           rbind (recover_runs dk rest wd1) (\<lambda>(wd2, n). Inr (wd2, Suc n))))"

definition stuck_text :: ustr where
  "stuck_text = U ''recovered: bundle stuck in applying without active run''"

fun free_bundles :: "review_bundle list \<Rightarrow> 'w world \<Rightarrow> apply_exc + 'w world \<times> nat" where
  "free_bundles [] wd = Inr (wd, 0)"
| "free_bundles (b # bs) wd =
     (if (case latest_run (wd_db wd) (b_id b) of None \<Rightarrow> True | Some a \<Rightarrow> a_state a \<noteq> RUN_APPLYING)
      then rbind (move_bundle (b_id b) FAILED wd) (\<lambda>wd1.
           rbind (free_bundles bs (wd1\<lparr>wd_db := sync_inbox_state (b_id b) (set_bundle_error (b_id b) (Some stuck_text) (wd_db wd1))\<rparr>))
             (\<lambda>(wd2, n). Inr (wd2, Suc n)))
      else free_bundles bs wd)"

definition recover_apply_runs :: "'w disk \<Rightarrow> 'w world \<Rightarrow> apply_exc + 'w world \<times> nat" where
  "recover_apply_runs dk wd =
     rbind (recover_runs dk (filter (needs_recovery wd) (apply_runs (wd_db wd))) wd) (\<lambda>(wd1, n).
     rbind (free_bundles (filter (\<lambda>b. b_state b = APPLYING) (bundles (wd_db wd1))) wd1) (\<lambda>(wd2, m).
       Inr (wd2, n + m)))"

end
