(* ===== verification/ApplyFacts.thy ===== *)
theory ApplyFacts
  imports ApplyRecovery
begin

text \<open>
  Facts about the execution of apply runs: what each step leaves alone, whose journal rows it writes,
  and what a completed rollback has done to the journal.
\<close>

named_theorems frame \<open>components of the world that an edit leaves alone\<close>

section \<open>Frames\<close>

lemma edit_frames [frame, simp]:
  "wd_journals (edit_track i tf wd) = wd_journals wd" "wd_journals (edit_unit i uf wd) = wd_journals wd"
  "wd_journals (set_tries is s e wd) = wd_journals wd" "wd_journals (set_tries_in o' is s e wd) = wd_journals wd"
  "wd_journals (set_entry k st e wd) = wd_journals wd" "wd_journals (recount_groups gs wd) = wd_journals wd"
  "wd_journals (put_member tid u wd) = wd_journals wd" "wd_journals (restore_pin a b wd) = wd_journals wd"
  "wd_journals (tag_failure ops m wd) = wd_journals wd" "wd_journals (fail_pending m wd) = wd_journals wd"
  "wd_journals (mark_stuck ids m wd) = wd_journals wd" "wd_journals (mark_rolled ids fl fe wd) = wd_journals wd"
  "wd_journals (finalize_all dk jids wd) = wd_journals wd"
  by (simp_all add: edit_track_def edit_unit_def set_tries_def set_tries_in_def set_entry_def recount_groups_def
      put_member_def restore_pin_def tag_failure_def fail_pending_def mark_stuck_def mark_rolled_def finalize_all_def Let_def)

lemma edit_db_frames [frame, simp]:
  "wd_db (edit_track i tf wd) = wd_db wd" "wd_db (edit_unit i uf wd) = wd_db wd"
  "wd_db (edit_journal i jf wd) = wd_db wd" "wd_db (add_journal j wd) = wd_db wd"
  "wd_db (set_tries is s e wd) = wd_db wd" "wd_db (set_tries_in o' is s e wd) = wd_db wd"
  "wd_db (set_entry k st e wd) = wd_db wd" "wd_db (recount_groups gs wd) = wd_db wd"
  "wd_db (put_member tid u wd) = wd_db wd" "wd_db (restore_pin a b wd) = wd_db wd"
  "wd_db (tag_failure ops m wd) = wd_db wd" "wd_db (fail_pending m wd) = wd_db wd"
  "wd_db (mark_stuck ids m wd) = wd_db wd" "wd_db (mark_rolled ids fl fe wd) = wd_db wd"
  "wd_db (finalize_all dk jids wd) = wd_db wd"
  by (simp_all add: edit_track_def edit_unit_def edit_journal_def add_journal_def set_tries_def set_tries_in_def
      set_entry_def recount_groups_def put_member_def restore_pin_def tag_failure_def fail_pending_def mark_stuck_def
      mark_rolled_def finalize_all_def Let_def)

lemma edit_journal_journals [simp]:
  "wd_journals (edit_journal i f wd) = update_where (\<lambda>j. fj_id j = i) f (wd_journals wd)"
  by (simp add: edit_journal_def)

section \<open>Whose journal rows\<close>

text \<open>Every journal row of the run belongs to one of the tracks and records one of the three kinds of effects.\<close>

definition phases :: "ustr set" where
  "phases = {U ''tags'', U ''move'', U ''grouping''}"

definition owned :: "int set \<Rightarrow> int \<Rightarrow> 'w world \<Rightarrow> bool" where
  "owned T run wd \<longleftrightarrow>
     distinct (map fj_id (wd_journals wd))
     \<and> (\<forall>j\<in>set (wd_journals wd). fj_run j = run \<longrightarrow> fj_track j \<in> T \<and> fj_phase j \<in> phases)"

text \<open>Edits of journal rows that keep what a row is about.\<close>

definition same_row :: "journal \<Rightarrow> journal \<Rightarrow> bool" where
  "same_row j j' \<longleftrightarrow> fj_id j' = fj_id j \<and> fj_run j' = fj_run j \<and> fj_track j' = fj_track j \<and> fj_phase j' = fj_phase j"

lemma same_row_refl [simp]: "same_row j j"
  by (simp add: same_row_def)

lemma put_guard_same [simp]:
  "fj_id (put_guard k g j) = fj_id j" "fj_run (put_guard k g j) = fj_run j" "fj_track (put_guard k g j) = fj_track j"
  "fj_phase (put_guard k g j) = fj_phase j"
  by (simp_all add: put_guard_def split: option.splits)

lemma owned_mono: "owned T run wd \<Longrightarrow> T \<subseteq> T' \<Longrightarrow> owned T' run wd"
  by (auto simp: owned_def)

lemma owned_cong: "wd_journals wd' = wd_journals wd \<Longrightarrow> owned T run wd' = owned T run wd"
  by (simp add: owned_def)

lemma owned_edit:
  assumes "owned T run wd" and "\<And>j. same_row j (f j)"
  shows "owned T run (edit_journal i f wd)"
proof -
  have "map fj_id (update_where (\<lambda>j. fj_id j = i) f (wd_journals wd)) = map fj_id (wd_journals wd)"
    using assms(2) by (intro update_where_keys) (simp add: same_row_def)
  then show ?thesis
    using assms unfolding owned_def same_row_def by (auto simp: set_update_where)
qed

lemma owned_add:
  assumes "owned T run wd" and "fj_track j \<in> T" and "fj_phase j \<in> phases"
  shows "owned T run (add_journal j wd)"
  using assms distinct_next_id [of fj_id "wd_journals wd" "j\<lparr>fj_id := next_id fj_id (wd_journals wd)\<rparr>"]
  by (auto simp: owned_def add_journal_def)

lemma phases_simps [simp]: "U ''tags'' \<in> phases" "U ''move'' \<in> phases" "U ''grouping'' \<in> phases"
  by (simp_all add: phases_def)

lemma owned_frames [simp]:
  "owned T run (edit_track i tf wd) = owned T run wd" "owned T run (edit_unit i uf wd) = owned T run wd"
  "owned T run (set_tries is s e wd) = owned T run wd" "owned T run (set_entry k st e wd) = owned T run wd"
  "owned T run (recount_groups gs wd) = owned T run wd" "owned T run (put_member tid u wd) = owned T run wd"
  "owned T run (tag_failure ops m wd) = owned T run wd" "owned T run (wd\<lparr>wd_disk := w\<rparr>) = owned T run wd"
  "owned T run (wd\<lparr>wd_units := us\<rparr>) = owned T run wd" "owned T run (fail_pending m wd) = owned T run wd"
  by (simp_all add: owned_def)

lemma owned_persist:
  "owned T run wd \<Longrightarrow> owned T run (fst (persist_failure jid e r wd))"
  by (simp add: persist_failure_def owned_edit same_row_def)

lemma owned_finish: "owned T run wd \<Longrightarrow> owned T run (finish_journal jid g h wd)"
  unfolding finish_journal_def by (rule owned_edit) (simp_all add: same_row_def)

lemma owned_put_guard: "owned T run wd \<Longrightarrow> owned T run (edit_journal jid (put_guard k g) wd)"
  by (rule owned_edit) (simp_all add: same_row_def)

lemma owned_fail_new: "owned T run wd \<Longrightarrow> tk_id t \<in> T \<Longrightarrow> owned T run (fail_new_journal run t (U ''tags'') e wd)"
  unfolding fail_new_journal_def by (rule owned_add) (simp_all add: journal_row_def phases_def)

lemma owned_publish_tags:
  assumes "owned T run wd"
  shows "owned T run (fst (publish_tags dk jid t g p wd))"
proof (cases "dk_publish dk (wd_disk wd) jid (tk_path t) g p")
  case (Untouched e w)
  then show ?thesis using assms by (simp add: publish_tags_def owned_persist)
next
  case (Uncertain e after w)
  then show ?thesis using assms by (simp add: publish_tags_def owned_persist owned_put_guard)
next
  case (Performed after h w)
  then show ?thesis using assms by (simp add: publish_tags_def Let_def owned_finish owned_persist owned_put_guard split: sum.splits)
qed

lemma owned_write_tags:
  assumes "owned T run wd" and "tk_id t \<in> T"
  shows "owned T run (fst (write_tag_fields dk run t p it wd))"
proof -
  have "owned T run (start_tag_journal run t blob wd)" for blob
    unfolding start_tag_journal_def using assms by (intro owned_add) (simp_all add: journal_row_def phases_def)
  then show ?thesis
    using assms
    by (auto simp: write_tag_fields_def owned_fail_new owned_publish_tags Let_def simp del: U_Cons U_Nil
        split: sum.splits option.splits)
qed

lemma owned_perform_move:
  assumes "owned T run wd"
  shows "owned T run (fst (perform_move dk jid t dest g wd))"
proof (cases "dk_move dk (wd_disk wd) (tk_path t) dest g")
  case (Untouched e w)
  then show ?thesis using assms by (simp add: perform_move_def owned_persist)
next
  case (Uncertain e after w)
  then show ?thesis using assms by (simp add: perform_move_def owned_persist owned_put_guard)
next
  case (Performed after h w)
  then show ?thesis using assms by (simp add: perform_move_def Let_def owned_finish owned_persist owned_put_guard split: sum.splits)
qed

lemma owned_write_move:
  assumes "owned T run wd" and "tk_id t \<in> T"
  shows "owned T run (fst (write_move dk run t dest g wd))"
proof -
  have "owned T run (start_move_journal run t d g wd)" for d
    unfolding start_move_journal_def using assms by (intro owned_add) (simp_all add: journal_row_def phases_def)
  then show ?thesis
    using assms by (auto simp: write_move_def owned_perform_move split: sum.splits option.splits)
qed

lemma owned_regroup:
  assumes "owned T run wd" and "regroup std key_of t source value blob wd = Inr (wd', blob', dirty)"
  shows "owned T run wd'"
  using assms
  by (auto simp: regroup_def regroup_singleton_def regroup_collection_def Let_def split: if_splits option.splits)

lemma owned_grouping:
  assumes "owned T run wd" and "tk_id t \<in> T"
  shows "owned T run (fst (apply_grouping_correction std key_of run t ops wd))"
proof (cases "\<exists>op u. ops = [op] \<and> correction_source wd t op = Inr u")
  case True
  then obtain op u where ops: "ops = [op]" and u: "correction_source wd t op = Inr u" by blast
  let ?blob = "correction_blob t u op" and ?jid = "next_id fj_id (wd_journals wd)"
  let ?wd = "add_journal (journal_row run t (U ''grouping'') FJ_WRITING ?blob) wd"
  have o: "owned T run ?wd" using assms by (intro owned_add) (simp_all add: journal_row_def phases_def)
  show ?thesis
  proof (cases "regroup std key_of t (wu_id u) (o_proposed op) ?blob ?wd")
    case (Inl e)
    have "owned T run (edit_journal ?jid (\<lambda>j. j\<lparr>fj_state := FJ_FAILED, fj_error := Some e\<rparr>) ?wd)"
      by (rule owned_edit [OF o]) (simp add: same_row_def)
    then show ?thesis using Inl by (simp add: apply_grouping_correction_def ops u Let_def)
  next
    case (Inr r)
    obtain wd' blob' dirty where r: "r = (wd', blob', dirty)" by (cases r)
    have "owned T run (finish_correction ?jid r)"
      unfolding finish_correction_def r prod.case
      by (rule owned_edit) (use owned_regroup [OF o, of std key_of t] Inr r in \<open>auto simp: same_row_def\<close>)
    then show ?thesis using Inr by (simp add: apply_grouping_correction_def ops u Let_def)
  qed
next
  case False
  then show ?thesis
    using assms by (auto simp: apply_grouping_correction_def split: list.splits sum.splits)
qed

section \<open>One file\<close>

text \<open>The world and the track that a step of the loop leaves.\<close>

fun progress_world :: "'w progress \<Rightarrow> 'w world" where
  "progress_world (Passed wd) = wd"
| "progress_world (Applied tid wd) = wd"
| "progress_world (Broken tid e wd) = wd"

fun progress_track :: "'w progress \<Rightarrow> int option" where
  "progress_track (Passed wd) = None"
| "progress_track (Applied tid wd) = Some tid"
| "progress_track (Broken tid e wd) = Some tid"

lemma fail_entry_progress [simp]:
  "progress_world (fail_entry k tid ids s e wd) = set_entry k (U ''failed'') (Some e) (set_tries ids s (Some e) wd)"
  "progress_track (fail_entry k tid ids s e wd) = Some tid"
  by (simp_all add: fail_entry_def)

lemma get_track_id: "get_track wd i = Some t \<Longrightarrow> tk_id t = i"
  by (auto simp: get_track_def dest: find_row_Some)

lemma owned_move_step:
  assumes "owned T run wd" and "tk_id t \<in> T" and "se_run se = run"
  shows "owned T run (progress_world (move_step se k t tag_ops move_ops it wd)) \<and>
         progress_track (move_step se k t tag_ops move_ops it wd) = Some (tk_id t)"
proof (cases move_ops)
  case (Cons op ops)
  define now where "now = (case get_track wd (tk_id t) of None \<Rightarrow> t | Some x \<Rightarrow> x)"
  have "tk_id now \<in> T" using assms(2) by (auto simp: now_def dest: get_track_id split: option.splits)
  then have "owned T run (fst (write_move (se_disk se) run now d g wd))" for d g
    by (rule owned_write_move [OF assms(1)])
  then show ?thesis
    using assms by (auto simp: move_step_def Cons Let_def now_def [symmetric] split: prod.splits option.splits)
      (metis fst_conv)+
qed (use assms in \<open>simp add: move_step_def Let_def\<close>)

lemma owned_file_step:
  assumes "owned T run wd" and "tk_id t \<in> T" and "se_run se = run"
  shows "owned T run (progress_world (file_step se k t ops it wd)) \<and>
         progress_track (file_step se k t ops it wd) = Some (tk_id t)"
proof (cases "filter (\<lambda>op. \<not> is_move op) ops = []")
  case True
  then show ?thesis using owned_move_step [OF assms] by (simp add: file_step_def Let_def)
next
  case False
  let ?tags = "filter (\<lambda>op. \<not> is_move op) ops"
  obtain wd1 r where w: "write_tag_fields (se_disk se) run t (tag_plan_of ?tags) it wd = (wd1, r)" by fastforce
  then have o: "owned T run wd1" using owned_write_tags [OF assms(1,2)] by (metis fst_conv)
  then show ?thesis
    using False w owned_move_step [of T run "set_tries (op_ids ?tags) TRY_APPLIED None wd1" t se] assms
    by (cases r) (simp_all add: file_step_def Let_def)
qed

lemma owned_apply_entry:
  assumes "owned T run wd" and "se_run se = run"
  shows "owned (T \<union> set_option (progress_track (apply_entry se k wd))) run (progress_world (apply_entry se k wd))"
proof -
  let ?f = "wd_files wd ! k"
  let ?retry = "filter (\<lambda>i. tried wd TRY_PENDING i \<or> tried wd TRY_FAILED i) (fe_ops ?f)"
  have mono: "owned (insert i T) run wd" for i using owned_mono [OF assms(1)] by blast
  show ?thesis
  proof (cases "?retry = []")
    case True
    then show ?thesis using assms(1) by (simp add: apply_entry_def Let_def)
  next
    case retry: False
    show ?thesis
    proof (cases "get_track wd (fe_track ?f)")
      case None
      then show ?thesis using retry mono by (simp add: apply_entry_def Let_def)
    next
      case (Some t)
      let ?ops = "List.map_filter (find_operation wd) ?retry"
      have id: "tk_id t = fe_track ?f" by (rule get_track_id [OF Some])
      have o: "owned (insert (fe_track ?f) T) run wd" by (rule mono)
      show ?thesis
      proof (cases "\<exists>op\<in>set ?ops. o_kind op = GROUPING_CORRECTION")
        case True
        obtain wd1 r where g: "apply_grouping_correction (se_std se) (se_key se) run t ?ops wd = (wd1, r)" by fastforce
        then have "owned (insert (fe_track ?f) T) run wd1"
          using owned_grouping [OF o, of t] id by (metis fst_conv insertI1)
        then show ?thesis
          using retry Some True g o id assms(2)
          by (cases r) (simp_all add: apply_entry_def Let_def grouping_step_def)
      next
        case False
        then show ?thesis
          using retry Some o id owned_file_step [OF o _ assms(2), of t k ?ops]
          by (cases "expected_source run ?f (entry_operations wd ?f) wd")
             (simp_all add: apply_entry_def Let_def assms(2))
      qed
    qed
  qed
qed

section \<open>The loop\<close>

definition outcome_tracks :: "'w outcome \<Rightarrow> int set" where
  "outcome_tracks oc = set (oc_applied oc) \<union> set_option (oc_failed oc)"

lemma owned_note_applied:
  assumes "note_applied k applied wd = (applied1, wd1)" and "owned (set applied) run wd"
  shows "owned (set applied1) run wd1 \<and> set applied \<subseteq> set applied1"
  using assms by (auto simp: note_applied_def Let_def split: if_splits intro: owned_mono)

lemma owned_apply_files:
  assumes "owned (set applied) run wd" and "se_run se = run"
  shows "owned (outcome_tracks (apply_files se cancel ks applied wd)) run (oc_world (apply_files se cancel ks applied wd))"
  using assms(1)
proof (induction ks arbitrary: applied wd)
  case Nil
  then show ?case by (simp add: outcome_tracks_def)
next
  case (Cons k ks)
  obtain applied1 wd1 where n: "note_applied k applied wd = (applied1, wd1)" by fastforce
  have o: "owned (set applied1) run wd1" using owned_note_applied [OF n Cons.prems] by blast
  have e: "owned (set applied1 \<union> set_option (progress_track (apply_entry se k wd1))) run (progress_world (apply_entry se k wd1))"
    by (rule owned_apply_entry [OF o assms(2)])
  show ?case
  proof (cases "cancel k \<or> completed (wd_files wd1 ! k)")
    case True
    then show ?thesis using Cons.prems o Cons.IH n by (auto simp: outcome_tracks_def)
  next
    case False
    then show ?thesis
      using e Cons.IH n by (cases "apply_entry se k wd1") (simp_all add: outcome_tracks_def insert_commute)
  qed
qed

end
