(* ===== verification/ApplyRollbackFacts.thy ===== *)
theory ApplyRollbackFacts
  imports ApplyFacts
begin

text \<open>
  What a completed rollback has done: every journal row of the files it was given is settled, no other row
  changes its state, and no track appears or disappears.
\<close>

section \<open>Settled rows\<close>

text \<open>Rows keep what they are about; a state changes to \<open>rolled_back\<close> only; the rows in \<open>S\<close> are settled.\<close>

definition undoes :: "int set \<Rightarrow> journal list \<Rightarrow> journal list \<Rightarrow> bool" where
  "undoes S js js' \<longleftrightarrow>
     list_all2 (\<lambda>j j'. same_row j j' \<and> (fj_state j' = fj_state j \<or> fj_state j' = FJ_ROLLED_BACK)
                       \<and> (fj_id j \<in> S \<longrightarrow> \<not> reversible j')) js js'"

lemma same_row_trans: "same_row a b \<Longrightarrow> same_row b c \<Longrightarrow> same_row a c"
  by (simp add: same_row_def)

lemma reversible_settled:
  "same_row j j' \<Longrightarrow> fj_state j' = fj_state j \<or> fj_state j' = FJ_ROLLED_BACK \<Longrightarrow> \<not> reversible j \<Longrightarrow> \<not> reversible j'"
  by (auto simp: reversible_def same_row_def)

lemma undoes_same: "(\<And>j. j \<in> set js \<Longrightarrow> fj_id j \<in> S \<Longrightarrow> \<not> reversible j) \<Longrightarrow> undoes S js js"
  by (simp add: undoes_def list_all2_same)

lemma undoes_empty [simp]: "undoes {} js js"
  by (rule undoes_same) simp

lemma undoes_trans:
  assumes "undoes S a b" and "undoes S' b c"
  shows "undoes (S \<union> S') a c"
  using assms unfolding undoes_def
proof (rule list_all2_trans [rotated 1])
  fix x y z
  assume "same_row x y \<and> (fj_state y = fj_state x \<or> fj_state y = FJ_ROLLED_BACK) \<and> (fj_id x \<in> S \<longrightarrow> \<not> reversible y)"
    and "same_row y z \<and> (fj_state z = fj_state y \<or> fj_state z = FJ_ROLLED_BACK) \<and> (fj_id y \<in> S' \<longrightarrow> \<not> reversible z)"
  then show "same_row x z \<and> (fj_state z = fj_state x \<or> fj_state z = FJ_ROLLED_BACK) \<and>
      (fj_id x \<in> S \<union> S' \<longrightarrow> \<not> reversible z)"
    using reversible_settled [of y z] same_row_trans [of x y z] by (auto simp: same_row_def)
qed

lemma undoes_edit:
  assumes "\<And>j. same_row j (g j)" and "\<And>j. fj_state (g j) = FJ_ROLLED_BACK"
  shows "undoes {i} js (update_where (\<lambda>j. fj_id j = i) g js)"
  using assms by (simp add: undoes_def update_where_def list_all2_map2 list_all2_same reversible_def)

lemma update_where_twice:
  "(\<And>j. fj_id (h j) = fj_id j) \<Longrightarrow>
     update_where (\<lambda>j. fj_id j = i) g (update_where (\<lambda>j. fj_id j = i) h js) = update_where (\<lambda>j. fj_id j = i) (g \<circ> h) js"
  by (simp add: update_where_def)

lemma undoes_ids: "undoes S js js' \<Longrightarrow> map fj_id js' = map fj_id js"
  unfolding undoes_def by (induction rule: list_all2_induct) (auto simp: same_row_def)

lemma undoes_row:
  assumes "undoes S js js'" and "j' \<in> set js'"
  obtains j where "j \<in> set js" "same_row j j'" "fj_state j' = fj_state j \<or> fj_state j' = FJ_ROLLED_BACK"
    "fj_id j \<in> S \<longrightarrow> \<not> reversible j'"
proof -
  obtain n where n: "n < length js'" "j' = js' ! n" using assms(2) by (auto simp: in_set_conv_nth)
  have "length js = length js'" using assms(1) by (simp add: undoes_def list_all2_lengthD)
  then show ?thesis
    using that [of "js ! n"] n list_all2_nthD2 [OF assms(1) [unfolded undoes_def] n(1)] by simp
qed

lemma undoes_row_back:
  assumes "undoes S js js'" and "j \<in> set js"
  obtains j' where "j' \<in> set js'" "same_row j j'"
proof -
  obtain n where n: "n < length js" "j = js ! n" using assms(2) by (auto simp: in_set_conv_nth)
  have "length js = length js'" using assms(1) by (simp add: undoes_def list_all2_lengthD)
  then show ?thesis
    using that [of "js' ! n"] n list_all2_nthD [OF assms(1) [unfolded undoes_def] n(1)] by simp
qed

section \<open>One journal row\<close>

lemma restored_same [simp]: "same_row j (restored_journal g h j)" "fj_state (restored_journal g h j) = FJ_ROLLED_BACK"
  by (simp_all add: restored_journal_def same_row_def)

lemma track_ids_edit:
  "(\<And>t. tk_id (f t) = tk_id t) \<Longrightarrow> map tk_id (wd_tracks (edit_track i f wd)) = map tk_id (wd_tracks wd)"
  by (simp add: edit_track_def update_where_keys)

lemma set_field_id [simp]: "tk_id (set_field f v t) = tk_id t"
  by (simp add: set_field_def)

lemma restore_ids [simp]:
  "tk_id (update_file_facts x h t) = tk_id t" "tk_id (relocate dk x path h t) = tk_id t"
  "tk_id (restore_lyrics b t) = tk_id t" "tk_id (restore_art b t) = tk_id t"
  by (simp_all add: update_file_facts_def relocate_def restore_lyrics_def restore_art_def Let_def split: prod.splits option.splits)

lemma fold_set_field_id: "tk_id (fold (\<lambda>(k, v). set_field k v) kvs t) = tk_id t"
  by (induction kvs arbitrary: t) auto

lemma restore_fields_id [simp]: "tk_id (restore_fields b t) = tk_id t"
  by (simp add: restore_fields_def fold_set_field_id)

lemma journal_edit_tracks [simp]: "wd_tracks (edit_journal i f wd) = wd_tracks wd"
  by (simp add: edit_journal_def)

lemma unit_edit_tracks [simp]:
  "wd_tracks (edit_unit i f wd) = wd_tracks wd" "wd_tracks (recount_groups gs wd) = wd_tracks wd"
  "wd_tracks (restore_pin a b wd) = wd_tracks wd"
  by (simp_all add: edit_unit_def recount_groups_def restore_pin_def)

text \<open>A step that has rolled back a row.\<close>

definition rolled_row :: "int \<Rightarrow> 'w world \<Rightarrow> 'w world \<Rightarrow> bool" where
  "rolled_row jid wd wd' \<longleftrightarrow>
     undoes {jid} (wd_journals wd) (wd_journals wd') \<and> map tk_id (wd_tracks wd') = map tk_id (wd_tracks wd)"

lemma raised_not_rolled [simp]: "raised jid e base w \<noteq> Rolled b wd'"
  by (simp add: raised_def)

lemma restore_tags_rolled:
  assumes "restore_tags dk t j base wd = Rolled b wd'"
  shows "rolled_row (fj_id j) wd wd'"
proof -
  obtain g h w f where wd': "wd' = edit_track (tk_id t) f (edit_journal (fj_id j) (restored_journal g h) (wd\<lparr>wd_disk := w\<rparr>))"
    and f: "\<And>x. tk_id (f x) = tk_id x"
    using assms by (auto simp: restore_tags_def Let_def split: if_splits sum.splits reversal.splits option.splits)
  show ?thesis
    unfolding rolled_row_def wd' by (simp add: undoes_edit track_ids_edit [OF f])
qed

lemma moved_back_rolled: "wd_journals wd0 = wd_journals wd \<Longrightarrow> wd_tracks wd0 = wd_tracks wd \<Longrightarrow>
    rolled_row (fj_id j) wd (moved_back dk j x before g h wd0)"
  unfolding rolled_row_def moved_back_def
  by (simp add: track_ids_edit) (rule undoes_edit, simp_all add: restored_journal_def same_row_def)

lemma reconcile_rolled:
  assumes "reconcile_move dk run t j before after base wd = Rolled b wd'"
  shows "rolled_row (fj_id j) wd wd'"
  using assms
  by (auto simp: reconcile_move_def moved_back_rolled split: sum.splits reversal.splits option.splits)

lemma return_rolled:
  assumes "return_move dk run t j before after base wd = Rolled b wd'"
  shows "rolled_row (fj_id j) wd wd'"
proof -
  define wd1 where "wd1 = (if dk_case_only dk after before
    then edit_journal (fj_id j) (\<lambda>x. x\<lparr>fj_state := FJ_WRITING\<rparr>) wd else wd)"
  obtain g h w x where wd': "wd' = moved_back dk j x before g h (wd1\<lparr>wd_disk := w\<rparr>)"
    using assms unfolding wd1_def
    by (auto simp: return_move_def Let_def split: sum.splits reversal.splits option.splits if_splits)
  show ?thesis
  proof (cases "dk_case_only dk after before")
    case True
    then show ?thesis
      unfolding wd' wd1_def rolled_row_def moved_back_def
      by (simp add: track_ids_edit update_where_twice)
        (rule undoes_edit, simp_all add: restored_journal_def same_row_def)
  next
    case False
    then show ?thesis unfolding wd' wd1_def by (simp add: moved_back_rolled)
  qed
qed

lemma undo_grouping_rolled:
  assumes "undo_grouping j wd = Inr wd'"
  shows "rolled_row (fj_id j) wd wd'"
  using assms
  by (auto simp: undo_grouping_def Let_def rolled_row_def track_ids_edit same_row_def intro!: undoes_edit split: if_splits)

lemma roll_journal_rolled:
  assumes "roll_journal dk run tid jid base wd = Rolled b wd'" and "get_track wd tid \<noteq> None"
    and "distinct (map fj_id (wd_journals wd))"
    and "\<And>j. j \<in> set (wd_journals wd) \<Longrightarrow> fj_id j = jid \<Longrightarrow> fj_phase j \<in> phases"
  shows "rolled_row jid wd wd'"
proof (cases "find_journal wd jid")
  case None
  then have "jid \<notin> fj_id ` set (wd_journals wd)" by (simp add: find_journal_def find_row_None)
  then show ?thesis
    using assms(1) None by (auto simp: roll_journal_def rolled_row_def intro!: undoes_same)
next
  case (Some j)
  then have j: "j \<in> set (wd_journals wd)" "fj_id j = jid" by (auto simp: find_journal_def dest: find_row_Some)
  obtain t where t: "get_track wd tid = Some t" using assms(2) by blast
  show ?thesis
  proof (cases "reversible j")
    case False
    have "x = j" if "x \<in> set (wd_journals wd)" "fj_id x = jid" for x
      using that j assms(3) by (auto simp: distinct_map inj_on_def)
    then show ?thesis
      using assms(1) Some t False by (auto simp: roll_journal_def rolled_row_def intro!: undoes_same)
  next
    case True
    have "fj_phase j \<in> phases" using assms(4) j by blast
    then consider "fj_phase j = U ''move''" | "fj_phase j \<noteq> U ''move''" "fj_phase j = U ''tags''"
      | "fj_phase j \<noteq> U ''move''" "fj_phase j \<noteq> U ''tags''" "fj_phase j = U ''grouping''"
      unfolding phases_def by blast
    then show ?thesis
    proof cases
      case 1
      then show ?thesis
        using assms(1) Some t True j reconcile_rolled [of dk run t j _ _ base wd b wd'] return_rolled [of dk run t j _ _ base wd b wd']
        by (auto simp: roll_journal_def simp del: U_Cons U_Nil split: option.splits if_splits)
    next
      case 2
      then show ?thesis
        using assms(1) Some t True j restore_tags_rolled [of dk t j base wd b wd']
        by (simp add: roll_journal_def del: U_Cons U_Nil)
    next
      case 3
      then show ?thesis
        using assms(1) Some t True j undo_grouping_rolled [of j wd]
        by (auto simp: roll_journal_def simp del: U_Cons U_Nil split: sum.splits)
    qed
  qed
qed

section \<open>Files\<close>

lemma rolled_row_owned:
  assumes "rolled_row jid wd wd'" and "owned T run wd"
  shows "owned T run wd'"
proof -
  have u: "undoes {jid} (wd_journals wd) (wd_journals wd')" using assms(1) by (simp add: rolled_row_def)
  have "fj_track j' \<in> T \<and> fj_phase j' \<in> phases" if "j' \<in> set (wd_journals wd')" "fj_run j' = run" for j'
    using undoes_row [OF u that(1)] assms(2) that(2) unfolding owned_def same_row_def by metis
  then show ?thesis using undoes_ids [OF u] assms(2) by (simp add: owned_def)
qed

lemma get_track_kept:
  "map tk_id (wd_tracks wd') = map tk_id (wd_tracks wd) \<Longrightarrow> get_track wd' i = None \<longleftrightarrow> get_track wd i = None"
  unfolding get_track_def find_row_None by (metis list.set_map)

lemma roll_journals_rolled:
  assumes "roll_journals dk run tid jids base wd = Rolled b wd'" and "get_track wd tid \<noteq> None" and "owned T run wd"
    and "\<And>j. j \<in> set (wd_journals wd) \<Longrightarrow> fj_id j \<in> set jids \<Longrightarrow> fj_run j = run"
  shows "undoes (set jids) (wd_journals wd) (wd_journals wd') \<and> map tk_id (wd_tracks wd') = map tk_id (wd_tracks wd)
         \<and> owned T run wd'"
  using assms
proof (induction jids arbitrary: base wd)
  case Nil
  then show ?case by (simp add: undoes_same)
next
  case (Cons jid jids)
  obtain base1 wd1 where r: "roll_journal dk run tid jid base wd = Rolled base1 wd1"
    using Cons.prems(1) by (auto split: rolled.splits)
  have ph: "fj_phase j \<in> phases" if "j \<in> set (wd_journals wd)" "fj_id j = jid" for j
    using Cons.prems(3,4) that by (auto simp: owned_def)
  have row: "rolled_row jid wd wd1"
    using roll_journal_rolled [OF r Cons.prems(2) _ ph] Cons.prems(3) by (simp add: owned_def)
  then have u: "undoes {jid} (wd_journals wd) (wd_journals wd1)" and t: "map tk_id (wd_tracks wd1) = map tk_id (wd_tracks wd)"
    by (simp_all add: rolled_row_def)
  have run1: "fj_run j' = run" if "j' \<in> set (wd_journals wd1)" "fj_id j' \<in> set jids" for j'
    using undoes_row [OF u that(1)] Cons.prems(4) that(2) unfolding same_row_def by (metis list.set_intros(2))
  have "undoes (set jids) (wd_journals wd1) (wd_journals wd') \<and> map tk_id (wd_tracks wd') = map tk_id (wd_tracks wd1)
        \<and> owned T run wd'"
    by (rule Cons.IH [of base1]) (use Cons.prems r row run1 get_track_kept [OF t] rolled_row_owned in auto)
  then show ?case using undoes_trans [OF u, of "set jids"] t by simp
qed

definition journal_ids :: "'w world \<Rightarrow> int \<Rightarrow> int set \<Rightarrow> int set" where
  "journal_ids wd run S = fj_id ` {j \<in> set (wd_journals wd). fj_run j = run \<and> fj_track j \<in> S}"

lemma journal_ids_undoes:
  assumes "undoes S (wd_journals wd) (wd_journals wd')"
  shows "journal_ids wd' run A = journal_ids wd run A"
proof -
  have "\<exists>j\<in>set (wd_journals wd). same_row j j'" if "j' \<in> set (wd_journals wd')" for j'
    using undoes_row [OF assms that] by blast
  moreover have "\<exists>j'\<in>set (wd_journals wd'). same_row j j'" if "j \<in> set (wd_journals wd)" for j
    using undoes_row_back [OF assms that] by blast
  ultimately show ?thesis
    unfolding journal_ids_def same_row_def image_def by fastforce
qed

lemma roll_tracks_rolled:
  assumes "roll_tracks dk run tids wd = (wd', None)" and "owned T run wd"
  shows "undoes (journal_ids wd run (set tids)) (wd_journals wd) (wd_journals wd')"
  using assms
proof (induction tids arbitrary: wd)
  case Nil
  then show ?case by (simp add: undoes_same journal_ids_def)
next
  case (Cons tid tids)
  let ?jids = "map fj_id (rev (journals_of wd run tid))"
  have t: "get_track wd tid \<noteq> None" using Cons.prems(1) by (auto split: if_splits)
  obtain b wd1 where r: "roll_journals dk run tid ?jids wd wd = Rolled b wd1"
    and rest: "roll_tracks dk run tids (finalize_all dk ?jids wd1) = (wd', None)"
    using Cons.prems(1) t by (auto simp: Let_def split: rolled.splits)
  have ids: "set ?jids = journal_ids wd run {tid}" by (auto simp: journals_of_def journal_ids_def)
  have run: "fj_run j = run" if "j \<in> set (wd_journals wd)" "fj_id j \<in> set ?jids" for j
    using that Cons.prems(2) by (auto simp: journals_of_def owned_def distinct_map inj_on_def)
  have u: "undoes (set ?jids) (wd_journals wd) (wd_journals wd1)" and o: "owned T run wd1"
    using roll_journals_rolled [OF r t Cons.prems(2) run] by simp_all
  have "undoes (journal_ids (finalize_all dk ?jids wd1) run (set tids)) (wd_journals wd1) (wd_journals wd')"
    using Cons.IH [OF rest] o by (simp add: owned_def)
  moreover have "journal_ids (finalize_all dk ?jids wd1) run (set tids) = journal_ids wd run (set tids)"
    using journal_ids_undoes [OF u] by (simp add: journal_ids_def)
  ultimately have "undoes (journal_ids wd run {tid} \<union> journal_ids wd run (set tids)) (wd_journals wd) (wd_journals wd')"
    using undoes_trans [OF u [unfolded ids]] by simp
  moreover have "journal_ids wd run {tid} \<union> journal_ids wd run (set tids) = journal_ids wd run (set (tid # tids))"
    by (auto simp: journal_ids_def)
  ultimately show ?case by simp
qed

end
