(* ===== verification/ApplyProgress.thy ===== *)
theory ApplyProgress
  imports ApplyRollbackFacts
begin

text \<open>
  The attempts of operations during the loop over files: a file that the loop passes has all its operations
  applied, so that a loop without an error ends with every attempt applied.
\<close>

section \<open>Attempts\<close>

text \<open>Attempts of operations in \<open>S\<close> are applied, the others are as before or applied.\<close>

definition advance :: "int set \<Rightarrow> op_try list \<Rightarrow> op_try list \<Rightarrow> bool" where
  "advance S as as' \<longleftrightarrow>
     list_all2 (\<lambda>a a'. ot_operation a' = ot_operation a
       \<and> (ot_state a' = TRY_APPLIED \<or> ot_operation a \<notin> S \<and> ot_state a' = ot_state a)) as as'"

lemma advance_refl: "advance {} as as"
  by (simp add: advance_def list_all2_same)

lemma advance_same: "(\<And>a. a \<in> set as \<Longrightarrow> ot_operation a \<in> S \<Longrightarrow> ot_state a = TRY_APPLIED) \<Longrightarrow> advance S as as"
  by (auto simp: advance_def list_all2_same)

lemma advance_trans:
  assumes "advance S a b" and "advance S' b c"
  shows "advance (S \<union> S') a c"
  using assms unfolding advance_def
proof (rule list_all2_trans [rotated 1])
  fix x y z
  assume "ot_operation y = ot_operation x \<and> (ot_state y = TRY_APPLIED \<or> ot_operation x \<notin> S \<and> ot_state y = ot_state x)"
    and "ot_operation z = ot_operation y \<and> (ot_state z = TRY_APPLIED \<or> ot_operation y \<notin> S' \<and> ot_state z = ot_state y)"
  then show "ot_operation z = ot_operation x \<and>
      (ot_state z = TRY_APPLIED \<or> ot_operation x \<notin> S \<union> S' \<and> ot_state z = ot_state x)"
    by auto
qed

lemma advance_set_tries: "advance (set is) (wd_tries wd) (wd_tries (set_tries is TRY_APPLIED e wd))"
  by (simp add: set_tries_def advance_def update_where_def list_all2_map2 list_all2_same)

lemma advance_mem:
  assumes "advance S as as'" and "a' \<in> set as'"
  obtains a where "a \<in> set as" "ot_operation a' = ot_operation a"
    "ot_state a' = TRY_APPLIED \<or> ot_operation a \<notin> S \<and> ot_state a' = ot_state a"
proof -
  obtain n where n: "n < length as'" "a' = as' ! n" using assms(2) by (auto simp: in_set_conv_nth)
  have "length as = length as'" using assms(1) by (simp add: advance_def list_all2_lengthD)
  then show ?thesis
    using that [of "as ! n"] n list_all2_nthD2 [OF assms(1) [unfolded advance_def] n(1)] by simp
qed

lemma advance_Nil: "advance S as as' \<Longrightarrow> as' = [] \<longleftrightarrow> as = []"
  by (auto simp: advance_def)

section \<open>Frames\<close>

lemma tries_frames [frame, simp]:
  "wd_tries (edit_track i tf wd) = wd_tries wd" "wd_tries (edit_unit i uf wd) = wd_tries wd"
  "wd_tries (edit_journal i jf wd) = wd_tries wd" "wd_tries (add_journal j wd) = wd_tries wd"
  "wd_tries (set_entry k st e wd) = wd_tries wd" "wd_tries (recount_groups gs wd) = wd_tries wd"
  "wd_tries (put_member tid u wd) = wd_tries wd" "wd_tries (restore_pin a b wd) = wd_tries wd"
  "wd_tries (finish_journal jid g h wd) = wd_tries wd" "wd_tries (start_tag_journal r t bl wd) = wd_tries wd"
  "wd_tries (start_move_journal r t d g wd) = wd_tries wd" "wd_tries (fail_new_journal r t ph m wd) = wd_tries wd"
  by (simp_all add: edit_track_def edit_unit_def edit_journal_def add_journal_def set_entry_def recount_groups_def
      put_member_def restore_pin_def finish_journal_def start_tag_journal_def start_move_journal_def fail_new_journal_def)

lemma files_frames [frame, simp]:
  "wd_files (edit_track i tf wd) = wd_files wd" "wd_files (edit_unit i uf wd) = wd_files wd"
  "wd_files (edit_journal i jf wd) = wd_files wd" "wd_files (add_journal j wd) = wd_files wd"
  "wd_files (set_tries is s e wd) = wd_files wd" "wd_files (recount_groups gs wd) = wd_files wd"
  "wd_files (put_member tid u wd) = wd_files wd" "wd_files (restore_pin a b wd) = wd_files wd"
  "wd_files (finish_journal jid g h wd) = wd_files wd" "wd_files (start_tag_journal r t bl wd) = wd_files wd"
  "wd_files (start_move_journal r t d g wd) = wd_files wd" "wd_files (fail_new_journal r t ph m wd) = wd_files wd"
  by (simp_all add: edit_track_def edit_unit_def edit_journal_def add_journal_def set_tries_def recount_groups_def
      put_member_def restore_pin_def finish_journal_def start_tag_journal_def start_move_journal_def fail_new_journal_def)

text \<open>The writers touch neither attempts nor entries nor the tables of reviews.\<close>

definition same_plan :: "'w world \<Rightarrow> 'w world \<Rightarrow> bool" where
  "same_plan wd wd' \<longleftrightarrow> wd_tries wd' = wd_tries wd \<and> wd_files wd' = wd_files wd \<and> wd_db wd' = wd_db wd"

lemma writer_db_frames [simp]:
  "wd_db (finish_journal jid g h wd) = wd_db wd" "wd_db (start_tag_journal r t bl wd) = wd_db wd"
  "wd_db (start_move_journal r t d g wd) = wd_db wd" "wd_db (fail_new_journal r t ph m wd) = wd_db wd"
  by (simp_all add: finish_journal_def start_tag_journal_def start_move_journal_def fail_new_journal_def)

lemma persist_plan: "same_plan wd0 wd \<Longrightarrow> same_plan wd0 (fst (persist_failure jid e r wd))"
  by (simp add: persist_failure_def same_plan_def)

lemma publish_plan: "same_plan wd (fst (publish_tags dk jid t g p wd))"
  by (auto simp: publish_tags_def Let_def same_plan_def persist_failure_def split: effect.splits sum.splits)

lemma same_plan_trans: "same_plan a b \<Longrightarrow> same_plan b c \<Longrightarrow> same_plan a c"
  by (simp add: same_plan_def)

lemma write_tags_plan: "same_plan wd (fst (write_tag_fields dk run t p it wd))"
proof -
  have "same_plan wd (fst (publish_tags dk jid t g p (start_tag_journal run t bl wd)))" for jid g bl
    by (rule same_plan_trans [OF _ publish_plan]) (simp add: same_plan_def)
  then show ?thesis
    by (auto simp: write_tag_fields_def Let_def same_plan_def simp del: U_Cons U_Nil split: sum.splits option.splits)
qed

lemma move_plan: "same_plan wd (fst (perform_move dk jid t d g wd))"
  by (auto simp: perform_move_def Let_def same_plan_def persist_failure_def split: effect.splits sum.splits)

lemma write_move_plan: "same_plan wd (fst (write_move dk run t d g wd))"
proof -
  have "same_plan wd (fst (perform_move dk jid t x g (start_move_journal run t x g wd)))" for jid x
    by (rule same_plan_trans [OF _ move_plan]) (simp add: same_plan_def)
  then show ?thesis
    by (auto simp: write_move_def same_plan_def split: sum.splits option.splits)
qed

lemma regroup_plan: "regroup std key_of t source value blob wd = Inr (wd', b, dirty) \<Longrightarrow> same_plan wd wd'"
  by (auto simp: regroup_def regroup_singleton_def regroup_collection_def Let_def same_plan_def
      split: if_splits option.splits)

section \<open>One file\<close>

definition stepped :: "int set \<Rightarrow> 'w world \<Rightarrow> 'w world \<Rightarrow> bool" where
  "stepped S wd wd' \<longleftrightarrow>
     advance S (wd_tries wd) (wd_tries wd') \<and> map fe_ops (wd_files wd') = map fe_ops (wd_files wd) \<and> wd_db wd' = wd_db wd"

lemma stepped_trans: "stepped S a b \<Longrightarrow> stepped S' b c \<Longrightarrow> stepped (S \<union> S') a c"
  unfolding stepped_def using advance_trans by fastforce

lemma set_entry_ops [simp]: "map fe_ops (wd_files (set_entry k st e wd)) = map fe_ops (wd_files wd)"
proof (cases "k < length (wd_files wd)")
  case True
  then have "(map fe_ops (wd_files wd))[k := fe_ops (wd_files wd ! k)] = map fe_ops (wd_files wd)"
    by (metis length_map list_update_id nth_map)
  then show ?thesis by (simp add: set_entry_def map_update)
qed (simp add: set_entry_def list_update_beyond)

lemma stepped_plan: "same_plan wd wd' \<Longrightarrow> stepped {} wd wd'"
  by (simp add: same_plan_def stepped_def advance_refl)

lemma stepped_entry: "stepped S wd wd' \<Longrightarrow> stepped S wd (set_entry k st e wd')"
  by (simp add: stepped_def)

lemma stepped_tries: "stepped (set is) wd (set_tries is TRY_APPLIED e wd)"
  by (simp add: stepped_def advance_set_tries)

lemma stepped_write:
  assumes "same_plan wd wd1"
  shows "stepped (set is) wd (set_entry k st e (set_tries is TRY_APPLIED e' wd1))"
  using stepped_trans [OF stepped_plan [OF assms] stepped_entry [OF stepped_tries]] by simp

lemma fail_entry_not [simp]: "fail_entry k tid ids s e wd \<noteq> Applied i wd'" "fail_entry k tid ids s e wd \<noteq> Passed wd'"
  by (simp_all add: fail_entry_def)

lemma move_step_applied:
  assumes "move_step se k t tag_ops move_ops it wd = Applied tid wd'"
  shows "stepped (set (op_ids move_ops)) wd wd'"
proof (cases move_ops)
  case Nil
  then have wd': "wd' = set_entry k (U ''applied'') None wd"
    using assms by (simp add: move_step_def Let_def del: U_Cons U_Nil)
  show ?thesis
    unfolding wd' Nil op_ids_def by (simp, rule stepped_entry, rule stepped_plan) (simp add: same_plan_def)
next
  case (Cons op ops)
  define now where "now = (case get_track wd (tk_id t) of None \<Rightarrow> t | Some x \<Rightarrow> x)"
  obtain d g wd1 where w: "write_move (se_disk se) (se_run se) now d g wd = (wd1, None)"
    and wd': "wd' = set_entry k (U ''applied'') None (set_tries (op_ids move_ops) TRY_APPLIED None wd1)"
    using assms Cons
    by (auto simp: move_step_def Let_def now_def [symmetric] simp del: U_Cons U_Nil split: if_splits prod.splits option.splits)
  have "same_plan wd wd1" using write_move_plan [of wd "se_disk se" "se_run se" now d g] by (simp add: w)
  then show ?thesis unfolding wd' by (rule stepped_write)
qed

lemma move_step_not_passed [simp]: "move_step se k t tag_ops move_ops it wd \<noteq> Passed wd'"
  by (auto simp: move_step_def Let_def split: list.splits prod.splits option.splits)

lemma op_ids_split: "set (op_ids (filter (\<lambda>op. \<not> P op) ops)) \<union> set (op_ids (filter P ops)) = set (op_ids ops)"
  by (auto simp: op_ids_def)

lemma file_step_applied:
  assumes "file_step se k t ops it wd = Applied tid wd'"
  shows "stepped (set (op_ids ops)) wd wd'"
proof (cases "filter (\<lambda>op. \<not> is_move op) ops = []")
  case True
  then have "filter is_move ops = ops" by (auto simp: filter_empty_conv filter_id_conv)
  then show ?thesis using assms True move_step_applied [of se k t "[]" ops it wd tid wd'] by (simp add: file_step_def Let_def)
next
  case False
  let ?tags = "filter (\<lambda>op. \<not> is_move op) ops"
  obtain wd1 where w: "write_tag_fields (se_disk se) (se_run se) t (tag_plan_of ?tags) it wd = (wd1, None)"
    and m: "move_step se k t ?tags (filter is_move ops) it (set_tries (op_ids ?tags) TRY_APPLIED None wd1) = Applied tid wd'"
    using assms False by (auto simp: file_step_def Let_def split: prod.splits option.splits)
  have "same_plan wd wd1"
    using write_tags_plan [of wd "se_disk se" "se_run se" t "tag_plan_of ?tags" it] by (simp add: w)
  then have "stepped (set (op_ids ?tags)) wd (set_tries (op_ids ?tags) TRY_APPLIED None wd1)"
    using stepped_trans [OF stepped_plan stepped_tries] by fastforce
  from stepped_trans [OF this move_step_applied [OF m]] show ?thesis by (simp only: op_ids_split)
qed

lemma file_step_not_passed [simp]: "file_step se k t ops it wd \<noteq> Passed wd'"
  by (auto simp: file_step_def Let_def split: prod.splits option.splits)

lemma grouping_applied:
  assumes "apply_grouping_correction std key_of run t ops wd = (wd', None)"
  shows "stepped (set (op_ids ops)) wd wd'"
proof -
  obtain op u where ops: "ops = [op]" and u: "correction_source wd t op = Inr u"
    using assms by (auto simp: apply_grouping_correction_def split: list.splits sum.splits)
  let ?blob = "correction_blob t u op" and ?jid = "next_id fj_id (wd_journals wd)"
  let ?wd = "add_journal (journal_row run t (U ''grouping'') FJ_WRITING ?blob) wd"
  obtain wd1 b dirty where r: "regroup std key_of t (wu_id u) (o_proposed op) ?blob ?wd = Inr (wd1, b, dirty)"
    and wd': "wd' = set_tries [o_id op] TRY_APPLIED None (finish_correction ?jid (wd1, b, dirty))"
    using assms by (auto simp: apply_grouping_correction_def ops u Let_def simp del: U_Cons U_Nil split: sum.splits)
  have "same_plan wd (finish_correction ?jid (wd1, b, dirty))"
    using regroup_plan [OF r] by (simp add: same_plan_def finish_correction_def)
  from stepped_trans [OF stepped_plan [OF this] stepped_tries [of "[o_id op]"]] show ?thesis
    by (simp add: wd' ops op_ids_def)
qed

text \<open>Attempts before a failure: pending or applied.\<close>

definition fresh_tries :: "'w world \<Rightarrow> bool" where
  "fresh_tries wd \<longleftrightarrow> (\<forall>a\<in>set (wd_tries wd). ot_state a \<in> {TRY_PENDING, TRY_APPLIED})
     \<and> distinct (map ot_operation (wd_tries wd))"

lemma tried_iff:
  "distinct (map ot_operation (wd_tries wd)) \<Longrightarrow> a \<in> set (wd_tries wd) \<Longrightarrow> tried wd s (ot_operation a) \<longleftrightarrow> ot_state a = s"
  by (simp add: tried_def try_of_def find_row_unique)

lemma retry_complement:
  assumes "fresh_tries wd" and "a \<in> set (wd_tries wd)" and "ot_operation a \<in> set is"
    and "ot_operation a \<notin> set (filter (\<lambda>i. tried wd TRY_PENDING i \<or> tried wd TRY_FAILED i) is)"
  shows "ot_state a = TRY_APPLIED"
  using assms by (auto simp: fresh_tries_def tried_iff)

lemma op_ids_found:
  "(\<And>i. i \<in> set is \<Longrightarrow> find_operation wd i \<noteq> None) \<Longrightarrow> op_ids (List.map_filter (find_operation wd) is) = is"
proof (induction "is")
  case (Cons i "is")
  then obtain op where op: "find_operation wd i = Some op" by fastforce
  then have "o_id op = i" by (auto simp: find_operation_def dest: find_row_Some)
  then show ?case using Cons op by (simp add: op_ids_def List.map_filter_simps)
qed (simp add: op_ids_def List.map_filter_simps)

lemma apply_entry_advances:
  assumes "apply_entry se k wd = p" and "p = Passed wd' \<or> p = Applied tid wd'" and "fresh_tries wd"
    and "\<And>i. i \<in> set (fe_ops (wd_files wd ! k)) \<Longrightarrow> find_operation wd i \<noteq> None"
  shows "stepped (set (fe_ops (wd_files wd ! k))) wd wd'"
proof -
  let ?f = "wd_files wd ! k"
  let ?retry = "filter (\<lambda>i. tried wd TRY_PENDING i \<or> tried wd TRY_FAILED i) (fe_ops ?f)"
  let ?ops = "List.map_filter (find_operation wd) ?retry"
  have ids: "op_ids ?ops = ?retry" by (rule op_ids_found) (use assms(4) in auto)
  have rest: "stepped (set (fe_ops ?f)) wd wd'" if "stepped (set ?retry) wd wd'"
  proof -
    have "stepped (set (fe_ops ?f) - set ?retry) wd wd"
      unfolding stepped_def using retry_complement [OF assms(3)] by (auto intro!: advance_same)
    from stepped_trans [OF this that] show ?thesis by (simp add: Un_absorb2 subset_eq sup_commute)
  qed
  show ?thesis
  proof (cases "?retry = []")
    case True
    then have "wd' = set_entry k (if list_all (tried wd TRY_APPLIED) (fe_ops ?f) then U ''applied'' else U ''skipped'')
        (fe_error ?f) wd"
      using assms(1,2) by (auto simp: apply_entry_def Let_def)
    then have "stepped {} wd wd'" by (simp only: stepped_entry [OF stepped_plan] same_plan_def)
    then show ?thesis using rest True by simp
  next
    case retry: False
    then obtain t where t: "get_track wd (fe_track ?f) = Some t"
      using assms(1,2) by (auto simp: apply_entry_def Let_def split: option.splits)
    show ?thesis
    proof (cases "\<exists>op\<in>set ?ops. o_kind op = GROUPING_CORRECTION")
      case True
      obtain wd1 r where g: "apply_grouping_correction (se_std se) (se_key se) (se_run se) t ?ops wd = (wd1, r)" by fastforce
      have "r = None \<and> wd' = set_entry k (U ''applied'') None wd1"
        using assms(1,2) retry t True g
        by (cases r) (auto simp: apply_entry_def Let_def grouping_step_def simp del: U_Cons U_Nil split: if_splits)
      then show ?thesis using grouping_applied [of "se_std se"] g rest stepped_entry ids by metis
    next
      case False
      obtain it where "file_step se k t ?ops it wd = p"
        using assms(1,2) retry t False
        by (cases "expected_source (se_run se) ?f (entry_operations wd ?f) wd") (auto simp: apply_entry_def Let_def)
      then show ?thesis using assms(2) file_step_applied [of se k t ?ops it wd] rest ids by auto
    qed
  qed
qed

section \<open>The entries of other files\<close>

definition only_entry :: "nat \<Rightarrow> 'w world \<Rightarrow> 'w world \<Rightarrow> bool" where
  "only_entry k wd wd' \<longleftrightarrow> (\<forall>i. i \<noteq> k \<longrightarrow> wd_files wd' ! i = wd_files wd ! i)"

lemma only_set_entry: "wd_files wd' = wd_files wd \<Longrightarrow> only_entry k wd (set_entry k st e wd')"
  by (simp add: only_entry_def set_entry_def)

lemma only_refl: "only_entry k wd wd"
  by (simp add: only_entry_def)

lemma only_fail: "wd_files wd' = wd_files wd \<Longrightarrow> only_entry k wd (progress_world (fail_entry k tid ids s e wd'))"
  by (simp add: only_set_entry del: U_Cons U_Nil)

lemma only_move_step:
  assumes "wd_files wd' = wd_files wd"
  shows "only_entry k wd (progress_world (move_step se k t tag_ops move_ops it wd'))"
proof (cases move_ops)
  case (Cons op ops)
  define now where "now = (case get_track wd' (tk_id t) of None \<Rightarrow> t | Some x \<Rightarrow> x)"
  have "wd_files (fst (write_move (se_disk se) (se_run se) now d g wd')) = wd_files wd" for d g
    using write_move_plan [of wd' "se_disk se" "se_run se" now d g] assms by (simp add: same_plan_def)
  then have "only_entry k wd (set_entry k st e (set_tries is s e' (fst (write_move (se_disk se) (se_run se) now d g wd'))))"
    for st e "is" s e' d g by (rule only_set_entry [OF trans [OF files_frames(5)]])
  then show ?thesis
    using only_fail [OF assms] unfolding move_step_def Cons Let_def now_def [symmetric]
    by (auto simp: fail_entry_def simp del: U_Cons U_Nil split: prod.splits option.splits) (metis fst_conv)+
qed (simp add: move_step_def Let_def only_set_entry assms del: U_Cons U_Nil)

lemma only_file_step: "only_entry k wd (progress_world (file_step se k t ops it wd))"
proof (cases "filter (\<lambda>op. \<not> is_move op) ops = []")
  case True
  then show ?thesis by (simp add: file_step_def Let_def only_move_step)
next
  case False
  let ?tags = "filter (\<lambda>op. \<not> is_move op) ops"
  obtain wd1 r where w: "write_tag_fields (se_disk se) (se_run se) t (tag_plan_of ?tags) it wd = (wd1, r)" by fastforce
  have f: "wd_files wd1 = wd_files wd"
    using write_tags_plan [of wd "se_disk se" "se_run se" t "tag_plan_of ?tags" it] w by (simp add: same_plan_def)
  show ?thesis
    using False w f
    by (cases r) (simp_all add: file_step_def Let_def only_move_step only_set_entry tag_failure_def del: U_Cons U_Nil)
qed

lemma grouping_files: "wd_files (fst (apply_grouping_correction std key_of run t ops wd)) = wd_files wd"
proof (cases "\<exists>op u. ops = [op] \<and> correction_source wd t op = Inr u")
  case True
  then obtain op u where ops: "ops = [op]" and u: "correction_source wd t op = Inr u" by blast
  let ?blob = "correction_blob t u op"
  let ?wd = "add_journal (journal_row run t (U ''grouping'') FJ_WRITING ?blob) wd"
  show ?thesis
  proof (cases "regroup std key_of t (wu_id u) (o_proposed op) ?blob ?wd")
    case (Inl e)
    then show ?thesis by (simp add: apply_grouping_correction_def ops u Let_def del: U_Cons U_Nil)
  next
    case (Inr r)
    obtain wd1 b dirty where r: "r = (wd1, b, dirty)" by (cases r)
    have "wd_files wd1 = wd_files wd" using regroup_plan [OF Inr [unfolded r]] by (simp add: same_plan_def)
    then show ?thesis
      using Inr by (simp add: apply_grouping_correction_def ops u r Let_def finish_correction_def del: U_Cons U_Nil)
  qed
qed (auto simp: apply_grouping_correction_def split: list.splits sum.splits)

lemma only_apply_entry: "only_entry k wd (progress_world (apply_entry se k wd))"
proof -
  have g: "only_entry k wd (progress_world (grouping_step se k t ops wd))" for t ops
    using grouping_files [of "se_std se" "se_key se" "se_run se" t ops wd]
    by (auto simp: grouping_step_def only_set_entry simp del: U_Cons U_Nil split: prod.splits option.splits)
  show ?thesis
    unfolding apply_entry_def Let_def
    by (simp add: only_set_entry g only_file_step del: U_Cons U_Nil split: option.splits sum.splits)
qed

section \<open>The loop\<close>

definition ops_of :: "'w world \<Rightarrow> nat list \<Rightarrow> int set" where
  "ops_of wd ks = (\<Union>k\<in>set ks. set (fe_ops (wd_files wd ! k)))"

lemma ops_of_stepped:
  assumes "map fe_ops (wd_files wd') = map fe_ops (wd_files wd)" and "\<And>k. k \<in> set ks \<Longrightarrow> k < length (wd_files wd)"
  shows "ops_of wd' ks = ops_of wd ks"
proof -
  have "length (wd_files wd') = length (wd_files wd)" using assms(1) by (metis length_map)
  then have "fe_ops (wd_files wd' ! k) = fe_ops (wd_files wd ! k)" if "k \<in> set ks" for k
    using assms that by (metis nth_map)
  then show ?thesis by (simp add: ops_of_def)
qed

lemma fresh_stepped:
  assumes "stepped S wd wd'" and "fresh_tries wd"
  shows "fresh_tries wd'"
proof -
  have a: "advance S (wd_tries wd) (wd_tries wd')" using assms(1) by (simp add: stepped_def)
  have "map ot_operation (wd_tries wd') = map ot_operation (wd_tries wd)"
    using a unfolding advance_def by (induction rule: list_all2_induct) auto
  moreover have "ot_state a' \<in> {TRY_PENDING, TRY_APPLIED}" if "a' \<in> set (wd_tries wd')" for a'
    using advance_mem [OF a that] assms(2) unfolding fresh_tries_def by (metis insertCI)
  ultimately show ?thesis using assms(2) by (simp add: fresh_tries_def)
qed

lemma find_operation_db: "wd_db wd' = wd_db wd \<Longrightarrow> find_operation wd' i = find_operation wd i"
  by (simp add: find_operation_def)

lemma note_applied_stepped:
  assumes "note_applied k applied wd = (applied1, wd1)" and "\<not> completed (wd_files wd1 ! k)" and "k < length (wd_files wd)"
  shows "wd1 = wd"
proof (rule ccontr)
  assume "wd1 \<noteq> wd"
  then have "wd1 = set_entry k (U ''applied'') None wd"
    using assms(1) by (auto simp: note_applied_def Let_def split: if_splits)
  then show False using assms(2,3) by (simp add: completed_def set_entry_def)
qed

lemma apply_files_applies:
  assumes "oc = apply_files se cancel ks applied wd" and "oc_error oc = None" and "fresh_tries wd" and "distinct ks"
    and "\<And>k. k \<in> set ks \<Longrightarrow> k < length (wd_files wd) \<and> fe_ops (wd_files wd ! k) \<noteq> [] \<and> \<not> completed (wd_files wd ! k)"
    and "\<And>i. i \<in> ops_of wd ks \<Longrightarrow> find_operation wd i \<noteq> None"
  shows "stepped (ops_of wd ks) wd (oc_world oc)"
  using assms
proof (induction ks arbitrary: applied wd)
  case Nil
  then show ?case by (simp add: ops_of_def stepped_def advance_refl)
next
  case (Cons k ks)
  note prems = Cons.prems
  obtain applied1 wd1 where n: "note_applied k applied wd = (applied1, wd1)" by fastforce
  have k: "k < length (wd_files wd)" "\<not> completed (wd_files wd ! k)" using prems(5) by simp_all
  have go: "\<not> cancel k" using prems(1,2) by (auto split: if_splits)
  have step: "stepped (set (fe_ops (wd_files wd ! k))) wd wd2 \<and> only_entry k wd wd2 \<and>
      oc = apply_files se cancel ks ap wd2 \<Longrightarrow> ?case" for wd2 ap
  proof -
    assume s: "stepped (set (fe_ops (wd_files wd ! k))) wd wd2 \<and> only_entry k wd wd2 \<and> oc = apply_files se cancel ks ap wd2"
    then have st: "stepped (set (fe_ops (wd_files wd ! k))) wd wd2" and on: "only_entry k wd wd2" by simp_all
    have len: "length (wd_files wd2) = length (wd_files wd)" using st unfolding stepped_def by (metis length_map)
    have same: "wd_files wd2 ! i = wd_files wd ! i" if "i \<in> set ks" for i
      using on that prems(4) by (auto simp: only_entry_def)
    have ops: "ops_of wd2 ks = ops_of wd ks" using same by (simp add: ops_of_def)
    have "stepped (ops_of wd2 ks) wd2 (oc_world oc)"
      by (rule Cons.IH [of ap wd2])
        (use s prems(2,4,5,6) same len fresh_stepped [OF st prems(3)] ops find_operation_db [of wd2 wd] st
          in \<open>auto simp: stepped_def ops_of_def\<close>)
    from stepped_trans [OF st this] ops show ?case by (simp add: ops_of_def)
  qed
  show ?case
  proof (cases "completed (wd_files wd1 ! k)")
    case True
    then have wd1: "fe_ops (wd_files wd ! k) \<noteq> [] \<and> list_all (tried wd TRY_APPLIED) (fe_ops (wd_files wd ! k))
        \<and> wd1 = set_entry k (U ''applied'') None wd"
      using n k by (auto simp: note_applied_def Let_def split: if_splits)
    have "advance (set (fe_ops (wd_files wd ! k))) (wd_tries wd) (wd_tries wd)"
      using wd1 prems(3) by (intro advance_same) (auto simp: list_all_iff fresh_tries_def tried_iff)
    then have "stepped (set (fe_ops (wd_files wd ! k))) wd wd1" using wd1 by (simp add: stepped_def)
    moreover have "only_entry k wd wd1" using wd1 only_set_entry by blast
    ultimately show ?thesis using step [of wd1 applied1] prems(1) go n True by simp
  next
    case False
    have wd1: "wd1 = wd" by (rule note_applied_stepped [OF n False k(1)])
    have adv: "stepped (set (fe_ops (wd_files wd ! k))) wd wd2"
      if "apply_entry se k wd = Passed wd2 \<or> apply_entry se k wd = Applied tid wd2" for wd2 tid
      by (rule apply_entry_advances [OF refl that prems(3)]) (use prems(6) in \<open>simp add: ops_of_def\<close>)
    have only: "only_entry k wd (progress_world (apply_entry se k wd))" by (rule only_apply_entry)
    show ?thesis
    proof (cases "apply_entry se k wd")
      case (Passed wd2)
      then show ?thesis using step [of wd2 applied1] prems(1) go n False wd1 adv [of wd2] only by simp
    next
      case (Applied tid wd2)
      then show ?thesis using step [of wd2 "applied1 @ [tid]"] prems(1) go n False wd1 adv [of wd2 tid] only by simp
    next
      case (Broken tid e wd2)
      then show ?thesis using prems(1,2) go n False wd1 by simp
    qed
  qed
qed

end
