(* ===== verification/ApplyFrames.thy ===== *)
theory ApplyFrames
  imports ApplyProgress
begin

text \<open>
  The loop over the files and the rollback leave the tables of runs and reviews alone: only the end of a run
  writes them. A rollback leaves the attempts and the entries alone too.
\<close>

section \<open>The loop\<close>

lemma move_step_db: "wd_db (progress_world (move_step se k t tag_ops move_ops it wd)) = wd_db wd"
proof (cases move_ops)
  case (Cons op ops)
  define now where "now = (case get_track wd (tk_id t) of None \<Rightarrow> t | Some x \<Rightarrow> x)"
  have "wd_db (fst (write_move (se_disk se) (se_run se) now d g wd)) = wd_db wd" for d g
    using write_move_plan [of wd "se_disk se" "se_run se" now d g] by (simp add: same_plan_def)
  then show ?thesis
    unfolding move_step_def Cons Let_def now_def [symmetric]
    by (auto simp: fail_entry_def simp del: U_Cons U_Nil split: prod.splits option.splits) (metis fst_conv)+
qed (simp add: move_step_def Let_def del: U_Cons U_Nil)

lemma file_step_db: "wd_db (progress_world (file_step se k t ops it wd)) = wd_db wd"
proof (cases "filter (\<lambda>op. \<not> is_move op) ops = []")
  case True
  then show ?thesis by (simp add: file_step_def Let_def move_step_db)
next
  case False
  let ?tags = "filter (\<lambda>op. \<not> is_move op) ops"
  obtain wd1 r where w: "write_tag_fields (se_disk se) (se_run se) t (tag_plan_of ?tags) it wd = (wd1, r)" by fastforce
  then have "wd_db wd1 = wd_db wd"
    using write_tags_plan [of wd "se_disk se" "se_run se" t "tag_plan_of ?tags" it] by (simp add: same_plan_def)
  then show ?thesis
    using False w by (cases r) (simp_all add: file_step_def Let_def move_step_db del: U_Cons U_Nil)
qed

lemma grouping_db: "wd_db (fst (apply_grouping_correction std key_of run t ops wd)) = wd_db wd"
proof (cases "\<exists>op u. ops = [op] \<and> correction_source wd t op = Inr u")
  case True
  then obtain op u where ops: "ops = [op]" and u: "correction_source wd t op = Inr u" by blast
  let ?blob = "correction_blob t u op"
  let ?wd = "add_journal (journal_row run t (U ''grouping'') FJ_WRITING ?blob) wd"
  show ?thesis
  proof (cases "regroup std key_of t (wu_id u) (o_proposed op) ?blob ?wd")
    case (Inl e)
    then show ?thesis by (simp add: apply_grouping_correction_def ops u Let_def del: U_Cons U_Nil)
  next
    case (Inr r)
    obtain wd1 b dirty where r: "r = (wd1, b, dirty)" by (cases r)
    have "wd_db wd1 = wd_db wd" using regroup_plan [OF Inr [unfolded r]] by (simp add: same_plan_def)
    then show ?thesis
      using Inr by (simp add: apply_grouping_correction_def ops u r Let_def finish_correction_def del: U_Cons U_Nil)
  qed
qed (auto simp: apply_grouping_correction_def split: list.splits sum.splits)

lemma apply_entry_db: "wd_db (progress_world (apply_entry se k wd)) = wd_db wd"
proof -
  have g: "wd_db (progress_world (grouping_step se k t ops wd)) = wd_db wd" for t ops
    using grouping_db [of "se_std se" "se_key se" "se_run se" t ops wd]
    by (auto simp: grouping_step_def simp del: U_Cons U_Nil split: prod.splits option.splits)
  show ?thesis
    unfolding apply_entry_def Let_def
    by (simp add: g file_step_db del: U_Cons U_Nil split: option.splits sum.splits)
qed

lemma note_applied_db: "wd_db (snd (note_applied k applied wd)) = wd_db wd"
  by (simp add: note_applied_def Let_def del: U_Cons U_Nil)

lemma apply_files_db: "wd_db (oc_world (apply_files se cancel ks applied wd)) = wd_db wd"
proof (induction ks arbitrary: applied wd)
  case (Cons k ks)
  obtain applied1 wd1 where n: "note_applied k applied wd = (applied1, wd1)" by fastforce
  have d: "wd_db wd1 = wd_db wd" using note_applied_db [of k applied wd] n by simp
  show ?case
    using Cons.IH n d apply_entry_db [of se k wd1] by (auto split: progress.splits)
qed simp

lemma apply_files_cancelled:
  "oc_cancelled (apply_files se cancel ks applied wd) \<Longrightarrow> oc_error (apply_files se cancel ks applied wd) \<noteq> None"
  by (induction se cancel ks applied wd rule: apply_files.induct) (auto split: if_splits prod.splits progress.splits)

section \<open>The rollback\<close>

fun rolled_worlds :: "'w rolled \<Rightarrow> 'w world set" where
  "rolled_worlds (Rolled b wd) = {b, wd}"
| "rolled_worlds (Stopped e wd) = {wd}"

text \<open>A step of the rollback that starts from two worlds with one plan ends in worlds with that plan.\<close>

definition plan_kept :: "'w world \<Rightarrow> 'w rolled \<Rightarrow> bool" where
  "plan_kept wd r \<longleftrightarrow> (\<forall>x\<in>rolled_worlds r. same_plan wd x)"

lemma same_plan_refl [simp]: "same_plan wd wd" "same_plan wd0 (wd\<lparr>wd_disk := w\<rparr>) = same_plan wd0 wd"
  "same_plan wd0 (edit_journal i jf wd) = same_plan wd0 wd" "same_plan wd0 (edit_track i tf wd) = same_plan wd0 wd"
  "same_plan wd0 (recount_groups gs wd) = same_plan wd0 wd" "same_plan wd0 (restore_pin a b wd) = same_plan wd0 wd"
  by (simp_all add: same_plan_def)

lemma raised_kept [simp]: "plan_kept wd (raised jid e base w) = same_plan wd base"
  by (simp add: plan_kept_def raised_def)

lemma stopped_kept [simp]: "plan_kept wd (Stopped e wd') = same_plan wd wd'"
  by (simp add: plan_kept_def)

lemma rolled_kept [simp]: "plan_kept wd (Rolled b wd') = (same_plan wd b \<and> same_plan wd wd')"
  by (simp add: plan_kept_def)

lemma restore_tags_kept: "same_plan wd base \<Longrightarrow> plan_kept wd (restore_tags dk t j base wd)"
  by (simp add: restore_tags_def Let_def split: sum.splits reversal.splits option.splits)

lemma moved_back_kept [simp]: "same_plan wd0 (moved_back dk j x before g h wd) = same_plan wd0 wd"
  by (simp add: moved_back_def)

lemma reconcile_kept: "same_plan wd base \<Longrightarrow> plan_kept wd (reconcile_move dk run t j before after base wd)"
  by (simp add: reconcile_move_def split: sum.splits reversal.splits option.splits)

lemma return_kept: "same_plan wd base \<Longrightarrow> plan_kept wd (return_move dk run t j before after base wd)"
  by (simp add: return_move_def Let_def split: sum.splits reversal.splits option.splits)

lemma undo_grouping_kept: "undo_grouping j wd = Inr wd' \<Longrightarrow> same_plan wd wd'"
  by (auto simp: undo_grouping_def Let_def split: if_splits)

lemma roll_journal_kept:
  assumes "same_plan wd base"
  shows "plan_kept wd (roll_journal dk run tid jid base wd)"
  using assms unfolding roll_journal_def
  by (auto simp: restore_tags_kept reconcile_kept return_kept dest: undo_grouping_kept simp del: U_Cons U_Nil
      split: option.splits sum.splits)

lemma roll_journals_kept: "same_plan wd base \<Longrightarrow> plan_kept wd (roll_journals dk run tid jids base wd)"
proof (induction jids arbitrary: base wd)
  case (Cons jid jids)
  have k: "plan_kept wd (roll_journal dk run tid jid base wd)" by (rule roll_journal_kept [OF Cons.prems])
  show ?case
  proof (cases "roll_journal dk run tid jid base wd")
    case (Rolled b wd1)
    then have "same_plan wd b" "same_plan wd wd1" using k by simp_all
    then have "same_plan wd1 b" by (simp add: same_plan_def)
    then have "plan_kept wd1 (roll_journals dk run tid jids b wd1)" by (rule Cons.IH)
    then show ?thesis
      using Rolled \<open>same_plan wd wd1\<close> same_plan_trans by (auto simp: plan_kept_def)
  qed (use k in simp)
qed simp

lemma roll_tracks_plan: "same_plan wd (fst (roll_tracks dk run tids wd))"
proof (induction tids arbitrary: wd)
  case (Cons tid tids)
  let ?jids = "map fj_id (rev (journals_of wd run tid))"
  have k: "plan_kept wd (roll_journals dk run tid ?jids wd wd)" by (rule roll_journals_kept) simp
  show ?case
  proof (cases "roll_journals dk run tid ?jids wd wd")
    case (Rolled b wd1)
    then have "same_plan wd (finalize_all dk ?jids wd1)" using k by (simp add: finalize_all_def)
    then show ?thesis using Rolled Cons.IH same_plan_trans by (auto simp: Let_def)
  qed (use k in \<open>simp add: Let_def\<close>)
qed simp

lemma undo_outcome_db: "wd_db (fst (undo_outcome_files se oc)) = wd_db (oc_world oc)"
proof -
  obtain wd e where r: "roll_tracks (se_disk se) (se_run se) (rev (rollback_ids (se_run se) oc)) (oc_world oc) = (wd, e)"
    by fastforce
  have "wd_db wd = wd_db (oc_world oc)"
    using roll_tracks_plan [of "oc_world oc" "se_disk se" "se_run se" "rev (rollback_ids (se_run se) oc)"] r
    by (simp add: same_plan_def)
  then show ?thesis
    using r by (cases e) (simp_all add: undo_outcome_files_def rollback_applied_files_def Let_def)
qed

lemma note_writing_world: "oc_world (fst (note_writing run oc)) = oc_world oc"
  by (simp add: note_writing_def Let_def split: list.splits)

lemma settled_db: "wd_db (fst (settled se oc)) = wd_db (oc_world oc)"
proof -
  obtain oc1 w where n: "note_writing (se_run se) oc = (oc1, w)" by fastforce
  then have "oc_world oc1 = oc_world oc" using note_writing_world [of "se_run se" oc] by simp
  then show ?thesis
    using n undo_outcome_db [of se oc1] by (auto simp: settled_def split: prod.splits option.splits)
qed

end
