(* ===== verification/ApplyProperties.thy ===== *)
theory ApplyProperties
  imports ApplyFrames ReviewProperties
begin

text \<open>
  The properties of the execution of an apply run: all or nothing, refusals that write nothing, idempotence of a
  finished run, and what the global reconciliation leaves.
\<close>

section \<open>The rows of a run and its review\<close>

definition same_effects :: "'w world \<Rightarrow> 'w world \<Rightarrow> bool" where
  "same_effects wd wd' \<longleftrightarrow>
     wd_tracks wd' = wd_tracks wd \<and> wd_units wd' = wd_units wd \<and> wd_journals wd' = wd_journals wd
     \<and> wd_disk wd' = wd_disk wd"

text \<open>The run is recorded in a state, and its review in the state that goes with it and with the same error.\<close>

definition run_recorded :: "int \<Rightarrow> run_state \<Rightarrow> db \<Rightarrow> bool" where
  "run_recorded rid s d \<longleftrightarrow>
     (\<exists>a b. find_row a_id rid (apply_runs d) = Some a \<and> a_state a = s
        \<and> find_row b_id (a_bundle a) (bundles d) = Some b
        \<and> b_state b = (if s = RUN_APPLIED then APPLIED else FAILED) \<and> b_error b = a_error a)"

lemma move_bundle_cases:
  assumes "move_bundle i s wd = Inr wd'"
  obtains d where "flush_state i s (wd_db wd) = Inr d" "wd' = wd\<lparr>wd_db := d\<rparr>"
  using assms by (auto simp: move_bundle_def split: sum.splits)

lemma sync_inbox_tables [simp]:
  "bundles (sync_inbox_state i d) = bundles d" "apply_runs (sync_inbox_state i d) = apply_runs d"
  "revisions (sync_inbox_state i d) = revisions d" "operations (sync_inbox_state i d) = operations d"
  "snapshots (sync_inbox_state i d) = snapshots d" "undo_runs (sync_inbox_state i d) = undo_runs d"
  by (simp_all add: sync_inbox_state_def split: option.splits)

lemma set_error_tables [simp]:
  "apply_runs (set_bundle_error i e d) = apply_runs d" "revisions (set_bundle_error i e d) = revisions d"
  "operations (set_bundle_error i e d) = operations d" "undo_runs (set_bundle_error i e d) = undo_runs d"
  "find_row b_id k (bundles (set_bundle_error i e d)) =
     map_option (\<lambda>b. if b_id b = i then b\<lparr>b_error := e\<rparr> else b) (find_row b_id k (bundles d))"
  by (simp_all add: set_bundle_error_def find_row_update)

lemma edit_run_frames [simp]:
  "wd_tracks (edit_run i f wd) = wd_tracks wd" "wd_units (edit_run i f wd) = wd_units wd"
  "wd_journals (edit_run i f wd) = wd_journals wd" "wd_tries (edit_run i f wd) = wd_tries wd"
  "wd_files (edit_run i f wd) = wd_files wd" "wd_disk (edit_run i f wd) = wd_disk wd"
  "bundles (wd_db (edit_run i f wd)) = bundles (wd_db wd)" "operations (wd_db (edit_run i f wd)) = operations (wd_db wd)"
  "revisions (wd_db (edit_run i f wd)) = revisions (wd_db wd)" "undo_runs (wd_db (edit_run i f wd)) = undo_runs (wd_db wd)"
  "apply_runs (wd_db (edit_run i f wd)) = update_where (\<lambda>a. a_id a = i) f (apply_runs (wd_db wd))"
  by (simp_all add: edit_run_def)

lemma close_run_frames:
  assumes "close_run run s bs res e wd = Inr wd'"
  shows "same_effects wd wd' \<and> wd_tries wd' = wd_tries wd \<and> wd_files wd' = wd_files wd"
  using assms by (auto simp: close_run_def rbind_eq_Inr same_effects_def elim!: move_bundle_cases)

lemma close_run_db:
  assumes "close_run run s bs res e wd = Inr wd'"
  shows "apply_runs (wd_db wd') =
      update_where (\<lambda>a. a_id a = a_id run) (\<lambda>a. a\<lparr>a_state := s, a_result := res, a_error := e,
         a_manifest := refresh_manifest (wd_files wd) (a_manifest a)\<rparr>) (apply_runs (wd_db wd))"
    and "undo_runs (wd_db wd') = undo_runs (wd_db wd)"
    and "\<And>b. find_row b_id (a_bundle run) (bundles (wd_db wd)) = Some b \<Longrightarrow>
      \<exists>b'. find_row b_id (a_bundle run) (bundles (wd_db wd')) = Some b' \<and> b_state b' = bs \<and> b_error b' = e"
proof -
  let ?wd = "edit_run (a_id run) (\<lambda>a. a\<lparr>a_state := s, a_result := res, a_error := e,
      a_manifest := refresh_manifest (wd_files wd) (a_manifest a)\<rparr>) wd"
  obtain d where f: "flush_state (a_bundle run) bs (wd_db ?wd) = Inr d"
    and wd': "wd_db wd' = sync_inbox_state (a_bundle run) (set_bundle_error (a_bundle run) e d)"
    using assms by (auto simp: close_run_def rbind_eq_Inr elim!: move_bundle_cases)
  show "apply_runs (wd_db wd') =
      update_where (\<lambda>a. a_id a = a_id run) (\<lambda>a. a\<lparr>a_state := s, a_result := res, a_error := e,
         a_manifest := refresh_manifest (wd_files wd) (a_manifest a)\<rparr>) (apply_runs (wd_db wd))"
    and "undo_runs (wd_db wd') = undo_runs (wd_db wd)"
    using flush_state_other [OF f] by (simp_all add: wd')
  fix b
  assume b: "find_row b_id (a_bundle run) (bundles (wd_db wd)) = Some b"
  obtain b' where b': "find_row b_id (a_bundle run) (bundles d) = Some b'" "b_state b' = bs"
    using flush_state_row [OF f, of b] b by auto
  then show "\<exists>b'. find_row b_id (a_bundle run) (bundles (wd_db wd')) = Some b' \<and> b_state b' = bs \<and> b_error b' = e"
    using find_row_Some [OF b'(1)] by (simp add: wd')
qed

lemma close_run_recorded:
  assumes "close_run run s bs res e wd = Inr wd'" and "bs = (if s = RUN_APPLIED then APPLIED else FAILED)"
    and "find_row a_id (a_id run) (apply_runs (wd_db wd)) = Some a" and "a_bundle a = a_bundle run"
    and "find_row b_id (a_bundle run) (bundles (wd_db wd)) = Some b"
  shows "run_recorded (a_id run) s (wd_db wd')"
proof -
  obtain b' where "find_row b_id (a_bundle run) (bundles (wd_db wd')) = Some b'" "b_state b' = bs" "b_error b' = e"
    using close_run_db(3) [OF assms(1,5)] by blast
  then show ?thesis
    using assms(2,3,4) find_row_Some [OF assms(3)]
    by (auto simp: run_recorded_def close_run_db(1) [OF assms(1)] find_row_update)
qed

lemma begin_run_frames:
  assumes "begin_run run files wd = Inr wd'"
  shows "same_effects wd wd'" and "wd_tries wd' = wd_tries wd" and "wd_files wd' = files"
    and "operations (wd_db wd') = operations (wd_db wd)" and "revisions (wd_db wd') = revisions (wd_db wd)"
    and "apply_runs (wd_db wd') = update_where (\<lambda>a. a_id a = a_id run) (\<lambda>a. a\<lparr>a_state := RUN_APPLYING\<rparr>) (apply_runs (wd_db wd))"
    and "find_row b_id (a_bundle run) (bundles (wd_db wd)) \<noteq> None \<Longrightarrow>
      find_row b_id (a_bundle run) (bundles (wd_db wd')) \<noteq> None"
proof -
  let ?wd = "edit_run (a_id run) (\<lambda>a. a\<lparr>a_state := RUN_APPLYING\<rparr>) (wd\<lparr>wd_files := files\<rparr>)"
  obtain d where f: "flush_state (a_bundle run) APPLYING (wd_db ?wd) = Inr d"
    and wd': "wd' = ?wd\<lparr>wd_db := sync_inbox_state (a_bundle run) d\<rparr>"
    using assms by (auto simp: begin_run_def rbind_eq_Inr elim!: move_bundle_cases)
  show "same_effects wd wd'" and "wd_tries wd' = wd_tries wd" and "wd_files wd' = files"
    and "operations (wd_db wd') = operations (wd_db wd)" and "revisions (wd_db wd') = revisions (wd_db wd)"
    and "apply_runs (wd_db wd') = update_where (\<lambda>a. a_id a = a_id run) (\<lambda>a. a\<lparr>a_state := RUN_APPLYING\<rparr>) (apply_runs (wd_db wd))"
    and "find_row b_id (a_bundle run) (bundles (wd_db wd)) \<noteq> None \<Longrightarrow>
      find_row b_id (a_bundle run) (bundles (wd_db wd')) \<noteq> None"
    using flush_state_other [OF f] flush_state_row [OF f] by (auto simp: wd' same_effects_def)
qed

section \<open>The rollback at the end\<close>

text \<open>A run whose effects are all undone, or settled as failed.\<close>

definition nothing_applied :: "'w world \<Rightarrow> int \<Rightarrow> bool" where
  "nothing_applied wd run \<longleftrightarrow> (\<forall>j\<in>set (wd_journals wd). fj_run j = run \<longrightarrow> fj_state j \<notin> {FJ_DONE, FJ_WRITING})"

lemma note_writing_None:
  assumes "note_writing run oc = (oc1, None)"
  shows "oc1 = oc" and "\<And>j. j \<in> set (wd_journals (oc_world oc)) \<Longrightarrow> fj_run j = run \<Longrightarrow> fj_state j \<noteq> FJ_WRITING"
  using assms by (auto simp: note_writing_def writing_journals_def Let_def filter_empty_conv split: list.splits)

lemma no_reversible:
  assumes "owned (outcome_tracks oc) run (oc_world oc)" and "j \<in> set (wd_journals (oc_world oc))" and "fj_run j = run"
    and "fj_track j \<notin> set (rollback_ids run oc)"
  shows "\<not> reversible j"
  using assms by (auto simp: owned_def outcome_tracks_def rollback_ids_def split: option.splits if_splits)

lemma rolled_back_settles:
  assumes "roll_tracks dk run tids wd = (wd1, None)" and "owned T run wd"
    and others: "\<And>j. j \<in> set (wd_journals wd) \<Longrightarrow> fj_run j = run \<Longrightarrow> fj_track j \<notin> set tids \<Longrightarrow> \<not> reversible j"
    and writing: "\<And>j. j \<in> set (wd_journals wd) \<Longrightarrow> fj_run j = run \<Longrightarrow> fj_state j \<noteq> FJ_WRITING"
  shows "nothing_applied wd1 run"
  unfolding nothing_applied_def
proof (intro ballI impI)
  have u: "undoes (journal_ids wd run (set tids)) (wd_journals wd) (wd_journals wd1)"
    by (rule roll_tracks_rolled [OF assms(1,2)])
  fix j' assume j': "j' \<in> set (wd_journals wd1)" and run: "fj_run j' = run"
  obtain j where j: "j \<in> set (wd_journals wd)" "same_row j j'" "fj_state j' = fj_state j \<or> fj_state j' = FJ_ROLLED_BACK"
    and settled: "fj_id j \<in> journal_ids wd run (set tids) \<Longrightarrow> \<not> reversible j'"
    using u j' unfolding undoes_def list_all2_conv_all_nth in_set_conv_nth by metis
  have rj: "fj_run j = run" using j(2) run by (simp add: same_row_def)
  have "\<not> reversible j'"
  proof (cases "fj_track j \<in> set tids")
    case True
    then show ?thesis using settled j(1) rj by (auto simp: journal_ids_def)
  next
    case False
    then show ?thesis using reversible_settled [OF j(2,3) others [OF j(1) rj]] by simp
  qed
  then show "fj_state j' \<notin> {FJ_DONE, FJ_WRITING}"
    using writing [OF j(1) rj] j(3) by (auto simp: reversible_def)
qed

lemma undo_outcome_settles:
  assumes "undo_outcome_files se oc = (wd, None)" and "owned (outcome_tracks oc) (se_run se) (oc_world oc)"
    and "\<And>j. j \<in> set (wd_journals (oc_world oc)) \<Longrightarrow> fj_run j = se_run se \<Longrightarrow> fj_state j \<noteq> FJ_WRITING"
  shows "nothing_applied wd (se_run se)"
proof (cases "rollback_ids (se_run se) oc = []")
  case True
  have "\<not> reversible j" if "j \<in> set (wd_journals (oc_world oc))" "fj_run j = se_run se" for j
    using no_reversible [OF assms(2) that] True by simp
  then show ?thesis
    using True assms(1,3) by (auto simp: undo_outcome_files_def nothing_applied_def reversible_def)
next
  case False
  let ?ids = "rollback_ids (se_run se) oc"
  obtain wd1 where r: "roll_tracks (se_disk se) (se_run se) (rev ?ids) (oc_world oc) = (wd1, None)"
    and js: "wd_journals wd = wd_journals wd1"
    using assms(1) False
    by (auto simp: undo_outcome_files_def rollback_applied_files_def Let_def split: prod.splits option.splits)
  have "nothing_applied wd1 (se_run se)"
    by (rule rolled_back_settles [OF r assms(2) _ assms(3)]) (use no_reversible [OF assms(2)] in auto)
  then show ?thesis using js by (simp add: nothing_applied_def)
qed

section \<open>Preflight\<close>

lemma blame_not_Nil: "blame i e es \<noteq> []"
  by (cases es) (auto simp: blame_def)

lemma fold_blame_not_Nil: "es \<noteq> [] \<Longrightarrow> fold (\<lambda>f. blame (g f) e) fs es \<noteq> []"
  by (induction fs arbitrary: es) (simp_all add: blame_not_Nil)

lemma blame_all_not_Nil: "fs \<noteq> [] \<Longrightarrow> blame_all e fs \<noteq> []"
  by (cases fs) (simp_all add: blame_all_def fold_blame_not_Nil blame_not_Nil)

lemma preflight_operations:
  assumes "bundle_preflight std rp dk run b wd = []" and "f \<in> set (wd_files wd)" and "i \<in> set (fe_ops f)"
  shows "find_operation wd i \<noteq> None"
proof -
  have files: "wd_files wd \<noteq> []" using assms(2) by auto
  obtain r where r: "whole_error (wd_db wd) run b r (wd_files wd) = None"
    using assms(1) files blame_all_not_Nil [OF files]
    by (auto simp: bundle_preflight_def Let_def simp del: U_Cons U_Nil split: option.splits)
  have "sort (map o_id (filter (\<lambda>op. o_decision op = D_ACCEPTED) (operations_of (wd_db wd) (r_id r))))
      = sort (concat (map fe_ops (wd_files wd)))"
    using r by (auto simp: whole_error_def Let_def simp del: U_Cons U_Nil split: if_split_asm)
  moreover have "i \<in> set (concat (map fe_ops (wd_files wd)))" using assms(2,3) by auto
  ultimately have "i \<in> set (map o_id (filter (\<lambda>op. o_decision op = D_ACCEPTED) (operations_of (wd_db wd) (r_id r))))"
    by (metis set_sort)
  then have "i \<in> o_id ` set (operations (wd_db wd))" by (auto simp: operations_of_def)
  then show ?thesis by (simp add: find_operation_def find_row_None)
qed

section \<open>All or nothing\<close>

text \<open>
  A run that starts: it has no journal rows yet, its entries are open and have operations, and its attempts are
  those of these operations and pending. \<open>start_apply_run\<close> creates such runs.
\<close>

definition fresh_entries :: "op_try list \<Rightarrow> file_entry list \<Rightarrow> bool" where
  "fresh_entries as files \<longleftrightarrow>
     as \<noteq> [] \<and> distinct (map ot_operation as) \<and> (\<forall>a\<in>set as. ot_state a = TRY_PENDING)
     \<and> (\<forall>f\<in>set files. fe_ops f \<noteq> [] \<and> \<not> completed f)
     \<and> ot_operation ` set as \<subseteq> set (concat (map fe_ops files))"

definition fresh_run :: "'w world \<Rightarrow> int \<Rightarrow> bool" where
  "fresh_run wd rid \<longleftrightarrow>
     distinct (map fj_id (wd_journals wd)) \<and> (\<forall>j\<in>set (wd_journals wd). fj_run j \<noteq> rid)
     \<and> (case find_row a_id rid (apply_runs (wd_db wd)) of
          None \<Rightarrow> False
        | Some run \<Rightarrow>
            a_state run = RUN_PENDING
            \<and> (case manifest_files (a_manifest run) of Inl _ \<Rightarrow> False | Inr files \<Rightarrow> fresh_entries (wd_tries wd) files))"

lemma files_all_applied:
  assumes "fresh_entries (wd_tries wd) (wd_files wd)"
    and "oc = apply_files se cancel [0..<length (wd_files wd)] [] wd" and "oc_error oc = None"
    and "\<And>f i. f \<in> set (wd_files wd) \<Longrightarrow> i \<in> set (fe_ops f) \<Longrightarrow> find_operation wd i \<noteq> None"
  shows "all_applied (oc_world oc)"
proof -
  let ?ks = "[0..<length (wd_files wd)]"
  have ops: "ops_of wd ?ks = set (concat (map fe_ops (wd_files wd)))"
    by (force simp: ops_of_def in_set_conv_nth)
  have "stepped (ops_of wd ?ks) wd (oc_world oc)"
    by (rule apply_files_applies [OF assms(2,3)])
      (use assms(1,4) in \<open>auto simp: fresh_tries_def fresh_entries_def ops\<close>)
  then have adv: "advance (ops_of wd ?ks) (wd_tries wd) (wd_tries (oc_world oc))" by (simp add: stepped_def)
  have "ot_state a = TRY_APPLIED" if a: "a \<in> set (wd_tries (oc_world oc))" for a
  proof -
    obtain a0 where "a0 \<in> set (wd_tries wd)"
      and "ot_state a = TRY_APPLIED \<or> ot_operation a0 \<notin> ops_of wd ?ks \<and> ot_state a = ot_state a0"
      using advance_mem [OF adv a] by blast
    moreover from this have "ot_operation a0 \<in> ops_of wd ?ks"
      using assms(1) unfolding fresh_entries_def ops by fast
    ultimately show ?thesis by simp
  qed
  moreover have "wd_tries (oc_world oc) \<noteq> []"
    using advance_Nil [OF adv] assms(1) by (simp add: fresh_entries_def)
  ultimately show ?thesis by (simp add: all_applied_def)
qed

text \<open>What the end of the loop and of the rollback come to.\<close>

definition settled_well :: "int \<Rightarrow> 'w world \<times> 'w outcome \<times> ustr option \<Rightarrow> bool" where
  "settled_well rid r \<longleftrightarrow>
     (case r of (wd, oc, recovery) \<Rightarrow>
        recovery \<noteq> None
        \<or> (if oc_error oc = None then \<not> oc_cancelled oc \<and> all_applied wd \<and>
             (\<forall>j\<in>set (wd_journals wd). fj_run j = rid \<longrightarrow> fj_state j \<noteq> FJ_WRITING)
           else nothing_applied wd rid))"

lemma settled_settles:
  assumes "owned (outcome_tracks oc) (se_run se) (oc_world oc)" and "oc_cancelled oc \<Longrightarrow> oc_error oc \<noteq> None"
    and "oc_error oc = None \<Longrightarrow> all_applied (oc_world oc)"
  shows "settled_well (se_run se) (settled se oc)"
proof -
  obtain oc1 w where n: "note_writing (se_run se) oc = (oc1, w)" by fastforce
  show ?thesis
  proof (cases w)
    case (Some m)
    then show ?thesis using n by (auto simp: settled_def settled_well_def split: prod.splits option.splits)
  next
    case None
    have oc1: "oc1 = oc" by (rule note_writing_None(1) [OF n [unfolded None]])
    have nw: "\<And>j. j \<in> set (wd_journals (oc_world oc)) \<Longrightarrow> fj_run j = se_run se \<Longrightarrow> fj_state j \<noteq> FJ_WRITING"
      by (rule note_writing_None(2) [OF n [unfolded None]])
    show ?thesis
    proof (cases "oc_error oc = None")
      case True
      then show ?thesis
        using assms(2,3) nw by (auto simp: settled_def n None oc1 settled_well_def)
    next
      case False
      obtain wd e where u: "undo_outcome_files se oc = (wd, e)" by fastforce
      then show ?thesis
        using False undo_outcome_settles [OF _ assms(1) nw]
        by (cases e) (auto simp: settled_def n None oc1 settled_well_def)
    qed
  qed
qed


lemma refuse_tries_frames:
  "same_effects wd (refuse_tries files wd)" "wd_db (refuse_tries files wd) = wd_db wd"
  "wd_files (refuse_tries files wd) = wd_files wd"
proof -
  have "same_effects wd (refuse_tries files wd) \<and> wd_db (refuse_tries files wd) = wd_db wd
      \<and> wd_files (refuse_tries files wd) = wd_files wd"
    unfolding refuse_tries_def by (induction files arbitrary: wd) (auto simp: same_effects_def set_tries_def)
  then show "same_effects wd (refuse_tries files wd)" "wd_db (refuse_tries files wd) = wd_db wd"
    "wd_files (refuse_tries files wd) = wd_files wd" by simp_all
qed

text \<open>A recorded run and review.\<close>

definition listed :: "apply_run \<Rightarrow> db \<Rightarrow> bool" where
  "listed run d \<longleftrightarrow>
     (\<exists>a b. find_row a_id (a_id run) (apply_runs d) = Some a \<and> a_bundle a = a_bundle run
        \<and> find_row b_id (a_bundle run) (bundles d) = Some b)"

lemma close_run_listed:
  assumes "close_run run s bs res e wd = Inr wd'" and "bs = (if s = RUN_APPLIED then APPLIED else FAILED)"
    and "listed run (wd_db wd)"
  shows "run_recorded (a_id run) s (wd_db wd')"
  using assms(3) close_run_recorded [OF assms(1,2)] by (auto simp: listed_def)

lemma refuse_run_result:
  assumes "refuse_run run errors wd = Inr (wd', r)"
  shows "same_effects wd wd'" and "ar_state r = RUN_FAILED" and "\<not> ar_cancelled r" and "\<not> ar_recovery r"
    and "listed run (wd_db wd) \<Longrightarrow> run_recorded (a_id run) RUN_FAILED (wd_db wd')"
proof -
  define files where "files = map (refuse_entry errors (snd (hd errors))) (wd_files wd)"
  define wd1 where "wd1 = refuse_tries files (wd\<lparr>wd_files := files\<rparr>)"
  obtain res e where c: "close_run run RUN_FAILED FAILED res e wd1 = Inr wd'"
    and r: "ar_state r = RUN_FAILED" "\<not> ar_cancelled r" "\<not> ar_recovery r"
    using assms by (auto simp: refuse_run_def Let_def rbind_eq_Inr files_def wd1_def)
  have 1: "same_effects wd wd1" and db: "wd_db wd1 = wd_db wd"
    using refuse_tries_frames [where wd = "wd\<lparr>wd_files := files\<rparr>" and files = files] by (simp_all add: wd1_def same_effects_def)
  show "same_effects wd wd'" using 1 close_run_frames [OF c] by (simp add: same_effects_def)
  show "ar_state r = RUN_FAILED" "\<not> ar_cancelled r" "\<not> ar_recovery r" by (fact r)+
  show "listed run (wd_db wd) \<Longrightarrow> run_recorded (a_id run) RUN_FAILED (wd_db wd')"
    using close_run_listed [OF c] db by simp
qed

text \<open>The promise of a finished run.\<close>

definition well_ended :: "int \<Rightarrow> 'w world \<Rightarrow> apply_result \<Rightarrow> bool" where
  "well_ended rid wd r \<longleftrightarrow>
     (if ar_state r = RUN_APPLIED
      then \<not> ar_cancelled r \<and> \<not> ar_recovery r \<and> all_applied wd
        \<and> (\<forall>j\<in>set (wd_journals wd). fj_run j = rid \<longrightarrow> fj_state j \<noteq> FJ_WRITING)
      else ar_state r = RUN_FAILED \<and> (ar_recovery r \<or> nothing_applied wd rid))"

lemma finish_run_result:
  assumes "finish_run run s = Inr (wd', r)" and "settled_well (a_id run) s" and "listed run (wd_db (fst s))"
  shows "run_recorded (a_id run) (ar_state r) (wd_db wd') \<and> well_ended (a_id run) wd' r"
proof -
  obtain wd oc recovery where s: "s = (wd, oc, recovery)" by (cases s)
  let ?st = "final_state wd oc (recovery \<noteq> None)"
  obtain bs res e where c: "close_run run ?st bs res e wd = Inr wd'" and bs: "bs = (if ?st = RUN_APPLIED then APPLIED else FAILED)"
    and r: "ar_state r = ?st" "ar_cancelled r = oc_cancelled oc" "ar_recovery r = (recovery \<noteq> None)"
    using assms(1) by (auto simp: finish_run_def s Let_def rbind_eq_Inr)
  have fr: "wd_journals wd' = wd_journals wd" "wd_tries wd' = wd_tries wd"
    using close_run_frames [OF c] by (simp_all add: same_effects_def)
  have "run_recorded (a_id run) (ar_state r) (wd_db wd')"
    using close_run_listed [OF c bs] assms(3) by (simp add: r s)
  moreover have "well_ended (a_id run) wd' r"
    using assms(2) by (auto simp: well_ended_def settled_well_def s r fr final_state_def all_applied_def nothing_applied_def
        split: if_splits)
  ultimately show ?thesis by simp
qed

lemma execute_run_result:
  assumes "execute_run se cancel run b wd = Inr (wd', r)" and "a_id run = se_run se"
    and "fresh_entries (wd_tries wd) (wd_files wd)" and "owned {} (se_run se) wd" and "listed run (wd_db wd)"
  shows "run_recorded (se_run se) (ar_state r) (wd_db wd') \<and> well_ended (se_run se) wd' r"
proof (cases "bundle_preflight (se_std se) (se_repr se) (se_disk se) run b wd = []")
  case False
  then have ref: "refuse_run run (bundle_preflight (se_std se) (se_repr se) (se_disk se) run b wd) wd = Inr (wd', r)"
    using assms(1) by (simp add: execute_run_def Let_def)
  have "nothing_applied wd' (se_run se)"
    using refuse_run_result(1) [OF ref] assms(4) by (simp add: nothing_applied_def owned_def same_effects_def)
  then show ?thesis
    using refuse_run_result [OF ref] assms(2,5) by (simp add: well_ended_def)
next
  case True
  define oc where "oc = apply_files se cancel [0..<length (wd_files wd)] [] wd"
  have f: "finish_run run (settled se oc) = Inr (wd', r)"
    using assms(1) True by (simp add: execute_run_def Let_def oc_def)
  have "owned (outcome_tracks oc) (se_run se) (oc_world oc)"
    using owned_apply_files [of "[]" "se_run se" wd se] assms(4) by (simp add: oc_def)
  moreover have "oc_cancelled oc \<Longrightarrow> oc_error oc \<noteq> None" using apply_files_cancelled by (simp add: oc_def)
  moreover have "oc_error oc = None \<Longrightarrow> all_applied (oc_world oc)"
    by (rule files_all_applied [OF assms(3) oc_def _ preflight_operations [OF True]])
  ultimately have "settled_well (se_run se) (settled se oc)" by (rule settled_settles)
  moreover have "listed run (wd_db (fst (settled se oc)))"
    using assms(5) by (simp add: settled_db oc_def apply_files_db)
  ultimately show ?thesis using finish_run_result [OF f] assms(2) by simp
qed

lemma apply_review_run_cases:
  assumes "apply_review_run se cancel wd = Inr (wd', r)"
  obtains (stored) run files where "find_row a_id (se_run se) (apply_runs (wd_db wd)) = Some run"
      "manifest_files (a_manifest run) = Inr files"
      "a_state run = RUN_APPLIED \<or> a_state run = RUN_FAILED \<and> a_result run \<noteq> JNull"
      "wd' = wd" "r = stored_result run files wd"
    | (executed) run b files wd1 where "find_row a_id (se_run se) (apply_runs (wd_db wd)) = Some run"
      "find_row b_id (a_bundle run) (bundles (wd_db wd)) = Some b"
      "manifest_files (a_manifest run) = Inr files"
      "\<not> (a_state run = RUN_APPLIED \<or> a_state run = RUN_FAILED \<and> a_result run \<noteq> JNull)"
      "begin_run run files wd = Inr wd1"
      "execute_run se cancel (run\<lparr>a_state := RUN_APPLYING\<rparr>) (b\<lparr>b_state := APPLYING\<rparr>) wd1 = Inr (wd', r)"
  using assms by (auto simp: apply_review_run_def rbind_eq_Inr split: option.splits sum.splits if_splits)


lemma apply_review_run_ends:
  assumes "fresh_run wd (se_run se)" and "apply_review_run se cancel wd = Inr (wd', r)"
  shows "run_recorded (se_run se) (ar_state r) (wd_db wd') \<and> well_ended (se_run se) wd' r"
  using assms(2)
proof (cases rule: apply_review_run_cases)
  case (stored run files)
  then show ?thesis using assms(1) by (auto simp: fresh_run_def)
next
  case (executed run b files wd1)
  have id: "a_id run = se_run se" using find_row_Some [OF executed(1)] by simp
  have js: "owned {} (se_run se) wd" and fe: "fresh_entries (wd_tries wd) files"
    using assms(1) executed(1,3) by (auto simp: fresh_run_def owned_def)
  have owned: "owned {} (se_run se) wd1"
    using js begin_run_frames(1) [OF executed(5)] by (simp add: owned_def same_effects_def)
  have entries: "fresh_entries (wd_tries wd1) (wd_files wd1)"
    using fe begin_run_frames(2,3) [OF executed(5)] by simp
  have "listed run (wd_db wd1)"
    using begin_run_frames(6,7) [OF executed(5)] executed(1,2) id by (auto simp: listed_def find_row_update)
  then show ?thesis
    using execute_run_result [OF executed(6) _ entries owned] id by (simp add: listed_def)
qed

text \<open>C1. A run that starts either applies the whole review or leaves nothing of it. When it ends applied, every
  operation was applied, no effect is half done and it was not cancelled. When it ends failed, whether
  preflight refused it, a file failed after others were written, or it was cancelled, then no effect of
  the run remains journaled as done or under way, or the result says that recovery is required. The
  run, its result and the state of the review agree.
\<close>

theorem apply_all_or_nothing:
  assumes "fresh_run wd (se_run se)" and "apply_review_run se cancel wd = Inr (wd', r)"
  shows "run_recorded (se_run se) (ar_state r) (wd_db wd') \<and> well_ended (se_run se) wd' r"
  by (rule apply_review_run_ends [OF assms])

section \<open>A finished run\<close>

lemma is_dict_jset [simp]: "is_dict (jset k x v)"
  by (simp add: jset_def)

lemma manifest_refreshed:
  assumes "manifest_files m = Inr fs"
  shows "\<exists>fs'. manifest_files (refresh_manifest files m) = Inr fs'"
proof -
  let ?raws = "list_value (jget m (U ''files''))"
  have ok: "is_dict raw \<and> is_int (jget raw (U ''track_id''))" if "raw \<in> set ?raws" for raw
    using assms that by (auto simp: manifest_files_def list_all_iff split: if_splits)
  have "is_dict x \<and> is_int (jget x (U ''track_id''))"
    if "(raw, f) \<in> set (zip ?raws files)"
      "x = jset (U ''error'') (json_of_str (fe_error f)) (jset (U ''state'') (JStr (fe_state f)) raw)" for raw f x
    using ok [OF set_zip_leftD [OF that(1)]] that(2) by (simp add: jget_jset)
  then show ?thesis
    by (auto simp: manifest_files_def refresh_manifest_def jget_jset list_all_iff simp del: U_Cons U_Nil)
qed

text \<open>The run has ended with a stored result that says whether recovery is required.\<close>

definition run_ended :: "int \<Rightarrow> run_state \<Rightarrow> bool \<Rightarrow> db \<Rightarrow> bool" where
  "run_ended rid s recovery d \<longleftrightarrow>
     (\<exists>a b fs. find_row a_id rid (apply_runs d) = Some a \<and> a_state a = s
        \<and> find_row b_id (a_bundle a) (bundles d) = Some b \<and> manifest_files (a_manifest a) = Inr fs
        \<and> a_result a \<noteq> JNull \<and> truthy (jget (a_result a) (U ''recovery_required'')) = recovery)"

lemma run_result_recovery:
  "run_result s rs recovery cancelled \<noteq> JNull"
  "truthy (jget (run_result s rs recovery cancelled) (U ''recovery_required'')) = recovery"
  by (simp_all add: run_result_def jget_JObj)

text \<open>A run and its review are on record, and its manifest can be read.\<close>

definition readable :: "apply_run \<Rightarrow> db \<Rightarrow> bool" where
  "readable run d \<longleftrightarrow>
     (\<exists>a b fs. find_row a_id (a_id run) (apply_runs d) = Some a \<and> a_bundle a = a_bundle run
        \<and> manifest_files (a_manifest a) = Inr fs \<and> find_row b_id (a_bundle run) (bundles d) = Some b)"

lemma close_run_ended:
  assumes "close_run run s bs (run_result s rs recovery cancelled) e wd = Inr wd'" and "readable run (wd_db wd)"
  shows "run_ended (a_id run) s recovery (wd_db wd')"
proof -
  obtain a b fs where a: "find_row a_id (a_id run) (apply_runs (wd_db wd)) = Some a" "a_bundle a = a_bundle run"
    and fs: "manifest_files (a_manifest a) = Inr fs" and b: "find_row b_id (a_bundle run) (bundles (wd_db wd)) = Some b"
    using assms(2) by (auto simp: readable_def)
  obtain b' where b': "find_row b_id (a_bundle run) (bundles (wd_db wd')) = Some b'"
    using close_run_db(3) [OF assms(1) b] by blast
  show ?thesis
    using a b' manifest_refreshed [OF fs, of "wd_files wd"] find_row_Some [OF a(1)]
    by (auto simp: run_ended_def close_run_db(1) [OF assms(1)] find_row_update run_result_recovery simp del: U_Cons U_Nil)
qed

lemma execute_run_ended:
  assumes "execute_run se cancel run b wd = Inr (wd', r)" and "readable run (wd_db wd)"
  shows "run_ended (a_id run) (ar_state r) (ar_recovery r) (wd_db wd')"
proof (cases "bundle_preflight (se_std se) (se_repr se) (se_disk se) run b wd = []")
  case False
  then obtain wd1 rs e where c: "close_run run RUN_FAILED FAILED (run_result RUN_FAILED rs False False) e wd1 = Inr wd'"
    and db: "wd_db wd1 = wd_db wd" and r: "ar_state r = RUN_FAILED" "\<not> ar_recovery r"
    using assms(1) by (auto simp: execute_run_def refuse_run_def Let_def rbind_eq_Inr refuse_tries_frames)
  then show ?thesis using close_run_ended [OF c] assms(2) by simp
next
  case True
  define oc where "oc = apply_files se cancel [0..<length (wd_files wd)] [] wd"
  obtain wd1 oc1 recovery where s: "settled se oc = (wd1, oc1, recovery)" by (cases "settled se oc")
  have db: "wd_db wd1 = wd_db wd" using settled_db [of se oc] unfolding s by (simp add: oc_def apply_files_db)
  obtain rs e bs c where "close_run run (ar_state r) bs (run_result (ar_state r) rs (ar_recovery r) c) e wd1 = Inr wd'"
    using assms(1) True by (auto simp: execute_run_def Let_def oc_def [symmetric] s finish_run_def rbind_eq_Inr)
  then show ?thesis using close_run_ended assms(2) db by metis
qed

text \<open>A finished run is not executed again: calling the executor once more on the run it has just ended, as a
  replayed job does, changes nothing at all and reports the same state and the same need for recovery.
\<close>

theorem finished_run_not_repeated:
  assumes "fresh_run wd (se_run se)" and "apply_review_run se cancel wd = Inr (wd', r)"
  shows "\<exists>r'. apply_review_run se cancel' wd' = Inr (wd', r') \<and> ar_state r' = ar_state r
           \<and> ar_recovery r' = ar_recovery r \<and> \<not> ar_cancelled r'"
proof -
  have well: "well_ended (se_run se) wd' r" using apply_review_run_ends [OF assms] by simp
  have "run_ended (se_run se) (ar_state r) (ar_recovery r) (wd_db wd')"
    using assms(2)
  proof (cases rule: apply_review_run_cases)
    case (stored run files)
    then show ?thesis using assms(1) by (auto simp: fresh_run_def)
  next
    case (executed run b files wd1)
    have id: "a_id run = se_run se" using find_row_Some [OF executed(1)] by simp
    have "readable (run\<lparr>a_state := RUN_APPLYING\<rparr>) (wd_db wd1)"
      using begin_run_frames(6,7) [OF executed(5)] executed(1,2,3) id by (auto simp: readable_def find_row_update)
    then show ?thesis using execute_run_ended [OF executed(6)] id by simp
  qed
  then show ?thesis
    using well by (auto simp: run_ended_def apply_review_run_def stored_result_def well_ended_def split: if_splits)
qed

text \<open>C38. A run that preflight refuses writes nothing: tracks, work units, journal and disk are as before, the
  run and its review end failed without a request for recovery.
\<close>

theorem refused_run_writes_nothing:
  assumes "apply_review_run se cancel wd = Inr (wd', r)"
    and "find_row a_id (se_run se) (apply_runs (wd_db wd)) = Some run" and "a_state run = RUN_PENDING"
    and "find_row b_id (a_bundle run) (bundles (wd_db wd)) = Some b"
    and "manifest_files (a_manifest run) = Inr files" and "begin_run run files wd = Inr wd1"
    and "bundle_preflight (se_std se) (se_repr se) (se_disk se) (run\<lparr>a_state := RUN_APPLYING\<rparr>)
           (b\<lparr>b_state := APPLYING\<rparr>) wd1 \<noteq> []"
  shows "same_effects wd wd' \<and> ar_state r = RUN_FAILED \<and> \<not> ar_recovery r
         \<and> run_recorded (se_run se) RUN_FAILED (wd_db wd')"
proof -
  let ?errors = "bundle_preflight (se_std se) (se_repr se) (se_disk se) (run\<lparr>a_state := RUN_APPLYING\<rparr>)
           (b\<lparr>b_state := APPLYING\<rparr>) wd1"
  have r: "refuse_run (run\<lparr>a_state := RUN_APPLYING\<rparr>) ?errors wd1 = Inr (wd', r)"
    using assms by (simp add: apply_review_run_def execute_run_def Let_def)
  have id: "a_id run = se_run se" using find_row_Some [OF assms(2)] by simp
  have "listed (run\<lparr>a_state := RUN_APPLYING\<rparr>) (wd_db wd1)"
    using begin_run_frames(6,7) [OF assms(6)] assms(2,4) id by (auto simp: listed_def find_row_update)
  then show ?thesis
    using refuse_run_result [OF r] begin_run_frames(1) [OF assms(6)] id by (simp add: same_effects_def)
qed

end
