(* ===== verification/RecoveryProperties.thy ===== *)
theory RecoveryProperties
  imports ApplyProperties
begin

text \<open>
  What the global reconciliation of apply runs leaves, called when no run is alive: every interrupted run ends
  failed, either with nothing of it applied or with a request for recovery, and no review stays in the state
  of being applied.
\<close>

section \<open>Settling the journal\<close>

text \<open>Journal rows as the writers make them.\<close>

definition journal_ok :: "'w world \<Rightarrow> bool" where
  "journal_ok wd \<longleftrightarrow> distinct (map fj_id (wd_journals wd)) \<and> (\<forall>j\<in>set (wd_journals wd). fj_phase j \<in> phases)"

lemma journal_ok_edit:
  assumes "journal_ok wd" and "\<And>j. same_row j (f j)"
  shows "journal_ok (edit_journal i f wd)"
proof -
  have "map fj_id (update_where (\<lambda>j. fj_id j = i) f (wd_journals wd)) = map fj_id (wd_journals wd)"
    using assms(2) by (intro update_where_keys) (simp add: same_row_def)
  then show ?thesis using assms unfolding journal_ok_def same_row_def by (auto simp: set_update_where)
qed

lemma journal_ok_files [simp]: "journal_ok (wd\<lparr>wd_files := fs\<rparr>) = journal_ok wd"
  by (simp add: journal_ok_def)

lemma settle_journal_frames:
  "wd_db (settle_journal dk j wd) = wd_db wd" "wd_files (settle_journal dk j wd) = wd_files wd"
  "journal_ok wd \<Longrightarrow> journal_ok (settle_journal dk j wd)"
  by (auto simp: settle_journal_def same_row_def journal_ok_def [of "_\<lparr>wd_disk := _\<rparr>"] journal_ok_def [symmetric]
      intro!: journal_ok_edit split: option.splits)

lemma settle_journals_frames:
  "wd_db (settle_journals dk run wd) = wd_db wd \<and> (journal_ok wd \<longrightarrow> journal_ok (settle_journals dk run wd))"
proof -
  have "wd_db (fold (settle_journal dk) js wd) = wd_db wd \<and> (journal_ok wd \<longrightarrow> journal_ok (fold (settle_journal dk) js wd))"
    for js by (induction js arbitrary: wd) (simp_all add: settle_journal_frames)
  then show ?thesis by (simp add: settle_journals_def)
qed

section \<open>One run\<close>

lemma set_effect_tracks:
  "set (effect_tracks wd run) = fj_track ` {j \<in> set (wd_journals wd). fj_run j = run \<and> reversible j}"
  by (auto simp: effect_tracks_def run_journals_def)

lemma rollback_plan: "wd_db (fst (rollback_applied_files dk run ids wd)) = wd_db wd"
  using roll_tracks_plan [of wd dk run "rev ids"] by (simp add: rollback_applied_files_def same_plan_def)

text \<open>Every recovery ends in the closing of the run as failed.\<close>

definition closes_failed :: "apply_run \<Rightarrow> 'w world \<Rightarrow> apply_exc + 'w world \<Rightarrow> bool" where
  "closes_failed run wd res \<longleftrightarrow>
     (\<exists>rs recovery e wd1. res = close_run run RUN_FAILED FAILED (run_result RUN_FAILED rs recovery False) (Some e) wd1
        \<and> wd_db wd1 = wd_db wd \<and> (journal_ok wd \<longrightarrow> recovery \<or> nothing_applied wd1 (a_id run)))"

lemma closes_recovered:
  assumes "wd_db wd1 = wd_db wd" and "journal_ok wd \<Longrightarrow> recovery \<or> nothing_applied wd1 (a_id run)"
  shows "closes_failed run wd (close_recovered run recovery e (recovered_files f wd1))"
  unfolding closes_failed_def close_recovered_def
  by (intro exI conjI, rule refl) (use assms in \<open>simp_all add: recovered_files_def nothing_applied_def\<close>)

lemma recover_ambiguous_closes: "closes_failed run wd (recover_ambiguous dk run wd)"
proof -
  let ?ids = "effect_tracks wd (a_id run)"
  obtain wd1 e where r: "rollback_applied_files dk (a_id run) ?ids wd = (wd1, e)" by fastforce
  have "wd_db wd1 = wd_db wd" using rollback_plan [of dk "a_id run" ?ids wd] r by simp
  then have db: "wd_db wd1 = wd_db wd" "wd_db (recovered_files f wd1) = wd_db wd" for f
    by (simp_all add: recovered_files_def)
  have closes: "closes_failed run wd (close_recovered run True m (recovered_files f x))" if "wd_db x = wd_db wd" for x m f
    by (rule closes_recovered) (simp_all add: that)
  show ?thesis
    using r by (cases e) (simp_all add: recover_ambiguous_def rollback_failed_def Let_def closes db del: U_Cons U_Nil)
qed

lemma recover_done_closes:
  assumes "\<And>j. j \<in> set (wd_journals wd) \<Longrightarrow> fj_run j = a_id run \<Longrightarrow> fj_state j \<noteq> FJ_WRITING"
  shows "closes_failed run wd (recover_done dk run wd)"
proof -
  let ?ids = "effect_tracks wd (a_id run)"
  obtain wd1 e where r: "roll_tracks dk (a_id run) (rev ?ids) wd = (wd1, e)" by fastforce
  have db: "wd_db wd1 = wd_db wd" using roll_tracks_plan [of wd dk "a_id run" "rev ?ids"] r by (simp add: same_plan_def)
  have "nothing_applied wd1 (a_id run)" if "e = None" "journal_ok wd"
    by (rule rolled_back_settles [OF r [unfolded that(1)], of UNIV])
      (use that(2) assms in \<open>auto simp: set_effect_tracks journal_ok_def owned_def\<close>)
  then show ?thesis
    using r db by (cases e) (simp_all add: recover_done_def rollback_failed_def rollback_applied_files_def closes_recovered
        del: U_Cons U_Nil)
qed

lemma recover_run_closes: "closes_failed run wd (recover_run dk run wd)"
proof -
  define wd0 where "wd0 = settle_journals dk (a_id run)
    (wd\<lparr>wd_files := case manifest_files (a_manifest run) of Inl _ \<Rightarrow> [] | Inr fs \<Rightarrow> fs\<rparr>)"
  have db: "wd_db wd0 = wd_db wd" and ok: "journal_ok wd \<longrightarrow> journal_ok wd0"
    using settle_journals_frames [of dk "a_id run"] by (simp_all add: wd0_def)
  then have cl: "closes_failed run wd0 res \<Longrightarrow> closes_failed run wd res" for res
    unfolding closes_failed_def by metis
  have rj: "set (run_journals wd0 (a_id run)) = {j \<in> set (wd_journals wd0). fj_run j = a_id run}"
    by (auto simp: run_journals_def)
  consider "\<exists>j\<in>set (run_journals wd0 (a_id run)). fj_state j = FJ_WRITING"
    | "\<forall>j\<in>set (run_journals wd0 (a_id run)). fj_state j \<noteq> FJ_WRITING"
      "\<exists>j\<in>set (run_journals wd0 (a_id run)). fj_state j = FJ_DONE"
    | "\<forall>j\<in>set (run_journals wd0 (a_id run)). fj_state j \<noteq> FJ_WRITING \<and> fj_state j \<noteq> FJ_DONE" by blast
  then show ?thesis
  proof cases
    case 1
    then have "recover_run dk run wd = recover_ambiguous dk run wd0"
      by (simp add: recover_run_def Let_def wd0_def del: U_Cons U_Nil)
    then show ?thesis using cl [OF recover_ambiguous_closes] by simp
  next
    case 2
    then have "recover_run dk run wd = recover_done dk run wd0"
      by (auto simp: recover_run_def Let_def wd0_def simp del: U_Cons U_Nil)
    moreover have "closes_failed run wd0 (recover_done dk run wd0)"
      by (rule recover_done_closes) (use 2(1) rj in blast)
    ultimately show ?thesis using cl by simp
  next
    case 3
    then have "recover_run dk run wd =
        close_recovered run False (U ''recovered without mutations'') (recovered_files unchanged_entry wd0)"
      by (auto simp: recover_run_def Let_def wd0_def simp del: U_Cons U_Nil)
    moreover have "nothing_applied wd0 (a_id run)" using 3 rj by (auto simp: nothing_applied_def)
    ultimately show ?thesis using closes_recovered [of wd0 wd False run] db by simp
  qed
qed


section \<open>All runs\<close>

text \<open>What matters of the tables: the states of runs and of reviews.\<close>

definition runs_view :: "db \<Rightarrow> (int \<times> int \<times> run_state) list" where
  "runs_view d = map (\<lambda>a. (a_id a, a_bundle a, a_state a)) (apply_runs d)"

definition reviews_view :: "db \<Rightarrow> (int \<times> bundle_state) list" where
  "reviews_view d = map (\<lambda>b. (b_id b, b_state b)) (bundles d)"

definition fail_reviews :: "int set \<Rightarrow> (int \<times> bundle_state) list \<Rightarrow> (int \<times> bundle_state) list" where
  "fail_reviews S = map (\<lambda>(i, s). (i, if i \<in> S then FAILED else s))"

definition fail_runs :: "int set \<Rightarrow> (int \<times> int \<times> run_state) list \<Rightarrow> (int \<times> int \<times> run_state) list" where
  "fail_runs S = map (\<lambda>(i, b, s). (i, b, if i \<in> S then RUN_FAILED else s))"

lemma fail_reviews_simps [simp]:
  "fail_reviews {} v = v" "fail_reviews S (fail_reviews T v) = fail_reviews (S \<union> T) v"
  by (auto simp: fail_reviews_def)

lemma fail_runs_simps [simp]:
  "fail_runs {} v = v" "fail_runs S (fail_runs T v) = fail_runs (S \<union> T) v"
  by (auto simp: fail_runs_def)

lemma reviews_row:
  assumes "distinct (map fst (reviews_view d))"
  shows "find_row b_id i (bundles d) = Some b \<Longrightarrow> (i, s) \<in> set (reviews_view d) \<Longrightarrow> s = b_state b"
    and "find_row b_id i (bundles d) = None \<longleftrightarrow> i \<notin> fst ` set (reviews_view d)"
proof -
  have ids: "distinct (map b_id (bundles d))"
    using assms by (simp add: reviews_view_def comp_def)
  show "find_row b_id i (bundles d) = Some b \<Longrightarrow> (i, s) \<in> set (reviews_view d) \<Longrightarrow> s = b_state b"
    using find_row_unique [OF ids] by (auto simp: reviews_view_def)
  show "find_row b_id i (bundles d) = None \<longleftrightarrow> i \<notin> fst ` set (reviews_view d)"
    unfolding find_row_None reviews_view_def by (auto simp: image_iff)
qed

lemma flush_failed:
  assumes "find_row b_id i (bundles d) = Some b" and "b_state b \<in> {APPLYING, FAILED}"
    and "distinct (map fst (reviews_view d))"
  shows "\<exists>d'. flush_state i FAILED d = Inr d' \<and> reviews_view d' = fail_reviews {i} (reviews_view d)"
proof (cases "b_state b = FAILED")
  case True
  have "fail_reviews {i} (reviews_view d) = reviews_view d"
    unfolding fail_reviews_def
    by (rule map_idI) (use reviews_row(1) [OF assms(3,1)] True in fastforce)
  then show ?thesis using assms(1) True by (simp add: flush_state_def)
next
  case False
  then have "state_abort d b FAILED = None"
    using assms(2) by (auto simp: state_abort_def active_bundle_states_def)
  then show ?thesis
    using assms(1) False
    by (auto simp: flush_state_def set_bundle_state_def reviews_view_def fail_reviews_def update_where_def)
qed

lemma error_view [simp]:
  "reviews_view (set_bundle_error i e d) = reviews_view d" "runs_view (set_bundle_error i e d) = runs_view d"
  "reviews_view (sync_inbox_state i d) = reviews_view d" "runs_view (sync_inbox_state i d) = runs_view d"
  by (auto simp: reviews_view_def runs_view_def set_bundle_error_def update_where_def)

text \<open>Closing a run as failed succeeds when its review is being applied or has failed.\<close>

lemma close_run_fails:
  assumes "find_row b_id (a_bundle run) (bundles (wd_db wd)) = Some b" and "b_state b \<in> {APPLYING, FAILED}"
    and "distinct (map fst (reviews_view (wd_db wd)))"
  shows "\<exists>wd'. close_run run RUN_FAILED FAILED res e wd = Inr wd'
      \<and> reviews_view (wd_db wd') = fail_reviews {a_bundle run} (reviews_view (wd_db wd))
      \<and> runs_view (wd_db wd') = fail_runs {a_id run} (runs_view (wd_db wd)) \<and> undo_runs (wd_db wd') = undo_runs (wd_db wd)"
proof -
  let ?wd = "edit_run (a_id run) (\<lambda>a. a\<lparr>a_state := RUN_FAILED, a_result := res, a_error := e,
      a_manifest := refresh_manifest (wd_files wd) (a_manifest a)\<rparr>) wd"
  have same: "reviews_view (wd_db ?wd) = reviews_view (wd_db wd)" by (simp add: reviews_view_def)
  obtain d where f: "flush_state (a_bundle run) FAILED (wd_db ?wd) = Inr d"
    and v: "reviews_view d = fail_reviews {a_bundle run} (reviews_view (wd_db wd))"
    using flush_failed [of "a_bundle run" "wd_db ?wd" b] assms same by auto
  let ?wd' = "?wd\<lparr>wd_db := sync_inbox_state (a_bundle run) (set_bundle_error (a_bundle run) e d)\<rparr>"
  have c: "close_run run RUN_FAILED FAILED res e wd = Inr ?wd'" using f by (simp add: close_run_def move_bundle_def)
  then show ?thesis
    using close_run_db(1,2) [OF c] v by (auto simp: runs_view_def fail_runs_def update_where_def)
qed


lemma recover_run_fails:
  assumes "find_row b_id (a_bundle run) (bundles (wd_db wd)) = Some b" and "b_state b \<in> {APPLYING, FAILED}"
    and "distinct (map fst (reviews_view (wd_db wd)))"
  shows "\<exists>wd'. recover_run dk run wd = Inr wd'
      \<and> reviews_view (wd_db wd') = fail_reviews {a_bundle run} (reviews_view (wd_db wd))
      \<and> runs_view (wd_db wd') = fail_runs {a_id run} (runs_view (wd_db wd)) \<and> undo_runs (wd_db wd') = undo_runs (wd_db wd)"
proof -
  obtain rs recovery e wd1
    where c: "recover_run dk run wd = close_run run RUN_FAILED FAILED (run_result RUN_FAILED rs recovery False) (Some e) wd1"
      and db: "wd_db wd1 = wd_db wd"
    using recover_run_closes [of run wd dk] unfolding closes_failed_def by blast
  show ?thesis using close_run_fails [of run wd1 b] assms c db by simp
qed

lemma fail_reviews_ids [simp]: "map fst (fail_reviews S v) = map fst v" "fst ` set (fail_reviews S v) = fst ` set v"
  by (force simp: fail_reviews_def)+

text \<open>A review that a run to be recovered belongs to: being applied, or failed.\<close>

definition recoverable :: "'w world \<Rightarrow> apply_run \<Rightarrow> bool" where
  "recoverable wd run \<longleftrightarrow>
     left_alone wd run \<or> (a_bundle run, APPLYING) \<in> set (reviews_view (wd_db wd))
     \<or> (a_bundle run, FAILED) \<in> set (reviews_view (wd_db wd))"

lemma left_alone_cong:
  assumes "undo_runs (wd_db wd') = undo_runs (wd_db wd)" and "distinct (map fst (reviews_view (wd_db wd)))"
    and "map fst (reviews_view (wd_db wd')) = map fst (reviews_view (wd_db wd))"
  shows "left_alone wd' run = left_alone wd run"
proof -
  have "fst ` set (reviews_view (wd_db wd')) = fst ` set (reviews_view (wd_db wd))" using assms(3) by (metis list.set_map)
  then show ?thesis
    using reviews_row(2) [of "wd_db wd"] reviews_row(2) [of "wd_db wd'"] assms by (simp add: left_alone_def)
qed

definition handled :: "'w world \<Rightarrow> apply_run list \<Rightarrow> apply_run set" where
  "handled wd rs = {run \<in> set rs. \<not> left_alone wd run}"

lemma recover_runs_complete:
  assumes "distinct (map fst (reviews_view (wd_db wd)))" and "\<And>run. run \<in> set rs \<Longrightarrow> recoverable wd run"
  shows "\<exists>wd' n. recover_runs dk rs wd = Inr (wd', n) \<and> undo_runs (wd_db wd') = undo_runs (wd_db wd)
      \<and> reviews_view (wd_db wd') = fail_reviews (a_bundle ` handled wd rs) (reviews_view (wd_db wd))
      \<and> runs_view (wd_db wd') = fail_runs (a_id ` handled wd rs) (runs_view (wd_db wd))"
  using assms
proof (induction rs arbitrary: wd)
  case Nil
  then show ?case by (simp add: handled_def)
next
  case (Cons run rs)
  show ?case
  proof (cases "left_alone wd run")
    case True
    then have "handled wd (run # rs) = handled wd rs" by (auto simp: handled_def)
    then show ?thesis using True Cons by simp
  next
    case False
    then obtain s where s: "(a_bundle run, s) \<in> set (reviews_view (wd_db wd))" "s \<in> {APPLYING, FAILED}"
      using Cons.prems(2) [of run] by (auto simp: recoverable_def)
    then obtain b where b: "find_row b_id (a_bundle run) (bundles (wd_db wd)) = Some b"
      using reviews_row(2) [OF Cons.prems(1), of "a_bundle run"] by force
    then have "b_state b \<in> {APPLYING, FAILED}" using reviews_row(1) [OF Cons.prems(1) b s(1)] s(2) by simp
    then obtain wd1 where r: "recover_run dk run wd = Inr wd1"
      and v: "reviews_view (wd_db wd1) = fail_reviews {a_bundle run} (reviews_view (wd_db wd))"
        "runs_view (wd_db wd1) = fail_runs {a_id run} (runs_view (wd_db wd))" "undo_runs (wd_db wd1) = undo_runs (wd_db wd)"
      using recover_run_fails [OF b _ Cons.prems(1)] by blast
    have la: "left_alone wd1 x = left_alone wd x" for x
      by (rule left_alone_cong) (simp_all add: v Cons.prems(1))
    have "recoverable wd1 x" if "recoverable wd x" for x
      using that unfolding recoverable_def la v(1) by (force simp: fail_reviews_def)
    then obtain wd2 n where r2: "recover_runs dk rs wd1 = Inr (wd2, n)"
      and v2: "reviews_view (wd_db wd2) = fail_reviews (a_bundle ` handled wd1 rs) (reviews_view (wd_db wd1))"
        "runs_view (wd_db wd2) = fail_runs (a_id ` handled wd1 rs) (runs_view (wd_db wd1))"
        "undo_runs (wd_db wd2) = undo_runs (wd_db wd1)"
      using Cons.IH [of wd1] Cons.prems v by auto
    have "handled wd (run # rs) = insert run (handled wd1 rs)" using False la by (auto simp: handled_def)
    then show ?thesis using False r r2 v v2 by simp
  qed
qed


section \<open>Reviews without an active run\<close>

definition no_active_run :: "db \<Rightarrow> int \<Rightarrow> bool" where
  "no_active_run d i \<longleftrightarrow> (case latest_run d i of None \<Rightarrow> True | Some a \<Rightarrow> a_state a \<noteq> RUN_APPLYING)"

lemma no_active_run_view:
  assumes "\<And>r s. (r, i, s) \<in> set (runs_view d) \<Longrightarrow> s \<noteq> RUN_APPLYING"
  shows "no_active_run d i"
proof -
  have "a_state a \<noteq> RUN_APPLYING" if "latest_run d i = Some a" for a
  proof -
    have "a \<in> set (rev (sort_key a_id (filter (\<lambda>a. a_bundle a = i) (apply_runs d))))"
      using that by (auto simp: latest_run_def simp del: set_rev split: list.splits)
    then have "(a_id a, i, a_state a) \<in> set (runs_view d)" by (auto simp: runs_view_def)
    then show ?thesis by (rule assms)
  qed
  then show ?thesis by (simp add: no_active_run_def split: option.splits)
qed

lemma latest_run_cong: "apply_runs d' = apply_runs d \<Longrightarrow> latest_run d' i = latest_run d i"
  by (simp add: latest_run_def)

lemma free_bundles_complete:
  assumes "distinct (map fst (reviews_view (wd_db wd)))"
    and "\<And>b. b \<in> set bs \<Longrightarrow> no_active_run (wd_db wd) (b_id b) \<and>
      ((b_id b, APPLYING) \<in> set (reviews_view (wd_db wd)) \<or> (b_id b, FAILED) \<in> set (reviews_view (wd_db wd)))"
  shows "\<exists>wd'. free_bundles bs wd = Inr (wd', length bs)
      \<and> reviews_view (wd_db wd') = fail_reviews (b_id ` set bs) (reviews_view (wd_db wd))
      \<and> apply_runs (wd_db wd') = apply_runs (wd_db wd)"
  using assms
proof (induction bs arbitrary: wd)
  case Nil
  then show ?case by simp
next
  case (Cons b bs)
  obtain s where s: "(b_id b, s) \<in> set (reviews_view (wd_db wd))" "s \<in> {APPLYING, FAILED}"
    using Cons.prems(2) [of b] by auto
  then obtain x where x: "find_row b_id (b_id b) (bundles (wd_db wd)) = Some x"
    using reviews_row(2) [OF Cons.prems(1), of "b_id b"] by force
  then have "b_state x \<in> {APPLYING, FAILED}" using reviews_row(1) [OF Cons.prems(1) x s(1)] s(2) by simp
  then obtain d where f: "flush_state (b_id b) FAILED (wd_db wd) = Inr d"
    and v: "reviews_view d = fail_reviews {b_id b} (reviews_view (wd_db wd))"
    using flush_failed [OF x _ Cons.prems(1)] by blast
  let ?wd = "wd\<lparr>wd_db := sync_inbox_state (b_id b) (set_bundle_error (b_id b) (Some stuck_text) d)\<rparr>"
  have runs: "apply_runs (wd_db ?wd) = apply_runs (wd_db wd)" using flush_state_other [OF f] by simp
  have nar: "no_active_run (wd_db ?wd) i = no_active_run (wd_db wd) i" for i
    using latest_run_cong [OF runs] by (simp add: no_active_run_def)
  have "no_active_run (wd_db ?wd) (b_id y) \<and>
      ((b_id y, APPLYING) \<in> set (reviews_view (wd_db ?wd)) \<or> (b_id y, FAILED) \<in> set (reviews_view (wd_db ?wd)))"
    if "y \<in> set bs" for y
    using Cons.prems(2) [of y] that v unfolding nar by (force simp: fail_reviews_def)
  then obtain wd' where "free_bundles bs ?wd = Inr (wd', length bs)"
    and "reviews_view (wd_db wd') = fail_reviews (b_id ` set bs) (reviews_view (wd_db ?wd))"
    and "apply_runs (wd_db wd') = apply_runs (wd_db ?wd)"
    using Cons.IH [of ?wd] Cons.prems(1) v by auto
  then show ?case
    using Cons.prems(2) [of b] f v runs
    by (auto simp: move_bundle_def no_active_run_def Un_commute insert_commute split: option.splits)
qed

section \<open>All runs\<close>

text \<open>
  The state that a crash leaves: rows have distinct identities, and a run to be recovered belongs to a review
  that is being applied or has failed.
\<close>

definition crashed :: "'w world \<Rightarrow> bool" where
  "crashed wd \<longleftrightarrow>
     distinct (map fst (reviews_view (wd_db wd)))
     \<and> (\<forall>run\<in>set (apply_runs (wd_db wd)). needs_recovery wd run \<longrightarrow> recoverable wd run)"

text \<open>C32. The global reconciliation of apply runs, when it is called, always completes and leaves nothing in the middle of
  being applied. Provided that the identities of reviews are distinct and that every run to be recovered belongs to a
  review that is being applied or has failed, then afterwards no review is being applied, no run of an existing
  review is, every run that was has failed, and finished runs keep their state.
\<close>

theorem global_recovery_settles_everything:
  assumes "crashed wd"
  shows "\<exists>wd' n. recover_apply_runs dk wd = Inr (wd', n)
    \<and> (\<forall>b\<in>set (bundles (wd_db wd')). b_state b \<noteq> APPLYING)
    \<and> (\<forall>a\<in>set (apply_runs (wd_db wd')). a_state a = RUN_APPLYING \<longrightarrow>
         find_row b_id (a_bundle a) (bundles (wd_db wd')) = None)
    \<and> list_all2 (\<lambda>a a'. a_id a' = a_id a \<and> a_bundle a' = a_bundle a
         \<and> (a_state a' = a_state a \<or> a_state a' = RUN_FAILED))
         (apply_runs (wd_db wd)) (apply_runs (wd_db wd'))"
proof -
  let ?rs = "filter (needs_recovery wd) (apply_runs (wd_db wd))"
  have ids: "distinct (map fst (reviews_view (wd_db wd)))" using assms by (simp add: crashed_def)
  obtain wd1 n where r: "recover_runs dk ?rs wd = Inr (wd1, n)"
    and v: "reviews_view (wd_db wd1) = fail_reviews (a_bundle ` handled wd ?rs) (reviews_view (wd_db wd))"
      "runs_view (wd_db wd1) = fail_runs (a_id ` handled wd ?rs) (runs_view (wd_db wd))"
    using recover_runs_complete [OF ids, of ?rs dk] assms by (auto simp: crashed_def)
  have ids1: "distinct (map fst (reviews_view (wd_db wd1)))" using ids v(1) by simp
  have gone: "i \<notin> fst ` set (reviews_view (wd_db wd))" if run: "(r, i, RUN_APPLYING) \<in> set (runs_view (wd_db wd1))" for r i
  proof -
    obtain a where "a \<in> set (apply_runs (wd_db wd))" "a_bundle a = i"
      and st: "RUN_APPLYING = (if a_id a \<in> a_id ` handled wd ?rs then RUN_FAILED else a_state a)"
      using run unfolding v(2) unfolding fail_runs_def runs_view_def by auto
    moreover from st have "a_state a = RUN_APPLYING" "a_id a \<notin> a_id ` handled wd ?rs"
      by (simp_all split: if_split_asm)
    ultimately have a: "a \<in> set (apply_runs (wd_db wd))" "a_bundle a = i" "a_state a = RUN_APPLYING"
      "a_id a \<notin> a_id ` handled wd ?rs" by blast+
    then have "left_alone wd a" by (auto simp: handled_def needs_recovery_def)
    then show ?thesis using a(2,3) reviews_row(2) [OF ids] by (simp add: left_alone_def)
  qed
  let ?bs = "filter (\<lambda>b. b_state b = APPLYING) (bundles (wd_db wd1))"
  have bs: "no_active_run (wd_db wd1) (b_id b) \<and> (b_id b, APPLYING) \<in> set (reviews_view (wd_db wd1))" if "b \<in> set ?bs" for b
  proof
    show "(b_id b, APPLYING) \<in> set (reviews_view (wd_db wd1))" using that by (auto simp: reviews_view_def)
    then have "b_id b \<in> fst ` set (reviews_view (wd_db wd))" unfolding v(1) by (force simp: fail_reviews_def)
    then show "no_active_run (wd_db wd1) (b_id b)" using gone by (intro no_active_run_view) auto
  qed
  obtain wd2 where f: "free_bundles ?bs wd1 = Inr (wd2, length ?bs)"
    and v2: "reviews_view (wd_db wd2) = fail_reviews (b_id ` set ?bs) (reviews_view (wd_db wd1))"
    and runs: "apply_runs (wd_db wd2) = apply_runs (wd_db wd1)"
    using free_bundles_complete [OF ids1, of ?bs] bs by blast
  have "recover_apply_runs dk wd = Inr (wd2, n + length ?bs)" using r f by (simp add: recover_apply_runs_def)
  moreover have "s \<noteq> APPLYING" if row: "(i, s) \<in> set (reviews_view (wd_db wd2))" for i s
  proof -
    obtain b where "b \<in> set (bundles (wd_db wd1))" "i = b_id b"
      and "s = (if b_id b \<in> b_id ` set ?bs then FAILED else b_state b)"
      using row unfolding v2 unfolding fail_reviews_def reviews_view_def by auto
    then show ?thesis by (cases "b \<in> set ?bs") auto
  qed
  then have "\<forall>b\<in>set (bundles (wd_db wd2)). b_state b \<noteq> APPLYING" by (force simp: reviews_view_def)
  moreover have "\<forall>a\<in>set (apply_runs (wd_db wd2)). a_state a = RUN_APPLYING \<longrightarrow>
      find_row b_id (a_bundle a) (bundles (wd_db wd2)) = None"
  proof (intro ballI impI)
    fix a assume "a \<in> set (apply_runs (wd_db wd2))" "a_state a = RUN_APPLYING"
    then have "(a_id a, a_bundle a, RUN_APPLYING) \<in> set (runs_view (wd_db wd1))" using runs by (force simp: runs_view_def)
    then show "find_row b_id (a_bundle a) (bundles (wd_db wd2)) = None"
      using gone reviews_row(2) [of "wd_db wd2" "a_bundle a"] ids1 by (simp add: v2 v(1))
  qed
  moreover have "list_all2 (\<lambda>a a'. a_id a' = a_id a \<and> a_bundle a' = a_bundle a
         \<and> (a_state a' = a_state a \<or> a_state a' = RUN_FAILED)) (apply_runs (wd_db wd)) (apply_runs (wd_db wd2))"
  proof -
    have len: "length (apply_runs (wd_db wd1)) = length (apply_runs (wd_db wd))"
      using arg_cong [OF v(2), of length] by (simp add: runs_view_def fail_runs_def)
    have "a_id (apply_runs (wd_db wd1) ! k) = a_id (apply_runs (wd_db wd) ! k)
        \<and> a_bundle (apply_runs (wd_db wd1) ! k) = a_bundle (apply_runs (wd_db wd) ! k)
        \<and> (a_state (apply_runs (wd_db wd1) ! k) = a_state (apply_runs (wd_db wd) ! k)
            \<or> a_state (apply_runs (wd_db wd1) ! k) = RUN_FAILED)" if "k < length (apply_runs (wd_db wd))" for k
      using arg_cong [OF v(2), of "\<lambda>xs. xs ! k"] that len by (auto simp: runs_view_def fail_runs_def split: if_splits)
    then show ?thesis unfolding runs list_all2_conv_all_nth using len by simp
  qed
  ultimately show ?thesis by blast
qed

text \<open>C10. A run that was interrupted is settled, never silently left half done: its recovery, when the database
  accepts it, records run and review as failed, and then either no effect of the run remains journaled as
  done or under way, or its stored result requires recovery.
\<close>

theorem interrupted_run_settled:
  assumes "journal_ok wd" and "recover_run dk run wd = Inr wd'" and "readable run (wd_db wd)"
  shows "run_recorded (a_id run) RUN_FAILED (wd_db wd')
    \<and> (\<exists>recovery. run_ended (a_id run) RUN_FAILED recovery (wd_db wd') \<and> (recovery \<or> nothing_applied wd' (a_id run)))"
proof -
  obtain rs recovery e wd1
    where c: "close_run run RUN_FAILED FAILED (run_result RUN_FAILED rs recovery False) (Some e) wd1 = Inr wd'"
      and db: "wd_db wd1 = wd_db wd" and res: "recovery \<or> nothing_applied wd1 (a_id run)"
    using recover_run_closes [of run wd dk] assms(1,2) unfolding closes_failed_def by auto
  have "listed run (wd_db wd1)" using assms(3) db by (auto simp: readable_def listed_def)
  then have "run_recorded (a_id run) RUN_FAILED (wd_db wd')" using close_run_listed [OF c] by simp
  moreover have "run_ended (a_id run) RUN_FAILED recovery (wd_db wd')" using close_run_ended [OF c] assms(3) db by simp
  moreover have "recovery \<or> nothing_applied wd' (a_id run)"
    using res close_run_frames [OF c] by (simp add: nothing_applied_def same_effects_def)
  ultimately show ?thesis by blast
qed

end
