(* ===== verification/RollbackProperties.thy ===== *)
theory RollbackProperties
  imports RecoveryProperties
begin

text \<open>
  Round trips of the catalog: what the rollback of a tag write gives back, and that the rollback of a
  grouping correction gives back the groups.
\<close>

section \<open>The inverse of a tag write\<close>

lemma update_internal:
  "internal_key k \<Longrightarrow> filter (\<lambda>(k, v). \<not> internal_key k) (AList.update k x kvs) = filter (\<lambda>(k, v). \<not> internal_key k) kvs"
  by (induction kvs) auto

lemma internal_keys [simp]:
  "internal_key guard_before" "internal_key guard_after" "internal_key (U ''__muzilla_lyrics'')"
  "internal_key (U ''__muzilla_embedded_art'')" "internal_key (U ''__muzilla_catalog_art_blob_id'')"
  "internal_key (U ''__muzilla_art_blob_id'')"
  by (simp_all add: internal_key_def)

definition plain_fields :: "track \<Rightarrow> bool" where
  "plain_fields t \<longleftrightarrow> distinct (map fst (tk_fields t)) \<and> (\<forall>(k, v)\<in>set (tk_fields t). \<not> internal_key k)"

lemma plain_no_key: "plain_fields t \<Longrightarrow> internal_key k \<Longrightarrow> map_of (tk_fields t) k = None"
  by (auto simp: plain_fields_def map_of_eq_None_iff)

lemma fold_set_field:
  "distinct (map fst kvs) \<Longrightarrow>
     map_of (tk_fields (fold (\<lambda>(k, v). set_field k v) kvs t)) = map_of (tk_fields t) ++ map_of kvs"
proof (induction kvs arbitrary: t)
  case (Cons kv kvs)
  obtain k v where kv: "kv = (k, v)" by (cases kv)
  have "map_of kvs k = None" using Cons.prems by (simp add: kv map_of_eq_None_iff)
  then show ?case
    using Cons by (auto simp: kv set_field_def update_conv' fun_eq_iff map_add_def split: option.splits)
qed simp


text \<open>The inverse that a tag write journals.\<close>

definition inverse_of :: "'w disk \<Rightarrow> 'w \<Rightarrow> track \<Rightarrow> tag_plan \<Rightarrow> json \<Rightarrow> bool" where
  "inverse_of dk w t p blob \<longleftrightarrow>
     filter (\<lambda>(k, v). \<not> internal_key k) (entries blob) = tk_fields t
     \<and> map_of (entries blob) (U ''__muzilla_lyrics'') =
         (if tp_lyrics p = None then None else Some (dk_lyrics dk w (tk_path t)))
     \<and> map_of (entries blob) (U ''__muzilla_catalog_art_blob_id'') =
         (if plans_art p then Some (json_of_int (tk_art t)) else None)
     \<and> map_of (entries blob) (U ''__muzilla_art_blob_id'') = None
     \<and> (\<not> plans_art p \<longrightarrow> map_of (entries blob) (U ''__muzilla_embedded_art'') = None)
     \<and> (plans_art p \<longrightarrow> (\<exists>a. dk_artwork dk w t = Inr a \<and> map_of (entries blob) (U ''__muzilla_embedded_art'') = Some a))"

lemma entries_jset [simp]: "entries (jset k x v) = AList.update k x (entries v)"
  by (simp add: jset_def)

lemma plain_filter: "plain_fields t \<Longrightarrow> filter (\<lambda>(k, v). \<not> internal_key k) (tk_fields t) = tk_fields t"
  by (auto simp: plain_fields_def filter_id_conv)

lemma tag_inverse_of:
  assumes "tag_inverse dk w t g p = Inr blob" and "plain_fields t"
  shows "inverse_of dk w t p (jset guard_after after blob)"
proof -
  have other: "map_of (tk_fields t) (U ''__muzilla_lyrics'') = None" "map_of (tk_fields t) (U ''__muzilla_art_blob_id'') = None"
    "map_of (tk_fields t) (U ''__muzilla_catalog_art_blob_id'') = None" "map_of (tk_fields t) (U ''__muzilla_embedded_art'') = None"
    using plain_no_key [OF assms(2)] internal_keys by blast+
  have keys: "internal_key guard_before" "internal_key guard_after" "internal_key (U ''__muzilla_lyrics'')"
    "internal_key (U ''__muzilla_embedded_art'')" "internal_key (U ''__muzilla_catalog_art_blob_id'')"
    by (rule internal_keys)+
  have dist: "guard_before \<noteq> U ''__muzilla_lyrics''" "guard_after \<noteq> U ''__muzilla_lyrics''"
    "guard_before \<noteq> U ''__muzilla_art_blob_id''" "guard_after \<noteq> U ''__muzilla_art_blob_id''"
    "guard_before \<noteq> U ''__muzilla_catalog_art_blob_id''" "guard_after \<noteq> U ''__muzilla_catalog_art_blob_id''"
    "guard_before \<noteq> U ''__muzilla_embedded_art''" "guard_after \<noteq> U ''__muzilla_embedded_art''"
    "U ''__muzilla_lyrics'' \<noteq> U ''__muzilla_embedded_art''" "U ''__muzilla_lyrics'' \<noteq> U ''__muzilla_catalog_art_blob_id''"
    "U ''__muzilla_lyrics'' \<noteq> U ''__muzilla_art_blob_id''" "U ''__muzilla_embedded_art'' \<noteq> U ''__muzilla_art_blob_id''"
    "U ''__muzilla_embedded_art'' \<noteq> U ''__muzilla_catalog_art_blob_id''"
    "U ''__muzilla_catalog_art_blob_id'' \<noteq> U ''__muzilla_art_blob_id''"
    by simp_all
  show ?thesis
    using assms(1) unfolding inverse_of_def tag_inverse_def Let_def
    by (auto simp: rbind_eq_Inr update_conv' update_internal keys dist dist [symmetric] other plain_filter [OF assms(2)]
        simp del: U_Cons U_Nil split: if_splits)
qed

lemma file_facts_same [simp]:
  "tk_fields (update_file_facts x h t) = tk_fields t" "tk_art (update_file_facts x h t) = tk_art t"
  "tk_group (update_file_facts x h t) = tk_group t" "tk_path (update_file_facts x h t) = tk_path t"
  "tk_id (update_file_facts x h t) = tk_id t" "tk_name (update_file_facts x h t) = tk_name t"
  "update_file_facts x h (update_file_facts x h t) = update_file_facts x h t"
  by (simp_all add: update_file_facts_def split: prod.splits)

lemma set_field_same [simp]:
  "tk_art (set_field f v t) = tk_art t" "tk_group (set_field f v t) = tk_group t" "tk_path (set_field f v t) = tk_path t"
  "tk_id (set_field f v t) = tk_id t" "tk_name (set_field f v t) = tk_name t"
  by (simp_all add: set_field_def)

lemma fold_set_field_same:
  "tk_art (fold (\<lambda>(k, v). set_field k v) kvs t) = tk_art t \<and> tk_group (fold (\<lambda>(k, v). set_field k v) kvs t) = tk_group t
   \<and> tk_path (fold (\<lambda>(k, v). set_field k v) kvs t) = tk_path t \<and> tk_id (fold (\<lambda>(k, v). set_field k v) kvs t) = tk_id t
   \<and> tk_name (fold (\<lambda>(k, v). set_field k v) kvs t) = tk_name t"
  by (induction kvs arbitrary: t) auto

lemma apply_plan_same:
  "tk_group (apply_plan p t) = tk_group t" "tk_path (apply_plan p t) = tk_path t" "tk_id (apply_plan p t) = tk_id t"
  "tk_name (apply_plan p t) = tk_name t"
  "\<not> plans_art p \<Longrightarrow> tk_art (apply_plan p t) = tk_art t"
  by (simp_all add: apply_plan_def Let_def plans_art_def fold_set_field_same split: option.splits)

lemma field_of_set_field: "field_of (set_field f v t) f' = (if f' = f then v else field_of t f')"
  by (simp add: field_of_def set_field_def update_conv')

text \<open>What the restoration makes of the written track.\<close>

definition restored_track :: "file_facts \<Rightarrow> ustr \<Rightarrow> json \<Rightarrow> track \<Rightarrow> track" where
  "restored_track x h blob t =
     update_file_facts x h (restore_lyrics blob (restore_art blob (restore_fields blob t)))"

lemma desired_inverse:
  assumes "inverse_of dk w t p blob" and "tk_art t1 = tk_art t \<or> plans_art p"
  shows "desired_art blob t1 = json_of_int (tk_art t)"
  using assms by (auto simp: inverse_of_def desired_art_def jget_default_def split: if_splits)

lemma restore_fields_same:
  "tk_art (restore_fields blob t) = tk_art t" "tk_group (restore_fields blob t) = tk_group t"
  "tk_path (restore_fields blob t) = tk_path t" "tk_id (restore_fields blob t) = tk_id t"
  "tk_name (restore_fields blob t) = tk_name t"
  by (simp_all add: restore_fields_def fold_set_field_same)

lemma restored_fields:
  assumes "inverse_of dk w t p blob" and "plain_fields t" and "(f, v) \<in> set (tk_fields t)"
  shows "field_of (restore_fields blob t1) f = v"
proof -
  have "map_of (tk_fields (restore_fields blob t1)) = map_of (tk_fields t1) ++ map_of (tk_fields t)"
    using assms(1,2) fold_set_field [of "tk_fields t" t1] by (simp add: restore_fields_def inverse_of_def plain_fields_def)
  then show ?thesis
    using assms(2,3) by (simp add: field_of_def map_add_def plain_fields_def)
qed


lemma opt_int_json [simp]: "opt_int (json_of_int x) = x"
  by (cases x) simp_all

lemma json_of_int_null [simp]: "json_of_int x = JNull \<longleftrightarrow> x = None"
  by (cases x) (simp_all add: json_of_int_def)

text \<open>The flags that an inverse shows: of its artwork, beside the artwork that the catalog links, and of its lyrics.\<close>

definition shows_art :: "json \<Rightarrow> int option \<Rightarrow> bool" where
  "shows_art a linked = (let es = jget a (U ''entries'') in if is_list es then list_value es \<noteq> [] else linked \<noteq> None)"

definition shows_synced :: "json \<Rightarrow> bool" where
  "shows_synced l \<longleftrightarrow> is_dict l \<and> truthy (jget l (U ''synced''))"

lemma restored_inverse:
  assumes inv: "inverse_of dk w t p blob" and plain: "plain_fields t"
    and t1: "tk_art t1 = tk_art t \<or> plans_art p" "tk_group t1 = tk_group t" "tk_path t1 = tk_path t" "tk_id t1 = tk_id t"
      "tk_name t1 = tk_name t"
    and t2: "t2 = restored_track x h blob t1"
  shows "tk_id t2 = tk_id t \<and> tk_path t2 = tk_path t \<and> tk_name t2 = tk_name t \<and> tk_group t2 = tk_group t
      \<and> tk_art t2 = tk_art t"
    and "(f, v) \<in> set (tk_fields t) \<Longrightarrow> f \<noteq> U ''has_embedded_art'' \<Longrightarrow>
      tp_lyrics p = None \<or> f \<notin> {U ''has_lyrics'', U ''lyrics_synced''} \<Longrightarrow> field_of t2 f = v"
    and "\<not> plans_art p \<Longrightarrow> field_of t2 (U ''has_embedded_art'') = JBool (tk_art t \<noteq> None)"
    and "plans_art p \<Longrightarrow> \<exists>a. dk_artwork dk w t = Inr a
      \<and> field_of t2 (U ''has_embedded_art'') = JBool (shows_art a (tk_art t))"
    and "tp_lyrics p \<noteq> None \<Longrightarrow> field_of t2 (U ''has_lyrics'') = JBool (dk_lyrics dk w (tk_path t) \<noteq> JNull)
      \<and> field_of t2 (U ''lyrics_synced'') = JBool (shows_synced (dk_lyrics dk w (tk_path t)))"
proof -
  let ?r = "restore_art blob (restore_fields blob t1)"
  have des: "desired_art blob (restore_fields blob t1) = json_of_int (tk_art t)"
    by (rule desired_inverse [OF inv]) (use t1(1) in \<open>simp add: restore_fields_same\<close>)
  have lyr: "map_of (entries blob) (U ''__muzilla_lyrics'') =
      (if tp_lyrics p = None then None else Some (dk_lyrics dk w (tk_path t)))"
    using inv by (simp add: inverse_of_def)
  have f2: "field_of t2 f = field_of (restore_lyrics blob ?r) f" for f
    by (simp add: t2 restored_track_def field_of_def)
  show "tk_id t2 = tk_id t \<and> tk_path t2 = tk_path t \<and> tk_name t2 = tk_name t \<and> tk_group t2 = tk_group t
      \<and> tk_art t2 = tk_art t"
    using t1 des by (simp add: t2 restored_track_def restore_lyrics_def restore_art_def Let_def restore_fields_same
        del: U_Cons U_Nil split: option.splits)
  have dist: "U ''has_embedded_art'' \<noteq> U ''has_lyrics''" "U ''has_embedded_art'' \<noteq> U ''lyrics_synced''"
    "U ''has_lyrics'' \<noteq> U ''lyrics_synced''" by simp_all
  have art: "field_of ?r f = field_of (restore_fields blob t1) f" if "f \<noteq> U ''has_embedded_art''" for f
    using that by (simp add: restore_art_def Let_def set_field_def field_of_def update_conv' del: U_Cons U_Nil)
  show "field_of t2 f = v" if "(f, v) \<in> set (tk_fields t)" "f \<noteq> U ''has_embedded_art''"
      "tp_lyrics p = None \<or> f \<notin> {U ''has_lyrics'', U ''lyrics_synced''}"
    using that art restored_fields [OF inv plain that(1)] unfolding f2 restore_lyrics_def lyr
    by (auto simp: field_of_set_field simp del: U_Cons U_Nil)
  show "field_of t2 (U ''has_embedded_art'') = JBool (tk_art t \<noteq> None)" if "\<not> plans_art p"
  proof -
    have "jget (jget blob (U ''__muzilla_embedded_art'')) (U ''entries'') = JNull"
      using inv that by (simp add: inverse_of_def jget_def del: U_Cons U_Nil)
    then have "field_of ?r (U ''has_embedded_art'') = JBool (tk_art t \<noteq> None)"
      using des by (simp add: restore_art_def Let_def field_of_set_field del: U_Cons U_Nil)
    then show ?thesis
      unfolding f2 restore_lyrics_def lyr using dist by (simp add: field_of_set_field del: U_Cons U_Nil)
  qed
  show "\<exists>a. dk_artwork dk w t = Inr a \<and> field_of t2 (U ''has_embedded_art'') = JBool (shows_art a (tk_art t))"
    if "plans_art p"
  proof -
    obtain a where a: "dk_artwork dk w t = Inr a" "map_of (entries blob) (U ''__muzilla_embedded_art'') = Some a"
      using inv \<open>plans_art p\<close> by (auto simp: inverse_of_def)
    then have "jget blob (U ''__muzilla_embedded_art'') = a" by (simp add: jget_def del: U_Cons U_Nil)
    then have "field_of ?r (U ''has_embedded_art'') = JBool (shows_art a (tk_art t))"
      using des by (simp add: restore_art_def Let_def field_of_set_field shows_art_def del: U_Cons U_Nil)
    then have "field_of t2 (U ''has_embedded_art'') = JBool (shows_art a (tk_art t))"
      unfolding f2 restore_lyrics_def lyr using dist by (simp add: field_of_set_field del: U_Cons U_Nil)
    then show ?thesis using a(1) by blast
  qed
  show "field_of t2 (U ''has_lyrics'') = JBool (dk_lyrics dk w (tk_path t) \<noteq> JNull)
      \<and> field_of t2 (U ''lyrics_synced'') = JBool (shows_synced (dk_lyrics dk w (tk_path t)))" if "tp_lyrics p \<noteq> None"
    unfolding f2 restore_lyrics_def lyr using that dist
    by (auto simp: field_of_set_field shows_synced_def simp del: U_Cons U_Nil)
qed

text \<open>A successful write of tags, and the restoration of its journal row.\<close>

lemma write_tags_success:
  assumes "write_tag_fields dk run t p it wd = (wd1, None)" and "has_changes p" and "plain_fields t"
    and "find_journal wd1 (next_id fj_id (wd_journals wd)) = Some j"
  obtains x h where "inverse_of dk (wd_disk wd) t p (fj_blob j)" and "fj_path j = tk_path t"
    and "wd_tracks wd1 = update_where (\<lambda>x. tk_id x = tk_id t) (apply_plan p \<circ> update_file_facts x h) (wd_tracks wd)"
proof -
  let ?jid = "next_id fj_id (wd_journals wd)"
  obtain g blob where inv: "tag_inverse dk (wd_disk wd) t g p = Inr blob"
    and pub: "publish_tags dk ?jid t g p (start_tag_journal run t blob wd) = (wd1, None)"
    using assms(1,2) by (auto simp: write_tag_fields_def Let_def simp del: U_Cons U_Nil split: sum.splits option.splits)
  obtain after h w x where perf: "dk_publish dk (wd_disk wd) ?jid (tk_path t) g p = Performed after h w"
      "read_facts dk w (tk_path t) = Inr x"
    using pub by (auto simp: publish_tags_def start_tag_journal_def add_journal_def persist_failure_def
        split: effect.splits sum.splits)
  have none: "find_row fj_id ?jid (wd_journals wd) = None"
    unfolding find_row_None by (auto dest: next_id_fresh [of _ _ fj_id])
  have tr: "wd_tracks wd1 = update_where (\<lambda>x. tk_id x = tk_id t) (apply_plan p \<circ> update_file_facts x h) (wd_tracks wd)"
    and js: "wd_journals wd1 = update_where (\<lambda>j. fj_id j = ?jid)
        (\<lambda>j. (put_guard guard_after (Some after) j)\<lparr>fj_state := FJ_DONE, fj_after_hash := Some h\<rparr>)
        (wd_journals (start_tag_journal run t blob wd))"
    using pub perf
    by (auto simp: publish_tags_def Let_def finish_journal_def edit_track_def edit_journal_def start_tag_journal_def
        add_journal_def simp del: U_Cons U_Nil)
  have "find_row fj_id ?jid (wd_journals (start_tag_journal run t blob wd)) =
      Some ((journal_row run t (U ''tags'') FJ_WRITING blob)\<lparr>fj_before_hash := tk_hash t, fj_id := ?jid\<rparr>)"
    using none by (simp add: find_row_def start_tag_journal_def add_journal_def find_append journal_row_def del: U_Cons U_Nil)
  then have row: "fj_blob j = jset guard_after after blob \<and> fj_path j = tk_path t"
    using assms(4) unfolding find_journal_def js
    by (subst (asm) find_row_update) (auto simp: put_guard_def journal_row_def simp del: U_Cons U_Nil)
  then have "inverse_of dk (wd_disk wd) t p (fj_blob j)" using tag_inverse_of [OF inv assms(3)] by simp
  then show ?thesis using row tr by (intro that) simp_all
qed

lemma restore_tags_success:
  assumes "restore_tags dk t j base wd = Rolled b wd'" and "fj_path j = tk_path t"
  obtains x h where "wd_tracks wd' = update_where (\<lambda>x. tk_id x = tk_id t) (restored_track x h (fj_blob j)) (wd_tracks wd)"
    and "read_facts dk (wd_disk wd') (tk_path t) = Inr x"
proof -
  obtain x h where r: "wd_tracks wd' = update_where (\<lambda>x. tk_id x = tk_id t)
      (update_file_facts x h \<circ> restore_lyrics (fj_blob j) \<circ> restore_art (fj_blob j) \<circ> restore_fields (fj_blob j))
      (wd_tracks wd)" "read_facts dk (wd_disk wd') (tk_path t) = Inr x"
    using assms unfolding restore_tags_def Let_def edit_track_def edit_journal_def
    by (simp split: if_split_asm sum.split_asm reversal.split_asm option.split_asm) auto
  moreover have "update_file_facts x h \<circ> restore_lyrics (fj_blob j) \<circ> restore_art (fj_blob j) \<circ> restore_fields (fj_blob j)
      = restored_track x h (fj_blob j)"
    by (simp add: fun_eq_iff restored_track_def)
  ultimately show ?thesis using that [of x h] by simp
qed

text \<open>C39. Rolling back a tag write gives the catalog row back. Identity, path, name, work unit, linked artwork and every
  metadata field have the values from before the write, except for three flags, which the rollback computes. The flag
  for embedded artwork says whether artwork is linked when the write did not touch artwork, and otherwise
  whether the inverse holds any; after a write of lyrics, the two lyrics flags are those of the lyrics that the file had
  before the write. Size, modification time and hash of the row are read again from the restored file.
\<close>

theorem tag_rollback_restores_catalog:
  assumes "write_tag_fields dk run t p it wd = (wd1, None)" and "has_changes p" and "plain_fields t"
    and "get_track wd (tk_id t) = Some t" and "find_journal wd1 (next_id fj_id (wd_journals wd)) = Some j"
    and "get_track wd1 (tk_id t) = Some t1" and "restore_tags dk t1 j base wd1 = Rolled b wd2"
  shows "\<exists>t2 x h. get_track wd2 (tk_id t) = Some t2
    \<and> tk_path t2 = tk_path t \<and> tk_name t2 = tk_name t \<and> tk_group t2 = tk_group t \<and> tk_art t2 = tk_art t
    \<and> (\<forall>(f, v)\<in>set (tk_fields t). f \<noteq> U ''has_embedded_art'' \<longrightarrow>
         (tp_lyrics p = None \<or> f \<notin> {U ''has_lyrics'', U ''lyrics_synced''}) \<longrightarrow> field_of t2 f = v)
    \<and> (\<not> plans_art p \<longrightarrow> field_of t2 (U ''has_embedded_art'') = JBool (tk_art t \<noteq> None))
    \<and> (plans_art p \<longrightarrow> (\<exists>a. dk_artwork dk (wd_disk wd) t = Inr a
         \<and> field_of t2 (U ''has_embedded_art'') = JBool (shows_art a (tk_art t))))
    \<and> (tp_lyrics p \<noteq> None \<longrightarrow>
         field_of t2 (U ''has_lyrics'') = JBool (dk_lyrics dk (wd_disk wd) (tk_path t) \<noteq> JNull)
         \<and> field_of t2 (U ''lyrics_synced'') = JBool (shows_synced (dk_lyrics dk (wd_disk wd) (tk_path t))))
    \<and> read_facts dk (wd_disk wd2) (tk_path t) = Inr x \<and> t2 = update_file_facts x h t2"
proof -
  obtain x h where inv: "inverse_of dk (wd_disk wd) t p (fj_blob j)" and path: "fj_path j = tk_path t"
    and tr1: "wd_tracks wd1 = update_where (\<lambda>x. tk_id x = tk_id t) (apply_plan p \<circ> update_file_facts x h) (wd_tracks wd)"
    by (rule write_tags_success [OF assms(1,2,3,5)])
  let ?t1 = "apply_plan p (update_file_facts x h t)"
  have t1: "t1 = ?t1"
    using assms(4,6) unfolding get_track_def tr1 by (subst (asm) find_row_update) (auto simp: apply_plan_same)
  have id1: "tk_id t1 = tk_id t" by (simp add: t1 apply_plan_same)
  have r: "tk_art t1 = tk_art t \<or> plans_art p" "tk_group t1 = tk_group t" "tk_path t1 = tk_path t"
    by (auto simp: t1 apply_plan_same)
  have name: "tk_name t1 = tk_name t" by (simp add: t1 apply_plan_same)
  obtain x2 h2 where tr2:
      "wd_tracks wd2 = update_where (\<lambda>x. tk_id x = tk_id t1) (restored_track x2 h2 (fj_blob j)) (wd_tracks wd1)"
    and facts: "read_facts dk (wd_disk wd2) (tk_path t1) = Inr x2"
    by (rule restore_tags_success [OF assms(7)]) (simp add: path r)
  let ?t2 = "restored_track x2 h2 (fj_blob j) t1"
  note res = restored_inverse [OF inv assms(3) r id1 name refl, where x = x2 and h = h2]
  have same: "?t2 = update_file_facts x2 h2 ?t2" by (simp add: restored_track_def)
  have "tk_id (restored_track x2 h2 (fj_blob j) y) = tk_id y" for y
    by (simp add: restored_track_def restore_lyrics_def restore_art_def Let_def restore_fields_same split: option.splits)
  then have "get_track wd2 (tk_id t) = Some ?t2"
    using assms(6) id1 unfolding get_track_def tr2 by (subst find_row_update) auto
  then show ?thesis using res same facts r(3)
    by (intro exI [of _ ?t2] exI [of _ x2] exI [of _ h2]) (auto simp del: U_Cons U_Nil)
qed


section \<open>Grouping corrections\<close>

definition members :: "'w world \<Rightarrow> int \<Rightarrow> nat" where
  "members wd g = length (filter (\<lambda>t. tk_group t = Some g) (wd_tracks wd))"

text \<open>Identities are distinct and the counts of work units are those of their members.\<close>

definition catalog_ok :: "'w world \<Rightarrow> bool" where
  "catalog_ok wd \<longleftrightarrow>
     distinct (map tk_id (wd_tracks wd)) \<and> distinct (map wu_id (wd_units wd))
     \<and> (\<forall>u\<in>set (wd_units wd). wu_count u = members wd (wu_id u))"

lemma unit_frames [simp]:
  "wd_units (edit_track i tf wd) = wd_units wd" "wd_units (edit_journal i jf wd) = wd_units wd"
  "wd_units (add_journal j wd) = wd_units wd" "wd_units (set_tries is s e wd) = wd_units wd"
  "wd_units (edit_unit i uf wd) = update_where (\<lambda>u. wu_id u = i) uf (wd_units wd)"
  "wd_tracks (edit_track i tf wd) = update_where (\<lambda>t. tk_id t = i) tf (wd_tracks wd)"
  "wd_tracks (add_journal j wd) = wd_tracks wd" "wd_tracks (set_tries is s e wd) = wd_tracks wd"
  by (simp_all add: edit_track_def edit_journal_def add_journal_def set_tries_def edit_unit_def)

lemma recount_frames [simp]:
  "wd_tracks (recount_groups gs wd) = wd_tracks wd"
  "wd_units (recount_groups gs wd) =
     update_where (\<lambda>u. wu_id u \<in> set gs) (\<lambda>u. u\<lparr>wu_count := members wd (wu_id u)\<rparr>) (wd_units wd)"
  by (simp_all add: recount_groups_def members_def)

lemma restore_pin_frames [simp]:
  "wd_tracks (restore_pin a b wd) = wd_tracks wd"
  "wd_units (restore_pin (JInt n) (JBool q) wd) = update_where (\<lambda>u. wu_id u = n) (\<lambda>u. u\<lparr>wu_pinned := q\<rparr>) (wd_units wd)"
  "restore_pin JNull b wd = wd"
  by (simp_all add: restore_pin_def)

text \<open>What a correction does to tracks and work units: \<open>target\<close> is the work unit the track moves to, if any.\<close>

definition regrouped :: "int \<Rightarrow> int \<Rightarrow> int option \<Rightarrow> 'w world \<Rightarrow> 'w world \<Rightarrow> work_unit list \<Rightarrow> bool" where
  "regrouped tid source target wd wd' extra \<longleftrightarrow>
     wd_tracks wd' = (case target of None \<Rightarrow> wd_tracks wd
       | Some g \<Rightarrow> update_where (\<lambda>t. tk_id t = tid) (\<lambda>t. t\<lparr>tk_group := Some g\<rparr>) (wd_tracks wd))
     \<and> wd_units wd' = update_where (\<lambda>u. wu_id u = (case target of None \<Rightarrow> source | Some g \<Rightarrow> g)) (\<lambda>u. u\<lparr>wu_pinned := True\<rparr>)
         (wd_units wd @ extra)"

definition regroup_blob :: "json \<Rightarrow> (int \<times> bool) option \<Rightarrow> json \<Rightarrow> bool" where
  "regroup_blob blob target blob' \<longleftrightarrow>
     (\<forall>k\<in>{U ''group_id'', U ''source_group_id'', U ''source_is_pinned''}. jget blob' k = jget blob k)
     \<and> (case target of
          None \<Rightarrow> jget blob' (U ''target_group_id'') = jget blob (U ''target_group_id'')
            \<and> jget blob' (U ''target_is_pinned'') = jget blob (U ''target_is_pinned'')
        | Some (g, p) \<Rightarrow> jget blob' (U ''target_group_id'') = JInt g \<and> jget blob' (U ''target_is_pinned'') = JBool p)"

lemma regroup_cases:
  assumes "regroup std key_of t source value blob wd = Inr (wd', blob', dirty)"
  obtains (confirmed) "regrouped (tk_id t) source None wd wd' []" "regroup_blob blob None blob'" "dirty = [source]"
    | (moved) u where "u \<in> set (wd_units wd)" "regrouped (tk_id t) source (Some (wu_id u)) wd wd' []"
      "regroup_blob blob (Some (wu_id u, wu_pinned u)) blob'" "dirty = [source, wu_id u]"
    | (created) u where "wu_id u = next_id wu_id (wd_units wd)" "\<not> wu_pinned u"
      "regrouped (tk_id t) source (Some (wu_id u)) wd wd' [u]"
      "regroup_blob blob (Some (wu_id u, wu_pinned u)) blob'" "dirty = [source, wu_id u]"
proof -
  have keys: "U ''target_group_id'' \<noteq> U ''target_is_pinned''" "U ''target_was_new'' \<noteq> U ''target_is_pinned''"
    "U ''target_was_new'' \<noteq> U ''target_group_id''" "U ''group_id'' \<noteq> U ''target_group_id''"
    "U ''group_id'' \<noteq> U ''target_is_pinned''" "U ''group_id'' \<noteq> U ''target_was_new''"
    "U ''source_group_id'' \<noteq> U ''target_group_id''" "U ''source_group_id'' \<noteq> U ''target_is_pinned''"
    "U ''source_group_id'' \<noteq> U ''target_was_new''" "U ''source_is_pinned'' \<noteq> U ''target_group_id''"
    "U ''source_is_pinned'' \<noteq> U ''target_is_pinned''" "U ''source_is_pinned'' \<noteq> U ''target_was_new''"
    by simp_all
  note simps = regrouped_def regroup_blob_def put_member_def target_blob_def jget_jset keys keys [symmetric]
  have single: thesis if r: "regroup_singleton key_of t source value blob wd = Inr (wd', blob', dirty)"
  proof (cases "find (\<lambda>u. wu_key u = key_of (tk_id t)) (wd_units wd)")
    case None
    let ?u = "singleton_unit wd (key_of (tk_id t))"
    have u: "wu_id ?u = next_id wu_id (wd_units wd)" "\<not> wu_pinned ?u" by (simp_all add: singleton_unit_def)
    show ?thesis
      by (rule created [of ?u]) (use r None u in \<open>auto simp: regroup_singleton_def Let_def simps simp del: U_Cons U_Nil split: if_splits\<close>)
  next
    case (Some u)
    then have "u \<in> set (wd_units wd)" by (auto simp: find_Some_iff)
    then show ?thesis
      by (rule moved) (use r Some in \<open>auto simp: regroup_singleton_def Let_def simps simp del: U_Cons U_Nil split: if_splits\<close>)
  qed
  have coll: "regroup_collection std t source value blob wd = Inr (wd', blob', dirty) \<Longrightarrow> thesis"
    using moved
    by (auto simp: regroup_collection_def Let_def simps find_unit_def simp del: U_Cons U_Nil
        dest!: find_row_Some split: if_splits option.splits)
  show ?thesis
    using assms confirmed single coll unfolding regroup_def Let_def
    by (auto simp: regrouped_def regroup_blob_def simp del: U_Cons U_Nil split: if_splits)
qed


text \<open>The work units after a correction and its undoing, one by one.\<close>

definition unit_cycle :: "'w world \<Rightarrow> int \<Rightarrow> bool \<Rightarrow> (int \<times> bool) option \<Rightarrow> work_unit \<Rightarrow> work_unit" where
  "unit_cycle wd source p target u =
     (let i = wu_id u; touched = (i = source \<or> (\<exists>q. target = Some (i, q)));
          pinned = (if (case target of None \<Rightarrow> i = source | Some (g, q) \<Rightarrow> i = g) then True else wu_pinned u)
      in u\<lparr>wu_pinned := (case target of Some (g, q) \<Rightarrow> if i = g then q else if i = source then p else pinned
                         | None \<Rightarrow> if i = source then p else pinned),
           wu_count := (if touched then members wd i else wu_count u)\<rparr>)"

lemma unit_cycle_same:
  assumes "wu_count u = members wd (wu_id u)" and "wu_id u = source \<Longrightarrow> wu_pinned u = p"
    and "\<And>q. target = Some (wu_id u, q) \<Longrightarrow> wu_pinned u = q"
  shows "unit_cycle wd source p target u = u"
  using assms by (cases u) (auto simp: unit_cycle_def Let_def split: option.splits if_splits)

lemma undo_after_correction:
  assumes "regrouped tid source (map_option fst target) wd wd' extra"
    and "wd_tracks wd1 = wd_tracks wd'"
    and "wd_units wd1 = update_where (\<lambda>u. wu_id u \<in> set dirty) (\<lambda>u. u\<lparr>wu_count := members wd' (wu_id u)\<rparr>) (wd_units wd')"
    and "set dirty = insert source (fst ` set_option target)"
    and "fj_track j = tid" and "jget (fj_blob j) (U ''group_id'') = JInt source"
    and "jget (fj_blob j) (U ''source_group_id'') = JInt source" and "jget (fj_blob j) (U ''source_is_pinned'') = JBool p"
    and "jget (fj_blob j) (U ''target_group_id'') = (case target of None \<Rightarrow> JNull | Some (g, q) \<Rightarrow> JInt g)"
    and "jget (fj_blob j) (U ''target_is_pinned'') = (case target of None \<Rightarrow> JNull | Some (g, q) \<Rightarrow> JBool q)"
    and "\<And>t. t \<in> set (wd_tracks wd) \<Longrightarrow> tk_id t = tid \<Longrightarrow> tk_group t = Some source"
  shows "\<exists>wd2. undo_grouping j wd1 = Inr wd2 \<and> wd_tracks wd2 = wd_tracks wd
     \<and> wd_units wd2 = map (unit_cycle wd source p target) (wd_units wd @ extra)"
proof -
  have tr: "update_where (\<lambda>t. tk_id t = tid) (\<lambda>t. t\<lparr>tk_group := Some source\<rparr>) (wd_tracks wd') = wd_tracks wd"
    using assms(1,11) by (auto simp: regrouped_def update_where_def split: option.splits intro!: map_idI)
  have m: "members wdx = members wd" if "wd_tracks wdx = wd_tracks wd" for wdx
    using that by (simp add: members_def fun_eq_iff)
  show ?thesis
  proof (cases target)
    case None
    then have "undo_grouping j wd1 = Inr (edit_journal (fj_id j) (\<lambda>x. x\<lparr>fj_state := FJ_ROLLED_BACK\<rparr>)
        (recount_groups [source, source] (restore_pin (JInt source) (JBool p)
           (edit_track tid (\<lambda>t. t\<lparr>tk_group := Some source\<rparr>) wd1))))"
      using assms by (simp add: undo_grouping_def Let_def del: U_Cons U_Nil)
    moreover have "members (restore_pin (JInt source) (JBool p) (edit_track tid (\<lambda>t. t\<lparr>tk_group := Some source\<rparr>) wd1)) = members wd"
      by (rule m) (simp add: assms(2) tr)
    ultimately show ?thesis
      using assms(1,3,4) None tr assms(2)
      by (auto simp: regrouped_def update_where_def unit_cycle_def Let_def)
  next
    case (Some gq)
    obtain g q where t: "target = Some (g, q)" using Some by (cases gq) simp
    then have "undo_grouping j wd1 = Inr (edit_journal (fj_id j) (\<lambda>x. x\<lparr>fj_state := FJ_ROLLED_BACK\<rparr>)
        (recount_groups [source, source, g] (restore_pin (JInt g) (JBool q) (restore_pin (JInt source) (JBool p)
           (edit_track tid (\<lambda>t. t\<lparr>tk_group := Some source\<rparr>) wd1)))))"
      using assms by (simp add: undo_grouping_def Let_def del: U_Cons U_Nil)
    moreover have "members (restore_pin (JInt g) (JBool q) (restore_pin (JInt source) (JBool p)
        (edit_track tid (\<lambda>t. t\<lparr>tk_group := Some source\<rparr>) wd1))) = members wd"
      by (rule m) (simp add: assms(2) tr)
    ultimately show ?thesis
      using assms(1,3,4) t tr assms(2)
      by (auto simp: regrouped_def update_where_def unit_cycle_def Let_def)
  qed
qed


lemma correction_success:
  assumes "apply_grouping_correction std key_of run t [op] wd = (wd1, None)"
    and "find_journal wd1 (next_id fj_id (wd_journals wd)) = Some j"
  obtains u wd' blob dirty where "correction_source wd t op = Inr u"
    and "regroup std key_of t (wu_id u) (o_proposed op) (correction_blob t u op)
      (add_journal (journal_row run t (U ''grouping'') FJ_WRITING (correction_blob t u op)) wd) = Inr (wd', blob, dirty)"
    and "wd_tracks wd1 = wd_tracks wd'"
    and "wd_units wd1 = update_where (\<lambda>u. wu_id u \<in> set dirty) (\<lambda>u. u\<lparr>wu_count := members wd' (wu_id u)\<rparr>) (wd_units wd')"
    and "fj_blob j = blob" and "fj_track j = tk_id t"
proof -
  let ?jid = "next_id fj_id (wd_journals wd)"
  obtain u where u: "correction_source wd t op = Inr u"
    using assms(1) by (auto simp: apply_grouping_correction_def split: sum.splits)
  let ?row = "journal_row run t (U ''grouping'') FJ_WRITING (correction_blob t u op)"
  obtain wd' blob dirty where r: "regroup std key_of t (wu_id u) (o_proposed op) (correction_blob t u op) (add_journal ?row wd)
      = Inr (wd', blob, dirty)"
    using assms(1) u by (auto simp: apply_grouping_correction_def Let_def simp del: U_Cons U_Nil split: sum.splits)
  have wd1: "wd1 = set_tries [o_id op] TRY_APPLIED None (finish_correction ?jid (wd', blob, dirty))"
    using assms(1) u r by (simp add: apply_grouping_correction_def Let_def del: U_Cons U_Nil)
  have "wd_journals wd' = wd_journals (add_journal ?row wd)"
    using r by (auto simp: regroup_def regroup_singleton_def regroup_collection_def Let_def simp del: U_Cons U_Nil
        split: if_splits option.splits)
  moreover have "find_row fj_id ?jid (wd_journals wd) = None"
    unfolding find_row_None by (auto dest: next_id_fresh [of _ _ fj_id])
  ultimately have row: "find_row fj_id ?jid (wd_journals wd') = Some (?row\<lparr>fj_id := ?jid\<rparr>)"
    by (simp add: find_row_def add_journal_def find_append del: U_Cons U_Nil)
  have "fj_blob j = blob \<and> fj_track j = tk_id t"
    using assms(2) row unfolding wd1 find_journal_def finish_correction_def
    by (simp add: find_row_update del: U_Cons U_Nil) (auto simp: journal_row_def simp del: U_Cons U_Nil)
  then show ?thesis using u r by (intro that) (simp_all add: wd1 finish_correction_def)
qed

text \<open>C9. The rollback of a grouping correction gives the groups back exactly: after an applied correction, undoing
  its journal row succeeds, every track is in the work unit it was in, and every work unit has its former pin and
  count and all else; the only trace is the work unit that the correction may have created for a
  singleton, which is left unpinned.
\<close>

theorem grouping_rollback_restores:
  assumes "catalog_ok wd" and "get_track wd (tk_id t) = Some t"
    and "apply_grouping_correction std key_of run t [op] wd = (wd1, None)"
    and "find_journal wd1 (next_id fj_id (wd_journals wd)) = Some j"
  shows "\<exists>wd2 extra. undo_grouping j wd1 = Inr wd2 \<and> wd_tracks wd2 = wd_tracks wd \<and> wd_units wd2 = wd_units wd @ extra
    \<and> length extra \<le> 1 \<and> (\<forall>u\<in>set extra. \<not> wu_pinned u)"
proof -
  obtain u wd' blob dirty where u: "correction_source wd t op = Inr u"
    and r: "regroup std key_of t (wu_id u) (o_proposed op) (correction_blob t u op)
      (add_journal (journal_row run t (U ''grouping'') FJ_WRITING (correction_blob t u op)) wd) = Inr (wd', blob, dirty)"
    and tr: "wd_tracks wd1 = wd_tracks wd'"
    and un: "wd_units wd1 = update_where (\<lambda>u. wu_id u \<in> set dirty) (\<lambda>u. u\<lparr>wu_count := members wd' (wu_id u)\<rparr>) (wd_units wd')"
    and j: "fj_blob j = blob" "fj_track j = tk_id t"
    by (rule correction_success [OF assms(3,4)])
  let ?wd0 = "add_journal (journal_row run t (U ''grouping'') FJ_WRITING (correction_blob t u op)) wd"
  obtain g where g: "find_unit wd g = Some u" "tk_group t = Some g"
    using u by (auto simp: correction_source_def Let_def simp del: U_Cons U_Nil split: if_splits option.splits)
  then have "g = wu_id u" by (auto simp: find_unit_def dest: find_row_Some)
  then have src: "find_unit wd (wu_id u) = Some u" "tk_group t = Some (wu_id u)" using g by simp_all
  have same_unit: "x = u'" if "x \<in> set (wd_units wd)" "u' \<in> set (wd_units wd)" "wu_id x = wu_id u'" for x u'
    using that assms(1) by (auto simp: catalog_ok_def distinct_map inj_on_def)
  have u_in: "u \<in> set (wd_units wd)" using src(1) by (auto simp: find_unit_def dest: find_row_Some)
  have group: "tk_group x = Some (wu_id u)" if "x \<in> set (wd_tracks wd)" "tk_id x = tk_id t" for x
  proof -
    have "find_row tk_id (tk_id x) (wd_tracks wd) = Some x"
      by (rule find_row_unique) (use assms(1) that(1) in \<open>simp_all add: catalog_ok_def\<close>)
    then show ?thesis using assms(2) that(2) src(2) by (simp add: get_track_def)
  qed
  have keys: "U ''group_id'' \<noteq> U ''source_group_id''" "U ''source_is_pinned'' \<noteq> U ''group_id''"
    "U ''source_is_pinned'' \<noteq> U ''source_group_id''" by simp_all
  have blob0: "jget (correction_blob t u op) (U ''group_id'') = JInt (wu_id u)"
    "jget (correction_blob t u op) (U ''source_group_id'') = JInt (wu_id u)"
    "jget (correction_blob t u op) (U ''source_is_pinned'') = JBool (wu_pinned u)"
    "jget (correction_blob t u op) (U ''target_group_id'') = JNull"
    "jget (correction_blob t u op) (U ''target_is_pinned'') = JNull"
    by (simp_all add: correction_blob_def jget_JObj src(2) json_of_int_def)
  have cycle: "\<exists>wd2. undo_grouping j wd1 = Inr wd2 \<and> wd_tracks wd2 = wd_tracks wd
      \<and> wd_units wd2 = map (unit_cycle wd (wu_id u) (wu_pinned u) target) (wd_units wd @ extra)"
    if "regrouped (tk_id t) (wu_id u) (map_option fst target) ?wd0 wd' extra" "regroup_blob (correction_blob t u op) target blob"
      "set dirty = insert (wu_id u) (fst ` set_option target)" for target extra
    by (rule undo_after_correction [OF _ tr un that(3) j(2)])
      (use that(1,2) blob0 group j(1) in \<open>auto simp: regrouped_def regroup_blob_def simp del: U_Cons U_Nil split: option.splits\<close>)
  have count: "wu_count x = members wd (wu_id x)" if "x \<in> set (wd_units wd)" for x
    using that assms(1) by (simp add: catalog_ok_def)
  have unchanged: "map (unit_cycle wd (wu_id u) (wu_pinned u) target) (wd_units wd) = wd_units wd"
    if "\<And>x q. x \<in> set (wd_units wd) \<Longrightarrow> target = Some (wu_id x, q) \<Longrightarrow> wu_pinned x = q" for target
    by (rule map_idI, rule unit_cycle_same) (use count that same_unit u_in in blast)+
  from r show ?thesis
  proof (cases rule: regroup_cases)
    case confirmed
    then show ?thesis using cycle [of None "[]"] unchanged [of None] by auto
  next
    case (moved x)
    have "map (unit_cycle wd (wu_id u) (wu_pinned u) (Some (wu_id x, wu_pinned x))) (wd_units wd) = wd_units wd"
      by (rule unchanged) (use same_unit moved(1) in auto)
    then show ?thesis using cycle [of "Some (wu_id x, wu_pinned x)" "[]"] moved by auto
  next
    case (created x)
    have "wu_id y \<noteq> wu_id x" if "y \<in> set (wd_units wd)" for y
      using next_id_fresh [OF that, of wu_id] created(1) by simp
    then have "map (unit_cycle wd (wu_id u) (wu_pinned u) (Some (wu_id x, wu_pinned x))) (wd_units wd) = wd_units wd"
      by (intro unchanged) auto
    moreover have "\<not> wu_pinned (unit_cycle wd (wu_id u) (wu_pinned u) (Some (wu_id x, wu_pinned x)) x)"
      using created(2) by (simp add: unit_cycle_def Let_def)
    ultimately show ?thesis
      using cycle [of "Some (wu_id x, wu_pinned x)" "[x]"] created by auto
  qed
qed

end
