(* ===== verification/ApplyWitness.thy ===== *)
theory ApplyWitness
  imports RollbackProperties ReviewWitness
begin

text \<open>
  Concrete instances of the properties of apply runs: the run that the review instance has started, on a disk
  with its one file; a grouping correction; and a crash. The disk has no state: every observation is a
  constant, and every effect succeeds.
\<close>

section \<open>The instance\<close>

definition w_new_guard :: json where
  "w_new_guard = jset (U ''inode'') (JInt 4) w_guard"

definition w_disk :: "unit disk" where
  "w_disk = \<lparr>dk_source_error = (\<lambda>_ _. None), dk_stat = (\<lambda>_ _. Inr (9, 5)), dk_hash = (\<lambda>_ _. Inr (U ''h'')),
     dk_guard = (\<lambda>_ _. Inr (canon w_guard)), dk_content = (\<lambda>_ _. Inr (U ''c'')), dk_backup = (\<lambda>_ _. None),
     dk_lyrics = (\<lambda>_ _. JNull), dk_artwork = (\<lambda>_ _. Inr (JObj [(U ''entries'', JList [])])),
     dk_publish = (\<lambda>_ _ _ _ _. Performed w_new_guard (U ''h2'') ()), dk_destination = (\<lambda>_ p. Inr p),
     dk_exists = (\<lambda>_ _. True), dk_clash = (\<lambda>_ _ _. False), dk_move = (\<lambda>_ _ _ _. Performed w_new_guard (U ''h'') ()),
     dk_name = (\<lambda>p. p), dk_restore = (\<lambda>_ _ _ _ _. Reversed w_guard (U ''h'') ()), dk_case_only = (\<lambda>_ _. False),
     dk_return = (\<lambda>_ _ _ _ _. Reversed w_guard (U ''h'') ()), dk_reconcile = (\<lambda>_ _ _ _. Reversed w_guard (U ''h'') ()),
     dk_blob_error = (\<lambda>_ _. None), dk_finalize = (\<lambda>_ _. ()), dk_recover = (\<lambda>_ _. None), dk_has_blob = (\<lambda>_. True),
     dk_destination_error = (\<lambda>_ _ _. None), dk_root_error = (\<lambda>_. None)\<rparr>"

definition w_track :: track where
  "w_track = \<lparr>tk_id = 7, tk_path = U ''/m/a.mp3'', tk_name = U ''a.mp3'',
     tk_fields = [(U ''title'', JStr (U ''Old'')), (U ''has_embedded_art'', JBool True)], tk_size = 9, tk_mtime = 5,
     tk_content = None, tk_hash = Some (U ''h''), tk_missing = False, tk_group = None, tk_art = None\<rparr>"

definition w_world :: "db \<Rightarrow> unit world" where
  "w_world d = \<lparr>wd_db = d, wd_tracks = [w_track], wd_units = [], wd_journals = [],
     wd_tries = map (\<lambda>a. \<lparr>ot_operation = oa_operation a, ot_state = TRY_PENDING, ot_error = None\<rparr>) (op_attempts d),
     wd_files = [], wd_disk = (), wd_log = []\<rparr>"

definition w_set :: "unit setting" where
  "w_set = \<lparr>se_std = ascii_std, se_repr = plain_repr, se_disk = w_disk, se_key = (\<lambda>_. []), se_run = 1\<rparr>"

definition w_run :: "apply_exc + unit world \<times> apply_result" where
  "w_run = apply_review_run w_set (\<lambda>_. False) (w_world w_applying)"

definition w_runs :: "db \<Rightarrow> bool" where
  "w_runs d \<longleftrightarrow> fresh_run (w_world d) 1
     \<and> (case apply_review_run w_set (\<lambda>_. False) (w_world d) of Inr (wd, r) \<Rightarrow> ar_state r = RUN_APPLIED | Inl _ \<Rightarrow> False)"

lemma w_applying_runs: "w_runs w_applying"
  by code_simp

lemma w_fresh: "fresh_run (w_world w_applying) 1"
  using w_applying_runs unfolding w_runs_def by blast

lemma w_run_applied: "case w_run of Inr (wd, r) \<Rightarrow> ar_state r = RUN_APPLIED | Inl _ \<Rightarrow> False"
  using w_applying_runs unfolding w_runs_def w_run_def by blast

section \<open>Runs\<close>

theorem apply_all_or_nothing_witness:
  "\<exists>wd r. w_run = Inr (wd, r) \<and> ar_state r = RUN_APPLIED \<and> run_recorded 1 RUN_APPLIED (wd_db wd) \<and> well_ended 1 wd r"
proof -
  obtain wd r where r: "w_run = Inr (wd, r)" "ar_state r = RUN_APPLIED"
    using w_run_applied by (auto split: sum.splits)
  moreover have "se_run w_set = 1" by (simp add: w_set_def)
  ultimately show ?thesis
    using apply_all_or_nothing [of "w_world w_applying" w_set "\<lambda>_. False" wd r] w_fresh by (simp add: w_run_def)
qed

theorem finished_run_not_repeated_witness:
  "\<exists>wd r r'. w_run = Inr (wd, r) \<and> apply_review_run w_set (\<lambda>_. True) wd = Inr (wd, r') \<and> ar_state r' = RUN_APPLIED"
proof -
  obtain wd r where r: "w_run = Inr (wd, r)" "ar_state r = RUN_APPLIED"
    using w_run_applied by (auto split: sum.splits)
  moreover have "se_run w_set = 1" by (simp add: w_set_def)
  ultimately show ?thesis
    using finished_run_not_repeated [of "w_world w_applying" w_set "\<lambda>_. False" wd r "\<lambda>_. True"] w_fresh
    by (auto simp: w_run_def)
qed

text \<open>The tags of the file changed after the review. The parts of the instance are functions of its database.\<close>

definition w_changed :: "unit setting" where
  "w_changed = w_set\<lparr>se_disk := w_disk\<lparr>dk_hash := (\<lambda>_ _. Inr (U ''other''))\<rparr>\<rparr>"

definition w_run_of :: "db \<Rightarrow> apply_run" where
  "w_run_of d = hd (apply_runs d)"

definition w_files_of :: "db \<Rightarrow> file_entry list" where
  "w_files_of d = val_of (manifest_files (a_manifest (w_run_of d)))"

definition w_begun_of :: "db \<Rightarrow> unit world" where
  "w_begun_of d = val_of (begin_run (w_run_of d) (w_files_of d) (w_world d))"

definition w_listed :: "db \<Rightarrow> bool" where
  "w_listed d \<longleftrightarrow>
     find_row a_id 1 (apply_runs d) = Some (w_run_of d) \<and> a_state (w_run_of d) = RUN_PENDING
     \<and> find_row b_id (a_bundle (w_run_of d)) (bundles d) = Some (hd (bundles d))
     \<and> got (manifest_files (a_manifest (w_run_of d))) \<and> got (begin_run (w_run_of d) (w_files_of d) (w_world d))"

definition w_refused :: "'w setting \<Rightarrow> db \<Rightarrow> 'w world \<Rightarrow> bool" where
  "w_refused se d wd \<longleftrightarrow>
     bundle_preflight (se_std se) (se_repr se) (se_disk se) ((w_run_of d)\<lparr>a_state := RUN_APPLYING\<rparr>)
       ((hd (bundles d))\<lparr>b_state := APPLYING\<rparr>) wd \<noteq> []"

definition w_refusal :: "db \<Rightarrow> bool" where
  "w_refusal d \<longleftrightarrow> w_listed d \<and> w_refused w_changed d (w_begun_of d) \<and> got (apply_review_run w_changed (\<lambda>_. False) (w_world d))"

lemma w_applying_refusal: "w_refusal w_applying"
  by code_simp

theorem refused_run_writes_nothing_witness:
  "\<exists>wd r. apply_review_run w_changed (\<lambda>_. False) (w_world w_applying) = Inr (wd, r)
     \<and> same_effects (w_world w_applying) wd \<and> ar_state r = RUN_FAILED \<and> run_recorded 1 RUN_FAILED (wd_db wd)"
proof -
  have w: "w_listed w_applying" "w_refused w_changed w_applying (w_begun_of w_applying)"
    "got (apply_review_run w_changed (\<lambda>_. False) (w_world w_applying))"
    using w_applying_refusal unfolding w_refusal_def by blast+
  obtain wd r where r: "apply_review_run w_changed (\<lambda>_. False) (w_world w_applying) = Inr (wd, r)"
    using got_Inr [OF w(3)] by (metis surj_pair)
  have se: "se_run w_changed = 1" by (simp add: w_changed_def w_set_def)
  have db: "wd_db (w_world w_applying) = w_applying" by (simp add: w_world_def)
  have files: "manifest_files (a_manifest (w_run_of w_applying)) = Inr (w_files_of w_applying)"
    using w(1) unfolding w_files_of_def w_listed_def by (intro got_Inr) blast
  have begun: "begin_run (w_run_of w_applying) (w_files_of w_applying) (w_world w_applying) = Inr (w_begun_of w_applying)"
    using w(1) unfolding w_begun_of_def w_listed_def by (intro got_Inr) blast
  show ?thesis
    using refused_run_writes_nothing [OF r, of "w_run_of w_applying" "hd (bundles w_applying)" "w_files_of w_applying"
        "w_begun_of w_applying"] r files begun w(1,2)
    by (simp add: se db w_refused_def w_listed_def)
qed

section \<open>A crash\<close>

text \<open>The write of the tags was under way.\<close>

definition w_crash_of :: "db \<Rightarrow> unit world" where
  "w_crash_of d = (w_begun_of d)\<lparr>wd_journals :=
     [(journal_row 1 w_track (U ''tags'') FJ_WRITING (JObj [(guard_before, w_guard)]))\<lparr>fj_id := 1\<rparr>]\<rparr>"

abbreviation w_crash :: "unit world" where
  "w_crash \<equiv> w_crash_of w_applying"

definition w_crash_row :: "apply_run \<Rightarrow> unit world \<Rightarrow> bool" where
  "w_crash_row run wd \<longleftrightarrow>
     crashed wd \<and> journal_ok wd \<and> got (recover_run w_disk run wd)
     \<and> find_row a_id (a_id run) (apply_runs (wd_db wd)) = Some (hd (apply_runs (wd_db wd)))
     \<and> a_bundle (hd (apply_runs (wd_db wd))) = a_bundle run
     \<and> got (manifest_files (a_manifest (hd (apply_runs (wd_db wd)))))
     \<and> find_row b_id (a_bundle run) (bundles (wd_db wd)) = Some (hd (bundles (wd_db wd)))"

definition w_crash_check :: "db \<Rightarrow> bool" where
  "w_crash_check d = w_crash_row (w_run_of d) (w_crash_of d)"

lemma w_applying_crash: "w_crash_check w_applying"
  by code_simp

lemma w_crashed: "crashed w_crash" "journal_ok w_crash" "got (recover_run w_disk (w_run_of w_applying) w_crash)"
  "readable (w_run_of w_applying) (wd_db w_crash)"
proof -
  have w: "w_crash_row (w_run_of w_applying) w_crash" using w_applying_crash unfolding w_crash_check_def .
  show "crashed w_crash" "journal_ok w_crash" "got (recover_run w_disk (w_run_of w_applying) w_crash)"
    using w unfolding w_crash_row_def by blast+
  show "readable (w_run_of w_applying) (wd_db w_crash)"
    using w got_Inr unfolding w_crash_row_def readable_def by blast
qed

theorem global_recovery_settles_everything_witness:
  "\<exists>wd n. recover_apply_runs w_disk w_crash = Inr (wd, n) \<and> (\<forall>b\<in>set (bundles (wd_db wd)). b_state b \<noteq> APPLYING)"
  using global_recovery_settles_everything [OF w_crashed(1), of w_disk] by blast

theorem interrupted_run_settled_witness:
  "\<exists>wd. recover_run w_disk (w_run_of w_applying) w_crash = Inr wd \<and> run_recorded (a_id (w_run_of w_applying)) RUN_FAILED (wd_db wd)"
  using interrupted_run_settled [OF w_crashed(2) got_Inr [OF w_crashed(3)] w_crashed(4)] got_Inr [OF w_crashed(3)] by blast


section \<open>Rollbacks\<close>

text \<open>A new title for a file that has embedded artwork which the catalog does not hold.\<close>

definition w_item :: snapshot_item where
  "w_item = \<lparr>si_track = 7, si_path = Some (U ''/m/a.mp3''), si_size = Some 9, si_mtime = Some 5, si_hash = Some (U ''h''),
     si_guard = canon w_guard\<rparr>"

definition w_plan :: tag_plan where
  "w_plan = \<lparr>tp_fields = [(U ''title'', JStr (U ''New''))], tp_art = None, tp_remove_art = False, tp_lyrics = None\<rparr>"

definition w_written :: "unit world" where
  "w_written = fst (write_tag_fields w_disk 1 w_track w_plan w_item (w_world empty_db))"

definition w_row :: journal where
  "w_row = hd (wd_journals w_written)"

definition w_after :: track where
  "w_after = hd (wd_tracks w_written)"

definition w_restored :: "unit world" where
  "w_restored = (case restore_tags w_disk w_after w_row w_written w_written of Rolled b wd \<Rightarrow> wd | Stopped e wd \<Rightarrow> wd)"

lemma w_write:
  "snd (write_tag_fields w_disk 1 w_track w_plan w_item (w_world empty_db)) = None" "has_changes w_plan" "plain_fields w_track"
  "get_track (w_world empty_db) (tk_id w_track) = Some w_track"
  "find_journal w_written (next_id fj_id (wd_journals (w_world empty_db))) = Some w_row"
  "get_track w_written (tk_id w_track) = Some w_after"
  "case restore_tags w_disk w_after w_row w_written w_written of Rolled b wd \<Rightarrow> True | Stopped e wd \<Rightarrow> False"
  by code_simp+

theorem tag_rollback_restores_catalog_witness:
  "field_of w_track (U ''has_embedded_art'') = JBool True
   \<and> (\<exists>t. get_track w_restored 7 = Some t \<and> field_of t (U ''title'') = JStr (U ''Old'')
        \<and> field_of t (U ''has_embedded_art'') = JBool False)"
proof -
  have w: "write_tag_fields w_disk 1 w_track w_plan w_item (w_world empty_db) = (w_written, None)"
    using w_write(1) by (simp add: w_written_def prod_eq_iff)
  obtain b where r: "restore_tags w_disk w_after w_row w_written w_written = Rolled b w_restored"
    using w_write(7) unfolding w_restored_def by (auto split: rolled.splits)
  have t: "tk_id w_track = 7" "tk_art w_track = None" "\<not> plans_art w_plan" "tp_lyrics w_plan = None"
    "(U ''title'', JStr (U ''Old'')) \<in> set (tk_fields w_track)" "U ''title'' \<noteq> U ''has_embedded_art''"
    "field_of w_track (U ''has_embedded_art'') = JBool True"
    by code_simp+
  show ?thesis
    using tag_rollback_restores_catalog [OF w w_write(2-6) r] t by (fastforce simp del: U_Cons U_Nil)
qed

text \<open>A track is taken out of its collection.\<close>

definition w_unit :: work_unit where
  "w_unit = \<lparr>wu_id = 1, wu_key = U ''c'', wu_kind = U ''collection'', wu_basis = None, wu_pinned = False,
     wu_album = None, wu_artist = None, wu_count = 1\<rparr>"

definition w_member :: track where
  "w_member = w_track\<lparr>tk_group := Some 1\<rparr>"

definition w_groups :: "unit world" where
  "w_groups = (w_world empty_db)\<lparr>wd_tracks := [w_member], wd_units := [w_unit]\<rparr>"

definition w_correction :: operation where
  "w_correction = \<lparr>o_id = 1, o_revision = 1, o_snapshot = 1, o_seq = 0, o_kind = GROUPING_CORRECTION, o_field = U ''group'',
     o_target_type = U ''track'', o_target = 7, o_current = JObj [(U ''group_id'', JInt 1)],
     o_proposed = JObj [(U ''source_group_id'', JInt 1), (U ''action'', JStr (U ''treat_as_singleton'')),
       (U ''singleton_key'', JStr (U ''k''))],
     o_decision = D_ACCEPTED, o_provenance = JObj [], o_validation = JObj []\<rparr>"

definition w_regrouped :: "unit world" where
  "w_regrouped = fst (apply_grouping_correction ascii_std (\<lambda>_. U ''k'') 1 w_member [w_correction] w_groups)"

lemma w_regroup:
  "catalog_ok w_groups" "get_track w_groups (tk_id w_member) = Some w_member"
  "snd (apply_grouping_correction ascii_std (\<lambda>_. U ''k'') 1 w_member [w_correction] w_groups) = None"
  "find_journal w_regrouped (next_id fj_id (wd_journals w_groups)) = Some (hd (wd_journals w_regrouped))"
  by code_simp+

theorem grouping_rollback_restores_witness:
  "\<exists>wd extra. undo_grouping (hd (wd_journals w_regrouped)) w_regrouped = Inr wd \<and> wd_tracks wd = [w_member]
     \<and> wd_units wd = w_unit # extra"
proof -
  have g: "apply_grouping_correction ascii_std (\<lambda>_. U ''k'') 1 w_member [w_correction] w_groups = (w_regrouped, None)"
    using w_regroup(3) by (simp add: w_regrouped_def prod_eq_iff)
  show ?thesis
    using grouping_rollback_restores [OF w_regroup(1,2) g w_regroup(4)] by (auto simp: w_groups_def)
qed

end
