(* ===== verification/UndoStore.thy ===== *)
theory UndoStore
  imports ApplyRecovery
begin

text \<open>
  The frozen manifest of an undo run (\<open>changes/bundle_undo.py\<close>): the journal rows of the source run as inverse
  steps, file by file, and the execution checkpoints that every committed step updates. The manifest and the
  checkpoints stay JSON values, as in the column; the files are read into records once, as the code
  validates them once. The attempts of the world are those of the source run.
\<close>

section \<open>Keys\<close>

definition version_key :: ustr where "version_key = U ''version''"
definition files_key :: ustr where "files_key = U ''files''"
definition execution_key :: ustr where "execution_key = U ''execution''"
definition jobs_key :: ustr where "jobs_key = U ''job_ids''"
definition source_key :: ustr where "source_key = U ''source_apply_run_id''"
definition completed_key :: ustr where "completed_key = U ''completed_journal_ids''"
definition active_key :: ustr where "active_key = U ''active_journal_id''"
definition step_marks_key :: ustr where "step_marks_key = U ''step_checkpoints''"
definition file_marks_key :: ustr where "file_marks_key = U ''file_checkpoints''"

lemmas manifest_key_defs = version_key_def files_key_def execution_key_def jobs_key_def source_key_def
lemmas execution_key_defs = completed_key_def active_key_def step_marks_key_def file_marks_key_def

lemma manifest_keys [simp]:
  "version_key \<noteq> execution_key" "files_key \<noteq> execution_key" "jobs_key \<noteq> execution_key" "source_key \<noteq> execution_key"
  "execution_key \<noteq> version_key" "execution_key \<noteq> files_key" "execution_key \<noteq> jobs_key" "execution_key \<noteq> source_key"
  "version_key \<noteq> files_key" "version_key \<noteq> jobs_key" "version_key \<noteq> source_key" "files_key \<noteq> jobs_key"
  "files_key \<noteq> source_key" "jobs_key \<noteq> source_key" "jobs_key \<noteq> version_key" "jobs_key \<noteq> files_key"
  by (simp_all add: manifest_key_defs)

lemmas manifest_keys_sym [simp] = manifest_keys [symmetric]

lemma execution_keys [simp]:
  "completed_key \<noteq> active_key" "completed_key \<noteq> step_marks_key" "completed_key \<noteq> file_marks_key"
  "active_key \<noteq> completed_key" "active_key \<noteq> step_marks_key" "active_key \<noteq> file_marks_key"
  "step_marks_key \<noteq> completed_key" "step_marks_key \<noteq> active_key" "step_marks_key \<noteq> file_marks_key"
  "file_marks_key \<noteq> completed_key" "file_marks_key \<noteq> active_key" "file_marks_key \<noteq> step_marks_key"
  by (simp_all add: execution_key_defs)

section \<open>Inverse steps\<close>

definition undo_phase :: "ustr \<Rightarrow> bool" where
  "undo_phase p \<longleftrightarrow> p = U ''tags'' \<or> p = U ''move'' \<or> p = U ''grouping''"

definition has_guards :: "json \<Rightarrow> bool" where
  "has_guards blob \<longleftrightarrow> is_dict (jget blob guard_before) \<and> is_dict (jget blob guard_after)"

definition grouping_inverse_error :: "json \<Rightarrow> ustr option" where
  "grouping_inverse_error blob =
     (let action = jget blob (U ''action'') in
      if \<not> valid_integer (jget blob (U ''group_id'')) \<or> \<not> valid_integer (jget blob (U ''source_group_id''))
         \<or> \<not> is_bool (jget blob (U ''source_is_pinned''))
         \<or> action \<notin> {JStr (U ''confirm_collection''), JStr (U ''move_to_collection''), JStr (U ''treat_as_singleton'')}
      then Some (U ''source grouping inverse is incomplete'')
      else if action \<noteq> JStr (U ''confirm_collection'')
         \<and> (\<not> valid_integer (jget blob (U ''target_group_id'')) \<or> \<not> is_bool (jget blob (U ''target_is_pinned'')))
      then Some (U ''source grouping target inverse is incomplete'')
      else None)"

definition inverse_error :: "journal \<Rightarrow> ustr option" where
  "inverse_error j =
     (if \<not> is_dict (fj_blob j) then Some (U ''source inverse payload is unavailable'')
      else if \<not> undo_phase (fj_phase j) then Some (U ''unsupported source journal phase for undo: '' @ fj_phase j)
      else if fj_phase j = U ''tags'' \<and> (fj_after_hash j = None \<or> \<not> has_guards (fj_blob j))
      then Some (U ''source tag inverse is incomplete'')
      else if fj_phase j = U ''move'' \<and> (fj_before_path j = None \<or> fj_after_path j = None \<or> \<not> has_guards (fj_blob j))
      then Some (U ''source move inverse is incomplete'')
      else if fj_phase j = U ''grouping'' then grouping_inverse_error (fj_blob j)
      else None)"

text \<open>The dictionary of a step; the service leaves the track out of it.\<close>

definition step_entries :: "journal \<Rightarrow> (ustr \<times> json) list" where
  "step_entries j =
     [(U ''path'', JStr (fj_path j)), (U ''before_hash'', json_of_str (fj_before_hash j)),
      (U ''after_hash'', json_of_str (fj_after_hash j)), (U ''before_path'', json_of_str (fj_before_path j)),
      (U ''after_path'', json_of_str (fj_after_path j)), (U ''before_blob'', fj_blob j)]"

definition journal_step :: "journal \<Rightarrow> ustr + json" where
  "journal_step j =
     (case inverse_error j of
        Some e \<Rightarrow> Inl e
      | None \<Rightarrow> Inr (JObj ((U ''journal_id'', JInt (fj_id j)) # (U ''phase'', JStr (fj_phase j))
                            # (U ''track_id'', JInt (fj_track j)) # step_entries j)))"

definition track_snapshot :: "track \<Rightarrow> ustr + json" where
  "track_snapshot t =
     (case tk_hash t of
        None \<Rightarrow> Inl (U ''catalog has no current tag hash for undo'')
      | Some h \<Rightarrow>
          Inr (JObj [(U ''path'', JStr (tk_path t)), (U ''size_bytes'', JInt (tk_size t)),
                     (U ''mtime_ns'', JInt (tk_mtime t)), (U ''tag_hash'', JStr h)]))"

section \<open>Reading the manifest\<close>

record undo_step =
  us_journal :: int
  us_phase :: ustr
  us_before :: json
  us_raw :: json

record undo_file =
  uf_track :: int
  uf_source :: json
  uf_steps :: "undo_step list"

definition read_step :: "int \<Rightarrow> int list \<Rightarrow> json \<Rightarrow> ustr + undo_step" where
  "read_step tid seen raw =
     (let jid = jget raw (U ''journal_id''); phase = jget raw (U ''phase''); before = jget raw (U ''before_blob'') in
      if \<not> is_dict raw \<or> \<not> valid_integer jid \<or> int_value jid \<in> set seen \<or> \<not> is_str phase \<or> \<not> undo_phase (str_value phase)
         \<or> \<not> is_dict before \<or> \<not> equals_int (jget_default raw (U ''track_id'') (JInt tid)) tid
      then Inl (U ''undo manifest has an invalid inverse step for track '' @ int_str tid)
      else Inr \<lparr>us_journal = int_value jid, us_phase = str_value phase, us_before = before, us_raw = raw\<rparr>)"

fun read_steps :: "int \<Rightarrow> int list \<Rightarrow> json list \<Rightarrow> ustr + undo_step list" where
  "read_steps tid seen [] = Inr []"
| "read_steps tid seen (raw # raws) =
     rbind (read_step tid seen raw) (\<lambda>st.
     rbind (read_steps tid (us_journal st # seen) raws) (\<lambda>sts. Inr (st # sts)))"

definition read_file :: "int list \<Rightarrow> int list \<Rightarrow> json \<Rightarrow> ustr + undo_file" where
  "read_file tracks seen raw =
     (let tid = jget raw (U ''track_id''); source = jget raw (U ''source''); steps = jget raw (U ''steps'') in
      if \<not> is_dict raw then Inl (U ''undo manifest contains an invalid file entry'')
      else if \<not> valid_integer tid \<or> int_value tid \<in> set tracks \<or> \<not> is_dict source \<or> \<not> is_list steps
      then Inl (U ''undo manifest contains an incomplete file entry'')
      else if \<not> is_str (jget source (U ''path'')) \<or> \<not> is_str (jget source (U ''tag_hash''))
      then Inl (U ''undo manifest source checkpoint is incomplete for track '' @ int_str (int_value tid))
      else rbind (read_steps (int_value tid) seen (list_value steps)) (\<lambda>sts.
        if sts = [] then Inl (U ''undo manifest has no inverse steps for track '' @ int_str (int_value tid))
        else Inr \<lparr>uf_track = int_value tid, uf_source = source, uf_steps = sts\<rparr>))"

definition step_ids :: "undo_file \<Rightarrow> int list" where
  "step_ids f = map us_journal (uf_steps f)"

fun read_files :: "int list \<Rightarrow> int list \<Rightarrow> json list \<Rightarrow> ustr + undo_file list" where
  "read_files tracks seen [] = Inr []"
| "read_files tracks seen (raw # raws) =
     rbind (read_file tracks seen raw) (\<lambda>f.
     rbind (read_files (uf_track f # tracks) (step_ids f @ seen) raws) (\<lambda>fs. Inr (f # fs)))"

definition undo_files :: "json \<Rightarrow> ustr + undo_file list" where
  "undo_files manifest =
     (if \<not> is_list (jget manifest files_key) then Inl (U ''undo manifest has no frozen file list'')
      else read_files [] [] (list_value (jget manifest files_key)))"

section \<open>Execution checkpoints\<close>

definition valid_execution :: "json \<Rightarrow> bool" where
  "valid_execution ex \<longleftrightarrow>
     is_list (jget ex completed_key) \<and> list_all valid_integer (list_value (jget ex completed_key))
     \<and> (jget ex active_key = JNull \<or> valid_integer (jget ex active_key))
     \<and> is_dict (jget ex step_marks_key) \<and> is_dict (jget ex file_marks_key)"

definition undo_execution :: "json \<Rightarrow> ustr + json" where
  "undo_execution manifest =
     (let ex = jget manifest execution_key in
      if \<not> is_dict ex then Inl (U ''undo execution checkpoints are unavailable'')
      else if \<not> valid_execution ex then Inl (U ''undo execution checkpoints are invalid'')
      else Inr ex)"

definition completed_ids :: "json \<Rightarrow> int list" where
  "completed_ids ex = map int_value (list_value (jget ex completed_key))"

definition empty_execution :: json where
  "empty_execution = JObj [(completed_key, JList []), (active_key, JNull), (step_marks_key, JObj []), (file_marks_key, JObj [])]"

definition checkpoint :: "track \<Rightarrow> json \<Rightarrow> json \<Rightarrow> ustr \<Rightarrow> json" where
  "checkpoint t snap guard phase =
     JObj [(U ''path'', JStr (tk_path t)), (U ''track'', snap), (U ''physical_guard'', guard), (U ''phase'', JStr phase)]"

definition file_checkpoint :: "json \<Rightarrow> int list \<Rightarrow> json" where
  "file_checkpoint mark ids = jset completed_key (JList (map JInt ids)) mark"

section \<open>Upgrading an old manifest\<close>

text \<open>
  Manifests of version 1 had no checkpoints: the states of the journal rows, in the order of the
  inverse, prove what was completed.
\<close>

definition proven_step :: "journal \<Rightarrow> ustr + json" where
  "proven_step j =
     (if fj_state j = FJ_WRITING then Inl (U ''recovery_required: legacy Undo has an uncertain writing checkpoint'')
      else if fj_state j \<noteq> FJ_DONE \<and> fj_state j \<noteq> FJ_ROLLED_BACK
      then Inl (U ''legacy Undo journal state is not a proven checkpoint'')
      else journal_step j)"

definition old_file :: "json list \<Rightarrow> int \<Rightarrow> json" where
  "old_file olds tid =
     (case find (\<lambda>e. is_dict e \<and> is_int (jget e (U ''track_id'')) \<and> int_value (jget e (U ''track_id'')) = tid) (rev olds) of
        None \<Rightarrow> JNull | Some e \<Rightarrow> e)"

definition legacy_source :: "json list \<Rightarrow> int list \<Rightarrow> track \<Rightarrow> journal list \<Rightarrow> ustr + json" where
  "legacy_source olds done t js =
     (let old = jget (old_file olds (tk_id t)) (U ''source'') in
      if is_dict old \<and> is_str (jget old (U ''path'')) \<and> is_str (jget old (U ''tag_hash'')) then Inr old
      else if \<exists>j\<in>set js. fj_id j \<in> set done
      then Inl (U ''legacy Undo cannot prove the original applied file checkpoint'')
      else track_snapshot t)"

definition file_json :: "int \<Rightarrow> json \<Rightarrow> json list \<Rightarrow> json" where
  "file_json tid source steps =
     JObj [(U ''track_id'', JInt tid), (U ''source'', source), (U ''state'', JStr (U ''pending'')),
           (U ''error'', JNull), (U ''retryable'', JBool True), (U ''steps'', JList steps)]"

text \<open>The checkpoints that the completed steps of a file add.\<close>

definition legacy_marks :: "int list \<Rightarrow> track \<Rightarrow> journal list \<Rightarrow> json \<times> json \<Rightarrow> ustr + json \<times> json" where
  "legacy_marks done t js marks =
     (let pre = takeWhile (\<lambda>j. fj_id j \<in> set done) js in
      case (rev pre, marks) of
        ([], _) \<Rightarrow> Inr marks
      | (j # _, (smarks, fmarks)) \<Rightarrow>
          let guard = jget (fj_blob j) guard_restored in
          if fj_phase j \<noteq> U ''grouping'' \<and> \<not> is_dict guard
          then Inl (U ''legacy Undo completion lacks a restored physical guard'')
          else rbind (track_snapshot t) (\<lambda>snap.
            let mark = checkpoint t snap guard (fj_phase j) in
            Inr (jset (int_str (fj_id j)) mark smarks,
                 if length pre = length js then jset (int_str (tk_id t)) (file_checkpoint mark (map fj_id js)) fmarks
                 else fmarks)))"

fun legacy_files ::
  "'w world \<Rightarrow> json list \<Rightarrow> int list \<Rightarrow> (int \<times> journal list) list \<Rightarrow> json list \<times> json \<times> json \<Rightarrow> ustr + json list \<times> json \<times> json" where
  "legacy_files wd olds done [] acc = Inr acc"
| "legacy_files wd olds done ((tid, js) # rest) (fs, marks) =
     (case get_track wd tid of
        None \<Rightarrow> Inl (U ''legacy Undo track '' @ int_str tid @ U '' no longer exists'')
      | Some t \<Rightarrow>
          rbind (legacy_source olds done t js) (\<lambda>source.
          rbind (rmap journal_step js) (\<lambda>steps.
          rbind (legacy_marks done t js marks) (\<lambda>marks1.
            legacy_files wd olds done rest (fs @ [file_json tid source steps], marks1)))))"

definition freeze_legacy_manifest :: "'w world \<Rightarrow> undo_run \<Rightarrow> int \<Rightarrow> journal list \<Rightarrow> ustr + json" where
  "freeze_legacy_manifest wd u source js =
     (let old = (if is_dict (u_manifest u) then u_manifest u else JObj []);
          olds = jget_default old files_key (JList []);
          done = map fj_id (filter (\<lambda>j. fj_state j = FJ_ROLLED_BACK) js)
      in if \<not> is_list olds then Inl (U ''legacy undo manifest has no file checkpoints'')
         else rbind (rmap proven_step js) (\<lambda>_.
           rbind (legacy_files wd (list_value olds) done (bucket_all fj_track id js) ([], JObj [], JObj [])) (\<lambda>(fs, smarks, fmarks).
             if fs = [] \<and> truthy olds then Inl (U ''legacy Undo has no journal-backed inverse steps'')
             else Inr (JObj [(version_key, JInt 2), (source_key, JInt source), (files_key, JList fs),
                 (execution_key, JObj [(completed_key, JList (map JInt done)), (active_key, JNull),
                    (step_marks_key, smarks), (file_marks_key, fmarks)]),
                 (jobs_key, jget_default old jobs_key (JList []))]))))"

end
