(* ===== verification/UndoPreflight.thy ===== *)
theory UndoPreflight
  imports UndoStore
begin

text \<open>
  What an undo run checks before it touches a file (\<open>_preflight\<close> of \<open>changes/bundle_undo.py\<close>): that the journal
  rows are the ones that were frozen and agree with the checkpoints, that no other work targets the
  tracks, and that every file is as its last checkpoint left it. The record \<open>undo_disk\<close> adds to the disk
  what only the undo asks of it.
\<close>

text \<open>
  \<open>ud_safe\<close>: the path exists and is no symbolic link. \<open>ud_settle\<close> settles the replacement that a journal row was
  making, and \<open>ud_realign\<close> returns an interrupted case-only rename to the applied spelling.
\<close>

record 'w undo_disk =
  ud_disk :: "'w disk"
  ud_safe :: "'w \<Rightarrow> ustr \<Rightarrow> bool"
  ud_settle :: "'w \<Rightarrow> int \<Rightarrow> ustr option \<times> 'w"
  ud_realign :: "'w \<Rightarrow> int \<Rightarrow> ustr \<Rightarrow> ustr \<Rightarrow> json \<Rightarrow> ustr option \<times> 'w"

section \<open>Frozen journal rows\<close>

definition mutable_keys :: "ustr list" where
  "mutable_keys = [U ''__muzilla_case_inverse'', guard_restored, U ''__muzilla_publication_transition'']"

definition journal_matches :: "journal \<Rightarrow> undo_step \<Rightarrow> int \<Rightarrow> bool" where
  "journal_matches j st tid \<longleftrightarrow>
     is_dict (fj_blob j) \<and> fj_id j = us_journal st \<and> fj_track j = tid \<and> fj_phase j = us_phase st
     \<and> jget (us_raw st) (U ''path'') = JStr (fj_path j)
     \<and> jget (us_raw st) (U ''before_hash'') = json_of_str (fj_before_hash j)
     \<and> jget (us_raw st) (U ''after_hash'') = json_of_str (fj_after_hash j)
     \<and> jget (us_raw st) (U ''before_path'') = json_of_str (fj_before_path j)
     \<and> jget (us_raw st) (U ''after_path'') = json_of_str (fj_after_path j)
     \<and> list_all (\<lambda>(k, v). k \<in> set mutable_keys \<or> same_json (jget (fj_blob j) k) v) (entries (us_before st))"

definition source_journals :: "'w world \<Rightarrow> int \<Rightarrow> journal list" where
  "source_journals wd run = rev (sort_key fj_id (run_journals wd run))"

definition frozen_ids :: "undo_file list \<Rightarrow> int list" where
  "frozen_ids fs = concat (map step_ids fs)"

definition step_matched :: "journal list \<Rightarrow> undo_file \<Rightarrow> undo_step \<Rightarrow> bool" where
  "step_matched js f st \<longleftrightarrow>
     (case find_row fj_id (us_journal st) js of None \<Rightarrow> False | Some j \<Rightarrow> journal_matches j st (uf_track f))"

definition expected_state :: "json \<Rightarrow> journal \<Rightarrow> journal_state" where
  "expected_state ex j = (if fj_id j \<in> set (completed_ids ex) then FJ_ROLLED_BACK else FJ_DONE)"

definition check_source_journals :: "journal list \<Rightarrow> undo_file list \<Rightarrow> json \<Rightarrow> ustr option" where
  "check_source_journals js fs ex =
     (if \<not> list_all (\<lambda>f. list_all (step_matched js f) (uf_steps f)) fs
      then Some (U ''undo journal no longer matches its frozen inverse manifest'')
      else if set (frozen_ids fs) \<noteq> set (map fj_id js)
      then Some (U ''source journal set changed after the Undo manifest was frozen'')
      else if \<not> distinct (completed_ids ex) \<or> \<not> set (completed_ids ex) \<subseteq> set (frozen_ids fs)
      then Some (U ''undo completion checkpoints do not match the frozen manifest'')
      else if jget ex active_key \<noteq> JNull
      then Some (U ''recovery_required: an Undo filesystem checkpoint is still writing'')
      else if \<not> list_all (\<lambda>j. fj_state j = expected_state ex j) js
      then Some (U ''undo journal state and durable execution checkpoint disagree'')
      else None)"

section \<open>Groups\<close>

definition pin_differs :: "'w world \<Rightarrow> json \<Rightarrow> json \<Rightarrow> bool" where
  "pin_differs wd unit pinned \<longleftrightarrow>
     (case find_unit wd (int_value unit) of None \<Rightarrow> False | Some u \<Rightarrow> wu_pinned u \<noteq> truthy pinned)"

definition group_before_matches :: "'w world \<Rightarrow> track \<Rightarrow> json \<Rightarrow> bool" where
  "group_before_matches wd t before \<longleftrightarrow>
     (let source = jget before (U ''source_group_id''); pinned = jget before (U ''source_is_pinned'');
          target = jget before (U ''target_group_id''); target_pinned = jget before (U ''target_is_pinned'')
      in is_int source \<and> is_bool pinned \<and> json_of_int (tk_group t) = jget before (U ''group_id'')
         \<and> \<not> pin_differs wd source pinned
         \<and> \<not> (is_int target \<and> is_bool target_pinned \<and> pin_differs wd target target_pinned))"

definition pinned_unit :: "'w world \<Rightarrow> json \<Rightarrow> bool" where
  "pinned_unit wd unit \<longleftrightarrow> (case find_unit wd (int_value unit) of None \<Rightarrow> False | Some u \<Rightarrow> wu_pinned u)"

definition group_applied_matches :: "'w world \<Rightarrow> track \<Rightarrow> json \<Rightarrow> bool" where
  "group_applied_matches wd t before \<longleftrightarrow>
     (let source = jget before (U ''source_group_id''); pinned = jget before (U ''source_is_pinned'');
          target = jget before (U ''target_group_id''); action = jget before (U ''action'');
          confirm = (action = JStr (U ''confirm_collection''));
          current = (if confirm then source else target)
      in is_int source \<and> is_bool pinned
         \<and> (confirm \<or> action \<in> {JStr (U ''treat_as_singleton''), JStr (U ''move_to_collection'')} \<and> is_int target)
         \<and> tk_group t = Some (int_value current) \<and> find_unit wd (int_value source) \<noteq> None
         \<and> (if confirm then pinned_unit wd source else \<not> pin_differs wd source pinned \<and> pinned_unit wd target))"

section \<open>Checkpoints and blobs\<close>

text \<open>\<open>verify_file_guard\<close>: the error, if the file is not the one the guard describes.\<close>

definition verify_file_guard :: "'w disk \<Rightarrow> 'w \<Rightarrow> ustr \<Rightarrow> json \<Rightarrow> ustr option" where
  "verify_file_guard dk w path guard =
     (if jget guard (U ''version'') \<notin> {JInt 1, JBool True, JFloat 1}
      then Some (U ''physical restoration evidence is missing or unsupported: '' @ path)
      else case dk_guard dk w path of
        Inl e \<Rightarrow> Some e
      | Inr g \<Rightarrow>
          if same_json g guard then None
          else Some (U ''physical file drift or identity change detected before restore: '' @ path))"

definition verify_checkpoint :: "'w disk \<Rightarrow> 'w world \<Rightarrow> track \<Rightarrow> undo_step \<Rightarrow> json \<Rightarrow> ustr option" where
  "verify_checkpoint dk wd t st mark =
     (let snap = jget mark (U ''track''); guard = jget mark (U ''physical_guard'');
          drift = (\<lambda>s. Some (s @ U '' drift detected at Undo checkpoint for track '' @ int_str (tk_id t)))
      in if \<not> is_dict snap then drift (U ''catalog'')
         else case track_snapshot t of
           Inl e \<Rightarrow> Some e
         | Inr now \<Rightarrow>
             if \<not> same_json now snap then drift (U ''catalog'')
             else if jget mark (U ''path'') \<noteq> JStr (tk_path t) then drift (U ''catalog path'')
             else if us_phase st = U ''grouping''
             then (if group_before_matches wd t (us_before st) then None else drift (U ''grouping''))
             else if \<not> is_dict guard
             then Some (U ''physical Undo checkpoint is missing for track '' @ int_str (tk_id t))
             else verify_file_guard dk (wd_disk wd) (tk_path t) guard)"

definition entry_blob_id :: "json \<Rightarrow> ustr + int" where
  "entry_blob_id entry =
     (if \<not> is_dict entry then Inl (U ''journal artwork entry is invalid'')
      else if \<not> valid_integer (jget entry (U ''blob_id'')) then Inl (U ''journal artwork blob id is invalid'')
      else Inr (int_value (jget entry (U ''blob_id''))))"

definition expected_blob_ids :: "json \<Rightarrow> ustr + int list" where
  "expected_blob_ids before =
     (let direct = map int_value (filter valid_integer
            [jget before (U ''__muzilla_catalog_art_blob_id''), jget before (U ''__muzilla_art_blob_id'')]);
          embedded = jget before (U ''__muzilla_embedded_art'')
      in if \<not> is_dict embedded then Inr (remdups direct)
         else if \<not> is_list (jget embedded (U ''entries'')) then Inl (U ''journal artwork entries are invalid'')
         else rbind (rmap entry_blob_id (list_value (jget embedded (U ''entries''))))
           (\<lambda>ids. Inr (remdups (direct @ ids))))"

definition blob_problem :: "'w disk \<Rightarrow> 'w \<Rightarrow> int \<Rightarrow> ustr option" where
  "blob_problem dk w i =
     (if \<not> dk_has_blob dk i then Some (U ''inverse artwork blob '' @ int_str i @ U '' is unavailable'')
      else dk_blob_error dk w i)"

definition first_error :: "ustr option list \<Rightarrow> ustr option" where
  "first_error es = (case List.map_filter id es of [] \<Rightarrow> None | e # _ \<Rightarrow> Some e)"

definition validate_inverse_blobs :: "'w disk \<Rightarrow> 'w \<Rightarrow> undo_step \<Rightarrow> ustr option" where
  "validate_inverse_blobs dk w st =
     (case expected_blob_ids (us_before st) of
        Inl e \<Rightarrow> Some e
      | Inr ids \<Rightarrow> first_error (map (blob_problem dk w) ids))"

section \<open>Other work\<close>

definition expected_tracks :: "'w world \<Rightarrow> int list" where
  "expected_tracks wd =
     map o_target (filter (\<lambda>op. o_target_type op = U ''track'')
       (List.map_filter (find_operation wd) (map ot_operation (filter (\<lambda>a. ot_state a = TRY_APPLIED) (wd_tries wd)))))"

definition missing_tracks :: "'w world \<Rightarrow> journal list \<Rightarrow> int list" where
  "missing_tracks wd js = sort (remdups (filter (\<lambda>i. i \<notin> set (map fj_track js)) (expected_tracks wd)))"

definition first_target :: "int list \<Rightarrow> json list \<Rightarrow> int option" where
  "first_target mine manifests = find (\<lambda>i. i \<in> set mine) (concat (map manifest_tracks manifests))"

definition active_conflicts :: "db \<Rightarrow> undo_run \<Rightarrow> int list \<Rightarrow> ustr option" where
  "active_conflicts d u mine =
     (case first_target mine (map a_manifest (filter (\<lambda>a. active_run a \<and> a_id a \<noteq> u_source_run u) (apply_runs d))) of
        Some i \<Rightarrow> Some (U ''concurrent review targets track '' @ int_str i)
      | None \<Rightarrow>
          (case first_target mine (map u_manifest
                (filter (\<lambda>x. (u_state x = U_PENDING \<or> u_state x = U_UNDOING) \<and> u_id x \<noteq> u_id u) (undo_runs d))) of
             Some i \<Rightarrow> Some (U ''concurrent Undo targets track '' @ int_str i)
           | None \<Rightarrow> None))"

section \<open>Preflight\<close>

definition is_completed :: "json \<Rightarrow> undo_step \<Rightarrow> bool" where
  "is_completed ex st \<longleftrightarrow> us_journal st \<in> set (completed_ids ex)"

text \<open>The inverse data of the first step of a list that lacks some.\<close>

definition blob_error :: "'w disk \<Rightarrow> 'w \<Rightarrow> bool \<Rightarrow> undo_step list \<Rightarrow> ustr option" where
  "blob_error dk w validate sts =
     map_option (\<lambda>e. U ''recovery_required: inverse data unavailable: '' @ e)
       (first_error (map (validate_inverse_blobs dk w) (filter (\<lambda>st. validate \<and> us_phase st = U ''tags'') sts)))"

text \<open>The checks of a file that no step has changed yet.\<close>

definition source_drift :: "'w disk \<Rightarrow> 'w world \<Rightarrow> undo_file \<Rightarrow> track \<Rightarrow> ustr option" where
  "source_drift dk wd f t =
     (case track_snapshot t of
        Inl e \<Rightarrow> Some e
      | Inr now \<Rightarrow>
          if \<not> same_json now (uf_source f) then Some (U ''catalog source drift detected for track '' @ int_str (uf_track f))
          else
            let physical = filter (\<lambda>st. us_phase st = U ''tags'' \<or> us_phase st = U ''move'') (uf_steps f);
                grouping = filter (\<lambda>st. us_phase st = U ''grouping'') (uf_steps f);
                groups = (case grouping of
                    [] \<Rightarrow> None
                  | st # _ \<Rightarrow>
                      if group_applied_matches wd t (us_before st) then None
                      else Some (U ''grouping source drift detected for track '' @ int_str (uf_track f)))
            in case physical of
                 [] \<Rightarrow> groups
               | st # _ \<Rightarrow>
                   (case journal_file_guard (us_before st) guard_after of
                      Inl e \<Rightarrow> Some e
                    | Inr g \<Rightarrow>
                        if jget g (U ''path'') \<noteq> JStr (tk_path t)
                        then Some (U ''applied file path changed for track '' @ int_str (uf_track f))
                        else case verify_file_guard dk (wd_disk wd) (tk_path t) g of
                          Some e \<Rightarrow> Some e
                        | None \<Rightarrow> groups))"

text \<open>The error of a file, and whether its state is unknown.\<close>

definition check_undo_file :: "'w disk \<Rightarrow> bool \<Rightarrow> 'w world \<Rightarrow> json \<Rightarrow> undo_file \<Rightarrow> ustr option \<times> bool" where
  "check_undo_file dk validate wd ex f =
     (case get_track wd (uf_track f) of
        None \<Rightarrow> (Some (U ''recovery_required: track '' @ int_str (uf_track f) @ U '' not found for undo''), True)
      | Some t \<Rightarrow>
          let done = takeWhile (is_completed ex) (uf_steps f); rest = dropWhile (is_completed ex) (uf_steps f) in
          if \<exists>st\<in>set rest. is_completed ex st
          then (Some (U ''Undo checkpoints are not a completed prefix of the frozen file steps''), True)
          else if done = [] then
            (case source_drift dk wd f t of
               Some e \<Rightarrow> (Some (U ''source drift or recovery evidence failure: '' @ e), True)
             | None \<Rightarrow> (blob_error dk (wd_disk wd) validate rest, False))
          else
            let mark = (if rest = [] then jget (jget ex file_marks_key) (int_str (uf_track f))
                        else jget (jget ex step_marks_key) (int_str (us_journal (last done))))
            in if \<not> is_dict mark then (Some (U ''recovery_required: completed Undo checkpoint is missing''), True)
               else
                 let drift = verify_checkpoint dk wd t (last done) mark;
                     lacking = blob_error dk (wd_disk wd) validate rest
                 in (case (lacking, drift) of
                       (Some e, _) \<Rightarrow> Some e
                     | (None, Some e) \<Rightarrow> Some (U ''recovery_required: completed-file drift before Undo retry: '' @ e)
                     | (None, None) \<Rightarrow> None,
                     drift \<noteq> None))"

definition file_checks :: "'w disk \<Rightarrow> bool \<Rightarrow> 'w world \<Rightarrow> json \<Rightarrow> undo_file list \<Rightarrow> (int \<times> ustr) list \<times> bool" where
  "file_checks dk validate wd ex fs =
     (let rs = map (\<lambda>f. (uf_track f, check_undo_file dk validate wd ex f)) fs in
      (List.map_filter (\<lambda>(i, e, _). map_option (Pair i) e) rs, \<exists>(i, e, unknown)\<in>set rs. unknown))"

definition undo_preflight ::
  "pyrepr \<Rightarrow> 'w disk \<Rightarrow> bool \<Rightarrow> bool \<Rightarrow> undo_run \<Rightarrow> journal list \<Rightarrow> undo_file list \<Rightarrow> json \<Rightarrow> 'w world \<Rightarrow>
     ustr + (int \<times> ustr) list \<times> bool" where
  "undo_preflight rp dk validate conflicts u js fs ex wd =
     (case check_source_journals js fs ex of
        Some e \<Rightarrow> Inl e
      | None \<Rightarrow>
          let missing = missing_tracks wd js in
          if missing \<noteq> [] then Inl (U ''undo expired: source journals missing for track(s) '' @ repr_ints rp missing)
          else case (if conflicts then active_conflicts (wd_db wd) u (map uf_track fs) else None) of
            Some e \<Rightarrow> Inr (map (\<lambda>f. (uf_track f, e)) fs, False)
          | None \<Rightarrow> Inr (file_checks dk validate wd ex fs))"

end
