(* ===== verification/UndoExecution.thy ===== *)
theory UndoExecution
  imports UndoPreflight
begin

text \<open>
  The execution of an undo run (\<open>apply_review_undo_run\<close> of \<open>changes/bundle_undo.py\<close>). A step commits its intent (the
  journal row \<open>writing\<close>, the active journal in the checkpoints) before it touches the disk, and its completion
  in one commit afterwards; an exception returns to the committed intent. \<open>cancel i\<close> is the answer of
  \<open>should_cancel\<close> before the file of track \<open>i\<close>. The log of the world receives every durable state: \<open>persist\<close> stands where
  the code commits, and where the disk has changed while the database is as it was committed last.
\<close>

section \<open>The run row\<close>

definition edit_undo :: "int \<Rightarrow> (undo_run \<Rightarrow> undo_run) \<Rightarrow> 'w world \<Rightarrow> 'w world" where
  "edit_undo i f wd = wd\<lparr>wd_db := (wd_db wd)\<lparr>undo_runs := update_where (\<lambda>u. u_id u = i) f (undo_runs (wd_db wd))\<rparr>\<rparr>"

definition find_undo :: "'w world \<Rightarrow> int \<Rightarrow> undo_run option" where
  "find_undo wd i = find_row u_id i (undo_runs (wd_db wd))"

definition put_execution :: "int \<Rightarrow> json \<Rightarrow> json \<Rightarrow> 'w world \<Rightarrow> 'w world" where
  "put_execution i manifest ex wd = edit_undo i (\<lambda>u. u\<lparr>u_manifest := jset execution_key ex manifest\<rparr>) wd"

section \<open>Results\<close>

record undo_file_result =
  ud_track :: int
  ud_state :: ustr
  ud_error :: "ustr option"
  ud_retryable :: bool

record undo_result =
  ur_run :: int
  ur_bundle :: int
  ur_source :: int
  ur_state :: ustr
  ur_files :: "undo_file_result list"
  ur_errors :: "(int \<times> ustr) list"
  ur_cancelled :: bool
  ur_recovery :: bool

definition base_result :: "undo_run \<Rightarrow> ustr \<Rightarrow> undo_result" where
  "base_result u s =
     \<lparr>ur_run = u_id u, ur_bundle = u_bundle u, ur_source = u_source_run u, ur_state = s, ur_files = [], ur_errors = [],
      ur_cancelled = False, ur_recovery = False\<rparr>"

definition undo_file_json :: "undo_file_result \<Rightarrow> json" where
  "undo_file_json r =
     JObj [(U ''track_id'', JInt (ud_track r)), (U ''state'', JStr (ud_state r)), (U ''source_change_set_ids'', JList []),
           (U ''error'', json_of_str (ud_error r)), (U ''retryable'', JBool (ud_retryable r))]"

definition undo_result_json :: "ustr \<Rightarrow> undo_file_result list \<Rightarrow> bool \<Rightarrow> bool \<Rightarrow> bool \<Rightarrow> json" where
  "undo_result_json s rs recovery retryable cancelled =
     JObj ([(U ''state'', JStr s), (U ''atomicity'', JStr (U ''review_bundle'')), (U ''files'', JList (map undo_file_json rs)),
            (U ''recovery_required'', JBool recovery), (U ''retryable'', JBool retryable)]
           @ (if cancelled then [(U ''cancelled'', JBool True)] else []))"

text \<open>A run that fails before it has a manifest to report on.\<close>

definition fail_early :: "undo_run \<Rightarrow> ustr \<Rightarrow> bool \<Rightarrow> (int \<times> ustr) list \<Rightarrow> 'w world \<Rightarrow> 'w world \<times> undo_result" where
  "fail_early u e recovery errors wd =
     (persist (edit_undo (u_id u)
        (\<lambda>x. x\<lparr>u_state := U_FAILED, u_error := Some e, u_result := undo_result_json (U ''failed'') [] recovery False False\<rparr>) wd),
      (base_result u (U ''failed''))\<lparr>ur_errors := errors, ur_recovery := recovery\<rparr>)"

definition error_files :: "json \<Rightarrow> (int \<times> ustr) list \<Rightarrow> bool \<Rightarrow> undo_file list \<Rightarrow> undo_file_result list" where
  "error_files ex errors retryable fs =
     map (\<lambda>f. \<lparr>ud_track = uf_track f,
               ud_state = (if map_of (entries (jget ex file_marks_key)) (int_str (uf_track f)) \<noteq> None
                           then U ''undone'' else U ''failed''),
               ud_error = map_of errors (uf_track f), ud_retryable = retryable\<rparr>) fs"

definition headline :: "(int \<times> ustr) list \<Rightarrow> bool \<Rightarrow> ustr" where
  "headline errors recovery =
     (let e = (case errors of [] \<Rightarrow> U ''Undo cancelled at a complete-file boundary'' | (_, x) # _ \<Rightarrow> x) in
      if recovery \<and> \<not> prefix recovery_text e then recovery_text @ U '' '' @ e else e)"

record ending =
  en_errors :: "(int \<times> ustr) list"
  en_cancelled :: bool
  en_recovery :: bool
  en_retryable :: bool

definition error_result :: "undo_run \<Rightarrow> json \<Rightarrow> json \<Rightarrow> ending \<Rightarrow> 'w world \<Rightarrow> ustr + 'w world \<times> undo_result" where
  "error_result u manifest ex en wd =
     rbind (undo_files manifest) (\<lambda>fs.
       let rs = error_files ex (en_errors en) (en_retryable en) fs in
       Inr (persist (edit_undo (u_id u)
              (\<lambda>x. x\<lparr>u_state := U_FAILED, u_error := Some (headline (en_errors en) (en_recovery en)),
                     u_result := undo_result_json (U ''failed'') rs (en_recovery en) (en_retryable en) (en_cancelled en)\<rparr>) wd),
            (base_result u (U ''failed''))\<lparr>ur_files := rs, ur_errors := en_errors en, ur_cancelled := en_cancelled en,
               ur_recovery := en_recovery en\<rparr>))"

section \<open>One step\<close>

definition restore_grouping :: "int \<Rightarrow> json \<Rightarrow> 'w world \<Rightarrow> ustr + 'w world" where
  "restore_grouping tid before wd =
     (let group = jget before (U ''group_id''); source = jget before (U ''source_group_id'');
          pinned = jget before (U ''source_is_pinned''); target = jget before (U ''target_group_id'')
      in if \<not> valid_integer group \<or> \<not> valid_integer source \<or> \<not> is_bool pinned
         then Inl (U ''grouping inverse payload is incomplete'')
         else Inr (recount_groups (int_value source # int_value group # (if is_int target then [int_value target] else []))
                (restore_pin target (jget before (U ''target_is_pinned''))
                  (restore_pin source pinned (edit_track tid (\<lambda>t. t\<lparr>tk_group := Some (int_value group)\<rparr>) wd)))))"

text \<open>
  The effect of a step: an exception with the disk it leaves, or the world with the restored guard and the
  payload that the journal row keeps.
\<close>

datatype 'w effected =
    Refused ustr 'w
  | Effected json "json option" "'w world"

definition undo_tags :: "'w undo_disk \<Rightarrow> track \<Rightarrow> undo_step \<Rightarrow> 'w world \<Rightarrow> 'w effected" where
  "undo_tags ud t st wd =
     (let dk = ud_disk ud; w0 = wd_disk wd; before = us_before st in
      if \<not> ud_safe ud w0 (tk_path t) then Refused (U ''file missing or unsafe for undo tags: '' @ tk_path t) w0
      else case journal_file_guard before guard_after of
        Inl e \<Rightarrow> Refused e w0
      | Inr g \<Rightarrow>
          (case dk_restore dk w0 (us_journal st) (tk_path t) before g of
             Irreversible e committed w \<Rightarrow> Refused e w
           | Reversed restored h w \<Rightarrow>
               (case restore_art_error dk w t before of
                  Some e \<Rightarrow> Refused e w
                | None \<Rightarrow>
                    (case read_facts dk w (tk_path t) of
                       Inl e \<Rightarrow> Refused e w
                     | Inr x \<Rightarrow>
                         Effected restored (Some (jset guard_restored restored before))
                           (edit_track (tk_id t)
                              (update_file_facts x h \<circ> restore_lyrics before \<circ> restore_art before \<circ> restore_fields before)
                              (wd\<lparr>wd_disk := w\<rparr>))))))"

definition undo_move :: "'w undo_disk \<Rightarrow> track \<Rightarrow> undo_step \<Rightarrow> 'w world \<Rightarrow> 'w effected" where
  "undo_move ud t st wd =
     (let dk = ud_disk ud; w0 = wd_disk wd; before = us_before st;
          from = jget (us_raw st) (U ''after_path''); to = jget (us_raw st) (U ''before_path'')
      in if \<not> is_str from \<or> \<not> is_str to then Refused (U ''argument should be a str'') w0
         else if tk_path t \<noteq> str_value from
         then Refused (U ''recovery_required: move path changed before undo: '' @ tk_path t) w0
         else case (journal_file_guard before guard_before, journal_file_guard before guard_after) of
           (Inl e, _) \<Rightarrow> Refused e w0
         | (_, Inl e) \<Rightarrow> Refused e w0
         | (Inr gb, Inr ga) \<Rightarrow>
             (case dk_return dk w0 (str_value from) (str_value to) ga gb of
                Irreversible e committed w \<Rightarrow> Refused e w
              | Reversed g h w \<Rightarrow>
                  if \<not> same_json g gb
                  then Refused (U ''recovery_required: reverse move did not restore verified path: '' @ str_value to) w
                  else case read_facts dk w (str_value to) of
                    Inl e \<Rightarrow> Refused e w
                  | Inr x \<Rightarrow>
                      Effected g (Some (jset guard_restored g before))
                        (edit_track (tk_id t) (relocate dk x (str_value to) h) (wd\<lparr>wd_disk := w\<rparr>))))"

definition undo_effect :: "'w undo_disk \<Rightarrow> track \<Rightarrow> undo_step \<Rightarrow> 'w world \<Rightarrow> 'w effected" where
  "undo_effect ud t st wd =
     (if us_phase st = U ''tags'' then undo_tags ud t st wd
      else if us_phase st = U ''move'' then undo_move ud t st wd
      else if us_phase st = U ''grouping'' then
        (case restore_grouping (tk_id t) (us_before st) wd of
           Inl e \<Rightarrow> Refused e (wd_disk wd)
         | Inr wd1 \<Rightarrow> Effected JNull None wd1)
      else Refused (U ''unsupported frozen Undo phase '' @ us_phase st) (wd_disk wd))"

definition begin_step :: "undo_run \<Rightarrow> json \<Rightarrow> json \<Rightarrow> int \<Rightarrow> 'w world \<Rightarrow> json \<times> 'w world" where
  "begin_step u manifest ex jid wd =
     (let ex1 = jset active_key (JInt jid) ex in
      (ex1, put_execution (u_id u) manifest ex1 (edit_journal jid (\<lambda>j. j\<lparr>fj_state := FJ_WRITING\<rparr>) wd)))"

text \<open>\<open>_set_step_checkpoint\<close>, on the checkpoints.\<close>

definition mark_step :: "undo_file \<Rightarrow> undo_step \<Rightarrow> json \<Rightarrow> json \<Rightarrow> json" where
  "mark_step f st mark ex =
     (let jid = us_journal st; done = completed_ids ex;
          whole = list_all (\<lambda>i. i \<in> set done \<or> i = jid) (step_ids f);
          ex1 = jset step_marks_key (jset (int_str jid) mark (jget ex step_marks_key)) ex;
          ex2 = jset completed_key (JList (map JInt (if jid \<in> set done then done else done @ [jid]))) ex1;
          ex3 = jset active_key JNull ex2
      in if whole
         then jset file_marks_key (jset (int_str (uf_track f)) (file_checkpoint mark (step_ids f)) (jget ex file_marks_key)) ex3
         else ex3)"

definition finish_step :: "json option \<Rightarrow> journal \<Rightarrow> journal" where
  "finish_step blob j =
     j\<lparr>fj_state := FJ_ROLLED_BACK, fj_error := None, fj_blob := (case blob of None \<Rightarrow> fj_blob j | Some b \<Rightarrow> b)\<rparr>"

text \<open>The row of a track that the session holds, as it is now.\<close>

definition current_track :: "'w world \<Rightarrow> track \<Rightarrow> track" where
  "current_track wd t = (case get_track wd (tk_id t) of None \<Rightarrow> t | Some x \<Rightarrow> x)"

datatype 'w stepped =
    Stepped json "'w world"
  | Vanished json "'w world"
  | StepFailed int ustr "'w world"

text \<open>The database as it was committed before the effect, with the disk as the effect leaves it.\<close>

definition after_effect :: "'w world \<Rightarrow> 'w world \<Rightarrow> 'w world" where
  "after_effect wd wd' = wd'\<lparr>wd_log := wd_log wd @ [saved (wd\<lparr>wd_disk := wd_disk wd'\<rparr>)]\<rparr>"

definition apply_step ::
  "'w undo_disk \<Rightarrow> undo_run \<Rightarrow> json \<Rightarrow> undo_file \<Rightarrow> undo_step \<Rightarrow> track \<Rightarrow> json \<Rightarrow> 'w world \<Rightarrow> 'w stepped" where
  "apply_step ud u manifest f st t ex wd =
     (case begin_step u manifest ex (us_journal st) wd of (ex1, wd0) \<Rightarrow>
      (let wd1 = persist wd0 in
        (case undo_effect ud t st wd1 of
           Refused e w \<Rightarrow> StepFailed (us_journal st) e (persist (wd1\<lparr>wd_disk := w\<rparr>))
         | Effected guard blob wd2 \<Rightarrow>
             (let t2 = current_track wd2 t in
              case track_snapshot t2 of
                Inl e \<Rightarrow> StepFailed (us_journal st) e (persist (wd1\<lparr>wd_disk := wd_disk wd2\<rparr>))
              | Inr snap \<Rightarrow>
                  let ex2 = mark_step f st (checkpoint t2 snap guard (us_phase st)) ex1;
                      wd3 = persist (put_execution (u_id u) manifest ex2
                        (edit_journal (us_journal st) (finish_step blob) (after_effect wd1 wd2)))
                  in Stepped ex2 (if us_phase st = U ''tags''
                       then persist (wd3\<lparr>wd_disk := dk_finalize (ud_disk ud) (wd_disk wd3) (us_journal st)\<rparr>) else wd3)))))"

section \<open>Files\<close>

text \<open>The journal rows of the source run are the session's objects; a row that is not among them has vanished.\<close>

fun undo_steps ::
  "'w undo_disk \<Rightarrow> undo_run \<Rightarrow> json \<Rightarrow> int list \<Rightarrow> undo_file \<Rightarrow> track \<Rightarrow> undo_step list \<Rightarrow> json \<Rightarrow> 'w world \<Rightarrow> 'w stepped" where
  "undo_steps ud u manifest ids f t [] ex wd = Stepped ex wd"
| "undo_steps ud u manifest ids f t (st # sts) ex wd =
     (if is_completed ex st then undo_steps ud u manifest ids f t sts ex wd
      else if us_journal st \<notin> set ids then Vanished ex wd
      else case apply_step ud u manifest f st (current_track wd t) ex wd of
        Stepped ex1 wd1 \<Rightarrow> undo_steps ud u manifest ids f t sts ex1 wd1
      | r \<Rightarrow> r)"

datatype 'w finished =
    AllUndone json "'w world"
  | Stopped_at json json ending "'w world"

text \<open>The manifest and the checkpoints after an exception are those of the row.\<close>

definition after_failure :: "undo_run \<Rightarrow> json \<Rightarrow> int \<Rightarrow> int \<Rightarrow> ustr \<Rightarrow> 'w world \<Rightarrow> ustr + 'w finished" where
  "after_failure u manifest tid jid e wd =
     (case find_undo wd (u_id u) of
        None \<Rightarrow> Inl (U ''Undo run disappeared while recording failure'')
      | Some x \<Rightarrow>
          let m = (if is_dict (u_manifest x) then u_manifest x else manifest) in
          Inr (Stopped_at m (case undo_execution m of Inl _ \<Rightarrow> jset active_key (JInt jid) empty_execution | Inr ex \<Rightarrow> ex)
                 \<lparr>en_errors = [(tid, recovery_text @ U '' '' @ e)], en_cancelled = False, en_recovery = True, en_retryable = False\<rparr>
                 wd))"

fun undo_all ::
  "'w undo_disk \<Rightarrow> (int \<Rightarrow> bool) \<Rightarrow> undo_run \<Rightarrow> json \<Rightarrow> int list \<Rightarrow> undo_file list \<Rightarrow> json \<Rightarrow> 'w world \<Rightarrow> ustr + 'w finished" where
  "undo_all ud cancel u manifest ids [] ex wd = Inr (AllUndone ex wd)"
| "undo_all ud cancel u manifest ids (f # fs) ex wd =
     (let tid = uf_track f; begun = (completed_ids ex \<noteq> []) in
      if list_all (is_completed ex) (uf_steps f) then undo_all ud cancel u manifest ids fs ex wd
      else if cancel tid
      then Inr (Stopped_at manifest ex \<lparr>en_errors = [], en_cancelled = True, en_recovery = begun, en_retryable = True\<rparr> wd)
      else case get_track wd tid of
        None \<Rightarrow> Inr (Stopped_at manifest ex
             \<lparr>en_errors = [(tid, U ''track '' @ int_str tid @ U '' not found during undo'')], en_cancelled = False,
              en_recovery = begun, en_retryable = \<not> truthy (jget ex active_key)\<rparr> wd)
      | Some t \<Rightarrow>
      (case undo_steps ud u manifest ids f t (uf_steps f) ex wd of
        Stepped ex1 wd1 \<Rightarrow> undo_all ud cancel u manifest ids fs ex1 wd1
      | Vanished ex1 wd1 \<Rightarrow>
          Inr (Stopped_at manifest ex1
             \<lparr>en_errors = [(tid, U ''source journal disappeared during Undo'')], en_cancelled = False, en_recovery = True,
              en_retryable = False\<rparr> wd1)
      | StepFailed jid e wd1 \<Rightarrow> after_failure u manifest tid jid e wd1))"

section \<open>The run\<close>

definition undone_result :: "undo_file \<Rightarrow> undo_file_result" where
  "undone_result f = \<lparr>ud_track = uf_track f, ud_state = U ''undone'', ud_error = None, ud_retryable = False\<rparr>"

definition close_undone :: "undo_run \<Rightarrow> undo_file list \<Rightarrow> 'w world \<Rightarrow> 'w world \<times> undo_result" where
  "close_undone u fs wd =
     (persist (edit_undo (u_id u)
        (\<lambda>x. x\<lparr>u_state := U_UNDONE, u_error := None,
               u_result := undo_result_json (U ''undone'') (map undone_result fs) False False False\<rparr>) wd),
      (base_result u (U ''undone''))\<lparr>ur_files := map undone_result fs\<rparr>)"

text \<open>The end of a run whose preflight found errors.\<close>

definition refuse_undo ::
  "undo_run \<Rightarrow> json \<Rightarrow> json \<Rightarrow> (int \<times> ustr) list \<Rightarrow> bool \<Rightarrow> 'w world \<Rightarrow> ustr + 'w world \<times> undo_result" where
  "refuse_undo u manifest ex errors unknown wd =
     error_result u manifest ex
       \<lparr>en_errors = errors, en_cancelled = False,
        en_recovery = (unknown \<or> completed_ids ex \<noteq> []
          \<or> (\<exists>(i, e)\<in>set errors. prefix recovery_text e \<or> prefix (U ''source drift or recovery evidence failure'') e)),
        en_retryable = \<not> unknown\<rparr> wd"

definition preflight_errors ::
  "pyrepr \<Rightarrow> 'w disk \<Rightarrow> undo_run \<Rightarrow> journal list \<Rightarrow> undo_file list \<Rightarrow> json \<Rightarrow> 'w world \<Rightarrow> (int \<times> ustr) list \<times> bool" where
  "preflight_errors rp dk u js fs ex wd =
     (case undo_preflight rp dk True True u js fs ex wd of
        Inl e \<Rightarrow> (map (\<lambda>f. (uf_track f, e)) fs, True) | Inr r \<Rightarrow> r)"

definition execute_undo ::
  "'w undo_disk \<Rightarrow> pyrepr \<Rightarrow> (int \<Rightarrow> bool) \<Rightarrow> undo_run \<Rightarrow> json \<Rightarrow> journal list \<Rightarrow> undo_file list \<Rightarrow> json \<Rightarrow> 'w world \<Rightarrow>
     ustr + 'w world \<times> undo_result" where
  "execute_undo ud rp cancel u manifest js fs ex wd =
     (let (errors, unknown) = preflight_errors rp (ud_disk ud) u js fs ex wd in
      if errors \<noteq> [] then refuse_undo u manifest ex errors unknown wd
      else rbind (undo_all ud cancel u manifest (map fj_id js) fs ex wd) (\<lambda>r.
        case r of
          AllUndone ex1 wd1 \<Rightarrow> Inr (close_undone u fs wd1)
        | Stopped_at m ex1 en wd1 \<Rightarrow> error_result u m ex1 en wd1))"

text \<open>The manifest of the row, upgraded when it is old; with an error, what has become of the manifest.\<close>

definition load_manifest ::
  "'w world \<Rightarrow> undo_run \<Rightarrow> journal list \<Rightarrow> (ustr \<times> json) + json \<times> undo_file list \<times> json" where
  "load_manifest wd u js =
     (let m = (if is_dict (u_manifest u) then u_manifest u else JObj []);
          v2 = jget m version_key \<in> {JInt 2, JFloat 2};
          frozen = (if v2 then Inr m else freeze_legacy_manifest wd u (u_source_run u) js)
      in case frozen of
           Inl e \<Rightarrow> Inl (e, u_manifest u)
         | Inr m1 \<Rightarrow>
             (case rbind (undo_files m1) (\<lambda>fs. rbind (undo_execution m1) (\<lambda>ex. Inr (m1, fs, ex))) of
                Inl e \<Rightarrow> Inl (e, if v2 then u_manifest u else m1)
              | Inr r \<Rightarrow> Inr r))"

definition start_undo :: "undo_run \<Rightarrow> json \<Rightarrow> 'w world \<Rightarrow> 'w world" where
  "start_undo u manifest wd =
     persist (edit_undo (u_id u) (\<lambda>x. x\<lparr>u_manifest := manifest, u_state := U_UNDOING\<rparr>) wd)"

definition run_undo ::
  "'w undo_disk \<Rightarrow> pyrepr \<Rightarrow> (int \<Rightarrow> bool) \<Rightarrow> undo_run \<Rightarrow> apply_run \<Rightarrow> 'w world \<Rightarrow> ustr + 'w world \<times> undo_result" where
  "run_undo ud rp cancel u a wd =
     (let js = source_journals wd (a_id a); missing = missing_tracks wd js in
      if missing \<noteq> [] then
        (let e = U ''undo expired: journal retention window elapsed '' @ [8212] @ U '' missing journals for track(s) '' @ repr_ints rp missing
         in Inr (fail_early u e False (map (\<lambda>i. (i, e)) missing) wd))
      else case load_manifest wd u js of
        Inl (e, m) \<Rightarrow>
          Inr (fail_early u (recovery_text @ U '' '' @ e) True [] (edit_undo (u_id u) (\<lambda>x. x\<lparr>u_manifest := m\<rparr>) wd))
      | Inr (manifest, fs, ex) \<Rightarrow>
          if fs \<noteq> [] \<and> set (map uf_track fs) \<noteq> set (map fj_track js)
          then Inr (fail_early u (U ''recovery_required: frozen Undo file set does not match source journals'') True []
                 (edit_undo (u_id u) (\<lambda>x. x\<lparr>u_manifest := manifest\<rparr>) wd))
          else execute_undo ud rp cancel u manifest js fs ex (start_undo u manifest wd))"

definition retry_allowed :: "undo_run \<Rightarrow> bool" where
  "retry_allowed u \<longleftrightarrow>
     (let r = (if is_dict (u_result u) then u_result u else JObj []) in
      jget r (U ''retryable'') = JBool True
      \<or> (jget r (U ''cancelled'') = JBool True \<and> jget r (U ''recovery_required'') \<noteq> JBool True))"

definition apply_review_undo_run ::
  "'w undo_disk \<Rightarrow> pyrepr \<Rightarrow> (int \<Rightarrow> bool) \<Rightarrow> int \<Rightarrow> 'w world \<Rightarrow> ustr + 'w world \<times> undo_result" where
  "apply_review_undo_run ud rp cancel i wd =
     (case find_undo wd i of
        None \<Rightarrow> Inl (U ''undo run '' @ int_str i @ U '' not found'')
      | Some u \<Rightarrow>
          if u_state u = U_UNDONE \<and> is_dict (u_result u) \<and> jget (u_result u) (U ''state'') = JStr (U ''undone'')
          then Inr (wd, base_result u (U ''undone''))
          else if u_state u = U_FAILED \<and> \<not> retry_allowed u
          then Inr (wd, (base_result u (U ''failed''))\<lparr>ur_recovery := (is_dict (u_result u)
                 \<and> jget (u_result u) (U ''recovery_required'') = JBool True)\<rparr>)
          else if u_state u \<noteq> U_PENDING \<and> u_state u \<noteq> U_FAILED
          then Inr (wd, (base_result u (U ''failed''))\<lparr>ur_recovery := True\<rparr>)
          else
            (case find_row a_id (u_source_run u) (apply_runs (wd_db wd)) of
               None \<Rightarrow> Inr (fail_early u (U ''source apply run not found'') True [] wd)
             | Some a \<Rightarrow>
                 if a_state a \<noteq> RUN_APPLIED \<and> a_state a \<noteq> RUN_PARTIAL
                 then Inr (fail_early u (U ''source run not applied (state='' @ run_state_text (a_state a) @ [41]) False [] wd)
                 else run_undo ud rp cancel u a wd))"

end
