(* ===== verification/UndoRecovery.thy ===== *)
theory UndoRecovery
  imports UndoExecution JobRecovery
begin

text \<open>
  The reconciliation of an interrupted undo (\<open>reconcile_interrupted_undo\<close> and \<open>interrupted_undo_file_results\<close> of
  \<open>changes/bundle_undo.py\<close>): the one step that was under way goes back to the applied state, and every file is
  checked against its checkpoint. \<open>undo_reconciler\<close> is what the recovery of jobs asks for.
\<close>

section \<open>The interrupted step\<close>

definition find_step :: "undo_file list \<Rightarrow> int \<Rightarrow> undo_step option" where
  "find_step fs jid = find (\<lambda>st. us_journal st = jid) (concat (map uf_steps fs))"

text \<open>The step of the writing row: frozen, or built from the row when the manifest is old.\<close>

definition interrupted_step :: "json \<Rightarrow> journal \<Rightarrow> ustr + undo_step" where
  "interrupted_step manifest j =
     (if jget manifest version_key \<in> {JInt 2, JFloat 2} then
        (case undo_files manifest of
           Inl e \<Rightarrow> Inl (U ''recovery_required: frozen Undo manifest is invalid'')
         | Inr fs \<Rightarrow>
             (case find_step fs (fj_id j) of
                None \<Rightarrow> Inl (U ''recovery_required: active Undo journal is absent from frozen manifest'')
              | Some st \<Rightarrow> Inr st))
      else rbind (journal_step j) (\<lambda>raw.
        Inr \<lparr>us_journal = fj_id j, us_phase = fj_phase j, us_before = fj_blob j, us_raw = raw\<rparr>))"

definition back_to_applied :: "'w disk \<Rightarrow> 'w \<Rightarrow> ustr \<Rightarrow> ustr \<Rightarrow> json \<Rightarrow> json \<Rightarrow> ustr option \<times> 'w" where
  "back_to_applied dk w before after gb ga =
     (case verify_file_guard dk w after ga of
        None \<Rightarrow> (None, w)
      | Some _ \<Rightarrow>
          (case verify_file_guard dk w before gb of
             Some e \<Rightarrow> (Some e, w)
           | None \<Rightarrow>
               (case dk_return dk w before after gb ga of
                  Irreversible e committed w1 \<Rightarrow> (Some e, w1)
                | Reversed g h w1 \<Rightarrow>
                    if \<not> same_json g ga
                    then (Some (U ''recovery_required: interrupted move could not return to applied path''), w1)
                    else (None, w1))))"

definition realign_move :: "'w undo_disk \<Rightarrow> 'w \<Rightarrow> undo_step \<Rightarrow> ustr option \<times> 'w" where
  "realign_move ud w st =
     (let dk = ud_disk ud; before = jget (us_raw st) (U ''before_path''); after = jget (us_raw st) (U ''after_path'') in
      if \<not> is_str before \<or> \<not> is_str after then (Some (U ''argument should be a str''), w)
      else case (journal_file_guard (us_before st) guard_before, journal_file_guard (us_before st) guard_after) of
        (Inl e, _) \<Rightarrow> (Some e, w)
      | (_, Inl e) \<Rightarrow> (Some e, w)
      | (Inr gb, Inr ga) \<Rightarrow>
          (case (if dk_case_only dk (str_value after) (str_value before)
                 then ud_realign ud w (us_journal st) (str_value after) (str_value before) ga
                 else back_to_applied dk w (str_value before) (str_value after) gb ga) of
             (Some e, w1) \<Rightarrow> (Some e, w1)
           | (None, w1) \<Rightarrow> (verify_file_guard dk w1 (str_value after) ga, w1)))"

definition realign_tags :: "'w undo_disk \<Rightarrow> 'w \<Rightarrow> track \<Rightarrow> undo_step \<Rightarrow> ustr option \<times> 'w" where
  "realign_tags ud w t st =
     (case ud_settle ud w (us_journal st) of
        (Some e, w1) \<Rightarrow> (Some e, w1)
      | (None, w1) \<Rightarrow>
          (case journal_file_guard (us_before st) guard_after of
             Inl e \<Rightarrow> (Some e, w1)
           | Inr g \<Rightarrow> (verify_file_guard (ud_disk ud) w1 (tk_path t) g, w1)))"

definition realign_step :: "'w undo_disk \<Rightarrow> 'w world \<Rightarrow> track \<Rightarrow> undo_step \<Rightarrow> ustr option \<times> 'w" where
  "realign_step ud wd t st =
     (if us_phase st = U ''tags'' then realign_tags ud (wd_disk wd) t st
      else if us_phase st = U ''move'' then realign_move ud (wd_disk wd) st
      else if us_phase st = U ''grouping'' then
        ((if group_applied_matches wd t (us_before st) then None
          else Some (U ''recovery_required: grouping inverse outcome is uncertain'')), wd_disk wd)
      else (Some (U ''recovery_required: interrupted Undo phase is unsupported''), wd_disk wd))"

section \<open>Reconciliation\<close>

text \<open>The checkpoints of the row, checked when the manifest is frozen.\<close>

definition reconcile_execution :: "json \<Rightarrow> int \<Rightarrow> ustr + json" where
  "reconcile_execution manifest source =
     (let raw = jget_default manifest execution_key (JObj []); ex = (if is_dict raw then raw else JObj []) in
      if jget manifest version_key \<notin> {JInt 2, JFloat 2} then Inr ex
      else if \<not> equals_int (jget manifest source_key) source
      then Inl (U ''recovery_required: frozen Undo source run does not match'')
      else case rbind (undo_files manifest) (\<lambda>_. undo_execution manifest) of
        Inl e \<Rightarrow> Inl (U ''recovery_required: frozen Undo execution manifest is invalid'')
      | Inr x \<Rightarrow> Inr x)"

definition revert_journal :: "int \<Rightarrow> 'w world \<Rightarrow> 'w world" where
  "revert_journal jid wd = edit_journal jid (\<lambda>j. j\<lparr>fj_state := FJ_DONE, fj_error := None\<rparr>) wd"

text \<open>The commit at the end: the row is \<open>done\<close> and no step is active.\<close>

definition commit_reconciled :: "undo_run \<Rightarrow> int \<Rightarrow> json \<Rightarrow> json \<Rightarrow> int \<Rightarrow> 'w world \<Rightarrow> ustr + 'w world" where
  "commit_reconciled u source manifest ex jid wd =
     (let wd1 = revert_journal jid wd in
      if jget manifest version_key \<in> {JInt 2, JFloat 2}
      then Inr (put_execution (u_id u) manifest (jset active_key JNull ex) wd1)
      else rbind (freeze_legacy_manifest wd1 u source (source_journals wd1 source)) (\<lambda>m.
        Inr (edit_undo (u_id u) (\<lambda>x. x\<lparr>u_manifest := m\<rparr>) wd1)))"

text \<open>An exception keeps the database and the disk it leaves.\<close>

definition reconcile_writing :: "'w undo_disk \<Rightarrow> undo_run \<Rightarrow> int \<Rightarrow> json \<Rightarrow> json \<Rightarrow> journal \<Rightarrow> 'w world \<Rightarrow> 'w world \<times> ustr option" where
  "reconcile_writing ud u source manifest ex j wd =
     (case interrupted_step manifest j of
        Inl e \<Rightarrow> (wd, Some e)
      | Inr st \<Rightarrow>
          (case get_track wd (fj_track j) of
             None \<Rightarrow> (wd, Some (U ''recovery_required: interrupted Undo track is missing''))
           | Some t \<Rightarrow>
               (case realign_step ud wd t st of
                  (Some e, w) \<Rightarrow> (wd\<lparr>wd_disk := w\<rparr>, Some e)
                | (None, w) \<Rightarrow>
                    (case commit_reconciled u source manifest ex (fj_id j) (wd\<lparr>wd_disk := w\<rparr>) of
                       Inl e \<Rightarrow> (revert_journal (fj_id j) (wd\<lparr>wd_disk := w\<rparr>), Some e)
                     | Inr wd1 \<Rightarrow> (wd1, None)))))"

definition reconcile_interrupted_undo :: "'w undo_disk \<Rightarrow> int \<Rightarrow> 'w world \<Rightarrow> 'w world \<times> ustr option" where
  "reconcile_interrupted_undo ud i wd =
     (case find_undo wd i of
        None \<Rightarrow> (wd, Some (U ''undo run '' @ int_str i @ U '' not found''))
      | Some u \<Rightarrow>
          if find_row a_id (u_source_run u) (apply_runs (wd_db wd)) = None
          then (wd, Some (U ''source apply run not found during Undo recovery''))
          else
            let manifest = (if is_dict (u_manifest u) then u_manifest u else JObj []); source = u_source_run u;
                writing = writing_journals wd source
            in (case reconcile_execution manifest source of
                  Inl e \<Rightarrow> (wd, Some e)
                | Inr ex \<Rightarrow>
                    let active = jget ex active_key in
                    if writing = [] \<and> active = JNull then (wd, None)
                    else (case writing of
                      [j] \<Rightarrow>
                        if active \<noteq> JNull \<and> \<not> equals_int active (fj_id j)
                        then (wd, Some (U ''recovery_required: active Undo journal does not match writing evidence''))
                        else reconcile_writing ud u source manifest ex j wd
                    | _ \<Rightarrow> (wd, Some (U ''recovery_required: interrupted Undo has ambiguous writing journals'')))))"

section \<open>The results of the files\<close>

definition interrupted_result :: "json \<Rightarrow> (int \<times> ustr) list \<Rightarrow> bool \<Rightarrow> undo_file \<Rightarrow> undo_file_result" where
  "interrupted_result ex errors unknown f =
     (let e = map_of errors (uf_track f) in
      if list_all (is_completed ex) (uf_steps f) \<and> e = None then undone_result f
      else \<lparr>ud_track = uf_track f, ud_state = U ''failed'',
             ud_error = Some (text_or e (U ''recovery_required: interrupted Undo did not complete this file'')),
             ud_retryable = \<not> unknown\<rparr>)"

text \<open>The upgraded manifest stays assigned to the row when an exception follows.\<close>

definition interrupted_undo_file_results ::
  "pyrepr \<Rightarrow> 'w disk \<Rightarrow> int \<Rightarrow> 'w world \<Rightarrow> 'w world \<times> (ustr + undo_file_result list \<times> bool)" where
  "interrupted_undo_file_results rp dk i wd =
     (case find_undo wd i of
        None \<Rightarrow> (wd, Inl (U ''undo run '' @ int_str i @ U '' not found''))
      | Some u \<Rightarrow>
          if find_row a_id (u_source_run u) (apply_runs (wd_db wd)) = None
          then (wd, Inl (U ''source apply run not found during Undo recovery''))
          else
            let js = source_journals wd (u_source_run u);
                put = (\<lambda>m. edit_undo i (\<lambda>x. x\<lparr>u_manifest := m\<rparr>) wd)
            in (case load_manifest wd u js of
                  Inl (e, m) \<Rightarrow> (put m, Inl e)
                | Inr (manifest, fs, ex) \<Rightarrow>
                    (put manifest,
                     rbind (undo_preflight rp dk False False u js fs ex wd) (\<lambda>(errors, unknown).
                       Inr (map (interrupted_result ex errors unknown) fs, \<not> unknown)))))"

text \<open>
  What the recovery of jobs takes as the outcome for an undo run: the rows of the review and job tables come from
  the recovery, files and journal from the world.
\<close>

definition undo_reconciler :: "'w undo_disk \<Rightarrow> pyrepr \<Rightarrow> 'w world \<Rightarrow> int \<Rightarrow> db \<Rightarrow> undo_outcome" where
  "undo_reconciler ud rp wd i d =
     (case reconcile_interrupted_undo ud i (wd\<lparr>wd_db := d\<rparr>) of
        (wd1, Some e) \<Rightarrow> ReconcileError (wd_db wd1) e
      | (wd1, None) \<Rightarrow>
          (case interrupted_undo_file_results rp (ud_disk ud) i wd1 of
             (wd2, Inl e) \<Rightarrow> ReconcileError (wd_db wd2) e
           | (wd2, Inr (rs, retryable)) \<Rightarrow> Reconciled (wd_db wd2) True (map undo_file_json rs) retryable))"

end
