(* ===== verification/UndoRequest.thy ===== *)
theory UndoRequest
  imports UndoRecovery
begin

text \<open>
  Requesting the undo of an apply run (\<open>services/review_undo.py\<close>): the inverse is frozen from the completed journal
  rows before a job is published, a repeated request returns the job that is there, and a failed undo is
  queued again only when it can be retried. The attempts of the world are those of the source run.
\<close>

datatype undo_exc = UndoRefused ustr | UndoQueue job_exc

section \<open>The frozen inverse\<close>

definition freeze_step :: "journal \<Rightarrow> ustr + json" where
  "freeze_step j =
     (let whose = U '' for track '' @ int_str (fj_track j) in
      if \<not> is_dict (fj_blob j) then Inl (U ''source inverse payload is missing'' @ whose)
      else if fj_phase j = U ''tags'' \<and> (fj_after_hash j = None \<or> \<not> has_guards (fj_blob j))
      then Inl (U ''source tag inverse is incomplete'' @ whose)
      else if fj_phase j = U ''move'' \<and> (fj_before_path j = None \<or> fj_after_path j = None \<or> \<not> has_guards (fj_blob j))
      then Inl (U ''source move inverse is incomplete'' @ whose)
      else if fj_phase j = U ''grouping'' \<and> \<not> is_str (jget (fj_blob j) (U ''action''))
      then Inl (U ''source grouping inverse is incomplete'' @ whose)
      else Inr (JObj ((U ''journal_id'', JInt (fj_id j)) # (U ''phase'', JStr (fj_phase j)) # step_entries j)))"

definition freeze_file :: "'w world \<Rightarrow> int \<times> journal list \<Rightarrow> ustr + json" where
  "freeze_file wd entry =
     (case entry of (tid, js) \<Rightarrow>
        (case get_track wd tid of
           None \<Rightarrow> Inl (U ''track '' @ int_str tid @ U '' is missing from the source apply'')
         | Some t \<Rightarrow>
             rbind (rmap freeze_step js) (\<lambda>steps.
             rbind (track_snapshot t) (\<lambda>snap. Inr (file_json tid snap steps)))))"

definition frozen_manifest :: "int \<Rightarrow> json list \<Rightarrow> json" where
  "frozen_manifest source files =
     JObj [(version_key, JInt 2), (source_key, JInt source), (files_key, JList files), (execution_key, empty_execution),
           (jobs_key, JList [])]"

definition manifest_for_inverses :: "pyrepr \<Rightarrow> 'w world \<Rightarrow> int \<Rightarrow> ustr + json" where
  "manifest_for_inverses rp wd source =
     (let js = source_journals wd source in
      if js = [] then Inl (U ''undo expired: source journals are unavailable'')
      else if \<not> list_all (\<lambda>j. fj_state j = FJ_DONE) js
      then Inl (U ''source apply journals are not a complete applied checkpoint'')
      else case find (\<lambda>j. \<not> undo_phase (fj_phase j)) js of
        Some j \<Rightarrow> Inl (U ''unsupported source journal phase for undo: '' @ fj_phase j)
      | None \<Rightarrow>
          if missing_tracks wd js \<noteq> []
          then Inl (U ''source apply is missing inverse journals for track(s) '' @ repr_ints rp (missing_tracks wd js))
          else rbind (rmap (freeze_file wd) (bucket_all fj_track id js)) (\<lambda>files. Inr (frozen_manifest source files)))"

section \<open>Jobs of a run\<close>

definition undo_job_ids :: "json \<Rightarrow> int list" where
  "undo_job_ids manifest = map int_value (filter is_int (list_value (jget manifest jobs_key)))"

definition live_job :: "job \<Rightarrow> bool" where
  "live_job j \<longleftrightarrow> j_state j = J_PENDING \<or> j_state j = J_RUNNING \<or> j_state j = J_CANCELLING"

definition active_or_completed_job :: "db \<Rightarrow> undo_run \<Rightarrow> job option" where
  "active_or_completed_job d u =
     (let js = List.map_filter (\<lambda>i. find_row j_id i (jobs d)) (rev (undo_job_ids (u_manifest u))) in
      case find live_job js of
        Some j \<Rightarrow> Some j
      | None \<Rightarrow> if u_state u = U_UNDONE then (case js of [] \<Rightarrow> None | j # _ \<Rightarrow> Some j) else None)"

section \<open>The request\<close>

definition retention_error :: "pyrepr \<Rightarrow> 'w world \<Rightarrow> journal list \<Rightarrow> ustr option" where
  "retention_error rp wd js =
     (let expired = U ''undo expired: journal retention window elapsed '' in
      if expected_tracks wd \<noteq> [] \<and> js = []
      then Some (expired @ U ''(age/count threshold) '' @ [8212] @ U '' no journals retained'')
      else if missing_tracks wd js \<noteq> []
      then Some (expired @ [8212] @ U '' missing journals for track(s) '' @ repr_ints rp (missing_tracks wd js))
      else None)"

definition new_undo_run :: "db \<Rightarrow> int \<Rightarrow> int \<Rightarrow> ustr \<Rightarrow> json \<Rightarrow> undo_run" where
  "new_undo_run d bid source key manifest =
     \<lparr>u_id = next_id u_id (undo_runs d), u_bundle = bid, u_source_run = source, u_key = key, u_state = U_PENDING,
      u_manifest = manifest, u_result = JNull, u_error = None\<rparr>"

text \<open>The unique index on active undo runs of a bundle; the caller has looked for the other two.\<close>

definition create_undo_run :: "pyrepr \<Rightarrow> int \<Rightarrow> int \<Rightarrow> ustr \<Rightarrow> 'w world \<Rightarrow> ustr + undo_run" where
  "create_undo_run rp bid source key wd =
     (if \<exists>u\<in>set (undo_runs (wd_db wd)). u_bundle u = bid \<and> (u_state u = U_PENDING \<or> u_state u = U_UNDOING)
      then Inl (U ''review already has an active undo run'')
      else rbind (manifest_for_inverses rp wd source) (\<lambda>m. Inr (new_undo_run (wd_db wd) bid source key m)))"

definition may_requeue :: "undo_run \<Rightarrow> bool" where
  "may_requeue u \<longleftrightarrow>
     (let r = (if is_dict (u_result u) then u_result u else JObj []); m = u_manifest u in
      jget r (U ''retryable'') = JBool True
      \<or> (jget m version_key \<notin> {JInt 2, JFloat 2}
         \<and> (jget r (U ''cancelled'') = JBool True \<or> jget r (U ''recovery_required'') = JBool True
            \<or> (\<exists>e\<in>set (list_value (jget m files_key)). is_dict e \<and> jget e (U ''retryable'') = JBool True))))"

definition undo_payload :: "int \<Rightarrow> bool option \<Rightarrow> json" where
  "undo_payload i backup =
     JObj ((U ''undo_run_id'', JInt i) # (case backup of None \<Rightarrow> [] | Some b \<Rightarrow> [(U ''backup'', JBool b)]))"

definition publish_undo :: "undo_run \<Rightarrow> bool option \<Rightarrow> int \<Rightarrow> 'w world \<Rightarrow> undo_exc + 'w world \<times> int \<times> int" where
  "publish_undo u backup now wd =
     (case enqueue (U ''undo_review_bundle'') (undo_payload (u_id u) backup) 0 None now (wd_db wd) of
        Inl e \<Rightarrow> Inl (UndoQueue e)
      | Inr (d, j) \<Rightarrow>
          Inr (edit_undo (u_id u)
                 (\<lambda>x. x\<lparr>u_manifest := jset jobs_key (JList (map JInt (undo_job_ids (u_manifest u) @ [j_id j]))) (u_manifest u)\<rparr>)
                 (wd\<lparr>wd_db := d\<rparr>), u_id u, j_id j))"

definition refuse :: "ustr \<Rightarrow> undo_exc + 'a" where
  "refuse e = Inl (UndoRefused e)"

text \<open>A request for a run that exists: the run that bears the key is preferred to that of the source.\<close>

definition repeat_undo :: "undo_run \<Rightarrow> bool \<Rightarrow> bool option \<Rightarrow> int \<Rightarrow> 'w world \<Rightarrow> undo_exc + 'w world \<times> int \<times> int" where
  "repeat_undo u same backup now wd =
     (case (active_or_completed_job (wd_db wd) u, u_state u = U_UNDONE \<and> \<not> same) of
        (Some j, False) \<Rightarrow> Inr (wd, u_id u, j_id j)
      | (job, _) \<Rightarrow>
          if u_state u = U_UNDONE then refuse (U ''this apply run has already been undone'')
          else if u_state u = U_PENDING \<or> u_state u = U_UNDOING then refuse (U ''undo is already in progress'')
          else if \<not> may_requeue u then refuse (U ''undo failed closed and cannot be retried'')
          else publish_undo u backup now wd)"

definition source_refusal :: "'w world \<Rightarrow> int \<Rightarrow> int \<Rightarrow> ustr option" where
  "source_refusal wd bid rid =
     (if find_row b_id bid (bundles (wd_db wd)) = None then Some (U ''review bundle '' @ int_str bid @ U '' not found'')
      else case find_row a_id rid (apply_runs (wd_db wd)) of
        None \<Rightarrow> Some (U ''apply run does not belong to this review'')
      | Some a \<Rightarrow>
          if a_bundle a \<noteq> bid then Some (U ''apply run does not belong to this review'')
          else if a_state a \<noteq> RUN_APPLIED \<and> a_state a \<noteq> RUN_PARTIAL
          then Some (U ''only an applied or partially applied run can be undone'')
          else None)"

definition enqueue_review_undo ::
  "pyrepr \<Rightarrow> int \<Rightarrow> int \<Rightarrow> ustr \<Rightarrow> bool option \<Rightarrow> int \<Rightarrow> 'w world \<Rightarrow> undo_exc + 'w world \<times> int \<times> int" where
  "enqueue_review_undo rp bid rid key backup now wd =
     (let us = undo_runs (wd_db wd); same = find (\<lambda>u. u_bundle u = bid \<and> u_key u = key) us in
      if strip key = [] then refuse (U ''idempotency key must not be empty'')
      else case (source_refusal wd bid rid, retention_error rp wd (source_journals wd rid)) of
        (Some e, _) \<Rightarrow> refuse e
      | (None, Some e) \<Rightarrow> refuse e
      | (None, None) \<Rightarrow>
          (case (case same of Some u \<Rightarrow> Some u | None \<Rightarrow> find (\<lambda>u. u_source_run u = rid) us) of
             Some u \<Rightarrow> repeat_undo u (same \<noteq> None) backup now wd
           | None \<Rightarrow>
               (case create_undo_run rp bid rid key wd of
                  Inl e \<Rightarrow> refuse e
                | Inr u \<Rightarrow>
                    publish_undo u backup now
                      (wd\<lparr>wd_db := (wd_db wd)\<lparr>undo_runs := undo_runs (wd_db wd) @ [u]\<rparr>\<rparr>))))"

end
