(* ===== verification/UndoFacts.thy ===== *)
theory UndoFacts
  imports UndoRequest ApplyRollbackFacts
begin

text \<open>
  Facts about undo runs: what a validated manifest guarantees, how checkpoints are read back after they
  were written, and what each step leaves alone.
\<close>

section \<open>Frames\<close>

lemma edit_undo_frames [frame, simp]:
  "wd_journals (edit_undo i f wd) = wd_journals wd" "wd_tracks (edit_undo i f wd) = wd_tracks wd"
  "wd_units (edit_undo i f wd) = wd_units wd" "wd_disk (edit_undo i f wd) = wd_disk wd"
  "wd_tries (edit_undo i f wd) = wd_tries wd" "apply_runs (wd_db (edit_undo i f wd)) = apply_runs (wd_db wd)"
  "jobs (wd_db (edit_undo i f wd)) = jobs (wd_db wd)" "bundles (wd_db (edit_undo i f wd)) = bundles (wd_db wd)"
  "operations (wd_db (edit_undo i f wd)) = operations (wd_db wd)" "events (wd_db (edit_undo i f wd)) = events (wd_db wd)"
  "attempts (wd_db (edit_undo i f wd)) = attempts (wd_db wd)" "maintenance (wd_db (edit_undo i f wd)) = maintenance (wd_db wd)"
  "inbox (wd_db (edit_undo i f wd)) = inbox (wd_db wd)"
  "undo_runs (wd_db (edit_undo i f wd)) = update_where (\<lambda>u. u_id u = i) f (undo_runs (wd_db wd))"
  by (simp_all add: edit_undo_def)

lemma put_execution_frames [frame, simp]:
  "wd_journals (put_execution i m ex wd) = wd_journals wd" "wd_tracks (put_execution i m ex wd) = wd_tracks wd"
  "wd_units (put_execution i m ex wd) = wd_units wd" "wd_disk (put_execution i m ex wd) = wd_disk wd"
  "apply_runs (wd_db (put_execution i m ex wd)) = apply_runs (wd_db wd)"
  by (simp_all add: put_execution_def)

lemma find_undo_edit [simp]:
  "(\<And>u. u_id (f u) = u_id u) \<Longrightarrow> find_undo (edit_undo i f wd) i = map_option f (find_undo wd i)"
  unfolding find_undo_def edit_undo_frames
  by (subst find_row_update) (auto dest: find_row_Some intro!: option.map_cong)

lemma find_undo_put [simp]:
  "find_undo (put_execution i m ex wd) i = map_option (\<lambda>u. u\<lparr>u_manifest := jset execution_key ex m\<rparr>) (find_undo wd i)"
  by (simp add: put_execution_def)

lemma find_undo_cong: "wd_db wd' = wd_db wd \<Longrightarrow> find_undo wd' i = find_undo wd i"
  by (simp add: find_undo_def)

lemma find_undo_frames [simp]:
  "find_undo (edit_track j tf wd) i = find_undo wd i" "find_undo (edit_unit j uf wd) i = find_undo wd i"
  "find_undo (edit_journal j jf wd) i = find_undo wd i" "find_undo (wd\<lparr>wd_disk := w\<rparr>) i = find_undo wd i"
  "find_undo (wd\<lparr>wd_log := l\<rparr>) i = find_undo wd i" "find_undo (persist wd) i = find_undo wd i"
  by (simp_all add: find_undo_def)

lemma log_frames [simp]:
  "wd_log (edit_undo i f wd) = wd_log wd" "wd_log (put_execution i m ex wd) = wd_log wd" "wd_log (edit_journal j jf wd) = wd_log wd"
  by (simp_all add: edit_undo_def put_execution_def edit_journal_def)

lemma after_effect_frames [simp]:
  "wd_db (after_effect wd wd') = wd_db wd'" "wd_tracks (after_effect wd wd') = wd_tracks wd'"
  "wd_units (after_effect wd wd') = wd_units wd'" "wd_journals (after_effect wd wd') = wd_journals wd'"
  "wd_disk (after_effect wd wd') = wd_disk wd'" "find_undo (after_effect wd wd') i = find_undo wd' i"
  by (simp_all add: after_effect_def find_undo_def)

lemma edit_log_commute:
  "edit_journal i jf (wd\<lparr>wd_log := l\<rparr>) = (edit_journal i jf wd)\<lparr>wd_log := l\<rparr>"
  "put_execution i m ex (wd\<lparr>wd_log := l\<rparr>) = (put_execution i m ex wd)\<lparr>wd_log := l\<rparr>"
  by (simp_all add: edit_journal_def put_execution_def edit_undo_def)

lemma find_undo_id: "find_undo wd i = Some u \<Longrightarrow> u_id u = i"
  by (auto simp: find_undo_def dest: find_row_Some)

lemma journal_edit_disk [simp]: "wd_disk (edit_journal i f wd) = wd_disk wd" "wd_units (edit_journal i f wd) = wd_units wd"
  by (simp_all add: edit_journal_def)

section \<open>Reading the manifest\<close>

lemma read_step_phase: "read_step tid seen raw = Inr st \<Longrightarrow> undo_phase (us_phase st) \<and> us_journal st \<notin> set seen"
  by (auto simp: read_step_def Let_def split: if_splits)

lemma read_steps_sound:
  "read_steps tid seen raws = Inr sts \<Longrightarrow>
     distinct (map us_journal sts) \<and> us_journal ` set sts \<inter> set seen = {} \<and> (\<forall>st\<in>set sts. undo_phase (us_phase st))"
proof (induction raws arbitrary: seen sts)
  case (Cons raw raws)
  obtain st sts' where st: "read_step tid seen raw = Inr st" "read_steps tid (us_journal st # seen) raws = Inr sts'"
    "sts = st # sts'" using Cons.prems by (auto simp: rbind_eq_Inr)
  show ?case using Cons.IH [OF st(2)] read_step_phase [OF st(1)] st(3) by auto
qed simp

lemma read_file_sound:
  assumes "read_file tracks seen raw = Inr f"
  shows "uf_track f \<notin> set tracks \<and> uf_steps f \<noteq> [] \<and> distinct (step_ids f) \<and> set (step_ids f) \<inter> set seen = {}
    \<and> (\<forall>st\<in>set (uf_steps f). undo_phase (us_phase st))"
proof -
  have f: "uf_track f \<notin> set tracks" "uf_steps f \<noteq> []" "\<exists>raws. read_steps (uf_track f) seen raws = Inr (uf_steps f)"
    using assms by (auto simp: read_file_def Let_def rbind_eq_Inr simp del: U_Cons U_Nil split: if_splits)
  then show ?thesis using read_steps_sound [of "uf_track f" seen _ "uf_steps f"] by (auto simp: step_ids_def)
qed

definition well_read :: "undo_file list \<Rightarrow> bool" where
  "well_read fs \<longleftrightarrow> distinct (map uf_track fs) \<and> distinct (frozen_ids fs)
     \<and> (\<forall>f\<in>set fs. uf_steps f \<noteq> [] \<and> (\<forall>st\<in>set (uf_steps f). undo_phase (us_phase st)))"

lemma read_files_sound:
  "read_files tracks seen raws = Inr fs \<Longrightarrow>
     well_read fs \<and> uf_track ` set fs \<inter> set tracks = {} \<and> set (frozen_ids fs) \<inter> set seen = {}"
proof (induction raws arbitrary: tracks seen fs)
  case (Cons raw raws)
  obtain f fs' where f: "read_file tracks seen raw = Inr f"
    "read_files (uf_track f # tracks) (step_ids f @ seen) raws = Inr fs'" "fs = f # fs'"
    using Cons.prems by (auto simp: rbind_eq_Inr)
  show ?case using Cons.IH [OF f(2)] read_file_sound [OF f(1)] f(3) by (auto simp: well_read_def frozen_ids_def)
qed (simp add: well_read_def frozen_ids_def)

lemma undo_files_sound: "undo_files m = Inr fs \<Longrightarrow> well_read fs"
  using read_files_sound by (auto simp: undo_files_def split: if_splits)

section \<open>Reading the checkpoints\<close>

lemma undo_files_put [simp]: "undo_files (jset execution_key ex m) = undo_files m"
  by (simp add: undo_files_def jget_jset)

lemma version_put [simp]:
  "jget (jset execution_key ex m) version_key = jget m version_key" "jget (jset execution_key ex m) source_key = jget m source_key"
  "is_dict (jset k x v)"
  by (simp_all add: jget_jset) (simp add: jset_def)

lemma undo_execution_put: "is_dict ex \<Longrightarrow> valid_execution ex \<Longrightarrow> undo_execution (jset execution_key ex m) = Inr ex"
  by (simp add: undo_execution_def jget_jset)

lemma undo_execution_sound: "undo_execution m = Inr ex \<Longrightarrow> is_dict ex \<and> valid_execution ex \<and> jget m execution_key = ex"
  by (auto simp: undo_execution_def Let_def split: if_splits)

definition active_id :: "json \<Rightarrow> int option" where
  "active_id ex = opt_int (jget ex active_key)"

lemma valid_active: "valid_execution ex \<Longrightarrow> active_id ex = None \<longleftrightarrow> jget ex active_key = JNull"
  by (cases "jget ex active_key") (auto simp: valid_execution_def active_id_def opt_int_def)

lemma set_active [simp]:
  "completed_ids (jset active_key v ex) = completed_ids ex" "jget (jset active_key v ex) step_marks_key = jget ex step_marks_key"
  "jget (jset active_key v ex) file_marks_key = jget ex file_marks_key"
  "active_id (jset active_key (JInt i) ex) = Some i" "active_id (jset active_key JNull ex) = None"
  by (simp_all add: completed_ids_def jget_jset active_id_def opt_int_def)

lemma valid_set_active [simp]:
  "valid_execution ex \<Longrightarrow> v = JNull \<or> valid_integer v \<Longrightarrow> valid_execution (jset active_key v ex)"
  by (auto simp: valid_execution_def jget_jset)

lemma is_completed_set_active [simp]: "is_completed (jset active_key v ex) = is_completed ex"
  by (simp add: is_completed_def fun_eq_iff)

lemma mark_step_sound:
  assumes "valid_execution ex"
  shows "is_dict (mark_step f st mark ex)" "valid_execution (mark_step f st mark ex)"
    "active_id (mark_step f st mark ex) = None"
    "completed_ids (mark_step f st mark ex) =
       (if us_journal st \<in> set (completed_ids ex) then completed_ids ex else completed_ids ex @ [us_journal st])"
  using assms
  by (simp_all add: mark_step_def Let_def valid_execution_def jget_jset active_id_def opt_int_def completed_ids_def
      list_all_iff comp_def)

lemma is_completed_mark:
  "valid_execution ex \<Longrightarrow> is_completed (mark_step f st mark ex) x \<longleftrightarrow> is_completed ex x \<or> us_journal x = us_journal st"
  by (auto simp: is_completed_def mark_step_sound)

section \<open>What an effect leaves alone\<close>

lemma restore_grouping_frames:
  "restore_grouping tid before wd = Inr wd' \<Longrightarrow> wd_journals wd' = wd_journals wd \<and> wd_db wd' = wd_db wd \<and> wd_disk wd' = wd_disk wd"
  by (auto simp: restore_grouping_def Let_def restore_pin_def edit_unit_def edit_track_def recount_groups_def split: if_splits)

lemma undo_effect_frames:
  "undo_effect ud t st wd = Effected g b wd' \<Longrightarrow> wd_journals wd' = wd_journals wd \<and> wd_db wd' = wd_db wd"
  by (auto simp: undo_effect_def undo_tags_def undo_move_def Let_def dest!: restore_grouping_frames
      simp del: U_Cons U_Nil split: if_splits sum.splits reversal.splits option.splits)

text \<open>The payload that an effect leaves in the journal row still matches the frozen step.\<close>

lemma undo_effect_blob:
  "undo_effect ud t st wd = Effected g b wd' \<Longrightarrow> b = None \<or> (\<exists>x. b = Some (jset guard_restored x (us_before st)))"
  by (auto simp: undo_effect_def undo_tags_def undo_move_def Let_def
      simp del: U_Cons U_Nil split: if_splits sum.splits reversal.splits option.splits)

lemma same_json_trans: "same_json a b \<Longrightarrow> same_json a c \<Longrightarrow> same_json b c"
  by (simp add: same_json_def)

lemma matches_id: "journal_matches j st tid \<Longrightarrow> fj_id j = us_journal st \<and> fj_track j = tid \<and> fj_phase j = us_phase st"
  unfolding journal_matches_def by blast

lemma restored_matches:
  assumes m: "journal_matches j st tid" and b: "fj_blob j' = jset guard_restored x (us_before st)"
    and same: "fj_id j' = fj_id j" "fj_track j' = fj_track j" "fj_phase j' = fj_phase j" "fj_path j' = fj_path j"
      "fj_before_hash j' = fj_before_hash j" "fj_after_hash j' = fj_after_hash j" "fj_before_path j' = fj_before_path j"
      "fj_after_path j' = fj_after_path j"
  shows "journal_matches j' st tid"
proof -
  have "k \<in> set mutable_keys \<or> same_json (jget (fj_blob j') k) v" if kv: "(k, v) \<in> set (entries (us_before st))" for k v
  proof (cases "k \<in> set mutable_keys")
    case False
    then have k: "k \<noteq> guard_restored" by (auto simp: mutable_keys_def simp del: U_Cons U_Nil)
    obtain v1 where v1: "map_of (entries (us_before st)) k = Some v1" using kv by (metis weak_map_of_SomeI)
    then have "(k, v1) \<in> set (entries (us_before st))" by (rule map_of_SomeD)
    then have "same_json (jget (fj_blob j) k) v1" "same_json (jget (fj_blob j) k) v"
      using m kv False by (auto simp: journal_matches_def list_all_iff)
    then have "same_json v1 v" by (rule same_json_trans)
    moreover have "jget (fj_blob j') k = v1" unfolding b jget_jset using k v1 by (simp add: jget_def del: U_Cons U_Nil)
    ultimately show ?thesis by simp
  qed simp
  then show ?thesis using m same b by (auto simp: journal_matches_def list_all_iff simp del: U_Cons U_Nil)
qed

lemma unique_step:
  assumes "well_read fs" and "f \<in> set fs" "st \<in> set (uf_steps f)" "f' \<in> set fs" "st' \<in> set (uf_steps f')"
    and "us_journal st = us_journal st'"
  shows "st = st'"
proof -
  have "frozen_ids fs = map us_journal (concat (map uf_steps fs))" by (simp add: frozen_ids_def step_ids_def [abs_def] map_concat comp_def)
  then have "inj_on us_journal (set (concat (map uf_steps fs)))" using assms(1) by (simp add: well_read_def distinct_map)
  then show ?thesis using assms by (auto simp: inj_on_def)
qed

lemma track_ids_restore [simp]: "tk_id (restore_art b t) = tk_id t" "tk_id (restore_lyrics b t) = tk_id t"
    "tk_id (relocate dk x p h t) = tk_id t"
  by (simp_all add: restore_art_def restore_lyrics_def relocate_def update_file_facts_def Let_def split: option.splits prod.splits)

end
