(* ===== verification/UndoProtocol.thy ===== *)
theory UndoProtocol
  imports UndoFacts
begin

text \<open>
  The write-ahead protocol of an undo run. Abstractly it is a ledger of the journal rows that are undone and
  the one that is under way. The checkpoints of the run row are such a ledger, and the states of the journal
  rows are determined by it. \<open>undo_commit\<close> has one rule per commit of the code, so that its reachable worlds
  are the ones that a crash can leave; it refines the ledger.
\<close>

section \<open>The ledger\<close>

type_synonym ledger = "int set \<times> int option"

inductive ledger_step :: "int set \<Rightarrow> ledger \<Rightarrow> ledger \<Rightarrow> bool" for J where
  intend: "j \<in> J \<Longrightarrow> j \<notin> D \<Longrightarrow> ledger_step J (D, None) (D, Some j)"
| complete: "ledger_step J (D, Some j) (insert j D, None)"
| revert: "ledger_step J (D, Some j) (D, None)"

inductive_cases ledger_stepE: "ledger_step J a b"

definition ledger_state :: "ledger \<Rightarrow> int \<Rightarrow> journal_state" where
  "ledger_state l i = (if snd l = Some i then FJ_WRITING else if i \<in> fst l then FJ_ROLLED_BACK else FJ_DONE)"

definition ledger_of :: "json \<Rightarrow> ledger" where
  "ledger_of ex = (set (completed_ids ex), active_id ex)"

lemma ledger_of_simps [simp]: "fst (ledger_of ex) = set (completed_ids ex)" "snd (ledger_of ex) = active_id ex"
  by (simp_all add: ledger_of_def)

section \<open>Consistent worlds\<close>

definition frozen_as :: "int \<Rightarrow> undo_file list \<Rightarrow> json \<Rightarrow> bool" where
  "frozen_as run fs m \<longleftrightarrow>
     undo_files m = Inr fs \<and> jget m version_key \<in> {JInt 2, JFloat 2} \<and> equals_int (jget m source_key) run"

text \<open>The row of the undo run has this frozen manifest and these checkpoints.\<close>

definition undo_row_ok :: "int \<Rightarrow> int \<Rightarrow> undo_file list \<Rightarrow> json \<Rightarrow> 'w world \<Rightarrow> bool" where
  "undo_row_ok i run fs ex wd \<longleftrightarrow>
     (\<exists>u. find_undo wd i = Some u \<and> u_source_run u = run \<and> frozen_as run fs (u_manifest u)
        \<and> undo_execution (u_manifest u) = Inr ex)"

text \<open>The journal rows of the source run are the frozen ones, and their states are those of the ledger.\<close>

definition journals_ok :: "int \<Rightarrow> undo_file list \<Rightarrow> json \<Rightarrow> journal list \<Rightarrow> bool" where
  "journals_ok run fs ex js \<longleftrightarrow>
     distinct (map fj_id js) \<and> set (frozen_ids fs) = fj_id ` {j \<in> set js. fj_run j = run}
     \<and> distinct (completed_ids ex) \<and> set (completed_ids ex) \<subseteq> set (frozen_ids fs)
     \<and> (\<forall>a. active_id ex = Some a \<longrightarrow> a \<in> set (frozen_ids fs) \<and> a \<notin> set (completed_ids ex))
     \<and> (\<forall>j\<in>set js. fj_run j = run \<longrightarrow> fj_state j = ledger_state (ledger_of ex) (fj_id j))
     \<and> (\<forall>f\<in>set fs. \<forall>st\<in>set (uf_steps f). \<exists>j\<in>set js. fj_run j = run \<and> journal_matches j st (uf_track f))"

definition consistent :: "int \<Rightarrow> int \<Rightarrow> undo_file list \<Rightarrow> json \<Rightarrow> 'w world \<Rightarrow> bool" where
  "consistent i run fs ex wd \<longleftrightarrow> undo_row_ok i run fs ex wd \<and> journals_ok run fs ex (wd_journals wd)"

lemma frozen_put [simp]: "frozen_as run fs (jset execution_key ex m) = frozen_as run fs m"
  by (simp add: frozen_as_def)

lemma row_put:
  "undo_row_ok i run fs ex0 wd \<Longrightarrow> frozen_as run fs m \<Longrightarrow> is_dict ex \<Longrightarrow> valid_execution ex \<Longrightarrow>
     undo_row_ok i run fs ex (put_execution i m ex wd)"
  by (auto simp: undo_row_ok_def undo_execution_put)

lemma row_cong: "wd_db wd' = wd_db wd \<Longrightarrow> undo_row_ok i run fs ex wd' = undo_row_ok i run fs ex wd"
  by (simp add: undo_row_ok_def find_undo_def)

lemma row_frames [simp]:
  "undo_row_ok i run fs ex (edit_journal j f wd) = undo_row_ok i run fs ex wd" "undo_row_ok i run fs ex (wd\<lparr>wd_disk := w\<rparr>) = undo_row_ok i run fs ex wd"
  "undo_row_ok i run fs ex (wd\<lparr>wd_log := l\<rparr>) = undo_row_ok i run fs ex wd" "undo_row_ok i run fs ex (persist wd) = undo_row_ok i run fs ex wd"
  by (simp_all add: undo_row_ok_def)

lemma consistent_frames [simp]:
  "consistent i run fs ex (wd\<lparr>wd_disk := w\<rparr>) = consistent i run fs ex wd"
  "consistent i run fs ex (wd\<lparr>wd_log := l\<rparr>) = consistent i run fs ex wd" "consistent i run fs ex (persist wd) = consistent i run fs ex wd"
  by (simp_all add: consistent_def)

lemma row_valid: "undo_row_ok i run fs ex wd \<Longrightarrow> is_dict ex \<and> valid_execution ex \<and> well_read fs"
  by (auto simp: undo_row_ok_def frozen_as_def dest: undo_execution_sound undo_files_sound)

lemma journals_edit:
  assumes "journals_ok run fs ex js"
    and g: "\<And>j. fj_id (g j) = fj_id j" "\<And>j. fj_run (g j) = fj_run j" "\<And>j. fj_state (g j) = s"
    and ex': "distinct (completed_ids ex')" "set (completed_ids ex') \<subseteq> set (frozen_ids fs)"
      "\<And>b. active_id ex' = Some b \<Longrightarrow> b \<in> set (frozen_ids fs) \<and> b \<notin> set (completed_ids ex')"
    and state: "\<And>i. i \<in> set (frozen_ids fs) \<Longrightarrow>
      ledger_state (ledger_of ex') i = (if i = a then s else ledger_state (ledger_of ex) i)"
    and matches: "\<And>f st j. f \<in> set fs \<Longrightarrow> st \<in> set (uf_steps f) \<Longrightarrow> fj_id j = a \<Longrightarrow>
      journal_matches j st (uf_track f) \<Longrightarrow> journal_matches (g j) st (uf_track f)"
  shows "journals_ok run fs ex' (update_where (\<lambda>j. fj_id j = a) g js)"
proof -
  have ids: "map fj_id (update_where (\<lambda>j. fj_id j = a) g js) = map fj_id js"
    by (rule update_where_keys) (simp add: g)
  have "map fj_id (filter (\<lambda>j. fj_run j = run) (update_where (\<lambda>j. fj_id j = a) g js)) = map fj_id (filter (\<lambda>j. fj_run j = run) js)"
    by (simp add: filter_update_where update_where_keys g)
  from arg_cong [of _ _ set, OF this]
  have run: "fj_id ` {j \<in> set (update_where (\<lambda>j. fj_id j = a) g js). fj_run j = run} = fj_id ` {j \<in> set js. fj_run j = run}"
    by simp
  have frozen: "fj_id j \<in> set (frozen_ids fs)" if "j \<in> set js" "fj_run j = run" for j
    using assms(1) that by (auto simp: journals_ok_def)
  have "fj_state j = ledger_state (ledger_of ex') (fj_id j)"
    if j: "j \<in> set (update_where (\<lambda>j. fj_id j = a) g js)" "fj_run j = run" for j
  proof -
    obtain j0 where j0: "j0 \<in> set js" "j = (if fj_id j0 = a then g j0 else j0)" using j(1) by (auto simp: set_update_where)
    then show ?thesis using j(2) frozen [of j0] state [of "fj_id j0"] assms(1) g by (auto simp: journals_ok_def)
  qed
  moreover have "\<exists>j\<in>set (update_where (\<lambda>j. fj_id j = a) g js). fj_run j = run \<and> journal_matches j st (uf_track f)"
    if f: "f \<in> set fs" "st \<in> set (uf_steps f)" for f st
  proof -
    obtain j where "j \<in> set js" "fj_run j = run" "journal_matches j st (uf_track f)"
      using assms(1) f unfolding journals_ok_def by blast
    then show ?thesis using matches [OF f] g(2)
      by (intro bexI [of _ "if fj_id j = a then g j else j"]) (auto simp: set_update_where)
  qed
  ultimately show ?thesis using assms(1) ids run ex' unfolding journals_ok_def by simp
qed

lemma matches_state [simp]:
  "journal_matches (j\<lparr>fj_state := s\<rparr>) st tid = journal_matches j st tid"
  "journal_matches (j\<lparr>fj_state := s, fj_error := e\<rparr>) st tid = journal_matches j st tid"
  by (simp_all add: journal_matches_def del: U_Cons U_Nil)

text \<open>The intent, the completion and the return of one step.\<close>

lemma journals_intend:
  assumes "journals_ok run fs ex js" and "active_id ex = None" and "a \<in> set (frozen_ids fs)" "a \<notin> set (completed_ids ex)"
  shows "journals_ok run fs (jset active_key (JInt a) ex) (update_where (\<lambda>j. fj_id j = a) (\<lambda>j. j\<lparr>fj_state := FJ_WRITING\<rparr>) js)"
  by (rule journals_edit [OF assms(1), where s = FJ_WRITING])
    (use assms in \<open>auto simp: journals_ok_def ledger_state_def\<close>)

lemma journals_complete:
  assumes "journals_ok run fs ex js" and "active_id ex = Some (us_journal st)" and "valid_execution ex"
    and st: "well_read fs" "f0 \<in> set fs" "st \<in> set (uf_steps f0)"
    and b: "b = None \<or> (\<exists>x. b = Some (jset guard_restored x (us_before st)))"
  shows "journals_ok run fs (mark_step f st mark ex) (update_where (\<lambda>j. fj_id j = us_journal st) (finish_step b) js)"
proof (rule journals_edit [OF assms(1), where s = FJ_ROLLED_BACK])
  fix f1 st1 j
  assume f1: "f1 \<in> set fs" "st1 \<in> set (uf_steps f1)" and j: "fj_id j = us_journal st" "journal_matches j st1 (uf_track f1)"
  then have "st1 = st" using unique_step [OF st(1) f1 st(2,3)] matches_id by metis
  then show "journal_matches (finish_step b j) st1 (uf_track f1)"
    using b restored_matches [OF j(2)] j(2)
    by (cases b) (auto simp: finish_step_def simp del: U_Cons U_Nil)
qed (use assms in \<open>auto simp: journals_ok_def ledger_state_def mark_step_sound finish_step_def\<close>)

lemma journals_revert:
  assumes "journals_ok run fs ex js" and "active_id ex = Some a"
  shows "journals_ok run fs (jset active_key JNull ex)
    (update_where (\<lambda>j. fj_id j = a) (\<lambda>j. j\<lparr>fj_state := FJ_DONE, fj_error := None\<rparr>) js)"
  by (rule journals_edit [OF assms(1), where s = FJ_DONE])
    (use assms in \<open>auto simp: journals_ok_def ledger_state_def\<close>)

section \<open>Writing rows\<close>

lemma writing_row:
  assumes "journals_ok run fs ex (wd_journals wd)"
  shows "j \<in> set (writing_journals wd run) \<Longrightarrow> active_id ex = Some (fj_id j)"
    and "active_id ex = Some a \<Longrightarrow> \<exists>j. writing_journals wd run = [j] \<and> fj_id j = a"
    and "active_id ex = None \<Longrightarrow> writing_journals wd run = []"
proof -
  have w: "active_id ex = Some (fj_id j)" if "j \<in> set (writing_journals wd run)" for j
    using that assms by (auto simp: journals_ok_def writing_journals_def ledger_state_def split: if_splits)
  then show "j \<in> set (writing_journals wd run) \<Longrightarrow> active_id ex = Some (fj_id j)" .
  show "active_id ex = None \<Longrightarrow> writing_journals wd run = []" using w by (cases "writing_journals wd run") auto
  assume a: "active_id ex = Some a"
  then obtain j where j: "j \<in> set (wd_journals wd)" "fj_run j = run" "fj_id j = a"
    using assms by (auto simp: journals_ok_def)
  then have mem: "j \<in> set (writing_journals wd run)"
    using assms a by (auto simp: journals_ok_def writing_journals_def ledger_state_def)
  have dist: "distinct (map fj_id (writing_journals wd run))"
    using assms by (auto simp: journals_ok_def writing_journals_def distinct_map_filter)
  have same: "fj_id x = a" if "x \<in> set (writing_journals wd run)" for x using w [OF that] a by simp
  obtain x xs where xs: "writing_journals wd run = x # xs" using mem by (cases "writing_journals wd run") auto
  have "xs = []" using dist same [of x] same [of "hd xs"] unfolding xs by (cases xs) auto
  then show "\<exists>j. writing_journals wd run = [j] \<and> fj_id j = a" using xs same [of x] by simp
qed

section \<open>Commits\<close>

inductive undo_commit :: "'w undo_disk \<Rightarrow> int \<Rightarrow> 'w world \<Rightarrow> 'w world \<Rightarrow> bool" for ud i where
  begins: "find_undo wd i = Some u \<Longrightarrow> undo_files (u_manifest u) = Inr fs \<Longrightarrow> undo_execution (u_manifest u) = Inr ex \<Longrightarrow>
    active_id ex = None \<Longrightarrow> f \<in> set fs \<Longrightarrow> st \<in> set (uf_steps f) \<Longrightarrow> \<not> is_completed ex st \<Longrightarrow>
    undo_commit ud i wd (snd (begin_step u (u_manifest u) ex (us_journal st) wd))"
| finishes: "find_undo wd i = Some u \<Longrightarrow> undo_files (u_manifest u) = Inr fs \<Longrightarrow> undo_execution (u_manifest u) = Inr ex \<Longrightarrow>
    f \<in> set fs \<Longrightarrow> st \<in> set (uf_steps f) \<Longrightarrow> active_id ex = Some (us_journal st) \<Longrightarrow>
    undo_effect ud t st wd = Effected g b wd1 \<Longrightarrow>
    undo_commit ud i wd (put_execution i (u_manifest u) (mark_step f st mark ex)
      (edit_journal (us_journal st) (finish_step b) wd1))"
| disk: "undo_commit ud i wd (wd\<lparr>wd_disk := w\<rparr>)"
| logged: "undo_commit ud i wd (wd\<lparr>wd_log := l\<rparr>)"
| updates: "(\<And>x. u_id (h x) = u_id x) \<Longrightarrow> find_undo wd i = Some u \<Longrightarrow> u_source_run (h u) = u_source_run u \<Longrightarrow>
    u_manifest (h u) = u_manifest u \<Longrightarrow>
    undo_commit ud i wd (edit_undo i h wd)"
| reconciled: "reconcile_interrupted_undo ud i wd = (wd1, None) \<Longrightarrow> undo_commit ud i wd wd1"

inductive_cases undo_commitE: "undo_commit ud i wd wd1"

lemma row_edit:
  assumes "undo_row_ok i run fs ex wd"
    and "\<And>x. u_id (h x) = u_id x" "find_undo wd i = Some u" "u_source_run (h u) = u_source_run u" "u_manifest (h u) = u_manifest u"
  shows "undo_row_ok i run fs ex (edit_undo i h wd)"
  using assms by (auto simp: undo_row_ok_def)

lemma row_same:
  assumes "undo_row_ok i run fs ex wd" and "find_undo wd i = Some u"
  shows "u_id u = i" "u_source_run u = run" "frozen_as run fs (u_manifest u)" "undo_execution (u_manifest u) = Inr ex"
  using assms find_undo_id by (auto simp: undo_row_ok_def)

lemma v2_manifest: "frozen_as run fs m \<Longrightarrow> is_dict m \<and> jget m version_key \<in> {JInt 2, JFloat 2} \<and> equals_int (jget m source_key) run \<and> undo_files m = Inr fs"
  by (cases m) (auto simp: frozen_as_def undo_files_def jget_def)

lemma equals_active: "valid_execution ex \<Longrightarrow> active_id ex = Some a \<Longrightarrow> jget ex active_key \<noteq> JNull \<and> equals_int (jget ex active_key) a"
  by (cases "jget ex active_key") (auto simp: valid_execution_def active_id_def opt_int_def equals_int_def)

text \<open>What a reconciliation that returns has done.\<close>

lemma reconcile_cases:
  assumes c: "consistent i run fs ex wd" and r: "reconcile_interrupted_undo ud i wd = (wd', None)"
  obtains "active_id ex = None" "wd' = wd"
  | a u w where "active_id ex = Some a" "find_undo wd i = Some u"
      "wd' = put_execution i (u_manifest u) (jset active_key JNull ex) (revert_journal a (wd\<lparr>wd_disk := w\<rparr>))"
proof -
  obtain u where u: "find_undo wd i = Some u" and row: "undo_row_ok i run fs ex wd" and js: "journals_ok run fs ex (wd_journals wd)"
    using c by (auto simp: consistent_def undo_row_ok_def)
  note s = row_same [OF row u] and v = v2_manifest [OF row_same(3) [OF row u]]
  have valid: "valid_execution ex" using row_valid [OF row] by simp
  have ex: "reconcile_execution (u_manifest u) run = Inr ex"
    using v s(4) by (auto simp: reconcile_execution_def Let_def)
  show ?thesis
  proof (cases "active_id ex")
    case None
    then show ?thesis
      using r u v s ex that(1) writing_row(3) [OF js None] valid_active [OF valid]
      by (auto simp: reconcile_interrupted_undo_def Let_def simp del: U_Cons U_Nil split: if_splits)
  next
    case (Some a)
    obtain j where j: "writing_journals wd run = [j]" "fj_id j = a" using writing_row(2) [OF js Some] by blast
    have "reconcile_writing ud u run (u_manifest u) ex j wd = (wd', None)"
      using r u v s(2) ex j equals_active [OF valid Some]
      by (simp add: reconcile_interrupted_undo_def Let_def del: U_Cons U_Nil split: if_splits)
    then obtain w where "commit_reconciled u run (u_manifest u) ex a (wd\<lparr>wd_disk := w\<rparr>) = Inr wd'"
      using j(2) by (auto simp: reconcile_writing_def simp del: U_Cons U_Nil split: sum.splits option.splits prod.splits)
    then show ?thesis
      using v s(1) by (intro that(2) [OF Some u, of w]) (auto simp: commit_reconciled_def Let_def)
  qed
qed

lemma consistent_begin:
  assumes c: "consistent i run fs ex wd" and m: "frozen_as run fs m" and "u_id u = i"
    and a: "active_id ex = None" "a \<in> set (frozen_ids fs)" "a \<notin> set (completed_ids ex)"
  shows "consistent i run fs (fst (begin_step u m ex a wd)) (snd (begin_step u m ex a wd))"
proof -
  have row: "undo_row_ok i run fs ex wd" and js: "journals_ok run fs ex (wd_journals wd)" using c by (simp_all add: consistent_def)
  have "undo_row_ok i run fs ex (edit_journal a (\<lambda>j. j\<lparr>fj_state := FJ_WRITING\<rparr>) wd)" using row by simp
  from row_put [OF this m, of "jset active_key (JInt a) ex"] show ?thesis
    using row_valid [OF row] journals_intend [OF js a] assms(3)
    by (simp add: consistent_def begin_step_def Let_def)
qed

lemma consistent_finish:
  assumes c: "consistent i run fs ex wd" and m: "frozen_as run fs m" and a: "active_id ex = Some (us_journal st)"
    and st: "f \<in> set fs" "st \<in> set (uf_steps f)" and effect: "undo_effect ud t st wd = Effected g b wd1"
  shows "consistent i run fs (mark_step f st mark ex)
    (put_execution i m (mark_step f st mark ex) (edit_journal (us_journal st) (finish_step b) wd1))"
proof -
  have row: "undo_row_ok i run fs ex wd" and js: "journals_ok run fs ex (wd_journals wd)" using c by (simp_all add: consistent_def)
  note valid = row_valid [OF row] and b = undo_effect_blob [OF effect]
  have eff: "wd_journals wd1 = wd_journals wd" "wd_db wd1 = wd_db wd" using undo_effect_frames [OF effect] by simp_all
  have "undo_row_ok i run fs ex (edit_journal (us_journal st) (finish_step b) wd1)" using row row_cong [OF eff(2)] by simp
  from row_put [OF this m, of "mark_step f st mark ex"] show ?thesis
    using valid mark_step_sound [of ex f st mark]
      journals_complete [OF js a _ _ st b, of f mark] eff by (simp add: consistent_def)
qed

text \<open>Every commit keeps the world consistent and is a step of the ledger, or leaves the ledger alone.\<close>

lemma undo_commit_refines:
  assumes c: "consistent i run fs ex wd" and s: "undo_commit ud i wd wd'"
  shows "\<exists>ex'. consistent i run fs ex' wd' \<and> (ledger_step (set (frozen_ids fs)))\<^sup>=\<^sup>= (ledger_of ex) (ledger_of ex')"
proof -
  have row: "undo_row_ok i run fs ex wd" and js: "journals_ok run fs ex (wd_journals wd)" using c by (simp_all add: consistent_def)
  note valid = row_valid [OF row]
  show ?thesis
    using s
  proof (cases rule: undo_commit.cases)
    case (begins u fs' ex0 f st)
    have same: "fs' = fs" "ex0 = ex" "u_id u = i" "frozen_as run fs (u_manifest u)"
      using row_same [OF row begins(2)] begins(3,4) by (auto simp: frozen_as_def)
    have st: "us_journal st \<in> set (frozen_ids fs)" "us_journal st \<notin> set (completed_ids ex)"
      using begins same by (auto simp: frozen_ids_def step_ids_def is_completed_def)
    have "ledger_step (set (frozen_ids fs)) (ledger_of ex) (ledger_of (fst (begin_step u (u_manifest u) ex (us_journal st) wd)))"
      using st begins(5) same by (auto simp: ledger_of_def begin_step_def Let_def intro: ledger_step.intros)
    then show ?thesis
      using consistent_begin [OF c same(4,3) _ st] begins same by auto
  next
    case (finishes u fs' ex0 f st t g b wd1 mark)
    have same: "ex0 = ex" "fs' = fs" "frozen_as run fs (u_manifest u)"
      using row_same [OF row finishes(2)] finishes(3,4) by (auto simp: frozen_as_def)
    have "ledger_step (set (frozen_ids fs)) (ledger_of ex) (ledger_of (mark_step f st mark ex))"
    proof -
      have "us_journal st \<notin> set (completed_ids ex)" using js finishes(7) same by (auto simp: journals_ok_def)
      then have "ledger_of (mark_step f st mark ex) = (insert (us_journal st) (set (completed_ids ex)), None)"
        using mark_step_sound [of ex f st mark] valid by (simp add: ledger_of_def)
      then show ?thesis using finishes(7) same by (auto simp: ledger_of_def intro: ledger_step.intros)
    qed
    then show ?thesis
      using consistent_finish [OF c same(3) _ _ _ finishes(8), of f mark] finishes same by auto
  next
    case (disk w)
    then show ?thesis using c by (intro exI [of _ ex]) simp
  next
    case (logged l)
    then show ?thesis using c by (intro exI [of _ ex]) simp
  next
    case (updates h u)
    then show ?thesis using row_edit [OF row updates(2-5)] js by (intro exI [of _ ex]) (simp add: consistent_def)
  next
    case reconciled
    from reconcile_cases [OF c reconciled] show ?thesis
    proof cases
      case 1
      then show ?thesis using c by blast
    next
      case (2 a u w)
      have same: "frozen_as run fs (u_manifest u)" using row_same [OF row 2(2)] by simp
      have "undo_row_ok i run fs ex (revert_journal a (wd\<lparr>wd_disk := w\<rparr>))" using row by (simp add: revert_journal_def)
      from row_put [OF this same, of "jset active_key JNull ex"] have "consistent i run fs (jset active_key JNull ex) wd'"
        using valid journals_revert [OF js 2(1)]
        by (simp add: consistent_def 2(3) revert_journal_def)
      moreover have "ledger_step (set (frozen_ids fs)) (ledger_of ex) (ledger_of (jset active_key JNull ex))"
        using 2(1) by (auto simp: ledger_of_def intro: ledger_step.intros)
      ultimately show ?thesis by blast
    qed
  qed
qed

section \<open>The log\<close>

text \<open>What the process finds when it starts again on a durable state, and the ledger that it reads there.\<close>

definition restart :: "'w durable \<Rightarrow> 'w world" where
  "restart s =
     \<lparr>wd_db = wd_db s, wd_tracks = wd_tracks s, wd_units = wd_units s, wd_journals = wd_journals s, wd_tries = wd_tries s,
      wd_files = wd_files s, wd_disk = wd_disk s, wd_log = []\<rparr>"

definition ledger_in :: "int \<Rightarrow> 'w durable \<Rightarrow> ledger" where
  "ledger_in i s =
     (case find_undo (restart s) i of
        None \<Rightarrow> ({}, None)
      | Some u \<Rightarrow> (case undo_execution (u_manifest u) of Inl e \<Rightarrow> ({}, None) | Inr ex \<Rightarrow> ledger_of ex))"

fun effect_disk :: "'w effected \<Rightarrow> 'w" where
  "effect_disk (Refused e w) = w"
| "effect_disk (Effected g b wd) = wd_disk wd"

definition same_catalog :: "'w durable \<Rightarrow> 'w durable \<Rightarrow> bool" where
  "same_catalog s s' \<longleftrightarrow> wd_tracks s' = wd_tracks s \<and> wd_units s' = wd_units s"

text \<open>
  Two durable states that follow each other. The disk changes in two cases only: by the effect of the step that the
  ledger, as it was committed before, has under way, and by the cleaning up behind a step that it has as
  completed. In neither does the database change. Tracks and work units change with the completion of a step only.
\<close>

inductive write_ahead :: "'w undo_disk \<Rightarrow> int \<Rightarrow> undo_file list \<Rightarrow> 'w durable \<Rightarrow> 'w durable \<Rightarrow> bool" for ud i fs where
  intent: "ledger_in i s = (D, None) \<Longrightarrow> j \<in> set (frozen_ids fs) - D \<Longrightarrow> ledger_in i s' = (D, Some j) \<Longrightarrow>
    same_catalog s s' \<Longrightarrow> wd_disk s' = wd_disk s \<Longrightarrow> write_ahead ud i fs s s'"
| effect: "ledger_in i s = (D, Some j) \<Longrightarrow> f \<in> set fs \<Longrightarrow> st \<in> set (uf_steps f) \<Longrightarrow> us_journal st = j \<Longrightarrow> saved wd = s \<Longrightarrow>
    w = effect_disk (undo_effect ud t st wd) \<Longrightarrow> write_ahead ud i fs s (s\<lparr>wd_disk := w\<rparr>)"
| completion: "ledger_in i s = (D, Some j) \<Longrightarrow> ledger_in i s' = (insert j D, None) \<Longrightarrow> wd_disk s' = wd_disk s \<Longrightarrow>
    write_ahead ud i fs s s'"
| cleaning: "ledger_in i s = (D, None) \<Longrightarrow> j \<in> D \<Longrightarrow>
    write_ahead ud i fs s (s\<lparr>wd_disk := dk_finalize (ud_disk ud) (wd_disk s) j\<rparr>)"
| report: "ledger_in i s' = ledger_in i s \<Longrightarrow> same_catalog s s' \<Longrightarrow> wd_journals s' = wd_journals s \<Longrightarrow> wd_disk s' = wd_disk s \<Longrightarrow>
    write_ahead ud i fs s s'"

lemma restart_sel [simp]:
  "wd_db (restart s) = wd_db s" "wd_journals (restart s) = wd_journals s" "wd_disk (restart s) = wd_disk s"
  by (simp_all add: restart_def)

lemma restart_saved [simp]:
  "find_undo (restart (saved wd)) i = find_undo wd i"
  "consistent i run fs ex (restart (saved wd)) = consistent i run fs ex wd"
  by (simp_all add: find_undo_def consistent_def undo_row_ok_def)

lemma ledger_in_row: "undo_row_ok i run fs ex wd \<Longrightarrow> ledger_in i (saved wd) = ledger_of ex"
  by (auto simp: ledger_in_def undo_row_ok_def)

lemma ledger_in_consistent: "consistent i run fs ex wd \<Longrightarrow> ledger_in i (saved wd) = ledger_of ex"
  unfolding consistent_def by (blast intro: ledger_in_row)

text \<open>The log of a part of a run: it takes the durable state from the first world to the last, and every state is consistent.\<close>

definition logs :: "'w undo_disk \<Rightarrow> int \<Rightarrow> int \<Rightarrow> undo_file list \<Rightarrow> 'w world \<Rightarrow> 'w world \<Rightarrow> 'w durable list \<Rightarrow> bool" where
  "logs ud i run fs wd wd' l \<longleftrightarrow>
     wd_log wd' = wd_log wd @ l \<and> last (saved wd # l) = saved wd' \<and> successively (write_ahead ud i fs) (saved wd # l)
     \<and> (\<forall>s\<in>set l. \<exists>ex. consistent i run fs ex (restart s))"

lemma logs_refl: "logs ud i run fs wd wd []"
  by (simp add: logs_def)

lemma successively_join:
  "successively P (x # xs) \<Longrightarrow> successively P (last (x # xs) # ys) \<Longrightarrow> successively P (x # xs @ ys)"
  by (induction xs arbitrary: x) auto

lemma logs_trans:
  assumes "logs ud i run fs wd wd1 l1" and "logs ud i run fs wd1 wd2 l2"
  shows "logs ud i run fs wd wd2 (l1 @ l2)"
  using assms successively_join [of "write_ahead ud i fs" "saved wd" l1 l2]
  by (cases l2) (auto simp: logs_def simp del: successively.simps)

lemma logs_persist:
  assumes "write_ahead ud i fs (saved wd) (saved wd')" and "wd_log wd' = wd_log wd" and "consistent i run fs ex wd'"
  shows "logs ud i run fs wd (persist wd') [saved wd']"
  using assms by (auto simp: logs_def)

end
