(* ===== verification/UndoRefinement.thy ===== *)
theory UndoRefinement
  imports UndoProtocol
begin

text \<open>
  The executor follows the write-ahead protocol: every world that a step, a file or the whole run leaves is
  reached by commits from the world it started from, and between steps nothing is under way.
\<close>

section \<open>Between steps\<close>

lemma jset_jset [simp]: "jset k x (jset k y v) = jset k x v"
proof -
  have "AList.update k x (AList.update k y kvs) = AList.update k x kvs" for kvs :: "(ustr \<times> json) list"
    by (induction kvs) auto
  then show ?thesis by (simp add: jset_def)
qed

text \<open>The row's manifest differs from the one in memory in its checkpoints only.\<close>

definition based :: "int \<Rightarrow> json \<Rightarrow> 'w world \<Rightarrow> bool" where
  "based i m wd \<longleftrightarrow> (\<exists>u. find_undo wd i = Some u \<and> (\<forall>x. jset execution_key x (u_manifest u) = jset execution_key x m))"

definition ready :: "int \<Rightarrow> int \<Rightarrow> undo_file list \<Rightarrow> json \<Rightarrow> json \<Rightarrow> 'w world \<Rightarrow> bool" where
  "ready i run fs m ex wd \<longleftrightarrow> consistent i run fs ex wd \<and> active_id ex = None \<and> based i m wd"

lemma based_put [simp]: "based i m wd \<Longrightarrow> based i m (put_execution i m ex wd)"
  by (auto simp: based_def)

lemma based_frames [simp]:
  "based i m (edit_journal j f wd) = based i m wd" "based i m (wd\<lparr>wd_disk := w\<rparr>) = based i m wd"
  by (simp_all add: based_def)

lemma based_cong: "wd_db wd' = wd_db wd \<Longrightarrow> based i m wd' = based i m wd"
  by (simp add: based_def find_undo_def)

abbreviation undo_commits :: "'w undo_disk \<Rightarrow> int \<Rightarrow> 'w world \<Rightarrow> 'w world \<Rightarrow> bool" where
  "undo_commits ud i \<equiv> (undo_commit ud i)\<^sup>*\<^sup>*"

lemma commits_disk [simp, intro]: "undo_commits ud i wd (wd\<lparr>wd_disk := w\<rparr>)"
  by (rule r_into_rtranclp) (rule undo_commit.disk)

lemma commits_log [simp, intro]: "undo_commits ud i wd (wd\<lparr>wd_log := l\<rparr>)"
  by (rule r_into_rtranclp) (rule undo_commit.logged)

lemma commits_persist: "undo_commits ud i wd wd' \<Longrightarrow> undo_commits ud i wd (persist wd')"
  unfolding persist_def by (rule rtranclp_trans [OF _ commits_log])

text \<open>A part of a run goes from one world to the other by commits, and the log is that of a write-ahead protocol.\<close>

definition reaches :: "'w undo_disk \<Rightarrow> int \<Rightarrow> int \<Rightarrow> undo_file list \<Rightarrow> 'w world \<Rightarrow> 'w world \<Rightarrow> bool" where
  "reaches ud i run fs wd wd' \<longleftrightarrow> undo_commits ud i wd wd' \<and> (\<exists>l. logs ud i run fs wd wd' l)"

lemma reaches_refl [simp]: "reaches ud i run fs wd wd"
  unfolding reaches_def by (blast intro: logs_refl)

lemma reaches_trans [trans]: "reaches ud i run fs wd wd1 \<Longrightarrow> reaches ud i run fs wd1 wd2 \<Longrightarrow> reaches ud i run fs wd wd2"
  using logs_trans by (fastforce simp: reaches_def)

lemma reaches_persist:
  "undo_commits ud i wd wd' \<Longrightarrow> write_ahead ud i fs (saved wd) (saved wd') \<Longrightarrow> wd_log wd' = wd_log wd \<Longrightarrow>
     consistent i run fs ex wd' \<Longrightarrow> reaches ud i run fs wd (persist wd')"
  using logs_persist commits_persist by (fastforce simp: reaches_def)

lemma based_persist [simp]: "based i m (persist wd) = based i m wd" "based i m (wd\<lparr>wd_log := l\<rparr>) = based i m wd"
  by (simp_all add: based_def)

lemma ready_persist [simp]: "ready i run fs m ex (persist wd) = ready i run fs m ex wd"
  by (simp add: ready_def)

section \<open>A step\<close>

text \<open>What a step leaves; when it fails, its intent is what the database has.\<close>

definition step_follows :: "'w undo_disk \<Rightarrow> int \<Rightarrow> int \<Rightarrow> undo_file list \<Rightarrow> json \<Rightarrow> json \<Rightarrow> 'w world \<Rightarrow> int list \<Rightarrow> 'w stepped \<Rightarrow> bool" where
  "step_follows ud i run fs m ex wd ids r \<longleftrightarrow>
     (case r of
        Stepped ex1 wd1 \<Rightarrow>
          reaches ud i run fs wd wd1 \<and> ready i run fs m ex1 wd1 \<and> set (completed_ids ex1) = set (completed_ids ex) \<union> set ids
      | Vanished ex1 wd1 \<Rightarrow>
          reaches ud i run fs wd wd1 \<and> ready i run fs m ex1 wd1 \<and> set (completed_ids ex) \<subseteq> set (completed_ids ex1)
      | StepFailed j e wd1 \<Rightarrow>
          reaches ud i run fs wd wd1 \<and> based i m wd1 \<and> (\<exists>ex1. consistent i run fs ex1 wd1 \<and> active_id ex1 = Some j))"

text \<open>The effect of the step under way, before its completion is committed.\<close>

lemma reaches_effect:
  assumes c: "consistent i run fs ex wd" "active_id ex = Some (us_journal st)" and st: "f \<in> set fs" "st \<in> set (uf_steps f)"
    and w: "w = effect_disk (undo_effect ud t st wd)"
  shows "reaches ud i run fs wd (persist (wd\<lparr>wd_disk := w\<rparr>))"
proof (rule reaches_persist [of _ _ _ _ _ _ ex])
  have eq: "saved (wd\<lparr>wd_disk := w\<rparr>) = (saved wd)\<lparr>wd_disk := w\<rparr>" by (simp add: saved_def)
  have "ledger_in i (saved wd) = (set (completed_ids ex), Some (us_journal st))"
    using ledger_in_consistent [OF c(1)] c(2) by (simp add: ledger_of_def)
  then show "write_ahead ud i fs (saved wd) (saved (wd\<lparr>wd_disk := w\<rparr>))"
    unfolding eq by (rule write_ahead.effect [OF _ st refl refl w])
qed (use c in simp_all)

lemma apply_step_follows:
  assumes r: "ready i run fs m ex wd" and m: "frozen_as run fs m" and u: "u_id u = i"
    and st: "f \<in> set fs" "st \<in> set (uf_steps f)" "\<not> is_completed ex st"
  shows "step_follows ud i run fs m ex wd [us_journal st] (apply_step ud u m f st t ex wd)"
proof -
  have c: "consistent i run fs ex wd" and none: "active_id ex = None" and base: "based i m wd"
    using r by (simp_all add: ready_def)
  obtain u0 where u0: "find_undo wd i = Some u0" "\<And>x. jset execution_key x (u_manifest u0) = jset execution_key x m"
    using base by (auto simp: based_def)
  have row: "undo_row_ok i run fs ex wd" using c by (simp add: consistent_def)
  have read0: "undo_files (u_manifest u0) = Inr fs" "undo_execution (u_manifest u0) = Inr ex" "u_id u0 = i"
    using row_same [OF row u0(1)] by (simp_all add: frozen_as_def)
  have mem: "us_journal st \<in> set (frozen_ids fs)" "us_journal st \<notin> set (completed_ids ex)"
    using st by (auto simp: frozen_ids_def step_ids_def is_completed_def)
  define ex1 where "ex1 = fst (begin_step u m ex (us_journal st) wd)"
  define wd0 where "wd0 = snd (begin_step u m ex (us_journal st) wd)"
  define wd1 where "wd1 = persist wd0"
  have beg: "begin_step u m ex (us_journal st) wd = (ex1, wd0)" by (simp add: ex1_def wd0_def)
  have c0: "consistent i run fs ex1 wd0" using consistent_begin [OF c m u none mem] by (simp add: beg)
  then have c1: "consistent i run fs ex1 wd1" by (simp add: wd1_def)
  have act: "active_id ex1 = Some (us_journal st)" "completed_ids ex1 = completed_ids ex"
    using beg by (auto simp: begin_step_def Let_def)
  have base1: "based i m wd1" using beg base u by (auto simp: begin_step_def Let_def wd1_def)
  have "begin_step u0 (u_manifest u0) ex (us_journal st) wd = (ex1, wd0)"
    using beg u read0(3) u0(2) by (auto simp: begin_step_def Let_def put_execution_def)
  then have "undo_commit ud i wd wd0"
    using undo_commit.begins [OF u0(1) read0(1,2) none st] by (metis snd_conv)
  moreover have "write_ahead ud i fs (saved wd) (saved wd0)"
    by (rule write_ahead.intent [of _ _ "set (completed_ids ex)" "us_journal st"])
      (use ledger_in_consistent [OF c] ledger_in_consistent [OF c0] none act mem beg in
        \<open>auto simp: ledger_of_def same_catalog_def begin_step_def Let_def\<close>)
  moreover have "wd_log wd0 = wd_log wd" using beg by (auto simp: begin_step_def Let_def)
  ultimately have r1: "reaches ud i run fs wd wd1" unfolding wd1_def by (intro reaches_persist [OF _ _ _ c0]) auto
  show ?thesis
  proof (cases "undo_effect ud t st wd1")
    case (Refused e w)
    have "reaches ud i run fs wd1 (persist (wd1\<lparr>wd_disk := w\<rparr>))"
      by (rule reaches_effect [OF c1 act(1) st(1,2), where t = t]) (simp add: Refused)
    then have "reaches ud i run fs wd (persist (wd1\<lparr>wd_disk := w\<rparr>))" by (rule reaches_trans [OF r1])
    then show ?thesis
      using base1 beg Refused c1 act(1) by (auto simp: apply_step_def step_follows_def Let_def wd1_def [symmetric])
  next
    case (Effected g b wd2)
    let ?t = "current_track wd2 t"
    note eff = undo_effect_frames [OF Effected]
    let ?mid = "persist (wd1\<lparr>wd_disk := wd_disk wd2\<rparr>)"
    have mid: "reaches ud i run fs wd1 ?mid"
      by (rule reaches_effect [OF c1 act(1) st(1,2), where t = t]) (simp add: Effected)
    show ?thesis
    proof (cases "track_snapshot ?t")
      case (Inl e)
      have "reaches ud i run fs wd ?mid" by (rule reaches_trans [OF r1 mid])
      then show ?thesis
        using base1 beg Effected Inl c1 act(1) by (auto simp: apply_step_def step_follows_def Let_def wd1_def [symmetric])
    next
      case (Inr snap)
      define ex2 where "ex2 = mark_step f st (checkpoint ?t snap g (us_phase st)) ex1"
      define wd3 where "wd3 = put_execution i m ex2 (edit_journal (us_journal st) (finish_step b) (after_effect wd1 wd2))"
      define wd4 where "wd4 = (if us_phase st = U ''tags''
        then persist ((persist wd3)\<lparr>wd_disk := dk_finalize (ud_disk ud) (wd_disk wd3) (us_journal st)\<rparr>) else persist wd3)"
      have res: "apply_step ud u m f st t ex wd = Stepped ex2 wd4"
        using beg Effected Inr u
        by (simp add: apply_step_def Let_def ex2_def wd3_def wd4_def wd1_def [symmetric] del: U_Cons U_Nil)
      let ?put = "put_execution i m ex2 (edit_journal (us_journal st) (finish_step b) wd2)"
      have wd3: "wd3 = ?put\<lparr>wd_log := wd_log ?mid\<rparr>"
        by (simp add: wd3_def after_effect_def edit_log_commute saved_def)
      have "consistent i run fs ex2 ?put"
        unfolding ex2_def by (rule consistent_finish [OF c1 m act(1) st(1,2) Effected])
      then have c3: "consistent i run fs ex2 wd3" by (simp add: wd3)
      obtain u1 where u1: "find_undo wd1 i = Some u1" "\<And>x. jset execution_key x (u_manifest u1) = jset execution_key x m"
        using base1 by (auto simp: based_def)
      have row1: "undo_row_ok i run fs ex1 wd1" using c1 by (simp add: consistent_def)
      have read1: "undo_files (u_manifest u1) = Inr fs" "undo_execution (u_manifest u1) = Inr ex1"
        using row_same [OF row1 u1(1)] by (simp_all add: frozen_as_def)
      have ex2: "active_id ex2 = None" "set (completed_ids ex2) = insert (us_journal st) (set (completed_ids ex))"
        using mark_step_sound [of ex1 f st] row_valid [OF row1] act by (auto simp: ex2_def)
      have "undo_commit ud i wd1 ?put"
        using undo_commit.finishes [OF u1(1) read1 st(1,2) act(1) Effected, of "checkpoint ?t snap g (us_phase st)"] u1(2)
        by (simp add: ex2_def put_execution_def)
      then have "undo_commits ud i wd1 wd3"
        unfolding wd3 by (blast intro: rtranclp_trans [OF r_into_rtranclp commits_log])
      then have s2: "undo_commits ud i wd1 (persist wd3)" by (rule commits_persist)
      have cm: "consistent i run fs ex1 ?mid" using c1 by simp
      have "write_ahead ud i fs (saved ?mid) (saved wd3)"
        by (rule write_ahead.completion [of _ _ "set (completed_ids ex)" "us_journal st"])
          (use ledger_in_consistent [OF cm] ledger_in_consistent [OF c3] act ex2 in \<open>auto simp: ledger_of_def wd3_def\<close>)
      then have "logs ud i run fs ?mid (persist wd3) [saved wd3]"
        by (rule logs_persist [OF _ _ c3]) (simp add: wd3)
      then have "\<exists>l. logs ud i run fs wd1 (persist wd3) l" using mid logs_trans by (fastforce simp: reaches_def)
      then have r3: "reaches ud i run fs wd1 (persist wd3)" using s2 by (simp add: reaches_def)
      have c3': "consistent i run fs ex2 (persist wd3)" using c3 by simp
      have r4: "reaches ud i run fs (persist wd3) wd4"
      proof (cases "us_phase st = U ''tags''")
        case True
        let ?w = "dk_finalize (ud_disk ud) (wd_disk wd3) (us_journal st)"
        have eq: "saved ((persist wd3)\<lparr>wd_disk := ?w\<rparr>) = (saved (persist wd3))\<lparr>wd_disk := wd_disk (persist wd3), wd_disk := ?w\<rparr>"
          by (simp add: saved_def persist_def)
        have "ledger_in i (saved (persist wd3)) = (insert (us_journal st) (set (completed_ids ex)), None)"
          using ledger_in_consistent [OF c3'] ex2 by (simp add: ledger_of_def)
        then have "write_ahead ud i fs (saved (persist wd3)) (saved ((persist wd3)\<lparr>wd_disk := ?w\<rparr>))"
          unfolding eq using write_ahead.cleaning [of i "saved (persist wd3)" _ "us_journal st" ud fs] by simp
        then show ?thesis
          unfolding wd4_def using True c3' by (simp del: U_Cons U_Nil) (rule reaches_persist [of _ _ _ _ _ _ ex2], simp_all)
      qed (simp add: wd4_def del: U_Cons U_Nil)
      have c4: "consistent i run fs ex2 wd4" using c3 by (simp add: wd4_def del: U_Cons U_Nil)
      have base4: "based i m wd4"
        using base1 based_cong [of wd2 wd1 i m] eff by (simp add: wd4_def wd3 del: U_Cons U_Nil)
      have "reaches ud i run fs wd wd4" using r1 r3 r4 reaches_trans by blast
      then show ?thesis using c4 base4 ex2 by (simp add: res step_follows_def ready_def)
    qed
  qed
qed

section \<open>Files\<close>

lemma follows_trans:
  assumes "reaches ud i run fs wd wd1" and "set (completed_ids ex1) = set (completed_ids ex) \<union> set ids1"
    and "step_follows ud i run fs m ex1 wd1 ids2 r"
  shows "step_follows ud i run fs m ex wd (ids1 @ ids2) r"
  using assms by (cases r) (auto simp: step_follows_def intro: reaches_trans)

lemma undo_steps_follow:
  assumes m: "frozen_as run fs m" and u: "u_id u = i" and f: "f \<in> set fs"
  shows "ready i run fs m ex wd \<Longrightarrow> set sts \<subseteq> set (uf_steps f) \<Longrightarrow>
    step_follows ud i run fs m ex wd (map us_journal sts) (undo_steps ud u m ids f t sts ex wd)"
proof (induction sts arbitrary: ex wd)
  case Nil
  then show ?case by (simp add: step_follows_def)
next
  case (Cons st sts)
  show ?case
  proof (cases "is_completed ex st")
    case True
    then show ?thesis
      using Cons.IH [OF Cons.prems(1)] Cons.prems(2) follows_trans [of ud i run fs wd wd ex ex "[us_journal st]"]
      by (simp add: is_completed_def insert_absorb)
  next
    case todo: False
    show ?thesis
    proof (cases "us_journal st \<in> set ids")
      case False
      then show ?thesis using todo Cons.prems(1) by (simp add: step_follows_def)
    next
      case True
      let ?r = "apply_step ud u m f st (current_track wd t) ex wd"
      have one: "step_follows ud i run fs m ex wd [us_journal st] ?r"
        using apply_step_follows [OF Cons.prems(1) m u f _ todo] Cons.prems(2) by simp
      show ?thesis
      proof (cases ?r)
        case (Stepped ex1 wd1)
        then have "ready i run fs m ex1 wd1" "reaches ud i run fs wd wd1"
          "set (completed_ids ex1) = set (completed_ids ex) \<union> set [us_journal st]"
          using one by (simp_all add: step_follows_def)
        then show ?thesis
          using follows_trans [of ud i run fs wd wd1 ex1 ex "[us_journal st]" m "map us_journal sts"] Cons.IH [of ex1 wd1]
            Cons.prems(2) Stepped todo True by simp
      qed (use one todo True in \<open>simp_all add: step_follows_def\<close>)
    qed
  qed
qed

text \<open>Which steps of a list of files are complete.\<close>

definition all_done :: "json \<Rightarrow> undo_file list \<Rightarrow> bool" where
  "all_done ex fs \<longleftrightarrow> set (frozen_ids fs) \<subseteq> set (completed_ids ex)"

definition run_follows :: "'w undo_disk \<Rightarrow> int \<Rightarrow> int \<Rightarrow> undo_file list \<Rightarrow> json \<Rightarrow> 'w world \<Rightarrow> 'w finished \<Rightarrow> bool" where
  "run_follows ud i run fs m wd r \<longleftrightarrow>
     (case r of
        AllUndone ex1 wd1 \<Rightarrow> reaches ud i run fs wd wd1 \<and> ready i run fs m ex1 wd1
      | Stopped_at m1 ex1 en wd1 \<Rightarrow>
          reaches ud i run fs wd wd1 \<and> based i m wd1 \<and> undo_files m1 = Inr fs \<and> consistent i run fs ex1 wd1)"

lemma after_failure_follows:
  assumes "step_follows ud i run fs m ex wd ids (StepFailed j e wd1)" and "u_id u = i"
  shows "\<exists>m1 ex1. after_failure u m tid j e wd1 = Inr (Stopped_at m1 ex1
      \<lparr>en_errors = [(tid, recovery_text @ U '' '' @ e)], en_cancelled = False, en_recovery = True, en_retryable = False\<rparr> wd1)
    \<and> (\<forall>en. run_follows ud i run fs m wd (Stopped_at m1 ex1 en wd1)) \<and> active_id ex1 = Some j"
proof -
  obtain ex1 x where x: "consistent i run fs ex1 wd1" "active_id ex1 = Some j" "find_undo wd1 i = Some x"
    using assms(1) by (auto simp: step_follows_def consistent_def undo_row_ok_def)
  have "undo_row_ok i run fs ex1 wd1" using x(1) by (simp add: consistent_def)
  note s = row_same [OF this x(3)] and v = v2_manifest [OF row_same(3) [OF this x(3)]]
  show ?thesis
    using x s v assms
    by (intro exI [of _ "u_manifest x"] exI [of _ ex1]) (simp add: after_failure_def run_follows_def step_follows_def del: U_Cons U_Nil)
qed

lemma undo_all_follows:
  assumes m: "frozen_as run fs m" and u: "u_id u = i"
  shows "ready i run fs m ex wd \<Longrightarrow> set gs \<subseteq> set fs \<Longrightarrow>
    \<exists>r. undo_all ud cancel u m ids gs ex wd = Inr r \<and> run_follows ud i run fs m wd r
      \<and> (\<forall>ex1 wd1. r = AllUndone ex1 wd1 \<longrightarrow> all_done ex1 gs \<and> set (completed_ids ex) \<subseteq> set (completed_ids ex1))"
proof (induction gs arbitrary: ex wd)
  case Nil
  then show ?case by (simp add: run_follows_def all_done_def frozen_ids_def)
next
  case (Cons f gs)
  have files: "undo_files m = Inr fs" using m by (simp add: frozen_as_def)
  have stop: "run_follows ud i run fs m wd (Stopped_at m ex en wd)" for en
    using Cons.prems(1) files by (simp add: run_follows_def ready_def)
  have f: "f \<in> set fs" using Cons.prems(2) by simp
  show ?case
  proof (cases "list_all (is_completed ex) (uf_steps f)")
    case True
    then have whole: "set (step_ids f) \<subseteq> set (completed_ids ex)" by (auto simp: list_all_iff is_completed_def step_ids_def)
    obtain r where "undo_all ud cancel u m ids gs ex wd = Inr r" "run_follows ud i run fs m wd r"
        "\<forall>ex1 wd1. r = AllUndone ex1 wd1 \<longrightarrow> all_done ex1 gs \<and> set (completed_ids ex) \<subseteq> set (completed_ids ex1)"
      using Cons.IH [OF Cons.prems(1)] Cons.prems(2) by auto
    moreover from this have "all_done ex1 (f # gs)" if "r = AllUndone ex1 wd1" for ex1 wd1
      using whole that by (force simp: all_done_def frozen_ids_def)
    ultimately show ?thesis using True by auto
  next
    case todo: False
    show ?thesis
    proof (cases "cancel (uf_track f) \<or> get_track wd (uf_track f) = None")
      case True
      then show ?thesis using todo stop by (auto simp: Let_def)
    next
      case False
      then obtain t where t: "get_track wd (uf_track f) = Some t" "\<not> cancel (uf_track f)" by auto
      let ?r = "undo_steps ud u m ids f t (uf_steps f) ex wd"
      have one: "step_follows ud i run fs m ex wd (step_ids f) ?r"
        using undo_steps_follow [OF m u f Cons.prems(1)] by (simp add: step_ids_def)
      show ?thesis
      proof (cases ?r)
        case (Stepped ex1 wd1)
        then have s: "ready i run fs m ex1 wd1" "reaches ud i run fs wd wd1"
          "set (completed_ids ex1) = set (completed_ids ex) \<union> set (step_ids f)"
          using one by (simp_all add: step_follows_def)
        obtain r where r: "undo_all ud cancel u m ids gs ex1 wd1 = Inr r" "run_follows ud i run fs m wd1 r"
          "\<forall>ex2 wd2. r = AllUndone ex2 wd2 \<longrightarrow> all_done ex2 gs \<and> set (completed_ids ex1) \<subseteq> set (completed_ids ex2)"
          using Cons.IH [OF s(1)] Cons.prems(2) by auto
        have "run_follows ud i run fs m wd r"
          using r(2) s(2) by (cases r) (auto simp: run_follows_def intro: reaches_trans)
        moreover have "undo_all ud cancel u m ids (f # gs) ex wd = Inr r" using r(1) todo t Stepped by (simp add: Let_def)
        moreover have "all_done ex2 (f # gs) \<and> set (completed_ids ex) \<subseteq> set (completed_ids ex2)" if "r = AllUndone ex2 wd2" for ex2 wd2
          using r(3) s(3) that by (auto simp: all_done_def frozen_ids_def)
        ultimately show ?thesis by blast
      next
        case (Vanished ex1 wd1)
        then show ?thesis
          using one todo t files by (auto simp: Let_def step_follows_def run_follows_def ready_def)
      next
        case (StepFailed j e wd1)
        obtain m1 ex1 where
          "after_failure u m (uf_track f) j e wd1 = Inr (Stopped_at m1 ex1
            \<lparr>en_errors = [(uf_track f, recovery_text @ U '' '' @ e)], en_cancelled = False, en_recovery = True, en_retryable = False\<rparr> wd1)"
          "\<forall>en. run_follows ud i run fs m wd (Stopped_at m1 ex1 en wd1)"
          using after_failure_follows [OF one [unfolded StepFailed] u] by blast
        then show ?thesis using todo t StepFailed by (simp add: Let_def del: U_Cons U_Nil)
      qed
    qed
  qed
qed

end
