(* ===== verification/UndoProperties.thy ===== *)
theory UndoProperties
  imports UndoRefinement
begin

text \<open>
  Properties of undo runs: the executor always returns, and its durable states follow each other by the steps of a
  write-ahead protocol; a crash leaves a state from which the reconciliation gives back the interrupted step only; an
  undone run has reversed every journal row.
\<close>

section \<open>The checks decide consistency\<close>

lemma source_journals_set [simp]: "set (source_journals wd run) = {j \<in> set (wd_journals wd). fj_run j = run}"
  by (simp add: source_journals_def run_journals_def)

lemma source_journals_distinct:
  "distinct (map fj_id (wd_journals wd)) \<Longrightarrow> distinct (map fj_id (source_journals wd run))"
  by (auto simp: source_journals_def run_journals_def rev_map [symmetric] distinct_map inj_on_def)

lemma step_matched_iff:
  assumes "distinct (map fj_id (wd_journals wd))"
  shows "step_matched (source_journals wd run) f st \<longleftrightarrow>
    (\<exists>j\<in>set (wd_journals wd). fj_run j = run \<and> journal_matches j st (uf_track f))"
proof
  assume "step_matched (source_journals wd run) f st"
  then obtain j where "find_row fj_id (us_journal st) (source_journals wd run) = Some j" "journal_matches j st (uf_track f)"
    by (auto simp: step_matched_def split: option.splits)
  moreover from this(1) have "j \<in> set (source_journals wd run)" by (blast dest: find_row_Some)
  ultimately show "\<exists>j\<in>set (wd_journals wd). fj_run j = run \<and> journal_matches j st (uf_track f)" by auto
next
  assume "\<exists>j\<in>set (wd_journals wd). fj_run j = run \<and> journal_matches j st (uf_track f)"
  then obtain j where j: "j \<in> set (source_journals wd run)" "journal_matches j st (uf_track f)" by auto
  then have "find_row fj_id (us_journal st) (source_journals wd run) = Some j"
    using find_row_unique [OF source_journals_distinct [OF assms] j(1)] matches_id [OF j(2)] by simp
  then show "step_matched (source_journals wd run) f st" using j(2) by (simp add: step_matched_def)
qed

lemma expected_state_ledger: "active_id ex = None \<Longrightarrow> expected_state ex j = ledger_state (ledger_of ex) (fj_id j)"
  by (simp add: expected_state_def ledger_state_def)

lemma checks_consistency:
  assumes row: "undo_row_ok i run fs ex wd" and dist: "distinct (map fj_id (wd_journals wd))"
  shows "check_source_journals (source_journals wd run) fs ex = None \<longleftrightarrow> journals_ok run fs ex (wd_journals wd) \<and> active_id ex = None"
proof -
  let ?js = "source_journals wd run"
  have act: "jget ex active_key = JNull \<longleftrightarrow> active_id ex = None" using row_valid [OF row] valid_active by blast
  have set: "fj_id ` {j \<in> set (wd_journals wd). fj_run j = run} = set (map fj_id ?js)" by simp
  have matched: "list_all (\<lambda>f. list_all (step_matched ?js f) (uf_steps f)) fs \<longleftrightarrow>
      (\<forall>f\<in>set fs. \<forall>st\<in>set (uf_steps f). \<exists>j\<in>set (wd_journals wd). fj_run j = run \<and> journal_matches j st (uf_track f))"
    by (simp add: list_all_iff step_matched_iff [OF dist])
  have states: "list_all (\<lambda>j. fj_state j = expected_state ex j) ?js \<longleftrightarrow>
      (\<forall>j\<in>set (wd_journals wd). fj_run j = run \<longrightarrow> fj_state j = ledger_state (ledger_of ex) (fj_id j))" if "active_id ex = None"
    using expected_state_ledger [OF that] by (auto simp: list_all_iff)
  show ?thesis
    using row dist matched states act unfolding check_source_journals_def journals_ok_def set
    by (simp del: set_map) blast
qed

section \<open>The run\<close>

text \<open>Only the row of the run is written, between two durable states.\<close>

definition row_only :: "'w undo_disk \<Rightarrow> int \<Rightarrow> int \<Rightarrow> undo_file list \<Rightarrow> json \<Rightarrow> 'w world \<Rightarrow> 'w world \<Rightarrow> bool" where
  "row_only ud i run fs ex wd wd' \<longleftrightarrow>
     undo_commits ud i wd wd' \<and> consistent i run fs ex wd \<and> consistent i run fs ex wd' \<and> wd_log wd' = wd_log wd
     \<and> wd_tracks wd' = wd_tracks wd \<and> wd_units wd' = wd_units wd \<and> wd_journals wd' = wd_journals wd \<and> wd_disk wd' = wd_disk wd"

lemma row_only_refl: "consistent i run fs ex wd \<Longrightarrow> row_only ud i run fs ex wd wd"
  by (simp add: row_only_def)

lemma row_only_edit:
  assumes r: "row_only ud i run fs ex wd wd'" and h: "\<And>x. u_id (h x) = u_id x"
    and u: "find_undo wd' i = Some u" "u_source_run (h u) = u_source_run u" "u_manifest (h u) = u_manifest u"
  shows "row_only ud i run fs ex wd (edit_undo i h wd')"
proof -
  have c: "consistent i run fs ex wd'" using r by (simp add: row_only_def)
  have "undo_commit ud i wd' (edit_undo i h wd')" by (rule undo_commit.updates [OF h u])
  moreover have "consistent i run fs ex (edit_undo i h wd')" using c row_edit [OF _ h u] by (simp add: consistent_def)
  ultimately show ?thesis using r by (auto simp: row_only_def intro: rtranclp.rtrancl_into_rtrancl)
qed

lemma row_only_reaches:
  assumes "row_only ud i run fs ex wd wd'"
  shows "reaches ud i run fs wd (persist wd')"
proof (rule reaches_persist [of _ _ _ _ _ _ ex])
  have "ledger_in i (saved wd') = ledger_in i (saved wd)"
    using assms ledger_in_consistent [of i run fs ex wd] ledger_in_consistent [of i run fs ex wd'] by (simp add: row_only_def)
  then show "write_ahead ud i fs (saved wd) (saved wd')"
    using assms by (intro write_ahead.report) (simp_all add: row_only_def same_catalog_def)
qed (use assms in \<open>simp_all add: row_only_def\<close>)

lemma fail_early_reaches:
  assumes "row_only ud i run fs ex wd wd'" and "find_undo wd' i = Some u0" and "u_id u = i"
  shows "reaches ud i run fs wd (fst (fail_early u e rec errs wd'))"
  unfolding fail_early_def fst_conv assms(3)
  by (rule row_only_reaches, rule row_only_edit [OF assms(1) _ assms(2)]) simp_all

lemma error_result_total:
  assumes "undo_files m = Inr fs" and "u_id u = i" and "find_undo wd i = Some u0" and c: "consistent i run fs ex0 wd"
  obtains wd' where
    "error_result u m ex en wd = Inr (wd', (base_result u (U ''failed''))
      \<lparr>ur_files := error_files ex (en_errors en) (en_retryable en) fs, ur_errors := en_errors en, ur_cancelled := en_cancelled en,
       ur_recovery := en_recovery en\<rparr>)"
    "reaches ud i run fs wd wd'" "wd_tracks wd' = wd_tracks wd" "wd_units wd' = wd_units wd" "wd_journals wd' = wd_journals wd"
    "wd_disk wd' = wd_disk wd" "\<exists>x. find_undo wd' i = Some x \<and> u_state x = U_FAILED \<and> u_manifest x = u_manifest u0"
    "consistent i run fs ex0 wd'"
proof -
  let ?h = "\<lambda>x. x\<lparr>u_state := U_FAILED, u_error := Some (headline (en_errors en) (en_recovery en)),
    u_result := undo_result_json (U ''failed'') (error_files ex (en_errors en) (en_retryable en) fs) (en_recovery en)
      (en_retryable en) (en_cancelled en)\<rparr>"
  have r: "row_only ud i run fs ex0 wd (edit_undo i ?h wd)"
    by (rule row_only_edit [OF row_only_refl [OF c] _ assms(3)]) simp_all
  show ?thesis
    by (rule that [of "persist (edit_undo i ?h wd)"])
      (use assms r row_only_reaches [OF r] in \<open>simp_all add: error_result_def Let_def row_only_def del: U_Cons U_Nil\<close>)
qed

lemma no_errors_ready:
  assumes "preflight_errors rp dk u js fs ex wd = ([], unknown)"
  shows "fs = [] \<or> jget ex active_key = JNull"
  using assms
  by (auto simp: preflight_errors_def undo_preflight_def check_source_journals_def split: sum.splits option.splits if_splits
      simp del: U_Cons U_Nil)

definition recorded_undone :: "int \<Rightarrow> 'w world \<Rightarrow> bool" where
  "recorded_undone i wd \<longleftrightarrow>
     (\<exists>u. find_undo wd i = Some u \<and> u_state u = U_UNDONE \<and> is_dict (u_result u)
        \<and> jget (u_result u) (U ''state'') = JStr (U ''undone''))"

lemma result_json_state [simp]:
  "is_dict (undo_result_json s rs rec retry canc)" "jget (undo_result_json s rs rec retry canc) (U ''state'') = JStr s"
  by (simp_all add: undo_result_json_def jget_def del: U_Cons U_Nil)

lemma execute_undo_follows:
  assumes c: "consistent i run fs ex wd" and base: "based i m wd" and m: "frozen_as run fs m" and u: "u_id u = i"
  shows "\<exists>wd' r. execute_undo ud rp cancel u m js fs ex wd = Inr (wd', r) \<and> reaches ud i run fs wd wd'
    \<and> (ur_state r = U ''undone'' \<longrightarrow> (\<exists>ex'. consistent i run fs ex' wd' \<and> active_id ex' = None \<and> all_done ex' fs)
        \<and> recorded_undone i wd')
    \<and> (ur_state r = U ''undone'' \<or> (\<exists>x. find_undo wd' i = Some x \<and> u_state x = U_FAILED))"
proof -
  have row: "undo_row_ok i run fs ex wd" using c by (simp add: consistent_def)
  obtain u0 where u0: "find_undo wd i = Some u0" using base by (auto simp: based_def)
  have files: "undo_files m = Inr fs" using m by (simp add: frozen_as_def)
  have ne: "U ''failed'' \<noteq> U ''undone''" by simp
  obtain errors unknown where p: "preflight_errors rp (ud_disk ud) u js fs ex wd = (errors, unknown)" by fastforce
  show ?thesis
  proof (cases "errors = []")
    case False
    let ?en = "\<lparr>en_errors = errors, en_cancelled = False, en_recovery = (unknown \<or> completed_ids ex \<noteq> []
          \<or> (\<exists>(i, e)\<in>set errors. prefix recovery_text e \<or> prefix (U ''source drift or recovery evidence failure'') e)),
        en_retryable = \<not> unknown\<rparr>"
    obtain wd' where "error_result u m ex ?en wd = Inr (wd', (base_result u (U ''failed''))
        \<lparr>ur_files := error_files ex (en_errors ?en) (en_retryable ?en) fs, ur_errors := en_errors ?en,
         ur_cancelled := en_cancelled ?en, ur_recovery := en_recovery ?en\<rparr>)"
      "reaches ud i run fs wd wd'" "\<exists>x. find_undo wd' i = Some x \<and> u_state x = U_FAILED \<and> u_manifest x = u_manifest u0"
      by (rule error_result_total [OF files u u0 c, of ex ?en ud])
    then show ?thesis
      using p False ne by (auto simp: execute_undo_def refuse_undo_def base_result_def simp del: U_Cons U_Nil)
  next
    case True
    note p = p [unfolded True]
    have "\<exists>r. undo_all ud cancel u m (map fj_id js) fs ex wd = Inr r \<and> run_follows ud i run fs m wd r
        \<and> (\<forall>ex1 wd1. r = AllUndone ex1 wd1 \<longrightarrow> (\<exists>ex2. consistent i run fs ex2 wd1 \<and> active_id ex2 = None \<and> all_done ex2 fs)) "
    proof (cases "fs = []")
      case True
      obtain u where u: "find_undo wd i = Some u" using u0 by blast
      have "active_id ex = None" using c True by (auto simp: consistent_def journals_ok_def frozen_ids_def)
      then show ?thesis using True c base by (auto simp: run_follows_def ready_def all_done_def frozen_ids_def)
    next
      case False
      then have "active_id ex = None" using no_errors_ready [OF p] row_valid [OF row] valid_active by blast
      then have "ready i run fs m ex wd" using c base by (simp add: ready_def)
      then obtain r where r: "undo_all ud cancel u m (map fj_id js) fs ex wd = Inr r" "run_follows ud i run fs m wd r"
        "\<forall>ex1 wd1. r = AllUndone ex1 wd1 \<longrightarrow> all_done ex1 fs \<and> set (completed_ids ex) \<subseteq> set (completed_ids ex1)"
        using undo_all_follows [OF m u, of ex wd fs] by blast
      then show ?thesis by (cases r) (auto simp: run_follows_def ready_def)
    qed
    then obtain r where r: "undo_all ud cancel u m (map fj_id js) fs ex wd = Inr r" "run_follows ud i run fs m wd r"
      and fin: "\<And>ex1 wd1. r = AllUndone ex1 wd1 \<Longrightarrow> \<exists>ex2. consistent i run fs ex2 wd1 \<and> active_id ex2 = None \<and> all_done ex2 fs" by blast
    show ?thesis
    proof (cases r)
      case (AllUndone ex1 wd1)
      obtain ex2 where c2: "consistent i run fs ex2 wd1" "active_id ex2 = None" "all_done ex2 fs" using fin [OF AllUndone] by blast
      have reach: "reaches ud i run fs wd wd1" "based i m wd1" using r(2) AllUndone by (simp_all add: run_follows_def ready_def)
      then obtain u1 where u1: "find_undo wd1 i = Some u1" by (auto simp: based_def)
      let ?h = "\<lambda>x. x\<lparr>u_state := U_UNDONE, u_error := None,
        u_result := undo_result_json (U ''undone'') (map undone_result fs) False False False\<rparr>"
      have upd: "row_only ud i run fs ex2 wd1 (edit_undo i ?h wd1)"
        by (rule row_only_edit [OF row_only_refl [OF c2(1)] _ u1]) simp_all
      have "reaches ud i run fs wd (persist (edit_undo i ?h wd1))"
        by (rule reaches_trans [OF reach(1) row_only_reaches [OF upd]])
      moreover have "consistent i run fs ex2 (persist (edit_undo i ?h wd1))" using upd by (simp add: row_only_def)
      ultimately show ?thesis
        using p r(1) AllUndone c2(2,3) u u1 by (auto simp: execute_undo_def close_undone_def base_result_def recorded_undone_def simp del: U_Cons U_Nil)
    next
      case (Stopped_at m1 ex1 en wd1)
      then have reach: "reaches ud i run fs wd wd1" "undo_files m1 = Inr fs" "based i m wd1" and c1: "consistent i run fs ex1 wd1"
        using r(2) by (simp_all add: run_follows_def)
      then obtain u1 where u1: "find_undo wd1 i = Some u1" by (auto simp: based_def)
      obtain wd' where "error_result u m1 ex1 en wd1 = Inr (wd', (base_result u (U ''failed''))
          \<lparr>ur_files := error_files ex1 (en_errors en) (en_retryable en) fs, ur_errors := en_errors en,
           ur_cancelled := en_cancelled en, ur_recovery := en_recovery en\<rparr>)"
        "reaches ud i run fs wd1 wd'" "\<exists>x. find_undo wd' i = Some x \<and> u_state x = U_FAILED \<and> u_manifest x = u_manifest u1"
        by (rule error_result_total [OF reach(2) u u1 c1, of ex1 en ud])
      then show ?thesis
        using p r(1) Stopped_at ne reaches_trans [OF reach(1)]
        by (auto simp: execute_undo_def base_result_def simp del: U_Cons U_Nil)
    qed
  qed
qed

definition reversed :: "int \<Rightarrow> 'w world \<Rightarrow> bool" where
  "reversed run wd \<longleftrightarrow> (\<forall>j\<in>set (wd_journals wd). fj_run j = run \<longrightarrow> fj_state j = FJ_ROLLED_BACK)"

lemma all_done_reversed:
  assumes "consistent i run fs ex wd" and "active_id ex = None" and "all_done ex fs"
  shows "reversed run wd"
proof -
  have "fj_state j = FJ_ROLLED_BACK" if j: "j \<in> set (wd_journals wd)" "fj_run j = run" for j
  proof -
    have "fj_id j \<in> set (completed_ids ex)" using assms(1,3) j by (auto simp: consistent_def journals_ok_def all_done_def)
    then show ?thesis using assms(1,2) j by (auto simp: consistent_def journals_ok_def ledger_state_def)
  qed
  then show ?thesis by (simp add: reversed_def)
qed

text \<open>A call that starts on a consistent world, with what its result says.\<close>

definition call_ok :: "'w undo_disk \<Rightarrow> int \<Rightarrow> int \<Rightarrow> undo_file list \<Rightarrow> undo_run \<Rightarrow> 'w world \<Rightarrow> 'w world \<times> undo_result \<Rightarrow> bool" where
  "call_ok ud i run fs u wd res \<longleftrightarrow>
     (case res of (wd', r) \<Rightarrow> reaches ud i run fs wd wd'
        \<and> (ur_state r = U ''undone'' \<longrightarrow> u_state u = U_UNDONE \<or> (reversed run wd' \<and> recorded_undone i wd')))"

lemma call_failed:
  "reaches ud i run fs wd (fst res) \<Longrightarrow> ur_state (snd res) = U ''failed'' \<Longrightarrow> call_ok ud i run fs u wd res"
  by (cases res) (simp add: call_ok_def)

lemma fail_early_call:
  assumes "find_undo wd i = Some u" and "consistent i run fs ex wd"
  shows "call_ok ud i run fs u wd (fail_early u e rec errs wd)"
  using fail_early_reaches [OF row_only_refl [OF assms(2)] assms(1) find_undo_id [OF assms(1)]]
  by (intro call_failed) (simp_all add: fail_early_def base_result_def del: U_Cons U_Nil)

lemma load_frozen:
  assumes "undo_row_ok i run fs ex wd" and "find_undo wd i = Some u"
  shows "load_manifest wd u js = Inr (u_manifest u, fs, ex)"
  using row_same [OF assms] v2_manifest by (auto simp: load_manifest_def Let_def)

lemma run_undo_call:
  assumes c: "consistent i run fs ex wd" and u: "find_undo wd i = Some u"
  shows "\<exists>res. run_undo ud rp cancel u a wd = Inr res \<and> call_ok ud i run fs u wd res"
proof -
  let ?js = "source_journals wd (a_id a)"
  have row: "undo_row_ok i run fs ex wd" using c by (simp add: consistent_def)
  note same = row_same [OF row u]
  let ?put = "edit_undo i (\<lambda>x. x\<lparr>u_manifest := u_manifest u\<rparr>) wd"
  have put: "row_only ud i run fs ex wd ?put" by (rule row_only_edit [OF row_only_refl [OF c] _ u]) simp_all
  consider "missing_tracks wd ?js \<noteq> []"
    | "missing_tracks wd ?js = []" "fs \<noteq> []" "set (map uf_track fs) \<noteq> set (map fj_track ?js)"
    | "missing_tracks wd ?js = []" "fs = [] \<or> set (map uf_track fs) = set (map fj_track ?js)" by blast
  then show ?thesis
  proof cases
    case 1
    then show ?thesis using fail_early_call [OF u c] by (simp add: run_undo_def Let_def del: U_Cons U_Nil)
  next
    case 2
    let ?res = "fail_early u (U ''recovery_required: frozen Undo file set does not match source journals'') True [] ?put"
    have "reaches ud i run fs wd (fst ?res)"
      using fail_early_reaches [OF put, of "u\<lparr>u_manifest := u_manifest u\<rparr>" u] u same(1) by simp
    then have "call_ok ud i run fs u wd ?res"
      by (intro call_failed) (simp_all add: fail_early_def base_result_def del: U_Cons U_Nil)
    then show ?thesis using 2 load_frozen [OF row u] same(1) by (simp add: run_undo_def Let_def del: U_Cons U_Nil)
  next
    case 3
    let ?start = "start_undo u (u_manifest u) wd"
    have start: "find_undo ?start i = Some (u\<lparr>u_manifest := u_manifest u, u_state := U_UNDOING\<rparr>)"
      using u same(1) by (simp add: start_undo_def)
    have "row_only ud i run fs ex wd (edit_undo i (\<lambda>x. x\<lparr>u_manifest := u_manifest u, u_state := U_UNDOING\<rparr>) wd)"
      by (rule row_only_edit [OF row_only_refl [OF c] _ u]) simp_all
    from row_only_reaches [OF this] have reach: "reaches ud i run fs wd ?start" using same(1) by (simp add: start_undo_def)
    have "undo_row_ok i run fs ex ?start" using same start by (auto simp: undo_row_ok_def)
    then have "consistent i run fs ex ?start" using c same(1) by (simp add: consistent_def start_undo_def)
    moreover have "based i (u_manifest u) ?start" using start by (simp add: based_def)
    ultimately obtain wd' r where r: "execute_undo ud rp cancel u (u_manifest u) ?js fs ex ?start = Inr (wd', r)"
      "reaches ud i run fs ?start wd'"
      "ur_state r = U ''undone'' \<longrightarrow> (\<exists>ex'. consistent i run fs ex' wd' \<and> active_id ex' = None \<and> all_done ex' fs)
        \<and> recorded_undone i wd'"
      using execute_undo_follows [OF _ _ same(3,1)] by blast
    then have "reversed run wd' \<and> recorded_undone i wd'" if "ur_state r = U ''undone''"
      using that all_done_reversed [of i run fs _ wd'] by blast
    then have "call_ok ud i run fs u wd (wd', r)"
      using reaches_trans [OF reach r(2)] by (auto simp: call_ok_def simp del: U_Cons U_Nil)
    then show ?thesis using 3 load_frozen [OF row u] r(1) by (auto simp: run_undo_def Let_def simp del: U_Cons U_Nil)
  qed
qed

lemma apply_undo_call:
  assumes c: "consistent i run fs ex wd" and u: "find_undo wd i = Some u"
  shows "\<exists>res. apply_review_undo_run ud rp cancel i wd = Inr res \<and> call_ok ud i run fs u wd res"
proof -
  have same: "call_ok ud i run fs u wd (wd, r)" if "ur_state r = U ''failed'' \<or> u_state u = U_UNDONE" for r
    using that by (auto simp: call_ok_def)
  have refused: "call_ok ud i run fs u wd (wd, (base_result u (U ''failed''))\<lparr>ur_recovery := b\<rparr>)" for b
    by (rule same) (simp add: base_result_def del: U_Cons U_Nil)
  show ?thesis
  proof (cases "find_row a_id (u_source_run u) (apply_runs (wd_db wd))")
    case None
    then show ?thesis
      using u same refused fail_early_call [OF u c]
      by (auto simp: apply_review_undo_run_def simp del: U_Cons U_Nil split_paired_Ex)
  next
    case (Some a)
    then show ?thesis
      using u same refused fail_early_call [OF u c] run_undo_call [OF c u, of ud rp cancel a]
      by (auto simp: apply_review_undo_run_def simp del: U_Cons U_Nil split_paired_Ex)
  qed
qed

section \<open>Refinement\<close>

text \<open>C3. The executor of undo runs is a write-ahead protocol. From a consistent world it always returns, whatever the
  disk answers and whenever it is cancelled, and the durable states that it goes through, from the start to
  the world it returns, follow each other by the steps of the protocol only: the disk changes by the effect of the one
  inverse step whose intent has been committed before, or by the cleaning up behind a step that has been committed as
  complete; the catalog changes with the completion of the step under way only. Every one of these states is one
  that a restart finds consistent.\<close>

theorem undo_run_writes_ahead:
  assumes "consistent i run fs ex wd"
  shows "\<exists>wd' r l. apply_review_undo_run ud rp cancel i wd = Inr (wd', r) \<and> (undo_commit ud i)\<^sup>*\<^sup>* wd wd'
    \<and> wd_log wd' = wd_log wd @ l \<and> last (saved wd # l) = saved wd' \<and> successively (write_ahead ud i fs) (saved wd # l)
    \<and> (\<forall>s\<in>set l. \<exists>ex'. consistent i run fs ex' (restart s))"
proof -
  obtain u where "find_undo wd i = Some u" using assms by (auto simp: consistent_def undo_row_ok_def)
  from apply_undo_call [OF assms this, of ud rp cancel] obtain wd' r l where
    "apply_review_undo_run ud rp cancel i wd = Inr (wd', r)" "undo_commits ud i wd wd'" "logs ud i run fs wd wd' l"
    by (auto simp: call_ok_def reaches_def simp del: U_Cons U_Nil)
  then show ?thesis unfolding logs_def by blast
qed

lemma undo_commits_refine:
  assumes "consistent i run fs ex wd" and "(undo_commit ud i)\<^sup>*\<^sup>* wd wd'"
  shows "\<exists>ex'. consistent i run fs ex' wd' \<and> (ledger_step (set (frozen_ids fs)))\<^sup>*\<^sup>* (ledger_of ex) (ledger_of ex')"
  using assms(2,1)
proof (induction rule: rtranclp_induct)
  case base
  then show ?case by blast
next
  case (step wd1 wd2)
  then obtain ex1 where ex1: "consistent i run fs ex1 wd1" "(ledger_step (set (frozen_ids fs)))\<^sup>*\<^sup>* (ledger_of ex) (ledger_of ex1)" by blast
  obtain ex2 where "consistent i run fs ex2 wd2" "(ledger_step (set (frozen_ids fs)))\<^sup>=\<^sup>= (ledger_of ex1) (ledger_of ex2)"
    using undo_commit_refines [OF ex1(1) step.hyps(2)] by blast
  then show ?case using ex1(2) by (auto intro: rtranclp.rtrancl_into_rtrancl)
qed

text \<open>C4. Every durable state of an undo is consistent. After any number of commits, so at whatever point the process
  is killed, the manifest is readable, the checkpoints are those of a ledger reached by abstract steps, every
  journal row is \<open>done\<close>, \<open>rolled_back\<close> or \<open>writing\<close> as the ledger says, and at most one row is under way.\<close>

theorem undo_crash_states_consistent:
  assumes "consistent i run fs ex wd" and "(undo_commit ud i)\<^sup>*\<^sup>* wd wd'"
  shows "\<exists>ex'. consistent i run fs ex' wd' \<and> (ledger_step (set (frozen_ids fs)))\<^sup>*\<^sup>* (ledger_of ex) (ledger_of ex')
    \<and> length (writing_journals wd' run) \<le> 1"
proof -
  obtain ex' where ex': "consistent i run fs ex' wd'" "(ledger_step (set (frozen_ids fs)))\<^sup>*\<^sup>* (ledger_of ex) (ledger_of ex')"
    using undo_commits_refine [OF assms] by blast
  then have js: "journals_ok run fs ex' (wd_journals wd')" by (simp add: consistent_def)
  have "length (writing_journals wd' run) \<le> 1"
    using writing_row(2,3) [OF js] by (cases "active_id ex'") fastforce+
  then show ?thesis using ex' by blast
qed

text \<open>C11. A reconciliation after a crash gives back the interrupted step and nothing else. Whatever commits came before the
  crash: when it returns, the steps that were complete are still complete with their checkpoints, no step is
  under way, tracks and work units are as they were, the one journal row that was \<open>writing\<close> is \<open>done\<close> again
  and every other row is untouched. So of the checks that a retry makes, those of the source journal rows pass.\<close>

theorem reconciliation_keeps_progress:
  assumes "consistent i run fs ex wd" and "(undo_commit ud i)\<^sup>*\<^sup>* wd wd1" and "reconcile_interrupted_undo ud i wd1 = (wd2, None)"
  shows "\<exists>ex1 ex2. undo_execution (u_manifest (the (find_undo wd1 i))) = Inr ex1
    \<and> undo_execution (u_manifest (the (find_undo wd2 i))) = Inr ex2
    \<and> completed_ids ex2 = completed_ids ex1 \<and> jget ex2 step_marks_key = jget ex1 step_marks_key
    \<and> jget ex2 file_marks_key = jget ex1 file_marks_key \<and> active_id ex2 = None
    \<and> wd_tracks wd2 = wd_tracks wd1 \<and> wd_units wd2 = wd_units wd1
    \<and> wd_journals wd2 = (case active_id ex1 of None \<Rightarrow> wd_journals wd1
         | Some a \<Rightarrow> update_where (\<lambda>j. fj_id j = a) (\<lambda>j. j\<lparr>fj_state := FJ_DONE, fj_error := None\<rparr>) (wd_journals wd1))
    \<and> writing_journals wd2 run = [] \<and> check_source_journals (source_journals wd2 run) fs ex2 = None"
proof -
  obtain ex1 where c1: "consistent i run fs ex1 wd1" using undo_commits_refine [OF assms(1,2)] by blast
  have row1: "undo_row_ok i run fs ex1 wd1" using c1 by (simp add: consistent_def)
  then obtain u1 where u1: "find_undo wd1 i = Some u1" by (auto simp: undo_row_ok_def)
  obtain ex2 where c2: "consistent i run fs ex2 wd2" using undo_commit_refines [OF c1 undo_commit.reconciled [OF assms(3)]] by blast
  have parts: "undo_row_ok i run fs ex2 wd2" "journals_ok run fs ex2 (wd_journals wd2)" using c2 by (simp_all add: consistent_def)
  obtain u2 where u2: "find_undo wd2 i = Some u2" using parts(1) by (auto simp: undo_row_ok_def)
  note read = row_same(4) [OF row1 u1] row_same(4) [OF parts(1) u2]
  have kept: "ex2 = (case active_id ex1 of None \<Rightarrow> ex1 | Some a \<Rightarrow> jset active_key JNull ex1)
    \<and> wd_tracks wd2 = wd_tracks wd1 \<and> wd_units wd2 = wd_units wd1
    \<and> wd_journals wd2 = (case active_id ex1 of None \<Rightarrow> wd_journals wd1
         | Some a \<Rightarrow> update_where (\<lambda>j. fj_id j = a) (\<lambda>j. j\<lparr>fj_state := FJ_DONE, fj_error := None\<rparr>) (wd_journals wd1))"
    using reconcile_cases [OF c1 assms(3)]
  proof cases
    case 1
    then show ?thesis using read u1 u2 by simp
  next
    case (2 a u w)
    have "undo_execution (jset execution_key (jset active_key JNull ex1) m) = Inr (jset active_key JNull ex1)" for m
      using row_valid [OF row1] by (intro undo_execution_put) simp_all
    then have "ex2 = jset active_key JNull ex1" using read(2) u1 u2 2 by (auto simp: revert_journal_def)
    then show ?thesis using 2 by (simp add: revert_journal_def edit_journal_def)
  qed
  have none: "active_id ex2 = None" using kept by (auto split: option.splits)
  have "distinct (map fj_id (wd_journals wd2))" using parts(2) by (simp add: journals_ok_def)
  then have "check_source_journals (source_journals wd2 run) fs ex2 = None"
    using checks_consistency [OF parts(1)] c2 none by (simp add: consistent_def)
  then show ?thesis
    using read u1 u2 kept none writing_row(3) [OF parts(2) none] by (auto split: option.splits)
qed

text \<open>C8. A run that reports \<open>undone\<close> has reversed everything: every journal row of its source run is \<open>rolled_back\<close>, and
  the row of the run says \<open>undone\<close>. The run may have been retried and may resume after completed steps.\<close>

theorem undone_run_reversed_everything:
  assumes "consistent i run fs ex wd" and "find_undo wd i = Some u" and "u_state u \<noteq> U_UNDONE"
    and "apply_review_undo_run ud rp cancel i wd = Inr (wd', r)" and "ur_state r = U ''undone''"
  shows "reversed run wd' \<and> recorded_undone i wd'"
  using apply_undo_call [OF assms(1,2), of ud rp cancel] assms(3-5) by (auto simp: call_ok_def simp del: U_Cons U_Nil)

end
