(* ===== verification/UndoGuarantees.thy ===== *)
theory UndoGuarantees
  imports UndoProperties JobProperties
begin

text \<open>
  What users of the undo rely on: drift of one file keeps the run from touching any, a cancelled run stops
  between files, a finished one is not repeated, a request freezes a manifest that the executor accepts,
  and recovery leaves the queue of jobs alone.
\<close>

section \<open>Drift\<close>

definition same_files :: "'w world \<Rightarrow> 'w world \<Rightarrow> bool" where
  "same_files wd wd' \<longleftrightarrow>
     wd_tracks wd' = wd_tracks wd \<and> wd_units wd' = wd_units wd \<and> wd_journals wd' = wd_journals wd \<and> wd_disk wd' = wd_disk wd"

lemma same_files_refl [simp]: "same_files wd wd" "same_files wd (edit_undo i h wd)" "same_files wd (persist wd') = same_files wd wd'"
  by (simp_all add: same_files_def)

lemma fail_early_files [simp]: "same_files wd (fst (fail_early u e rec errs wd))" "ur_state (snd (fail_early u e rec errs wd)) = U ''failed''"
  by (simp_all add: fail_early_def base_result_def del: U_Cons U_Nil)

lemma error_result_files:
  "error_result u m ex en wd = Inr (wd', r) \<Longrightarrow>
     same_files wd wd' \<and> ur_state r = U ''failed'' \<and> ur_errors r = en_errors en \<and> ur_cancelled r = en_cancelled en"
  by (auto simp: error_result_def base_result_def Let_def rbind_eq_Inr simp del: U_Cons U_Nil)

lemma same_files_trans: "same_files a b \<Longrightarrow> same_files b c \<Longrightarrow> same_files a c"
  by (simp add: same_files_def)

lemma in_map_filter: "x \<in> set xs \<Longrightarrow> g x = Some y \<Longrightarrow> y \<in> set (List.map_filter g xs)"
  by (induction xs) (auto simp: List.map_filter_simps split: option.splits)

lemma file_error_blocks:
  assumes "f \<in> set fs" and "fst (check_undo_file dk True wd ex f) \<noteq> None"
  shows "fst (preflight_errors rp dk u js fs ex wd) \<noteq> []"
proof -
  have "fst (file_checks dk True wd ex fs) \<noteq> []"
  proof -
    obtain e where "fst (check_undo_file dk True wd ex f) = Some e" using assms(2) by blast
    then have "(uf_track f, e) \<in> set (fst (file_checks dk True wd ex fs))"
      using assms(1) unfolding file_checks_def Let_def fst_conv
      by (intro in_map_filter [where x = "(uf_track f, check_undo_file dk True wd ex f)"])
        (auto simp: case_prod_beta)
    then show ?thesis by auto
  qed
  then show ?thesis
    using assms(1) by (auto simp: preflight_errors_def undo_preflight_def Let_def simp del: U_Cons U_Nil
        split: sum.splits option.splits prod.splits)
qed

text \<open>A call either ends before the files are looked at, or executes the frozen manifest.\<close>

lemma call_cases:
  assumes row: "undo_row_ok i run fs ex wd" and u: "find_undo wd i = Some u" "u_state u \<noteq> U_UNDONE"
    and r: "apply_review_undo_run ud rp cancel i wd = Inr (wd', r)"
  obtains "same_files wd wd'" "ur_state r = U ''failed''" "\<not> ur_cancelled r"
  | a where "execute_undo ud rp cancel u (u_manifest u) (source_journals wd a) fs ex (start_undo u (u_manifest u) wd) = Inr (wd', r)"
proof -
  note refused = that(1) and executes = that(2)
  have early: "same_files wd wd' \<and> ur_state r = U ''failed'' \<and> \<not> ur_cancelled r"
    if "fail_early u e rec errs wd1 = (wd', r)" "same_files wd wd1" for e rec errs wd1
    using that by (auto simp: fail_early_def base_result_def same_files_def simp del: U_Cons U_Nil)
  have run: thesis if x: "run_undo ud rp cancel u a wd = Inr (wd', r)" for a
  proof -
    let ?js = "source_journals wd (a_id a)" and ?put = "edit_undo (u_id u) (\<lambda>x. x\<lparr>u_manifest := u_manifest u\<rparr>) wd"
    consider "missing_tracks wd ?js \<noteq> []" | "missing_tracks wd ?js = []" "fs \<noteq> [] \<and> set (map uf_track fs) \<noteq> set (map fj_track ?js)"
      | "missing_tracks wd ?js = []" "\<not> (fs \<noteq> [] \<and> set (map uf_track fs) \<noteq> set (map fj_track ?js))" by blast
    then show ?thesis
    proof cases
      case 1
      obtain e where "fail_early u e False (map (\<lambda>i. (i, e)) (missing_tracks wd ?js)) wd = (wd', r)"
        using x 1 by (simp add: run_undo_def Let_def del: U_Cons U_Nil)
      from early [OF this same_files_refl(1)] refused show ?thesis by blast
    next
      case 2
      then have "fail_early u (U ''recovery_required: frozen Undo file set does not match source journals'') True [] ?put = (wd', r)"
        using x load_frozen [OF row u(1)] by (simp add: run_undo_def Let_def del: U_Cons U_Nil)
      from early [OF this same_files_refl(2)] refused show ?thesis by blast
    next
      case 3
      then have "execute_undo ud rp cancel u (u_manifest u) ?js fs ex (start_undo u (u_manifest u) wd) = Inr (wd', r)"
        using x load_frozen [OF row u(1)] by (auto simp: run_undo_def Let_def simp del: U_Cons U_Nil)
      then show ?thesis by (rule executes)
    qed
  qed
  show thesis
    using r u refused early [OF _ same_files_refl(1)] run
    by (auto simp: apply_review_undo_run_def base_result_def simp del: U_Cons U_Nil split: option.splits if_splits)
qed

text \<open>A file that no step has changed, whose catalog row is not the one that was frozen.\<close>

definition drifted :: "'w world \<Rightarrow> json \<Rightarrow> undo_file \<Rightarrow> bool" where
  "drifted wd ex f \<longleftrightarrow>
     (\<forall>st\<in>set (uf_steps f). \<not> is_completed ex st)
     \<and> (\<exists>t s. get_track wd (uf_track f) = Some t \<and> track_snapshot t = Inr s \<and> \<not> same_json s (uf_source f))"

lemma drifted_error:
  assumes "drifted wd ex f"
  shows "fst (check_undo_file dk v wd ex f) \<noteq> None"
proof -
  obtain t s where t: "get_track wd (uf_track f) = Some t" "track_snapshot t = Inr s" "\<not> same_json s (uf_source f)"
    using assms by (auto simp: drifted_def)
  have "takeWhile (is_completed ex) (uf_steps f) = []" "dropWhile (is_completed ex) (uf_steps f) = uf_steps f"
    using assms by (cases "uf_steps f"; simp add: drifted_def)+
  moreover have "\<not> (\<exists>st\<in>set (uf_steps f). is_completed ex st)" using assms by (simp add: drifted_def)
  moreover have "source_drift dk wd f t \<noteq> None" using t by (simp add: source_drift_def del: U_Cons U_Nil)
  ultimately show ?thesis using t(1) by (auto simp: check_undo_file_def Let_def simp del: U_Cons U_Nil)
qed


section \<open>Cancellation\<close>

text \<open>The steps of a file are all complete, or as they were.\<close>

definition whole_file :: "json \<Rightarrow> json \<Rightarrow> undo_file \<Rightarrow> bool" where
  "whole_file ex0 ex f \<longleftrightarrow>
     set (step_ids f) \<subseteq> set (completed_ids ex)
     \<or> set (step_ids f) \<inter> set (completed_ids ex) = set (step_ids f) \<inter> set (completed_ids ex0)"

lemma undo_all_cancelled:
  assumes m: "frozen_as run fs m" and u: "u_id u = i"
  shows "ready i run fs m ex wd \<Longrightarrow> set gs \<subseteq> set fs \<Longrightarrow> distinct (frozen_ids gs) \<Longrightarrow>
    undo_all ud cancel u m ids gs ex wd = Inr (Stopped_at m1 ex1 en wd1) \<Longrightarrow> en_cancelled en \<Longrightarrow>
    m1 = m \<and> ready i run fs m ex1 wd1 \<and> set (completed_ids ex) \<subseteq> set (completed_ids ex1)
    \<and> set (completed_ids ex1) \<subseteq> set (completed_ids ex) \<union> set (frozen_ids gs) \<and> (\<forall>f\<in>set gs. whole_file ex ex1 f)"
proof (induction gs arbitrary: ex wd)
  case (Cons f gs)
  have dist: "distinct (frozen_ids gs)" "set (step_ids f) \<inter> set (frozen_ids gs) = {}"
    using Cons.prems(3) by (auto simp: frozen_ids_def)
  have f: "f \<in> set fs" using Cons.prems(2) by simp
  show ?case
  proof (cases "list_all (is_completed ex) (uf_steps f)")
    case True
    then have "set (step_ids f) \<subseteq> set (completed_ids ex)" by (auto simp: list_all_iff is_completed_def step_ids_def)
    then show ?thesis
      using Cons.IH [OF Cons.prems(1) _ dist(1) _ Cons.prems(5)] Cons.prems(2,4) True
      by (auto simp: whole_file_def frozen_ids_def)
  next
    case todo: False
    show ?thesis
    proof (cases "cancel (uf_track f) \<or> get_track wd (uf_track f) = None")
      case True
      then show ?thesis
        using todo Cons.prems(1,4,5) by (auto simp: Let_def whole_file_def split: if_splits)
    next
      case False
      then obtain t where t: "get_track wd (uf_track f) = Some t" "\<not> cancel (uf_track f)" by auto
      let ?r = "undo_steps ud u m ids f t (uf_steps f) ex wd"
      have one: "step_follows ud i run fs m ex wd (step_ids f) ?r"
        using undo_steps_follow [OF m u f Cons.prems(1)] by (simp add: step_ids_def)
      show ?thesis
      proof (cases ?r)
        case (Stepped ex2 wd2)
        then have s: "ready i run fs m ex2 wd2" "set (completed_ids ex2) = set (completed_ids ex) \<union> set (step_ids f)"
          using one by (simp_all add: step_follows_def)
        have "undo_all ud cancel u m ids gs ex2 wd2 = Inr (Stopped_at m1 ex1 en wd1)"
          using Cons.prems(4) todo t Stepped by (simp add: Let_def)
        then have ih: "m1 = m \<and> ready i run fs m ex1 wd1 \<and> set (completed_ids ex2) \<subseteq> set (completed_ids ex1)
            \<and> set (completed_ids ex1) \<subseteq> set (completed_ids ex2) \<union> set (frozen_ids gs) \<and> (\<forall>f\<in>set gs. whole_file ex2 ex1 f)"
          using Cons.IH [OF s(1) _ dist(1) _ Cons.prems(5)] Cons.prems(2) by simp
        have "whole_file ex ex1 g" if g: "g \<in> set gs" for g
        proof -
          have "set (step_ids g) \<inter> set (step_ids f) = {}" using dist(2) g by (auto simp: frozen_ids_def)
          then have "set (step_ids g) \<inter> (set (completed_ids ex) \<union> set (step_ids f)) = set (step_ids g) \<inter> set (completed_ids ex)"
            by blast
          moreover have "whole_file ex2 ex1 g" using ih g by blast
          ultimately show ?thesis using s(2) by (simp add: whole_file_def)
        qed
        then show ?thesis using ih s(2) by (auto simp: whole_file_def frozen_ids_def)
      next
        case (Vanished ex2 wd2)
        then show ?thesis using Cons.prems(4,5) todo t by (auto simp: Let_def)
      next
        case (StepFailed j e wd2)
        obtain m2 ex2 where "after_failure u m (uf_track f) j e wd2 = Inr (Stopped_at m2 ex2
            \<lparr>en_errors = [(uf_track f, recovery_text @ U '' '' @ e)], en_cancelled = False, en_recovery = True, en_retryable = False\<rparr> wd2)"
          using after_failure_follows [OF one [unfolded StepFailed] u] by blast
        then show ?thesis using Cons.prems(4,5) todo t StepFailed by (auto simp: Let_def simp del: U_Cons U_Nil)
      qed
    qed
  qed
qed simp

lemma refuse_not_cancelled: "refuse_undo u m ex errors unknown wd = Inr (wd', r) \<Longrightarrow> \<not> ur_cancelled r"
  by (auto simp: refuse_undo_def dest: error_result_files)

lemma execute_undo_cancelled:
  assumes c: "consistent i run fs ex wd" and base: "based i m wd" and m: "frozen_as run fs m" and u: "u_id u = i"
    and r: "execute_undo ud rp cancel u m js fs ex wd = Inr (wd', r)" "ur_cancelled r"
  shows "\<exists>ex'. consistent i run fs ex' wd' \<and> active_id ex' = None \<and> (\<forall>f\<in>set fs. whole_file ex ex' f)"
proof -
  have row: "undo_row_ok i run fs ex wd" using c by (simp add: consistent_def)
  have well: "well_read fs" using row_valid [OF row] by simp
  have files: "undo_files m = Inr fs" using m by (simp add: frozen_as_def)
  obtain errors unknown where p: "preflight_errors rp (ud_disk ud) u js fs ex wd = (errors, unknown)" by fastforce
  have "errors = []"
  proof (rule ccontr)
    assume "errors \<noteq> []"
    then have "refuse_undo u m ex errors unknown wd = Inr (wd', r)" using r(1) p by (simp add: execute_undo_def)
    then show False using refuse_not_cancelled r(2) by blast
  qed
  then obtain x where x: "undo_all ud cancel u m (map fj_id js) fs ex wd = Inr x"
    and e: "(case x of AllUndone ex1 wd1 \<Rightarrow> Inr (close_undone u fs wd1) | Stopped_at m ex1 en wd1 \<Rightarrow> error_result u m ex1 en wd1)
      = Inr (wd', r)"
    using r(1) p by (auto simp: execute_undo_def rbind_eq_Inr)
  show ?thesis
  proof (cases x)
    case (AllUndone ex1 wd1)
    then show ?thesis using e r(2) by (auto simp: close_undone_def base_result_def)
  next
    case (Stopped_at m1 ex1 en wd1)
    then have er: "error_result u m1 ex1 en wd1 = Inr (wd', r)" using e by simp
    then have canc: "en_cancelled en" using error_result_files r(2) by metis
    have ne: "fs \<noteq> []" using x Stopped_at by auto
    have "jget ex active_key = JNull" using no_errors_ready [of rp "ud_disk ud" u js fs ex wd unknown] p \<open>errors = []\<close> ne by simp
    then have "ready i run fs m ex wd" using c base row_valid [OF row] valid_active [of ex] by (simp add: ready_def)
    then have all: "m1 = m \<and> ready i run fs m ex1 wd1 \<and> (\<forall>f\<in>set fs. whole_file ex ex1 f)"
      using undo_all_cancelled [OF m u _ _ _ x [unfolded Stopped_at] canc] well by (auto simp: well_read_def)
    obtain u1 where u1: "find_undo wd1 i = Some u1" using all by (auto simp: ready_def based_def)
    let ?h = "\<lambda>x. x\<lparr>u_state := U_FAILED, u_error := Some (headline (en_errors en) (en_recovery en)),
      u_result := undo_result_json (U ''failed'') (error_files ex1 (en_errors en) (en_retryable en) fs) (en_recovery en)
        (en_retryable en) (en_cancelled en)\<rparr>"
    have "wd' = persist (edit_undo i ?h wd1)"
      using er all files u by (auto simp: error_result_def Let_def simp del: U_Cons U_Nil)
    moreover have "consistent i run fs ex1 (edit_undo i ?h wd1)"
      using all row_edit [of i run fs ex1 wd1 ?h u1] u1 by (simp add: consistent_def ready_def)
    ultimately show ?thesis using all by (auto simp: ready_def)
  qed
qed

text \<open>A cancelled undo stops between files. Of every file, all inverse steps have been taken or those that had been
  taken before; nothing is under way, so the state is consistent and the run can be taken up again.\<close>

theorem cancelled_undo_stops_between_files:
  assumes c: "consistent i run fs ex wd" and r: "apply_review_undo_run ud rp cancel i wd = Inr (wd', r)" "ur_cancelled r"
  shows "\<exists>ex'. consistent i run fs ex' wd' \<and> active_id ex' = None \<and> (\<forall>f\<in>set fs. whole_file ex ex' f)"
proof -
  obtain u where u: "find_undo wd i = Some u" using c unfolding consistent_def undo_row_ok_def by blast
  have row: "undo_row_ok i run fs ex wd" using c by (simp add: consistent_def)
  note same = row_same [OF row u]
  have "u_state u \<noteq> U_UNDONE"
    using r u by (auto simp: apply_review_undo_run_def base_result_def simp del: U_Cons U_Nil split: option.splits if_splits)
  then obtain a where x: "execute_undo ud rp cancel u (u_manifest u) (source_journals wd a) fs ex (start_undo u (u_manifest u) wd) = Inr (wd', r)"
    using call_cases [OF row u _ r(1)] r(2) by blast
  let ?start = "start_undo u (u_manifest u) wd"
  have start: "find_undo ?start i = Some (u\<lparr>u_manifest := u_manifest u, u_state := U_UNDOING\<rparr>)" using u same(1) by (simp add: start_undo_def)
  have "undo_row_ok i run fs ex ?start" using same start by (auto simp: undo_row_ok_def)
  then have c1: "consistent i run fs ex ?start" using c same(1) by (simp add: consistent_def start_undo_def)
  have b1: "based i (u_manifest u) ?start" using start by (simp add: based_def)
  from execute_undo_cancelled [OF c1 b1 same(3,1) x r(2)] show ?thesis .
qed

section \<open>Repetition\<close>

text \<open>A finished undo is not repeated: calling the executor again changes nothing and reports \<open>undone\<close> again.\<close>

theorem finished_undo_not_repeated:
  assumes c: "consistent i run fs ex wd" and u: "find_undo wd i = Some u" "u_state u \<noteq> U_UNDONE"
    and r: "apply_review_undo_run ud rp cancel i wd = Inr (wd1, r1)" "ur_state r1 = U ''undone''"
  shows "\<exists>r2. apply_review_undo_run ud2 rp2 cancel2 i wd1 = Inr (wd1, r2) \<and> ur_state r2 = U ''undone''"
proof -
  have "recorded_undone i wd1"
    using apply_undo_call [OF c u(1), of ud rp cancel] u(2) r by (auto simp: call_ok_def simp del: U_Cons U_Nil)
  then show ?thesis
    by (auto simp: recorded_undone_def apply_review_undo_run_def base_result_def simp del: U_Cons U_Nil)
qed

section \<open>The queue\<close>

lemma find_undo_queue [simp]: "same_queue (wd_db wd) (wd_db (edit_undo i h wd))" "same_queue (wd_db wd) (wd_db (put_execution i m ex wd))"
  by (simp_all add: same_queue_def put_execution_def)

lemma reconcile_writing_queue: "same_queue (wd_db wd) (wd_db (fst (reconcile_writing ud u source m ex j wd)))"
proof -
  have "commit_reconciled u source m ex jid wd1 = Inr wd2 \<Longrightarrow> same_queue (wd_db wd1) (wd_db wd2)" for jid wd1 wd2
    by (auto simp: commit_reconciled_def Let_def revert_journal_def rbind_eq_Inr put_execution_def same_queue_def split: if_splits)
  then show ?thesis
    by (auto simp: reconcile_writing_def revert_journal_def simp del: U_Cons U_Nil split: sum.splits option.splits prod.splits)
      fastforce+
qed

lemma reconcile_queue_kept: "same_queue (wd_db wd) (wd_db (fst (reconcile_interrupted_undo ud i wd)))"
  using reconcile_writing_queue
  by (auto simp: reconcile_interrupted_undo_def Let_def simp del: U_Cons U_Nil split: option.splits sum.splits list.splits)

text \<open>The reconciliation of undo runs is one that the recovery of jobs may be given: whatever the disk answers, it
  leaves the jobs and their events alone, which is what the properties of the recovery sweep ask of it.\<close>

theorem undo_reconciler_keeps_queue: "undo_keeps_queue (Some (undo_reconciler ud rp wd))"
proof -
  have res: "same_queue (wd_db wd1) (wd_db (fst (interrupted_undo_file_results rp (ud_disk ud) i wd1)))" for i wd1
    by (auto simp: interrupted_undo_file_results_def Let_def simp del: U_Cons U_Nil split: option.splits sum.splits)
  have "case undo_reconciler ud rp wd i d of Reconciled d' _ _ _ \<Rightarrow> same_queue d d' | ReconcileError d' _ \<Rightarrow> same_queue d d'" for i d
  proof -
    obtain wd1 e where r: "reconcile_interrupted_undo ud i (wd\<lparr>wd_db := d\<rparr>) = (wd1, e)" by fastforce
    obtain wd2 x where x: "interrupted_undo_file_results rp (ud_disk ud) i wd1 = (wd2, x)" by fastforce
    have "same_queue d (wd_db wd1)" "same_queue (wd_db wd1) (wd_db wd2)"
      using reconcile_queue_kept [of "wd\<lparr>wd_db := d\<rparr>" ud i] r res [of wd1 i] x by simp_all
    then show ?thesis
      using r x same_queue_trans by (auto simp: undo_reconciler_def split: option.splits sum.splits)
  qed
  then show ?thesis by (simp add: undo_keeps_queue_def)
qed

end
