(* ===== verification/UndoFreeze.thy ===== *)
theory UndoFreeze
  imports UndoGuarantees
begin

text \<open>
  The hand-over from the request to the executor: the manifest that a new request freezes is one that the
  executor reads without error and finds consistent with the journal, and the undo of a journal row does to
  the catalog what the rollback of the apply run would have done.
\<close>

section \<open>Reading what was frozen\<close>

text \<open>A journal row that can be frozen; its payload is a dictionary, which has distinct keys.\<close>

definition freezable :: "journal \<Rightarrow> bool" where
  "freezable j \<longleftrightarrow> is_dict (fj_blob j) \<and> undo_phase (fj_phase j) \<and> distinct (map fst (entries (fj_blob j)))"

definition frozen_step :: "journal \<Rightarrow> json \<Rightarrow> undo_step" where
  "frozen_step j raw = \<lparr>us_journal = fj_id j, us_phase = fj_phase j, us_before = fj_blob j, us_raw = raw\<rparr>"

definition step_json :: "journal \<Rightarrow> json" where
  "step_json j = JObj ((U ''journal_id'', JInt (fj_id j)) # (U ''phase'', JStr (fj_phase j)) # step_entries j)"

lemma freeze_step_json: "freeze_step j = Inr raw \<Longrightarrow> raw = step_json j \<and> is_dict (fj_blob j)"
  by (auto simp: freeze_step_def step_json_def Let_def simp del: U_Cons U_Nil split: if_splits)

lemma step_json_fields [simp]:
  "is_dict (step_json j)"
  "jget (step_json j) (U ''journal_id'') = JInt (fj_id j)" "jget (step_json j) (U ''phase'') = JStr (fj_phase j)"
  "jget (step_json j) (U ''before_blob'') = fj_blob j" "jget (step_json j) (U ''path'') = JStr (fj_path j)"
  "jget (step_json j) (U ''before_hash'') = json_of_str (fj_before_hash j)"
  "jget (step_json j) (U ''after_hash'') = json_of_str (fj_after_hash j)"
  "jget (step_json j) (U ''before_path'') = json_of_str (fj_before_path j)"
  "jget (step_json j) (U ''after_path'') = json_of_str (fj_after_path j)"
  "jget_default (step_json j) (U ''track_id'') d = d"
  by (simp_all add: step_json_def step_entries_def jget_def jget_default_def)

lemma read_frozen_step:
  "freezable j \<Longrightarrow> fj_id j \<notin> set seen \<Longrightarrow> read_step tid seen (step_json j) = Inr (frozen_step j (step_json j))"
  by (simp add: read_step_def Let_def freezable_def frozen_step_def equals_int_def del: U_Cons U_Nil)

lemma read_frozen_steps:
  "list_all freezable js \<Longrightarrow> distinct (map fj_id js) \<Longrightarrow> set (map fj_id js) \<inter> set seen = {} \<Longrightarrow>
     read_steps tid seen (map step_json js) = Inr (map (\<lambda>j. frozen_step j (step_json j)) js)"
proof (induction js arbitrary: seen)
  case (Cons j js)
  have "read_steps tid (fj_id j # seen) (map step_json js) = Inr (map (\<lambda>j. frozen_step j (step_json j)) js)"
    by (rule Cons.IH) (use Cons.prems in auto)
  then show ?case using Cons.prems read_frozen_step [of j seen tid] by (simp add: frozen_step_def)
qed simp

lemma freeze_steps_json: "rmap freeze_step js = Inr raws \<Longrightarrow> raws = map step_json js"
  by (induction js arbitrary: raws) (auto simp: rbind_eq_Inr dest: freeze_step_json)

lemma file_json_fields [simp]:
  "is_dict (file_json tid s sts)" "jget (file_json tid s sts) (U ''track_id'') = JInt tid"
  "jget (file_json tid s sts) (U ''source'') = s" "jget (file_json tid s sts) (U ''steps'') = JList sts"
  by (simp_all add: file_json_def jget_def)

lemma snapshot_fields:
  "track_snapshot t = Inr s \<Longrightarrow> is_dict s \<and> is_str (jget s (U ''path'')) \<and> is_str (jget s (U ''tag_hash''))"
  by (auto simp: track_snapshot_def jget_def split: option.splits)

definition frozen_file :: "int \<Rightarrow> json \<Rightarrow> journal list \<Rightarrow> undo_file" where
  "frozen_file tid s js = \<lparr>uf_track = tid, uf_source = s, uf_steps = map (\<lambda>j. frozen_step j (step_json j)) js\<rparr>"

lemma frozen_file_ids [simp]: "step_ids (frozen_file tid s js) = map fj_id js" "uf_track (frozen_file tid s js) = tid"
  by (simp_all add: step_ids_def frozen_file_def frozen_step_def comp_def)

lemma read_frozen_file:
  assumes "freeze_file wd (tid, js) = Inr raw" and "list_all freezable js" "js \<noteq> []" "distinct (map fj_id js)"
    and "tid \<notin> set tracks" "set (map fj_id js) \<inter> set seen = {}"
  shows "\<exists>s. read_file tracks seen raw = Inr (frozen_file tid s js)"
proof -
  obtain t raws s where "rmap freeze_step js = Inr raws" and s: "track_snapshot t = Inr s" and raw: "raw = file_json tid s raws"
    using assms(1) by (auto simp: freeze_file_def rbind_eq_Inr split: option.splits)
  then have "raws = map step_json js" by (simp add: freeze_steps_json)
  then show ?thesis
    using read_frozen_steps [OF assms(2,4,6), of tid] snapshot_fields [OF s] assms(3,5) raw
    by (simp add: read_file_def Let_def frozen_file_def del: U_Cons U_Nil)
qed

text \<open>Files and the groups of journal rows they were frozen from.\<close>

definition frozen_from :: "int \<times> journal list \<Rightarrow> undo_file \<Rightarrow> bool" where
  "frozen_from b f \<longleftrightarrow> (\<exists>s. f = frozen_file (fst b) s (snd b))"

lemma read_frozen_files:
  "rmap (freeze_file wd) bs = Inr raws \<Longrightarrow> \<forall>(tid, js)\<in>set bs. list_all freezable js \<and> js \<noteq> [] \<Longrightarrow>
     distinct (map fst bs) \<Longrightarrow> distinct (concat (map (\<lambda>b. map fj_id (snd b)) bs)) \<Longrightarrow>
     set (map fst bs) \<inter> set tracks = {} \<Longrightarrow> set (concat (map (\<lambda>b. map fj_id (snd b)) bs)) \<inter> set seen = {} \<Longrightarrow>
     \<exists>fs. read_files tracks seen raws = Inr fs \<and> list_all2 frozen_from bs fs"
proof (induction bs arbitrary: raws tracks seen)
  case (Cons b bs)
  obtain tid js where b: "b = (tid, js)" by (cases b)
  obtain raw raws' where raws: "freeze_file wd (tid, js) = Inr raw" "rmap (freeze_file wd) bs = Inr raws'" "raws = raw # raws'"
    using Cons.prems(1) b by (auto simp: rbind_eq_Inr)
  obtain s where s: "read_file tracks seen raw = Inr (frozen_file tid s js)"
    using read_frozen_file [OF raws(1), of tracks seen] Cons.prems(2-6) b by auto
  have "\<exists>fs. read_files (tid # tracks) (map fj_id js @ seen) raws' = Inr fs \<and> list_all2 frozen_from bs fs"
  proof (rule Cons.IH [OF raws(2)])
    let ?D = "concat (map (\<lambda>b. map fj_id (snd b)) bs)"
    have d: "distinct (map fj_id js @ ?D)" "set (map fj_id js @ ?D) \<inter> set seen = {}" using Cons.prems(4,6) b by simp_all
    show "distinct ?D" using d(1) by simp
    show "set ?D \<inter> set (map fj_id js @ seen) = {}" using d unfolding distinct_append set_append by blast
  qed (use Cons.prems(2,3,5) b in auto)
  then obtain fs where "read_files (tid # tracks) (map fj_id js @ seen) raws' = Inr fs" "list_all2 frozen_from bs fs" by blast
  moreover have "frozen_from b (frozen_file tid s js)" by (auto simp: frozen_from_def b)
  ultimately show ?case using s raws(3) by simp
qed simp

section \<open>Agreement with the journal\<close>

lemma frozen_matches:
  assumes "freezable j"
  shows "journal_matches j (frozen_step j (step_json j)) (fj_track j)"
proof -
  have "same_json (jget (fj_blob j) k) v" if "(k, v) \<in> set (entries (fj_blob j))" for k v
    using assms that by (simp add: freezable_def jget_def same_json_def)
  then show ?thesis
    using assms by (auto simp: journal_matches_def frozen_step_def freezable_def list_all_iff simp del: U_Cons U_Nil)
qed

lemma bucket_form: "bucket_all key id xs = map (\<lambda>k. (k, filter (\<lambda>x. key x = k) xs)) (map fst (bucket_all key id xs))"
proof -
  have "map ((\<lambda>k. (k, filter (\<lambda>x. key x = k) xs)) \<circ> fst) (bucket_all key id xs) = bucket_all key id xs"
    by (rule map_idI) (auto simp: bucket_all_mem)
  then show ?thesis by simp
qed

lemma distinct_groups:
  assumes "distinct (map f xs)"
  shows "distinct ks \<Longrightarrow> distinct (concat (map (\<lambda>k. map f (filter (\<lambda>x. key x = k) xs)) ks))"
proof (induction ks)
  case (Cons k ks)
  have "f x \<noteq> f y" if "x \<in> set xs" "y \<in> set xs" "key x \<noteq> key y" for x y
    using assms that by (auto simp: distinct_map inj_on_def)
  moreover have "distinct (map f (filter (\<lambda>x. key x = k) xs))" using assms by (rule distinct_map_filter)
  ultimately show ?case using Cons by (auto simp: image_iff) metis
qed simp

lemma bucket_ids: "map (\<lambda>b. map f (snd b)) (bucket_all key id xs) = map (\<lambda>k. map f (filter (\<lambda>x. key x = k) xs)) (map fst (bucket_all key id xs))"
  by (subst bucket_form) (simp add: comp_def)

lemma distinct_buckets:
  "distinct (map f xs) \<Longrightarrow> distinct (concat (map (\<lambda>b. map f (snd b)) (bucket_all key id xs)))"
  unfolding bucket_ids by (rule distinct_groups) (simp_all only: bucket_all_distinct)

lemma set_buckets: "set (concat (map (\<lambda>b. map f (snd b)) (bucket_all key id xs))) = f ` set xs"
proof -
  have "set ks = key ` set xs \<Longrightarrow> set (concat (map (\<lambda>k. map f (filter (\<lambda>x. key x = k) xs)) ks)) = f ` set xs" for ks by auto
  from this [of "map fst (bucket_all key id xs)"] show ?thesis unfolding bucket_ids by (simp only: set_map bucket_all_keys)
qed

text \<open>The rows of the source run, all done, become the files of the manifest.\<close>

lemma frozen_journals_ok:
  assumes dist: "distinct (map fj_id (wd_journals wd))" and free: "\<forall>j\<in>set (source_journals wd run). freezable j"
    and dn: "\<forall>j\<in>set (source_journals wd run). fj_state j = FJ_DONE"
    and fs: "list_all2 frozen_from (bucket_all fj_track id (source_journals wd run)) fs"
  shows "journals_ok run fs empty_execution (wd_journals wd)"
proof -
  let ?js = "source_journals wd run" and ?bs = "bucket_all fj_track id (source_journals wd run)"
  have ids: "map step_ids fs = map (\<lambda>b. map fj_id (snd b)) ?bs"
    using fs by (induction rule: list_all2_induct) (auto simp: frozen_from_def)
  have frozen: "set (frozen_ids fs) = fj_id ` set ?js" unfolding frozen_ids_def ids by (rule set_buckets)
  have matched: "\<exists>j\<in>set ?js. journal_matches j st (uf_track f)" if mem: "f \<in> set fs" "st \<in> set (uf_steps f)" for f st
  proof -
    have "\<exists>b\<in>set ?bs. frozen_from b f" using fs mem(1) by (induction rule: list_all2_induct) auto
    then obtain b where b: "b \<in> set ?bs" "frozen_from b f" by blast
    then obtain s where f: "f = frozen_file (fst b) s (snd b)" by (auto simp: frozen_from_def)
    obtain j where j: "j \<in> set (snd b)" "st = frozen_step j (step_json j)" using mem(2) f by (auto simp: frozen_file_def)
    have "(fst b, snd b) \<in> set ?bs" using b(1) by simp
    then have "snd b = filter (\<lambda>j. fj_track j = fst b) ?js" by (simp_all only: bucket_all_mem list.map_id)
    then have j0: "j \<in> set ?js" "fj_track j = fst b" using j(1) by simp_all
    then have "journal_matches j st (uf_track f)" using frozen_matches [of j] free j(2) f by simp
    then show ?thesis using j0(1) by blast
  qed
  have empty: "completed_ids empty_execution = []" "active_id empty_execution = None"
    by (simp_all add: empty_execution_def completed_ids_def active_id_def jget_def opt_int_def)
  have states: "\<forall>j\<in>set (wd_journals wd). fj_run j = run \<longrightarrow> fj_state j = FJ_DONE" using dn by simp
  have matched': "\<forall>f\<in>set fs. \<forall>st\<in>set (uf_steps f). \<exists>j\<in>set (wd_journals wd). fj_run j = run \<and> journal_matches j st (uf_track f)"
    using matched by fastforce
  show ?thesis unfolding journals_ok_def using dist frozen states empty matched' by (simp add: ledger_state_def)
qed

lemma empty_execution_read: "is_dict empty_execution \<and> valid_execution empty_execution"
  by (simp add: empty_execution_def valid_execution_def jget_def)

lemma frozen_manifest_fields [simp]:
  "jget (frozen_manifest source files) files_key = JList files" "jget (frozen_manifest source files) version_key = JInt 2"
  "jget (frozen_manifest source files) source_key = JInt source" "jget (frozen_manifest source files) execution_key = empty_execution"
  by (simp_all add: frozen_manifest_def jget_def)

lemma freeze_read:
  assumes "manifest_for_inverses rp wd run = Inr m" and dist: "distinct (map fj_id (wd_journals wd))"
    and dict: "\<forall>j\<in>set (source_journals wd run). distinct (map fst (entries (fj_blob j)))"
  shows "\<exists>fs. frozen_as run fs m \<and> undo_execution m = Inr empty_execution \<and> journals_ok run fs empty_execution (wd_journals wd)"
proof -
  let ?js = "source_journals wd run" and ?bs = "bucket_all fj_track id (source_journals wd run)"
  obtain files where dn: "list_all (\<lambda>j. fj_state j = FJ_DONE) ?js" and ph: "find (\<lambda>j. \<not> undo_phase (fj_phase j)) ?js = None"
    and files: "rmap (freeze_file wd) ?bs = Inr files" and m: "m = frozen_manifest run files"
    using assms(1) by (auto simp: manifest_for_inverses_def Let_def rbind_eq_Inr simp del: U_Cons U_Nil split: if_splits option.splits)
  have dists: "distinct (map fj_id ?js)" by (rule source_journals_distinct [OF dist])
  have blob: "is_dict (fj_blob j)" if "j \<in> set ?js" for j
  proof -
    have "(fj_track j, filter (\<lambda>x. fj_track x = fj_track j) ?js) \<in> set ?bs" using that by (auto simp: bucket_all_mem)
    then obtain raw where "freeze_file wd (fj_track j, filter (\<lambda>x. fj_track x = fj_track j) ?js) = Inr raw"
      using rmap_Inr_Ball [OF files] by blast
    then obtain raws where "rmap freeze_step (filter (\<lambda>x. fj_track x = fj_track j) ?js) = Inr raws"
      by (auto simp: freeze_file_def rbind_eq_Inr split: option.splits)
    from rmap_Inr_Ball [OF this, of j] that show ?thesis by (auto dest: freeze_step_json)
  qed
  have free: "freezable j" if "j \<in> set ?js" for j
    using that ph blob dict unfolding freezable_def find_None_iff by blast
  have ok: "list_all freezable (snd b) \<and> snd b \<noteq> []" if "b \<in> set ?bs" for b
  proof -
    have "(fst b, snd b) \<in> set ?bs" using that by simp
    then have js: "fst b \<in> fj_track ` set ?js" "snd b = filter (\<lambda>j. fj_track j = fst b) ?js" by (simp_all only: bucket_all_mem list.map_id)
    then show ?thesis using free by (auto simp: list_all_iff filter_empty_conv)
  qed
  then have ok: "\<forall>(tid, js)\<in>set ?bs. list_all freezable js \<and> js \<noteq> []" by fastforce
  obtain fs where fs: "read_files [] [] files = Inr fs" "list_all2 frozen_from ?bs fs"
    using read_frozen_files [OF files ok bucket_all_distinct distinct_buckets [OF dists], of "[]" "[]"] by auto
  have "frozen_as run fs m" using fs(1) m by (simp add: frozen_as_def undo_files_def equals_int_def)
  moreover have "undo_execution m = Inr empty_execution" using m empty_execution_read by (simp add: undo_execution_def)
  moreover have "journals_ok run fs empty_execution (wd_journals wd)"
    by (rule frozen_journals_ok [OF dist _ _ fs(2)]) (use free dn in \<open>auto simp: list_all_iff\<close>)
  ultimately show ?thesis by blast
qed

text \<open>A request that is the first for its key and its source run.\<close>

definition first_request :: "'w world \<Rightarrow> int \<Rightarrow> int \<Rightarrow> ustr \<Rightarrow> bool" where
  "first_request wd bid run key \<longleftrightarrow>
     (\<forall>u\<in>set (undo_runs (wd_db wd)). u_source_run u \<noteq> run \<and> \<not> (u_bundle u = bid \<and> u_key u = key))"

definition proper_journal :: "int \<Rightarrow> 'w world \<Rightarrow> bool" where
  "proper_journal run wd \<longleftrightarrow> distinct (map fj_id (wd_journals wd))
     \<and> (\<forall>j\<in>set (wd_journals wd). fj_run j = run \<longrightarrow> distinct (map fst (entries (fj_blob j))))"

lemma undo_files_jobs: "undo_files (jset jobs_key x m) = undo_files m"
  by (simp add: undo_files_def jget_jset)

lemma frozen_jobs: "frozen_as run fs (jset jobs_key x m) = frozen_as run fs m"
  by (simp add: frozen_as_def undo_files_jobs jget_jset)

lemma execution_jobs: "undo_execution (jset jobs_key x m) = undo_execution m"
  by (simp add: undo_execution_def jget_jset)

text \<open>C12. A new request hands the executor a manifest it accepts. The manifest that the service freezes from the
  journal is read back without error as the same steps in reverse order, file by file, and the world it leaves is
  consistent with nothing completed and nothing under way; tracks, work units, journal and disk are untouched.\<close>

theorem new_undo_is_consistent:
  assumes req: "enqueue_review_undo rp bid run key backup now wd = Inr (wd', i, jid)"
    and first: "first_request wd bid run key" and journal: "proper_journal run wd"
  shows "\<exists>fs. consistent i run fs empty_execution wd' \<and> active_id empty_execution = None \<and> same_files wd wd'"
proof -
  have none: "find (\<lambda>u. u_bundle u = bid \<and> u_key u = key) (undo_runs (wd_db wd)) = None"
    "find (\<lambda>u. u_source_run u = run) (undo_runs (wd_db wd)) = None"
    using first by (auto simp: find_None_iff first_request_def)
  obtain u where u: "create_undo_run rp bid run key wd = Inr u"
    and pub: "publish_undo u backup now (wd\<lparr>wd_db := (wd_db wd)\<lparr>undo_runs := undo_runs (wd_db wd) @ [u]\<rparr>\<rparr>) = Inr (wd', i, jid)"
    using req none by (auto simp: enqueue_review_undo_def refuse_def Let_def simp del: U_Cons U_Nil split: if_splits option.splits sum.splits)
  obtain m where m: "manifest_for_inverses rp wd run = Inr m" and row: "u = new_undo_run (wd_db wd) bid run key m"
    using u by (auto simp: create_undo_run_def rbind_eq_Inr simp del: U_Cons U_Nil split: if_splits)
  obtain d j where enq: "enqueue (U ''undo_review_bundle'') (undo_payload (u_id u) backup) 0 None now
      ((wd_db wd)\<lparr>undo_runs := undo_runs (wd_db wd) @ [u]\<rparr>) = Inr (d, j)"
    and wd': "wd' = edit_undo (u_id u)
      (\<lambda>x. x\<lparr>u_manifest := jset jobs_key (JList (map JInt (undo_job_ids (u_manifest u) @ [j_id j]))) (u_manifest u)\<rparr>)
      (wd\<lparr>wd_db := d\<rparr>)" and i: "i = u_id u"
    using pub by (auto simp: publish_undo_def simp del: U_Cons U_Nil split: sum.splits)
  have runs: "undo_runs d = undo_runs (wd_db wd) @ [u]"
    using enq by (auto simp: enqueue_def Let_def simp del: U_Cons U_Nil split: if_splits)
  have "find_row u_id (u_id u) (undo_runs (wd_db wd)) = None"
    unfolding find_row_None row by (auto simp: new_undo_run_def dest: next_id_fresh [of _ _ u_id])
  then have found: "find_undo (wd\<lparr>wd_db := d\<rparr>) i = Some u" by (simp add: find_undo_def runs find_row_def find_append i)
  obtain fs where fs: "frozen_as run fs m" "undo_execution m = Inr empty_execution" "journals_ok run fs empty_execution (wd_journals wd)"
    using freeze_read [OF m] journal by (auto simp: proper_journal_def)
  have "undo_row_ok i run fs empty_execution wd'"
    using found fs(1,2) row i by (simp add: wd' undo_row_ok_def frozen_jobs execution_jobs) (simp add: new_undo_run_def)
  moreover have "journals_ok run fs empty_execution (wd_journals wd')" using fs(3) by (simp add: wd')
  moreover have "active_id empty_execution = None" by (simp add: empty_execution_def active_id_def jget_def opt_int_def)
  moreover have "same_files wd wd'" by (simp add: wd' same_files_def)
  ultimately show ?thesis by (auto simp: consistent_def)
qed

end
