(* ===== verification/UndoEffects.thy ===== *)
theory UndoEffects
  imports UndoFreeze
begin

text \<open>
  The effects of inverse steps: they are those of the rollback of an apply run on the same journal row,
  and unless the disk refuses one of them they take the run to its end.
\<close>

section \<open>Undo and rollback\<close>

lemma undo_grouping_same:
  assumes "restore_grouping (fj_track j) (fj_blob j) wd = Inr wd1" and "undo_grouping j wd = Inr wd2"
  shows "wd_tracks wd1 = wd_tracks wd2 \<and> wd_units wd1 = wd_units wd2"
proof -
  have recount: "wd_tracks (recount_groups gs w) = wd_tracks (recount_groups gs' w) \<and> wd_units (recount_groups gs w) = wd_units (recount_groups gs' w)"
    if "set gs = set gs'" for gs gs' and w :: "'a world"
    using that by (simp add: recount_groups_def)
  show ?thesis
    using assms by (auto simp: restore_grouping_def undo_grouping_def Let_def simp del: U_Cons U_Nil split: if_splits)
qed

lemma undo_tags_same:
  assumes "undo_tags ud t (frozen_step j (step_json j)) wd = Effected g b wd1"
    and "restore_tags (ud_disk ud) t j base wd = Rolled base' wd2" and "dk_exists (ud_disk ud) (wd_disk wd) (tk_path t)"
  shows "wd_tracks wd1 = wd_tracks wd2 \<and> wd_units wd1 = wd_units wd2"
  using assms
  by (auto simp: undo_tags_def restore_tags_def Let_def frozen_step_def edit_track_def edit_journal_def simp del: U_Cons U_Nil
      split: if_splits sum.splits reversal.splits option.splits)

lemma undo_move_same:
  assumes "undo_move ud t (frozen_step j (step_json j)) wd = Effected g b wd1" and "tk_id t = fj_track j"
    and "fj_before_path j = Some before" "fj_after_path j = Some after"
    and "return_move (ud_disk ud) run t j before after base wd = Rolled base' wd2"
  shows "wd_tracks wd1 = wd_tracks wd2 \<and> wd_units wd1 = wd_units wd2"
  using assms
  by (auto simp: undo_move_def return_move_def Let_def frozen_step_def moved_back_def edit_track_def edit_journal_def json_of_str_def
      simp del: U_Cons U_Nil split: if_splits sum.splits reversal.splits option.splits)

text \<open>C22. Undoing a journal row of an applied run does to the catalog what the rollback of the run would have done:
  for tags, moves and grouping corrections alike, when both succeed on the same world, the tracks
  and the work units they leave are equal.\<close>

theorem undo_step_equals_rollback:
  assumes j: "find_journal wd (fj_id j) = Some j" "fj_state j = FJ_DONE" and t: "get_track wd (fj_track j) = Some t"
    and there: "fj_phase j = U ''tags'' \<longrightarrow> dk_exists (ud_disk ud) (wd_disk wd) (tk_path t)"
    and eff: "undo_effect ud t (frozen_step j (step_json j)) wd = Effected g b wd1"
    and roll: "roll_journal (ud_disk ud) run (fj_track j) (fj_id j) base wd = Rolled base' wd2"
  shows "wd_tracks wd1 = wd_tracks wd2 \<and> wd_units wd1 = wd_units wd2"
proof -
  have id: "tk_id t = fj_track j" by (rule get_track_id [OF t])
  have ne: "U ''tags'' \<noteq> U ''move''" "U ''grouping'' \<noteq> U ''move''" "U ''grouping'' \<noteq> U ''tags''" by simp_all
  have phase: "us_phase (frozen_step j (step_json j)) = fj_phase j" "us_before (frozen_step j (step_json j)) = fj_blob j"
    by (simp_all add: frozen_step_def)
  have rev: "reversible j" using j(2) by (simp add: reversible_def)
  consider "fj_phase j = U ''tags''" | "fj_phase j = U ''move''" | "fj_phase j = U ''grouping''"
    using eff phase by (auto simp: undo_effect_def simp del: U_Cons U_Nil split: if_splits)
  then show ?thesis
  proof cases
    case 1
    then show ?thesis
      using undo_tags_same [of ud t j wd g b wd1 base base' wd2] eff roll j(1) t rev there phase ne
      by (simp add: undo_effect_def roll_journal_def del: U_Cons U_Nil)
  next
    case 2
    then obtain before after where p: "fj_before_path j = Some before" "fj_after_path j = Some after"
      "return_move (ud_disk ud) run t j before after base wd = Rolled base' wd2"
      using roll j t rev by (auto simp: roll_journal_def simp del: U_Cons U_Nil split: option.splits)
    have "undo_move ud t (frozen_step j (step_json j)) wd = Effected g b wd1"
      using eff 2 phase ne by (simp add: undo_effect_def del: U_Cons U_Nil)
    from undo_move_same [OF this id p] show ?thesis .
  next
    case 3
    have "restore_grouping (fj_track j) (fj_blob j) wd = Inr wd1"
      using eff 3 phase ne id by (simp add: undo_effect_def del: U_Cons U_Nil split: sum.splits)
    moreover have "undo_grouping j wd = Inr wd2"
      using roll 3 j t rev ne by (simp add: roll_journal_def del: U_Cons U_Nil split: sum.splits)
    ultimately show ?thesis by (rule undo_grouping_same)
  qed
qed

section \<open>Ends\<close>

lemma undo_effect_tracks:
  assumes "undo_effect ud t st wd = Effected g b wd1"
  shows "map tk_id (wd_tracks wd1) = map tk_id (wd_tracks wd)"
proof -
  have pin: "wd_tracks (restore_pin x y w) = wd_tracks w" for x y and w :: "'a world"
    by (simp add: restore_pin_def edit_unit_def)
  show ?thesis
    using assms
    by (auto simp: undo_effect_def undo_tags_def undo_move_def restore_grouping_def Let_def edit_track_def recount_groups_def pin
        update_where_keys simp del: U_Cons U_Nil split: if_splits sum.splits reversal.splits option.splits)
qed

text \<open>What is raised by a step once its intent is committed: by the effect, or by the check of the row it leaves.\<close>

definition effect_error :: "'w undo_disk \<Rightarrow> track \<Rightarrow> undo_step \<Rightarrow> 'w world \<Rightarrow> ustr option" where
  "effect_error ud t st wd =
     (case undo_effect ud t st wd of
        Refused e w \<Rightarrow> Some e
      | Effected g b wd1 \<Rightarrow> (case track_snapshot (current_track wd1 t) of Inl e \<Rightarrow> Some e | Inr s \<Rightarrow> None))"

definition known_tracks :: "undo_file list \<Rightarrow> 'w world \<Rightarrow> bool" where
  "known_tracks fs wd \<longleftrightarrow> (\<forall>f\<in>set fs. get_track wd (uf_track f) \<noteq> None)"

lemma known_tracks_kept: "map tk_id (wd_tracks wd1) = map tk_id (wd_tracks wd) \<Longrightarrow> known_tracks fs wd1 = known_tracks fs wd"
  using get_track_kept by (metis known_tracks_def)

text \<open>The run went through a durable state in which this step raised; the world has the files that the step left.\<close>

definition refused_at :: "'w undo_disk \<Rightarrow> undo_file \<Rightarrow> undo_step \<Rightarrow> ustr \<Rightarrow> 'w world \<Rightarrow> bool" where
  "refused_at ud f st e wd' \<longleftrightarrow>
     (\<exists>wd t. saved wd \<in> set (wd_log wd') \<and> get_track wd (uf_track f) = Some t \<and> effect_error ud t st wd = Some e
        \<and> same_files (wd\<lparr>wd_disk := effect_disk (undo_effect ud t st wd)\<rparr>) wd')"

lemma step_ends:
  assumes f: "f \<in> set fs" and known: "known_tracks fs wd" and t: "tk_id t = uf_track f"
  shows "(\<exists>ex1 wd1. apply_step ud u m f st (current_track wd t) ex wd = Stepped ex1 wd1 \<and> known_tracks fs wd1)
    \<or> (\<exists>e wd1. apply_step ud u m f st (current_track wd t) ex wd = StepFailed (us_journal st) e wd1 \<and> refused_at ud f st e wd1)"
proof -
  obtain t0 where t0: "get_track wd (uf_track f) = Some t0" using known f by (auto simp: known_tracks_def)
  obtain ex1 wd0 where b: "begin_step u m ex (us_journal st) wd = (ex1, wd0)" by fastforce
  define wd1 where "wd1 = persist wd0"
  have tracks: "wd_tracks wd1 = wd_tracks wd" using b by (auto simp: begin_step_def Let_def wd1_def)
  then have t1: "get_track wd1 (uf_track f) = Some t0" using t0 by (simp add: get_track_def)
  have now: "current_track wd t = t0" using t0 t by (simp add: current_track_def)
  show ?thesis
  proof (cases "effect_error ud t0 st wd1")
    case None
    then obtain g bl wd2 s where e: "undo_effect ud t0 st wd1 = Effected g bl wd2" "track_snapshot (current_track wd2 t0) = Inr s"
      by (auto simp: effect_error_def split: effected.splits sum.splits)
    obtain ex3 wd3 where s: "apply_step ud u m f st t0 ex wd = Stepped ex3 wd3" "wd_tracks wd3 = wd_tracks wd2"
      using b e by (simp add: apply_step_def Let_def wd1_def [symmetric])
    have "known_tracks fs wd3"
      using undo_effect_tracks [OF e(1)] tracks known known_tracks_kept [of wd3 wd fs] s(2) by simp
    then show ?thesis using s now by simp
  next
    case (Some e)
    let ?wd = "persist (wd1\<lparr>wd_disk := effect_disk (undo_effect ud t0 st wd1)\<rparr>)"
    have "apply_step ud u m f st t0 ex wd = StepFailed (us_journal st) e ?wd"
      using Some b by (auto simp: apply_step_def effect_error_def Let_def wd1_def [symmetric] split: effected.splits sum.splits)
    moreover have "saved wd1 \<in> set (wd_log ?wd)" by (simp add: wd1_def)
    then have "refused_at ud f st e ?wd" using t1 Some unfolding refused_at_def same_files_def by auto
    ultimately show ?thesis using now by simp
  qed
qed

lemma steps_end:
  assumes f: "f \<in> set fs" and t: "tk_id t = uf_track f" and ids: "set (frozen_ids fs) \<subseteq> set ids"
  shows "known_tracks fs wd \<Longrightarrow> set sts \<subseteq> set (uf_steps f) \<Longrightarrow>
    (\<exists>ex1 wd1. undo_steps ud u m ids f t sts ex wd = Stepped ex1 wd1 \<and> known_tracks fs wd1)
    \<or> (\<exists>st\<in>set sts. \<exists>e wd1. undo_steps ud u m ids f t sts ex wd = StepFailed (us_journal st) e wd1 \<and> refused_at ud f st e wd1)"
proof (induction sts arbitrary: ex wd)
  case (Cons st sts)
  have j: "us_journal st \<in> set ids" using ids f Cons.prems(2) by (auto simp: frozen_ids_def step_ids_def)
  show ?case
  proof (cases "is_completed ex st")
    case True
    then show ?thesis using Cons.IH [OF Cons.prems(1)] Cons.prems(2) by auto
  next
    case False
    from step_ends [OF f Cons.prems(1) t, of ud u m st ex] show ?thesis
    proof
      assume "\<exists>ex1 wd1. apply_step ud u m f st (current_track wd t) ex wd = Stepped ex1 wd1 \<and> known_tracks fs wd1"
      then obtain ex1 wd1 where "apply_step ud u m f st (current_track wd t) ex wd = Stepped ex1 wd1" "known_tracks fs wd1" by blast
      then show ?thesis using Cons.IH [of wd1 ex1] Cons.prems(2) False j by auto
    qed (use False j in auto)
  qed
qed simp

lemma all_end:
  assumes m: "frozen_as run fs m" and u: "u_id u = i" and ids: "set (frozen_ids fs) \<subseteq> set ids"
  shows "ready i run fs m ex wd \<Longrightarrow> known_tracks fs wd \<Longrightarrow> set gs \<subseteq> set fs \<Longrightarrow>
    (\<exists>ex1 wd1. undo_all ud (\<lambda>_. False) u m ids gs ex wd = Inr (AllUndone ex1 wd1))
    \<or> (\<exists>f\<in>set gs. \<exists>st\<in>set (uf_steps f). \<exists>e m1 ex1 wd1. undo_all ud (\<lambda>_. False) u m ids gs ex wd = Inr (Stopped_at m1 ex1
        \<lparr>en_errors = [(uf_track f, recovery_text @ U '' '' @ e)], en_cancelled = False, en_recovery = True, en_retryable = False\<rparr> wd1)
      \<and> undo_files m1 = Inr fs \<and> consistent i run fs ex1 wd1 \<and> active_id ex1 = Some (us_journal st) \<and> refused_at ud f st e wd1)"
proof (induction gs arbitrary: ex wd)
  case (Cons f gs)
  obtain t where t: "get_track wd (uf_track f) = Some t" using Cons.prems by (auto simp: known_tracks_def)
  have f: "f \<in> set fs" using Cons.prems(3) by simp
  show ?case
  proof (cases "list_all (is_completed ex) (uf_steps f)")
    case True
    then show ?thesis using Cons.IH [OF Cons.prems(1,2)] Cons.prems(3) by auto
  next
    case todo: False
    have one: "step_follows ud i run fs m ex wd (step_ids f) (undo_steps ud u m ids f t (uf_steps f) ex wd)"
      using undo_steps_follow [OF m u f Cons.prems(1)] by (simp add: step_ids_def)
    from steps_end [OF f get_track_id [OF t] ids Cons.prems(2) subset_refl, of ud u m ex] show ?thesis
    proof
      assume "\<exists>ex1 wd1. undo_steps ud u m ids f t (uf_steps f) ex wd = Stepped ex1 wd1 \<and> known_tracks fs wd1"
      then obtain ex1 wd1 where s: "undo_steps ud u m ids f t (uf_steps f) ex wd = Stepped ex1 wd1" "known_tracks fs wd1" by blast
      then have "ready i run fs m ex1 wd1" using one by (simp add: step_follows_def)
      from Cons.IH [OF this s(2)] show ?thesis using Cons.prems(3) t s(1) todo by (auto simp: Let_def simp del: U_Cons U_Nil)
    next
      assume "\<exists>st\<in>set (uf_steps f). \<exists>e wd1. undo_steps ud u m ids f t (uf_steps f) ex wd = StepFailed (us_journal st) e wd1
        \<and> refused_at ud f st e wd1"
      then obtain st e wd1 where st: "st \<in> set (uf_steps f)" "refused_at ud f st e wd1"
        and s: "undo_steps ud u m ids f t (uf_steps f) ex wd = StepFailed (us_journal st) e wd1" by blast
      obtain m1 ex1 where a: "after_failure u m (uf_track f) (us_journal st) e wd1 = Inr (Stopped_at m1 ex1
          \<lparr>en_errors = [(uf_track f, recovery_text @ U '' '' @ e)], en_cancelled = False, en_recovery = True, en_retryable = False\<rparr> wd1)"
        "\<forall>en. run_follows ud i run fs m wd (Stopped_at m1 ex1 en wd1)" "active_id ex1 = Some (us_journal st)"
        using after_failure_follows [OF one [unfolded s] u] by blast
      have "undo_files m1 = Inr fs" "consistent i run fs ex1 wd1" using a(2) by (simp_all add: run_follows_def)
      moreover have "undo_all ud (\<lambda>_. False) u m ids (f # gs) ex wd = Inr (Stopped_at m1 ex1
          \<lparr>en_errors = [(uf_track f, recovery_text @ U '' '' @ e)], en_cancelled = False, en_recovery = True, en_retryable = False\<rparr> wd1)"
        using a(1) s t todo by (simp add: Let_def del: U_Cons U_Nil)
      ultimately show ?thesis using a(3) st unfolding list.set by blast
    qed
  qed
qed simp

text \<open>What the executor finds before the first step: a run that may start, with a preflight that passes.\<close>

definition may_start :: "'w undo_disk \<Rightarrow> pyrepr \<Rightarrow> int \<Rightarrow> undo_file list \<Rightarrow> json \<Rightarrow> 'w world \<Rightarrow> bool" where
  "may_start ud rp i fs ex wd \<longleftrightarrow>
     (case find_undo wd i of None \<Rightarrow> False
      | Some u \<Rightarrow>
          (case find_row a_id (u_source_run u) (apply_runs (wd_db wd)) of None \<Rightarrow> False
           | Some a \<Rightarrow>
               let js = source_journals wd (a_id a) in
               u_state u = U_PENDING \<and> a_state a \<in> {RUN_APPLIED, RUN_PARTIAL} \<and> missing_tracks wd js = []
               \<and> fs \<noteq> [] \<and> set (map uf_track fs) = set (map fj_track js) \<and> known_tracks fs wd
               \<and> preflight_errors rp (ud_disk ud) u js fs ex (start_undo u (u_manifest u) wd) = ([], False)))"


section \<open>A manifest without files\<close>

text \<open>
  The comparison of the manifest's files with the journal is skipped when there are none, and an exception of
  the preflight is recorded per file. So a manifest without files is closed as undone while every
  journal row stays as it was.
\<close>

lemma empty_manifest_closes_undone:
  assumes u: "find_undo wd i = Some u" "u_state u = U_PENDING" "is_dict (u_manifest u)" "jget (u_manifest u) version_key = JInt 2"
    and m: "undo_files (u_manifest u) = Inr []" "undo_execution (u_manifest u) = Inr ex"
    and a: "find_row a_id (u_source_run u) (apply_runs (wd_db wd)) = Some a" "a_state a = RUN_APPLIED"
      "missing_tracks wd (source_journals wd (a_id a)) = []"
    and conflict: "active_conflicts (wd_db wd) u [] = None"
  shows "\<exists>wd' r. apply_review_undo_run ud rp cancel i wd = Inr (wd', r) \<and> ur_state r = U ''undone'' \<and> wd_journals wd' = wd_journals wd"
proof -
  have id: "u_id u = i" by (rule find_undo_id [OF u(1)])
  have errors: "fst (preflight_errors rp dk u js [] ex w) = []" for dk js and w :: "'a world"
    by (auto simp: preflight_errors_def undo_preflight_def file_checks_def List.map_filter_simps Let_def simp del: U_Cons U_Nil split: sum.splits option.splits)
  have "execute_undo ud rp cancel u (u_manifest u) js [] ex w = Inr (close_undone u [] w)" for js w
    using errors [of "ud_disk ud" js w] by (auto simp: execute_undo_def split: prod.splits)
  moreover have "load_manifest wd u js = Inr (u_manifest u, [], ex)" for js using u m by (simp add: load_manifest_def Let_def)
  ultimately have "run_undo ud rp cancel u a wd = Inr (close_undone u [] (start_undo u (u_manifest u) wd))"
    using a by (simp add: run_undo_def Let_def del: U_Cons U_Nil)
  then show ?thesis
    using u a id by (simp add: apply_review_undo_run_def close_undone_def base_result_def start_undo_def del: U_Cons U_Nil)
qed

end
