(* ===== verification/UndoWitness.thy ===== *)
theory UndoWitness
  imports UndoEffects ApplyWitness
begin

text \<open>
  Concrete instances of the properties of undo runs: an apply run has retitled two files, and a request to undo
  it has been accepted. The guard of a file is its path, and every effect on the disk succeeds.
\<close>

section \<open>The instance\<close>

definition u_guard :: "ustr \<Rightarrow> json" where
  "u_guard p = JObj [(U ''version'', JInt 1), (U ''path'', JStr p)]"

definition u_disk :: "unit undo_disk" where
  "u_disk = \<lparr>ud_disk = w_disk\<lparr>dk_guard := (\<lambda>_ p. Inr (u_guard p)), dk_restore := (\<lambda>w _ p _ _. Reversed (u_guard p) (U ''h'') w)\<rparr>,
     ud_safe = (\<lambda>_ _. True), ud_settle = (\<lambda>w _. (None, w)), ud_realign = (\<lambda>w _ _ _ _. (None, w))\<rparr>"

definition u_track :: "int \<Rightarrow> ustr \<Rightarrow> track" where
  "u_track i p = \<lparr>tk_id = i, tk_path = p, tk_name = p, tk_fields = [(U ''title'', JStr (U ''New''))], tk_size = 9, tk_mtime = 5,
     tk_content = None, tk_hash = Some (U ''k''), tk_missing = False, tk_group = None, tk_art = None\<rparr>"

definition u_journal :: "int \<Rightarrow> track \<Rightarrow> journal" where
  "u_journal i t = \<lparr>fj_id = i, fj_run = 1, fj_track = tk_id t, fj_path = tk_path t, fj_phase = U ''tags'', fj_state = FJ_DONE,
     fj_before_hash = Some (U ''h''), fj_after_hash = Some (U ''k''),
     fj_blob = JObj [(U ''title'', JStr (U ''Old'')), (guard_before, u_guard (tk_path t)), (guard_after, u_guard (tk_path t))],
     fj_before_path = None, fj_after_path = None, fj_error = None\<rparr>"

definition u_tracks :: "track list" where
  "u_tracks = [u_track 7 (U ''a''), u_track 8 (U ''b'')]"

definition u_db :: db where
  "u_db = empty_db\<lparr>bundles := [\<lparr>b_id = 1, b_key = U ''c'', b_title = U ''t'', b_scope_type = U ''c'', b_scope_id = None,
     b_session = None, b_state = APPLIED, b_error = None\<rparr>], apply_runs := [\<lparr>a_id = 1, a_bundle = 1, a_revision = 1, a_key = U ''k'',
     a_state = RUN_APPLIED, a_manifest = JObj [], a_result = JNull, a_error = None\<rparr>]\<rparr>"

definition u_applied :: "unit world" where
  "u_applied = \<lparr>wd_db = u_db, wd_tracks = u_tracks, wd_units = [],
     wd_journals = [u_journal 1 (u_track 7 (U ''a'')), u_journal 2 (u_track 8 (U ''b''))], wd_tries = [], wd_files = [], wd_disk = (), wd_log = []\<rparr>"

definition u_request :: "undo_exc + unit world \<times> int \<times> int" where
  "u_request = enqueue_review_undo plain_repr 1 1 (U ''u'') None 0 u_applied"

definition u_start :: "unit world" where
  "u_start = fst (val_of u_request)"

definition u_row :: "unit world \<Rightarrow> undo_run" where
  "u_row wd = hd (undo_runs (wd_db wd))"

definition u_files :: "unit world \<Rightarrow> undo_file list" where
  "u_files wd = val_of (undo_files (u_manifest (u_row wd)))"

definition u_marks :: "unit world \<Rightarrow> json" where
  "u_marks wd = val_of (undo_execution (u_manifest (u_row wd)))"

text \<open>What can be computed of the consistency of a world.\<close>

definition u_row_reads :: "unit world \<Rightarrow> bool" where
  "u_row_reads wd \<longleftrightarrow> find_undo wd 1 = Some (u_row wd) \<and> u_source_run (u_row wd) = 1
     \<and> got (undo_files (u_manifest (u_row wd))) \<and> got (undo_execution (u_manifest (u_row wd)))
     \<and> jget (u_manifest (u_row wd)) version_key = JInt 2 \<and> equals_int (jget (u_manifest (u_row wd)) source_key) 1
     \<and> distinct (map fj_id (wd_journals wd))"

definition u_checked :: "unit world \<Rightarrow> bool" where
  "u_checked wd \<longleftrightarrow> check_source_journals (source_journals wd 1) (u_files wd) (u_marks wd) = None"

lemma u_row_ok: "u_row_reads wd \<Longrightarrow> undo_row_ok 1 1 (u_files wd) (u_marks wd) wd"
  using got_Inr [of "undo_files (u_manifest (u_row wd))"] got_Inr [of "undo_execution (u_manifest (u_row wd))"]
  by (simp add: u_row_reads_def undo_row_ok_def frozen_as_def u_files_def u_marks_def)

lemma u_consistent: "u_row_reads wd \<Longrightarrow> u_checked wd \<Longrightarrow> consistent 1 1 (u_files wd) (u_marks wd) wd"
  using checks_consistency [OF u_row_ok] u_row_ok [of wd] by (simp add: u_checked_def u_row_reads_def consistent_def)

lemma u_requested: "got u_request"
  by code_simp

lemma u_start_reads: "u_row_reads u_start"
  by code_simp

lemma u_start_checked: "u_checked u_start"
  by code_simp

lemma u_start_consistent: "consistent 1 1 (u_files u_start) (u_marks u_start) u_start"
  by (rule u_consistent [OF u_start_reads u_start_checked])

definition u_run :: "(int \<Rightarrow> bool) \<Rightarrow> ustr + unit world \<times> undo_result" where
  "u_run cancel = apply_review_undo_run u_disk plain_repr cancel 1 u_start"

definition u_ends :: "(unit world \<Rightarrow> undo_result \<Rightarrow> bool) \<Rightarrow> (int \<Rightarrow> bool) \<Rightarrow> bool" where
  "u_ends P cancel \<longleftrightarrow> (case u_run cancel of Inr (wd, r) \<Rightarrow> P wd r | Inl e \<Rightarrow> False)"

lemma u_endsE: "u_ends P cancel \<Longrightarrow> (\<And>wd r. u_run cancel = Inr (wd, r) \<Longrightarrow> P wd r \<Longrightarrow> C) \<Longrightarrow> C"
  by (auto simp: u_ends_def split: sum.splits)

definition u_states :: "unit world \<Rightarrow> journal_state list" where
  "u_states wd = map fj_state (wd_journals wd)"

lemma u_undone: "u_ends (\<lambda>wd r. ur_state r = U ''undone'') (\<lambda>_. False)"
  by code_simp

lemma u_cancelled: "u_ends (\<lambda>wd r. ur_cancelled r \<and> u_states wd = [FJ_DONE, FJ_ROLLED_BACK]) (\<lambda>i. i = 7)"
  by code_simp

definition u_pending :: "unit world \<Rightarrow> bool" where
  "u_pending wd \<longleftrightarrow> u_state (u_row wd) = U_PENDING"

lemma u_start_pending: "u_pending u_start"
  by code_simp

lemma u_start_row: "find_undo u_start 1 = Some (u_row u_start)" "u_state (u_row u_start) \<noteq> U_UNDONE"
  using u_start_reads u_start_pending by (simp_all add: u_row_reads_def u_pending_def)

section \<open>Requests and runs\<close>

theorem new_undo_is_consistent_witness:
  "\<exists>wd jid fs. u_request = Inr (wd, 1, jid) \<and> consistent 1 1 fs empty_execution wd \<and> same_files u_applied wd"
proof -
  have first: "first_request u_applied 1 1 (U ''u'')" and proper: "proper_journal 1 u_applied"
    by code_simp+
  have "fst (snd (val_of u_request)) = 1" by code_simp
  then obtain wd jid where r: "u_request = Inr (wd, 1, jid)" using got_Inr [OF u_requested] by (metis prod.collapse)
  then show ?thesis
    using new_undo_is_consistent [OF r [unfolded u_request_def] first proper] by blast
qed

lemma u_logged: "u_ends (\<lambda>wd r. length (wd_log wd) = 6 \<and> u_states wd = [FJ_DONE, FJ_ROLLED_BACK]) (\<lambda>i. i = 7)" "wd_log u_start = []"
  by code_simp+

theorem undo_run_writes_ahead_witness:
  "\<exists>wd r. u_run (\<lambda>i. i = 7) = Inr (wd, r) \<and> length (wd_log wd) = 6 \<and> u_states wd = [FJ_DONE, FJ_ROLLED_BACK]
     \<and> successively (write_ahead u_disk 1 (u_files u_start)) (saved u_start # wd_log wd)"
proof (rule u_endsE [OF u_logged(1)])
  fix wd r
  assume r: "u_run (\<lambda>i. i = 7) = Inr (wd, r)" "length (wd_log wd) = 6 \<and> u_states wd = [FJ_DONE, FJ_ROLLED_BACK]"
  have "\<exists>l. wd_log wd = wd_log u_start @ l \<and> successively (write_ahead u_disk 1 (u_files u_start)) (saved u_start # l)"
    using undo_run_writes_ahead [OF u_start_consistent, of u_disk plain_repr "\<lambda>i. i = 7"] r(1) unfolding u_run_def by force
  then show ?thesis using r u_logged(2) by auto
qed

theorem undone_run_reversed_everything_witness:
  "\<exists>wd r. u_run (\<lambda>_. False) = Inr (wd, r) \<and> ur_state r = U ''undone'' \<and> reversed 1 wd \<and> recorded_undone 1 wd"
  using u_undone
  by (rule u_endsE)
    (use undone_run_reversed_everything [OF u_start_consistent u_start_row, of u_disk plain_repr "\<lambda>_. False"] in \<open>auto simp: u_run_def\<close>)

theorem finished_undo_not_repeated_witness:
  "\<exists>wd r r2. u_run (\<lambda>_. False) = Inr (wd, r) \<and> apply_review_undo_run u_disk plain_repr (\<lambda>_. True) 1 wd = Inr (wd, r2)
     \<and> ur_state r2 = U ''undone''"
  using u_undone
  by (rule u_endsE)
    (use finished_undo_not_repeated [OF u_start_consistent u_start_row, of u_disk plain_repr "\<lambda>_. False"] in \<open>auto simp: u_run_def\<close>)

theorem cancelled_undo_stops_between_files_witness:
  "\<exists>wd r ex. u_run (\<lambda>i. i = 7) = Inr (wd, r) \<and> u_states wd = [FJ_DONE, FJ_ROLLED_BACK]
     \<and> consistent 1 1 (u_files u_start) ex wd \<and> (\<forall>f\<in>set (u_files u_start). whole_file (u_marks u_start) ex f)"
proof (rule u_endsE [OF u_cancelled])
  fix wd r
  assume r: "u_run (\<lambda>i. i = 7) = Inr (wd, r)" "ur_cancelled r \<and> u_states wd = [FJ_DONE, FJ_ROLLED_BACK]"
  then have "apply_review_undo_run u_disk plain_repr (\<lambda>i. i = 7) 1 u_start = Inr (wd, r)" by (simp add: u_run_def)
  from cancelled_undo_stops_between_files [OF u_start_consistent this] r show ?thesis by blast
qed

section \<open>Drift\<close>

text \<open>The file of track 8 has another size since.\<close>

definition u_drifted :: "unit world" where
  "u_drifted = edit_track 8 (\<lambda>t. t\<lparr>tk_size := 10\<rparr>) u_start"

definition u_drifts :: "unit world \<Rightarrow> json \<Rightarrow> undo_file \<Rightarrow> bool" where
  "u_drifts wd ex f \<longleftrightarrow> list_all (\<lambda>st. \<not> is_completed ex st) (uf_steps f)
     \<and> (case get_track wd (uf_track f) of None \<Rightarrow> False
        | Some t \<Rightarrow> (case track_snapshot t of Inl e \<Rightarrow> False | Inr s \<Rightarrow> \<not> same_json s (uf_source f)))"

lemma u_drifts: "u_drifts u_drifted (u_marks u_drifted) (hd (u_files u_drifted))"
  by code_simp

lemma u_drifted_ok: "u_row_reads u_drifted" "u_checked u_drifted" "u_pending u_drifted" "u_files u_drifted \<noteq> []"
  by code_simp+


section \<open>Crashes\<close>

text \<open>The process dies after the intent of the first step.\<close>

definition u_killed :: "unit world" where
  "u_killed = snd (begin_step (u_row u_start) (u_manifest (u_row u_start)) (u_marks u_start) 2 u_start)"

definition u_first :: "undo_file \<Rightarrow> undo_step \<Rightarrow> json \<Rightarrow> bool" where
  "u_first f st ex \<longleftrightarrow> us_journal st = 2 \<and> \<not> is_completed ex st \<and> active_id ex = None"

lemma u_first: "u_first (hd (u_files u_start)) (hd (uf_steps (hd (u_files u_start)))) (u_marks u_start)"
  "u_files u_start \<noteq> []" "uf_steps (hd (u_files u_start)) \<noteq> []"
  by code_simp+

lemma u_killed: "undo_commit u_disk 1 u_start u_killed"
proof -
  have row: "find_undo u_start 1 = Some (u_row u_start)" "undo_files (u_manifest (u_row u_start)) = Inr (u_files u_start)"
    "undo_execution (u_manifest (u_row u_start)) = Inr (u_marks u_start)"
    using u_start_reads got_Inr by (auto simp: u_row_reads_def u_files_def u_marks_def)
  show ?thesis
    using undo_commit.begins [OF row, of "hd (u_files u_start)" "hd (uf_steps (hd (u_files u_start)))"] u_first
    by (simp add: u_first_def u_killed_def)
qed

lemma u_killed_states: "u_states u_killed = [FJ_DONE, FJ_WRITING]"
  by code_simp

definition u_settles :: "unit world \<Rightarrow> bool" where
  "u_settles wd \<longleftrightarrow> (case reconcile_interrupted_undo u_disk 1 wd of (wd1, e) \<Rightarrow> e = None \<and> u_states wd1 = [FJ_DONE, FJ_DONE])"

lemma u_settles: "u_settles u_killed"
  by code_simp

theorem undo_crash_states_consistent_witness:
  "u_states u_killed = [FJ_DONE, FJ_WRITING] \<and> length (writing_journals u_killed 1) \<le> 1
   \<and> (\<exists>ex. consistent 1 1 (u_files u_start) ex u_killed)"
  using undo_crash_states_consistent [OF u_start_consistent r_into_rtranclp [of "undo_commit u_disk 1", OF u_killed]] u_killed_states
  by blast

theorem reconciliation_keeps_progress_witness:
  "\<exists>wd ex. reconcile_interrupted_undo u_disk 1 u_killed = (wd, None) \<and> u_states wd = [FJ_DONE, FJ_DONE]
     \<and> check_source_journals (source_journals wd 1) (u_files u_start) ex = None \<and> wd_tracks wd = wd_tracks u_killed"
proof -
  obtain wd where r: "reconcile_interrupted_undo u_disk 1 u_killed = (wd, None)" "u_states wd = [FJ_DONE, FJ_DONE]"
    using u_settles by (auto simp: u_settles_def split: prod.splits)
  show ?thesis
    using reconciliation_keeps_progress [OF u_start_consistent r_into_rtranclp [of "undo_commit u_disk 1", OF u_killed] r(1)] r
    by blast
qed

section \<open>Effects\<close>

definition u_plain :: "undo_step \<Rightarrow> bool" where
  "u_plain st \<longleftrightarrow> us_phase st = U ''tags'' \<and> got (journal_file_guard (us_before st) guard_after)
     \<and> map_of (entries (us_before st)) (U ''__muzilla_catalog_art_blob_id'') = None
     \<and> map_of (entries (us_before st)) (U ''__muzilla_art_blob_id'') = None"

lemma u_plain_effect:
  assumes "u_plain st" and t: "get_track wd i = Some t"
  shows "\<exists>g b wd1 s. undo_effect u_disk t st wd = Effected g b wd1 \<and> track_snapshot (current_track wd1 t) = Inr s"
proof -
  let ?f = "\<lambda>w. update_file_facts (9, 5, U ''c'') (U ''h'') \<circ> restore_lyrics (us_before st)
    \<circ> restore_art (us_before st) \<circ> restore_fields (us_before st)"
  obtain g where g: "journal_file_guard (us_before st) guard_after = Inr g" using assms(1) got_Inr by (auto simp: u_plain_def)
  have art: "restore_art_error (ud_disk u_disk) w t (us_before st) = None" for w
    using assms(1)
    by (cases "tk_art t") (simp_all add: restore_art_error_def desired_art_def jget_default_def u_plain_def json_of_int_def del: U_Cons U_Nil)
  have disk: "dk_restore (ud_disk u_disk) w j p b x = Reversed (u_guard p) (U ''h'') w" "ud_safe u_disk w p"
    "read_facts (ud_disk u_disk) w p = Inr (9, 5, U ''c'')" for w j p b x
    by (simp_all add: u_disk_def w_disk_def read_facts_def)
  have e: "undo_effect u_disk t st wd = Effected (u_guard (tk_path t)) (Some (jset guard_restored (u_guard (tk_path t)) (us_before st)))
      (edit_track (tk_id t) (?f (wd_disk wd)) (wd\<lparr>wd_disk := wd_disk wd\<rparr>))"
    using assms(1) g art disk by (simp add: undo_effect_def undo_tags_def u_plain_def Let_def del: U_Cons U_Nil)
  have hash: "tk_hash (?f w x) = Some (U ''h'')" for w x
    unfolding o_def update_file_facts_def by (simp del: U_Cons U_Nil)
  have "get_track (edit_track i f (wd\<lparr>wd_disk := w\<rparr>)) i = Some (f t)" if "\<And>x. tk_id (f x) = tk_id x" for f w
    using t that by (simp add: get_track_def edit_track_def find_row_update get_track_id [OF t])
  then have "get_track (edit_track (tk_id t) (?f (wd_disk wd)) (wd\<lparr>wd_disk := wd_disk wd\<rparr>)) (tk_id t) = Some (?f (wd_disk wd) t)"
    using get_track_id [OF t] by simp
  then show ?thesis using e hash by (fastforce simp: current_track_def track_snapshot_def simp del: U_Cons U_Nil)
qed

text \<open>A disk on which the file of track 7 cannot be restored.\<close>

definition u_jam :: "unit undo_disk" where
  "u_jam = u_disk\<lparr>ud_disk := (ud_disk u_disk)
     \<lparr>dk_restore := (\<lambda>w _ p _ _. if p = U ''a'' then Irreversible (U ''busy'') False w else Reversed (u_guard p) (U ''h'') w)\<rparr>\<rparr>"

definition u_may_start :: "unit world \<Rightarrow> bool" where
  "u_may_start wd \<longleftrightarrow> may_start u_jam plain_repr 1 (u_files wd) (u_marks wd) wd"

lemma u_may_start: "u_may_start u_start"
  by code_simp

definition u_stuck :: "unit world \<Rightarrow> bool" where
  "u_stuck wd \<longleftrightarrow>
     (case apply_review_undo_run u_jam plain_repr (\<lambda>_. False) 1 wd of Inl e \<Rightarrow> False
      | Inr (wd1, r) \<Rightarrow> ur_state r = U ''failed'' \<and> u_states wd1 = [FJ_WRITING, FJ_ROLLED_BACK])"

lemma u_stuck: "u_stuck u_start"
  by code_simp


definition u_rolled :: "journal \<Rightarrow> track \<Rightarrow> bool" where
  "u_rolled j t \<longleftrightarrow>
     (case roll_journal (ud_disk u_disk) 1 (fj_track j) (fj_id j) u_applied u_applied of Stopped e w \<Rightarrow> False | Rolled b w \<Rightarrow> True)
     \<and> find_journal u_applied (fj_id j) = Some j \<and> fj_state j = FJ_DONE \<and> get_track u_applied (fj_track j) = Some t
     \<and> dk_exists (ud_disk u_disk) (wd_disk u_applied) (tk_path t) \<and> u_plain (frozen_step j (step_json j))"

lemma u_rolled: "u_rolled (hd (wd_journals u_applied)) (hd (wd_tracks u_applied))"
  by code_simp

theorem undo_step_equals_rollback_witness:
  "\<exists>g b wd1 base wd2. undo_effect u_disk (hd (wd_tracks u_applied))
       (frozen_step (hd (wd_journals u_applied)) (step_json (hd (wd_journals u_applied)))) u_applied = Effected g b wd1
     \<and> roll_journal (ud_disk u_disk) 1 7 1 u_applied u_applied = Rolled base wd2
     \<and> wd_tracks wd1 = wd_tracks wd2"
proof -
  let ?j = "hd (wd_journals u_applied)" and ?t = "hd (wd_tracks u_applied)"
  have w: "find_journal u_applied (fj_id ?j) = Some ?j" "fj_state ?j = FJ_DONE" "get_track u_applied (fj_track ?j) = Some ?t"
    "dk_exists (ud_disk u_disk) (wd_disk u_applied) (tk_path ?t)" "u_plain (frozen_step ?j (step_json ?j))"
    using u_rolled unfolding u_rolled_def by blast+
  obtain base wd2 where roll: "roll_journal (ud_disk u_disk) 1 (fj_track ?j) (fj_id ?j) u_applied u_applied = Rolled base wd2"
    using u_rolled by (auto simp: u_rolled_def split: rolled.splits)
  obtain g b wd1 where eff: "undo_effect u_disk ?t (frozen_step ?j (step_json ?j)) u_applied = Effected g b wd1"
    using u_plain_effect [OF w(5,3)] by blast
  have "fj_track ?j = 7" "fj_id ?j = 1" by code_simp+
  then show ?thesis using undo_step_equals_rollback [OF w(1,2,3) _ eff roll] w(4) eff roll by metis
qed

end
