(* ===== verification/FileIO.thy ===== *)
theory FileIO
  imports Json
begin

text \<open>
  Directory entries, and computations that make system calls. A computation runs between other processes: before every
  call \<open>os_env\<close> says what they did to the volume, and \<open>os_fail\<close> whether the call raises for a reason other than the
  entries. Effects and
  commits are logged, so that the log has every state in which the process can be killed. Observations made
  through several calls on one pinned descriptor are one call here; a rename is atomic; commits of the
  database succeed. A computation that is not proved to fail is judged by triples with one postcondition for values and one
  for exceptions.
\<close>

section \<open>Entries\<close>

record dir_entry =
  de_device :: int
  de_inode :: int
  de_mode :: int
  de_size :: int
  de_mtime :: int
  de_regular :: bool
  de_sha :: ustr

type_synonym dir = "(ustr \<times> dir_entry) list"

text \<open>What is known of a directory: its identity, its permissions and whether it belongs to the process.\<close>

record dir_id =
  di_device :: int
  di_inode :: int
  di_mode :: int
  di_owned :: bool

text \<open>
  The volume as one operation sees it: the identities of the directories down to the parent, the parent, the private anchor in
  it, and the directory of the operation inside the anchor.
\<close>

record volume =
  vo_chain :: json
  vo_device :: int
  vo_parent :: dir
  vo_root :: "dir_id option"
  vo_operation :: "(ustr \<times> dir_id) option"
  vo_private :: dir

datatype place = Parent | Private

definition entries_of :: "place \<Rightarrow> volume \<Rightarrow> dir" where
  "entries_of pl v = (case pl of Parent \<Rightarrow> vo_parent v | Private \<Rightarrow> vo_private v)"

definition set_dir :: "place \<Rightarrow> dir \<Rightarrow> volume \<Rightarrow> volume" where
  "set_dir pl d v = (case pl of Parent \<Rightarrow> v\<lparr>vo_parent := d\<rparr> | Private \<Rightarrow> v\<lparr>vo_private := d\<rparr>)"

definition entry_at :: "place \<Rightarrow> ustr \<Rightarrow> volume \<Rightarrow> dir_entry option" where
  "entry_at pl name v = map_of (entries_of pl v) name"

definition put_entry :: "place \<Rightarrow> ustr \<Rightarrow> dir_entry \<Rightarrow> volume \<Rightarrow> volume" where
  "put_entry pl name e v = set_dir pl (AList.update name e (entries_of pl v)) v"

definition drop_entry :: "place \<Rightarrow> ustr \<Rightarrow> volume \<Rightarrow> volume" where
  "drop_entry pl name v = set_dir pl (AList.delete name (entries_of pl v)) v"

lemma entries_of_set_dir [simp]: "entries_of pl (set_dir pl' d v) = (if pl = pl' then d else entries_of pl v)"
  by (cases pl; cases pl') (simp_all add: entries_of_def set_dir_def)

lemma set_dir_frame [simp]:
  "vo_chain (set_dir pl d v) = vo_chain v" "vo_device (set_dir pl d v) = vo_device v"
  "vo_root (set_dir pl d v) = vo_root v" "vo_operation (set_dir pl d v) = vo_operation v"
  by (cases pl; simp add: set_dir_def)+

lemma entry_put [simp]:
  "entry_at pl n (put_entry pl' n' e v) = (if pl = pl' \<and> n = n' then Some e else entry_at pl n v)"
  by (simp add: entry_at_def put_entry_def update_conv)

lemma entry_drop [simp]:
  "entry_at pl n (drop_entry pl' n' v) = (if pl = pl' \<and> n = n' then None else entry_at pl n v)"
  by (simp add: entry_at_def drop_entry_def delete_conv)

lemma entry_frame [simp]:
  "vo_chain (put_entry pl n e v) = vo_chain v" "vo_device (put_entry pl n e v) = vo_device v"
  "vo_root (put_entry pl n e v) = vo_root v" "vo_operation (put_entry pl n e v) = vo_operation v"
  "vo_chain (drop_entry pl n v) = vo_chain v" "vo_device (drop_entry pl n v) = vo_device v"
  "vo_root (drop_entry pl n v) = vo_root v" "vo_operation (drop_entry pl n v) = vo_operation v"
  by (simp_all add: put_entry_def drop_entry_def)

lemma parent_frame [simp]:
  "vo_parent (put_entry Private n e v) = vo_parent v" "vo_parent (drop_entry Private n v) = vo_parent v"
  by (simp_all add: put_entry_def drop_entry_def set_dir_def)

section \<open>Computations\<close>

datatype io_error = Missing | Exists | IoError ustr

record os =
  os_fail :: "nat \<Rightarrow> ustr option"
  os_env :: "nat \<Rightarrow> volume \<Rightarrow> volume"

text \<open>A logged step: the volume before and after, and the durable checkpoint after.\<close>

type_synonym 'j logged = "volume \<times> volume \<times> 'j option"

record ('j, 'o) proc =
  pr_tick :: nat
  pr_volume :: volume
  pr_journal :: "'j option"
  pr_object :: 'o
  pr_log :: "'j logged list"

type_synonym ('j, 'o, 'a) io = "os \<Rightarrow> ('j, 'o) proc \<Rightarrow> (io_error + 'a) \<times> ('j, 'o) proc"

definition io_return :: "'a \<Rightarrow> ('j, 'o, 'a) io" where
  "io_return x = (\<lambda>os p. (Inr x, p))"

definition io_raise :: "ustr \<Rightarrow> ('j, 'o, 'a) io" where
  "io_raise e = (\<lambda>os p. (Inl (IoError e), p))"

definition io_throw :: "io_error \<Rightarrow> ('j, 'o, 'a) io" where
  "io_throw e = (\<lambda>os p. (Inl e, p))"

definition io_bind :: "('j, 'o, 'a) io \<Rightarrow> ('a \<Rightarrow> ('j, 'o, 'b) io) \<Rightarrow> ('j, 'o, 'b) io" where
  "io_bind m f = (\<lambda>os p. case m os p of (Inl e, p1) \<Rightarrow> (Inl e, p1) | (Inr x, p1) \<Rightarrow> f x os p1)"

definition io_then :: "('j, 'o, 'a) io \<Rightarrow> ('j, 'o, 'b) io \<Rightarrow> ('j, 'o, 'b) io" where
  "io_then m n = io_bind m (\<lambda>_. n)"

definition io_catch :: "('j, 'o, 'a) io \<Rightarrow> (io_error \<Rightarrow> ('j, 'o, 'a) io) \<Rightarrow> ('j, 'o, 'a) io" where
  "io_catch m h = (\<lambda>os p. case m os p of (Inl e, p1) \<Rightarrow> h e os p1 | (Inr x, p1) \<Rightarrow> (Inr x, p1))"

text \<open>\<open>finally\<close>: an exception of the clean-up replaces the outcome.\<close>

definition io_finally :: "('j, 'o, 'a) io \<Rightarrow> ('j, 'o, unit) io \<Rightarrow> ('j, 'o, 'a) io" where
  "io_finally m c = (\<lambda>os p. case m os p of (r, p1) \<Rightarrow> (case c os p1 of (Inl e, p2) \<Rightarrow> (Inl e, p2) | (Inr _, p2) \<Rightarrow> (r, p2)))"

definition io_unless :: "bool \<Rightarrow> ustr \<Rightarrow> ('j, 'o, unit) io" where
  "io_unless b e = (if b then io_return () else io_raise e)"

text \<open>System calls.\<close>

definition next_call :: "os \<Rightarrow> ('j, 'o) proc \<Rightarrow> ('j, 'o) proc" where
  "next_call os p = p\<lparr>pr_tick := pr_tick p + 1, pr_volume := os_env os (pr_tick p) (pr_volume p)\<rparr>"

definition observe :: "(volume \<Rightarrow> io_error + 'a) \<Rightarrow> ('j, 'o, 'a) io" where
  "observe f = (\<lambda>os p. let p1 = next_call os p in
     case os_fail os (pr_tick p) of Some e \<Rightarrow> (Inl (IoError e), p1) | None \<Rightarrow> (f (pr_volume p1), p1))"

definition log_step :: "volume \<Rightarrow> 'j option \<Rightarrow> ('j, 'o) proc \<Rightarrow> ('j, 'o) proc" where
  "log_step v j p = p\<lparr>pr_volume := v, pr_journal := j, pr_log := pr_log p @ [(pr_volume p, v, j)]\<rparr>"

definition act :: "(volume \<Rightarrow> io_error + volume) \<Rightarrow> ('j, 'o, unit) io" where
  "act f = (\<lambda>os p. let p1 = next_call os p in
     case os_fail os (pr_tick p) of Some e \<Rightarrow> (Inl (IoError e), p1)
     | None \<Rightarrow> (case f (pr_volume p1) of Inl e \<Rightarrow> (Inl e, p1) | Inr v \<Rightarrow> (Inr (), log_step v (pr_journal p1) p1)))"

definition commit :: "'j \<Rightarrow> ('j, 'o, unit) io" where
  "commit j = (\<lambda>os p. (Inr (), log_step (pr_volume p) (Some j) p))"

definition get_object :: "('j, 'o, 'o) io" where
  "get_object = (\<lambda>os p. (Inr (pr_object p), p))"

definition set_object :: "('o \<Rightarrow> 'o) \<Rightarrow> ('j, 'o, unit) io" where
  "set_object f = (\<lambda>os p. (Inr (), p\<lparr>pr_object := f (pr_object p)\<rparr>))"

definition sync :: "('j, 'o, unit) io" where
  "sync = observe (\<lambda>_. Inr ())"

text \<open>\<open>renameat2\<close> with \<open>RENAME_NOREPLACE\<close>, and \<open>unlinkat\<close>.\<close>

definition rename_entry :: "place \<Rightarrow> ustr \<Rightarrow> place \<Rightarrow> ustr \<Rightarrow> volume \<Rightarrow> io_error + volume" where
  "rename_entry a x b y v =
     (case entry_at a x v of
        None \<Rightarrow> Inl Missing
      | Some e \<Rightarrow>
          if entry_at b y v \<noteq> None then Inl Exists else Inr (put_entry b y e (drop_entry a x v)))"

definition unlink_entry :: "place \<Rightarrow> ustr \<Rightarrow> volume \<Rightarrow> io_error + volume" where
  "unlink_entry a x v =
     (if entry_at a x v = None then Inl Missing else Inr (drop_entry a x v))"

section \<open>Triples\<close>

definition triple ::
  "os \<Rightarrow> (('j, 'o) proc \<Rightarrow> bool) \<Rightarrow> ('j, 'o, 'a) io \<Rightarrow> ('a \<Rightarrow> ('j, 'o) proc \<Rightarrow> bool) \<Rightarrow> (('j, 'o) proc \<Rightarrow> bool) \<Rightarrow> bool" where
  "triple os P m Q E \<longleftrightarrow> (\<forall>p. P p \<longrightarrow> (case m os p of (Inr x, p1) \<Rightarrow> Q x p1 | (Inl e, p1) \<Rightarrow> E p1))"

lemma tripleD: "triple os P m Q E \<Longrightarrow> P p \<Longrightarrow> case m os p of (Inr x, p1) \<Rightarrow> Q x p1 | (Inl e, p1) \<Rightarrow> E p1"
  by (simp add: triple_def)

lemma triple_value: "triple os P m Q E \<Longrightarrow> P p \<Longrightarrow> m os p = (Inr x, p1) \<Longrightarrow> Q x p1"
  and triple_error: "triple os P m Q E \<Longrightarrow> P p \<Longrightarrow> m os p = (Inl e, p1) \<Longrightarrow> E p1"
  by (force dest: tripleD)+

lemma triple_conseq:
  "triple os P' m Q' E' \<Longrightarrow> (\<And>p. P p \<Longrightarrow> P' p) \<Longrightarrow> (\<And>x p. Q' x p \<Longrightarrow> Q x p) \<Longrightarrow> (\<And>p. E' p \<Longrightarrow> E p) \<Longrightarrow> triple os P m Q E"
  unfolding triple_def by (fastforce split: prod.splits sum.splits)

lemma triple_pre: "triple os P' m Q E \<Longrightarrow> (\<And>p. P p \<Longrightarrow> P' p) \<Longrightarrow> triple os P m Q E"
  by (simp add: triple_def)

lemma triple_return: "(\<And>p. P p \<Longrightarrow> Q x p) \<Longrightarrow> triple os P (io_return x) Q E"
  by (simp add: triple_def io_return_def)

lemma triple_raise: "(\<And>p. P p \<Longrightarrow> E p) \<Longrightarrow> triple os P (io_raise e) Q E" "(\<And>p. P p \<Longrightarrow> E p) \<Longrightarrow> triple os P (io_throw er) Q E"
  by (simp_all add: triple_def io_raise_def io_throw_def)

lemma triple_bind: "triple os P m R E \<Longrightarrow> (\<And>x. triple os (R x) (f x) Q E) \<Longrightarrow> triple os P (io_bind m f) Q E"
  by (fastforce simp: triple_def io_bind_def split: prod.splits sum.splits)

lemma triple_then: "triple os P m (\<lambda>_. R) E \<Longrightarrow> triple os R n Q E \<Longrightarrow> triple os P (io_then m n) Q E"
  unfolding io_then_def by (rule triple_bind) simp_all

lemma triple_catch: "triple os P m Q R \<Longrightarrow> (\<And>e. triple os R (h e) Q E) \<Longrightarrow> triple os P (io_catch m h) Q E"
  by (fastforce simp: triple_def io_catch_def split: prod.splits sum.splits)

lemma triple_finally:
  "triple os P m R S \<Longrightarrow> (\<And>x. triple os (R x) c (\<lambda>_. Q x) E) \<Longrightarrow> triple os S c (\<lambda>_. E) E \<Longrightarrow> triple os P (io_finally m c) Q E"
  by (fastforce simp: triple_def io_finally_def split: prod.splits sum.splits)

lemma triple_unless: "(\<And>p. P p \<Longrightarrow> b \<Longrightarrow> Q () p) \<Longrightarrow> (\<And>p. P p \<Longrightarrow> \<not> b \<Longrightarrow> E p) \<Longrightarrow> triple os P (io_unless b e) Q E"
  by (simp add: triple_def io_unless_def io_return_def io_raise_def)

lemma triple_if:
  "(b \<Longrightarrow> triple os P m Q E) \<Longrightarrow> (\<not> b \<Longrightarrow> triple os P n Q E) \<Longrightarrow> triple os P (if b then m else n) Q E"
  by simp

lemma triple_observe:
  "(\<And>p x. P p \<Longrightarrow> f (pr_volume (next_call os p)) = Inr x \<Longrightarrow> Q x (next_call os p)) \<Longrightarrow> (\<And>p. P p \<Longrightarrow> E (next_call os p)) \<Longrightarrow>
     triple os P (observe f) Q E"
  by (auto simp: triple_def observe_def Let_def split: option.splits sum.splits)

lemma triple_act:
  "(\<And>p v. P p \<Longrightarrow> f (pr_volume (next_call os p)) = Inr v \<Longrightarrow> Q () (log_step v (pr_journal p) (next_call os p))) \<Longrightarrow>
   (\<And>p. P p \<Longrightarrow> E (next_call os p)) \<Longrightarrow> triple os P (act f) Q E"
  by (auto simp: triple_def act_def Let_def next_call_def split: option.splits sum.splits)

lemma triple_commit: "(\<And>p. P p \<Longrightarrow> Q () (log_step (pr_volume p) (Some j) p)) \<Longrightarrow> triple os P (commit j) Q E"
  by (simp add: triple_def commit_def)

lemma triple_get: "(\<And>p. P p \<Longrightarrow> Q (pr_object p) p) \<Longrightarrow> triple os P get_object Q E"
  by (simp add: triple_def get_object_def)

lemma triple_set: "(\<And>p. P p \<Longrightarrow> Q () (p\<lparr>pr_object := f (pr_object p)\<rparr>)) \<Longrightarrow> triple os P (set_object f) Q E"
  by (simp add: triple_def set_object_def)

text \<open>What a call leaves alone.\<close>

lemma next_call_simps [simp]:
  "pr_journal (next_call os p) = pr_journal p" "pr_object (next_call os p) = pr_object p" "pr_log (next_call os p) = pr_log p"
  "pr_volume (next_call os p) = os_env os (pr_tick p) (pr_volume p)"
  by (simp_all add: next_call_def)

lemma log_step_simps [simp]:
  "pr_volume (log_step v j p) = v" "pr_journal (log_step v j p) = j" "pr_object (log_step v j p) = pr_object p"
  "pr_log (log_step v j p) = pr_log p @ [(pr_volume p, v, j)]"
  by (simp_all add: log_step_def)

section \<open>Invariants\<close>

text \<open>What holds before and after a computation, whatever its outcome.\<close>

definition keeps :: "os \<Rightarrow> (('j, 'o) proc \<Rightarrow> bool) \<Rightarrow> ('j, 'o, 'a) io \<Rightarrow> bool" where
  "keeps os I m \<longleftrightarrow> triple os I m (\<lambda>_. I) I"

lemma keeps_triple: "keeps os I m \<Longrightarrow> triple os I m (\<lambda>_. I) I"
  by (simp add: keeps_def)

lemma keepsD: "keeps os I m \<Longrightarrow> I p \<Longrightarrow> I (snd (m os p))"
  using tripleD [of os I m "\<lambda>_. I" I p] by (cases "m os p") (auto simp: keeps_def split: sum.splits)

named_theorems keeps

lemma keeps_return [keeps]: "keeps os I (io_return x)"
  and keeps_raise [keeps]: "keeps os I (io_raise e)" "keeps os I (io_throw er)"
  and keeps_unless [keeps]: "keeps os I (io_unless b e)"
  and keeps_get [keeps]: "keeps os I get_object"
  by (simp_all add: keeps_def triple_def io_return_def io_raise_def io_throw_def io_unless_def get_object_def)

lemma keeps_bind [keeps]: "keeps os I m \<Longrightarrow> (\<And>x. keeps os I (f x)) \<Longrightarrow> keeps os I (io_bind m f)"
  unfolding keeps_def by (rule triple_bind)

lemma keeps_then [keeps]: "keeps os I m \<Longrightarrow> keeps os I n \<Longrightarrow> keeps os I (io_then m n)"
  unfolding io_then_def by (rule keeps_bind)

lemma keeps_catch [keeps]: "keeps os I m \<Longrightarrow> (\<And>e. keeps os I (h e)) \<Longrightarrow> keeps os I (io_catch m h)"
  unfolding keeps_def by (rule triple_catch)

lemma keeps_finally [keeps]: "keeps os I m \<Longrightarrow> keeps os I c \<Longrightarrow> keeps os I (io_finally m c)"
  unfolding keeps_def by (rule triple_finally)

lemma keeps_if [keeps]: "(b \<Longrightarrow> keeps os I m) \<Longrightarrow> (\<not> b \<Longrightarrow> keeps os I n) \<Longrightarrow> keeps os I (if b then m else n)"
  by simp

lemma keeps_case_option [keeps]:
  "keeps os I m \<Longrightarrow> (\<And>x. keeps os I (f x)) \<Longrightarrow> keeps os I (case ev of None \<Rightarrow> m | Some x \<Rightarrow> f x)"
  by (simp split: option.splits)

lemma keeps_case_prod [keeps]: "(\<And>x y. keeps os I (f x y)) \<Longrightarrow> keeps os I (case z of (x, y) \<Rightarrow> f x y)"
  by (simp split: prod.splits)

lemma keeps_Let [keeps]: "keeps os I (f x) \<Longrightarrow> keeps os I (Let x f)"
  by simp

text \<open>A first step that keeps the invariant.\<close>

lemmas triple_step = triple_bind [OF keeps_triple]
lemmas triple_skip = triple_then [OF keeps_triple]

text \<open>An invariant that the calls of other processes respect.\<close>

definition stable :: "os \<Rightarrow> (('j, 'o) proc \<Rightarrow> bool) \<Rightarrow> bool" where
  "stable os I \<longleftrightarrow> (\<forall>p. I p \<longrightarrow> I (next_call os p))"

lemma keeps_observe: "stable os I \<Longrightarrow> keeps os I (observe f)"
  unfolding keeps_def by (rule triple_observe) (simp_all add: stable_def)

lemma keeps_sync: "stable os I \<Longrightarrow> keeps os I sync"
  unfolding sync_def by (rule keeps_observe)

lemma keeps_act:
  "stable os I \<Longrightarrow> (\<And>p v. I p \<Longrightarrow> f (pr_volume p) = Inr v \<Longrightarrow> I (log_step v (pr_journal p) p)) \<Longrightarrow> keeps os I (act f)"
  unfolding keeps_def by (rule triple_act) (metis next_call_simps(1) stable_def, simp add: stable_def)

lemma keeps_commit: "(\<And>p. I p \<Longrightarrow> I (log_step (pr_volume p) (Some j) p)) \<Longrightarrow> keeps os I (commit j)"
  unfolding keeps_def by (rule triple_commit)

lemma keeps_set: "(\<And>p. I p \<Longrightarrow> I (p\<lparr>pr_object := f (pr_object p)\<rparr>)) \<Longrightarrow> keeps os I (set_object f)"
  unfolding keeps_def by (rule triple_set)

text \<open>An assertion that the calls of others respect can be used at the call itself.\<close>

lemma triple_act_stable:
  assumes "stable os P" and "\<And>p. P p \<Longrightarrow> E p"
    and "\<And>p v. P p \<Longrightarrow> f (pr_volume p) = Inr v \<Longrightarrow> Q () (log_step v (pr_journal p) p)"
  shows "triple os P (act f) Q E"
proof (rule triple_act)
  fix p v assume "P p" "f (pr_volume (next_call os p)) = Inr v"
  then show "Q () (log_step v (pr_journal p) (next_call os p))"
    using assms(1) assms(3) [of "next_call os p" v] by (simp add: stable_def)
qed (use assms(1,2) in \<open>simp add: stable_def\<close>)

lemma triple_observe_stable:
  assumes "stable os P" and "\<And>p. P p \<Longrightarrow> E p" and "\<And>p x. P p \<Longrightarrow> f (pr_volume p) = Inr x \<Longrightarrow> Q x p"
  shows "triple os P (observe f) Q E"
  by (rule triple_observe) (use assms in \<open>simp_all add: stable_def\<close>)

lemma triple_get_object: "(\<And>sg. triple os (\<lambda>p. P p \<and> pr_object p = sg) (f sg) Q E) \<Longrightarrow> triple os P (io_bind get_object f) Q E"
  by (auto simp: triple_def io_bind_def get_object_def)

lemma triple_ex: "(\<And>s. triple os (P s) m Q E) \<Longrightarrow> triple os (\<lambda>p. \<exists>s. P s p) m Q E"
  unfolding triple_def by (metis (lifting))

end
