(* ===== verification/StagedReplacement.thy ===== *)
theory StagedReplacement
  imports FileIO
begin

text \<open>
  The replacement of a file (\<open>_StagedReplacement\<close> of \<open>changes/writer.py\<close>): a copy is staged in a private directory beside
  the file and edited there; then the file is renamed to a holding name, checked again, and the copy is renamed to its place. The
  checkpoints of the publication are the durable \<open>transition\<close> of the journal row. Other processes may do
  what they like in the parent directory at any call. The names that \<open>secrets\<close> draws are new, so the directories of
  other operations are not represented.
\<close>

section \<open>Evidence\<close>

definition imode :: "int \<Rightarrow> int" where
  "imode m = m mod 4096"

definition file_evidence :: "dir_entry \<Rightarrow> json" where
  "file_evidence e =
     JObj [(U ''device'', JInt (de_device e)), (U ''inode'', JInt (de_inode e)), (U ''mode'', JInt (imode (de_mode e))),
           (U ''size'', JInt (de_size e)), (U ''mtime_ns'', JInt (de_mtime e)), (U ''sha256'', JStr (de_sha e))]"

definition entry_evidence :: "dir_entry \<Rightarrow> json" where
  "entry_evidence e =
     JObj ([(U ''device'', JInt (de_device e)), (U ''inode'', JInt (de_inode e)), (U ''mode'', JInt (de_mode e)),
            (U ''size'', JInt (de_size e)), (U ''mtime_ns'', JInt (de_mtime e))]
           @ (if de_regular e then [(U ''file'', file_evidence e)] else []))"

definition dir_evidence :: "dir_id \<Rightarrow> json" where
  "dir_evidence d = JObj [(U ''device'', JInt (di_device d)), (U ''inode'', JInt (di_inode d)), (U ''mode'', JInt (di_mode d))]"

definition same_dir :: "json \<Rightarrow> dir_id \<Rightarrow> bool" where
  "same_dir r d \<longleftrightarrow> equals_int (jget r (U ''device'')) (di_device d) \<and> equals_int (jget r (U ''inode'')) (di_inode d)"

definition identity :: "dir_entry \<Rightarrow> int \<times> int" where
  "identity e = (de_device e, de_inode e)"

text \<open>The absolute path of the file, its name in the parent, and the library root, or \<open>JNull\<close>.\<close>

record target =
  tg_path :: ustr
  tg_name :: ustr
  tg_root :: json

definition guard_json :: "target \<Rightarrow> json \<Rightarrow> dir_entry \<Rightarrow> json" where
  "guard_json tg chain e =
     JObj [(U ''version'', JInt 1), (U ''path'', JStr (tg_path tg)), (U ''library_root'', tg_root tg),
           (U ''directories'', chain), (U ''file'', file_evidence e)]"

text \<open>\<open>_physical_file_guard\<close> of an open file, with the directory chain it was opened through.\<close>

definition physical_guard :: "target \<Rightarrow> json \<Rightarrow> int \<times> int \<Rightarrow> volume \<Rightarrow> io_error + json" where
  "physical_guard tg chain ident v =
     (case entry_at Parent (tg_name tg) v of
        None \<Rightarrow> Inl Missing
      | Some e \<Rightarrow>
          if \<not> de_regular e \<or> identity e \<noteq> ident
          then Inl (IoError (U ''physical file entry is not a stable regular file: '' @ tg_path tg))
          else if \<not> same_json (vo_chain v) chain
          then Inl (IoError (U ''physical file path or ancestry changed while verifying: '' @ tg_path tg))
          else Inr (guard_json tg chain e))"

definition capture_guard :: "target \<Rightarrow> volume \<Rightarrow> io_error + json" where
  "capture_guard tg v =
     (case entry_at Parent (tg_name tg) v of
        None \<Rightarrow> Inl Missing
      | Some e \<Rightarrow> physical_guard tg (vo_chain v) (identity e) v)"

section \<open>The object\<close>

text \<open>What the operating system hands out: names, directories and the new file.\<close>

record fresh =
  fr_token :: ustr
  fr_root :: dir_id
  fr_operation :: dir_id
  fr_file :: dir_entry

record staging =
  sg_chain :: json
  sg_source :: dir_entry
  sg_root_identity :: json
  sg_identity :: json
  sg_token :: ustr
  sg_open :: bool
  sg_temp :: bool
  sg_inode :: "int \<times> int"
  sg_staged_file :: json
  sg_published_guard :: json
  sg_published :: bool
  sg_uncertain :: bool
  sg_started :: bool
  sg_preserve :: bool

text \<open>A dictionary with text keys as a record; a key that is absent reads as \<open>JNull\<close>, as \<open>get\<close> does.\<close>

record transition =
  tr_version :: json
  tr_purpose :: json
  tr_phase :: json
  tr_path :: json
  tr_library_root :: json
  tr_parents :: json
  tr_source_guard :: json
  tr_root_name :: json
  tr_root_identity :: json
  tr_operation :: json
  tr_identity :: json
  tr_staged_name :: json
  tr_holding_name :: json
  tr_withdrawn_name :: json
  tr_staged_file :: json
  tr_held_entry :: json
  tr_compensated_entry :: json
  tr_published_guard :: json
  tr_source_restored :: json
  tr_restored_entry :: json
  tr_staged_entry :: json
  tr_withdrawn_entry :: json

type_synonym 'a staged_io = "(transition, staging, 'a) io"

definition private_root :: ustr where "private_root = U ''.muzilla-private''"
definition staged_name :: ustr where "staged_name = U ''staged''"
definition holding_name :: ustr where "holding_name = U ''original''"
definition withdrawn_name :: ustr where "withdrawn_name = U ''withdrawn''"

lemma private_names [simp]:
  "staged_name \<noteq> holding_name" "staged_name \<noteq> withdrawn_name" "holding_name \<noteq> withdrawn_name"
  "holding_name \<noteq> staged_name" "withdrawn_name \<noteq> staged_name" "withdrawn_name \<noteq> holding_name"
  by (simp_all add: staged_name_def holding_name_def withdrawn_name_def)

text \<open>What a caller gives: the reviewed guard or \<open>JNull\<close>, the purpose, the file, and what is new.\<close>

record request =
  rq_target :: target
  rq_guard :: json
  rq_purpose :: ustr
  rq_fresh :: fresh

definition transition_record :: "request \<Rightarrow> staging \<Rightarrow> ustr \<Rightarrow> transition" where
  "transition_record rq sg phase =
     \<lparr>tr_version = JInt 1, tr_purpose = JStr (rq_purpose rq), tr_phase = JStr phase, tr_path = JStr (tg_path (rq_target rq)),
      tr_library_root = tg_root (rq_target rq), tr_parents = sg_chain sg, tr_source_guard = rq_guard rq,
      tr_root_name = JStr private_root, tr_root_identity = sg_root_identity sg, tr_operation = JStr (sg_token sg),
      tr_identity = sg_identity sg, tr_staged_name = JStr staged_name, tr_holding_name = JStr holding_name,
      tr_withdrawn_name = JStr withdrawn_name, tr_staged_file = sg_staged_file sg, tr_held_entry = JNull,
      tr_compensated_entry = JNull, tr_published_guard = JNull, tr_source_restored = JNull, tr_restored_entry = JNull,
      tr_staged_entry = JNull, tr_withdrawn_entry = JNull\<rparr>"

definition settled_phase :: "ustr \<Rightarrow> bool" where
  "settled_phase phase \<longleftrightarrow> phase = U ''stage_ready'' \<or> phase = U ''compensated'' \<or> phase = U ''recovered''"

definition checkpoint_phase :: "request \<Rightarrow> ustr \<Rightarrow> (transition \<Rightarrow> transition) \<Rightarrow> unit staged_io" where
  "checkpoint_phase rq phase extra =
     io_bind get_object (\<lambda>sg.
     io_then (commit (extra (transition_record rq sg phase)))
       (set_object (\<lambda>sg. sg\<lparr>sg_started := \<not> settled_phase phase, sg_preserve := \<not> settled_phase phase \<or> phase = U ''published''\<rparr>)))"

section \<open>Staging\<close>

definition open_source :: "target \<Rightarrow> volume \<Rightarrow> io_error + dir_entry" where
  "open_source tg v =
     (case entry_at Parent (tg_name tg) v of
        None \<Rightarrow> Inl Missing
      | Some e \<Rightarrow> if de_regular e then Inr e else Inl (IoError (U ''source is not a regular file: '' @ tg_path tg)))"

definition verify_parent :: "request \<Rightarrow> unit staged_io" where
  "verify_parent rq =
     io_bind get_object (\<lambda>sg. observe (\<lambda>v.
       if same_json (vo_chain v) (sg_chain sg) then Inr ()
       else Inl (IoError (U ''source directory changed during write: '' @ tg_path (rq_target rq)))))"

definition verify_source_guard :: "request \<Rightarrow> unit staged_io" where
  "verify_source_guard rq =
     io_bind get_object (\<lambda>sg.
     io_bind (observe (physical_guard (rq_target rq) (sg_chain sg) (identity (sg_source sg)))) (\<lambda>actual.
       io_unless (same_json actual (rq_guard rq))
         (U ''physical file drift or identity change detected: '' @ tg_path (rq_target rq))))"

definition safe_dir :: "int \<Rightarrow> dir_id \<Rightarrow> bool" where
  "safe_dir device d \<longleftrightarrow> di_device d = device \<and> di_mode d = 448 \<and> di_owned d"

definition make_root :: "fresh \<Rightarrow> volume \<Rightarrow> io_error + volume" where
  "make_root fr v = (if vo_root v = None then Inr (v\<lparr>vo_root := Some (fr_root fr)\<rparr>) else Inl Exists)"

text \<open>\<open>fr_token\<close> is the first of the eight names that is free; when all are taken the call fails.\<close>

definition make_operation :: "fresh \<Rightarrow> volume \<Rightarrow> io_error + volume" where
  "make_operation fr v =
     (if map_option fst (vo_operation v) = Some (fr_token fr) then Inl Exists
      else Inr (v\<lparr>vo_operation := Some (fr_token fr, fr_operation fr), vo_private := []\<rparr>))"

definition open_root :: "volume \<Rightarrow> io_error + dir_id" where
  "open_root v =
     (case vo_root v of
        None \<Rightarrow> Inl Missing
      | Some d \<Rightarrow> if safe_dir (vo_device v) d then Inr d else Inl (IoError (U ''unsafe private replacement namespace'')))"

definition open_operation :: "dir_id \<Rightarrow> volume \<Rightarrow> io_error + dir_id" where
  "open_operation anchor v =
     (case vo_operation v of
        None \<Rightarrow> Inl Missing
      | Some (_, d) \<Rightarrow>
          if safe_dir (di_device anchor) d then Inr d else Inl (IoError (U ''unsafe per-operation replacement namespace'')))"

definition open_private_namespace :: "request \<Rightarrow> unit staged_io" where
  "open_private_namespace rq =
     (let fr = rq_fresh rq in
      io_then (io_catch (io_then (act (make_root fr)) sync) (\<lambda>e. if e = Exists then io_return () else io_throw e))
      (io_bind (observe open_root) (\<lambda>anchor.
       io_then (set_object (\<lambda>sg. sg\<lparr>sg_root_identity := dir_evidence anchor\<rparr>))
       (io_then (act (make_operation fr))
       (io_bind (observe (open_operation anchor)) (\<lambda>d.
        io_then (set_object (\<lambda>sg. sg\<lparr>sg_token := fr_token fr, sg_identity := dir_evidence d, sg_open := True\<rparr>)) sync))))))"

text \<open>The new file has mode \<open>0600\<close>; \<open>fr_file\<close> is what the system makes of it.\<close>

definition make_file :: "ustr \<Rightarrow> dir_entry \<Rightarrow> volume \<Rightarrow> io_error + volume" where
  "make_file name e v = (if entry_at Private name v \<noteq> None then Inl Exists else Inr (put_entry Private name e v))"

definition create_temp :: "request \<Rightarrow> unit staged_io" where
  "create_temp rq =
     io_then (act (make_file staged_name (fr_file (rq_fresh rq))))
     (io_then (set_object (\<lambda>sg. sg\<lparr>sg_temp := True, sg_inode := identity (fr_file (rq_fresh rq))\<rparr>)) sync)"

definition edit_staged :: "(dir_entry \<Rightarrow> io_error + dir_entry) \<Rightarrow> volume \<Rightarrow> io_error + volume" where
  "edit_staged f v =
     (case entry_at Private staged_name v of
        None \<Rightarrow> Inl (IoError (U ''staged file was replaced before publication''))
      | Some t \<Rightarrow> (case f t of Inl e \<Rightarrow> Inl e
          | Inr t1 \<Rightarrow> Inr (put_entry Private staged_name
              (t1\<lparr>de_device := de_device t, de_inode := de_inode t, de_regular := de_regular t\<rparr>) v)))"

text \<open>The contents behind the source descriptor: a file that has left both directories is as it was opened.\<close>

definition read_source :: "dir_entry \<Rightarrow> volume \<Rightarrow> dir_entry" where
  "read_source source v =
     (case find (\<lambda>e. identity e = identity source) (map snd (vo_parent v) @ map snd (vo_private v)) of
        None \<Rightarrow> source | Some e \<Rightarrow> e)"

definition with_attributes :: "dir_entry \<Rightarrow> dir_entry \<Rightarrow> dir_entry" where
  "with_attributes source t = t\<lparr>de_mode := de_mode t - imode (de_mode t) + imode (de_mode source), de_mtime := de_mtime source\<rparr>"

definition copy_source :: "unit staged_io" where
  "copy_source =
     io_bind get_object (\<lambda>sg.
     io_then (act (\<lambda>v. let s = read_source (sg_source sg) v in
         edit_staged (\<lambda>t. Inr (with_attributes (sg_source sg) (t\<lparr>de_size := de_size s, de_sha := de_sha s\<rparr>))) v))
       sync)"

definition stage :: "request \<Rightarrow> unit staged_io" where
  "stage rq =
     (let tg = rq_target rq in
      io_bind (observe (\<lambda>v. Inr (vo_chain v))) (\<lambda>chain.
      io_bind (observe (open_source tg)) (\<lambda>source.
      io_then (set_object (\<lambda>sg. sg\<lparr>sg_chain := chain, sg_source := source\<rparr>))
      (io_then (observe (\<lambda>v. if entry_at Parent (tg_name tg @ U ''.muzilla.tmp'') v = None then Inr () else Inl Exists))
      (io_then (verify_parent rq)
      (io_then (open_private_namespace rq)
      (io_then (create_temp rq)
      (io_then copy_source
      (if rq_guard rq = JNull then io_return () else verify_source_guard rq)))))))))"

section \<open>Closing\<close>

definition remove_operation :: "volume \<Rightarrow> io_error + volume" where
  "remove_operation v =
     (if vo_private v \<noteq> [] then Inl (IoError (U ''Directory not empty'')) else Inr (v\<lparr>vo_operation := None\<rparr>))"

definition remove_empty_operation_directory :: "unit staged_io" where
  "remove_empty_operation_directory =
     io_catch
       (io_bind (observe (\<lambda>v. Inr (vo_private v = []))) (\<lambda>empty.
          if \<not> empty then io_return ()
          else io_bind get_object (\<lambda>sg.
            io_bind (observe (\<lambda>v. case vo_operation v of None \<Rightarrow> Inl Missing | Some (name, d) \<Rightarrow> Inr (same_dir (sg_identity sg) d))) (\<lambda>same.
              if \<not> same then io_return () else io_then (act remove_operation) sync))))
       (\<lambda>_. io_return ())"

definition close_staged :: "unit staged_io" where
  "close_staged =
     io_bind get_object (\<lambda>sg.
       if sg_preserve sg \<or> sg_published sg \<or> \<not> sg_open sg then io_return ()
       else io_then
         (if sg_temp sg then
            io_then
              (io_catch
                (io_bind (observe (\<lambda>v. case entry_at Private staged_name v of
                     None \<Rightarrow> Inl Missing | Some e \<Rightarrow> Inr (identity e = sg_inode sg))) (\<lambda>mine.
                  if mine then io_then (act (unlink_entry Private staged_name)) sync else io_return ()))
                (\<lambda>e. if e = Missing then io_return () else io_throw e))
              (set_object (\<lambda>sg. sg\<lparr>sg_temp := False\<rparr>))
          else io_return ())
         remove_empty_operation_directory)"

text \<open>The object and the process before the first call; the fields without a value are set before they are read.\<close>

definition no_entry :: dir_entry where
  "no_entry = \<lparr>de_device = 0, de_inode = 0, de_mode = 0, de_size = 0, de_mtime = 0, de_regular = False, de_sha = []\<rparr>"

definition new_staging :: staging where
  "new_staging =
     \<lparr>sg_chain = JNull, sg_source = no_entry, sg_root_identity = JNull, sg_identity = JNull, sg_token = [], sg_open = False, sg_temp = False,
      sg_inode = (0, 0), sg_staged_file = JNull, sg_published_guard = JNull, sg_published = False, sg_uncertain = False,
      sg_started = False, sg_preserve = False\<rparr>"

definition start_replacement :: "volume \<Rightarrow> (transition, staging) proc" where
  "start_replacement v = \<lparr>pr_tick = 0, pr_volume = v, pr_journal = None, pr_object = new_staging, pr_log = []\<rparr>"

end
