(* ===== verification/PublishFile.thy ===== *)
theory PublishFile
  imports StagedReplacement
begin

text \<open>
  The publication of a staged file (\<open>_StagedReplacement.publish\<close> and the statements around it in \<open>write_tag_fields\<close> and
  \<open>_restore_from_before_blob\<close>).
\<close>

section \<open>Before the displacement\<close>

definition staged_evidence :: "volume \<Rightarrow> io_error + json" where
  "staged_evidence v =
     (case entry_at Private staged_name v of
        None \<Rightarrow> Inl Missing
      | Some e \<Rightarrow> if de_regular e then Inr (file_evidence e) else Inl (IoError (U ''replacement entry is not a regular file'')))"

definition check_staged :: "ustr \<Rightarrow> unit staged_io" where
  "check_staged e =
     io_bind get_object (\<lambda>sg. observe (\<lambda>v.
       (case entry_at Private staged_name v of
          None \<Rightarrow> Inl Missing
        | Some t \<Rightarrow> if de_regular t \<and> identity t = sg_inode sg then Inr () else Inl (IoError e))))"

definition verify_for_publish :: "request \<Rightarrow> unit staged_io" where
  "verify_for_publish rq =
     io_then (verify_parent rq)
     (io_then (io_bind get_object (\<lambda>sg. observe (\<lambda>v.
        (case entry_at Parent (tg_name (rq_target rq)) v of
           None \<Rightarrow> Inl Missing
         | Some e \<Rightarrow> if identity e = identity (sg_source sg) then Inr ()
             else Inl (IoError (U ''source path was replaced while staging: '' @ tg_path (rq_target rq)))))))
     (io_then (check_staged (U ''staged file was replaced before publication: '' @ tg_path (rq_target rq)))
     (if rq_guard rq = JNull then io_return () else verify_source_guard rq)))"

definition prepare :: "request \<Rightarrow> unit staged_io" where
  "prepare rq =
     io_bind get_object (\<lambda>sg.
     io_then (act (edit_staged (\<lambda>t. Inr (with_attributes (sg_source sg) t))))
     (io_then sync
     (io_bind (observe staged_evidence) (\<lambda>ev.
      io_then (set_object (\<lambda>sg. sg\<lparr>sg_staged_file := ev\<rparr>))
      (io_then (check_staged (U ''staged replacement changed before publication''))
      (io_then sync
      (io_then (verify_for_publish rq)
      (io_then (checkpoint_phase rq (U ''stage_ready'') id)
      (checkpoint_phase rq (U ''displace_intent'') id)))))))))"

section \<open>Compensation\<close>

definition entry_identity :: "place \<Rightarrow> ustr \<Rightarrow> json staged_io" where
  "entry_identity pl name =
     observe (\<lambda>v. case entry_at pl name v of
       None \<Rightarrow> Inl Missing | Some e \<Rightarrow> Inr (entry_evidence e))"

definition same_entry :: "json \<Rightarrow> json \<Rightarrow> bool" where
  "same_entry a b \<longleftrightarrow>
     list_all (\<lambda>k. same_json (jget a k) (jget b k)) [U ''device'', U ''inode'', U ''mode'', U ''size'', U ''mtime_ns'']"

definition held_matches :: "request \<Rightarrow> bool staged_io" where
  "held_matches rq =
     io_catch
       (io_bind get_object (\<lambda>sg.
        io_bind (entry_identity Private holding_name) (\<lambda>ev.
          let expected = (if rq_guard rq \<noteq> JNull then jget (rq_guard rq) (U ''file'') else file_evidence (sg_source sg))
          in io_return (is_dict expected \<and> same_json (jget ev (U ''file'')) expected))))
       (\<lambda>_. io_return False)"

definition uncertain :: "unit staged_io" where
  "uncertain = set_object (\<lambda>sg. sg\<lparr>sg_uncertain := True\<rparr>)"

definition keep_private :: "unit staged_io" where
  "keep_private = set_object (\<lambda>sg. sg\<lparr>sg_uncertain := True, sg_preserve := True\<rparr>)"

definition try_restore_holding :: "request \<Rightarrow> bool staged_io" where
  "try_restore_holding rq =
     io_catch
       (io_bind (entry_identity Private holding_name) (\<lambda>held.
        io_then (checkpoint_phase rq (U ''compensation_intent'') (\<lambda>t. t\<lparr>tr_held_entry := held\<rparr>))
        (io_then (act (rename_entry Private holding_name Parent (tg_name (rq_target rq))))
        (io_then sync
        (io_then sync
        (io_bind (entry_identity Parent (tg_name (rq_target rq))) (\<lambda>restored.
          if same_entry restored held then
            io_then (checkpoint_phase rq (U ''compensated'') (\<lambda>t. t\<lparr>tr_compensated_entry := restored\<rparr>))
            (io_then (set_object (\<lambda>sg. sg\<lparr>sg_uncertain := False, sg_preserve := False, sg_started := False\<rparr>))
              (io_return True))
          else io_then uncertain (io_return False))))))))
       (\<lambda>_. io_then uncertain (io_then (checkpoint_phase rq (U ''compensation_blocked'') id) (io_return False)))"

section \<open>Publication\<close>

definition on_error :: "'a staged_io \<Rightarrow> unit staged_io \<Rightarrow> 'a staged_io" where
  "on_error m h = io_catch m (\<lambda>e. io_then h (io_throw e))"

definition displace :: "request \<Rightarrow> json staged_io" where
  "displace rq =
     io_then (set_object (\<lambda>sg. sg\<lparr>sg_started := True, sg_preserve := True\<rparr>))
     (io_then (on_error (io_then (act (rename_entry Parent (tg_name (rq_target rq)) Private holding_name)) (io_then sync sync)) uncertain)
     (io_then uncertain
     (io_bind (entry_identity Private holding_name) (\<lambda>held.
      io_then (checkpoint_phase rq (U ''displaced'') (\<lambda>t. t\<lparr>tr_held_entry := held\<rparr>))
      (io_return held)))))"

definition refuse_foreign :: "request \<Rightarrow> unit staged_io" where
  "refuse_foreign rq =
     io_bind (try_restore_holding rq) (\<lambda>restored.
       if restored then io_raise (U ''source file changed immediately before quarantine; foreign entry restored'')
       else io_then keep_private (io_raise (U ''recovery_required: quarantined source was not the reviewed file'')))"

definition install :: "request \<Rightarrow> unit staged_io" where
  "install rq =
     on_error
       (io_then (act (rename_entry Private staged_name Parent (tg_name (rq_target rq))))
         (io_then (set_object (\<lambda>sg. sg\<lparr>sg_temp := False\<rparr>)) (io_then sync sync)))
       (io_then keep_private (io_bind (try_restore_holding rq) (\<lambda>_. io_return ())))"

definition capture_published :: "request \<Rightarrow> json staged_io" where
  "capture_published rq =
     io_bind get_object (\<lambda>sg. observe (physical_guard (rq_target rq) (sg_chain sg) (sg_inode sg)))"

definition confirm :: "request \<Rightarrow> unit staged_io" where
  "confirm rq =
     on_error
       (io_bind (capture_published rq) (\<lambda>guard.
        io_then (set_object (\<lambda>sg. sg\<lparr>sg_published_guard := guard\<rparr>))
        (io_bind get_object (\<lambda>sg.
         io_then (io_unless (same_json (jget guard (U ''file'')) (sg_staged_file sg))
             (U ''published entry does not match the durably staged replacement''))
         (io_then (checkpoint_phase rq (U ''published'') (\<lambda>t. t\<lparr>tr_published_guard := guard\<rparr>))
           (set_object (\<lambda>sg. sg\<lparr>sg_uncertain := False\<rparr>)))))))
       keep_private"

definition publish :: "request \<Rightarrow> unit staged_io" where
  "publish rq =
     io_then (prepare rq)
     (io_bind (displace rq) (\<lambda>held.
      io_bind (held_matches rq) (\<lambda>reviewed.
      io_then (if reviewed then io_return () else refuse_foreign rq)
      (io_then (checkpoint_phase rq (U ''displacement_verified'') (\<lambda>t. t\<lparr>tr_held_entry := held\<rparr>))
      (io_then (checkpoint_phase rq (U ''publication_intent'') id)
      (io_then (install rq)
      (io_then (set_object (\<lambda>sg. sg\<lparr>sg_published := True, sg_uncertain := True\<rparr>))
      (confirm rq))))))))"

text \<open>
  The whole replacement, as both callers make it: stage, edit, publish, and close in any case. \<open>edit\<close> is what the
  tag library makes of the staged file.
\<close>

definition replace_file :: "request \<Rightarrow> (dir_entry \<Rightarrow> io_error + dir_entry) \<Rightarrow> json staged_io" where
  "replace_file rq edit =
     io_then (io_catch (stage rq) (\<lambda>e. io_then close_staged (io_throw e)))
       (io_finally (io_then (act (edit_staged edit)) (io_then (publish rq) (capture_published rq))) close_staged)"

text \<open>\<open>recovery_required\<close> of the handler in \<open>write_tag_fields\<close>.\<close>

definition needs_recovery_after :: "staging \<Rightarrow> bool" where
  "needs_recovery_after sg \<longleftrightarrow> sg_started sg \<or> sg_published sg \<or> sg_uncertain sg"

end
