(* ===== verification/PublicationRecovery.thy ===== *)
theory PublicationRecovery
  imports PublishFile
begin

text \<open>
  What happens to a replacement after a crash or a durable outcome (\<open>recover_publication_transition\<close>,
  \<open>finalize_publication_transition\<close> and \<open>cleanup_recovered_publication_transition\<close> of \<open>changes/writer.py\<close>): the file that was
  renamed away goes back to its place without overwriting anything, and what the operation made is removed.
\<close>

type_synonym ('o, 'a) recovery = "(transition, 'o, 'a) io"

section \<open>The private directory\<close>

definition safe_name :: "json \<Rightarrow> ('o, ustr) recovery" where
  "safe_name v =
     (if \<not> is_str v \<or> str_value v \<in> {[], U ''.'', U ''..''} \<or> 47 \<in> set (str_value v) \<or> 92 \<in> set (str_value v)
      then io_raise (U ''replacement journal contains an invalid private entry name'') else io_return (str_value v))"

definition compatible_record :: "target \<Rightarrow> transition \<Rightarrow> bool" where
  "compatible_record tg tr \<longleftrightarrow>
     equals_int (tr_version tr) 1 \<and> tr_path tr = JStr (tg_path tg) \<and> tr_library_root tr = tg_root tg
     \<and> is_list (tr_parents tr) \<and> tr_root_name tr = JStr private_root"

definition recorded_root :: "transition \<Rightarrow> volume \<Rightarrow> io_error + dir_id" where
  "recorded_root tr v =
     (case vo_root v of
        None \<Rightarrow> Inl Missing
      | Some d \<Rightarrow>
          if safe_dir (vo_device v) d \<and> same_dir (tr_root_identity tr) d then Inr d
          else Inl (IoError (U ''private replacement anchor identity changed before recovery'')))"

definition recorded_operation :: "transition \<Rightarrow> dir_id \<Rightarrow> ustr \<Rightarrow> volume \<Rightarrow> io_error + dir_id" where
  "recorded_operation tr anchor name v =
     (case vo_operation v of
        None \<Rightarrow> Inl Missing
      | Some (n, d) \<Rightarrow>
          if n \<noteq> name then Inl Missing
          else if di_device d = di_device anchor \<and> same_dir (tr_identity tr) d \<and> di_mode d = 448 then Inr d
          else Inl (IoError (U ''per-operation replacement namespace identity changed before recovery'')))"

text \<open>The directory of the operation and the names of the staged and the held entry.\<close>

definition open_namespace :: "target \<Rightarrow> transition \<Rightarrow> ('o, dir_id \<times> ustr \<times> ustr) recovery" where
  "open_namespace tg tr =
     io_then (io_unless (compatible_record tg tr) (U ''replacement recovery evidence is missing or incompatible''))
     (io_bind (observe (\<lambda>v. Inr (vo_chain v))) (\<lambda>chain.
      io_then (io_unless (same_json chain (tr_parents tr)) (U ''replacement source ancestry changed before recovery''))
      (io_then (io_unless (is_dict (tr_root_identity tr) \<and> is_dict (tr_identity tr))
          (U ''replacement private namespace identity is unavailable''))
      (io_bind (observe (recorded_root tr)) (\<lambda>anchor.
       io_bind (safe_name (tr_operation tr)) (\<lambda>name.
       io_bind (observe (recorded_operation tr anchor name)) (\<lambda>d.
       io_bind (safe_name (tr_staged_name tr)) (\<lambda>staged.
       io_bind (safe_name (tr_holding_name tr)) (\<lambda>holding.
         io_return (d, staged, holding))))))))))"

definition withdrawn_of :: "transition \<Rightarrow> ('o, ustr option) recovery" where
  "withdrawn_of tr =
     (if is_str (tr_withdrawn_name tr) then io_bind (safe_name (tr_withdrawn_name tr)) (\<lambda>n. io_return (Some n)) else io_return None)"

definition evidence_at :: "place \<Rightarrow> ustr \<Rightarrow> ('o, json option) recovery" where
  "evidence_at pl name = observe (\<lambda>v. Inr (map_option entry_evidence (entry_at pl name v)))"

definition file_of :: "json option \<Rightarrow> json" where
  "file_of ev = (case ev of None \<Rightarrow> JNull | Some e \<Rightarrow> jget e (U ''file''))"

section \<open>Recovery\<close>

definition checkpoint_recovery ::
  "transition \<Rightarrow> ustr \<Rightarrow> (transition \<Rightarrow> transition) \<Rightarrow> ('o, transition) recovery" where
  "checkpoint_recovery tr phase extra =
     (let t = extra (tr\<lparr>tr_phase := JStr phase\<rparr>) in io_then (commit t) (io_return t))"

definition source_file :: "transition \<Rightarrow> json" where
  "source_file tr = (if is_dict (tr_source_guard tr) then jget (tr_source_guard tr) (U ''file'') else JNull)"

definition has_evidence :: "target \<Rightarrow> transition \<Rightarrow> bool" where
  "has_evidence tg tr \<longleftrightarrow>
     is_dict (tr_source_guard tr) \<and> equals_int (jget (tr_source_guard tr) (U ''version'')) 1
     \<and> jget (tr_source_guard tr) (U ''path'') = JStr (tg_path tg)
     \<and> jget (tr_source_guard tr) (U ''library_root'') = tg_root tg
     \<and> same_json (jget (tr_source_guard tr) (U ''directories'')) (tr_parents tr)
     \<and> is_dict (source_file tr) \<and> is_dict (tr_staged_file tr)"

definition recorded_as :: "json option \<Rightarrow> json \<Rightarrow> bool" where
  "recorded_as ev r \<longleftrightarrow> is_dict r \<and> (case ev of None \<Rightarrow> False | Some e \<Rightarrow> same_entry e r)"

text \<open>The held entry goes back to the free name.\<close>

definition restore_held :: "target \<Rightarrow> transition \<Rightarrow> ustr \<Rightarrow> json \<Rightarrow> ('o, transition) recovery" where
  "restore_held tg tr holding held =
     io_bind (checkpoint_recovery tr (U ''recovery_restore_intent'') (\<lambda>t. t\<lparr>tr_held_entry := held\<rparr>)) (\<lambda>_.
     io_then (act (rename_entry Private holding Parent (tg_name tg)))
     (io_then sync (io_then sync
     (io_bind (evidence_at Parent (tg_name tg)) (\<lambda>restored.
      io_then (io_unless (case restored of None \<Rightarrow> False | Some r \<Rightarrow> same_entry r held)
          (U ''quarantined replacement changed while restoring it''))
      (checkpoint_recovery tr (U ''recovered'')
         (\<lambda>t. t\<lparr>tr_source_restored := JBool (same_json (file_of restored) (source_file tr)),
                tr_restored_entry := (case restored of None \<Rightarrow> JNull | Some r \<Rightarrow> r)\<rparr>)))))))"

text \<open>The published file is withdrawn first.\<close>

definition withdraw_published :: "target \<Rightarrow> transition \<Rightarrow> ustr \<Rightarrow> ustr \<Rightarrow> json \<Rightarrow> ('o, transition) recovery" where
  "withdraw_published tg tr holding withdrawn source =
     io_bind (checkpoint_recovery tr (U ''recovery_withdraw_intent'') (\<lambda>t. t\<lparr>tr_staged_entry := source\<rparr>)) (\<lambda>_.
     io_then (act (rename_entry Parent (tg_name tg) Private withdrawn))
     (io_then sync (io_then sync
     (io_bind (evidence_at Private withdrawn) (\<lambda>w.
      io_then (io_unless (w \<noteq> None \<and> same_json (file_of w) (tr_staged_file tr))
          (U ''published entry was not the staged file during recovery withdrawal''))
      (let wj = (case w of None \<Rightarrow> JNull | Some e \<Rightarrow> e) in
       io_bind (checkpoint_recovery tr (U ''recovery_withdrawn'') (\<lambda>t. t\<lparr>tr_withdrawn_entry := wj\<rparr>)) (\<lambda>_.
       io_then (act (rename_entry Private holding Parent (tg_name tg)))
       (io_then sync (io_then sync
       (io_bind (evidence_at Parent (tg_name tg)) (\<lambda>restored.
        io_then (io_unless (restored \<noteq> None \<and> same_json (file_of restored) (source_file tr))
            (U ''verified original could not be restored after publication withdrawal''))
        (checkpoint_recovery tr (U ''recovered'')
           (\<lambda>t. t\<lparr>tr_source_restored := JBool True, tr_withdrawn_entry := wj\<rparr>)))))))))))))"

definition settle_entries ::
  "target \<Rightarrow> transition \<Rightarrow> ustr \<Rightarrow> ustr option \<Rightarrow> json option \<Rightarrow> json option \<Rightarrow> json option \<Rightarrow> ('o, transition) recovery" where
  "settle_entries tg tr holding withdrawn source held wentry =
     (let original = source_file tr; restored = same_json (file_of source) original in
      if tr_phase tr = JStr (U ''recovered'') \<and> held = None \<and> recorded_as source (tr_restored_entry tr) then io_return tr
      else if held = None \<and> tr_phase tr \<in> {JStr (U ''compensated''), JStr (U ''compensation_intent'')}
        \<and> (recorded_as source (tr_compensated_entry tr) \<or> recorded_as source (tr_held_entry tr))
      then checkpoint_recovery tr (U ''recovered'')
        (\<lambda>t. t\<lparr>tr_source_restored := JBool restored, tr_restored_entry := (case source of None \<Rightarrow> JNull | Some e \<Rightarrow> e)\<rparr>)
      else if restored \<and> held = None
      then checkpoint_recovery tr (U ''recovered'') (\<lambda>t. t\<lparr>tr_source_restored := JBool True\<rparr>)
      else case (source, held, withdrawn) of
        (None, Some h, _) \<Rightarrow> restore_held tg tr holding h
      | (Some s, Some h, Some wname) \<Rightarrow>
          if same_json (file_of source) (tr_staged_file tr) \<and> same_json (file_of held) original
          then (if wentry \<noteq> None then io_raise (U ''replacement recovery holding slot is already occupied'')
                else withdraw_published tg tr holding wname s)
          else io_raise (U ''recovery_required: replacement entries cannot be reconciled without overwriting a live entry'')
      | _ \<Rightarrow> io_raise (U ''recovery_required: replacement entries cannot be reconciled without overwriting a live entry''))"

definition recover_publication :: "target \<Rightarrow> transition \<Rightarrow> ('o, transition) recovery" where
  "recover_publication tg tr =
     io_bind (open_namespace tg tr) (\<lambda>(d, staged, holding).
     io_bind (withdrawn_of tr) (\<lambda>withdrawn.
     io_then (io_unless (has_evidence tg tr) (U ''replacement recovery lacks expected source or staged content evidence''))
     (io_bind (evidence_at Parent (tg_name tg)) (\<lambda>source.
      io_bind (evidence_at Private holding) (\<lambda>held.
      io_bind (case withdrawn of None \<Rightarrow> io_return None | Some n \<Rightarrow> evidence_at Private n) (\<lambda>wentry.
        settle_entries tg tr holding withdrawn source held wentry))))))"

section \<open>Removal\<close>

definition drop_operation :: "transition \<Rightarrow> dir_id \<Rightarrow> ('o, unit) recovery" where
  "drop_operation tr d =
     io_bind (safe_name (tr_operation tr)) (\<lambda>name.
     io_bind (observe (\<lambda>v. Inr (vo_private v = []))) (\<lambda>empty.
       if \<not> empty then io_return ()
       else io_bind (observe (\<lambda>v. case vo_operation v of
           Some (n, d') \<Rightarrow> if n = name then Inr (di_device d' = di_device d \<and> di_inode d' = di_inode d) else Inl Missing
         | None \<Rightarrow> Inl Missing)) (\<lambda>same.
         if same then io_then (act remove_operation) sync else io_return ())))"

definition drop_if_same :: "ustr \<Rightarrow> json \<Rightarrow> ('o, bool) recovery" where
  "drop_if_same name expected =
     io_bind (evidence_at Private name) (\<lambda>ev.
       if ev = None then io_return True
       else if \<not> same_json (file_of ev) expected then io_return False
       else io_then (act (unlink_entry Private name)) (io_return True))"

definition finalize_publication :: "target \<Rightarrow> transition \<Rightarrow> ('o, bool) recovery" where
  "finalize_publication tg tr =
     (if tr_phase tr \<noteq> JStr (U ''complete'') then io_return False
      else io_catch
        (io_bind (open_namespace tg tr) (\<lambda>(d, staged, holding).
           if \<not> is_dict (source_file tr) \<or> \<not> is_dict (tr_published_guard tr) then io_return False
           else io_bind (observe (capture_guard tg)) (\<lambda>actual.
             if \<not> same_json actual (tr_published_guard tr) then io_return False
             else io_bind (drop_if_same holding (source_file tr)) (\<lambda>b1.
               if \<not> b1 then io_return False
               else io_bind (drop_if_same staged (tr_staged_file tr)) (\<lambda>b2.
                 if \<not> b2 then io_return False
                 else io_then sync (io_then (drop_operation tr d) (io_return True)))))))
        (\<lambda>_. io_return False))"

fun drop_all :: "ustr list \<Rightarrow> json \<Rightarrow> ('o, bool) recovery" where
  "drop_all [] expected = io_return True"
| "drop_all (n # ns) expected = io_bind (drop_if_same n expected) (\<lambda>b. if b then drop_all ns expected else io_return False)"

text \<open>Without recorded evidence of the staged file nothing is removed.\<close>

definition cleanup_recovered :: "target \<Rightarrow> transition \<Rightarrow> ('o, bool) recovery" where
  "cleanup_recovered tg tr =
     (if tr_phase tr \<noteq> JStr (U ''recovered'') then io_return False
      else io_bind (io_catch (io_bind (open_namespace tg tr) (\<lambda>x. io_return (Some x))) (\<lambda>_. io_return None)) (\<lambda>ns.
        case ns of
          None \<Rightarrow> io_return False
        | Some (d, staged, holding) \<Rightarrow>
            io_bind (withdrawn_of tr) (\<lambda>withdrawn.
            io_catch
              (io_bind (evidence_at Private holding) (\<lambda>held.
                 if held \<noteq> None then io_return False
                 else io_bind (drop_all (staged # (case withdrawn of None \<Rightarrow> [] | Some n \<Rightarrow> [n]))
                        (if is_dict (tr_staged_file tr) then tr_staged_file tr else JBool False)) (\<lambda>b.
                   if \<not> b then io_return False
                   else io_then sync (io_then (drop_operation tr d) (io_return True)))))
              (\<lambda>_. io_return False))))"

end
