(* ===== verification/PublicationFacts.thy ===== *)
theory PublicationFacts
  imports PublicationRecovery
begin

text \<open>
  Facts about evidence and about the states that a publication goes through. \<open>in_flight\<close> says that a transition is the record of
  a replacement of the file \<open>o\<close> by the file \<open>s\<close> whose entries are at one of the three places where the protocol
  leaves them.
\<close>

section \<open>Evidence\<close>

lemma same_json_refl [simp]: "same_json a a"
  by (simp add: same_json_def)

lemma canon_evidence:
  "canon (file_evidence e) = JObj [(U ''device'', JInt (de_device e)), (U ''inode'', JInt (de_inode e)),
     (U ''mode'', JInt (imode (de_mode e))), (U ''mtime_ns'', JInt (de_mtime e)), (U ''sha256'', JStr (de_sha e)),
     (U ''size'', JInt (de_size e))]"
  by (simp add: file_evidence_def)

lemma same_file:
  "same_json (file_evidence a) (file_evidence b) \<longleftrightarrow>
     identity a = identity b \<and> imode (de_mode a) = imode (de_mode b) \<and> de_size a = de_size b \<and> de_mtime a = de_mtime b
     \<and> de_sha a = de_sha b"
  by (auto simp: same_json_def canon_evidence identity_def simp del: U_Cons U_Nil)

lemma other_file: "identity a \<noteq> identity b \<Longrightarrow> \<not> same_json (file_evidence a) (file_evidence b)"
  by (simp add: same_file)

lemma evidence_file [simp]: "jget (entry_evidence e) (U ''file'') = (if de_regular e then file_evidence e else JNull)"
  by (simp add: entry_evidence_def jget_def)

lemma evidence_dict [simp]: "is_dict (entry_evidence e)" "is_dict (file_evidence e)" "is_dict (guard_json tg c e)" "is_dict (dir_evidence d)"
  "file_evidence e \<noteq> JNull" "guard_json tg c e \<noteq> JNull"
  by (simp_all add: entry_evidence_def file_evidence_def guard_json_def dir_evidence_def)

lemma guard_fields [simp]:
  "jget (guard_json tg c e) (U ''version'') = JInt 1" "jget (guard_json tg c e) (U ''path'') = JStr (tg_path tg)"
  "jget (guard_json tg c e) (U ''library_root'') = tg_root tg" "jget (guard_json tg c e) (U ''directories'') = c"
  "jget (guard_json tg c e) (U ''file'') = file_evidence e"
  by (simp_all add: guard_json_def jget_def)

lemma same_entry_refl [simp]: "same_entry e e"
  by (simp add: same_entry_def)

lemma dir_fields:
  "jget (dir_evidence d) (U ''device'') = JInt (di_device d)" "jget (dir_evidence d) (U ''inode'') = JInt (di_inode d)"
  by (simp_all add: dir_evidence_def jget_def)

lemma same_dir_evidence [simp]: "same_dir (dir_evidence d) d"
  by (simp add: same_dir_def dir_fields equals_int_def del: U_Cons U_Nil)

lemma file_of_simps [simp]: "file_of None = JNull" "file_of (Some (entry_evidence e)) = (if de_regular e then file_evidence e else JNull)"
  by (simp_all add: file_of_def del: U_Cons U_Nil)

lemma null_evidence [simp]: "\<not> same_json JNull (file_evidence e)" "\<not> same_json (file_evidence e) JNull"
  by (simp_all add: same_json_def canon_evidence)

text \<open>\<open>IoError\<close> and \<open>Exists\<close> aside, renaming moves one entry.\<close>

lemma rename_entry_Inr:
  "rename_entry a x b y v = Inr v1 \<longleftrightarrow> (\<exists>e. entry_at a x v = Some e \<and> entry_at b y v = None \<and> v1 = put_entry b y e (drop_entry a x v))"
  by (auto simp: rename_entry_def split: option.splits)

section \<open>States of a publication\<close>

definition layout :: "target \<Rightarrow> dir_entry \<Rightarrow> dir_entry \<Rightarrow> volume \<Rightarrow> bool" where
  "layout tg old s v \<longleftrightarrow>
     (let source = entry_at Parent (tg_name tg) v; held = entry_at Private holding_name v in
      (source = Some old \<and> held = None) \<or> (source = None \<and> held = Some old)
      \<or> (source = Some s \<and> held = Some old \<and> entry_at Private withdrawn_name v = None))"

definition good_token :: "json \<Rightarrow> bool" where
  "good_token v \<longleftrightarrow> is_str v \<and> str_value v \<notin> {[], U ''.'', U ''..''} \<and> 47 \<notin> set (str_value v) \<and> 92 \<notin> set (str_value v)"

definition record_ok :: "target \<Rightarrow> dir_entry \<Rightarrow> dir_entry \<Rightarrow> transition \<Rightarrow> bool" where
  "record_ok tg old s tr \<longleftrightarrow>
     compatible_record tg tr \<and> tr_source_guard tr = guard_json tg (tr_parents tr) old \<and> tr_staged_file tr = file_evidence s
     \<and> tr_staged_name tr = JStr staged_name \<and> tr_holding_name tr = JStr holding_name \<and> tr_withdrawn_name tr = JStr withdrawn_name
     \<and> good_token (tr_operation tr) \<and> is_dict (tr_root_identity tr) \<and> is_dict (tr_identity tr)"

definition namespace_ok :: "transition \<Rightarrow> volume \<Rightarrow> bool" where
  "namespace_ok tr v \<longleftrightarrow>
     vo_chain v = tr_parents tr
     \<and> (\<exists>r d. vo_root v = Some r \<and> safe_dir (vo_device v) r \<and> same_dir (tr_root_identity tr) r
          \<and> vo_operation v = Some (str_value (tr_operation tr), d) \<and> di_device d = di_device r \<and> same_dir (tr_identity tr) d
          \<and> di_mode d = 448)"

definition in_flight :: "target \<Rightarrow> dir_entry \<Rightarrow> dir_entry \<Rightarrow> transition \<Rightarrow> volume \<Rightarrow> bool" where
  "in_flight tg old s tr v \<longleftrightarrow>
     record_ok tg old s tr \<and> namespace_ok tr v \<and> de_regular old \<and> de_regular s \<and> identity s \<noteq> identity old \<and> layout tg old s v"

lemma compatible_updates [simp]:
  "compatible_record tg (tr\<lparr>tr_phase := a\<rparr>) = compatible_record tg tr"
  "compatible_record tg (tr\<lparr>tr_held_entry := a\<rparr>) = compatible_record tg tr"
  "compatible_record tg (tr\<lparr>tr_compensated_entry := a\<rparr>) = compatible_record tg tr"
  "compatible_record tg (tr\<lparr>tr_published_guard := a\<rparr>) = compatible_record tg tr"
  "compatible_record tg (tr\<lparr>tr_source_restored := a\<rparr>) = compatible_record tg tr"
  "compatible_record tg (tr\<lparr>tr_restored_entry := a\<rparr>) = compatible_record tg tr"
  "compatible_record tg (tr\<lparr>tr_staged_entry := a\<rparr>) = compatible_record tg tr"
  "compatible_record tg (tr\<lparr>tr_withdrawn_entry := a\<rparr>) = compatible_record tg tr"
  by (simp_all add: compatible_record_def)

lemma in_flight_updates [simp]:
  "in_flight tg old s (tr\<lparr>tr_phase := a\<rparr>) v = in_flight tg old s tr v"
  "in_flight tg old s (tr\<lparr>tr_held_entry := a\<rparr>) v = in_flight tg old s tr v"
  "in_flight tg old s (tr\<lparr>tr_compensated_entry := a\<rparr>) v = in_flight tg old s tr v"
  "in_flight tg old s (tr\<lparr>tr_published_guard := a\<rparr>) v = in_flight tg old s tr v"
  "in_flight tg old s (tr\<lparr>tr_source_restored := a\<rparr>) v = in_flight tg old s tr v"
  "in_flight tg old s (tr\<lparr>tr_restored_entry := a\<rparr>) v = in_flight tg old s tr v"
  "in_flight tg old s (tr\<lparr>tr_staged_entry := a\<rparr>) v = in_flight tg old s tr v"
  "in_flight tg old s (tr\<lparr>tr_withdrawn_entry := a\<rparr>) v = in_flight tg old s tr v"
  by (simp_all add: in_flight_def record_ok_def namespace_ok_def)

lemma namespace_frame [simp]:
  "namespace_ok tr (put_entry pl n e v) = namespace_ok tr v" "namespace_ok tr (drop_entry pl n v) = namespace_ok tr v"
  by (simp_all add: namespace_ok_def)

text \<open>The two renames of the protocol, and the two of the recovery.\<close>

lemma in_flight_layout:
  "in_flight tg old s tr v \<Longrightarrow> layout tg old s w \<Longrightarrow> namespace_ok tr w \<Longrightarrow> in_flight tg old s tr w"
  by (simp add: in_flight_def)

lemma in_flight_cases:
  assumes "in_flight tg old s tr v"
  obtains "entry_at Parent (tg_name tg) v = Some old" "entry_at Private holding_name v = None"
  | "entry_at Parent (tg_name tg) v = None" "entry_at Private holding_name v = Some old"
  | "entry_at Parent (tg_name tg) v = Some s" "entry_at Private holding_name v = Some old" "entry_at Private withdrawn_name v = None"
proof -
  have "layout tg old s v" using assms by (simp add: in_flight_def)
  then show ?thesis using that unfolding layout_def Let_def by (elim disjE conjE)
qed

lemma in_flight_namespace: "in_flight tg old s tr v \<Longrightarrow> namespace_ok tr v"
  and in_flight_new: "in_flight tg old s tr v \<Longrightarrow> identity s \<noteq> identity old" "in_flight tg old s tr v \<Longrightarrow> s \<noteq> old"
  by (auto simp: in_flight_def)

lemma in_flight_displaced:
  assumes "in_flight tg old s tr v" and "entry_at Parent (tg_name tg) v = Some old"
  shows "in_flight tg old s tr (put_entry Private holding_name old (drop_entry Parent (tg_name tg) v))"
  using assms(1) by (rule in_flight_layout) (simp_all add: layout_def in_flight_namespace [OF assms(1)])

lemma in_flight_installed:
  assumes "in_flight tg old s tr v" and "entry_at Parent (tg_name tg) v = None" "entry_at Private withdrawn_name v = None"
  shows "in_flight tg old s tr (put_entry Parent (tg_name tg) s (drop_entry Private staged_name v))"
  using assms(1) by (rule in_flight_layout)
    (rule in_flight_cases [OF assms(1)]; use assms in \<open>simp add: layout_def in_flight_namespace [OF assms(1)]\<close>)+

lemma in_flight_returned:
  assumes "in_flight tg old s tr v" and "entry_at Private holding_name v = Some e" "entry_at Parent (tg_name tg) v = None"
  shows "e = old" "in_flight tg old s tr (put_entry Parent (tg_name tg) e (drop_entry Private holding_name v))"
proof -
  show e: "e = old" by (rule in_flight_cases [OF assms(1)]) (use assms(2,3) in simp_all)
  show "in_flight tg old s tr (put_entry Parent (tg_name tg) e (drop_entry Private holding_name v))"
    using assms(1) by (rule in_flight_layout) (simp_all add: layout_def e in_flight_namespace [OF assms(1)])
qed

lemma in_flight_withdrawn:
  assumes "in_flight tg old s tr v" and "entry_at Private holding_name v = Some e" "entry_at Parent (tg_name tg) v = Some x"
  shows "e = old" "x = s" "in_flight tg old s tr (put_entry Private withdrawn_name x (drop_entry Parent (tg_name tg) v))"
proof -
  show e: "e = old" by (rule in_flight_cases [OF assms(1)]) (use assms(2,3) in simp_all)
  show "x = s" by (rule in_flight_cases [OF assms(1)]) (use assms(2,3) in simp_all)
  show "in_flight tg old s tr (put_entry Private withdrawn_name x (drop_entry Parent (tg_name tg) v))"
    using assms(1) by (rule in_flight_layout) (simp_all add: layout_def e assms(2) in_flight_namespace [OF assms(1)])
qed

section \<open>Calm executions\<close>

text \<open>Nobody interferes; and, for \<open>calm\<close>, no call fails.\<close>

definition quiet :: "os \<Rightarrow> bool" where
  "quiet os \<longleftrightarrow> (\<forall>n v. os_env os n v = v)"

definition calm :: "os \<Rightarrow> bool" where
  "calm os \<longleftrightarrow> quiet os \<and> (\<forall>n. os_fail os n = None)"

lemma quiet_call [simp]: "quiet os \<Longrightarrow> os_env os n v = v"
  by (simp add: quiet_def)

lemma quiet_of_calm: "calm os \<Longrightarrow> quiet os"
  by (simp add: calm_def)

lemma quiet_next: "quiet os \<Longrightarrow> next_call os p = p\<lparr>pr_tick := pr_tick p + 1\<rparr>"
  by (simp add: next_call_def)

text \<open>A calm computation is evaluated by rewriting.\<close>

lemma calm_observe: "calm os \<Longrightarrow> observe f os p = (f (pr_volume p), p\<lparr>pr_tick := pr_tick p + 1\<rparr>)"
  by (simp add: observe_def quiet_next calm_def Let_def)

lemma calm_act:
  "calm os \<Longrightarrow> act f os p = (case f (pr_volume p) of Inl e \<Rightarrow> (Inl e, p\<lparr>pr_tick := pr_tick p + 1\<rparr>)
     | Inr v \<Rightarrow> (Inr (), log_step v (pr_journal p) (p\<lparr>pr_tick := pr_tick p + 1\<rparr>)))"
  by (auto simp: act_def quiet_next calm_def Let_def split: sum.split)

lemmas io_simps = io_bind_def io_then_def io_return_def io_raise_def io_throw_def io_unless_def io_catch_def sync_def commit_def

end
