(* ===== verification/ReplacementRuns.thy ===== *)
theory ReplacementRuns
  imports PublicationFacts
begin

text \<open>
  The assertions of a replacement that nobody disturbs, while any call may fail: before the first checkpoint the file is at its
  place; after it the journal has a record from which the original can be restored; and unless the flags of the object ask for
  recovery the original is at its place.
\<close>

section \<open>Assertions\<close>

text \<open>The file at its place, links to it that agree with it, the reviewed guard, and what the system hands out.\<close>

definition reviewed :: "request \<Rightarrow> dir_entry \<Rightarrow> volume \<Rightarrow> bool" where
  "reviewed rq old v \<longleftrightarrow>
     entry_at Parent (tg_name (rq_target rq)) v = Some old \<and> de_regular old
     \<and> (\<forall>(n, e)\<in>set (vo_parent v). identity e = identity old \<longrightarrow> e = old)
     \<and> rq_guard rq = guard_json (rq_target rq) (vo_chain v) old
     \<and> good_token (JStr (fr_token (rq_fresh rq))) \<and> de_regular (fr_file (rq_fresh rq))
     \<and> identity (fr_file (rq_fresh rq)) \<noteq> identity old \<and> is_list (vo_chain v)"

text \<open>A durable state is recoverable when the original is at its place and there is nothing to recover, or when the record leads back.\<close>

definition recoverable :: "target \<Rightarrow> dir_entry \<Rightarrow> volume \<Rightarrow> transition option \<Rightarrow> bool" where
  "recoverable tg old v j \<longleftrightarrow>
     (entry_at Parent (tg_name tg) v = Some old \<and> (j = None \<or> vo_operation v = None))
     \<or> (\<exists>tr s. j = Some tr \<and> in_flight tg old s tr v)"

definition logged_recoverable :: "target \<Rightarrow> dir_entry \<Rightarrow> (transition, staging) proc \<Rightarrow> bool" where
  "logged_recoverable tg old p \<longleftrightarrow> (\<forall>(v, v', j)\<in>set (pr_log p). recoverable tg old v' j)"

definition flags_ok :: "target \<Rightarrow> dir_entry \<Rightarrow> (transition, staging) proc \<Rightarrow> bool" where
  "flags_ok tg old p \<longleftrightarrow> entry_at Parent (tg_name tg) (pr_volume p) = Some old \<or> needs_recovery_after (pr_object p)"

text \<open>What holds when the replacement is left, by a value or an exception.\<close>

definition left :: "target \<Rightarrow> dir_entry \<Rightarrow> (transition, staging) proc \<Rightarrow> bool" where
  "left tg old p \<longleftrightarrow> logged_recoverable tg old p \<and> recoverable tg old (pr_volume p) (pr_journal p) \<and> flags_ok tg old p"

text \<open>Before the first checkpoint.\<close>

definition grounded :: "request \<Rightarrow> dir_entry \<Rightarrow> (transition, staging) proc \<Rightarrow> bool" where
  "grounded rq old p \<longleftrightarrow>
     logged_recoverable (rq_target rq) old p \<and> pr_journal p = None \<and> reviewed rq old (pr_volume p)"

text \<open>After it.\<close>

definition aloft :: "request \<Rightarrow> dir_entry \<Rightarrow> dir_entry \<Rightarrow> (transition, staging) proc \<Rightarrow> bool" where
  "aloft rq old s p \<longleftrightarrow>
     logged_recoverable (rq_target rq) old p \<and> flags_ok (rq_target rq) old p
     \<and> in_flight (rq_target rq) old s (transition_record rq (pr_object p) []) (pr_volume p)
     \<and> (\<exists>tr. pr_journal p = Some tr \<and> in_flight (rq_target rq) old s tr (pr_volume p))"

definition waiting :: "dir_entry \<Rightarrow> (transition, staging) proc \<Rightarrow> bool" where
  "waiting s p \<longleftrightarrow> entry_at Private staged_name (pr_volume p) = Some s \<and> entry_at Private withdrawn_name (pr_volume p) = None"

lemma left_of_grounded: "grounded rq old p \<Longrightarrow> left (rq_target rq) old p"
  by (simp add: left_def grounded_def recoverable_def flags_ok_def reviewed_def)

lemma left_of_aloft: "aloft rq old s p \<Longrightarrow> left (rq_target rq) old p"
  by (auto simp: left_def aloft_def recoverable_def)

lemma logged_step [simp]:
  "logged_recoverable tg old (log_step v j p) \<longleftrightarrow> logged_recoverable tg old p \<and> recoverable tg old v j"
  "logged_recoverable tg old (next_call os p) = logged_recoverable tg old p"
  "logged_recoverable tg old (p\<lparr>pr_object := sg\<rparr>) = logged_recoverable tg old p"
  by (auto simp: logged_recoverable_def)

lemma assertion_calls [simp]:
  assumes "quiet os"
  shows "left tg old (next_call os p) = left tg old p" "grounded rq old (next_call os p) = grounded rq old p"
    "aloft rq old s (next_call os p) = aloft rq old s p" "waiting s (next_call os p) = waiting s p"
    "flags_ok tg old (next_call os p) = flags_ok tg old p"
  using assms by (simp_all add: left_def grounded_def aloft_def waiting_def flags_ok_def)

section \<open>Closing\<close>

lemma stable_left [simp]: "quiet os \<Longrightarrow> stable os (left tg old)"
  by (simp add: stable_def)

lemma in_flight_private:
  "in_flight tg old s tr v \<Longrightarrow> n \<noteq> holding_name \<Longrightarrow> in_flight tg old s tr (drop_entry Private n v)"
  by (rule in_flight_layout) (auto simp: in_flight_def layout_def Let_def)

lemma recoverable_unlink:
  "recoverable tg old v j \<Longrightarrow> recoverable tg old (drop_entry Private staged_name v) j"
  unfolding recoverable_def by (force intro: in_flight_private)

lemma left_unlink:
  assumes os: "quiet os"
  shows "keeps os (left tg old) (act (unlink_entry Private staged_name))"
proof (rule keeps_act)
  fix p v assume "left tg old p" "unlink_entry Private staged_name (pr_volume p) = Inr v"
  then show "left tg old (log_step v (pr_journal p) p)"
    by (auto simp: left_def unlink_entry_def flags_ok_def recoverable_unlink split: if_splits)
qed (simp add: os)

lemma empty_private [simp]: "entry_at Private n (v\<lparr>vo_operation := x\<rparr>) = entry_at Private n v" "entry_at Parent n (v\<lparr>vo_operation := x\<rparr>) = entry_at Parent n v"
  by (simp_all add: entry_at_def entries_of_def)

lemma left_remove:
  assumes os: "quiet os"
  shows "keeps os (left tg old) (act remove_operation)"
proof (rule keeps_act)
  fix p v assume l: "left tg old p" and r: "remove_operation (pr_volume p) = Inr v"
  have v: "vo_private (pr_volume p) = []" "v = (pr_volume p)\<lparr>vo_operation := None\<rparr>"
    using r by (simp_all add: remove_operation_def split: if_splits)
  have old: "entry_at Parent (tg_name tg) (pr_volume p) = Some old"
    if "in_flight tg old s tr (pr_volume p)" for s tr
    using that v(1) by (cases rule: in_flight_cases) (simp_all add: entry_at_def entries_of_def)
  then have "entry_at Parent (tg_name tg) (pr_volume p) = Some old"
    using l by (auto simp: left_def recoverable_def)
  then show "left tg old (log_step v (pr_journal p) p)"
    using l by (simp add: left_def v(2) recoverable_def flags_ok_def)
qed (simp add: os)

lemma close_left:
  assumes os: "quiet os"
  shows "keeps os (left tg old) close_staged"
  unfolding close_staged_def remove_empty_operation_directory_def
  by (intro keeps keeps_set keeps_observe keeps_sync left_unlink left_remove)
    (simp_all add: os left_def flags_ok_def needs_recovery_after_def)

section \<open>Staging\<close>

definition names_namespace :: "ustr \<Rightarrow> json \<times> ustr \<times> json \<Rightarrow> volume \<Rightarrow> bool" where
  "names_namespace token = (\<lambda>(root, name, operation) v.
     \<exists>r d. vo_root v = Some r \<and> safe_dir (vo_device v) r \<and> root = dir_evidence r \<and> vo_operation v = Some (token, d) \<and> name = token
       \<and> safe_dir (di_device r) d \<and> operation = dir_evidence d)"

definition opened :: "request \<Rightarrow> (transition, staging) proc \<Rightarrow> bool" where
  "opened rq p \<longleftrightarrow>
     names_namespace (fr_token (rq_fresh rq))
       (sg_root_identity (pr_object p), sg_token (pr_object p), sg_identity (pr_object p)) (pr_volume p)"

lemma names_put [simp]: "names_namespace token x (put_entry pl n e v) = names_namespace token x v"
  by (cases x) (simp add: names_namespace_def)

text \<open>The file has been opened through its directories.\<close>

definition sourced :: "request \<Rightarrow> dir_entry \<Rightarrow> (transition, staging) proc \<Rightarrow> bool" where
  "sourced rq old p \<longleftrightarrow> grounded rq old p \<and> sg_chain (pr_object p) = vo_chain (pr_volume p) \<and> sg_source (pr_object p) = old"

definition staged_as :: "request \<Rightarrow> dir_entry \<Rightarrow> dir_entry \<Rightarrow> (transition, staging) proc \<Rightarrow> bool" where
  "staged_as rq old t p \<longleftrightarrow>
     sourced rq old p \<and> opened rq p \<and> waiting t p \<and> entry_at Private holding_name (pr_volume p) = None"

lemma reviewed_frame [simp]:
  "reviewed rq old (put_entry Private n e v) = reviewed rq old v" "reviewed rq old (drop_entry Private n v) = reviewed rq old v"
  "reviewed rq old (v\<lparr>vo_root := r\<rparr>) = reviewed rq old v" "reviewed rq old (v\<lparr>vo_operation := x, vo_private := d\<rparr>) = reviewed rq old v"
  by (simp_all add: reviewed_def entry_at_def entries_of_def put_entry_def drop_entry_def set_dir_def)

lemma staging_calls [simp]:
  assumes "quiet os"
  shows "sourced rq old (next_call os p) = sourced rq old p" "opened rq (next_call os p) = opened rq p"
    "staged_as rq old t (next_call os p) = staged_as rq old t p"
  using assms by (simp_all add: sourced_def opened_def staged_as_def)

lemma stable_staging [simp]:
  "quiet os \<Longrightarrow> stable os (sourced rq old)" "quiet os \<Longrightarrow> stable os (grounded rq old)" "quiet os \<Longrightarrow> stable os (staged_as rq old t)"
  by (simp_all add: stable_def)

lemma reviewed_recoverable: "reviewed rq old v \<Longrightarrow> recoverable (rq_target rq) old v None"
  by (simp add: recoverable_def reviewed_def)

lemma grounded_reviewed [simp]: "grounded rq old p \<Longrightarrow> reviewed rq old (pr_volume p)"
  by (simp add: grounded_def)

lemma grounded_log [simp]: "grounded rq old p \<Longrightarrow> grounded rq old (log_step v (pr_journal p) p) = reviewed rq old v"
  by (auto simp: grounded_def reviewed_recoverable)

lemma left_of_staging: "sourced rq old p \<Longrightarrow> left (rq_target rq) old p" "staged_as rq old t p \<Longrightarrow> left (rq_target rq) old p"
  by (simp_all add: sourced_def staged_as_def left_of_grounded)

lemma opened_private:
  assumes os: "quiet os"
  shows "triple os (sourced rq old) (open_private_namespace rq)
    (\<lambda>_ p. sourced rq old p \<and> opened rq p \<and> vo_private (pr_volume p) = []) (left (rq_target rq) old)"
proof -
  let ?S = "sourced rq old" and ?L = "left (rq_target rq) old"
  let ?A = "\<lambda>anchor p. ?S p \<and> vo_root (pr_volume p) = Some anchor \<and> safe_dir (vo_device (pr_volume p)) anchor"
  let ?B = "\<lambda>anchor p. ?A anchor p \<and> sg_root_identity (pr_object p) = dir_evidence anchor"
  let ?C = "\<lambda>anchor p. ?B anchor p \<and> vo_operation (pr_volume p) = Some (fr_token (rq_fresh rq), fr_operation (rq_fresh rq))
    \<and> vo_private (pr_volume p) = []"
  have mk: "keeps os ?S (act (make_root (rq_fresh rq)))"
    by (rule keeps_act) (auto simp: os make_root_def sourced_def split: if_splits)
  have first: "keeps os ?S (io_catch (io_then (act (make_root (rq_fresh rq))) sync) (\<lambda>e. if e = Exists then io_return () else io_throw e))"
    by (intro keeps mk keeps_sync) (simp add: os)
  have anchor: "triple os ?S (observe open_root) ?A ?L"
    by (rule triple_observe_stable) (auto simp: os open_root_def left_of_staging split: option.splits if_splits)
  have mkop: "triple os (?B a) (act (make_operation (rq_fresh rq)))
      (\<lambda>_. ?C a) ?L" for a
    by (rule triple_act_stable) (auto simp: os stable_def left_of_staging sourced_def make_operation_def split: if_splits)
  have op: "triple os (?C a) (observe (open_operation a)) (\<lambda>d p. ?C a p \<and> d = fr_operation (rq_fresh rq) \<and> safe_dir (di_device a) d) ?L" for a
    by (rule triple_observe_stable) (auto simp: os stable_def open_operation_def left_of_staging split: if_splits)
  have root: "triple os (?A a) (set_object (\<lambda>sg. sg\<lparr>sg_root_identity := dir_evidence a\<rparr>)) (\<lambda>_. ?B a) ?L" for a
    by (rule triple_set) (simp add: sourced_def grounded_def)
  let ?D = "\<lambda>p. ?S p \<and> opened rq p \<and> vo_private (pr_volume p) = []"
  have ident: "triple os (\<lambda>p. ?C a p \<and> d = fr_operation (rq_fresh rq) \<and> safe_dir (di_device a) d)
      (set_object (\<lambda>sg. sg\<lparr>sg_token := fr_token (rq_fresh rq), sg_identity := dir_evidence d, sg_open := True\<rparr>)) (\<lambda>_. ?D) ?L" for a d
    by (rule triple_set) (auto simp: sourced_def grounded_def opened_def names_namespace_def)
  have last: "triple os ?D sync (\<lambda>_. ?D) ?L"
    unfolding sync_def by (rule triple_observe_stable) (auto simp: os stable_def left_of_staging)
  have start: "triple os ?S (io_catch (io_then (act (make_root (rq_fresh rq))) sync) (\<lambda>e. if e = Exists then io_return () else io_throw e))
      (\<lambda>_. ?S) ?L"
    by (rule triple_conseq [OF keeps_triple [OF first]]) (simp_all add: left_of_staging)
  show ?thesis
    unfolding open_private_namespace_def Let_def
    by (rule triple_then [OF start], rule triple_bind [OF anchor], rule triple_then [OF root], rule triple_then [OF mkop],
        rule triple_bind [OF op], rule triple_then [OF ident], rule last)
qed

text \<open>The staged file: the mode and the times of the original, the contents that the editor makes of the copy.\<close>

definition copied :: "request \<Rightarrow> dir_entry \<Rightarrow> dir_entry" where
  "copied rq old = with_attributes old ((fr_file (rq_fresh rq))\<lparr>de_size := de_size old, de_sha := de_sha old\<rparr>)"

definition rebound :: "dir_entry \<Rightarrow> dir_entry \<Rightarrow> dir_entry" where
  "rebound t t1 = t1\<lparr>de_device := de_device t, de_inode := de_inode t, de_regular := de_regular t\<rparr>"

lemma find_first: "x \<in> set xs \<Longrightarrow> P x \<Longrightarrow> (\<And>y. y \<in> set xs \<Longrightarrow> P y \<Longrightarrow> y = x) \<Longrightarrow> find P (xs @ ys) = Some x"
proof (induction xs)
  case (Cons a xs)
  show ?case
  proof (cases "P a")
    case True
    then have "a = x" by (rule Cons.prems(3) [OF list.set_intros(1)])
    then show ?thesis using True by simp
  next
    case False
    have mem: "x \<in> set xs" using Cons.prems(1,2) False by (metis set_ConsD)
    have "find P (xs @ ys) = Some x"
      by (rule Cons.IH [OF mem Cons.prems(2)]) (erule Cons.prems(3) [OF list.set_intros(2)], assumption)
    with False show ?thesis by simp
  qed
qed simp

lemma read_reviewed: "reviewed rq old v \<Longrightarrow> read_source old v = old"
proof -
  assume r: "reviewed rq old v"
  have "(tg_name (rq_target rq), old) \<in> set (vo_parent v)"
    using r map_of_SomeD by (fastforce simp: reviewed_def entry_at_def entries_of_def)
  then have mem: "old \<in> set (map snd (vo_parent v))"
    by (metis image_eqI set_map snd_conv)
  have only: "e = old" if "e \<in> set (map snd (vo_parent v))" "identity e = identity old" for e
    using r that by (auto simp: reviewed_def)
  have "find (\<lambda>e. identity e = identity old) (map snd (vo_parent v) @ map snd (vo_private v)) = Some old"
    by (rule find_first [OF mem]) (rule refl, erule only, assumption)
  then show ?thesis by (simp add: read_source_def)
qed

lemma sourced_log [simp]: "sourced rq old p \<Longrightarrow> sourced rq old (log_step v (pr_journal p) p) \<longleftrightarrow> reviewed rq old v \<and> vo_chain v = vo_chain (pr_volume p)"
  by (auto simp: sourced_def)

lemma sourced_reviewed [simp]: "sourced rq old p \<Longrightarrow> reviewed rq old (pr_volume p)"
  by (simp add: sourced_def)

lemma keeps_staged [simp]: "quiet os \<Longrightarrow> triple os (staged_as rq old t) sync (\<lambda>_. staged_as rq old t) (left (rq_target rq) old)"
  unfolding sync_def by (rule triple_observe_stable) (auto simp: left_of_staging)

lemma staged_set:
  "(\<And>p. staged_as rq old t p \<Longrightarrow> staged_as rq old t (p\<lparr>pr_object := f (pr_object p)\<rparr>)) \<Longrightarrow>
     triple os (staged_as rq old t) (set_object f) (\<lambda>_. staged_as rq old t) E"
  by (rule triple_set)

lemma opened_put [simp]: "opened rq p \<Longrightarrow> opened rq (log_step (put_entry pl n e (pr_volume p)) j p)"
  by (simp add: opened_def)

lemma object_frame [simp]:
  "grounded rq old (p\<lparr>pr_object := sg\<rparr>) = grounded rq old p" "waiting t (p\<lparr>pr_object := sg\<rparr>) = waiting t p"
  by (simp_all add: grounded_def waiting_def)

lemma sourced_object [simp]:
  "sg_chain sg = sg_chain (pr_object p) \<Longrightarrow> sg_source sg = sg_source (pr_object p) \<Longrightarrow> sourced rq old (p\<lparr>pr_object := sg\<rparr>) = sourced rq old p"
  by (simp add: sourced_def)

lemma opened_object [simp]:
  "(sg_root_identity sg, sg_token sg, sg_identity sg) = (sg_root_identity (pr_object p), sg_token (pr_object p), sg_identity (pr_object p)) \<Longrightarrow>
     opened rq (p\<lparr>pr_object := sg\<rparr>) = opened rq p"
  by (simp add: opened_def)

lemma created:
  assumes os: "quiet os"
  shows "triple os (\<lambda>p. sourced rq old p \<and> opened rq p \<and> vo_private (pr_volume p) = []) (create_temp rq)
    (\<lambda>_. staged_as rq old (fr_file (rq_fresh rq))) (left (rq_target rq) old)"
proof -
  let ?P = "\<lambda>p. sourced rq old p \<and> opened rq p \<and> vo_private (pr_volume p) = []" and ?T = "staged_as rq old (fr_file (rq_fresh rq))"
  have mk: "triple os ?P (act (make_file staged_name (fr_file (rq_fresh rq)))) (\<lambda>_. ?T) (left (rq_target rq) old)"
  proof (rule triple_act_stable)
    fix p v assume P: "?P p" and m: "make_file staged_name (fr_file (rq_fresh rq)) (pr_volume p) = Inr v"
    have v: "v = put_entry Private staged_name (fr_file (rq_fresh rq)) (pr_volume p)"
      using m by (simp add: make_file_def split: if_splits)
    have "entry_at Private n (pr_volume p) = None" for n using P by (simp add: entry_at_def entries_of_def)
    then show "?T (log_step v (pr_journal p) p)"
      using P by (simp add: staged_as_def v waiting_def)
  qed (auto simp: os stable_def left_of_staging)
  have own: "triple os ?T (set_object (\<lambda>sg. sg\<lparr>sg_temp := True, sg_inode := identity (fr_file (rq_fresh rq))\<rparr>)) (\<lambda>_. ?T) (left (rq_target rq) old)"
    by (rule triple_set) (simp add: staged_as_def)
  show ?thesis
    unfolding create_temp_def by (rule triple_then [OF mk], rule triple_then [OF own]) (simp add: os)
qed

lemma staged_put:
  "staged_as rq old t p \<Longrightarrow> staged_as rq old t1 (log_step (put_entry Private staged_name t1 (pr_volume p)) (pr_journal p) p)"
  by (auto simp: staged_as_def waiting_def)

lemma edited_staged:
  assumes os: "quiet os"
  shows "triple os (staged_as rq old t) (act (edit_staged f)) (\<lambda>_ p. \<exists>t1. f t = Inr t1 \<and> staged_as rq old (rebound t t1) p) (left (rq_target rq) old)"
  by (rule triple_act_stable)
    (auto simp: os left_of_staging edit_staged_def rebound_def staged_as_def waiting_def split: sum.splits)

lemma copied_source:
  assumes os: "quiet os"
  shows "triple os (staged_as rq old (fr_file (rq_fresh rq))) copy_source (\<lambda>_. staged_as rq old (copied rq old)) (left (rq_target rq) old)"
proof -
  let ?f = "fr_file (rq_fresh rq)"
  let ?edit = "\<lambda>src v. let s = read_source src v in
      edit_staged (\<lambda>t. Inr (with_attributes src (t\<lparr>de_size := de_size s, de_sha := de_sha s\<rparr>))) v"
  have e: "triple os (\<lambda>p. staged_as rq old ?f p \<and> pr_object p = sg) (act (?edit (sg_source sg)))
      (\<lambda>_. staged_as rq old (copied rq old)) (left (rq_target rq) old)" for sg
  proof (rule triple_act_stable)
    fix p v assume P: "staged_as rq old ?f p \<and> pr_object p = sg" and ed: "?edit (sg_source sg) (pr_volume p) = Inr v"
    have src: "sg_source sg = old" "entry_at Private staged_name (pr_volume p) = Some ?f"
      using P by (auto simp: staged_as_def sourced_def waiting_def)
    moreover have "read_source old (pr_volume p) = old"
      using P by (intro read_reviewed [of rq]) (simp add: staged_as_def)
    ultimately have "v = put_entry Private staged_name (copied rq old) (pr_volume p)"
      using ed by (auto simp: edit_staged_def copied_def with_attributes_def)
    then show "staged_as rq old (copied rq old) (log_step v (pr_journal p) p)" using P staged_put by blast
  qed (auto simp: os stable_def left_of_staging)
  show ?thesis
    unfolding copy_source_def by (rule triple_get_object, rule triple_then [OF e]) (simp add: os)
qed

lemma keeps_sourced:
  assumes os: "quiet os"
  shows "triple os (sourced rq old) (verify_parent rq) (\<lambda>_. sourced rq old) (left (rq_target rq) old)"
    "triple os (staged_as rq old t) (verify_source_guard rq) (\<lambda>_. staged_as rq old t) (left (rq_target rq) old)"
proof -
  have "keeps os (sourced rq old) (verify_parent rq)"
    unfolding verify_parent_def by (intro keeps keeps_observe) (simp add: os)
  then show "triple os (sourced rq old) (verify_parent rq) (\<lambda>_. sourced rq old) (left (rq_target rq) old)"
    by (rule triple_conseq [OF keeps_triple]) (simp_all add: left_of_staging)
  have "keeps os (staged_as rq old t) (verify_source_guard rq)"
    unfolding verify_source_guard_def by (intro keeps keeps_observe) (simp add: os)
  then show "triple os (staged_as rq old t) (verify_source_guard rq) (\<lambda>_. staged_as rq old t) (left (rq_target rq) old)"
    by (rule triple_conseq [OF keeps_triple]) (simp_all add: left_of_staging)
qed

lemma stage_triple:
  assumes os: "quiet os"
  shows "triple os (grounded rq old) (stage rq) (\<lambda>_. staged_as rq old (copied rq old)) (left (rq_target rq) old)"
proof -
  let ?G = "grounded rq old" and ?L = "left (rq_target rq) old" and ?tg = "rq_target rq"
  have chain: "triple os ?G (observe (\<lambda>v. Inr (vo_chain v))) (\<lambda>c p. ?G p \<and> c = vo_chain (pr_volume p)) ?L"
    by (rule triple_observe_stable) (auto simp: os left_of_grounded)
  have source: "triple os (\<lambda>p. ?G p \<and> c = vo_chain (pr_volume p)) (observe (open_source ?tg))
      (\<lambda>e p. ?G p \<and> c = vo_chain (pr_volume p) \<and> e = old) ?L" for c
    by (rule triple_observe_stable)
      (auto simp: os stable_def left_of_grounded open_source_def grounded_def reviewed_def split: option.splits if_splits)
  have bound: "triple os (\<lambda>p. ?G p \<and> c = vo_chain (pr_volume p) \<and> e = old) (set_object (\<lambda>sg. sg\<lparr>sg_chain := c, sg_source := e\<rparr>))
      (\<lambda>_. sourced rq old) ?L" for c e
    by (rule triple_set) (simp add: sourced_def)
  have free: "triple os (sourced rq old) (observe g) (\<lambda>_. sourced rq old) ?L" for g :: "volume \<Rightarrow> io_error + unit"
    by (rule triple_observe_stable) (auto simp: os left_of_staging)
  have guard: "triple os (staged_as rq old (copied rq old)) (if rq_guard rq = JNull then io_return () else verify_source_guard rq)
      (\<lambda>_. staged_as rq old (copied rq old)) ?L"
    using keeps_sourced(2) [OF os] by (simp add: triple_return)
  show ?thesis
    unfolding stage_def Let_def
    by (rule triple_bind [OF chain], rule triple_bind [OF source], rule triple_then [OF bound], rule triple_then [OF free],
        rule triple_then [OF keeps_sourced(1) [OF os]], rule triple_then [OF opened_private [OF os]],
        rule triple_then [OF created [OF os]], rule triple_then [OF copied_source [OF os]], rule guard)
qed

section \<open>Publishing\<close>

definition made :: "request \<Rightarrow> dir_entry \<Rightarrow> bool" where
  "made rq t \<longleftrightarrow> de_regular t = de_regular (fr_file (rq_fresh rq)) \<and> identity t = identity (fr_file (rq_fresh rq))"

lemma made_simps [simp]:
  "made rq (copied rq old)" "made rq t \<Longrightarrow> made rq (rebound t t1)" "made rq t \<Longrightarrow> made rq (with_attributes old t)"
  by (simp_all add: made_def copied_def rebound_def with_attributes_def identity_def)

text \<open>All that the first checkpoint needs.\<close>

definition ready :: "request \<Rightarrow> dir_entry \<Rightarrow> dir_entry \<Rightarrow> (transition, staging) proc \<Rightarrow> bool" where
  "ready rq old s p \<longleftrightarrow> staged_as rq old s p \<and> sg_staged_file (pr_object p) = file_evidence s"

lemma ready_in_flight:
  assumes "ready rq old s p" and "made rq s"
  shows "in_flight (rq_target rq) old s (transition_record rq (pr_object p) ph) (pr_volume p)"
proof -
  have r: "reviewed rq old (pr_volume p)" "opened rq p" "sg_chain (pr_object p) = vo_chain (pr_volume p)"
    "entry_at Private holding_name (pr_volume p) = None" "sg_staged_file (pr_object p) = file_evidence s"
    using assms(1) by (auto simp: ready_def staged_as_def sourced_def)
  obtain a d where n: "vo_root (pr_volume p) = Some a" "safe_dir (vo_device (pr_volume p)) a" "sg_root_identity (pr_object p) = dir_evidence a"
    "vo_operation (pr_volume p) = Some (fr_token (rq_fresh rq), d)" "sg_token (pr_object p) = fr_token (rq_fresh rq)"
    "safe_dir (di_device a) d" "sg_identity (pr_object p) = dir_evidence d"
    using r(2) by (auto simp: opened_def names_namespace_def)
  have "record_ok (rq_target rq) old s (transition_record rq (pr_object p) ph)"
    using r n by (simp add: record_ok_def transition_record_def compatible_record_def reviewed_def equals_int_def del: U_Cons U_Nil)
  moreover have "namespace_ok (transition_record rq (pr_object p) ph) (pr_volume p)"
    using r(3) n by (simp add: namespace_ok_def transition_record_def safe_dir_def)
  ultimately show ?thesis
    using r(1,4) assms(2) by (simp add: in_flight_def layout_def reviewed_def made_def)
qed

end
