(* ===== verification/PublishRuns.thy ===== *)
theory PublishRuns
  imports ReplacementRuns
begin

text \<open>
  The publication of a staged file through the assertions of \<open>ReplacementRuns\<close>: every checkpoint and every rename keeps a
  record in the journal that leads back to the original, and the outcomes of the whole replacement.
\<close>

section \<open>Checkpoints and flags\<close>

lemma record_phase: "in_flight tg old s (transition_record rq sg ph) v = in_flight tg old s (transition_record rq sg []) v"
proof -
  have "transition_record rq sg ph = (transition_record rq sg [])\<lparr>tr_phase := JStr ph\<rparr>" by (simp add: transition_record_def)
  then show ?thesis by simp
qed

lemma record_flags [simp]:
  "transition_record rq (sg\<lparr>sg_uncertain := b\<rparr>) ph = transition_record rq sg ph"
  "transition_record rq (sg\<lparr>sg_preserve := b\<rparr>) ph = transition_record rq sg ph"
  "transition_record rq (sg\<lparr>sg_started := b\<rparr>) ph = transition_record rq sg ph"
  "transition_record rq (sg\<lparr>sg_published := b\<rparr>) ph = transition_record rq sg ph"
  "transition_record rq (sg\<lparr>sg_published_guard := g\<rparr>) ph = transition_record rq sg ph"
  "transition_record rq (sg\<lparr>sg_temp := b\<rparr>) ph = transition_record rq sg ph"
  by (simp_all add: transition_record_def)

lemma recoverable_flight: "in_flight tg old s tr v \<Longrightarrow> recoverable tg old v (Some tr)"
  by (auto simp: recoverable_def)

lemma aloft_move:
  assumes "aloft rq old s p" and "\<And>tr. in_flight (rq_target rq) old s tr (pr_volume p) \<Longrightarrow> in_flight (rq_target rq) old s tr v"
    and "entry_at Parent (tg_name (rq_target rq)) v = Some old \<or> needs_recovery_after (pr_object p)"
  shows "aloft rq old s (log_step v (pr_journal p) p)"
proof -
  obtain tr where tr: "pr_journal p = Some tr" "in_flight (rq_target rq) old s tr (pr_volume p)"
    using assms(1) by (auto simp: aloft_def)
  show ?thesis
    using assms(1,3) recoverable_flight [OF assms(2) [OF tr(2)]] assms(2) [OF tr(2)] assms(2) [of "transition_record rq (pr_object p) []"]
    by (simp add: aloft_def flags_ok_def tr(1))
qed

lemma aloft_commit:
  assumes "aloft rq old s p" and "in_flight (rq_target rq) old s tr (pr_volume p)"
  shows "aloft rq old s (log_step (pr_volume p) (Some tr) p)"
  using assms recoverable_flight [OF assms(2)] by (simp add: aloft_def flags_ok_def)

lemma aloft_record: "aloft rq old s p \<Longrightarrow> in_flight (rq_target rq) old s (transition_record rq (pr_object p) ph) (pr_volume p)"
  by (simp add: aloft_def record_phase [of _ _ _ _ _ ph])

lemma checkpoint_aloft:
  assumes "\<And>t v. in_flight (rq_target rq) old s (extra t) v = in_flight (rq_target rq) old s t v"
    and "\<And>v. settled_phase ph \<Longrightarrow> W v \<Longrightarrow> entry_at Parent (tg_name (rq_target rq)) v = Some old"
  shows "triple os (\<lambda>p. aloft rq old s p \<and> W (pr_volume p)) (checkpoint_phase rq ph extra)
    (\<lambda>_ p. aloft rq old s p \<and> W (pr_volume p) \<and> sg_started (pr_object p) = (\<not> settled_phase ph)) E"
proof -
  let ?P = "\<lambda>p. aloft rq old s p \<and> W (pr_volume p)"
  have commit: "triple os (\<lambda>p. ?P p \<and> pr_object p = sg) (commit (extra (transition_record rq sg ph))) (\<lambda>_. ?P) E" for sg
    by (rule triple_commit) (auto simp: assms(1) aloft_commit aloft_record)
  have set: "triple os ?P (set_object (\<lambda>sg. sg\<lparr>sg_started := \<not> settled_phase ph, sg_preserve := \<not> settled_phase ph \<or> ph = U ''published''\<rparr>))
      (\<lambda>_ p. aloft rq old s p \<and> W (pr_volume p) \<and> sg_started (pr_object p) = (\<not> settled_phase ph)) E"
    by (rule triple_set) (use assms(2) in \<open>auto simp: aloft_def flags_ok_def needs_recovery_after_def simp del: U_Cons U_Nil\<close>)
  show ?thesis
    unfolding checkpoint_phase_def by (rule triple_get_object, rule triple_then [OF commit set])
qed

lemmas checkpoint_plain = checkpoint_aloft [where W = "\<lambda>_. True", simplified]

lemma on_error_triple:
  "triple os P m Q R \<Longrightarrow> triple os R h (\<lambda>_. E) E \<Longrightarrow> triple os P (on_error m h) Q E"
  unfolding on_error_def
  by (rule triple_catch, assumption, rule triple_then, assumption, rule triple_raise(2))

lemma stable_aloft: "quiet os \<Longrightarrow> stable os (\<lambda>p. aloft rq old s p \<and> R (pr_object p) (pr_volume p))"
  by (simp add: stable_def)

lemma observe_aloft:
  "quiet os \<Longrightarrow> triple os (\<lambda>p. aloft rq old s p \<and> R (pr_object p) (pr_volume p)) (observe f)
     (\<lambda>x p. aloft rq old s p \<and> R (pr_object p) (pr_volume p) \<and> f (pr_volume p) = Inr x) (aloft rq old s)"
  by (rule triple_observe_stable) (auto simp: stable_aloft)

lemma sync_aloft:
  "quiet os \<Longrightarrow> triple os (\<lambda>p. aloft rq old s p \<and> R (pr_object p) (pr_volume p)) sync
     (\<lambda>_ p. aloft rq old s p \<and> R (pr_object p) (pr_volume p)) (aloft rq old s)"
  unfolding sync_def by (rule triple_conseq [OF observe_aloft [of os rq old s R]]) auto

lemma flag_aloft:
  assumes "\<And>sg ph. transition_record rq (f sg) ph = transition_record rq sg ph" and "\<And>sg. needs_recovery_after sg \<Longrightarrow> needs_recovery_after (f sg)"
    and "\<And>sg v. R sg v \<Longrightarrow> S (f sg) v"
  shows "triple os (\<lambda>p. aloft rq old s p \<and> R (pr_object p) (pr_volume p)) (set_object f) (\<lambda>_ p. aloft rq old s p \<and> S (pr_object p) (pr_volume p)) E"
  by (rule triple_set) (use assms in \<open>auto simp: aloft_def flags_ok_def\<close>)

lemma keeps_uncertain: "keeps os (aloft rq old s) uncertain" "keeps os (aloft rq old s) keep_private"
  unfolding uncertain_def keep_private_def
  by (rule keeps_set, simp add: aloft_def flags_ok_def needs_recovery_after_def)+

section \<open>Compensation\<close>

abbreviation at_place :: "request \<Rightarrow> dir_entry \<Rightarrow> volume \<Rightarrow> bool" where
  "at_place rq e v \<equiv> entry_at Parent (tg_name (rq_target rq)) v = Some e"

lemma restore_rename:
  assumes os: "quiet os"
  shows "triple os (aloft rq old s) (act (rename_entry Private holding_name Parent (tg_name (rq_target rq))))
    (\<lambda>_ p. aloft rq old s p \<and> at_place rq old (pr_volume p)) (aloft rq old s)"
proof (rule triple_act_stable)
  fix p v assume a: "aloft rq old s p" and r: "rename_entry Private holding_name Parent (tg_name (rq_target rq)) (pr_volume p) = Inr v"
  obtain e where e: "entry_at Private holding_name (pr_volume p) = Some e" "entry_at Parent (tg_name (rq_target rq)) (pr_volume p) = None"
    and v: "v = put_entry Parent (tg_name (rq_target rq)) e (drop_entry Private holding_name (pr_volume p))"
    using r by (auto simp: rename_entry_Inr)
  have "e = old" using a e by (auto simp: aloft_def dest: in_flight_returned(1))
  then have "aloft rq old s (log_step v (pr_journal p) p)"
    using in_flight_returned(2) [OF _ e] by (intro aloft_move [OF a]) (simp_all add: v)
  then show "aloft rq old s (log_step v (pr_journal p) p) \<and> at_place rq old (pr_volume (log_step v (pr_journal p) p))"
    using \<open>e = old\<close> by (simp add: v)
qed (use os in \<open>simp_all add: stable_def\<close>)

lemma restore_aloft:
  assumes os: "quiet os"
  shows "triple os (aloft rq old s) (try_restore_holding rq) (\<lambda>_. aloft rq old s) E"
proof -
  let ?A = "aloft rq old s" and ?B = "\<lambda>p. aloft rq old s p \<and> at_place rq old (pr_volume p)"
  have look: "triple os ?A (entry_identity Private holding_name) (\<lambda>_. ?A) ?A"
    unfolding entry_identity_def by (rule triple_conseq [OF observe_aloft [OF os, of rq old s "\<lambda>_ _. True"]]) simp_all
  have look2: "triple os ?B (entry_identity Parent (tg_name (rq_target rq))) (\<lambda>_. ?B) ?A"
    unfolding entry_identity_def by (rule triple_conseq [OF observe_aloft [OF os, of rq old s "\<lambda>_. at_place rq old"]]) simp_all
  have sync2: "triple os ?B sync (\<lambda>_. ?B) ?A" by (rule sync_aloft [OF os])
  have intent: "triple os ?A (checkpoint_phase rq (U ''compensation_intent'') (\<lambda>t. t\<lparr>tr_held_entry := h\<rparr>)) (\<lambda>_. ?A) ?A" for h
    by (rule triple_conseq [OF checkpoint_plain]) (auto simp: settled_phase_def)
  have settle: "triple os ?B (checkpoint_phase rq (U ''compensated'') (\<lambda>t. t\<lparr>tr_compensated_entry := h\<rparr>)) (\<lambda>_. ?B) ?A" for h
    by (rule triple_conseq [OF checkpoint_aloft [of rq old s _ _ "at_place rq old"]]) auto
  have clear: "triple os ?B (set_object (\<lambda>sg. sg\<lparr>sg_uncertain := False, sg_preserve := False, sg_started := False\<rparr>)) (\<lambda>_. ?A) ?A"
    by (rule triple_set) (simp add: aloft_def flags_ok_def)
  have blocked: "triple os ?A (checkpoint_phase rq (U ''compensation_blocked'') id) (\<lambda>_. ?A) E"
    by (rule triple_conseq [OF checkpoint_plain]) (auto simp: settled_phase_def)
  have mark: "triple os ?A uncertain (\<lambda>_. ?A) E" for E
    unfolding uncertain_def by (rule triple_set) (simp add: aloft_def flags_ok_def needs_recovery_after_def)
  have yes: "triple os ?B (io_then (checkpoint_phase rq (U ''compensated'') (\<lambda>t. t\<lparr>tr_compensated_entry := h\<rparr>))
      (io_then (set_object (\<lambda>sg. sg\<lparr>sg_uncertain := False, sg_preserve := False, sg_started := False\<rparr>)) (io_return True))) (\<lambda>_. ?A) ?A" for h
    by (rule triple_then [OF settle], rule triple_then [OF clear], rule triple_return) simp
  have no: "triple os ?B (io_then uncertain (io_return False)) (\<lambda>_. ?A) ?A"
    by (rule triple_then [OF triple_pre [OF mark]], simp, rule triple_return) simp
  have choice: "triple os ?B (if b then io_then (checkpoint_phase rq (U ''compensated'') (\<lambda>t. t\<lparr>tr_compensated_entry := h\<rparr>))
      (io_then (set_object (\<lambda>sg. sg\<lparr>sg_uncertain := False, sg_preserve := False, sg_started := False\<rparr>)) (io_return True))
      else io_then uncertain (io_return False)) (\<lambda>_. ?A) ?A" for b h
    using yes no by (cases b) simp_all
  have handler: "triple os ?A (io_then uncertain (io_then (checkpoint_phase rq (U ''compensation_blocked'') id) (io_return False))) (\<lambda>_. ?A) E"
    by (rule triple_then [OF mark], rule triple_then [OF blocked], rule triple_return) simp
  show ?thesis
    unfolding try_restore_holding_def
    by (rule triple_catch [OF _ handler], rule triple_bind [OF look], rule triple_then [OF intent], rule triple_then [OF restore_rename [OF os]],
        rule triple_then [OF sync2], rule triple_then [OF sync2], rule triple_bind [OF look2], rule choice)
qed

section \<open>Preparation\<close>

lemma stable_ready: "quiet os \<Longrightarrow> stable os (ready rq old s)"
  by (simp add: stable_def ready_def)

lemma left_of_ready: "ready rq old s p \<Longrightarrow> left (rq_target rq) old p"
  by (auto simp: ready_def dest: left_of_staging)

lemma keeps_ready:
  assumes os: "quiet os"
  shows "keeps os (ready rq old s) (check_staged e)" "keeps os (ready rq old s) sync" "keeps os (ready rq old s) (verify_for_publish rq)"
  unfolding check_staged_def verify_for_publish_def verify_parent_def verify_source_guard_def
  by (intro keeps keeps_observe keeps_sync stable_ready [OF os])+

lemma ready_keep: "quiet os \<Longrightarrow> keeps os (ready rq old s) m \<Longrightarrow> triple os (ready rq old s) m (\<lambda>_. ready rq old s) (left (rq_target rq) old)"
  by (rule triple_conseq [OF keeps_triple [of os "ready rq old s"]]) (simp_all add: left_of_ready)

lemma first_checkpoint:
  assumes "made rq s"
  shows "triple os (ready rq old s) (checkpoint_phase rq (U ''stage_ready'') id)
    (\<lambda>_ p. aloft rq old s p \<and> at_place rq old (pr_volume p) \<and> waiting s p) E"
proof -
  let ?Q = "\<lambda>p. aloft rq old s p \<and> at_place rq old (pr_volume p) \<and> waiting s p"
  have commit: "triple os (\<lambda>p. ready rq old s p \<and> pr_object p = sg) (commit (id (transition_record rq sg (U ''stage_ready'')))) (\<lambda>_. ?Q) E" for sg
  proof (rule triple_commit)
    fix p assume r: "ready rq old s p \<and> pr_object p = sg"
    then have f: "in_flight (rq_target rq) old s (transition_record rq (pr_object p) ph) (pr_volume p)" for ph
      by (intro ready_in_flight assms) simp
    have "logged_recoverable (rq_target rq) old p" "at_place rq old (pr_volume p)" "waiting s p"
      using r by (auto simp: ready_def staged_as_def sourced_def grounded_def reviewed_def)
    then show "?Q (log_step (pr_volume p) (Some (id (transition_record rq sg (U ''stage_ready'')))) p)"
      using f r recoverable_flight [OF f] by (auto simp: aloft_def flags_ok_def waiting_def simp del: U_Cons U_Nil)
  qed
  have set: "triple os ?Q (set_object (\<lambda>sg. sg\<lparr>sg_started := b, sg_preserve := c\<rparr>)) (\<lambda>_. ?Q) E" for b c
    by (rule triple_set) (simp add: aloft_def flags_ok_def waiting_def)
  show ?thesis
    unfolding checkpoint_phase_def by (rule triple_get_object, rule triple_then [OF commit set])
qed

lemma prepare_triple:
  assumes os: "quiet os" and t: "made rq t"
  shows "triple os (staged_as rq old t) (prepare rq) (\<lambda>_ p. aloft rq old (with_attributes old t) p \<and> waiting (with_attributes old t) p) (left (rq_target rq) old)"
proof -
  let ?s = "with_attributes old t" and ?L = "left (rq_target rq) old"
  have reb: "rebound t ?s = ?s" by (simp add: rebound_def with_attributes_def)
  have edit: "triple os (\<lambda>p. staged_as rq old t p \<and> pr_object p = sg) (act (edit_staged (\<lambda>t. Inr (with_attributes (sg_source sg) t))))
      (\<lambda>_. staged_as rq old ?s) ?L" for sg
  proof (cases "sg_source sg = old")
    case True
    show ?thesis
      by (rule triple_conseq [OF edited_staged [OF os, of rq old t]]) (auto simp: True reb)
  qed (auto simp: triple_def staged_as_def sourced_def)
  have look: "triple os (staged_as rq old ?s) (observe staged_evidence) (\<lambda>ev p. staged_as rq old ?s p \<and> ev = file_evidence ?s) ?L"
    by (rule triple_observe_stable)
      (auto simp: os left_of_staging staged_evidence_def staged_as_def waiting_def split: if_splits)
  have evid: "triple os (\<lambda>p. staged_as rq old ?s p \<and> ev = file_evidence ?s) (set_object (\<lambda>sg. sg\<lparr>sg_staged_file := ev\<rparr>))
      (\<lambda>_. ready rq old ?s) ?L" for ev
    by (rule triple_set) (simp add: ready_def staged_as_def)
  have second: "triple os (\<lambda>p. aloft rq old ?s p \<and> at_place rq old (pr_volume p) \<and> waiting ?s p) (checkpoint_phase rq (U ''displace_intent'') id)
      (\<lambda>_ p. aloft rq old ?s p \<and> waiting ?s p) ?L"
    by (rule triple_conseq [OF checkpoint_aloft [of rq old ?s _ _ "\<lambda>v. entry_at Private staged_name v = Some ?s \<and> entry_at Private withdrawn_name v = None"]])
      (auto simp: settled_phase_def waiting_def)
  show ?thesis
    unfolding prepare_def
    by (rule triple_get_object, rule triple_then [OF edit], rule triple_then [OF keeps_staged [OF os]], rule triple_bind [OF look],
        rule triple_then [OF evid], rule triple_then [OF ready_keep [OF os keeps_ready(1) [OF os]]],
        rule triple_then [OF ready_keep [OF os keeps_ready(2) [OF os]]], rule triple_then [OF ready_keep [OF os keeps_ready(3) [OF os]]],
        rule triple_then [OF first_checkpoint second], simp add: t)
qed

section \<open>Publication\<close>

abbreviation holding_out :: "request \<Rightarrow> dir_entry \<Rightarrow> dir_entry \<Rightarrow> (transition, staging) proc \<Rightarrow> bool" where
  "holding_out rq old s p \<equiv> aloft rq old s p \<and> waiting s p"

lemma observe_out:
  "quiet os \<Longrightarrow> triple os (holding_out rq old s) (observe f) (\<lambda>_. holding_out rq old s) (aloft rq old s)"
  by (rule triple_observe_stable) (simp_all add: stable_def)

lemma sync_out: "quiet os \<Longrightarrow> triple os (holding_out rq old s) sync (\<lambda>_. holding_out rq old s) (aloft rq old s)"
  unfolding sync_def by (rule observe_out)

lemma checkpoint_out:
  assumes "\<And>t v. in_flight (rq_target rq) old s (extra t) v = in_flight (rq_target rq) old s t v" and "\<not> settled_phase ph"
  shows "triple os (holding_out rq old s) (checkpoint_phase rq ph extra) (\<lambda>_. holding_out rq old s) E"
  by (rule triple_conseq [OF checkpoint_aloft [of rq old s _ _ "\<lambda>v. entry_at Private staged_name v = Some s \<and> entry_at Private withdrawn_name v = None"]])
    (use assms in \<open>auto simp: waiting_def\<close>)

lemma displace_rename:
  assumes os: "quiet os"
  shows "triple os (\<lambda>p. holding_out rq old s p \<and> sg_started (pr_object p)) (act (rename_entry Parent (tg_name (rq_target rq)) Private holding_name))
    (\<lambda>_. holding_out rq old s) (aloft rq old s)"
proof (rule triple_act_stable)
  fix p v assume a: "holding_out rq old s p \<and> sg_started (pr_object p)"
    and r: "rename_entry Parent (tg_name (rq_target rq)) Private holding_name (pr_volume p) = Inr v"
  obtain e where e: "at_place rq e (pr_volume p)" "entry_at Private holding_name (pr_volume p) = None"
    and v: "v = put_entry Private holding_name e (drop_entry Parent (tg_name (rq_target rq)) (pr_volume p))"
    using r by (auto simp: rename_entry_Inr)
  have "in_flight (rq_target rq) old s (transition_record rq (pr_object p) []) (pr_volume p)" using a by (simp add: aloft_def)
  then have "e = old" by (cases rule: in_flight_cases) (use e in simp_all)
  then have "aloft rq old s (log_step v (pr_journal p) p)"
    using a e(1) by (intro aloft_move) (auto simp: v needs_recovery_after_def intro: in_flight_displaced)
  then show "holding_out rq old s (log_step v (pr_journal p) p)"
    using a by (simp add: waiting_def v)
qed (use os in \<open>simp_all add: stable_def\<close>)

lemma uncertain_out: "triple os (holding_out rq old s) uncertain (\<lambda>_. holding_out rq old s) E"
  unfolding uncertain_def by (rule triple_set) (simp add: aloft_def flags_ok_def needs_recovery_after_def waiting_def)

lemma displace_triple:
  assumes os: "quiet os"
  shows "triple os (holding_out rq old s) (displace rq) (\<lambda>_. holding_out rq old s) (aloft rq old s)"
proof -
  let ?H = "holding_out rq old s" and ?A = "aloft rq old s"
  have start: "triple os ?H (set_object (\<lambda>sg. sg\<lparr>sg_started := True, sg_preserve := True\<rparr>)) (\<lambda>_ p. ?H p \<and> sg_started (pr_object p)) ?A"
    by (rule triple_set) (simp add: aloft_def flags_ok_def needs_recovery_after_def waiting_def)
  have move: "triple os (\<lambda>p. ?H p \<and> sg_started (pr_object p))
      (on_error (io_then (act (rename_entry Parent (tg_name (rq_target rq)) Private holding_name)) (io_then sync sync)) uncertain) (\<lambda>_. ?H) ?A"
    by (rule on_error_triple, rule triple_then [OF displace_rename [OF os]], rule triple_then [OF sync_out [OF os] sync_out [OF os]],
        rule keeps_triple, rule keeps_uncertain)
  have look: "triple os ?H (entry_identity Private holding_name) (\<lambda>_. ?H) ?A" for pl n
    unfolding entry_identity_def by (rule observe_out [OF os])
  have point: "triple os ?H (checkpoint_phase rq (U ''displaced'') (\<lambda>t. t\<lparr>tr_held_entry := h\<rparr>)) (\<lambda>_. ?H) ?A" for h
    by (rule checkpoint_out) (simp_all add: settled_phase_def)
  show ?thesis
    unfolding displace_def
    by (rule triple_then [OF start], rule triple_then [OF move], rule triple_then [OF uncertain_out], rule triple_bind [OF look],
        rule triple_then [OF point], rule triple_return)
qed

lemma held_out: "quiet os \<Longrightarrow> triple os (holding_out rq old s) (held_matches rq) (\<lambda>_. holding_out rq old s) (aloft rq old s)"
proof -
  assume os: "quiet os"
  have st: "stable os (holding_out rq old s)" using os by (simp add: stable_def)
  have "keeps os (holding_out rq old s) (held_matches rq)"
    unfolding held_matches_def entry_identity_def Let_def by (intro keeps keeps_observe st)
  then show ?thesis by (rule triple_conseq [OF keeps_triple]) simp_all
qed

lemma refuse_aloft:
  assumes os: "quiet os"
  shows "triple os (aloft rq old s) (refuse_foreign rq) (\<lambda>_ _. False) (aloft rq old s)"
proof -
  have stop: "triple os (aloft rq old s) (io_then keep_private (io_raise e)) (\<lambda>_ _. False) (aloft rq old s)" for e
    by (rule triple_skip [OF keeps_uncertain(2)], rule triple_raise) simp
  have raise: "triple os (aloft rq old s) (io_raise e) (\<lambda>_ _. False) (aloft rq old s)" for e by (rule triple_raise) simp
  show ?thesis
    unfolding refuse_foreign_def
  proof (rule triple_bind [OF restore_aloft [OF os]])
    fix b show "triple os (aloft rq old s) (if b then io_raise (U ''source file changed immediately before quarantine; foreign entry restored'')
      else io_then keep_private (io_raise (U ''recovery_required: quarantined source was not the reviewed file''))) (\<lambda>_ _. False) (aloft rq old s)"
      using stop raise by (cases b) simp_all
  qed
qed

definition published_as :: "request \<Rightarrow> dir_entry \<Rightarrow> dir_entry \<Rightarrow> (transition, staging) proc \<Rightarrow> bool" where
  "published_as rq old s p \<longleftrightarrow> aloft rq old s p \<and> at_place rq s (pr_volume p)"

lemma published_frame [simp]:
  "quiet os \<Longrightarrow> published_as rq old s (next_call os p) = published_as rq old s p"
  by (simp add: published_as_def)

lemma install_triple:
  assumes os: "quiet os"
  shows "triple os (holding_out rq old s) (install rq) (\<lambda>_. published_as rq old s) (aloft rq old s)"
proof -
  let ?A = "aloft rq old s" and ?P = "published_as rq old s"
  have move: "triple os (holding_out rq old s) (act (rename_entry Private staged_name Parent (tg_name (rq_target rq)))) (\<lambda>_. ?P) ?A"
  proof (rule triple_act_stable)
    fix p v assume a: "holding_out rq old s p" and r: "rename_entry Private staged_name Parent (tg_name (rq_target rq)) (pr_volume p) = Inr v"
    have e: "entry_at Parent (tg_name (rq_target rq)) (pr_volume p) = None"
      and v: "v = put_entry Parent (tg_name (rq_target rq)) s (drop_entry Private staged_name (pr_volume p))"
      using a r by (auto simp: rename_entry_Inr waiting_def)
    have w: "entry_at Private withdrawn_name (pr_volume p) = None" using a by (simp add: waiting_def)
    have "needs_recovery_after (pr_object p)" using a e by (simp add: aloft_def flags_ok_def)
    then have "aloft rq old s (log_step v (pr_journal p) p)"
      using a in_flight_installed [OF _ e w] by (intro aloft_move) (simp_all add: v)
    then show "?P (log_step v (pr_journal p) p)" by (simp add: published_as_def v)
  qed (use os in \<open>simp_all add: stable_def\<close>)
  have gone: "triple os ?P (set_object (\<lambda>sg. sg\<lparr>sg_temp := False\<rparr>)) (\<lambda>_. ?P) ?A"
    by (rule triple_set) (auto simp: published_as_def aloft_def flags_ok_def needs_recovery_after_def)
  have synced: "triple os ?P sync (\<lambda>_. ?P) ?A"
    unfolding sync_def by (rule triple_observe_stable) (auto simp: os stable_def published_as_def)
  have handler: "triple os ?A (io_then keep_private (io_bind (try_restore_holding rq) (\<lambda>_. io_return ()))) (\<lambda>_. ?A) ?A"
    by (rule triple_skip [OF keeps_uncertain(2)], rule triple_bind [OF restore_aloft [OF os]], rule triple_return)
  show ?thesis
    unfolding install_def
    by (rule on_error_triple [OF _ handler], rule triple_then [OF move], rule triple_then [OF gone], rule triple_then [OF synced synced])
qed

text \<open>The guard that is captured is that of the staged file, because no other entry is at the place.\<close>

definition done_as :: "request \<Rightarrow> dir_entry \<Rightarrow> dir_entry \<Rightarrow> (transition, staging) proc \<Rightarrow> bool" where
  "done_as rq old s p \<longleftrightarrow> published_as rq old s p \<and> sg_published (pr_object p)"

lemma aloft_of_done: "done_as rq old s p \<Longrightarrow> aloft rq old s p"
  by (simp add: done_as_def published_as_def)

lemma capture_done:
  assumes os: "quiet os"
  shows "triple os (done_as rq old s) (capture_published rq)
    (\<lambda>g p. done_as rq old s p \<and> g = guard_json (rq_target rq) (sg_chain (pr_object p)) s) (aloft rq old s)"
proof -
  have "triple os (\<lambda>p. done_as rq old s p \<and> pr_object p = sg) (observe (physical_guard (rq_target rq) (sg_chain sg) (sg_inode sg)))
      (\<lambda>g p. done_as rq old s p \<and> g = guard_json (rq_target rq) (sg_chain (pr_object p)) s) (aloft rq old s)" for sg
    by (rule triple_observe_stable)
      (auto simp: os stable_def done_as_def published_as_def physical_guard_def split: if_splits)
  then show ?thesis unfolding capture_published_def by (rule triple_get_object)
qed

lemma confirm_triple:
  assumes os: "quiet os"
  shows "triple os (done_as rq old s) (confirm rq) (\<lambda>_. done_as rq old s) (aloft rq old s)"
proof -
  let ?D = "done_as rq old s" and ?A = "aloft rq old s"
  have look: "triple os ?D (capture_published rq) (\<lambda>_. ?D) ?A"
    by (rule triple_conseq [OF capture_done [OF os]]) auto
  have own: "triple os ?D (set_object (\<lambda>sg. sg\<lparr>sg_published_guard := g\<rparr>)) (\<lambda>_. ?D) ?A" for g
    by (rule triple_set) (simp add: done_as_def published_as_def aloft_def flags_ok_def needs_recovery_after_def)
  have point: "triple os ?D (checkpoint_phase rq (U ''published'') (\<lambda>t. t\<lparr>tr_published_guard := g\<rparr>)) (\<lambda>_. ?D) ?A" for g
  proof -
    have pub: "triple os ?D (set_object (\<lambda>sg. sg\<lparr>sg_started := b, sg_preserve := c\<rparr>)) (\<lambda>_. ?D) E" for b c E
      by (rule triple_set) (simp add: done_as_def published_as_def aloft_def flags_ok_def needs_recovery_after_def)
    have "triple os (\<lambda>p. ?D p \<and> pr_object p = sg) (commit ((transition_record rq sg ph)\<lparr>tr_published_guard := g\<rparr>)) (\<lambda>_. ?D) E" for sg ph E
      by (rule triple_commit) (auto simp: done_as_def published_as_def intro!: aloft_commit aloft_record)
    then show ?thesis
      unfolding checkpoint_phase_def by (intro triple_get_object triple_then [OF _ pub])
  qed
  have clear: "triple os ?D (set_object (\<lambda>sg. sg\<lparr>sg_uncertain := False\<rparr>)) (\<lambda>_. ?D) ?A"
    by (rule triple_set) (simp add: done_as_def published_as_def aloft_def flags_ok_def needs_recovery_after_def)
  have check: "triple os ?D (io_unless b e) (\<lambda>_. ?D) ?A" for b e
    by (rule triple_unless) (simp_all add: aloft_of_done)
  have same: "triple os (\<lambda>p. ?D p \<and> pr_object p = sg) m (\<lambda>_. ?D) ?A" if "triple os ?D m (\<lambda>_. ?D) ?A" for sg and m :: "unit staged_io"
    using that by (rule triple_pre) simp
  show ?thesis
    unfolding confirm_def
    by (rule on_error_triple, rule triple_bind [OF look], rule triple_then [OF own], rule triple_get_object, rule same,
        rule triple_then [OF check], rule triple_then [OF point clear], rule keeps_triple, rule keeps_uncertain)
qed

lemma leave_aloft: "triple os P m Q (aloft rq old s) \<Longrightarrow> triple os P m Q (left (rq_target rq) old)"
  by (erule triple_conseq) (simp_all add: left_of_aloft)

lemma publish_triple:
  assumes os: "quiet os" and t: "made rq t"
  shows "triple os (staged_as rq old t) (publish rq) (\<lambda>_. done_as rq old (with_attributes old t)) (left (rq_target rq) old)"
proof -
  let ?s = "with_attributes old t" and ?L = "left (rq_target rq) old"
  let ?H = "holding_out rq old ?s" and ?A = "aloft rq old ?s"
  have foreign: "triple os ?H (if b then io_return () else refuse_foreign rq) (\<lambda>_. ?H) ?A" for b
  proof (cases b)
    case False
    have "triple os ?H (refuse_foreign rq) (\<lambda>_. ?H) ?A"
      by (rule triple_conseq [OF refuse_aloft [OF os]]) simp_all
    then show ?thesis using False by simp
  qed (simp add: triple_return)
  have verified: "triple os ?H (checkpoint_phase rq (U ''displacement_verified'') (\<lambda>t. t\<lparr>tr_held_entry := h\<rparr>)) (\<lambda>_. ?H) ?A" for h
    by (rule checkpoint_out) (simp_all add: settled_phase_def)
  have intent: "triple os ?H (checkpoint_phase rq (U ''publication_intent'') id) (\<lambda>_. ?H) ?A"
    by (rule checkpoint_out) (simp_all add: settled_phase_def)
  have mark: "triple os (published_as rq old ?s) (set_object (\<lambda>sg. sg\<lparr>sg_published := True, sg_uncertain := True\<rparr>)) (\<lambda>_. done_as rq old ?s) ?A"
    by (rule triple_set) (simp add: done_as_def published_as_def aloft_def flags_ok_def needs_recovery_after_def)
  have rest: "triple os ?H (io_bind (displace rq) (\<lambda>held.
      io_bind (held_matches rq) (\<lambda>reviewed.
      io_then (if reviewed then io_return () else refuse_foreign rq)
      (io_then (checkpoint_phase rq (U ''displacement_verified'') (\<lambda>t. t\<lparr>tr_held_entry := held\<rparr>))
      (io_then (checkpoint_phase rq (U ''publication_intent'') id)
      (io_then (install rq)
      (io_then (set_object (\<lambda>sg. sg\<lparr>sg_published := True, sg_uncertain := True\<rparr>))
      (confirm rq)))))))) (\<lambda>_. done_as rq old ?s) ?A"
    by (rule triple_bind [OF displace_triple [OF os]], rule triple_bind [OF held_out [OF os]], rule triple_then [OF foreign],
        rule triple_then [OF verified], rule triple_then [OF intent], rule triple_then [OF install_triple [OF os]],
        rule triple_then [OF mark confirm_triple [OF os]])
  show ?thesis
    unfolding publish_def by (rule triple_then [OF prepare_triple [OF os t] leave_aloft [OF rest]])
qed

section \<open>The whole replacement\<close>

lemma close_done:
  assumes "\<And>p. P p \<Longrightarrow> sg_published (pr_object p)"
  shows "triple os P close_staged (\<lambda>_. P) E"
  unfolding triple_def close_staged_def using assms by (simp add: io_bind_def get_object_def io_return_def)

definition replacement_of :: "request \<Rightarrow> dir_entry \<Rightarrow> dir_entry \<Rightarrow> dir_entry" where
  "replacement_of rq old t1 = with_attributes old (rebound (copied rq old) t1)"

definition finished_with :: "request \<Rightarrow> (dir_entry \<Rightarrow> io_error + dir_entry) \<Rightarrow> dir_entry \<Rightarrow> json \<Rightarrow> (transition, staging) proc \<Rightarrow> bool" where
  "finished_with rq edit old g p \<longleftrightarrow>
     (\<exists>t1. edit (copied rq old) = Inr t1 \<and> done_as rq old (replacement_of rq old t1) p
        \<and> g = guard_json (rq_target rq) (sg_chain (pr_object p)) (replacement_of rq old t1))"

lemma replace_triple:
  assumes os: "quiet os"
  shows "triple os (grounded rq old) (replace_file rq edit) (finished_with rq edit old) (left (rq_target rq) old)"
proof -
  let ?L = "left (rq_target rq) old" and ?c = "copied rq old"
  have close: "triple os ?L close_staged (\<lambda>_. ?L) ?L" using close_left [OF os] by (rule keeps_triple)
  have failed: "triple os ?L (io_then close_staged (io_throw e)) (\<lambda>_. staged_as rq old ?c) ?L" for e
    by (rule triple_then [OF close], rule triple_raise)
  have staged: "triple os (grounded rq old) (io_catch (stage rq) (\<lambda>e. io_then close_staged (io_throw e))) (\<lambda>_. staged_as rq old ?c) ?L"
    by (rule triple_catch [OF stage_triple [OF os] failed])
  have publish: "triple os (\<lambda>p. \<exists>t1. edit ?c = Inr t1 \<and> staged_as rq old (rebound ?c t1) p) (io_then (publish rq) (capture_published rq))
      (finished_with rq edit old) ?L"
  proof (rule triple_ex)
    fix t1
    let ?s = "replacement_of rq old t1"
    have "triple os (staged_as rq old (rebound ?c t1)) (io_then (publish rq) (capture_published rq))
        (\<lambda>g p. done_as rq old ?s p \<and> g = guard_json (rq_target rq) (sg_chain (pr_object p)) ?s) ?L"
      unfolding replacement_of_def by (rule triple_then [OF publish_triple [OF os] leave_aloft [OF capture_done [OF os]]]) simp
    from triple_conseq [OF this] show "triple os (\<lambda>p. edit ?c = Inr t1 \<and> staged_as rq old (rebound ?c t1) p)
        (io_then (publish rq) (capture_published rq)) (finished_with rq edit old) ?L"
      by (cases "edit ?c = Inr t1") (auto simp: finished_with_def triple_def)
  qed
  have "triple os (staged_as rq old ?c)
      (io_finally (io_then (act (edit_staged edit)) (io_then (publish rq) (capture_published rq))) close_staged) (finished_with rq edit old) ?L"
    by (rule triple_finally [OF triple_then [OF edited_staged [OF os, of rq old ?c edit] publish] _ close], rule close_done)
      (auto simp: finished_with_def done_as_def)
  then show ?thesis unfolding replace_file_def by (rule triple_then [OF staged])
qed

lemma start_grounded: "reviewed rq old v \<Longrightarrow> grounded rq old (start_replacement v)"
  by (simp add: grounded_def start_replacement_def logged_recoverable_def)

lemma replacement_end:
  assumes "quiet os" and "reviewed rq old v"
  shows "case replace_file rq edit os (start_replacement v) of
    (Inr g, p) \<Rightarrow> finished_with rq edit old g p | (Inl e, p) \<Rightarrow> left (rq_target rq) old p"
  using tripleD [OF replace_triple [OF assms(1)] start_grounded [OF assms(2)], of edit]
  by (auto split: prod.splits sum.splits)

lemma left_of_finished: "finished_with rq edit old g p \<Longrightarrow> left (rq_target rq) old p"
  by (auto simp: finished_with_def intro: left_of_aloft aloft_of_done)

lemma replacement_left:
  assumes "quiet os" and "reviewed rq old v"
  shows "left (rq_target rq) old (snd (replace_file rq edit os (start_replacement v)))"
  using replacement_end [OF assms, of edit] by (auto split: prod.splits sum.splits intro: left_of_finished)

lemma guard_chain: "guard_json tg c e = guard_json tg c' e' \<Longrightarrow> c = c'"
  by (metis guard_fields(4))

text \<open>What is published has the permissions and times of the original and the contents that the editor made.\<close>

lemma imode_attributes [simp]: "imode (de_mode (with_attributes a t)) = imode (de_mode a)" "de_mtime (with_attributes a t) = de_mtime a"
  "de_size (with_attributes a t) = de_size t" "de_sha (with_attributes a t) = de_sha t" "identity (with_attributes a t) = identity t"
proof -
  have "(m - m mod 4096 + n mod 4096) mod 4096 = n mod 4096" for m n :: int
    by (simp add: minus_mod_eq_mult_div)
  then show "imode (de_mode (with_attributes a t)) = imode (de_mode a)" by (simp add: with_attributes_def imode_def)
qed (simp_all add: with_attributes_def identity_def)

lemma finished_facts:
  assumes "finished_with rq edit old g p" and "reviewed rq old v"
  obtains t t1 s where "edit t = Inr t1" "de_sha t = de_sha old" "de_size t = de_size old" "at_place rq s (pr_volume p)"
    "entry_at Private holding_name (pr_volume p) = Some old" "de_sha s = de_sha t1" "de_size s = de_size t1"
    "imode (de_mode s) = imode (de_mode old)" "de_mtime s = de_mtime old" "identity s \<noteq> identity old"
    "g = guard_json (rq_target rq) (vo_chain v) s"
proof -
  obtain t1 where t1: "edit (copied rq old) = Inr t1" and d: "done_as rq old (replacement_of rq old t1) p"
    and g: "g = guard_json (rq_target rq) (sg_chain (pr_object p)) (replacement_of rq old t1)"
    using assms(1) by (auto simp: finished_with_def)
  let ?s = "replacement_of rq old t1"
  have f: "in_flight (rq_target rq) old ?s (transition_record rq (pr_object p) []) (pr_volume p)" and pl: "at_place rq ?s (pr_volume p)"
    using d by (simp_all add: done_as_def published_as_def aloft_def)
  have held: "entry_at Private holding_name (pr_volume p) = Some old"
    using f by (cases rule: in_flight_cases) (use pl in_flight_new(2) [OF f] in simp_all)
  have "rq_guard rq = guard_json (rq_target rq) (sg_chain (pr_object p)) old"
    using f by (simp add: in_flight_def record_ok_def transition_record_def)
  then have "sg_chain (pr_object p) = vo_chain v"
    using assms(2) by (auto simp: reviewed_def dest: guard_chain)
  with g have "g = guard_json (rq_target rq) (vo_chain v) ?s" by simp
  then show ?thesis
    using that [OF t1 _ _ pl held] in_flight_new(1) [OF f]
    by (simp add: copied_def replacement_of_def rebound_def)
qed

end
