(* ===== verification/Clobbering.thy ===== *)
theory Clobbering
  imports PublicationFacts
begin

text \<open>
  What a single step of a replacement or of its recovery does to the entries that it finds, whatever other processes do before it:
  every entry stays where it is or is the one that is renamed, and only the staged file is ever changed or removed.
\<close>

definition moved :: "place \<Rightarrow> dir_entry \<Rightarrow> volume \<Rightarrow> volume \<Rightarrow> bool" where
  "moved pl e v v' \<longleftrightarrow> (\<exists>m. entry_at pl m v = None \<and> entry_at pl m v' = Some e)"

definition survives :: "ustr set \<Rightarrow> volume \<Rightarrow> volume \<Rightarrow> bool" where
  "survives own v v' \<longleftrightarrow>
     (\<forall>n e. entry_at Parent n v = Some e \<longrightarrow> entry_at Parent n v' = Some e \<or> moved Private e v v')
     \<and> (vo_operation v' = vo_operation v \<longrightarrow>
          (\<forall>n e. entry_at Private n v = Some e \<longrightarrow> n \<notin> own \<longrightarrow> entry_at Private n v' = Some e \<or> moved Parent e v v'))"

definition all_survive :: "ustr set \<Rightarrow> ('j, 'o) proc \<Rightarrow> bool" where
  "all_survive own p \<longleftrightarrow> (\<forall>(v, v', j)\<in>set (pr_log p). survives own v v')"

lemma all_survive_call [simp]: "stable os (all_survive own)"
  by (simp add: stable_def all_survive_def)

lemma survives_refl [simp]: "survives own v v"
  by (simp add: survives_def)

lemma survive_act: "(\<And>v v'. f v = Inr v' \<Longrightarrow> survives own v v') \<Longrightarrow> keeps os (all_survive own) (act f)"
  by (rule keeps_act) (auto simp: all_survive_def)

lemma survive_rename:
  assumes "rename_entry a x b y v = Inr v'" and "a \<noteq> b"
  shows "survives own v v'"
proof -
  obtain e where e: "entry_at a x v = Some e" "entry_at b y v = None" "v' = put_entry b y e (drop_entry a x v)"
    using assms(1) by (auto simp: rename_entry_Inr)
  then show ?thesis
    using assms(2) by (cases a; cases b) (auto simp: survives_def moved_def)
qed

lemma keeps_rename [keeps]: "a \<noteq> b \<Longrightarrow> keeps os (all_survive own) (act (rename_entry a x b y))"
  by (rule survive_act) (rule survive_rename)

lemma keeps_calls [keeps]:
  "keeps os (all_survive own) (observe f)" "keeps os (all_survive own) sync" "keeps os (all_survive own) (commit j)"
  "keeps os (all_survive own) (set_object h)"
  by (rule keeps_observe keeps_sync keeps_commit keeps_set; simp add: all_survive_def; fail)+

lemma keeps_own [keeps]:
  "x \<in> own \<Longrightarrow> keeps os (all_survive own) (act (unlink_entry Private x))"
  "staged_name \<in> own \<Longrightarrow> keeps os (all_survive own) (act (\<lambda>v. edit_staged (g v) v))"
  "keeps os (all_survive own) (act (make_file staged_name e))"
  "keeps os (all_survive own) (act (make_root fr))"
  "keeps os (all_survive own) (act (make_operation fr))"
  "keeps os (all_survive own) (act remove_operation)"
proof -
  show "x \<in> own \<Longrightarrow> keeps os (all_survive own) (act (unlink_entry Private x))"
    by (rule survive_act) (auto simp: unlink_entry_def survives_def split: if_splits)
  show "staged_name \<in> own \<Longrightarrow> keeps os (all_survive own) (act (\<lambda>v. edit_staged (g v) v))"
    by (rule survive_act) (auto simp: edit_staged_def survives_def split: option.splits sum.splits)
  show "keeps os (all_survive own) (act (make_file staged_name e))"
    by (rule survive_act) (auto simp: make_file_def survives_def split: if_splits)
  show "keeps os (all_survive own) (act (make_root fr))"
    by (rule survive_act) (auto simp: make_root_def survives_def entry_at_def entries_of_def split: if_splits)
  show "keeps os (all_survive own) (act (make_operation fr))"
  proof (rule survive_act)
    fix v v' assume "make_operation fr v = Inr v'"
    then show "survives own v v'"
      by (cases "vo_operation v") (auto simp: make_operation_def survives_def entry_at_def entries_of_def split: if_splits)
  qed
  show "keeps os (all_survive own) (act remove_operation)"
    by (rule survive_act) (auto simp: remove_operation_def survives_def entry_at_def entries_of_def split: if_splits)
qed

lemma keeps_checkpoint_phase [keeps]: "keeps os (all_survive own) (checkpoint_phase rq ph extra)"
  unfolding checkpoint_phase_def by (intro keeps)

lemma keeps_entry_identity [keeps]: "keeps os (all_survive own) (entry_identity pl n)"
  unfolding entry_identity_def by (intro keeps)

lemma keeps_try_restore [keeps]: "keeps os (all_survive own) (try_restore_holding rq)"
  unfolding try_restore_holding_def uncertain_def by (intro keeps) simp

lemma keeps_close [keeps]: "keeps os (all_survive {staged_name}) close_staged"
  unfolding close_staged_def remove_empty_operation_directory_def by (intro keeps) simp

lemma keeps_stage [keeps]: "keeps os (all_survive {staged_name}) (stage rq)"
  unfolding stage_def open_private_namespace_def create_temp_def copy_source_def verify_parent_def verify_source_guard_def Let_def
  by (intro keeps) simp_all

lemma keeps_publish [keeps]: "keeps os (all_survive {staged_name}) (publish rq)"
  unfolding publish_def prepare_def verify_for_publish_def check_staged_def verify_parent_def verify_source_guard_def displace_def
    held_matches_def refuse_foreign_def install_def confirm_def capture_published_def on_error_def uncertain_def keep_private_def Let_def
  by (intro keeps) simp_all

lemma keeps_replacement: "keeps os (all_survive {staged_name}) (replace_file rq edit)"
  unfolding replace_file_def capture_published_def by (intro keeps) simp_all

section \<open>Recovery\<close>

lemma keeps_names [keeps]: "keeps os (all_survive own) (safe_name n)"
  unfolding safe_name_def by (intro keeps)

lemma keeps_recovery_steps [keeps]:
  "keeps os (all_survive own) (checkpoint_recovery tr ph extra)" "keeps os (all_survive own) (evidence_at pl n)"
  "keeps os (all_survive own) (withdrawn_of tr)" "keeps os (all_survive own) (open_namespace tg tr)"
  unfolding checkpoint_recovery_def evidence_at_def withdrawn_of_def open_namespace_def Let_def by (intro keeps)+

lemma keeps_moves [keeps]:
  "keeps os (all_survive own) (restore_held tg tr holding held)" "keeps os (all_survive own) (withdraw_published tg tr holding withdrawn source)"
  unfolding restore_held_def withdraw_published_def Let_def by (intro keeps; simp)+

lemma keeps_settle [keeps]: "keeps os (all_survive own) (settle_entries tg tr holding withdrawn source held wentry)"
  unfolding settle_entries_def Let_def by (intro keeps)

lemma keeps_recover: "keeps os (all_survive own) (recover_publication tg tr)"
  unfolding recover_publication_def by (intro keeps)

end
