(* ===== verification/FinalizationFacts.thy ===== *)
theory FinalizationFacts
  imports PublicationFacts
begin

text \<open>
  The removal of the held original. It happens only while the published file is at its place, and only to an entry whose recorded
  evidence agrees.
\<close>

definition published_in_place :: "target \<Rightarrow> transition \<Rightarrow> volume \<Rightarrow> bool" where
  "published_in_place tg tr v \<longleftrightarrow>
     (\<exists>s. entry_at Parent (tg_name tg) v = Some s \<and> same_json (guard_json tg (vo_chain v) s) (tr_published_guard tr))"

definition recorded_file :: "transition \<Rightarrow> dir_entry \<Rightarrow> bool" where
  "recorded_file tr e \<longleftrightarrow>
     same_json (file_of (Some (entry_evidence e))) (source_file tr) \<or> same_json (file_of (Some (entry_evidence e))) (tr_staged_file tr)"

definition verified_step :: "target \<Rightarrow> transition \<Rightarrow> volume \<Rightarrow> volume \<Rightarrow> bool" where
  "verified_step tg tr v v' \<longleftrightarrow>
     vo_parent v' = vo_parent v
     \<and> (\<forall>n e. entry_at Private n v = Some e \<longrightarrow>
          entry_at Private n v' = Some e \<or> (published_in_place tg tr v \<and> recorded_file tr e))"

definition verified_log :: "target \<Rightarrow> transition \<Rightarrow> ('j, 'o) proc \<Rightarrow> bool" where
  "verified_log tg tr p \<longleftrightarrow> (\<forall>(v, v', j)\<in>set (pr_log p). verified_step tg tr v v')"

definition removing :: "target \<Rightarrow> transition \<Rightarrow> ('j, 'o) proc \<Rightarrow> bool" where
  "removing tg tr p \<longleftrightarrow> verified_log tg tr p \<and> published_in_place tg tr (pr_volume p)"

lemma removing_calls [simp]:
  "verified_log tg tr (next_call os p) = verified_log tg tr p"
  "verified_log tg tr (log_step v j p) \<longleftrightarrow> verified_log tg tr p \<and> verified_step tg tr (pr_volume p) v"
  "quiet os \<Longrightarrow> removing tg tr (next_call os p) = removing tg tr p"
  by (auto simp: verified_log_def removing_def)

lemma removing_stable [simp]: "stable os (verified_log tg tr)" "quiet os \<Longrightarrow> stable os (removing tg tr)"
  by (simp_all add: stable_def)

lemma in_place_frame [simp]:
  "published_in_place tg tr (drop_entry Private n v) = published_in_place tg tr v"
  "published_in_place tg tr (v\<lparr>vo_operation := x\<rparr>) = published_in_place tg tr v"
  by (simp_all add: published_in_place_def entry_at_def entries_of_def drop_entry_def set_dir_def)

lemma triple_keeps: "keeps os I m \<Longrightarrow> (\<And>p. I p \<Longrightarrow> E p) \<Longrightarrow> triple os I m (\<lambda>_. I) E"
  by (rule triple_conseq [OF keeps_triple])

lemma drop_removing:
  assumes os: "quiet os" and x: "expected = source_file tr \<or> expected = tr_staged_file tr"
  shows "keeps os (removing tg tr) (drop_if_same n expected)"
proof -
  let ?I = "removing tg tr" and ?J = "\<lambda>ev p. removing tg tr p \<and> ev = map_option entry_evidence (entry_at Private n (pr_volume p))"
  have look: "triple os ?I (evidence_at Private n) ?J ?I"
    unfolding evidence_at_def by (rule triple_observe_stable) (auto simp: os)
  have drop: "triple os (?J ev) (act (unlink_entry Private n)) (\<lambda>_. ?I) ?I" if "same_json (file_of ev) expected" for ev
  proof (rule triple_act_stable)
    fix p v assume J: "?J ev p" and u: "unlink_entry Private n (pr_volume p) = Inr v"
    obtain e where e: "entry_at Private n (pr_volume p) = Some e" "v = drop_entry Private n (pr_volume p)"
      using u by (auto simp: unlink_entry_def split: if_splits)
    have "recorded_file tr e" using that x J e(1) by (auto simp: recorded_file_def)
    then show "?I (log_step v (pr_journal p) p)"
      using J e by (auto simp: removing_def verified_step_def)
  qed (use os in \<open>auto simp: stable_def\<close>)
  have "triple os (?J ev) (if ev = None then io_return True else if \<not> same_json (file_of ev) expected then io_return False
      else io_then (act (unlink_entry Private n)) (io_return True)) (\<lambda>_. ?I) ?I" for ev
    by (auto intro!: triple_return triple_then [OF drop])
  then show ?thesis unfolding drop_if_same_def keeps_def by (rule triple_bind [OF look])
qed

lemma drop_operation_removing:
  assumes os: "quiet os"
  shows "keeps os (removing tg tr) (drop_operation tr d)"
proof -
  have rm: "keeps os (removing tg tr) (act remove_operation)"
    by (rule keeps_act) (auto simp: os removing_def verified_step_def remove_operation_def entry_at_def entries_of_def split: if_splits)
  have sn: "keeps os (removing tg tr) (safe_name n)" for n
    unfolding safe_name_def by (intro keeps)
  show ?thesis
    unfolding drop_operation_def by (intro keeps sn rm keeps_observe keeps_sync) (simp_all add: os)
qed

lemma finalize_verified:
  assumes os: "quiet os"
  shows "triple os (verified_log tg tr) (finalize_publication tg tr :: (transition, 'o, bool) io) (\<lambda>_. verified_log tg tr) (verified_log tg tr)"
proof -
  let ?W = "verified_log tg tr" and ?I = "removing tg tr"
  have sn: "keeps os ?W (safe_name n)" for n unfolding safe_name_def by (intro keeps)
  have ns: "keeps os ?W (open_namespace tg tr)"
    unfolding open_namespace_def by (intro keeps sn keeps_observe) simp_all
  have cap: "triple os ?W (observe (capture_guard tg))
      (\<lambda>g p. ?W p \<and> (\<exists>s. entry_at Parent (tg_name tg) (pr_volume p) = Some s \<and> g = guard_json tg (vo_chain (pr_volume p)) s)) ?W"
    by (rule triple_observe_stable) (auto simp: capture_guard_def physical_guard_def split: option.splits if_splits)
  have weak: "triple os ?I m (\<lambda>_. ?W) ?W" if "keeps os ?I m" for m :: "(transition, 'o, bool) io"
    by (rule triple_conseq [OF keeps_triple [OF that]]) (simp_all add: removing_def)
  have body: "keeps os ?I (io_bind (drop_if_same holding (source_file tr)) (\<lambda>b1.
      if \<not> b1 then io_return False
      else io_bind (drop_if_same staged (tr_staged_file tr)) (\<lambda>b2.
        if \<not> b2 then io_return False else io_then sync (io_then (drop_operation tr d) (io_return True)))))" for d holding staged
    by (intro keeps drop_removing drop_operation_removing keeps_sync) (simp_all add: os)
  have checked: "triple os (\<lambda>p. ?W p \<and> (\<exists>s. entry_at Parent (tg_name tg) (pr_volume p) = Some s \<and> g = guard_json tg (vo_chain (pr_volume p)) s))
      (if \<not> same_json g (tr_published_guard tr) then io_return False else m) (\<lambda>_. ?W) ?W"
    if "keeps os ?I m" for g and m :: "(transition, 'o, bool) io"
  proof (cases "same_json g (tr_published_guard tr)")
    case True
    show ?thesis using True by (auto intro!: triple_pre [OF weak [OF that]] simp: removing_def published_in_place_def)
  qed (auto intro: triple_return)
  have inner: "triple os ?W (case x of (d, staged, holding) \<Rightarrow>
      if \<not> is_dict (source_file tr) \<or> \<not> is_dict (tr_published_guard tr) then (io_return False :: (transition, 'o, bool) io)
      else io_bind (observe (capture_guard tg)) (\<lambda>actual.
        if \<not> same_json actual (tr_published_guard tr) then io_return False
        else io_bind (drop_if_same holding (source_file tr)) (\<lambda>b1.
          if \<not> b1 then io_return False
          else io_bind (drop_if_same staged (tr_staged_file tr)) (\<lambda>b2.
            if \<not> b2 then io_return False else io_then sync (io_then (drop_operation tr d) (io_return True)))))) (\<lambda>_. ?W) ?W" for x
  proof (cases x)
    case (fields d staged holding)
    show ?thesis
      unfolding fields prod.case
      by (rule triple_if, rule triple_return, assumption, rule triple_bind [OF cap checked [OF body]])
  qed
  show ?thesis
    unfolding finalize_publication_def
    by (rule triple_if, rule triple_return, assumption, rule triple_catch [where R = ?W], rule triple_bind [OF keeps_triple [OF ns] inner],
        rule triple_return)
qed

end
