(* ===== verification/PublicationProperties.thy ===== *)
theory PublicationProperties
  imports PublishRuns Clobbering FinalizationFacts
begin

text \<open>
  Properties of the replacement of files: whatever call fails and wherever the process is killed, the original is at its
  place or can be brought back, and the recovery brings it back without overwriting anything.
\<close>

section \<open>Recovery\<close>

lemma calm_safe_name: "good_token v \<Longrightarrow> safe_name v os p = (Inr (str_value v), p)"
  by (simp add: safe_name_def good_token_def io_return_def)

lemma token_names [simp]: "good_token (JStr staged_name)" "good_token (JStr holding_name)" "good_token (JStr withdrawn_name)"
  by (simp_all add: good_token_def staged_name_def holding_name_def withdrawn_name_def)

lemma calm_namespace:
  assumes "calm os" and "in_flight tg old s tr v" and "pr_volume p = v"
  obtains d where "open_namespace tg tr os p = (Inr (d, staged_name, holding_name), p\<lparr>pr_tick := pr_tick p + 3\<rparr>)"
proof -
  obtain r d where n: "vo_chain v = tr_parents tr" "vo_root v = Some r" "safe_dir (vo_device v) r" "same_dir (tr_root_identity tr) r"
    "vo_operation v = Some (str_value (tr_operation tr), d)" "di_device d = di_device r" "same_dir (tr_identity tr) d" "di_mode d = 448"
    using assms(2) unfolding in_flight_def namespace_ok_def by blast
  have rec: "record_ok tg old s tr" using assms(2) by (simp add: in_flight_def)
  then have names: "safe_name (tr_operation tr) os q = (Inr (str_value (tr_operation tr)), q)"
    "safe_name (tr_staged_name tr) os q = (Inr staged_name, q)" "safe_name (tr_holding_name tr) os q = (Inr holding_name, q)" for q :: "(transition, 'a) proc"
    by (simp_all add: record_ok_def calm_safe_name)
  have "open_namespace tg tr os p = (Inr (d, staged_name, holding_name), p\<lparr>pr_tick := pr_tick p + 3\<rparr>)"
    using n rec assms(3) names
    by (simp add: open_namespace_def io_simps calm_observe [OF assms(1)] recorded_root_def recorded_operation_def record_ok_def numeral_eq_Suc del: U_Cons U_Nil)
  then show ?thesis by (rule that)
qed

definition recovered_to :: "target \<Rightarrow> dir_entry \<Rightarrow> dir_entry \<Rightarrow> transition \<Rightarrow> (transition, 'o) proc \<Rightarrow> bool" where
  "recovered_to tg old s tr p \<longleftrightarrow>
     entry_at Parent (tg_name tg) (pr_volume p) = Some old \<and> tr_phase tr = JStr (U ''recovered'') \<and> in_flight tg old s tr (pr_volume p)"

lemma calm_evidence: "calm os \<Longrightarrow> evidence_at pl n os p = (Inr (map_option entry_evidence (entry_at pl n (pr_volume p))), p\<lparr>pr_tick := pr_tick p + 1\<rparr>)"
  by (simp add: evidence_at_def calm_observe)

lemma calm_checkpoint:
  "checkpoint_recovery tr ph f os p = (Inr (f (tr\<lparr>tr_phase := JStr ph\<rparr>)), log_step (pr_volume p) (Some (f (tr\<lparr>tr_phase := JStr ph\<rparr>))) p)"
  by (simp add: checkpoint_recovery_def io_simps Let_def)

lemma calm_restore_held:
  assumes os: "calm os" and f: "in_flight tg old s tr (pr_volume p)"
    and e: "entry_at Parent (tg_name tg) (pr_volume p) = None" "entry_at Private holding_name (pr_volume p) = Some old"
  shows "\<exists>tr' p'. restore_held tg tr holding_name (entry_evidence old) os p = (Inr tr', p') \<and> recovered_to tg old s tr' p'"
proof -
  have "in_flight tg old s tr (put_entry Parent (tg_name tg) old (drop_entry Private holding_name (pr_volume p)))"
    using in_flight_returned [OF f e(2,1)] by simp
  then show ?thesis
    using e by (simp add: restore_held_def io_simps calm_observe [OF os] calm_act [OF os] calm_evidence [OF os] calm_checkpoint
        rename_entry_def recovered_to_def del: U_Cons U_Nil)
qed

lemma calm_withdraw:
  assumes os: "calm os" and f: "in_flight tg old s tr (pr_volume p)"
    and e: "entry_at Parent (tg_name tg) (pr_volume p) = Some s" "entry_at Private holding_name (pr_volume p) = Some old"
      "entry_at Private withdrawn_name (pr_volume p) = None"
  shows "\<exists>tr' p'. withdraw_published tg tr holding_name withdrawn_name (entry_evidence s) os p = (Inr tr', p') \<and> recovered_to tg old s tr' p'"
proof -
  let ?v = "put_entry Private withdrawn_name s (drop_entry Parent (tg_name tg) (pr_volume p))"
  have v: "in_flight tg old s tr ?v" using in_flight_withdrawn [OF f e(2,1)] by simp
  have b: "in_flight tg old s tr (put_entry Parent (tg_name tg) old (drop_entry Private holding_name ?v))"
    using in_flight_returned [OF v, of old] e by simp
  have reg: "de_regular s" "de_regular old" "tr_staged_file tr = file_evidence s" "source_file tr = file_evidence old"
    using f by (simp_all add: in_flight_def record_ok_def source_file_def del: U_Cons U_Nil)
  show ?thesis
    using e b reg
    by (simp add: withdraw_published_def io_simps calm_observe [OF os] calm_act [OF os] calm_evidence [OF os] calm_checkpoint
        rename_entry_def recovered_to_def Let_def del: U_Cons U_Nil)
qed

lemma in_flight_evidence:
  assumes "in_flight tg old s tr v"
  shows "has_evidence tg tr" "source_file tr = file_evidence old" "tr_staged_file tr = file_evidence s"
    "tr_withdrawn_name tr = JStr withdrawn_name" "de_regular old" "de_regular s" "\<not> same_json (file_evidence s) (file_evidence old)"
  using assms
  by (simp_all add: in_flight_def record_ok_def has_evidence_def source_file_def equals_int_def other_file del: U_Cons U_Nil)

lemma calm_recovery:
  assumes os: "calm os" and f: "in_flight tg old s tr (pr_volume p)"
  shows "\<exists>tr' p'. recover_publication tg tr os p = (Inr tr', p') \<and> recovered_to tg old s tr' p'"
proof -
  obtain d where ns: "open_namespace tg tr os p = (Inr (d, staged_name, holding_name), p\<lparr>pr_tick := pr_tick p + 3\<rparr>)"
    using calm_namespace [OF os f] by blast
  let ?p = "p\<lparr>pr_tick := pr_tick p + 6\<rparr>" and ?v = "pr_volume p"
  let ?ev = "\<lambda>pl n. map_option entry_evidence (entry_at pl n ?v)"
  have w: "withdrawn_of tr os q = (Inr (Some withdrawn_name), q)" for q :: "(transition, 'a) proc"
    using in_flight_evidence(4) [OF f] by (simp add: withdrawn_of_def io_simps calm_safe_name)
  have "recover_publication tg tr os p
    = settle_entries tg tr holding_name (Some withdrawn_name) (?ev Parent (tg_name tg)) (?ev Private holding_name) (?ev Private withdrawn_name) os ?p"
    using ns w in_flight_evidence(1) [OF f]
    by (simp add: recover_publication_def io_simps calm_evidence [OF os] numeral_eq_Suc del: U_Cons U_Nil)
  moreover have "\<exists>tr' p'. settle_entries tg tr holding_name (Some withdrawn_name) (?ev Parent (tg_name tg)) (?ev Private holding_name)
      (?ev Private withdrawn_name) os ?p = (Inr tr', p') \<and> recovered_to tg old s tr' p'"
    using f
  proof (cases rule: in_flight_cases)
    case 1
    then show ?thesis
      using f in_flight_evidence [OF f]
      by (auto simp: settle_entries_def calm_checkpoint io_return_def recovered_to_def Let_def simp del: U_Cons U_Nil)
  next
    case 2
    have "\<exists>tr' p'. restore_held tg tr holding_name (entry_evidence old) os ?p = (Inr tr', p') \<and> recovered_to tg old s tr' p'"
      using calm_restore_held [OF os, of tg old s tr ?p] f 2 by simp
    then show ?thesis
      using 2 in_flight_evidence [OF f] by (simp add: settle_entries_def recorded_as_def Let_def del: U_Cons U_Nil)
  next
    case 3
    have "\<exists>tr' p'. withdraw_published tg tr holding_name withdrawn_name (entry_evidence s) os ?p = (Inr tr', p') \<and> recovered_to tg old s tr' p'"
      using calm_withdraw [OF os, of tg old s tr ?p] f 3 by simp
    then show ?thesis
      using 3 in_flight_evidence [OF f] by (simp add: settle_entries_def recorded_as_def Let_def del: U_Cons U_Nil)
  qed
  ultimately show ?thesis by simp
qed

section \<open>Interrupted recoveries\<close>

text \<open>Every state that a recovery makes durable is again one of the three layouts.\<close>

definition flying :: "target \<Rightarrow> dir_entry \<Rightarrow> dir_entry \<Rightarrow> transition \<Rightarrow> (transition, 'o) proc \<Rightarrow> bool" where
  "flying tg old s tr p \<longleftrightarrow>
     in_flight tg old s tr (pr_volume p) \<and> (\<forall>(v, v', j)\<in>set (pr_log p). \<exists>tr'. j = Some tr' \<and> in_flight tg old s tr' v')"

definition flying_journal :: "target \<Rightarrow> dir_entry \<Rightarrow> dir_entry \<Rightarrow> transition \<Rightarrow> (transition, 'o) proc \<Rightarrow> bool" where
  "flying_journal tg old s tr p \<longleftrightarrow>
     flying tg old s tr p \<and> (\<exists>tr'. pr_journal p = Some tr' \<and> in_flight tg old s tr' (pr_volume p))"

lemma stable_flying [simp]: "quiet os \<Longrightarrow> stable os (flying_journal tg old s tr)"
  by (simp add: stable_def flying_journal_def flying_def)

lemma keeps_checkpoint:
  assumes "\<And>t v. in_flight tg old s (f t) v = in_flight tg old s t v"
  shows "keeps os (flying_journal tg old s tr) (checkpoint_recovery tr ph f)"
  unfolding checkpoint_recovery_def Let_def
  by (intro keeps keeps_commit) (auto simp: flying_journal_def flying_def assms)

lemma keeps_return_held:
  "quiet os \<Longrightarrow> keeps os (flying_journal tg old s tr) (act (rename_entry Private holding_name Parent (tg_name tg)))"
  by (rule keeps_act) (auto simp: flying_journal_def flying_def rename_entry_Inr dest: in_flight_returned)

lemma keeps_evidence: "quiet os \<Longrightarrow> keeps os (flying_journal tg old s tr) (evidence_at pl n)"
  unfolding evidence_at_def by (simp add: keeps_observe)

lemma keeps_restore_held: "quiet os \<Longrightarrow> keeps os (flying_journal tg old s tr) (restore_held tg tr holding_name held)"
  unfolding restore_held_def
  by (intro keeps keeps_checkpoint keeps_return_held keeps_evidence keeps_sync) simp_all

definition holding_old :: "dir_entry \<Rightarrow> (transition, 'o) proc \<Rightarrow> bool" where
  "holding_old old p \<longleftrightarrow> entry_at Private holding_name (pr_volume p) = Some old"

lemma holding_old_call [simp]: "quiet os \<Longrightarrow> holding_old old (next_call os p) = holding_old old p"
  by (simp add: holding_old_def)

lemma withdraw_flying:
  assumes os: "quiet os"
  shows "triple os (\<lambda>p. flying_journal tg old s tr p \<and> holding_old old p)
    (withdraw_published tg tr holding_name withdrawn_name source) (\<lambda>_. flying_journal tg old s tr) (flying_journal tg old s tr)"
proof -
  let ?I = "flying_journal tg old s tr" and ?J = "\<lambda>p. flying_journal tg old s tr p \<and> holding_old old p"
  have keep: "triple os ?J (checkpoint_recovery tr ph f) (\<lambda>_. ?J) ?I"
    if "\<And>t v. in_flight tg old s (f t) v = in_flight tg old s t v" for ph f
    by (auto simp: triple_def calm_checkpoint flying_journal_def flying_def that holding_old_def)
  have move: "triple os ?J (act (rename_entry Parent (tg_name tg) Private withdrawn_name)) (\<lambda>_. ?I) ?I"
    by (rule triple_act)
      (use os in \<open>auto simp: flying_journal_def flying_def rename_entry_Inr holding_old_def dest: in_flight_withdrawn\<close>)
  show ?thesis
    unfolding withdraw_published_def
    by (rule triple_bind [OF keep], simp, rule triple_then [OF move], rule keeps_triple)
      (intro keeps keeps_checkpoint keeps_return_held keeps_evidence keeps_sync; simp add: os)
qed

lemma evidence_triple:
  assumes os: "quiet os" and I: "\<And>p. I (next_call os p) = I p"
  shows "triple os I (evidence_at pl n) (\<lambda>x p. I p \<and> x = map_option entry_evidence (entry_at pl n (pr_volume p))) I"
  unfolding evidence_at_def by (rule triple_observe) (use assms in auto)

lemma flying_journal_call [simp]: "quiet os \<Longrightarrow> flying_journal tg old s tr (next_call os p) = flying_journal tg old s tr p"
  by (simp add: flying_journal_def flying_def)

lemma settle_flying:
  assumes os: "quiet os"
  shows "triple os (\<lambda>p. flying_journal tg old s tr p \<and> held = map_option entry_evidence (entry_at Private holding_name (pr_volume p)))
    (settle_entries tg tr holding_name (Some withdrawn_name) source held wentry)
    (\<lambda>_. flying_journal tg old s tr) (flying_journal tg old s tr)"
proof (cases held)
  case None
  have "keeps os (flying_journal tg old s tr) (settle_entries tg tr holding_name (Some withdrawn_name) source None wentry)"
    by (cases source) (auto simp: settle_entries_def Let_def intro!: keeps keeps_checkpoint simp del: U_Cons U_Nil)
  then show ?thesis unfolding None by (rule triple_pre [OF keeps_triple]) simp
next
  case (Some h)
  let ?err = "U ''recovery_required: replacement entries cannot be reconciled without overwriting a live entry''"
  have old: "holding_old old p" if "flying_journal tg old s tr p" "held = map_option entry_evidence (entry_at Private holding_name (pr_volume p))" for p
    using that Some
    by (auto simp: flying_journal_def flying_def holding_old_def layout_def in_flight_def Let_def)
  show ?thesis
  proof (cases source)
    case None
    have "keeps os (flying_journal tg old s tr) (restore_held tg tr holding_name h)" by (rule keeps_restore_held [OF os])
    then show ?thesis unfolding Some None
      by (simp add: settle_entries_def Let_def del: U_Cons U_Nil) (rule triple_pre [OF keeps_triple], assumption, simp)
  next
    case src: (Some e)
    have "triple os (\<lambda>p. flying_journal tg old s tr p \<and> holding_old old p) (settle_entries tg tr holding_name (Some withdrawn_name) source held wentry)
      (\<lambda>_. flying_journal tg old s tr) (flying_journal tg old s tr)"
      unfolding settle_entries_def Let_def Some src
      using withdraw_flying [OF os, of tg old s tr e]
      by (auto intro: triple_raise simp del: U_Cons U_Nil)
    then show ?thesis by (rule triple_pre) (simp add: old)
  qed
qed

lemma recover_flying:
  assumes os: "quiet os" and f: "flying_journal tg old s tr p"
  shows "flying_journal tg old s tr (snd (recover_publication tg tr os p))"
proof -
  let ?I = "flying_journal tg old s tr"
  have ev: "in_flight tg old s tr (pr_volume p)" using f by (simp add: flying_journal_def flying_def)
  have names: "tr_holding_name tr = JStr holding_name" "tr_withdrawn_name tr = JStr withdrawn_name"
    using ev by (simp_all add: in_flight_def record_ok_def)
  have name: "keeps os ?I (safe_name n)" for n
    by (simp add: safe_name_def keeps del: U_Cons U_Nil)
  have obs: "keeps os ?I (observe g)" for g :: "volume \<Rightarrow> io_error + 'b" using keeps_observe stable_flying [OF os] by blast
  have holding: "triple os ?I (safe_name (tr_holding_name tr)) (\<lambda>x p. ?I p \<and> x = holding_name) ?I"
    by (simp add: triple_def names(1) calm_safe_name)
  have ns: "triple os ?I (open_namespace tg tr) (\<lambda>(d, st, h) p. ?I p \<and> h = holding_name) ?I"
    unfolding open_namespace_def
    by (rule triple_skip [OF keeps_unless], rule triple_step [OF obs], rule triple_skip [OF keeps_unless],
        rule triple_skip [OF keeps_unless], rule triple_step [OF obs], rule triple_step [OF name], rule triple_step [OF obs],
        rule triple_step [OF name], rule triple_bind [OF holding], rule triple_return) simp
  have wd: "triple os ?I (withdrawn_of tr) (\<lambda>x p. ?I p \<and> x = Some withdrawn_name) ?I"
    by (simp add: triple_def withdrawn_of_def io_simps names(2) calm_safe_name)
  let ?err = "U ''replacement recovery lacks expected source or staged content evidence''"
  let ?look = "\<lambda>h withdrawn. io_then (io_unless (has_evidence tg tr) ?err)
      (io_bind (evidence_at Parent (tg_name tg)) (\<lambda>source.
       io_bind (evidence_at Private h) (\<lambda>held.
       io_bind (case withdrawn of None \<Rightarrow> io_return None | Some n \<Rightarrow> evidence_at Private n) (\<lambda>wentry.
         settle_entries tg tr h withdrawn source held wentry))))"
  have call: "?I (next_call os p) = ?I p" for p by (simp add: os)
  have later: "triple os (\<lambda>p. ?I p \<and> held = map_option entry_evidence (entry_at Private holding_name (pr_volume p)))
      (evidence_at Private n) (\<lambda>_ p. ?I p \<and> held = map_option entry_evidence (entry_at Private holding_name (pr_volume p))) ?I" for held n
    unfolding evidence_at_def by (rule triple_observe) (simp_all add: os)
  have look: "triple os ?I (?look holding_name (Some withdrawn_name)) (\<lambda>_. ?I) ?I"
    by (rule triple_skip [OF keeps_unless], rule triple_step [OF keeps_evidence [OF os]], rule triple_bind [OF evidence_triple [of os ?I, OF os call]],
        simp only: option.case, rule triple_bind [OF later], rule settle_flying [OF os])
  have after: "triple os (\<lambda>p. ?I p \<and> h = holding_name) (io_bind (withdrawn_of tr) (?look h)) (\<lambda>_. ?I) ?I" for h
  proof (cases "h = holding_name")
    case True
    have "triple os (\<lambda>p. ?I p \<and> x = Some withdrawn_name) (?look holding_name x) (\<lambda>_. ?I) ?I" for x
      using look by (cases "x = Some withdrawn_name") (simp_all add: triple_def)
    then have "triple os ?I (io_bind (withdrawn_of tr) (?look holding_name)) (\<lambda>_. ?I) ?I" by (rule triple_bind [OF wd])
    then show ?thesis using True by simp
  qed (simp add: triple_def)
  have body: "triple os ?I (recover_publication tg tr) (\<lambda>_. ?I) ?I"
    unfolding recover_publication_def by (rule triple_bind [OF ns]) (auto intro: after simp del: U_Cons U_Nil)
  show ?thesis using keepsD [of os ?I, OF body [folded keeps_def] f] .
qed

text \<open>
  A series of recoveries of which each but the last was killed at some durable state, or raised. Calls may fail, but
  nobody else touches the files meanwhile.
\<close>

definition recovery_from :: "volume \<Rightarrow> transition \<Rightarrow> (transition, unit) proc" where
  "recovery_from v tr = \<lparr>pr_tick = 0, pr_volume = v, pr_journal = Some tr, pr_object = (), pr_log = []\<rparr>"

inductive interrupted_recoveries :: "target \<Rightarrow> volume \<times> transition \<Rightarrow> volume \<times> transition \<Rightarrow> bool" for tg where
  none: "interrupted_recoveries tg x x"
| killed: "interrupted_recoveries tg x (v, tr) \<Longrightarrow> quiet os \<Longrightarrow>
    (w, v', Some tr') \<in> set (pr_log (snd (recover_publication tg tr os (recovery_from v tr)))) \<Longrightarrow>
    interrupted_recoveries tg x (v', tr')"

lemma interrupted_flying:
  "interrupted_recoveries tg x y \<Longrightarrow> in_flight tg old s (snd x) (fst x) \<Longrightarrow> in_flight tg old s (snd y) (fst y)"
proof (induction rule: interrupted_recoveries.induct)
  case (killed x v tr os w v' tr')
  have "flying_journal tg old s tr (recovery_from v tr)"
    using killed.IH [OF killed.prems] by (simp add: flying_journal_def flying_def recovery_from_def)
  from recover_flying [OF killed.hyps(2) this] killed.hyps(3) show ?case
    by (fastforce simp: flying_journal_def flying_def)
qed simp

lemma interrupted_recovers:
  assumes "in_flight tg old s tr v" and "interrupted_recoveries tg (v, tr) (v1, tr1)" and "calm os"
  shows "\<exists>tr' p'. recover_publication tg tr1 os (recovery_from v1 tr1) = (Inr tr', p') \<and> recovered_to tg old s tr' p'"
proof -
  have "in_flight tg old s tr1 (pr_volume (recovery_from v1 tr1))"
    using interrupted_flying [OF assms(2), of old s] assms(1) by (simp add: recovery_from_def)
  then show ?thesis by (rule calm_recovery [OF assms(3)])
qed

text \<open>Without its private directory a record cannot be recovered.\<close>

lemma no_directory_no_recovery:
  assumes os: "quiet os" and v: "vo_operation v = None"
  shows "\<not> (\<exists>x p'. recover_publication tg tr os (recovery_from v tr) = (Inr x, p'))"
proof -
  let ?N = "\<lambda>p :: (transition, unit) proc. vo_operation (pr_volume p) = None"
  have st: "stable os ?N" using os by (simp add: stable_def)
  have obs: "triple os ?N (observe g) (\<lambda>_. ?N) (\<lambda>_. True)" for g :: "volume \<Rightarrow> io_error + 'b"
    by (rule triple_observe_stable [OF st]) simp_all
  have name: "triple os ?N (safe_name n) (\<lambda>_. ?N) (\<lambda>_. True)" for n
    by (simp add: safe_name_def triple_return triple_raise del: U_Cons U_Nil)
  have guard: "triple os ?N (io_unless b e) (\<lambda>_. ?N) (\<lambda>_. True)" for b e
    by (rule triple_unless) simp_all
  have gone: "triple os ?N (observe (recorded_operation tr a n)) (\<lambda>_ _. False) (\<lambda>_. True)" for a n
    by (rule triple_observe_stable [OF st]) (simp_all add: recorded_operation_def)
  have none: "triple os (\<lambda>_. False) m Q E" for m :: "(transition, unit, 'c) io" and Q E
    by (simp add: triple_def)
  have "triple os ?N (recover_publication tg tr) (\<lambda>_ _. False) (\<lambda>_. True)"
    unfolding recover_publication_def open_namespace_def
    by (rule triple_bind [where R = "\<lambda>_ _. False"], rule triple_then [OF guard], rule triple_bind [OF obs], rule triple_then [OF guard],
        rule triple_then [OF guard], rule triple_bind [OF obs], rule triple_bind [OF name], rule triple_bind [OF gone]) (rule none)+
  from tripleD [OF this, of "recovery_from v tr"] show ?thesis
    using v by (auto simp: recovery_from_def)
qed

section \<open>Properties\<close>

text \<open>C2. A replacement that is killed at any moment loses nothing. When no other process interferes, but calls may fail, every
  durable state of the run either has the reviewed file at its place with no record to act on, or has a record
  from which one undisturbed recovery returns the file to its place, even when any number of earlier recoveries were
  killed or raised.\<close>

theorem killed_replacement_recovers:
  assumes "quiet os" and "reviewed rq old v" and "(w, w', j) \<in> set (pr_log (snd (replace_file rq edit os (start_replacement v))))"
  shows "(entry_at Parent (tg_name (rq_target rq)) w' = Some old \<and> (j = None \<or> vo_operation w' = None))
    \<or> (\<exists>tr. j = Some tr \<and> (\<forall>v1 tr1 os1. interrupted_recoveries (rq_target rq) (w', tr) (v1, tr1) \<longrightarrow> calm os1 \<longrightarrow>
         (\<exists>tr' p'. recover_publication (rq_target rq) tr1 os1 (recovery_from v1 tr1) = (Inr tr', p')
            \<and> entry_at Parent (tg_name (rq_target rq)) (pr_volume p') = Some old \<and> tr_phase tr' = JStr (U ''recovered''))))"
proof -
  have "recoverable (rq_target rq) old w' j"
    using replacement_left [OF assms(1,2), of edit] assms(3) by (auto simp: left_def logged_recoverable_def)
  then show ?thesis
    using interrupted_recovers unfolding recoverable_def recovered_to_def by (metis (lifting))
qed

text \<open>C5. The outcome of a replacement is what its value and its flags say. When it returns, the file at the place has the
  contents that the editor made of a copy of the reviewed file, with the permissions and times of that file, the reviewed file is held
  beside it, and the guard that is returned describes the new file. When it raises without asking for recovery, the
  reviewed file is at its place.\<close>

theorem replacement_outcome:
  assumes "quiet os" and "reviewed rq old v"
  shows "case replace_file rq edit os (start_replacement v) of
      (Inr g, p) \<Rightarrow> \<exists>t t1 s. edit t = Inr t1 \<and> de_sha t = de_sha old \<and> de_size t = de_size old
         \<and> entry_at Parent (tg_name (rq_target rq)) (pr_volume p) = Some s \<and> de_sha s = de_sha t1 \<and> de_size s = de_size t1
         \<and> imode (de_mode s) = imode (de_mode old) \<and> de_mtime s = de_mtime old \<and> identity s \<noteq> identity old
         \<and> entry_at Private holding_name (pr_volume p) = Some old \<and> g = guard_json (rq_target rq) (vo_chain v) s
    | (Inl e, p) \<Rightarrow> needs_recovery_after (pr_object p) \<or> entry_at Parent (tg_name (rq_target rq)) (pr_volume p) = Some old"
proof (cases "replace_file rq edit os (start_replacement v)")
  case (Pair r p)
  show ?thesis
  proof (cases r)
    case (Inl e)
    then show ?thesis using replacement_end [OF assms, of edit] Pair by (auto simp: left_def flags_ok_def)
  next
    case (Inr g)
    then have "finished_with rq edit old g p" using replacement_end [OF assms, of edit] Pair by simp
    then show ?thesis
      by (rule finished_facts [OF _ assms(2)]) (use Pair Inr in \<open>simp, blast\<close>)
  qed
qed

text \<open>C6. No step of a replacement or of a recovery overwrites or destroys an entry, whatever other processes do between the
  calls and whatever calls fail: each entry of the library's directory is still under its name afterwards or is now in the
  private directory under a name that was free, and the same holds in the other direction for the private directory, the staged
  file aside. For a recovery it holds of every entry.\<close>

theorem steps_never_overwrite:
  "(\<forall>(v, v', j)\<in>set (pr_log (snd (replace_file rq edit os (start_replacement w)))). survives {staged_name} v v')
   \<and> (\<forall>(v, v', j)\<in>set (pr_log (snd (recover_publication tg tr os (recovery_from w tr)))). survives {} v v')"
  using keepsD [OF keeps_replacement [of os rq edit], of "start_replacement w"]
    keepsD [OF keeps_recover [of os "{}" tg tr], of "recovery_from w tr"]
  by (simp add: all_survive_def start_replacement_def recovery_from_def)

text \<open>C15. The held original is given up only when it is no longer needed. When no other process interferes, a step of the
  finalization happens only for a record that is complete; it leaves the library's directory alone, and an entry of the private
  directory disappears only while the file at the place has exactly the published guard, and only if it is the
  recorded original or the recorded staged file.\<close>

theorem finalization_verifies:
  assumes "quiet os" and "(v, v', j) \<in> set (pr_log (snd (finalize_publication tg tr os (recovery_from w tr))))"
  shows "tr_phase tr = JStr (U ''complete'') \<and> verified_step tg tr v v'"
proof -
  have "verified_log tg tr (recovery_from w tr)" by (simp add: verified_log_def recovery_from_def)
  then have "verified_log tg tr (snd (finalize_publication tg tr os (recovery_from w tr)))"
    using keepsD [OF finalize_verified [OF assms(1), folded keeps_def]] by blast
  moreover have "tr_phase tr = JStr (U ''complete'')"
    by (rule ccontr) (use assms(2) in \<open>simp add: finalize_publication_def io_return_def recovery_from_def\<close>)
  ultimately show ?thesis using assms(2) by (auto simp: verified_log_def)
qed

end
