(* ===== verification/PublicationWitness.thy ===== *)
theory PublicationWitness
  imports PublicationProperties
begin

text \<open>One concrete replacement, run on calls that succeed and on calls of which some fail.\<close>

section \<open>A file in a directory\<close>

definition sample_target :: target where
  "sample_target = \<lparr>tg_path = U ''/m/a'', tg_name = U ''a'', tg_root = JNull\<rparr>"

definition sample_chain :: json where
  "sample_chain = JList []"

definition sample_old :: dir_entry where
  "sample_old = \<lparr>de_device = 1, de_inode = 10, de_mode = 33188, de_size = 3, de_mtime = 5, de_regular = True, de_sha = U ''o''\<rparr>"

definition sample_file :: dir_entry where
  "sample_file = \<lparr>de_device = 1, de_inode = 11, de_mode = 33152, de_size = 0, de_mtime = 7, de_regular = True, de_sha = []\<rparr>"

definition sample_dir :: "int \<Rightarrow> dir_id" where
  "sample_dir i = \<lparr>di_device = 1, di_inode = i, di_mode = 448, di_owned = True\<rparr>"

definition sample_request :: request where
  "sample_request =
     \<lparr>rq_target = sample_target, rq_guard = guard_json sample_target sample_chain sample_old, rq_purpose = U ''apply'',
      rq_fresh = \<lparr>fr_token = U ''t'', fr_root = sample_dir 20, fr_operation = sample_dir 21, fr_file = sample_file\<rparr>\<rparr>"

definition sample_volume :: volume where
  "sample_volume =
     \<lparr>vo_chain = sample_chain, vo_device = 1, vo_parent = [(U ''a'', sample_old)], vo_root = None, vo_operation = None, vo_private = []\<rparr>"

definition retag :: "dir_entry \<Rightarrow> io_error + dir_entry" where
  "retag t = Inr (t\<lparr>de_size := 4, de_mtime := 99, de_sha := U ''n''\<rparr>)"

definition failing_at :: "nat \<Rightarrow> os" where
  "failing_at n = \<lparr>os_fail = (\<lambda>k. if k = n then Some (U ''EIO'') else None), os_env = (\<lambda>_ v. v)\<rparr>"

definition sample_run :: "nat \<Rightarrow> (io_error + json) \<times> (transition, staging) proc" where
  "sample_run n = replace_file sample_request retag (failing_at n) (start_replacement sample_volume)"

section \<open>Evaluation\<close>

lemma run_bind: "io_bind m f os p = (case m os p of (r, p1) \<Rightarrow> (case r of Inl e \<Rightarrow> (Inl e, p1) | Inr x \<Rightarrow> f x os p1))"
  and run_then: "io_then m n os p = (case m os p of (r, p1) \<Rightarrow> (case r of Inl e \<Rightarrow> (Inl e, p1) | Inr x \<Rightarrow> n os p1))"
  and run_catch: "io_catch m h os p = (case m os p of (r, p1) \<Rightarrow> (case r of Inl e \<Rightarrow> h e os p1 | Inr x \<Rightarrow> (Inr x, p1)))"
  and run_finally: "io_finally m c os p =
    (case m os p of (r, p1) \<Rightarrow> (case c os p1 of (q, p2) \<Rightarrow> (case q of Inl e \<Rightarrow> (Inl e, p2) | Inr _ \<Rightarrow> (r, p2))))"
  and run_return: "io_return x os p = (Inr x, p)"
  and run_throw: "io_throw e os p = (Inl e, p)"
  and run_raise: "io_raise t os p = (Inl (IoError t), p)"
  and run_unless: "io_unless b t os p = (if b then Inr () else Inl (IoError t), p)"
  and run_get: "get_object os p = (Inr (pr_object p), p)"
  and run_set: "set_object g os p = (Inr (), p\<lparr>pr_object := g (pr_object p)\<rparr>)"
  and run_commit: "commit j os p = (Inr (), log_step (pr_volume p) (Some j) p)"
  by (simp_all add: io_bind_def io_then_def io_catch_def io_finally_def io_return_def io_throw_def io_raise_def io_unless_def
      get_object_def set_object_def commit_def split: prod.splits sum.splits)

lemma run_observe:
  "observe f (failing_at n) p = (if pr_tick p = n then Inl (IoError (U ''EIO'')) else f (pr_volume p), p\<lparr>pr_tick := pr_tick p + 1\<rparr>)"
  by (simp add: observe_def failing_at_def next_call_def Let_def)

lemma run_act:
  "act f (failing_at n) p = (if pr_tick p = n then (Inl (IoError (U ''EIO'')), p\<lparr>pr_tick := pr_tick p + 1\<rparr>)
    else case f (pr_volume p) of Inl e \<Rightarrow> (Inl e, p\<lparr>pr_tick := pr_tick p + 1\<rparr>)
      | Inr v \<Rightarrow> (Inr (), log_step v (pr_journal p) (p\<lparr>pr_tick := pr_tick p + 1\<rparr>)))"
  by (simp add: act_def failing_at_def next_call_def Let_def split: sum.splits)

lemma run_sync: "sync (failing_at n) p = (if pr_tick p = n then Inl (IoError (U ''EIO'')) else Inr (), p\<lparr>pr_tick := pr_tick p + 1\<rparr>)"
  by (simp add: sync_def run_observe)

lemma run_entries:
  "entry_at Parent n v = map_of (vo_parent v) n" "entry_at Private n v = map_of (vo_private v) n"
  "put_entry Parent n e v = v\<lparr>vo_parent := AList.update n e (vo_parent v)\<rparr>"
  "put_entry Private n e v = v\<lparr>vo_private := AList.update n e (vo_private v)\<rparr>"
  "drop_entry Parent n v = v\<lparr>vo_parent := AList.delete n (vo_parent v)\<rparr>"
  "drop_entry Private n v = v\<lparr>vo_private := AList.delete n (vo_private v)\<rparr>"
  by (simp_all add: entry_at_def entries_of_def put_entry_def drop_entry_def set_dir_def)

lemma run_phases:
  "settled_phase (U ''stage_ready'')" "settled_phase (U ''compensated'')" "\<not> settled_phase (U ''displace_intent'')"
  "\<not> settled_phase (U ''displaced'')" "\<not> settled_phase (U ''displacement_verified'')" "\<not> settled_phase (U ''publication_intent'')"
  "\<not> settled_phase (U ''published'')" "\<not> settled_phase (U ''compensation_intent'')" "U ''compensated'' \<noteq> U ''published''"
  "U ''stage_ready'' \<noteq> U ''published''" "U ''.muzilla.tmp'' \<noteq> []"
  by (simp_all add: settled_phase_def)

lemmas run_calls = run_bind run_then run_catch run_finally run_return run_throw run_raise run_unless run_get run_set run_commit
  run_observe run_act run_sync run_entries run_phases Let_def log_step_def identity_def

lemmas run_staging = stage_def open_private_namespace_def make_root_def make_operation_def open_root_def open_operation_def create_temp_def
  make_file_def copy_source_def verify_parent_def verify_source_guard_def open_source_def physical_guard_def safe_dir_def edit_staged_def
  read_source_def close_staged_def remove_empty_operation_directory_def remove_operation_def unlink_entry_def

lemmas run_publishing = publish_def prepare_def verify_for_publish_def check_staged_def displace_def held_matches_def refuse_foreign_def
  try_restore_holding_def install_def confirm_def capture_published_def on_error_def uncertain_def keep_private_def entry_identity_def
  staged_evidence_def rename_entry_def checkpoint_phase_def replace_file_def retag_def

lemma run_sample:
  "tg_name sample_target = U ''a''" "rq_target sample_request = sample_target"
  "rq_guard sample_request = guard_json sample_target sample_chain sample_old"
  "fr_token (rq_fresh sample_request) = U ''t''" "fr_root (rq_fresh sample_request) = sample_dir 20"
  "fr_operation (rq_fresh sample_request) = sample_dir 21" "fr_file (rq_fresh sample_request) = sample_file"
  "de_regular sample_old" "de_device sample_old = 1" "de_inode sample_old = 10"
  "de_regular sample_file" "de_device sample_file = 1" "de_inode sample_file = 11"
  "di_device (sample_dir i) = 1" "di_mode (sample_dir i) = 448" "di_owned (sample_dir i)"
  "vo_chain sample_volume = sample_chain" "vo_device sample_volume = 1" "vo_parent sample_volume = [(U ''a'', sample_old)]"
  "vo_root sample_volume = None" "vo_operation sample_volume = None" "vo_private sample_volume = []"
  "sg_open new_staging = False" "sg_temp new_staging = False" "sg_published new_staging = False" "sg_uncertain new_staging = False"
  "sg_started new_staging = False" "sg_preserve new_staging = False"
  by (simp_all add: sample_target_def sample_request_def sample_old_def sample_file_def sample_dir_def sample_volume_def new_staging_def)

lemma run_attributes:
  "de_regular (with_attributes a t) = de_regular t" "de_device (with_attributes a t) = de_device t" "de_inode (with_attributes a t) = de_inode t"
  by (simp_all add: with_attributes_def)

lemmas evaluate = run_calls run_staging run_publishing run_sample run_attributes sample_run_def start_replacement_def

lemma quiet_failing [simp]: "quiet (failing_at n)"
  by (simp add: quiet_def failing_at_def)

lemma sample_reviewed: "reviewed sample_request sample_old sample_volume"
  by (simp add: reviewed_def run_sample sample_chain_def entry_at_def entries_of_def good_token_def identity_def)

text \<open>The calls are numbered: the displacement is call 25, the publication call 30.\<close>

lemma run_returns:
  "\<not> isl (fst (sample_run 100)) \<and> list_ex (\<lambda>(w, w', j). entry_at Parent (U ''a'') w' = None \<and> j \<noteq> None) (pr_log (snd (sample_run 100)))"
  by (simp add: evaluate del: U_Cons U_Nil)

lemma run_compensated:
  "case sample_run 30 of (r, p) \<Rightarrow> isl r \<and> \<not> needs_recovery_after (pr_object p) \<and> entry_at Parent (U ''a'') (pr_volume p) = Some sample_old
    \<and> vo_operation (pr_volume p) = None \<and> map_option tr_phase (pr_journal p) = Some (JStr (U ''compensated''))"
  by (simp add: evaluate needs_recovery_after_def transition_record_def del: U_Cons U_Nil)

section \<open>Properties at these runs\<close>

definition calm_os :: os where
  "calm_os = \<lparr>os_fail = (\<lambda>_. None), os_env = (\<lambda>_ v. v)\<rparr>"

lemma calm_calm [simp]: "calm calm_os" "quiet calm_os"
  by (simp_all add: calm_def quiet_def calm_os_def)

lemma displaced_state:
  obtains w w' tr where "(w, w', Some tr) \<in> set (pr_log (snd (sample_run 100)))" "entry_at Parent (U ''a'') w' = None"
  using run_returns by (auto simp: list_ex_iff simp del: U_Cons U_Nil)

theorem killed_replacement_recovers_witness:
  "\<exists>w' tr tr' p'. entry_at Parent (U ''a'') w' = None
     \<and> recover_publication sample_target tr calm_os (recovery_from w' tr) = (Inr tr', p')
     \<and> entry_at Parent (U ''a'') (pr_volume p') = Some sample_old \<and> tr_phase tr' = JStr (U ''recovered'')"
proof -
  obtain w w' tr where l: "(w, w', Some tr) \<in> set (pr_log (snd (sample_run 100)))" "entry_at Parent (U ''a'') w' = None"
    by (rule displaced_state)
  have "\<exists>tr' p'. recover_publication sample_target tr calm_os (recovery_from w' tr) = (Inr tr', p')
      \<and> entry_at Parent (tg_name sample_target) (pr_volume p') = Some sample_old \<and> tr_phase tr' = JStr (U ''recovered'')"
    using killed_replacement_recovers [OF quiet_failing sample_reviewed l(1) [unfolded sample_run_def]] l(2)
      interrupted_recoveries.none [of sample_target "(w', tr)"] calm_calm(1)
    by (simp add: run_sample del: U_Cons U_Nil)
  with l(2) show ?thesis by (auto simp: run_sample simp del: U_Cons U_Nil)
qed

theorem replacement_outcome_witness:
  "\<exists>g p s. sample_run 100 = (Inr g, p) \<and> entry_at Parent (U ''a'') (pr_volume p) = Some s \<and> de_sha s = U ''n'' \<and> de_mtime s = 5"
proof (cases "sample_run 100")
  case (Pair r p)
  then obtain g where g: "sample_run 100 = (Inr g, p)" using run_returns by (cases r) auto
  have "de_mtime sample_old = 5" by (simp add: sample_old_def)
  then show ?thesis
    using replacement_outcome [OF quiet_failing sample_reviewed, of retag 100] g
    by (fastforce simp: sample_run_def [symmetric] retag_def run_sample simp del: U_Cons U_Nil)
qed

text \<open>A replacement that has been displaced, and one that is complete.\<close>

definition sample_new :: dir_entry where
  "sample_new = sample_file\<lparr>de_size := 4, de_sha := U ''n''\<rparr>"

definition sample_record :: transition where
  "sample_record = transition_record sample_request
     (new_staging\<lparr>sg_chain := sample_chain, sg_root_identity := dir_evidence (sample_dir 20), sg_identity := dir_evidence (sample_dir 21),
        sg_token := U ''t'', sg_staged_file := file_evidence sample_new\<rparr>) (U ''displaced'')"

definition complete_record :: transition where
  "complete_record = sample_record\<lparr>tr_phase := JStr (U ''complete''), tr_published_guard := guard_json sample_target sample_chain sample_new\<rparr>"

definition opened_volume :: "dir \<Rightarrow> dir \<Rightarrow> volume" where
  "opened_volume parent private = sample_volume\<lparr>vo_parent := parent, vo_root := Some (sample_dir 20),
     vo_operation := Some (U ''t'', sample_dir 21), vo_private := private\<rparr>"

definition displaced_volume :: volume where
  "displaced_volume = opened_volume [] [(staged_name, sample_new), (holding_name, sample_old)]"

definition complete_volume :: volume where
  "complete_volume = opened_volume [(U ''a'', sample_new)] [(holding_name, sample_old)]"

lemma sample_in_flight: "in_flight sample_target sample_old sample_new sample_record displaced_volume"
proof -
  have rec: "record_ok sample_target sample_old sample_new sample_record"
    by (simp add: record_ok_def compatible_record_def sample_record_def transition_record_def run_sample sample_chain_def
        good_token_def equals_int_def)
  have ns: "namespace_ok sample_record displaced_volume"
    by (simp add: namespace_ok_def sample_record_def transition_record_def displaced_volume_def opened_volume_def run_sample safe_dir_def)
  show ?thesis
    using rec ns
    by (simp add: in_flight_def layout_def displaced_volume_def opened_volume_def run_sample run_entries sample_new_def identity_def
        del: U_Cons U_Nil)
qed

lemmas run_recovery = recover_publication_def open_namespace_def withdrawn_of_def evidence_at_def settle_entries_def restore_held_def
  checkpoint_recovery_def recorded_root_def recorded_operation_def finalize_publication_def drop_if_same_def drop_operation_def
  capture_guard_def

lemma sample_names:
  "safe_name (JStr (U ''t'')) os p = (Inr (U ''t''), p)" "safe_name (JStr staged_name) os p = (Inr staged_name, p)"
  "safe_name (JStr holding_name) os p = (Inr holding_name, p)" "safe_name (JStr withdrawn_name) os p = (Inr withdrawn_name, p)"
proof -
  have "good_token (JStr (U ''t''))" by (simp add: good_token_def)
  from calm_safe_name [OF this, of os p] show "safe_name (JStr (U ''t'')) os p = (Inr (U ''t''), p)" by (simp del: U_Cons U_Nil)
qed (use calm_safe_name [of _ os p] token_names in \<open>simp_all del: U_Cons U_Nil\<close>)

lemma sample_compatible: "compatible_record sample_target sample_record" "has_evidence sample_target sample_record"
  "source_file sample_record = file_evidence sample_old" "tr_staged_file sample_record = file_evidence sample_new"
  using sample_in_flight in_flight_evidence(1,2,3) [OF sample_in_flight] by (simp_all add: in_flight_def record_ok_def)

lemma sample_fields:
  "tr_parents sample_record = sample_chain" "tr_operation sample_record = JStr (U ''t'')" "tr_staged_name sample_record = JStr staged_name"
  "tr_holding_name sample_record = JStr holding_name" "tr_withdrawn_name sample_record = JStr withdrawn_name"
  "tr_root_identity sample_record = dir_evidence (sample_dir 20)" "tr_identity sample_record = dir_evidence (sample_dir 21)"
  "tr_phase sample_record = JStr (U ''displaced'')"
  by (simp_all add: sample_record_def transition_record_def)

lemma run_restores:
  "pr_log (snd (recover_publication sample_target sample_record (failing_at 100) (recovery_from displaced_volume sample_record))) \<noteq> []"
  by (simp add: run_calls run_recovery run_sample sample_names sample_compatible sample_fields recovery_from_def displaced_volume_def
      opened_volume_def safe_dir_def rename_entry_def recorded_as_def del: U_Cons U_Nil)

theorem steps_never_overwrite_witness:
  "\<exists>w w' x x'. entry_at Parent (U ''a'') w' = None \<and> survives {staged_name} w w' \<and> survives {} x x'"
proof -
  obtain w w' tr where l: "(w, w', Some tr) \<in> set (pr_log (snd (sample_run 100)))" "entry_at Parent (U ''a'') w' = None"
    by (rule displaced_state)
  obtain x x' k where m: "(x, x', k) \<in> set (pr_log (snd (recover_publication sample_target sample_record (failing_at 100)
      (recovery_from displaced_volume sample_record))))"
    using run_restores by (metis list.set_intros(1) neq_Nil_conv prod_cases3)
  have "survives {staged_name} w w'"
    using bspec [OF conjunct1 [OF steps_never_overwrite] l(1) [unfolded sample_run_def]] by simp
  moreover have "survives {} x x'"
    using bspec [OF conjunct2 [OF steps_never_overwrite] m] by simp
  ultimately show ?thesis using l(2) by blast
qed

lemma complete_fields:
  "tr_parents complete_record = sample_chain" "tr_operation complete_record = JStr (U ''t'')" "tr_staged_name complete_record = JStr staged_name"
  "tr_holding_name complete_record = JStr holding_name" "tr_withdrawn_name complete_record = JStr withdrawn_name"
  "tr_root_identity complete_record = dir_evidence (sample_dir 20)" "tr_identity complete_record = dir_evidence (sample_dir 21)"
  "tr_phase complete_record = JStr (U ''complete'')" "tr_staged_file complete_record = file_evidence sample_new"
  "tr_published_guard complete_record = guard_json sample_target sample_chain sample_new"
  "source_file complete_record = file_evidence sample_old" "compatible_record sample_target complete_record"
  "de_regular sample_new"
proof -
  show "source_file complete_record = file_evidence sample_old"
    using sample_compatible(3) by (simp add: complete_record_def source_file_def split: if_split_asm del: U_Cons U_Nil)
qed (use sample_compatible in \<open>simp_all add: complete_record_def sample_fields sample_new_def run_sample\<close>)

lemma run_finalizes:
  "list_ex (\<lambda>(v, v', j). entry_at Private holding_name v = Some sample_old \<and> entry_at Private holding_name v' = None)
     (pr_log (snd (finalize_publication sample_target complete_record (failing_at 100) (recovery_from complete_volume complete_record))))"
  by (simp add: run_calls run_staging run_recovery run_sample sample_names complete_fields recovery_from_def complete_volume_def opened_volume_def
      del: U_Cons U_Nil)

theorem finalization_verifies_witness:
  "\<exists>v v'. entry_at Private holding_name v = Some sample_old \<and> entry_at Private holding_name v' = None
     \<and> tr_phase complete_record = JStr (U ''complete'') \<and> verified_step sample_target complete_record v v'"
proof -
  obtain v v' j where l: "(v, v', j) \<in> set (pr_log (snd (finalize_publication sample_target complete_record (failing_at 100)
      (recovery_from complete_volume complete_record))))"
    "entry_at Private holding_name v = Some sample_old" "entry_at Private holding_name v' = None"
    using run_finalizes by (auto simp: list_ex_iff)
  with finalization_verifies [OF quiet_failing l(1)] show ?thesis by blast
qed

text \<open>C40. A replacement can end compensated and beyond recovery. When call 30 of the run, the rename of the publication,
  fails, the original goes back to its place, the record says compensated and no flag asks for recovery; closing then removes
  the private directory, so that no recovery of the record returns any more, although the file is intact.\<close>

theorem compensated_not_recoverable:
  "\<exists>e p tr. replace_file sample_request retag (failing_at 30) (start_replacement sample_volume) = (Inl e, p)
     \<and> \<not> needs_recovery_after (pr_object p) \<and> entry_at Parent (tg_name sample_target) (pr_volume p) = Some sample_old
     \<and> pr_journal p = Some tr \<and> tr_phase tr = JStr (U ''compensated'')
     \<and> \<not> (\<exists>os x p'. quiet os \<and> recover_publication sample_target tr os (recovery_from (pr_volume p) tr) = (Inr x, p'))"
proof (cases "sample_run 30")
  case (Pair r p)
  then show ?thesis
    using run_compensated no_directory_no_recovery [of _ "pr_volume p"]
    by (cases r) (auto simp: sample_run_def [symmetric] run_sample simp del: U_Cons U_Nil)
qed

end
