(* ===== verification/Spec2Isabelle.thy ===== *)
theory Spec2Isabelle
  imports PathProperties ReviewWitness JobWitness MatchWitness ApplyWitness UndoWitness PublicationWitness
begin

text \<open>
  Muzilla catalogues a music library, proposes changes to tags, covers and file paths, lets a user review them
  and applies what was accepted through a queue of background jobs. This library models that core
  (\<open>src/src/muzilla/\<close>) and proves what makes it correct.

  \<^bold>\<open>How the parts interact.\<close> The matching engine ranks the releases that providers return for local tracks;
  the path engine computes where files should live. Both end as operations of a \<^emph>\<open>revision\<close> of a review
  bundle. The review service keeps the revisions, records decisions and starts apply runs. An apply run
  is a job of the queue, whose worker leases it, heartbeats and reports; the tasks of a review follow its jobs.

  \<^bold>\<open>Foundations.\<close> \<open>Prelude\<close>: results (\<open>Inl\<close> an exception, \<open>Inr\<close> a value) and list facts. \<open>PyText\<close>: Python strings as
  lists of code points, with the parts of the standard library the code calls. \<open>Json\<close>: JSON
  columns. \<open>Lifecycle\<close>: the locale of state machines that follow a table of transitions, interpreted for
  review bundles and for jobs.

  \<^bold>\<open>Paths\<close> (\<open>paths/\<close>, \<open>pipeline/paths.py\<close>, \<open>domain/fields.py\<close>). \<open>PathLexer\<close>, \<open>PathParser\<close>, \<open>PathFunctions\<close>,
  \<open>PathCompiler\<close>, \<open>PathSanitize\<close>, \<open>PathRender\<close>, \<open>PathQuery\<close>, \<open>PathCollisions\<close>, \<open>PathPreview\<close> and
  \<open>FieldRegistry\<close> follow the modules of these names; \<open>PathProperties\<close> has the properties: the
  compiled template means what the syntax tree means, printing and parsing round trip, sanitized
  components fit their limits, collisions are found exactly and previews flag them, except those with a
  batch row whose own rendering failed, which stays in place but is not compared with. The parser's mutual
  recursion carries fuel, bounded by the number of tokens and proved sufficient; its nesting limit is the code's.

  \<^bold>\<open>Reviews\<close> (\<open>domain/reviews.py\<close>, \<open>pipeline/reviews.py\<close>, \<open>db/source_snapshots.py\<close>, migration 0015).
  \<open>ReviewStore\<close> has the tables as records of rows, \<open>ReviewLifecycle\<close> the state graph and the database
  triggers, \<open>SourceSnapshots\<close> the evidence about files, \<open>ReviewInbox\<close> the inbox projection,
  \<open>ReviewRevisions\<close> the writing of revisions, \<open>ReviewTasks\<close> tasks and decisions, \<open>ReviewApply\<close> the start of an
  apply run. \<open>BundleProtocol\<close> is the abstract protocol of bundles, and \<open>ReviewSteps\<close> the step relation
  whose steps are the calls of nine operations of the service; it refines the protocol. The withdrawal of a proposal in
  flight by the match handler and the administrative reset, which delete rows, are outside its histories. The other theories
  (\<open>ReviewRevisionFacts\<close>, \<open>ReviewRevisionProperties\<close>, \<open>ReviewProperties\<close>, \<open>ReviewWitness\<close>) show that keys of
  active bundles are distinct, that one revision is current, that decisions are recorded exactly
  and carried to equal operations, and that a run starts only when its evidence is complete.

  \<^bold>\<open>Jobs\<close> (\<open>jobs/queue.py\<close>). \<open>JobQueue\<close> has enqueueing, leasing, heartbeats, outcomes and cancellation, \<open>JobRecovery\<close>
  the sweep after a crash, \<open>JobFacts\<close>, \<open>JobProperties\<close>, \<open>JobLog\<close> and \<open>JobWitness\<close> the properties: one
  execution owns a job, stale executions are refused, histories follow the lifecycle, the
  sweep spares live jobs and never replays file work, the event log has no gaps and paging is complete.
  Retries after a busy database are bounded by the code's own five attempts.

  \<^bold>\<open>Matching\<close> (\<open>matching/\<close>). \<open>MatchScoring\<close> has weighted distances, alignments and scores, \<open>MatchRanking\<close> duplicates,
  ranking, decisions and the two proposals, \<open>MatchFacts\<close>, \<open>MatchProperties\<close> and \<open>MatchWitness\<close> the
  properties: the rows of a proposal are explained by their signals, rankings keep all candidates and promote only
  near-equal ones, strong decisions have no rival within the gap, alignments are complete.

  \<^bold>\<open>Apply runs\<close> (\<open>changes/bundle_applier.py\<close>, \<open>changes/writer.py\<close>, \<open>changes/conflicts.py\<close>). \<open>ApplyStore\<close> has tracks, work
  units, the file journal, attempts and the record \<open>disk\<close> of what the code asks of the file system. \<open>FileWriter\<close>
  writes tags and moves of one file, \<open>ApplySource\<close> decides which file facts a run may rely on, \<open>ApplyPreflight\<close> checks
  all files before the first write, \<open>GroupingCorrection\<close> regroups tracks, \<open>ApplyRollback\<close> reverses journaled effects,
  \<open>ApplyExecution\<close> is the run, \<open>ApplyRecovery\<close> the global reconciliation of interrupted runs,
  which the service offers but the application does not call at startup. \<open>ApplyFacts\<close>, \<open>ApplyRollbackFacts\<close>,
  \<open>ApplyProgress\<close> and \<open>ApplyFrames\<close> have the facts about whose rows a run changes; \<open>ApplyProperties\<close>, \<open>RecoveryProperties\<close>,
  \<open>RollbackProperties\<close> and \<open>ApplyWitness\<close> show that a run applies everything or leaves nothing applied unless it asks
  for recovery, that a refused run writes nothing, that a finished one is not repeated, that the global reconciliation, when
  it is called, settles every interrupted run, and what a rollback gives back. Loops run over the entries of the manifest.

  \<^bold>\<open>Undo runs\<close> (\<open>changes/bundle_undo.py\<close>, \<open>services/review_undo.py\<close>). \<open>UndoStore\<close> reads the frozen manifest and its execution
  checkpoints and upgrades old ones, \<open>UndoPreflight\<close> has the checks before the first step, \<open>UndoExecution\<close> the run step by
  step, \<open>UndoRecovery\<close> the reconciliation of an interrupted step, \<open>UndoRequest\<close> the service that freezes the inverse and
  publishes the job. \<open>UndoProtocol\<close> states the write-ahead protocol as a ledger of journal rows and as a relation with one
  rule per commit, and says what one durable state may change against the one before it (\<open>write_ahead\<close>); the world carries
  the log of the durable states of the executor, and \<open>UndoRefinement\<close> shows that it takes only such commits, the disk
  changing by the effect of a step whose intent is committed; \<open>UndoFacts\<close> has the facts about
  manifests and checkpoints. \<open>UndoProperties\<close>, \<open>UndoGuarantees\<close>, \<open>UndoFreeze\<close>, \<open>UndoEffects\<close> and \<open>UndoWitness\<close> show that a run always
  returns and writes ahead, that every state a crash can leave is consistent, that a reconciliation gives back the
  interrupted step and keeps the completed ones, that an undo which starts and is not cancelled completes or stops at one
  inverse effect that raised, that \<open>undone\<close> means everything is rolled back, that one drifted file blocks the run, that a cancelled run stops between
  files, and that a step does what the rollback of an apply run does. The attempts of the world are those of the
  source run; what a replacement or a case-only rename checkpoints for itself belongs to \<open>undo_disk\<close>.

  \<^bold>\<open>File replacement\<close> (\<open>_StagedReplacement\<close> and the recovery functions of \<open>changes/writer.py\<close>). This is the inside of the effect
  that the runs above ask of \<open>disk\<close> when tags are written or restored. \<open>FileIO\<close> has directory entries and computations that
  make system calls, each of which may fail and between which other processes may act, with a log of every durable
  state, and Hoare triples with a postcondition for exceptions. \<open>StagedReplacement\<close> stages the copy and closes,
  \<open>PublishFile\<close> publishes and compensates, \<open>PublicationRecovery\<close> recovers, finalizes and cleans up. \<open>PublicationFacts\<close>
  names the three places where the protocol leaves the original and the staged file, \<open>ReplacementRuns\<close> and \<open>PublishRuns\<close> carry
  assertions through a run that nobody disturbs, \<open>Clobbering\<close> judges single steps under any interference and
  \<open>FinalizationFacts\<close> the removal of the original. \<open>PublicationProperties\<close> and \<open>PublicationWitness\<close> show that a kill at any moment
  loses nothing, what a run that returns or raises has done, that no step overwrites a foreign entry, and when the
  original is given up. Names drawn at random are new, commits succeed, a rename is atomic, and observations
  through one descriptor are one call.

  \<^bold>\<open>Parameters.\<close> Code outside \<open>src/\<close> is an argument of the definitions: Unicode tables and case mapping
  (\<open>pystd\<close>), \<open>repr\<close>, SHA-256 digests, the clock, the errors of a busy database, RapidFuzz's ratios, SciPy's
  assignment solver, and the file system with the tag library (\<open>disk\<close>: observations and effects, each with its
  failures; for the runs, replacements and guarded renames are single effects). Theorems that need one of their
  documented laws name it as a hypothesis, and their witnesses instantiate it. Floating point scores are
  exact rationals. Commits of the database succeed.

  \<^bold>\<open>Not modelled.\<close> The steps inside guarded and case-only renames, the decoding of audio files, HTTP clients of
  providers, the web server and its client, the command line and the migrations, which are I/O around the
  core; and the building of proposals, scanning, grouping and the
  provider cache, each listed with its reason in the manifest.
\<close>

end
